(* ===== verification/Prelude.thy ===== *)
theory Prelude
  imports "HOL-Library.Word" "HOL-Library.Sublist" "HOL-Library.Product_Lexorder"
    "HOL-Library.List_Lexorder" "HOL-Library.Char_ord" "HOL-Library.Code_Target_Nat"
begin

unbundle bit_operations_syntax

text \<open>
  What the components share: the machine integers of the Rust sources, the result type of
  fallible code with its early-return combinators, little-endian byte strings, the slice and
  string functions of the Rust standard library that the sources call, and the lemma
  collections the component proofs use.

  A Rust \<open>i32\<close> or \<open>i64\<close> is an \<open>int\<close>, with the wrap-around of the release profile
  (the workspace sets no \<open>overflow-checks\<close>) written out where the source adds or subtracts;
  \<open>u8\<close>, \<open>u32\<close> and \<open>u64\<close> are words; \<open>usize\<close> is a \<open>nat\<close> below \<open>2 ^ 64\<close>.  A \<open>str\<close> is the list of
  its UTF-8 bytes as characters.
\<close>

named_theorems result_simps "inversion of successful results"
named_theorems int_width "bounds of fixed-width integers"

type_synonym u8 = "8 word"
type_synonym u32 = "32 word"
type_synonym u64 = "64 word"
type_synonym bytes = "8 word list"
type_synonym ('e, 'a) result = "'e + 'a"

section \<open>Results and early returns\<close>

text \<open>Rust's \<open>?\<close>: continue with the value, or return the error.\<close>

definition rbind :: "'e + 'a \<Rightarrow> ('a \<Rightarrow> 'e + 'b) \<Rightarrow> 'e + 'b" where
  "rbind m f = (case m of Inl e \<Rightarrow> Inl e | Inr x \<Rightarrow> f x)"

text \<open>\<open>ensure!(c, e)\<close> followed by the rest of the body.\<close>

definition ensure :: "bool \<Rightarrow> 'e \<Rightarrow> 'e + 'a \<Rightarrow> 'e + 'a" where
  "ensure c e k = (if c then k else Inl e)"

text \<open>\<open>ok_or_else\<close> and \<open>context\<close> on an option.\<close>

definition ok_or :: "'e \<Rightarrow> 'a option \<Rightarrow> 'e + 'a" where
  "ok_or e m = (case m of None \<Rightarrow> Inl e | Some x \<Rightarrow> Inr x)"

text \<open>\<open>Result::ok\<close>.\<close>

definition result_ok :: "'e + 'a \<Rightarrow> 'a option" where
  "result_ok m = (case m of Inl _ \<Rightarrow> None | Inr x \<Rightarrow> Some x)"

definition is_ok :: "'e + 'a \<Rightarrow> bool" where
  "is_ok m = (case m of Inl _ \<Rightarrow> False | Inr _ \<Rightarrow> True)"

lemma rbind_Inr [simp]: "rbind (Inr x) f = f x"
  and rbind_Inl [simp]: "rbind (Inl e) f = Inl e"
  by (simp_all add: rbind_def)

lemma rbind_eq_Inr [result_simps]: "rbind m f = Inr y \<longleftrightarrow> (\<exists>x. m = Inr x \<and> f x = Inr y)"
  by (cases m) simp_all

lemma rbind_eq_Inl [result_simps]:
  "rbind m f = Inl e \<longleftrightarrow> m = Inl e \<or> (\<exists>x. m = Inr x \<and> f x = Inl e)"
  by (cases m) simp_all

lemma ensure_eq_Inr [result_simps]: "ensure c e k = Inr y \<longleftrightarrow> c \<and> k = Inr y"
  and ensure_True [simp]: "ensure True e k = k"
  and ensure_False [simp]: "ensure False e k = Inl e"
  by (simp_all add: ensure_def)

lemma ok_or_eq_Inr [result_simps]: "ok_or e m = Inr y \<longleftrightarrow> m = Some y"
  by (cases m) (simp_all add: ok_or_def)

lemma ok_or_simps [simp]: "ok_or e (Some x) = Inr x" "ok_or e None = Inl e"
  by (simp_all add: ok_or_def)

lemma result_ok_eq_Some [result_simps]: "result_ok m = Some y \<longleftrightarrow> m = Inr y"
  by (cases m) (simp_all add: result_ok_def)

lemma is_ok_iff [result_simps]: "is_ok m \<longleftrightarrow> (\<exists>x. m = Inr x)"
  by (cases m) (simp_all add: is_ok_def)

section \<open>Fixed-width integers\<close>

definition i32_ok :: "int \<Rightarrow> bool" where
  "i32_ok x \<longleftrightarrow> - (2 ^ 31) \<le> x \<and> x < 2 ^ 31"

definition wrap_i32 :: "int \<Rightarrow> int" where
  "wrap_i32 x = (x + 2 ^ 31) mod 2 ^ 32 - 2 ^ 31"

definition checked_i32 :: "int \<Rightarrow> int option" where
  "checked_i32 x = (if i32_ok x then Some x else None)"

text \<open>Saturating arithmetic clamps the exact result.\<close>

definition sat_i32 :: "int \<Rightarrow> int" where
  "sat_i32 x = max (- (2 ^ 31)) (min x (2 ^ 31 - 1))"

definition i64_ok :: "int \<Rightarrow> bool" where
  "i64_ok x \<longleftrightarrow> - (2 ^ 63) \<le> x \<and> x < 2 ^ 63"

definition sat_i64 :: "int \<Rightarrow> int" where
  "sat_i64 x = max (- (2 ^ 63)) (min x (2 ^ 63 - 1))"

lemma wrap_i32_id [simp]: "i32_ok x \<Longrightarrow> wrap_i32 x = x"
  by (simp add: i32_ok_def wrap_i32_def)

lemma wrap_i32_ok [int_width]: "i32_ok (wrap_i32 x)"
proof -
  have "0 \<le> (x + 2 ^ 31) mod (2 ^ 32 :: int)" and "(x + 2 ^ 31) mod (2 ^ 32 :: int) < 2 ^ 32"
    by simp_all
  then show ?thesis by (simp add: i32_ok_def wrap_i32_def)
qed

lemma sat_i32_id [simp]: "i32_ok x \<Longrightarrow> sat_i32 x = x"
  by (simp add: i32_ok_def sat_i32_def)

lemma sat_i32_ok [int_width]: "i32_ok (sat_i32 x)"
  by (simp add: i32_ok_def sat_i32_def)

lemma checked_i32_eq_Some [result_simps]: "checked_i32 x = Some y \<longleftrightarrow> i32_ok x \<and> y = x"
  by (auto simp: checked_i32_def)

section \<open>Little-endian byte strings\<close>

fun le_nat :: "bytes \<Rightarrow> nat" where
  "le_nat [] = 0"
| "le_nat (b # bs) = unat b + 256 * le_nat bs"

text \<open>The encoding \<open>to_le_bytes\<close> inverts: \<open>k\<close> bytes, least significant first.\<close>

fun le_bytes :: "nat \<Rightarrow> nat \<Rightarrow> bytes" where
  "le_bytes 0 n = []"
| "le_bytes (Suc k) n = word_of_nat (n mod 256) # le_bytes k (n div 256)"

definition u32_from_le :: "bytes \<Rightarrow> u32" where
  "u32_from_le bs = word_of_nat (le_nat bs)"

definition i32_from_le :: "bytes \<Rightarrow> int" where
  "i32_from_le bs = sint (u32_from_le bs)"

text \<open>An \<open>i32\<close> reinterpreted as \<open>u32\<close> (\<open>as u32\<close>).\<close>

definition i32_as_u32 :: "int \<Rightarrow> u32" where
  "i32_as_u32 x = word_of_int x"

lemma length_le_bytes [simp]: "length (le_bytes k n) = k"
  by (induction k arbitrary: n) auto

lemma le_nat_bound: "le_nat bs < 256 ^ length bs"
proof (induction bs)
  case Nil
  then show ?case by simp
next
  case (Cons b bs)
  have "unat b < 256" using unsigned_less [of b] by simp
  with Cons show ?case by simp
qed

lemma le_nat_le_bytes: "n < 256 ^ k \<Longrightarrow> le_nat (le_bytes k n) = n"
proof (induction k arbitrary: n)
  case 0
  then show ?case by simp
next
  case (Suc k)
  have "n div 256 < 256 ^ k"
    using Suc.prems by (simp add: less_mult_imp_div_less)
  moreover have "unat (word_of_nat (n mod 256) :: u8) = n mod 256"
    by (simp add: unat_of_nat)
  ultimately show ?case using Suc.IH by simp
qed

lemma le_bytes_le_nat: "le_bytes (length bs) (le_nat bs) = bs"
proof (induction bs)
  case Nil
  then show ?case by simp
next
  case (Cons b bs)
  have "unat b < 256" using unsigned_less [of b] by simp
  with Cons show ?case by (simp add: word_of_nat_eq_iff)
qed

lemma unat_of_nat_u32: "unat (word_of_nat n :: u32) = n mod 2 ^ 32"
  by (simp add: unat_of_nat)

lemma u32_from_le_bytes [simp]: "u32_from_le (le_bytes 4 (unat w)) = w"
proof -
  have "unat w < 256 ^ 4" using unsigned_less [of w] by simp
  then show ?thesis by (simp add: u32_from_le_def le_nat_le_bytes del: le_bytes.simps)
qed

lemma i32_as_u32_sint [simp]: "i32_as_u32 (sint w) = w"
  by (simp add: i32_as_u32_def)

lemma i32_from_le_ok [int_width]: "i32_ok (i32_from_le bs)"
  using sint_ge [of "u32_from_le bs"] sint_lt [of "u32_from_le bs"]
  by (simp add: i32_ok_def i32_from_le_def)

section \<open>Slices\<close>

text \<open>\<open>&xs[a..b]\<close>; the callers check the bounds first.\<close>

definition slice :: "'a list \<Rightarrow> nat \<Rightarrow> nat \<Rightarrow> 'a list" where
  "slice xs a b = take (b - a) (drop a xs)"

text \<open>\<open>xs.get(i)\<close>.\<close>

definition get_at :: "'a list \<Rightarrow> nat \<Rightarrow> 'a option" where
  "get_at xs i = (if i < length xs then Some (xs ! i) else None)"

text \<open>\<open>xs.windows(n)\<close> for a positive \<open>n\<close>.\<close>

fun windows :: "nat \<Rightarrow> 'a list \<Rightarrow> 'a list list" where
  "windows n [] = []"
| "windows n (x # xs) =
     (if n = 0 \<or> length (x # xs) < n then [] else take n (x # xs) # windows n xs)"

text \<open>\<open>Iterator::position\<close> and \<open>Iterator::find_map\<close>.\<close>

fun position :: "('a \<Rightarrow> bool) \<Rightarrow> 'a list \<Rightarrow> nat option" where
  "position p [] = None"
| "position p (x # xs) = (if p x then Some 0 else map_option Suc (position p xs))"

fun find_map :: "('a \<Rightarrow> 'b option) \<Rightarrow> 'a list \<Rightarrow> 'b option" where
  "find_map f [] = None"
| "find_map f (x # xs) = (case f x of Some y \<Rightarrow> Some y | None \<Rightarrow> find_map f xs)"

lemma length_slice [simp]: "b \<le> length xs \<Longrightarrow> length (slice xs a b) = b - a"
  by (simp add: slice_def)

lemma slice_append [simp]: "a \<le> b \<Longrightarrow> b \<le> c \<Longrightarrow> slice xs a b @ slice xs b c = slice xs a c"
  using take_add [of "b - a" "c - b" "drop a xs"] by (simp add: slice_def)

lemma slice_all [simp]: "slice xs 0 (length xs) = xs"
  by (simp add: slice_def)

lemma length_windows: "0 < n \<Longrightarrow> length (windows n xs) = Suc (length xs) - n"
  by (induction xs) auto

lemma nth_windows:
  "0 < n \<Longrightarrow> i < length (windows n xs) \<Longrightarrow> windows n xs ! i = take n (drop i xs)"
proof (induction xs arbitrary: i)
  case Nil
  then show ?case by simp
next
  case (Cons x xs)
  then show ?case by (cases i) (auto split: if_splits)
qed

lemma position_eq_Some:
  "position p xs = Some i \<longleftrightarrow> i < length xs \<and> p (xs ! i) \<and> (\<forall>j < i. \<not> p (xs ! j))"
proof (induction xs arbitrary: i)
  case Nil
  then show ?case by simp
next
  case (Cons x xs)
  show ?case
    by (cases i) (auto simp: Cons.IH less_Suc_eq_0_disj)
qed

lemma position_eq_None: "position p xs = None \<longleftrightarrow> (\<forall>x \<in> set xs. \<not> p x)"
  by (induction xs) auto

lemma find_map_first:
  assumes "find_map f xs = Some y"
  obtains pre x post where "xs = pre @ x # post" and "f x = Some y" and "\<forall>z \<in> set pre. f z = None"
  using assms
proof (induction xs arbitrary: thesis)
  case Nil
  then show ?case by simp
next
  case (Cons x xs)
  show ?case
  proof (cases "f x")
    case None
    with Cons.prems(2) have "find_map f xs = Some y" by simp
    then obtain pre z post where "xs = pre @ z # post" "f z = Some y" "\<forall>w \<in> set pre. f w = None"
      using Cons.IH by blast
    with None show ?thesis using Cons.prems(1) [of "x # pre" z post] by simp
  next
    case (Some z)
    with Cons.prems(2) show ?thesis using Cons.prems(1) [of "[]" x xs] by simp
  qed
qed

lemma find_map_eq_None: "find_map f xs = None \<longleftrightarrow> (\<forall>x \<in> set xs. f x = None)"
  by (induction xs) (auto split: option.splits)

lemma find_map_in_set: "find_map f xs = Some y \<Longrightarrow> \<exists>x \<in> set xs. f x = Some y"
  by (induction xs) (auto split: option.splits)

text \<open>The first offset of \<open>needle\<close> in \<open>haystack\<close>, as \<open>windows(..).position(..)\<close> finds it.\<close>

definition occurs_at :: "'a list \<Rightarrow> 'a list \<Rightarrow> nat \<Rightarrow> bool" where
  "occurs_at needle haystack i \<longleftrightarrow>
     i + length needle \<le> length haystack \<and> take (length needle) (drop i haystack) = needle"

lemma position_windows_eq_Some:
  assumes "needle \<noteq> []"
  shows "position (\<lambda>w. w = needle) (windows (length needle) haystack) = Some i \<longleftrightarrow>
     occurs_at needle haystack i \<and> (\<forall>j < i. \<not> occurs_at needle haystack j)"
proof -
  have pos: "0 < length needle" using assms by simp
  have at: "occurs_at needle haystack j \<longleftrightarrow>
      j < length (windows (length needle) haystack) \<and>
      windows (length needle) haystack ! j = needle" for j
    using pos by (auto simp: occurs_at_def length_windows nth_windows)
  show ?thesis by (auto simp: position_eq_Some at)
qed

lemma position_windows_eq_None:
  assumes "needle \<noteq> []"
  shows "position (\<lambda>w. w = needle) (windows (length needle) haystack) = None \<longleftrightarrow>
     (\<forall>i. \<not> occurs_at needle haystack i)"
proof -
  have pos: "0 < length needle" using assms by simp
  show ?thesis
    using pos by (auto simp: position_eq_None in_set_conv_nth occurs_at_def length_windows nth_windows)
qed

section \<open>Strings\<close>

definition char_of_byte :: "u8 \<Rightarrow> char" where
  "char_of_byte b = char_of (unat b)"

text \<open>\<open>[String]::join\<close>.\<close>

fun str_join :: "string \<Rightarrow> string list \<Rightarrow> string" where
  "str_join sep [] = []"
| "str_join sep [s] = s"
| "str_join sep (s # t # ts) = s @ sep @ str_join sep (t # ts)"

text \<open>The UTF-8 encodings of the characters with the Unicode property \<open>White_Space\<close>.\<close>

definition white_space :: "string list" where
  "white_space = map (map char_of)
     ([[9], [10], [11], [12], [13], [32], [0xC2, 0x85], [0xC2, 0xA0], [0xE1, 0x9A, 0x80]] @
      map (\<lambda>b. [0xE2, 0x80, b]) ([0x80..<0x8B] @ [0xA8, 0xA9, 0xAF]) @
      [[0xE2, 0x81, 0x9F], [0xE3, 0x80, 0x80 :: nat]])"

lemma white_space_nonempty: "w \<in> set white_space \<Longrightarrow> w \<noteq> []"
  by (auto simp: white_space_def)

text \<open>\<open>str::trim\<close>: drop white space from both ends.\<close>

function strip_leading :: "string list \<Rightarrow> string \<Rightarrow> string" where
  "strip_leading ws s =
     (case find (\<lambda>w. w \<noteq> [] \<and> take (length w) s = w) ws of
        None \<Rightarrow> s | Some w \<Rightarrow> strip_leading ws (drop (length w) s))"
  by pat_completeness auto
termination
proof (relation "measure (\<lambda>(_, s). length s)")
  fix ws :: "string list" and s w :: string
  assume "find (\<lambda>w. w \<noteq> [] \<and> take (length w) s = w) ws = Some w"
  then have "w \<noteq> []" "take (length w) s = w" by (auto simp: find_Some_iff)
  then have "0 < length w" "s \<noteq> []" by auto
  then show "((ws, drop (length w) s), ws, s) \<in> measure (\<lambda>(_, s). length s)" by simp
qed simp

declare strip_leading.simps [simp del]

definition str_trim :: "string \<Rightarrow> string" where
  "str_trim s = rev (strip_leading (map rev white_space) (rev (strip_leading white_space s)))"

lemma set_strip_leading: "set (strip_leading ws s) \<subseteq> set s"
proof (induction ws s rule: strip_leading.induct)
  case (1 ws s)
  show ?case
  proof (cases "find (\<lambda>w. w \<noteq> [] \<and> take (length w) s = w) ws")
    case None
    then show ?thesis by (subst strip_leading.simps) simp
  next
    case (Some w)
    have "set (strip_leading ws (drop (length w) s)) \<subseteq> set s"
      using 1 [OF Some] set_drop_subset [of "length w" s] by blast
    then show ?thesis using Some by (subst strip_leading.simps) simp
  qed
qed

lemma set_str_trim: "set (str_trim s) \<subseteq> set s"
  using set_strip_leading [of "map rev white_space" "rev (strip_leading white_space s)"]
    set_strip_leading [of white_space s] by (auto simp: str_trim_def)

end
