(* ===== verification/Bitcoin_Lib.thy ===== *)
theory Bitcoin_Lib
  imports Prelude
begin

text \<open>
  The \<open>bitcoin\<close> crate is not part of the repository.  Its public data types are records here,
  and the functions the sources call (consensus codecs, hashes, targets, addresses) are the
  fields of one parameter record, \<open>bitcoin_lib\<close>, which every definition that calls them takes as
  its first argument.  What the proofs rely on is stated as the predicates \<open>lib_*_ok\<close>: documented
  behaviour of the codecs and hash types.  \<open>demo_lib\<close> is a small concrete library that satisfies
  them, for the witnesses.
\<close>

section \<open>Data types of the library\<close>

record header =
  h_version :: int
  h_prev_blockhash :: bytes
  h_merkle_root :: bytes
  h_time :: u32
  h_bits :: u32
  h_nonce :: u32

record txin =
  i_prev_txid :: bytes
  i_prev_vout :: u32
  i_script_sig :: bytes
  i_sequence :: u32
  i_witness :: "bytes list"

record txout =
  o_value :: u64
  o_script_pubkey :: bytes

record transaction =
  tx_version :: int
  tx_lock_time :: u32
  tx_input :: "txin list"
  tx_output :: "txout list"

record block =
  b_header :: header
  b_txdata :: "transaction list"

abbreviation header_size :: nat where "header_size \<equiv> 80"

section \<open>The functions the sources call\<close>

record bitcoin_lib =
  sha256d :: "bytes \<Rightarrow> bytes"
  block_hash :: "header \<Rightarrow> bytes"
  compute_txid :: "transaction \<Rightarrow> bytes"
  is_coinbase :: "transaction \<Rightarrow> bool"
  deserialize_header :: "bytes \<Rightarrow> header option"
  serialize_header :: "header \<Rightarrow> bytes"
  deserialize_partial_tx :: "bytes \<Rightarrow> (transaction \<times> nat) option"
  deserialize_tx :: "bytes \<Rightarrow> transaction option"
  deserialize_block :: "bytes \<Rightarrow> block option"
  check_merkle_root :: "block \<Rightarrow> bool"
  deserialize_txouts :: "bytes \<Rightarrow> txout list option"
  serialize_txouts :: "txout list \<Rightarrow> bytes"
  target_from_compact :: "u32 \<Rightarrow> nat"
  target_from_be_bytes :: "bytes \<Rightarrow> nat"
  target_is_met_by :: "nat \<Rightarrow> bytes \<Rightarrow> bool"
  address_from_script :: "bytes \<Rightarrow> string option"

section \<open>What the proofs rely on\<close>

text \<open>Hashes are 32 bytes.\<close>

definition lib_hash_ok :: "bitcoin_lib \<Rightarrow> bool" where
  "lib_hash_ok L \<longleftrightarrow>
     (\<forall>b. length (sha256d L b) = 32) \<and> (\<forall>h. length (block_hash L h) = 32) \<and>
     (\<forall>t. length (compute_txid L t) = 32)"

text \<open>
  A partial decode reports how many bytes it consumed, at least the 4-byte version and the
  input count, and reads nothing beyond them.
\<close>

definition lib_tx_ok :: "bitcoin_lib \<Rightarrow> bool" where
  "lib_tx_ok L \<longleftrightarrow>
     (\<forall>b tx n. deserialize_partial_tx L b = Some (tx, n) \<longrightarrow>
        4 < n \<and> n \<le> length b \<and>
        (\<forall>c. take n c = take n b \<longrightarrow> deserialize_partial_tx L c = Some (tx, n)))"

text \<open>An 80-byte header encoding is exact in both directions.\<close>

definition lib_header_ok :: "bitcoin_lib \<Rightarrow> bool" where
  "lib_header_ok L \<longleftrightarrow>
     (\<forall>b h. deserialize_header L b = Some h \<longrightarrow> length b = header_size \<and> serialize_header L h = b)"

text \<open>A coinbase transaction has exactly one input.\<close>

definition lib_coinbase_ok :: "bitcoin_lib \<Rightarrow> bool" where
  "lib_coinbase_ok L \<longleftrightarrow> (\<forall>t. is_coinbase L t \<longrightarrow> length (tx_input t) = 1)"

lemma lib_tx_okD:
  assumes "lib_tx_ok L" and "deserialize_partial_tx L b = Some (tx, n)"
  shows "4 < n" and "n \<le> length b"
    and "take n c = take n b \<Longrightarrow> deserialize_partial_tx L c = Some (tx, n)"
  using assms unfolding lib_tx_ok_def by blast+

section \<open>A concrete library for the witnesses\<close>

definition demo_header :: "bytes \<Rightarrow> header option" where
  "demo_header b =
     (if length b = header_size then
        Some \<lparr>h_version = i32_from_le (slice b 0 4), h_prev_blockhash = slice b 4 36,
              h_merkle_root = slice b 36 68, h_time = u32_from_le (slice b 68 72),
              h_bits = u32_from_le (slice b 72 76), h_nonce = u32_from_le (slice b 76 80)\<rparr>
      else None)"

definition demo_header_bytes :: "header \<Rightarrow> bytes" where
  "demo_header_bytes h =
     le_bytes 4 (unat (i32_as_u32 (h_version h))) @ h_prev_blockhash h @ h_merkle_root h @
     le_bytes 4 (unat (h_time h)) @ le_bytes 4 (unat (h_bits h)) @ le_bytes 4 (unat (h_nonce h))"

text \<open>
  The demonstration transactions are a 4-byte version, a length byte and that many script bytes;
  the hash keeps the first 32 bytes of the padded input.
\<close>

definition demo_script_tx :: "bytes \<Rightarrow> transaction" where
  "demo_script_tx s =
     \<lparr>tx_version = 1, tx_lock_time = 0,
      tx_input = [\<lparr>i_prev_txid = replicate 32 0, i_prev_vout = 0xFFFFFFFF, i_script_sig = s,
                  i_sequence = 0, i_witness = []\<rparr>],
      tx_output = []\<rparr>"

definition demo_tx :: "bytes \<Rightarrow> (transaction \<times> nat) option" where
  "demo_tx b =
     (if length b < 5 then None
      else let n = 5 + unat (b ! 4)
           in if length b < n then None else Some (demo_script_tx (slice b 5 n), n))"

definition demo_hash :: "bytes \<Rightarrow> bytes" where
  "demo_hash b = take 32 (b @ replicate 32 0)"

definition demo_script :: "transaction \<Rightarrow> bytes" where
  "demo_script t = concat (map i_script_sig (tx_input t))"

definition demo_block :: "bytes \<Rightarrow> block option" where
  "demo_block b =
     (case demo_header (take header_size b) of
        None \<Rightarrow> None
      | Some h \<Rightarrow> (case demo_tx (drop (Suc header_size) b) of
            None \<Rightarrow> None
          | Some (tx, n) \<Rightarrow>
              if length b = Suc header_size + n
              then Some \<lparr>b_header = h, b_txdata = [tx]\<rparr> else None))"

definition demo_lib :: bitcoin_lib where
  "demo_lib =
     \<lparr>sha256d = demo_hash, block_hash = (\<lambda>h. demo_hash (demo_header_bytes h)),
      compute_txid = (\<lambda>t. demo_hash (demo_script t)), is_coinbase = (\<lambda>t. length (tx_input t) = 1),
      deserialize_header = demo_header, serialize_header = demo_header_bytes,
      deserialize_partial_tx = demo_tx,
      deserialize_tx = (\<lambda>b. case demo_tx b of Some (tx, n) \<Rightarrow> if n = length b then Some tx else None
                            | None \<Rightarrow> None),
      deserialize_block = demo_block, check_merkle_root = (\<lambda>_. True),
      deserialize_txouts = (\<lambda>b. if b = [] then Some [] else None), serialize_txouts = (\<lambda>_. []),
      target_from_compact = (\<lambda>w. unat (w AND 0xFFFFFF)), target_from_be_bytes = (\<lambda>b. le_nat (rev b)),
      target_is_met_by = (\<lambda>t h. le_nat (take 4 h) \<le> t), address_from_script = (\<lambda>_. None)\<rparr>"

lemma length_demo_hash [simp]: "length (demo_hash b) = 32"
  by (simp add: demo_hash_def min_def)

lemma demo_header_exact:
  assumes "demo_header b = Some h"
  shows "length b = header_size" and "demo_header_bytes h = b"
proof -
  show len: "length b = header_size"
    using assms by (simp add: demo_header_def split: if_splits)
  have word: "le_bytes 4 (unat (u32_from_le s)) = s" if "length s = 4" for s
  proof -
    have "le_nat s < 2 ^ 32" using le_nat_bound [of s] that by simp
    then have "unat (u32_from_le s) = le_nat s" by (simp add: u32_from_le_def unat_of_nat)
    then show ?thesis using le_bytes_le_nat [of s] that by simp
  qed
  have "b = slice b 0 4 @ slice b 4 36 @ slice b 36 68 @ slice b 68 72 @ slice b 72 76 @ slice b 76 80"
    using slice_all [of b] len by simp
  moreover have "demo_header_bytes h =
      slice b 0 4 @ slice b 4 36 @ slice b 36 68 @ slice b 68 72 @ slice b 72 76 @ slice b 76 80"
    using assms len
    by (auto simp: demo_header_def demo_header_bytes_def i32_from_le_def word)
  ultimately show "demo_header_bytes h = b" by simp
qed

lemma demo_tx_bounds: "demo_tx b = Some (tx, n) \<Longrightarrow> 4 < n \<and> n \<le> length b"
  by (auto simp: demo_tx_def Let_def split: if_splits)

lemma demo_tx_prefix:
  assumes tx: "demo_tx b = Some (tx, n)" and eq: "take n c = take n b"
  shows "demo_tx c = Some (tx, n)"
proof -
  from tx have n: "5 \<le> n" "n \<le> length b" "n = 5 + unat (b ! 4)"
      "tx = demo_script_tx (slice b 5 n)"
    by (auto simp: demo_tx_def Let_def split: if_splits)
  have "length (take n c) = n" using eq n(2) by simp
  then have len: "n \<le> length c" by (simp add: min_def split: if_splits)
  have "take n c ! 4 = take n b ! 4" using eq by (rule arg_cong)
  then have nth: "c ! 4 = b ! 4" using n(1) by simp
  have "drop 5 (take n c) = drop 5 (take n b)" using eq by (rule arg_cong)
  then have "slice c 5 n = slice b 5 n" by (simp add: slice_def drop_take)
  with n len nth show ?thesis by (simp add: demo_tx_def Let_def)
qed

lemma demo_lib_ok:
  shows "lib_hash_ok demo_lib" and "lib_tx_ok demo_lib" and "lib_header_ok demo_lib"
    and "lib_coinbase_ok demo_lib"
proof -
  show "lib_hash_ok demo_lib"
    by (simp add: lib_hash_ok_def demo_lib_def)
  show "lib_header_ok demo_lib"
    unfolding lib_header_ok_def demo_lib_def using demo_header_exact by simp
  show "lib_coinbase_ok demo_lib"
    by (simp add: lib_coinbase_ok_def demo_lib_def)
  have "deserialize_partial_tx demo_lib = demo_tx" by (simp add: demo_lib_def)
  then show "lib_tx_ok demo_lib"
    unfolding lib_tx_ok_def using demo_tx_bounds demo_tx_prefix by metis
qed

end
