(* ===== verification/AuxPow_Reader.thy ===== *)
theory AuxPow_Reader
  imports Bitcoin_Lib
begin

text \<open>
  \<open>crates/mmm-capture/src/auxpow/reader.rs\<close>: the bounded byte cursor and the readers of
  transactions, Merkle branches and the \<open>CAuxPow\<close> record, with the error values of the
  \<open>auxpow\<close> module.  The cursor's contract is the locale \<open>byte_cursor\<close>; every reader built from it
  consumes exactly a prefix of the remaining bytes and depends on nothing beyond that prefix.
\<close>

section \<open>Errors of the auxpow module\<close>

datatype reader_error =
    ReaderPositionOverflow
  | UnexpectedEof nat nat
  | VarintOverflowsUsize
  | DeserializeHeader
  | ParseTransaction
  | MerkleBranchCount nat nat

datatype block_error =
    ShortBlock
  | ShortBlob
  | MissingAuxpowBit
  | NoChildTransactions
  | MissingTransactionVector
  | DeserializeChildBlock
  | ChildMerkleRoot
  | ChildBlockEmpty
  | ChildNotCoinbase
  | ChildNoInputs
  | ChildHashMismatch
  | ElastosTooLarge nat
  | ElastosTrailing

datatype evidence_error =
    RequestedHashMismatch
  | ParentNotCoinbase
  | UnexpectedChainId
  | ParentCarriesChainId
  | ChildHeightMismatch
  | ParentMissesChildTarget

datatype commitment_error =
    MarkerAbsent
  | MultipleMarkers
  | CommitmentTruncated
  | ChainBranchTooDeep nat
  | TreeSizeMismatch u32 nat
  | NegativeCoinbaseIndex
  | NegativeChainIndex
  | CoinbaseNotFirst int
  | SlotMismatch u32 u32
  | CoinbaseRootMismatch
  | ChainRootMismatch
  | CommitmentMissing
  | MarkerNotBeforeRoot
  | MarkerlessRootTooLate

datatype qbit_error =
    QbitHeightRange
  | QbitHeightMismatch
  | QbitTrailingDirect
  | QbitDirectTarget
  | QbitTrailingAuxpow
  | QbitParentTarget
  | QbitMinimumVersion u32
  | QbitTopBits u32
  | QbitReservedBits u32
  | QbitChainId u32
  | QbitInvalidTarget
  | QbitBranchCount nat nat
  | QbitWitnessEncoding
  | QbitNotCoinbase
  | QbitNoInputPanic
  | QbitChainIndexRange int nat

text \<open>\<open>QbitProofError\<close> marks the errors of a Qbit proof, which the capture downcasts to.\<close>

datatype auxpow_error =
    ReaderErr reader_error
  | BlockErr block_error
  | EvidenceErr evidence_error
  | CommitErr commitment_error
  | QbitErr qbit_error
  | QbitProofError auxpow_error

section \<open>The byte cursor\<close>

record reader =
  r_buf :: bytes
  r_pos :: nat

definition reader_new :: "bytes \<Rightarrow> reader" where
  "reader_new b = \<lparr>r_buf = b, r_pos = 0\<rparr>"

definition is_eof :: "reader \<Rightarrow> bool" where
  "is_eof r \<longleftrightarrow> length (r_buf r) \<le> r_pos r"

definition remaining_slice :: "reader \<Rightarrow> bytes" where
  "remaining_slice r = drop (r_pos r) (r_buf r)"

definition read_slice :: "nat \<Rightarrow> reader \<Rightarrow> (auxpow_error, bytes \<times> reader) result" where
  "read_slice len r =
     (let stop = r_pos r + len
      in ensure (stop < 2 ^ 64) (ReaderErr ReaderPositionOverflow)
        (ensure (stop \<le> length (r_buf r)) (ReaderErr (UnexpectedEof (r_pos r) len))
           (Inr (slice (r_buf r) (r_pos r) stop, r\<lparr>r_pos := stop\<rparr>))))"

definition skip_bytes :: "nat \<Rightarrow> reader \<Rightarrow> (auxpow_error, reader) result" where
  "skip_bytes len r = rbind (read_slice len r) (\<lambda>(_, r'). Inr r')"

definition read_u8 :: "reader \<Rightarrow> (auxpow_error, u8 \<times> reader) result" where
  "read_u8 r = rbind (read_slice 1 r) (\<lambda>(a, r'). Inr (a ! 0, r'))"

definition read_i32 :: "reader \<Rightarrow> (auxpow_error, int \<times> reader) result" where
  "read_i32 r = rbind (read_slice 4 r) (\<lambda>(a, r'). Inr (i32_from_le a, r'))"

definition read_varint :: "reader \<Rightarrow> (auxpow_error, nat \<times> reader) result" where
  "read_varint r =
     rbind (read_u8 r) (\<lambda>(first, r').
       if first \<le> 0xFC then Inr (unat first, r')
       else if first = 0xFD then rbind (read_slice 2 r') (\<lambda>(a, r''). Inr (le_nat a, r''))
       else if first = 0xFE then rbind (read_slice 4 r') (\<lambda>(a, r''). Inr (le_nat a, r''))
       else rbind (read_slice 8 r') (\<lambda>(a, r''). Inr (le_nat a, r'')))"

definition read_varint_usize :: "reader \<Rightarrow> (auxpow_error, nat \<times> reader) result" where
  "read_varint_usize r =
     rbind (read_varint r) (\<lambda>(v, r'). ensure (v < 2 ^ 64) (ReaderErr VarintOverflowsUsize) (Inr (v, r')))"

section \<open>Transactions, branches and the CAuxPow record\<close>

record parsed_header =
  ph_header :: header

record parsed_transaction =
  pt_txid :: bytes
  pt_is_coinbase :: bool
  pt_first_input_script :: "bytes option"
  pt_outputs :: "txout list"

record merkle_branch =
  mb_hashes :: "bytes list"
  mb_index :: int

record parsed_auxpow =
  pa_coinbase_tx :: parsed_transaction
  pa_hash_block :: bytes
  pa_coinbase_branch :: merkle_branch
  pa_chain_branch :: merkle_branch
  pa_parent_header :: parsed_header

definition parse_header :: "bitcoin_lib \<Rightarrow> bytes \<Rightarrow> (auxpow_error, parsed_header) result" where
  "parse_header L raw =
     rbind (ok_or (ReaderErr DeserializeHeader) (deserialize_header L raw)) (\<lambda>h. Inr \<lparr>ph_header = h\<rparr>)"

definition first_script :: "transaction \<Rightarrow> bytes option" where
  "first_script tx = (case tx_input tx of [] \<Rightarrow> None | i # _ \<Rightarrow> Some (i_script_sig i))"

definition read_transaction ::
  "bitcoin_lib \<Rightarrow> reader \<Rightarrow> (auxpow_error, parsed_transaction \<times> reader) result" where
  "read_transaction L r =
     rbind (ok_or (ReaderErr ParseTransaction) (deserialize_partial_tx L (remaining_slice r))) (\<lambda>(tx, consumed).
     rbind (skip_bytes consumed r) (\<lambda>r'.
       Inr (\<lparr>pt_txid = compute_txid L tx, pt_is_coinbase = is_coinbase L tx,
             pt_first_input_script = first_script tx, pt_outputs = tx_output tx\<rparr>, r')))"

text \<open>The loop \<open>for _ in 0..count\<close> that pushes one 32-byte hash per round.\<close>

fun read_hashes :: "nat \<Rightarrow> reader \<Rightarrow> (auxpow_error, bytes list \<times> reader) result" where
  "read_hashes 0 r = Inr ([], r)"
| "read_hashes (Suc n) r =
     rbind (read_slice 32 r) (\<lambda>(h, r').
     rbind (read_hashes n r') (\<lambda>(hs, r''). Inr (h # hs, r'')))"

definition read_merkle_branch :: "reader \<Rightarrow> (auxpow_error, bytes list \<times> reader) result" where
  "read_merkle_branch r =
     rbind (read_varint_usize r) (\<lambda>(count, r').
       ensure (count \<le> length (remaining_slice r') div 32)
         (ReaderErr (MerkleBranchCount count (length (remaining_slice r'))))
         (read_hashes count r'))"

definition read_auxpow ::
  "bitcoin_lib \<Rightarrow> reader \<Rightarrow> (auxpow_error, parsed_auxpow \<times> reader) result" where
  "read_auxpow L r0 =
     rbind (read_transaction L r0) (\<lambda>(coinbase_tx, r1).
     rbind (read_slice 32 r1) (\<lambda>(hash_block, r2).
     rbind (read_merkle_branch r2) (\<lambda>(coinbase_hashes, r3).
     rbind (read_i32 r3) (\<lambda>(coinbase_index, r4).
     rbind (read_merkle_branch r4) (\<lambda>(chain_hashes, r5).
     rbind (read_i32 r5) (\<lambda>(chain_index, r6).
     rbind (read_slice header_size r6) (\<lambda>(raw_header, r7).
     rbind (parse_header L raw_header) (\<lambda>parent_header.
       Inr (\<lparr>pa_coinbase_tx = coinbase_tx, pa_hash_block = hash_block,
             pa_coinbase_branch = \<lparr>mb_hashes = coinbase_hashes, mb_index = coinbase_index\<rparr>,
             pa_chain_branch = \<lparr>mb_hashes = chain_hashes, mb_index = chain_index\<rparr>,
             pa_parent_header = parent_header\<rparr>, r7)))))))))"

section \<open>The contract of the cursor\<close>

locale byte_cursor =
  fixes read :: "nat \<Rightarrow> 'r \<Rightarrow> 'e + bytes \<times> 'r"
    and rest :: "'r \<Rightarrow> bytes"
    and offset :: "'r \<Rightarrow> nat"
    and wf :: "'r \<Rightarrow> bool"
  assumes read_Inr: "wf r \<Longrightarrow> read n r = Inr (bs, r') \<Longrightarrow>
      length bs = n \<and> rest r = bs @ rest r' \<and> offset r' = offset r + n \<and> wf r'"
    and read_enough: "wf r \<Longrightarrow> n \<le> length (rest r) \<Longrightarrow> \<exists>bs r'. read n r = Inr (bs, r')"
begin

text \<open>
  A parser over the cursor consumes a prefix of the remaining bytes, and on any other input that
  starts with the same bytes it gives the same value and leaves what follows them.
\<close>

definition parses :: "('r \<Rightarrow> 'e + 'a \<times> 'r) \<Rightarrow> bool" where
  "parses p \<longleftrightarrow>
     (\<forall>r x r'. wf r \<longrightarrow> p r = Inr (x, r') \<longrightarrow>
        (\<exists>bs. rest r = bs @ rest r' \<and> offset r' = offset r + length bs \<and> wf r' \<and>
           (\<forall>s t. wf s \<longrightarrow> rest s = bs @ t \<longrightarrow>
              (\<exists>s'. p s = Inr (x, s') \<and> rest s' = t \<and> offset s' = offset s + length bs \<and> wf s'))))"

lemma parsesE:
  assumes "parses p" and "wf r" and "p r = Inr (x, r')"
  obtains bs where "rest r = bs @ rest r'" and "offset r' = offset r + length bs" and "wf r'"
    and "\<And>s t. wf s \<Longrightarrow> rest s = bs @ t \<Longrightarrow>
      \<exists>s'. p s = Inr (x, s') \<and> rest s' = t \<and> offset s' = offset s + length bs \<and> wf s'"
  using assms unfolding parses_def by blast

lemma parses_return: "parses (\<lambda>r. Inr (x, r))"
  unfolding parses_def by simp

lemma parses_fail: "parses (\<lambda>r. Inl (e r))"
  unfolding parses_def by simp

lemma parses_read: "parses (read n)"
  unfolding parses_def
proof (intro allI impI)
  fix r bs r'
  assume "wf r" and "read n r = Inr (bs, r')"
  then have bs: "length bs = n" "rest r = bs @ rest r'" "offset r' = offset r + n" "wf r'"
    using read_Inr by blast+
  have "\<exists>s'. read n s = Inr (bs, s') \<and> rest s' = t \<and> offset s' = offset s + length bs \<and> wf s'"
    if s: "wf s" "rest s = bs @ t" for s t
  proof -
    from s bs(1) obtain cs s' where cs: "read n s = Inr (cs, s')"
      using read_enough [of s n] by auto
    with s read_Inr [OF s(1) cs] bs(1) show ?thesis by auto
  qed
  with bs show "\<exists>cs. rest r = cs @ rest r' \<and> offset r' = offset r + length cs \<and> wf r' \<and>
      (\<forall>s t. wf s \<longrightarrow> rest s = cs @ t \<longrightarrow>
        (\<exists>s'. read n s = Inr (bs, s') \<and> rest s' = t \<and> offset s' = offset s + length cs \<and> wf s'))"
    by (intro exI [of _ bs]) auto
qed

lemma parses_bind:
  assumes p: "parses p" and q: "\<And>x. parses (q x)"
  shows "parses (\<lambda>r. rbind (p r) (\<lambda>(x, r'). q x r'))"
  unfolding parses_def
proof (intro allI impI)
  fix r y r''
  assume r: "wf r" and "rbind (p r) (\<lambda>(x, r'). q x r') = Inr (y, r'')"
  then obtain x r' where px: "p r = Inr (x, r')" and qx: "q x r' = Inr (y, r'')"
    by (auto simp: rbind_eq_Inr)
  from p r px obtain bs where bs: "rest r = bs @ rest r'" "offset r' = offset r + length bs" "wf r'"
    and pl: "\<And>s t. wf s \<Longrightarrow> rest s = bs @ t \<Longrightarrow>
      \<exists>s'. p s = Inr (x, s') \<and> rest s' = t \<and> offset s' = offset s + length bs \<and> wf s'"
    by (rule parsesE) blast
  from q bs(3) qx obtain cs where cs: "rest r' = cs @ rest r''" "offset r'' = offset r' + length cs" "wf r''"
    and ql: "\<And>s t. wf s \<Longrightarrow> rest s = cs @ t \<Longrightarrow>
      \<exists>s'. q x s = Inr (y, s') \<and> rest s' = t \<and> offset s' = offset s + length cs \<and> wf s'"
    by (rule parsesE) blast
  have "\<exists>s''. rbind (p s) (\<lambda>(x, r'). q x r') = Inr (y, s'') \<and> rest s'' = t \<and>
      offset s'' = offset s + length (bs @ cs) \<and> wf s''"
    if s: "wf s" "rest s = (bs @ cs) @ t" for s t
  proof -
    from pl [of s "cs @ t"] s obtain s' where "p s = Inr (x, s')" "rest s' = cs @ t"
        "offset s' = offset s + length bs" "wf s'"
      by auto
    with ql [of s' t] show ?thesis by (auto simp: ac_simps)
  qed
  with bs cs show "\<exists>ds. rest r = ds @ rest r'' \<and> offset r'' = offset r + length ds \<and> wf r'' \<and>
      (\<forall>s t. wf s \<longrightarrow> rest s = ds @ t \<longrightarrow>
        (\<exists>s'. rbind (p s) (\<lambda>(x, r'). q x r') = Inr (y, s') \<and> rest s' = t \<and>
          offset s' = offset s + length ds \<and> wf s'))"
    by (intro exI [of _ "bs @ cs"]) auto
qed

lemma parses_lift: "(\<And>x. parses (q x)) \<Longrightarrow> parses (\<lambda>r. rbind m (\<lambda>x. q x r))"
  by (cases m) (simp_all add: parses_fail)

lemma parses_ensure: "parses p \<Longrightarrow> parses (\<lambda>r. ensure c e (p r))"
  by (cases c) (simp_all add: parses_fail)

lemma parses_if: "parses p \<Longrightarrow> parses q \<Longrightarrow> parses (\<lambda>r. if c then p r else q r)"
  by (cases c) simp_all

text \<open>A guard on the remaining length that the guarded parser consumes anyway.\<close>

lemma parses_bounded:
  assumes p: "parses p"
    and need: "\<And>r x r'. wf r \<Longrightarrow> p r = Inr (x, r') \<Longrightarrow> k + length (rest r') \<le> length (rest r)"
  shows "parses (\<lambda>r. ensure (k \<le> length (rest r)) (e r) (p r))"
  unfolding parses_def
proof (intro allI impI)
  fix r x r'
  assume r: "wf r" and "ensure (k \<le> length (rest r)) (e r) (p r) = Inr (x, r')"
  then have px: "p r = Inr (x, r')" by (simp add: ensure_eq_Inr)
  from p r px obtain bs where bs: "rest r = bs @ rest r'" "offset r' = offset r + length bs" "wf r'"
    and pl: "\<And>s t. wf s \<Longrightarrow> rest s = bs @ t \<Longrightarrow>
      \<exists>s'. p s = Inr (x, s') \<and> rest s' = t \<and> offset s' = offset s + length bs \<and> wf s'"
    by (rule parsesE) blast
  from need [OF r px] bs(1) have "k \<le> length bs" by simp
  with bs pl show "\<exists>bs. rest r = bs @ rest r' \<and> offset r' = offset r + length bs \<and> wf r' \<and>
      (\<forall>s t. wf s \<longrightarrow> rest s = bs @ t \<longrightarrow>
        (\<exists>s'. ensure (k \<le> length (rest s)) (e s) (p s) = Inr (x, s') \<and> rest s' = t \<and>
          offset s' = offset s + length bs \<and> wf s'))"
    by (intro exI [of _ bs]) (auto simp: ensure_def)
qed

end

text \<open>The cursor is well formed while it is inside its buffer; a Rust slice is below \<open>2 ^ 63\<close> bytes.\<close>

definition reader_ok :: "reader \<Rightarrow> bool" where
  "reader_ok r \<longleftrightarrow> r_pos r \<le> length (r_buf r) \<and> length (r_buf r) < 2 ^ 63"

interpretation rd: byte_cursor read_slice remaining_slice r_pos reader_ok
proof unfold_locales
  fix r n bs r'
  assume "reader_ok r" and "read_slice n r = Inr (bs, r')"
  then show "length bs = n \<and> remaining_slice r = bs @ remaining_slice r' \<and>
      r_pos r' = r_pos r + n \<and> reader_ok r'"
    using append_take_drop_id [of n "drop (r_pos r) (r_buf r)"]
    by (auto simp: read_slice_def Let_def ensure_eq_Inr reader_ok_def remaining_slice_def slice_def
        add.commute)
next
  fix r n
  assume "reader_ok r" and "n \<le> length (remaining_slice r)"
  then show "\<exists>bs r'. read_slice n r = Inr (bs, r')"
    by (auto simp: read_slice_def Let_def ensure_def reader_ok_def remaining_slice_def)
qed

section \<open>The readers consume exactly what they parse\<close>

lemmas parse_intros = rd.parses_return rd.parses_read rd.parses_lift rd.parses_ensure
  rd.parses_if

lemma reader_new_ok: "length b < 2 ^ 63 \<Longrightarrow> reader_ok (reader_new b)"
  by (simp add: reader_ok_def reader_new_def)

lemma remaining_reader_new [simp]: "remaining_slice (reader_new b) = b"
  and r_pos_reader_new [simp]: "r_pos (reader_new b) = 0"
  by (simp_all add: remaining_slice_def reader_new_def)

lemma is_eof_iff: "reader_ok r \<Longrightarrow> is_eof r \<longleftrightarrow> remaining_slice r = []"
  by (auto simp: is_eof_def reader_ok_def remaining_slice_def)

lemma read_u8_parses: "rd.parses read_u8"
  unfolding read_u8_def by (rule rd.parses_bind) (rule parse_intros)+

lemma read_i32_parses: "rd.parses read_i32"
  unfolding read_i32_def by (rule rd.parses_bind) (rule parse_intros)+

lemma read_varint_parses: "rd.parses read_varint"
  unfolding read_varint_def
  by (rule rd.parses_bind [OF read_u8_parses])
    (intro rd.parses_if rd.parses_return rd.parses_bind rd.parses_read)

lemma read_varint_usize_parses: "rd.parses read_varint_usize"
  unfolding read_varint_usize_def
  by (rule rd.parses_bind [OF read_varint_parses]) (rule rd.parses_ensure, rule rd.parses_return)

lemma read_hashes_parses: "rd.parses (read_hashes n)"
proof (induction n)
  case 0
  have "read_hashes 0 = (\<lambda>r. Inr ([], r))" by (rule ext) simp
  then show ?case by (simp add: rd.parses_return)
next
  case (Suc n)
  have eq: "read_hashes (Suc n) = (\<lambda>r. rbind (read_slice 32 r) (\<lambda>(h, r').
      rbind (read_hashes n r') (\<lambda>(hs, r''). Inr (h # hs, r''))))"
    by (rule ext) simp
  show ?case unfolding eq
    by (intro rd.parses_bind rd.parses_read rd.parses_return Suc)
qed

lemma read_hashes_Inr:
  "reader_ok r \<Longrightarrow> read_hashes n r = Inr (hs, r') \<Longrightarrow>
     length hs = n \<and> (\<forall>h \<in> set hs. length h = 32) \<and>
     32 * n + length (remaining_slice r') = length (remaining_slice r)"
proof (induction n arbitrary: r hs)
  case 0
  then show ?case by simp
next
  case (Suc n)
  then obtain h r1 hs1 where h: "read_slice 32 r = Inr (h, r1)" and hs1: "read_hashes n r1 = Inr (hs1, r')"
    and hs: "hs = h # hs1"
    by (auto simp: rbind_eq_Inr)
  from rd.read_Inr [OF Suc.prems(1) h] have "length h = 32" "reader_ok r1"
      "length (remaining_slice r) = 32 + length (remaining_slice r1)"
    by auto
  with Suc.IH [OF _ hs1] hs show ?case by auto
qed

lemma read_merkle_branch_parses: "rd.parses read_merkle_branch"
proof -
  have eq: "read_merkle_branch = (\<lambda>r. rbind (read_varint_usize r) (\<lambda>(count, r').
      ensure (32 * count \<le> length (remaining_slice r'))
        (ReaderErr (MerkleBranchCount count (length (remaining_slice r')))) (read_hashes count r')))"
    by (rule ext) (simp add: read_merkle_branch_def less_eq_div_iff_mult_less_eq mult.commute)
  show ?thesis unfolding eq
    by (rule rd.parses_bind [OF read_varint_usize_parses], rule rd.parses_bounded [OF read_hashes_parses])
      (auto dest: read_hashes_Inr)
qed

lemma read_transaction_parses:
  assumes L: "lib_tx_ok L"
  shows "rd.parses (read_transaction L)"
  unfolding rd.parses_def
proof (intro allI impI)
  fix r x r'
  assume r: "reader_ok r" and "read_transaction L r = Inr (x, r')"
  then obtain tx n bs where tx: "deserialize_partial_tx L (remaining_slice r) = Some (tx, n)"
    and sk: "read_slice n r = Inr (bs, r')"
    and x: "x = \<lparr>pt_txid = compute_txid L tx, pt_is_coinbase = is_coinbase L tx,
             pt_first_input_script = first_script tx, pt_outputs = tx_output tx\<rparr>"
    by (auto simp: read_transaction_def skip_bytes_def rbind_eq_Inr ok_or_eq_Inr)
  from rd.read_Inr [OF r sk] have bs: "length bs = n" "remaining_slice r = bs @ remaining_slice r'"
    by auto
  from rd.parses_read r sk obtain cs where cs: "remaining_slice r = cs @ remaining_slice r'"
      "r_pos r' = r_pos r + length cs" "reader_ok r'"
    and l: "\<And>s t. reader_ok s \<Longrightarrow> remaining_slice s = cs @ t \<Longrightarrow>
      \<exists>s'. read_slice n s = Inr (bs, s') \<and> remaining_slice s' = t \<and>
        r_pos s' = r_pos s + length cs \<and> reader_ok s'"
    by (rule rd.parsesE) blast
  have "cs = bs" using cs(1) bs(2) by simp
  have "\<exists>s'. read_transaction L s = Inr (x, s') \<and> remaining_slice s' = t \<and>
      r_pos s' = r_pos s + length cs \<and> reader_ok s'"
    if s: "reader_ok s" "remaining_slice s = cs @ t" for s t
  proof -
    have "take n (remaining_slice s) = take n (remaining_slice r)"
      using s(2) bs \<open>cs = bs\<close> by simp
    then have "deserialize_partial_tx L (remaining_slice s) = Some (tx, n)"
      by (rule lib_tx_okD(3) [OF L tx])
    with l [OF s] x show ?thesis
      by (auto simp: read_transaction_def skip_bytes_def)
  qed
  with cs show "\<exists>bs. remaining_slice r = bs @ remaining_slice r' \<and> r_pos r' = r_pos r + length bs \<and>
      reader_ok r' \<and> (\<forall>s t. reader_ok s \<longrightarrow> remaining_slice s = bs @ t \<longrightarrow>
        (\<exists>s'. read_transaction L s = Inr (x, s') \<and> remaining_slice s' = t \<and>
          r_pos s' = r_pos s + length bs \<and> reader_ok s'))"
    by (intro exI [of _ cs]) auto
qed

lemma read_auxpow_parses:
  assumes "lib_tx_ok L"
  shows "rd.parses (read_auxpow L)"
  unfolding read_auxpow_def
  by (intro rd.parses_bind rd.parses_lift read_transaction_parses [OF assms] rd.parses_read
      read_merkle_branch_parses read_i32_parses rd.parses_return)

end
