(* ===== verification/AuxPow_Verify.thy ===== *)
theory AuxPow_Verify
  imports AuxPow_Reader
begin

text \<open>
  \<open>crates/mmm-capture/src/auxpow/verify.rs\<close> and the proof records of \<open>auxpow/mod.rs\<close>: the
  commitment checks of the Elastos and classic proofs, the Merkle fold, the deterministic chain
  slot, compact targets and coinbase heights.  The lemmas show that the fold accepts the
  authentication paths of a binary Merkle tree, that it binds its leaf up to a collision of the
  hash, and that the slot is the integer LCG modulo the tree width.
\<close>

section \<open>Proof records\<close>

record auxpow_proof =
  ap_hash_block :: bytes
  ap_coinbase_branch :: merkle_branch
  ap_chain_branch :: merkle_branch

record parsed_auxpow_block =
  pb_child_header :: parsed_header
  pb_child_height :: "int option"
  pb_child_coinbase_txid :: "bytes option"
  pb_child_coinbase_script :: "bytes option"
  pb_child_coinbase_outputs :: "txout list"
  pb_child_coinbase_output_addresses :: "string list"
  pb_parent_header :: parsed_header
  pb_proof :: auxpow_proof
  pb_parent_coinbase_txid :: bytes
  pb_parent_coinbase_script :: bytes
  pb_parent_coinbase_outputs :: "txout list"
  pb_parent_coinbase_output_addresses :: "string list"
  pb_auxpow_bytes :: bytes

definition auxpow_magic :: bytes where
  "auxpow_magic = [0xFA, 0xBE, 0x6D, 0x6D]"

definition ph_hash :: "bitcoin_lib \<Rightarrow> parsed_header \<Rightarrow> bytes" where
  "ph_hash L p = block_hash L (ph_header p)"

abbreviation ph_bits :: "parsed_header \<Rightarrow> u32" where
  "ph_bits p \<equiv> h_bits (ph_header p)"

section \<open>The Merkle fold and the chain slot\<close>

text \<open>A left shift of a \<open>u32\<close>; the release profile masks the shift amount.\<close>

definition shl_u32 :: "u32 \<Rightarrow> nat \<Rightarrow> u32" where
  "shl_u32 w n = push_bit (n mod 32) w"

definition sha256d_pair :: "bitcoin_lib \<Rightarrow> bytes \<Rightarrow> bytes \<Rightarrow> bytes" where
  "sha256d_pair L left right = sha256d L (left @ right)"

fun fold_branch_loop :: "bitcoin_lib \<Rightarrow> bytes \<Rightarrow> u32 \<Rightarrow> bytes list \<Rightarrow> bytes" where
  "fold_branch_loop L acc index [] = acc"
| "fold_branch_loop L acc index (sib # sibs) =
     fold_branch_loop L
       (if index AND 1 = 1 then sha256d_pair L sib acc else sha256d_pair L acc sib)
       (drop_bit 1 index) sibs"

definition fold_merkle_branch :: "bitcoin_lib \<Rightarrow> bytes \<Rightarrow> merkle_branch \<Rightarrow> bytes" where
  "fold_merkle_branch L leaf br = fold_branch_loop L leaf (i32_as_u32 (mb_index br)) (mb_hashes br)"

definition auxpow_expected_index :: "u32 \<Rightarrow> u32 \<Rightarrow> nat \<Rightarrow> u32" where
  "auxpow_expected_index nonce chain_id branch_len =
     (let rand = nonce;
          rand = rand * 1103515245 + 12345;
          rand = rand + chain_id;
          rand = rand * 1103515245 + 12345
      in rand mod shl_u32 1 branch_len)"

definition find_subslice :: "bytes \<Rightarrow> bytes \<Rightarrow> nat option" where
  "find_subslice haystack needle = position (\<lambda>w. w = needle) (windows (length needle) haystack)"

section \<open>Commitment checks\<close>

definition marker_positions :: "bytes \<Rightarrow> nat list" where
  "marker_positions script =
     map fst (filter (\<lambda>(i, w). w = auxpow_magic) (enumerate 0 (windows (length auxpow_magic) script)))"

definition verify_auxpow_commitment ::
  "bitcoin_lib \<Rightarrow> parsed_auxpow_block \<Rightarrow> bytes \<Rightarrow> u32 \<Rightarrow> (auxpow_error, unit) result" where
  "verify_auxpow_commitment L p child_block_hash chain_id =
     (let script = pb_parent_coinbase_script p in
      rbind (case marker_positions script of
               [] \<Rightarrow> Inl (CommitErr MarkerAbsent)
             | [m] \<Rightarrow> Inr m
             | _ \<Rightarrow> Inl (CommitErr MultipleMarkers)) (\<lambda>magic_pos.
      let after = magic_pos + length auxpow_magic in
      ensure (after + 40 \<le> length script) (CommitErr CommitmentTruncated)
      (let aux_merkle_root = slice script after (after + 32);
           tree_size = u32_from_le (slice script (after + 32) (after + 36));
           nonce = u32_from_le (slice script (after + 36) (after + 40));
           coinbase_branch = ap_coinbase_branch (pb_proof p);
           chain_branch = ap_chain_branch (pb_proof p);
           branch_len = length (mb_hashes chain_branch) in
       ensure (branch_len < 32) (CommitErr (ChainBranchTooDeep branch_len))
       (ensure (tree_size = shl_u32 1 branch_len) (CommitErr (TreeSizeMismatch tree_size branch_len))
       (ensure (0 \<le> mb_index coinbase_branch) (CommitErr NegativeCoinbaseIndex)
       (ensure (0 \<le> mb_index chain_branch) (CommitErr NegativeChainIndex)
       (ensure (mb_index coinbase_branch = 0) (CommitErr (CoinbaseNotFirst (mb_index coinbase_branch)))
       (let expected_slot = auxpow_expected_index nonce chain_id branch_len;
            chain_index = i32_as_u32 (mb_index chain_branch) in
        ensure (chain_index = expected_slot) (CommitErr (SlotMismatch chain_index expected_slot))
        (ensure (fold_merkle_branch L (pb_parent_coinbase_txid p) coinbase_branch =
                   h_merkle_root (ph_header (pb_parent_header p))) (CommitErr CoinbaseRootMismatch)
        (ensure (fold_merkle_branch L (rev child_block_hash) chain_branch = rev aux_merkle_root)
                (CommitErr ChainRootMismatch)
           (Inr ())))))))))))"

definition classic_max_chain_branch :: nat where "classic_max_chain_branch = 30"

definition classic_markerless_root_window :: nat where "classic_markerless_root_window = 20"

definition read_commitment_footer :: "bytes \<Rightarrow> bytes \<Rightarrow> (auxpow_error, u32 \<times> u32) result" where
  "read_commitment_footer script display_root =
     rbind (ok_or (CommitErr CommitmentMissing) (find_subslice script display_root)) (\<lambda>root_pos.
     rbind (case find_subslice script auxpow_magic of
              Some marker \<Rightarrow>
                ensure (find_subslice (drop (marker + 1) script) auxpow_magic = None)
                  (CommitErr MultipleMarkers)
                (ensure (marker + length auxpow_magic = root_pos) (CommitErr MarkerNotBeforeRoot)
                  (Inr ()))
            | None \<Rightarrow>
                ensure (root_pos \<le> classic_markerless_root_window) (CommitErr MarkerlessRootTooLate)
                  (Inr ())) (\<lambda>_.
     ensure (root_pos + 40 \<le> length script) (CommitErr CommitmentTruncated)
       (Inr (u32_from_le (slice script (root_pos + 32) (root_pos + 36)),
             u32_from_le (slice script (root_pos + 36) (root_pos + 40))))))"

definition verify_classic_auxpow_commitment ::
  "bitcoin_lib \<Rightarrow> parsed_auxpow_block \<Rightarrow> bytes \<Rightarrow> u32 \<Rightarrow> (auxpow_error, unit) result" where
  "verify_classic_auxpow_commitment L p child_block_hash chain_id =
     (let coinbase_branch = ap_coinbase_branch (pb_proof p);
          chain_branch = ap_chain_branch (pb_proof p);
          branch_len = length (mb_hashes chain_branch) in
      ensure (branch_len \<le> classic_max_chain_branch) (CommitErr (ChainBranchTooDeep branch_len))
      (ensure (mb_index coinbase_branch = 0) (CommitErr (CoinbaseNotFirst (mb_index coinbase_branch)))
      (ensure (0 \<le> mb_index chain_branch) (CommitErr NegativeChainIndex)
      (ensure (fold_merkle_branch L (pb_parent_coinbase_txid p) coinbase_branch =
                 h_merkle_root (ph_header (pb_parent_header p))) (CommitErr CoinbaseRootMismatch)
      (let display_root = rev (fold_merkle_branch L child_block_hash chain_branch) in
       rbind (read_commitment_footer (pb_parent_coinbase_script p) display_root) (\<lambda>(tree_size, nonce).
       ensure (tree_size = shl_u32 1 branch_len) (CommitErr (TreeSizeMismatch tree_size branch_len))
       (let expected_slot = auxpow_expected_index nonce chain_id branch_len;
            chain_index = i32_as_u32 (mb_index chain_branch) in
        ensure (chain_index = expected_slot) (CommitErr (SlotMismatch chain_index expected_slot))
          (Inr ()))))))))"

section \<open>Targets and coinbase heights\<close>

definition well_formed_compact_target :: "bitcoin_lib \<Rightarrow> u32 \<Rightarrow> nat option" where
  "well_formed_compact_target L bits =
     (let exponent = unat (drop_bit 24 bits);
          mantissa = bits AND 0x007FFFFF;
          sign = (bits AND 0x00800000 \<noteq> 0)
      in if sign \<or> mantissa = 0 \<or> exponent = 0 \<or> 32 < exponent then None
         else Some (target_from_compact L bits))"

definition validates_target :: "bitcoin_lib \<Rightarrow> bytes \<Rightarrow> u32 \<Rightarrow> bool" where
  "validates_target L hash bits =
     (case well_formed_compact_target L bits of
        None \<Rightarrow> False | Some target \<Rightarrow> target_is_met_by L target hash)"

definition pow_validates_target :: "bitcoin_lib \<Rightarrow> header \<Rightarrow> bool" where
  "pow_validates_target L h = validates_target L (block_hash L h) (h_bits h)"

definition parse_coinbase_height :: "bytes \<Rightarrow> int option" where
  "parse_coinbase_height script_sig =
     (if length script_sig < 2 then None
      else let byte_len = unat (script_sig ! 0) in
        if \<not> (1 \<le> byte_len \<and> byte_len \<le> 4) \<or> length script_sig < 1 + byte_len then None
        else let raw = slice script_sig 1 (1 + byte_len) @ replicate (4 - byte_len) 0;
                 height = i32_from_le raw
             in if 0 \<le> height then Some height else None)"

definition parse_bip34_height :: "bytes \<Rightarrow> int option" where
  "parse_bip34_height script_sig =
     (case parse_coinbase_height script_sig of
        Some height \<Rightarrow> if height \<le> 2000000 then Some height else None
      | None \<Rightarrow> None)"

definition parse_child_bip34_height :: "bytes \<Rightarrow> int option" where
  "parse_child_bip34_height script_sig =
     (case parse_coinbase_height script_sig of
        Some height \<Rightarrow>
          if (script_sig ! unat (script_sig ! 0)) AND 0x80 = 0 then Some height else None
      | None \<Rightarrow> None)"

section \<open>The Merkle fold\<close>

text \<open>The node at a level and position of the binary tree over the leaves \<open>f\<close>.\<close>

fun merkle_node :: "bitcoin_lib \<Rightarrow> (nat \<Rightarrow> bytes) \<Rightarrow> nat \<Rightarrow> nat \<Rightarrow> bytes" where
  "merkle_node L f 0 i = f i"
| "merkle_node L f (Suc k) i =
     sha256d_pair L (merkle_node L f k (2 * i)) (merkle_node L f k (2 * i + 1))"

definition merkle_sibling :: "nat \<Rightarrow> nat" where
  "merkle_sibling i = (if even i then i + 1 else i - 1)"

fun merkle_path :: "bitcoin_lib \<Rightarrow> (nat \<Rightarrow> bytes) \<Rightarrow> nat \<Rightarrow> nat \<Rightarrow> nat \<Rightarrow> bytes list" where
  "merkle_path L f level 0 i = []"
| "merkle_path L f level (Suc k) i =
     merkle_node L f level (merkle_sibling i) # merkle_path L f (Suc level) k (i div 2)"

lemma and_one_eq_odd: "(w :: u32) AND 1 = 1 \<longleftrightarrow> odd (unat w)"
proof -
  have "w AND 1 = w mod 2" by (rule and_one_eq)
  moreover have "unat (w mod 2) = unat w mod 2" by (simp add: unat_mod_distrib)
  ultimately have "(w AND 1 = 1) \<longleftrightarrow> unat w mod 2 = 1"
    by (simp add: word_unat_eq_iff)
  then show ?thesis by (simp add: odd_iff_mod_2_eq_one)
qed

lemma fold_branch_merkle_path:
  "unat w = i \<Longrightarrow>
     fold_branch_loop L (merkle_node L f level i) w (merkle_path L f level k i) =
       merkle_node L f (level + k) (i div 2 ^ k)"
proof (induction k arbitrary: w i level)
  case 0
  then show ?case by simp
next
  case (Suc k)
  have step: "(if w AND 1 = 1
      then sha256d_pair L (merkle_node L f level (merkle_sibling i)) (merkle_node L f level i)
      else sha256d_pair L (merkle_node L f level i) (merkle_node L f level (merkle_sibling i))) =
    merkle_node L f (Suc level) (i div 2)"
    using Suc.prems by (auto simp: and_one_eq_odd merkle_sibling_def elim!: oddE evenE)
  have "unat (drop_bit 1 w) = i div 2"
    using Suc.prems by (simp add: drop_bit_eq_div unat_div_distrib)
  then show ?case
    using Suc.IH [of "drop_bit 1 w" "i div 2" "Suc level"] step
    by (simp add: div_mult2_eq)
qed

text \<open>The inputs the fold hashes on its way up: a collision found by comparing two folds is
  between an input of the one and an input of the other.\<close>

fun fold_branch_inputs :: "bitcoin_lib \<Rightarrow> bytes \<Rightarrow> u32 \<Rightarrow> bytes list \<Rightarrow> bytes list" where
  "fold_branch_inputs L acc index [] = []"
| "fold_branch_inputs L acc index (sib # sibs) =
     (let input = (if index AND 1 = 1 then sib @ acc else acc @ sib)
      in input # fold_branch_inputs L (sha256d L input) (drop_bit 1 index) sibs)"

definition sha256d_collides :: "bitcoin_lib \<Rightarrow> bytes list \<Rightarrow> bytes list \<Rightarrow> bool" where
  "sha256d_collides L xs ys \<longleftrightarrow>
     list_ex (\<lambda>x. list_ex (\<lambda>y. x \<noteq> y \<and> sha256d L x = sha256d L y) ys) xs"

lemma sha256d_collidesI:
  "x \<in> set xs \<Longrightarrow> y \<in> set ys \<Longrightarrow> x \<noteq> y \<Longrightarrow> sha256d L x = sha256d L y \<Longrightarrow> sha256d_collides L xs ys"
  by (auto simp: sha256d_collides_def list_ex_iff)

lemma sha256d_collides_mono:
  "sha256d_collides L xs ys \<Longrightarrow> set xs \<subseteq> set xs' \<Longrightarrow> set ys \<subseteq> set ys' \<Longrightarrow> sha256d_collides L xs' ys'"
  by (auto simp: sha256d_collides_def list_ex_iff)

lemma fold_branch_binding:
  assumes "lib_hash_ok L" and "length sibs = length sibs'"
    and "length a = 32" "length b = 32" "\<forall>s \<in> set sibs. length s = 32" "\<forall>s \<in> set sibs'. length s = 32"
    and "fold_branch_loop L a w sibs = fold_branch_loop L b w sibs'"
  shows "(a = b \<and> sibs = sibs') \<or>
    sha256d_collides L (fold_branch_inputs L a w sibs) (fold_branch_inputs L b w sibs')"
  using assms(2-)
proof (induction sibs sibs' arbitrary: a b w rule: list_induct2)
  case Nil
  then show ?case by simp
next
  case (Cons s ss s' ss')
  let ?in = "\<lambda>s a. if w AND 1 = 1 then s @ a else a @ s"
  let ?up = "\<lambda>s a ss. fold_branch_inputs L (sha256d L (?in s a)) (drop_bit 1 w) ss"
  have hash: "length (sha256d L x) = 32" for x using assms(1) by (simp add: lib_hash_ok_def)
  have step: "fold_branch_loop L a w (s # ss) =
      fold_branch_loop L (sha256d L (?in s a)) (drop_bit 1 w) ss" for s a ss
    by (simp add: sha256d_pair_def)
  have inputs: "fold_branch_inputs L a w (s # ss) = ?in s a # ?up s a ss" for s a ss
    by (simp add: Let_def)
  from Cons.prems have "(sha256d L (?in s a) = sha256d L (?in s' b) \<and> ss = ss') \<or>
      sha256d_collides L (?up s a ss) (?up s' b ss')"
    unfolding step by (intro Cons.IH) (simp_all add: hash)
  then show ?case
  proof (elim disjE conjE)
    assume eq: "sha256d L (?in s a) = sha256d L (?in s' b)" "ss = ss'"
    show ?thesis
    proof (cases "?in s a = ?in s' b")
      case True
      with Cons.prems eq show ?thesis by (simp split: if_splits)
    next
      case False
      show ?thesis unfolding inputs
        by (rule disjI2, rule sha256d_collidesI [OF list.set_intros(1) list.set_intros(1) False eq(1)])
    qed
  next
    assume "sha256d_collides L (?up s a ss) (?up s' b ss')"
    then show ?thesis unfolding inputs by (auto intro: sha256d_collides_mono)
  qed
qed

section \<open>The chain slot\<close>

lemma unat_shl_one:
  assumes "n < 32"
  shows "unat (shl_u32 1 n) = 2 ^ n"
proof -
  have "(2::nat) ^ n < 2 ^ 32" using assms by (intro power_strict_increasing) simp_all
  moreover have "(2::u32) ^ n = word_of_nat (2 ^ n)" by simp
  ultimately have "unat ((2::u32) ^ n) = 2 ^ n" by (metis unat_of_nat_u32 mod_less)
  with assms show ?thesis by (simp add: shl_u32_def push_bit_eq_mult)
qed

lemma unat_auxpow_expected_index:
  assumes "branch_len < 32"
  shows "unat (auxpow_expected_index nonce chain_id branch_len) =
    ((unat nonce * 1103515245 + 12345 + unat chain_id) * 1103515245 + 12345) mod 2 ^ branch_len"
proof -
  have dvd: "(2::nat) ^ branch_len dvd 2 ^ 32" using assms by (intro le_imp_power_dvd) simp
  have "unat (auxpow_expected_index nonce chain_id branch_len) =
      unat ((nonce * 1103515245 + 12345 + chain_id) * 1103515245 + 12345) mod 2 ^ branch_len"
    using unat_shl_one [OF assms] by (simp add: auxpow_expected_index_def unat_mod_distrib)
  also have "(nonce * 1103515245 + 12345 + chain_id) * 1103515245 + 12345 =
      word_of_nat ((unat nonce * 1103515245 + 12345 + unat chain_id) * 1103515245 + 12345)"
    by simp
  also have "unat \<dots> =
      ((unat nonce * 1103515245 + 12345 + unat chain_id) * 1103515245 + 12345) mod 2 ^ 32"
    by (rule unat_of_nat_u32)
  finally show ?thesis using dvd by (simp add: mod_mod_cancel)
qed

section \<open>Where the commitment sits\<close>

lemma auxpow_magic_nonempty [simp]: "auxpow_magic \<noteq> []" "length auxpow_magic = 4"
  by (simp_all add: auxpow_magic_def)

lemma find_subslice_eq_Some:
  "needle \<noteq> [] \<Longrightarrow> find_subslice h needle = Some i \<longleftrightarrow>
     occurs_at needle h i \<and> (\<forall>j < i. \<not> occurs_at needle h j)"
  unfolding find_subslice_def by (rule position_windows_eq_Some)

lemma find_subslice_eq_None:
  "needle \<noteq> [] \<Longrightarrow> find_subslice h needle = None \<longleftrightarrow> (\<forall>i. \<not> occurs_at needle h i)"
  unfolding find_subslice_def by (rule position_windows_eq_None)

lemma occurs_at_drop:
  "k \<le> length h \<Longrightarrow> occurs_at needle (drop k h) i \<longleftrightarrow> occurs_at needle h (k + i)"
  by (auto simp: occurs_at_def add.commute)

text \<open>The marker occurs once in the whole script.\<close>

definition unique_marker :: "bytes \<Rightarrow> nat \<Rightarrow> bool" where
  "unique_marker script m \<longleftrightarrow>
     occurs_at auxpow_magic script m \<and> (\<forall>j. occurs_at auxpow_magic script j \<longrightarrow> j = m)"

lemma marker_once:
  assumes "find_subslice script auxpow_magic = Some m"
  shows "find_subslice (drop (Suc m) script) auxpow_magic = None \<longleftrightarrow> unique_marker script m"
proof -
  have m: "occurs_at auxpow_magic script m" "\<forall>j < m. \<not> occurs_at auxpow_magic script j"
    using assms by (simp_all add: find_subslice_eq_Some)
  have len: "m + 1 \<le> length script" using m(1) by (simp add: occurs_at_def)
  have "find_subslice (drop (Suc m) script) auxpow_magic = None \<longleftrightarrow>
      (\<forall>i. \<not> occurs_at auxpow_magic script (m + 1 + i))"
    using occurs_at_drop [OF len] by (simp add: find_subslice_eq_None)
  also have "\<dots> \<longleftrightarrow> (\<forall>j > m. \<not> occurs_at auxpow_magic script j)"
    by (metis add.commute less_iff_Suc_add add_Suc_right plus_1_eq_Suc)
  also have "\<dots> \<longleftrightarrow> unique_marker script m"
    using m unfolding unique_marker_def by (metis nat_neq_iff)
  finally show ?thesis .
qed

lemma read_commitment_footer_Inr:
  assumes "length root = 32"
  shows "read_commitment_footer script root = Inr (tree_size, nonce) \<longleftrightarrow>
    (\<exists>pos. occurs_at root script pos \<and> (\<forall>j < pos. \<not> occurs_at root script j) \<and>
       ((\<exists>m. unique_marker script m \<and> pos = m + 4) \<or>
        ((\<forall>i. \<not> occurs_at auxpow_magic script i) \<and> pos \<le> 20)) \<and>
       pos + 40 \<le> length script \<and>
       tree_size = u32_from_le (slice script (pos + 32) (pos + 36)) \<and>
       nonce = u32_from_le (slice script (pos + 36) (pos + 40)))"
    (is "?lhs \<longleftrightarrow> (\<exists>pos. ?rhs pos)")
proof -
  have root: "root \<noteq> []" using assms by auto
  show ?thesis
  proof (cases "find_subslice script auxpow_magic")
    case None
    then have no: "\<forall>i. \<not> occurs_at auxpow_magic script i" by (simp add: find_subslice_eq_None)
    then have "\<not> unique_marker script m" for m by (simp add: unique_marker_def)
    moreover have "?lhs \<longleftrightarrow> (\<exists>pos. find_subslice script root = Some pos \<and> pos \<le> 20 \<and>
        pos + 40 \<le> length script \<and>
        tree_size = u32_from_le (slice script (pos + 32) (pos + 36)) \<and>
        nonce = u32_from_le (slice script (pos + 36) (pos + 40)))"
      using None
      by (auto simp: read_commitment_footer_def result_simps classic_markerless_root_window_def)
    ultimately show ?thesis using no by (auto simp: find_subslice_eq_Some [OF root])
  next
    case (Some m)
    then have m: "occurs_at auxpow_magic script m" by (simp add: find_subslice_eq_Some)
    have once: "(\<exists>m'. unique_marker script m' \<and> pos = m' + 4) \<longleftrightarrow> unique_marker script m \<and> m + 4 = pos"
      for pos using m by (auto simp: unique_marker_def)
    have some: "(\<forall>i. \<not> occurs_at auxpow_magic script i) \<longleftrightarrow> False" using m by blast
    have "?lhs \<longleftrightarrow> (\<exists>pos. find_subslice script root = Some pos \<and> unique_marker script m \<and>
        m + 4 = pos \<and> pos + 40 \<le> length script \<and>
        tree_size = u32_from_le (slice script (pos + 32) (pos + 36)) \<and>
        nonce = u32_from_le (slice script (pos + 36) (pos + 40)))"
      using Some by (auto simp: read_commitment_footer_def result_simps marker_once [OF Some])
    also have "\<dots> \<longleftrightarrow> (\<exists>pos. ?rhs pos)"
      unfolding once some find_subslice_eq_Some [OF root] by simp
    finally show ?thesis .
  qed
qed

section \<open>What an accepted classic commitment establishes\<close>

lemma verify_classic_Inr:
  "verify_classic_auxpow_commitment L p child chain_id = Inr () \<longleftrightarrow>
     (\<exists>nonce. length (mb_hashes (ap_chain_branch (pb_proof p))) \<le> 30 \<and>
        mb_index (ap_coinbase_branch (pb_proof p)) = 0 \<and>
        0 \<le> mb_index (ap_chain_branch (pb_proof p)) \<and>
        fold_merkle_branch L (pb_parent_coinbase_txid p) (ap_coinbase_branch (pb_proof p)) =
          h_merkle_root (ph_header (pb_parent_header p)) \<and>
        read_commitment_footer (pb_parent_coinbase_script p)
          (rev (fold_merkle_branch L child (ap_chain_branch (pb_proof p)))) =
          Inr (shl_u32 1 (length (mb_hashes (ap_chain_branch (pb_proof p)))), nonce) \<and>
        i32_as_u32 (mb_index (ap_chain_branch (pb_proof p))) =
          auxpow_expected_index nonce chain_id (length (mb_hashes (ap_chain_branch (pb_proof p)))))"
  by (auto simp: verify_classic_auxpow_commitment_def Let_def result_simps classic_max_chain_branch_def)

lemma length_fold_merkle_branch:
  assumes "lib_hash_ok L" and "length leaf = 32"
  shows "length (fold_merkle_branch L leaf br) = 32"
proof -
  have "length (fold_branch_loop L a w sibs) = 32" if "length a = 32" for a w sibs
    using assms(1) that
    by (induction sibs arbitrary: a w) (auto simp: lib_hash_ok_def sha256d_pair_def)
  with assms(2) show ?thesis by (simp add: fold_merkle_branch_def)
qed

end
