(* ===== verification/AuxPow_Commitment.thy ===== *)
theory AuxPow_Commitment
  imports AuxPow_Verify
begin

text \<open>
  What the two commitment checks of \<open>auxpow/verify.rs\<close> promise.  The locale
  \<open>marker_commitment\<close> is the contract they share: an accepted proof opens the root, tree size
  and nonce that follow the unique marker of the parent coinbase.  It is interpreted on the
  classic and on the Elastos check; the properties are that a marked parent coinbase commits to
  one child per chain id, that honestly built proofs are accepted, and the behaviour of the
  slot, the compact targets and the coinbase heights.  The last section specifies the commitment
  without the checks (\<open>authenticates\<close>, \<open>script_commits\<close>, \<open>proof_commits\<close>) and shows that an accepted
  classic proof meets the specification.
\<close>

section \<open>The shared contract\<close>

text \<open>The 40 bytes after the marker at \<open>m\<close>: the displayed root, the tree size and the nonce.\<close>

definition footer_root :: "bytes \<Rightarrow> nat \<Rightarrow> bytes" where
  "footer_root script m = slice script (m + 4) (m + 36)"

definition footer_size :: "bytes \<Rightarrow> nat \<Rightarrow> u32" where
  "footer_size script m = u32_from_le (slice script (m + 36) (m + 40))"

definition footer_nonce :: "bytes \<Rightarrow> nat \<Rightarrow> u32" where
  "footer_nonce script m = u32_from_le (slice script (m + 40) (m + 44))"

abbreviation chain_depth :: "parsed_auxpow_block \<Rightarrow> nat" where
  "chain_depth p \<equiv> length (mb_hashes (ap_chain_branch (pb_proof p)))"

definition chain_inputs :: "bitcoin_lib \<Rightarrow> parsed_auxpow_block \<Rightarrow> bytes \<Rightarrow> bytes list" where
  "chain_inputs L p leaf =
     fold_branch_inputs L leaf (i32_as_u32 (mb_index (ap_chain_branch (pb_proof p))))
       (mb_hashes (ap_chain_branch (pb_proof p)))"

definition chain_siblings_ok :: "parsed_auxpow_block \<Rightarrow> bool" where
  "chain_siblings_ok p \<longleftrightarrow> list_all (\<lambda>s. length s = 32) (mb_hashes (ap_chain_branch (pb_proof p)))"

lemma shl_one_inj: "a < 32 \<Longrightarrow> b < 32 \<Longrightarrow> shl_u32 1 a = shl_u32 1 b \<longleftrightarrow> a = b"
  by (metis unat_shl_one power_inject_exp one_less_numeral_iff semiring_norm(76))

locale marker_commitment =
  fixes verify :: "bitcoin_lib \<Rightarrow> parsed_auxpow_block \<Rightarrow> bytes \<Rightarrow> u32 \<Rightarrow> (auxpow_error, unit) result"
    and leaf :: "bytes \<Rightarrow> bytes"
  assumes leaf_length: "length (leaf c) = length c"
    and leaf_inj: "leaf c = leaf d \<longleftrightarrow> c = d"
    and marker_unique: "lib_hash_ok L \<Longrightarrow> length c = 32 \<Longrightarrow> verify L p c cid = Inr () \<Longrightarrow>
      occurs_at auxpow_magic (pb_parent_coinbase_script p) m \<Longrightarrow>
      unique_marker (pb_parent_coinbase_script p) m"
    and opens: "lib_hash_ok L \<Longrightarrow> length c = 32 \<Longrightarrow> verify L p c cid = Inr () \<Longrightarrow>
      unique_marker (pb_parent_coinbase_script p) m \<Longrightarrow>
      chain_depth p < 32 \<and>
      footer_size (pb_parent_coinbase_script p) m = shl_u32 1 (chain_depth p) \<and>
      i32_as_u32 (mb_index (ap_chain_branch (pb_proof p))) =
        auxpow_expected_index (footer_nonce (pb_parent_coinbase_script p) m) cid (chain_depth p) \<and>
      rev (fold_merkle_branch L (leaf c) (ap_chain_branch (pb_proof p))) =
        footer_root (pb_parent_coinbase_script p) m"
begin

lemma one_child_per_marker:
  assumes "lib_hash_ok L" and "length c = 32" "length d = 32"
    and "chain_siblings_ok p" "chain_siblings_ok q"
    and "pb_parent_coinbase_script q = pb_parent_coinbase_script p"
    and "occurs_at auxpow_magic (pb_parent_coinbase_script p) m"
    and "verify L p c cid = Inr ()" "verify L q d cid = Inr ()"
  shows "c = d \<or> sha256d_collides L (chain_inputs L p (leaf c)) (chain_inputs L q (leaf d))"
proof -
  let ?s = "pb_parent_coinbase_script p"
  have u: "unique_marker ?s m" using marker_unique assms by blast
  note P = opens [OF assms(1,2,8) u]
  have "unique_marker (pb_parent_coinbase_script q) m" using u assms(6) by simp
  note Q = opens [OF assms(1,3,9) this]
  have depth: "chain_depth p = chain_depth q"
    using P Q assms(6) shl_one_inj by metis
  have index: "i32_as_u32 (mb_index (ap_chain_branch (pb_proof p))) =
      i32_as_u32 (mb_index (ap_chain_branch (pb_proof q)))"
    using P Q assms(6) depth by metis
  have "fold_merkle_branch L (leaf c) (ap_chain_branch (pb_proof p)) =
      fold_merkle_branch L (leaf d) (ap_chain_branch (pb_proof q))"
    using P Q assms(6) by (metis rev_rev_ident)
  then show ?thesis
    using fold_branch_binding [OF assms(1) depth, of "leaf c" "leaf d"] assms(2-5) index
    by (auto simp: fold_merkle_branch_def chain_inputs_def chain_siblings_ok_def list_all_iff
        leaf_length leaf_inj)
qed

end

section \<open>The classic check\<close>

lemma first_root_at_marker:
  assumes "unique_marker script m" and "length root = 32" and "occurs_at root script (m + 4)"
  shows "footer_root script m = root"
proof -
  have "slice script (m + 4) (m + 36) = take 32 (drop (m + 4) script)" by (simp add: slice_def)
  then show ?thesis using assms(2,3) by (simp add: footer_root_def occurs_at_def)
qed

lemma classic_opens:
  assumes "lib_hash_ok L" and "length c = 32"
    and "verify_classic_auxpow_commitment L p c cid = Inr ()"
    and "occurs_at auxpow_magic (pb_parent_coinbase_script p) m"
  shows "unique_marker (pb_parent_coinbase_script p) m"
    and "chain_depth p < 32"
    and "footer_size (pb_parent_coinbase_script p) m = shl_u32 1 (chain_depth p)"
    and "i32_as_u32 (mb_index (ap_chain_branch (pb_proof p))) =
      auxpow_expected_index (footer_nonce (pb_parent_coinbase_script p) m) cid (chain_depth p)"
    and "rev (fold_merkle_branch L c (ap_chain_branch (pb_proof p))) =
      footer_root (pb_parent_coinbase_script p) m"
proof -
  let ?s = "pb_parent_coinbase_script p"
  let ?root = "rev (fold_merkle_branch L c (ap_chain_branch (pb_proof p)))"
  have len: "length ?root = 32" using length_fold_merkle_branch [OF assms(1,2)] by simp
  obtain nonce where n: "chain_depth p \<le> 30"
      "read_commitment_footer ?s ?root = Inr (shl_u32 1 (chain_depth p), nonce)"
      "i32_as_u32 (mb_index (ap_chain_branch (pb_proof p))) =
         auxpow_expected_index nonce cid (chain_depth p)"
    using assms(3) unfolding verify_classic_Inr by blast
  obtain k where k: "unique_marker ?s k" "occurs_at ?root ?s (k + 4)"
      "shl_u32 1 (chain_depth p) = footer_size ?s k" "nonce = footer_nonce ?s k"
    using n(2) assms(4) unfolding read_commitment_footer_Inr [OF len] footer_size_def footer_nonce_def
    by (auto simp: add.commute)
  have "k = m" using k(1) assms(4) by (auto simp: unique_marker_def)
  with k n first_root_at_marker [OF k(1) len k(2)]
  show "unique_marker ?s m" "chain_depth p < 32" "footer_size ?s m = shl_u32 1 (chain_depth p)"
    "i32_as_u32 (mb_index (ap_chain_branch (pb_proof p))) =
      auxpow_expected_index (footer_nonce ?s m) cid (chain_depth p)"
    "?root = footer_root ?s m"
    by simp_all
qed

interpretation cl: marker_commitment verify_classic_auxpow_commitment id
  by unfold_locales (auto simp: unique_marker_def dest: classic_opens)

section \<open>The Elastos check\<close>

lemma marker_positions_filter:
  "marker_positions script =
     filter (occurs_at auxpow_magic script) [0..<length (windows 4 script)]"
proof -
  have "enumerate 0 (windows 4 script) =
      map (\<lambda>i. (i, windows 4 script ! i)) [0..<length (windows 4 script)]"
    by (auto simp: enumerate_eq_zip intro!: nth_equalityI)
  then have "marker_positions script =
      filter (\<lambda>i. windows 4 script ! i = auxpow_magic) [0..<length (windows 4 script)]"
    by (simp add: marker_positions_def filter_map comp_def)
  also have "\<dots> = filter (occurs_at auxpow_magic script) [0..<length (windows 4 script)]"
    by (rule filter_cong) (auto simp: nth_windows occurs_at_def length_windows)
  finally show ?thesis .
qed

lemma marker_positions_single: "marker_positions script = [m] \<longleftrightarrow> unique_marker script m"
proof -
  have set: "set (marker_positions script) = {i. occurs_at auxpow_magic script i}"
    by (auto simp: marker_positions_filter occurs_at_def length_windows)
  have "distinct (marker_positions script)" by (simp add: marker_positions_filter)
  then have "marker_positions script = [m] \<longleftrightarrow> set (marker_positions script) = {m}"
    by (metis distinct_singleton distinct_length_2_or_more empty_set insert_not_empty list.exhaust
        list.set_intros list.simps(15) singletonD)
  also have "\<dots> \<longleftrightarrow> unique_marker script m" by (auto simp: set unique_marker_def)
  finally show ?thesis .
qed

lemma verify_auxpow_Inr:
  "verify_auxpow_commitment L p child cid = Inr () \<longleftrightarrow>
     (\<exists>m. unique_marker (pb_parent_coinbase_script p) m \<and>
        m + 44 \<le> length (pb_parent_coinbase_script p) \<and> chain_depth p < 32 \<and>
        footer_size (pb_parent_coinbase_script p) m = shl_u32 1 (chain_depth p) \<and>
        mb_index (ap_coinbase_branch (pb_proof p)) = 0 \<and>
        0 \<le> mb_index (ap_chain_branch (pb_proof p)) \<and>
        i32_as_u32 (mb_index (ap_chain_branch (pb_proof p))) =
          auxpow_expected_index (footer_nonce (pb_parent_coinbase_script p) m) cid (chain_depth p) \<and>
        fold_merkle_branch L (pb_parent_coinbase_txid p) (ap_coinbase_branch (pb_proof p)) =
          h_merkle_root (ph_header (pb_parent_header p)) \<and>
        fold_merkle_branch L (rev child) (ap_chain_branch (pb_proof p)) =
          rev (footer_root (pb_parent_coinbase_script p) m))"
proof -
  let ?s = "pb_parent_coinbase_script p"
  have one: "(case marker_positions ?s of [] \<Rightarrow> Inl (CommitErr MarkerAbsent) | [m] \<Rightarrow> Inr m
      | _ \<Rightarrow> Inl (CommitErr MultipleMarkers)) = Inr m \<longleftrightarrow> unique_marker ?s m" for m
    unfolding marker_positions_single [symmetric] by (auto split: list.splits)
  show ?thesis
    unfolding verify_auxpow_commitment_def Let_def rbind_eq_Inr one ensure_eq_Inr
      footer_size_def footer_nonce_def footer_root_def
    by (intro iff_exI) (auto simp: add.commute)
qed

lemma elastos_opens:
  assumes "verify_auxpow_commitment L p c cid = Inr ()"
    and "occurs_at auxpow_magic (pb_parent_coinbase_script p) m"
  shows "unique_marker (pb_parent_coinbase_script p) m"
    and "chain_depth p < 32"
    and "footer_size (pb_parent_coinbase_script p) m = shl_u32 1 (chain_depth p)"
    and "i32_as_u32 (mb_index (ap_chain_branch (pb_proof p))) =
      auxpow_expected_index (footer_nonce (pb_parent_coinbase_script p) m) cid (chain_depth p)"
    and "rev (fold_merkle_branch L (rev c) (ap_chain_branch (pb_proof p))) =
      footer_root (pb_parent_coinbase_script p) m"
proof -
  obtain k where k: "unique_marker (pb_parent_coinbase_script p) k" and rest: "chain_depth p < 32"
      "footer_size (pb_parent_coinbase_script p) k = shl_u32 1 (chain_depth p)"
      "i32_as_u32 (mb_index (ap_chain_branch (pb_proof p))) =
        auxpow_expected_index (footer_nonce (pb_parent_coinbase_script p) k) cid (chain_depth p)"
      "fold_merkle_branch L (rev c) (ap_chain_branch (pb_proof p)) =
        rev (footer_root (pb_parent_coinbase_script p) k)"
    using assms(1) unfolding verify_auxpow_Inr by blast
  have "k = m" using k assms(2) by (auto simp: unique_marker_def)
  with k rest show "unique_marker (pb_parent_coinbase_script p) m" "chain_depth p < 32"
    "footer_size (pb_parent_coinbase_script p) m = shl_u32 1 (chain_depth p)"
    "i32_as_u32 (mb_index (ap_chain_branch (pb_proof p))) =
      auxpow_expected_index (footer_nonce (pb_parent_coinbase_script p) m) cid (chain_depth p)"
    "rev (fold_merkle_branch L (rev c) (ap_chain_branch (pb_proof p))) =
      footer_root (pb_parent_coinbase_script p) m"
    by simp_all
qed

interpretation el: marker_commitment verify_auxpow_commitment rev
  by unfold_locales (auto simp: unique_marker_def dest: elastos_opens)

section \<open>Honestly built proofs\<close>

lemma fold_merkle_path_root:
  assumes "slot < 2 ^ k" and "k < 32"
  shows "fold_merkle_branch L (f slot) \<lparr>mb_hashes = merkle_path L f 0 k slot, mb_index = int slot\<rparr> =
    merkle_node L f k 0"
proof -
  have "(2::nat) ^ k \<le> 2 ^ 31" using assms(2) by (intro power_increasing) simp_all
  then have "unat (i32_as_u32 (int slot)) = slot" using assms(1)
    by (simp add: i32_as_u32_def unat_of_nat)
  then show ?thesis
    using fold_branch_merkle_path [of "i32_as_u32 (int slot)" slot L f 0 k] assms(1)
    by (simp add: fold_merkle_branch_def)
qed

lemma length_merkle_path [simp]: "length (merkle_path L f level k i) = k"
  by (induction k arbitrary: level i) simp_all

lemma length_merkle_node:
  "lib_hash_ok L \<Longrightarrow> (\<And>i. length (f i) = 32) \<Longrightarrow> length (merkle_node L f k i) = 32"
  by (cases k) (simp_all add: lib_hash_ok_def sha256d_pair_def)

definition honest_script :: "bytes \<Rightarrow> bytes \<Rightarrow> nat \<Rightarrow> u32 \<Rightarrow> bytes \<Rightarrow> bytes" where
  "honest_script pre root k nonce post =
     pre @ auxpow_magic @ rev root @ le_bytes 4 (2 ^ k) @ le_bytes 4 (unat nonce) @ post"

lemma u32_from_le_pow: "k < 32 \<Longrightarrow> u32_from_le (le_bytes 4 (2 ^ k)) = shl_u32 1 k"
  using u32_from_le_bytes [of "shl_u32 1 k"] unat_shl_one [of k] by simp

lemma slice_append_at: "slice (xs @ ys @ zs) (length xs) (length xs + length ys) = ys"
  by (simp add: slice_def)

lemma honest_script_footer:
  fixes pre root nonce post
  assumes "length root = 32" and "k < 32"
  defines "s \<equiv> honest_script pre root k nonce post"
  shows "footer_root s (length pre) = rev root" and "footer_size s (length pre) = shl_u32 1 k"
    and "footer_nonce s (length pre) = nonce" and "length pre + 44 \<le> length s"
proof -
  have s: "s = (pre @ auxpow_magic) @ rev root @ le_bytes 4 (2 ^ k) @ le_bytes 4 (unat nonce) @ post"
    "s = (pre @ auxpow_magic @ rev root) @ le_bytes 4 (2 ^ k) @ le_bytes 4 (unat nonce) @ post"
    "s = (pre @ auxpow_magic @ rev root @ le_bytes 4 (2 ^ k)) @ le_bytes 4 (unat nonce) @ post"
    unfolding s_def honest_script_def by (simp_all del: le_bytes.simps)
  show "footer_root s (length pre) = rev root"
    unfolding footer_root_def s(1)
    using slice_append_at [of "pre @ auxpow_magic" "rev root"] assms(1)
    by (simp del: le_bytes.simps append_assoc add: add.assoc)
  show "footer_size s (length pre) = shl_u32 1 k"
    unfolding footer_size_def s(2)
    using slice_append_at [of "pre @ auxpow_magic @ rev root" "le_bytes 4 (2 ^ k)"] assms(1)
      u32_from_le_pow [OF assms(2)]
    by (simp del: le_bytes.simps append_assoc add: add.assoc)
  show "footer_nonce s (length pre) = nonce"
    unfolding footer_nonce_def s(3)
    using slice_append_at [of "pre @ auxpow_magic @ rev root @ le_bytes 4 (2 ^ k)"
        "le_bytes 4 (unat nonce)"] assms(1)
    by (simp del: le_bytes.simps append_assoc add: add.assoc)
  show "length pre + 44 \<le> length s"
    unfolding s(1) using assms(1) by (simp del: le_bytes.simps)
qed

text \<open>A proof built the way a merge miner builds it is accepted: the parent coinbase carries
  one marker followed by the reversed root of the chain tree, the tree size and the nonce, the
  child sits in the slot the nonce and the chain id select, and the chain branch is that leaf's
  authentication path.\<close>

theorem classic_accepts_honest_proof:
  fixes L f k nonce cid pre post
  defines "slot \<equiv> unat (auxpow_expected_index nonce cid k)"
    and "root \<equiv> merkle_node L f k 0"
  defines "script \<equiv> honest_script pre root k nonce post"
  assumes "lib_hash_ok L" and leaves: "\<And>i. length (f i) = 32" and k: "k \<le> 30"
    and marker: "marker_positions script = [length pre]"
    and first: "find_subslice script (rev root) = Some (length pre + 4)"
    and "pb_parent_coinbase_script p = script"
    and "ap_chain_branch (pb_proof p) = \<lparr>mb_hashes = merkle_path L f 0 k slot, mb_index = int slot\<rparr>"
    and "mb_index (ap_coinbase_branch (pb_proof p)) = 0"
    and "fold_merkle_branch L (pb_parent_coinbase_txid p) (ap_coinbase_branch (pb_proof p)) =
      h_merkle_root (ph_header (pb_parent_header p))"
  shows "verify_classic_auxpow_commitment L p (f slot) cid = Inr ()"
proof -
  have slot: "slot < 2 ^ k"
    unfolding slot_def using k by (simp add: unat_auxpow_expected_index)
  have len: "length (rev root) = 32"
    unfolding root_def using length_merkle_node [OF assms(4) leaves] by simp
  note foot = honest_script_footer [of root k pre nonce post, folded script_def]
  have ne: "rev root \<noteq> []" using len by auto
  have "read_commitment_footer script (rev root) = Inr (shl_u32 1 k, nonce)"
    unfolding read_commitment_footer_Inr [OF len]
    using marker foot len k first [unfolded find_subslice_eq_Some [OF ne]]
    by (intro exI [of _ "length pre + 4"])
      (auto simp: marker_positions_single footer_size_def footer_nonce_def add.commute)
  moreover have "i32_as_u32 (int slot) = auxpow_expected_index nonce cid k"
    by (simp add: i32_as_u32_def slot_def)
  ultimately show ?thesis
    unfolding verify_classic_Inr using assms k fold_merkle_path_root [OF slot, of L f]
    by (intro exI [of _ nonce]) (simp add: root_def)
qed

definition demo_leaf :: "nat \<Rightarrow> bytes" where
  "demo_leaf i = replicate 32 (word_of_nat (i + 1))"

definition demo_parsed :: parsed_auxpow_block where
  "demo_parsed =
     \<lparr>pb_child_header = \<lparr>ph_header = \<lparr>h_version = 0x10100, h_prev_blockhash = replicate 32 0,
        h_merkle_root = replicate 32 0, h_time = 0, h_bits = 0x1D00FFFF, h_nonce = 0\<rparr>\<rparr>,
      pb_child_height = None, pb_child_coinbase_txid = None, pb_child_coinbase_script = None,
      pb_child_coinbase_outputs = [], pb_child_coinbase_output_addresses = [],
      pb_parent_header = \<lparr>ph_header = \<lparr>h_version = 4, h_prev_blockhash = replicate 32 0,
        h_merkle_root = replicate 32 7, h_time = 0, h_bits = 0x1D00FFFF, h_nonce = 0\<rparr>\<rparr>,
      pb_proof = \<lparr>ap_hash_block = replicate 32 0,
        ap_coinbase_branch = \<lparr>mb_hashes = [], mb_index = 0\<rparr>,
        ap_chain_branch = \<lparr>mb_hashes = [demo_leaf 0], mb_index = 1\<rparr>\<rparr>,
      pb_parent_coinbase_txid = replicate 32 7,
      pb_parent_coinbase_script = honest_script [1] (demo_leaf 0) 1 0 [2],
      pb_parent_coinbase_outputs = [], pb_parent_coinbase_output_addresses = [],
      pb_auxpow_bytes = []\<rparr>"

lemma demo_slot: "unat (auxpow_expected_index 0 1 1) = 1"
  by (simp add: unat_auxpow_expected_index)

lemma demo_root: "merkle_node demo_lib demo_leaf 1 0 = demo_leaf 0"
  by code_simp

lemma demo_path: "merkle_path demo_lib demo_leaf 0 1 1 = [demo_leaf 0]"
  by code_simp

lemma length_demo_leaf: "length (demo_leaf i) = 32"
  by (simp add: demo_leaf_def)

theorem classic_accepts_honest_proof_witness:
  "verify_classic_auxpow_commitment demo_lib demo_parsed (demo_leaf 1) 1 = Inr ()"
  by (rule classic_accepts_honest_proof [where L = demo_lib and f = demo_leaf and k = 1
        and pre = "[1]" and nonce = 0 and post = "[2]" and cid = 1 and p = demo_parsed,
        unfolded demo_slot demo_root demo_path, OF demo_lib_ok(1) length_demo_leaf])
    code_simp+

text \<open>C1: Two classic proofs accepted for the same chain id over the same marked parent coinbase
  script commit to the same child block hash, unless the hash inputs of the two chain branches
  contain a collision of the double hash.\<close>

theorem marked_coinbase_binds_one_child:
  assumes "lib_hash_ok L" and "length c = 32" and "length d = 32"
    and "chain_siblings_ok p" and "chain_siblings_ok q"
    and "pb_parent_coinbase_script q = pb_parent_coinbase_script p"
    and "find_subslice (pb_parent_coinbase_script p) auxpow_magic \<noteq> None"
    and "verify_classic_auxpow_commitment L p c cid = Inr ()"
    and "verify_classic_auxpow_commitment L q d cid = Inr ()"
  shows "c = d \<or> sha256d_collides L (chain_inputs L p c) (chain_inputs L q d)"
proof -
  obtain m where "occurs_at auxpow_magic (pb_parent_coinbase_script p) m"
    using assms(7) by (auto simp: find_subslice_eq_None)
  from cl.one_child_per_marker [OF assms(1-6) this assms(8,9)] show ?thesis by simp
qed

theorem marked_coinbase_binds_one_child_witness:
  "demo_leaf 1 = demo_leaf 1 \<or>
     sha256d_collides demo_lib (chain_inputs demo_lib demo_parsed (demo_leaf 1))
       (chain_inputs demo_lib demo_parsed (demo_leaf 1))"
  by (rule marked_coinbase_binds_one_child [where cid = 1, OF demo_lib_ok(1)]) code_simp+

text \<open>Two Elastos proofs accepted for the same chain id over the same parent coinbase script
  commit to the same child block hash, unless the hash inputs of the two chain branches contain a
  collision of the double hash.\<close>

theorem elastos_coinbase_binds_one_child:
  assumes "lib_hash_ok L" and "length c = 32" and "length d = 32"
    and "chain_siblings_ok p" and "chain_siblings_ok q"
    and "pb_parent_coinbase_script q = pb_parent_coinbase_script p"
    and "verify_auxpow_commitment L p c cid = Inr ()"
    and "verify_auxpow_commitment L q d cid = Inr ()"
  shows "c = d \<or> sha256d_collides L (chain_inputs L p (rev c)) (chain_inputs L q (rev d))"
proof -
  obtain m where "occurs_at auxpow_magic (pb_parent_coinbase_script p) m"
    using assms(7) unfolding verify_auxpow_Inr unique_marker_def by blast
  from el.one_child_per_marker [OF assms(1-6) this assms(7,8)] show ?thesis .
qed

theorem elastos_coinbase_binds_one_child_witness:
  "demo_leaf 1 = demo_leaf 1 \<or>
     sha256d_collides demo_lib (chain_inputs demo_lib demo_parsed (rev (demo_leaf 1)))
       (chain_inputs demo_lib demo_parsed (rev (demo_leaf 1)))"
  by (rule elastos_coinbase_binds_one_child [where cid = 1, OF demo_lib_ok(1)]) code_simp+

section \<open>Compact targets and coinbase heights\<close>

lemma bit_unat: "n < LENGTH('a) \<Longrightarrow> bit (w :: 'a::len word) n \<longleftrightarrow> odd (unat w div 2 ^ n)"
proof -
  assume "n < LENGTH('a)"
  then have "bit w n \<longleftrightarrow> bit (unat w) n" by (simp add: bit_unsigned_iff)
  then show ?thesis by (simp add: bit_iff_odd)
qed

lemma u8_sign_bit: "(w :: u8) AND 0x80 = 0 \<longleftrightarrow> unat w < 128"
proof -
  have w: "unat w < 256" using unsigned_less [of w, where 'a = nat] by simp
  have "(w AND 0x80 = 0) = (\<not> bit w 7)"
    by (simp add: and_exp_eq_0_iff_not_bit [of w 7, simplified])
  also have "\<dots> \<longleftrightarrow> even (unat w div 128)" by (simp add: bit_unat)
  also have "\<dots> \<longleftrightarrow> unat w < 128"
  proof (cases "unat w < 128")
    case False
    then have "unat w div 128 = 1" using w by simp
    with False show ?thesis by simp
  qed simp
  finally show ?thesis .
qed

text \<open>A compact target is decoded exactly when its exponent is between 1 and 32, its sign bit is
  clear and its mantissa is not zero, read off the integer value of \<open>bits\<close>.\<close>

theorem compact_target_well_formed:
  "well_formed_compact_target L bits =
     (let n = unat bits in
      if 1 \<le> n div 2 ^ 24 \<and> n div 2 ^ 24 \<le> 32 \<and> n div 2 ^ 23 mod 2 = 0 \<and> n mod 2 ^ 23 \<noteq> 0
      then Some (target_from_compact L bits) else None)"
proof -
  have sign: "bits AND 0x00800000 \<noteq> 0 \<longleftrightarrow> unat bits div 2 ^ 23 mod 2 \<noteq> 0"
    by (simp add: and_exp_eq_0_iff_not_bit [of bits 23, simplified] bit_unat
        odd_iff_mod_2_eq_one)
  have "bits AND 0x007FFFFF = take_bit 23 bits" by (simp add: take_bit_eq_mask mask_eq_exp_minus_1)
  then have mantissa: "bits AND 0x007FFFFF = 0 \<longleftrightarrow> unat bits mod 2 ^ 23 = 0"
    by (simp add: word_unat_eq_iff unsigned_take_bit_eq take_bit_eq_mod unat_mod_distrib)
  have exponent: "unat (drop_bit 24 bits) = unat bits div 2 ^ 24"
    by (simp add: drop_bit_eq_div unat_div_distrib)
  show ?thesis
    unfolding well_formed_compact_target_def Let_def sign mantissa exponent by auto
qed

lemma le_nat_pad: "le_nat (xs @ replicate n 0) = le_nat xs"
proof (induction xs)
  case Nil
  show ?case by (induction n) simp_all
qed simp

lemma le_bytes_last: "0 < k \<Longrightarrow> unat (le_bytes k h ! (k - 1)) = h div 256 ^ (k - 1) mod 256"
proof (induction k arbitrary: h)
  case (Suc k)
  show ?case
  proof (cases k)
    case 0
    then show ?thesis by (simp add: unat_of_nat)
  next
    case (Suc j)
    then show ?thesis using Suc.IH [of "h div 256"] by (simp add: div_mult2_eq)
  qed
qed simp

lemma sint_of_small: "n < 2 ^ 31 \<Longrightarrow> sint (word_of_nat n :: u32) = int n"
  by (simp add: sint_uint signed_take_bit_int_eq_self unat_of_nat uint_nat)

definition push_height :: "nat \<Rightarrow> nat \<Rightarrow> bytes \<Rightarrow> bytes" where
  "push_height k h rest = word_of_nat k # le_bytes k h @ rest"

lemma parse_pushed_height:
  assumes k: "1 \<le> k" "k \<le> 4" and h: "h < 256 ^ k" "h < 2 ^ 31"
  shows "parse_coinbase_height (push_height k h rest) = Some (int h)"
proof -
  have head: "unat (word_of_nat k :: u8) = k" using k by (simp add: unat_of_nat)
  have "slice (push_height k h rest) 1 (1 + k) = le_bytes k h"
    by (simp add: push_height_def slice_def)
  moreover have "i32_from_le (le_bytes k h @ replicate (4 - k) 0) = int h"
    using h by (simp add: i32_from_le_def u32_from_le_def le_nat_pad le_nat_le_bytes sint_of_small)
  ultimately show ?thesis
    using k head by (auto simp: parse_coinbase_height_def push_height_def Let_def)
qed

text \<open>A height pushed as \<open>k\<close> little-endian bytes, with \<open>k\<close> from 1 to 4, is read back from
  the coinbase script whatever follows it; the BIP34 reader caps it at 2000000, and the child
  reader rejects exactly the pushes whose last byte has the sign bit.\<close>

theorem coinbase_height_round_trip:
  assumes k: "1 \<le> k" "k \<le> 4" and h: "h < 256 ^ k" "h < 2 ^ 31"
  shows "parse_coinbase_height (push_height k h rest) = Some (int h) \<and>
    parse_bip34_height (push_height k h rest) = (if h \<le> 2000000 then Some (int h) else None) \<and>
    parse_child_bip34_height (push_height k h rest) =
      (if h < 128 * 256 ^ (k - 1) then Some (int h) else None)"
proof -
  have head: "unat (word_of_nat k :: u8) = k" using k by (simp add: unat_of_nat)
  have h': "h < 256 ^ (k - 1) * 256" using h(1) k by (cases k) simp_all
  then have top: "h div 256 ^ (k - 1) < 256" by (simp add: div_less_iff_less_mult mult.commute)
  have "push_height k h rest ! k = le_bytes k h ! (k - 1)"
    using k by (simp add: push_height_def nth_Cons' nth_append)
  then have "(push_height k h rest ! k) AND 0x80 = 0 \<longleftrightarrow> h div 256 ^ (k - 1) < 128"
    using k top le_bytes_last [of k h] by (simp add: u8_sign_bit)
  also have "\<dots> \<longleftrightarrow> h < 128 * 256 ^ (k - 1)" by (simp add: div_less_iff_less_mult)
  finally have sign: "(push_height k h rest ! k) AND 0x80 = 0 \<longleftrightarrow> h < 128 * 256 ^ (k - 1)" .
  have first: "unat (push_height k h rest ! 0) = k" using head by (simp add: push_height_def)
  show ?thesis
    unfolding parse_bip34_height_def parse_child_bip34_height_def parse_pushed_height [OF assms] first
      option.case sign by simp
qed

theorem coinbase_height_round_trip_witness:
  "parse_coinbase_height (push_height 3 840000 [1, 2]) = Some 840000 \<and>
   parse_bip34_height (push_height 3 840000 [1, 2]) = Some 840000 \<and>
   parse_child_bip34_height (push_height 3 840000 [1, 2]) = Some 840000"
  using coinbase_height_round_trip [of 3 840000 "[1, 2]"] by simp

section \<open>An independent specification of the commitment\<close>

text \<open>A path of sibling hashes authenticates a leaf in a slot under a root: at an even slot the
  node is the left child, at an odd slot the right one, and the path ends at the root, which is
  the only node of its level.\<close>

inductive authenticates :: "bitcoin_lib \<Rightarrow> bytes \<Rightarrow> nat \<Rightarrow> bytes list \<Rightarrow> bytes \<Rightarrow> bool"
  for L :: bitcoin_lib where
  at_root: "authenticates L root 0 [] root"
| left_child: "authenticates L (sha256d L (node @ sib)) i sibs root \<Longrightarrow>
    authenticates L node (2 * i) (sib # sibs) root"
| right_child: "authenticates L (sha256d L (sib @ node)) i sibs root \<Longrightarrow>
    authenticates L node (2 * i + 1) (sib # sibs) root"

text \<open>The parent coinbase script commits to a root, a tree size and a nonce: it holds the root
  in display order, the size and the nonce, directly after the only marker of the script, or with
  no marker at all within its first 20 bytes.\<close>

definition script_commits :: "bytes \<Rightarrow> bytes \<Rightarrow> nat \<Rightarrow> nat \<Rightarrow> bool" where
  "script_commits script root width nonce \<longleftrightarrow>
     (\<exists>pre post. script = pre @ rev root @ le_bytes 4 width @ le_bytes 4 nonce @ post \<and>
        ((\<exists>b. pre = b @ [0xFA, 0xBE, 0x6D, 0x6D] \<and>
              (\<forall>i. occurs_at [0xFA, 0xBE, 0x6D, 0x6D] script i \<longleftrightarrow> i = length b)) \<or>
         ((\<forall>i. \<not> occurs_at [0xFA, 0xBE, 0x6D, 0x6D] script i) \<and> length pre \<le> 20)))"

lemma fold_authenticates:
  "unat w < 2 ^ length sibs \<Longrightarrow> authenticates L leaf (unat w) sibs (fold_branch_loop L leaf w sibs)"
proof (induction sibs arbitrary: leaf w)
  case Nil
  then show ?case by (simp add: authenticates.at_root)
next
  case (Cons sib sibs)
  have half: "unat (drop_bit 1 w) = unat w div 2" by (simp add: drop_bit_eq_div unat_div_distrib)
  with Cons.prems have "unat (drop_bit 1 w) < 2 ^ length sibs" by simp
  note IH = Cons.IH [OF this, unfolded half]
  show ?case
  proof (cases "odd (unat w)")
    case True
    then have "2 * (unat w div 2) + 1 = unat w" by simp
    with authenticates.right_child [where node = leaf and sib = sib, OF IH] True show ?thesis
      by (simp add: and_one_eq_odd sha256d_pair_def)
  next
    case False
    then have "2 * (unat w div 2) = unat w" by simp
    with authenticates.left_child [where node = leaf and sib = sib, OF IH] False show ?thesis
      by (simp add: and_one_eq_odd sha256d_pair_def)
  qed
qed

lemma drop_occurs: "occurs_at root s k \<Longrightarrow> drop k s = root @ drop (k + length root) s"
  by (metis append_take_drop_id drop_drop occurs_at_def add.commute)

lemma le_bytes_u32_from_le:
  "length bs = 4 \<Longrightarrow> le_bytes 4 (unat (u32_from_le bs)) = bs"
  using le_nat_bound [of bs] le_bytes_le_nat [of bs]
  by (simp add: u32_from_le_def unat_of_nat)

lemma drop_slice: "a \<le> b \<Longrightarrow> drop a s = slice s a b @ drop b s"
  by (metis append_take_drop_id drop_drop le_add_diff_inverse2 slice_def)

lemma script_footer_split:
  assumes "occurs_at root s k" and "length root = 32" and "k + 40 \<le> length s"
  shows "s = take k s @ root @ le_bytes 4 (unat (u32_from_le (slice s (k + 32) (k + 36)))) @
    le_bytes 4 (unat (u32_from_le (slice s (k + 36) (k + 40)))) @ drop (k + 40) s"
proof -
  have "drop (k + 32) s = slice s (k + 32) (k + 36) @ slice s (k + 36) (k + 40) @ drop (k + 40) s"
    using drop_slice [of "k + 32" "k + 36" s] drop_slice [of "k + 36" "k + 40" s]
    by (simp del: slice_append)
  then have "drop k s = root @ slice s (k + 32) (k + 36) @ slice s (k + 36) (k + 40) @ drop (k + 40) s"
    using drop_occurs [OF assms(1)] assms(2) by (simp del: slice_append)
  moreover have "le_bytes 4 (unat (u32_from_le (slice s i (i + 4)))) = slice s i (i + 4)"
    if "i + 4 \<le> length s" for i
    using that by (intro le_bytes_u32_from_le) simp
  from this [of "k + 32"] this [of "k + 36"] assms(3)
  have "le_bytes 4 (unat (u32_from_le (slice s (k + 32) (k + 36)))) = slice s (k + 32) (k + 36)"
    "le_bytes 4 (unat (u32_from_le (slice s (k + 36) (k + 40)))) = slice s (k + 36) (k + 40)"
    by (simp_all add: add.assoc del: le_bytes.simps)
  ultimately show ?thesis by (metis append_take_drop_id)
qed

lemma footer_commits:
  assumes "read_commitment_footer script root = Inr (tree_size, nonce)" and "length root = 32"
  shows "script_commits script (rev root) (unat tree_size) (unat nonce)"
proof -
  obtain k where k: "occurs_at root script k" "k + 40 \<le> length script"
      "tree_size = u32_from_le (slice script (k + 32) (k + 36))"
      "nonce = u32_from_le (slice script (k + 36) (k + 40))"
    and m: "(\<exists>m. unique_marker script m \<and> k = m + 4) \<or>
      ((\<forall>i. \<not> occurs_at auxpow_magic script i) \<and> k \<le> 20)"
    using assms(1) unfolding read_commitment_footer_Inr [OF assms(2)] by blast
  have split: "script = take k script @ root @ le_bytes 4 (unat tree_size) @ le_bytes 4 (unat nonce) @
      drop (k + 40) script"
    unfolding k(3,4) by (rule script_footer_split [OF k(1) assms(2) k(2)])
  have "(\<exists>b. take k script = b @ auxpow_magic \<and> (\<forall>i. occurs_at auxpow_magic script i \<longleftrightarrow> i = length b)) \<or>
      ((\<forall>i. \<not> occurs_at auxpow_magic script i) \<and> length (take k script) \<le> 20)"
    using m
  proof (elim disjE exE conjE)
    fix m assume u: "unique_marker script m" and km: "k = m + 4"
    then have "take k script = take m script @ auxpow_magic" and len: "length (take m script) = m"
      using k(2) by (simp_all add: unique_marker_def occurs_at_def take_add)
    moreover from u have "occurs_at auxpow_magic script i \<longleftrightarrow> i = m" for i
      by (auto simp: unique_marker_def)
    ultimately show ?thesis using len by (intro disjI1 exI [of _ "take m script"]) simp
  qed simp
  with split show ?thesis
    unfolding script_commits_def auxpow_magic_def [symmetric] rev_rev_ident by blast
qed


text \<open>What an accepted classic proof establishes, without reference to the check.\<close>

definition proof_commits :: "bitcoin_lib \<Rightarrow> parsed_auxpow_block \<Rightarrow> bytes \<Rightarrow> u32 \<Rightarrow> bool" where
  "proof_commits L p child cid \<longleftrightarrow>
     (\<exists>k root nonce. k \<le> 30 \<and> length (mb_hashes (ap_chain_branch (pb_proof p))) = k \<and> nonce < 2 ^ 32 \<and>
        script_commits (pb_parent_coinbase_script p) root (2 ^ k) nonce \<and>
        authenticates L child
          (((nonce * 1103515245 + 12345 + unat cid) * 1103515245 + 12345) mod 2 ^ k)
          (mb_hashes (ap_chain_branch (pb_proof p))) root \<and>
        authenticates L (pb_parent_coinbase_txid p) 0 (mb_hashes (ap_coinbase_branch (pb_proof p)))
          (h_merkle_root (ph_header (pb_parent_header p))))"

lemma verified_classic_commits:
  assumes L: "lib_hash_ok L" and child: "length child = 32"
    and ok: "verify_classic_auxpow_commitment L p child cid = Inr ()"
  shows "proof_commits L p child cid"
proof -
  let ?chain = "ap_chain_branch (pb_proof p)"
  let ?k = "length (mb_hashes ?chain)"
  let ?root = "fold_merkle_branch L child ?chain"
  obtain nonce where n: "?k \<le> 30" "mb_index (ap_coinbase_branch (pb_proof p)) = 0"
      "fold_merkle_branch L (pb_parent_coinbase_txid p) (ap_coinbase_branch (pb_proof p)) =
        h_merkle_root (ph_header (pb_parent_header p))"
      "read_commitment_footer (pb_parent_coinbase_script p) (rev ?root) = Inr (shl_u32 1 ?k, nonce)"
      "i32_as_u32 (mb_index ?chain) = auxpow_expected_index nonce cid ?k"
    using ok unfolding verify_classic_Inr by blast
  have k: "?k < 32" using n(1) by simp
  have slot: "unat (i32_as_u32 (mb_index ?chain)) =
      ((unat nonce * 1103515245 + 12345 + unat cid) * 1103515245 + 12345) mod 2 ^ ?k"
    unfolding n(5) by (rule unat_auxpow_expected_index [OF k])
  then have "unat (i32_as_u32 (mb_index ?chain)) < 2 ^ ?k" by simp
  from fold_authenticates [OF this, of L child]
  have chain: "authenticates L child (((unat nonce * 1103515245 + 12345 + unat cid) * 1103515245 + 12345) mod 2 ^ ?k)
      (mb_hashes ?chain) ?root"
    unfolding slot fold_merkle_branch_def .
  have "unat (i32_as_u32 0) < 2 ^ length (mb_hashes (ap_coinbase_branch (pb_proof p)))"
    by (simp add: i32_as_u32_def)
  from fold_authenticates [OF this, of L "pb_parent_coinbase_txid p"] n(2,3)
  have coinbase: "authenticates L (pb_parent_coinbase_txid p) 0 (mb_hashes (ap_coinbase_branch (pb_proof p)))
      (h_merkle_root (ph_header (pb_parent_header p)))"
    by (simp add: fold_merkle_branch_def i32_as_u32_def)
  have "script_commits (pb_parent_coinbase_script p) ?root (2 ^ ?k) (unat nonce)"
    using footer_commits [OF n(4)] length_fold_merkle_branch [OF L child] unat_shl_one [OF k] by simp
  moreover have "unat nonce < 2 ^ 32" using unsigned_less [of nonce, where 'a = nat] by simp
  ultimately show ?thesis unfolding proof_commits_def using n(1) chain coinbase by blast
qed

lemma validates_target_met:
  assumes "validates_target L hash bits"
  shows "1 \<le> unat bits div 2 ^ 24 \<and> unat bits div 2 ^ 24 \<le> 32 \<and> even (unat bits div 2 ^ 23) \<and>
    unat bits mod 2 ^ 23 \<noteq> 0 \<and> target_is_met_by L (target_from_compact L bits) hash"
  using assms unfolding validates_target_def compact_target_well_formed Let_def
  by (auto simp: even_iff_mod_2_eq_zero split: if_splits)

lemma nonneg_sint_small:
  assumes "n < 2 ^ 32" and "0 \<le> sint (word_of_nat n :: u32)"
  shows "n < 2 ^ 31"
proof -
  have "sint (word_of_nat n :: u32) = signed_take_bit 31 (int n)"
    using assms(1) by (simp add: sint_uint uint_nat unat_of_nat)
  then have "\<not> bit (int n) 31" using assms(2) by (simp add: signed_take_bit_nonnegative_iff)
  then have "\<not> bit n 31" by (simp add: bit_of_nat_iff)
  then have "even (n div 2 ^ 31)" by (simp add: bit_iff_odd)
  moreover have "n div 2 ^ 31 < 2" using assms(1) by (simp add: div_less_iff_less_mult)
  ultimately have "n div 2 ^ 31 = 0" by (auto simp: less_2_cases_iff)
  then show ?thesis by (simp add: div_eq_0_iff)
qed

lemma parsed_height_pushed:
  assumes "parse_child_bip34_height s = Some height"
  shows "\<exists>k rest. 1 \<le> k \<and> k \<le> 4 \<and> 0 \<le> height \<and> s = push_height k (nat height) rest"
proof -
  have "parse_coinbase_height s = Some height"
    using assms by (auto simp: parse_child_bip34_height_def split: option.splits if_splits)
  then obtain k where k: "1 \<le> k" "k \<le> 4" "k = unat (s ! 0)" "1 + k \<le> length s" "0 \<le> height"
      "height = i32_from_le (slice s 1 (1 + k) @ replicate (4 - k) 0)"
    by (auto simp: parse_coinbase_height_def Let_def split: if_splits)
  let ?n = "le_nat (slice s 1 (1 + k))"
  have len: "length (slice s 1 (1 + k)) = k" using k(4) by simp
  have "?n < 256 ^ k" using le_nat_bound [of "slice s 1 (1 + k)"] len by simp
  also have "\<dots> \<le> 256 ^ 4" using k(2) by (intro power_increasing) simp_all
  finally have n: "?n < 2 ^ 32" by simp
  have "height = sint (word_of_nat ?n :: u32)"
    unfolding k(6) i32_from_le_def u32_from_le_def le_nat_pad ..
  with k(5) n have "height = int ?n"
    using nonneg_sint_small [OF n] sint_of_small by simp
  moreover have "s = s ! 0 # slice s 1 (1 + k) @ drop (1 + k) s"
    using k(4) drop_slice [of 1 "1 + k" s] by (cases s) simp_all
  moreover have "word_of_nat k = s ! 0" using k(3) by simp
  moreover have "le_bytes k ?n = slice s 1 (1 + k)" using le_bytes_le_nat [of "slice s 1 (1 + k)"] len by simp
  ultimately have "s = push_height k (nat height) (drop (1 + k) s)" unfolding push_height_def by simp
  with k(1,2,5) show ?thesis by blast
qed

end
