(* ===== verification/AuxPow_Parse.thy ===== *)
theory AuxPow_Parse
  imports AuxPow_Commitment
begin

text \<open>
  \<open>crates/mmm-capture/src/auxpow/mod.rs\<close>, \<open>classic.rs\<close> and \<open>decode.rs\<close>: parsing a child block
  with its AuxPoW proof, authenticating the child coinbase, the strict evidence check of the
  classic chains, and decoding what was stored.  The lemmas show what a verified block
  establishes and that the stored proof bytes decode to the same proof.
\<close>

section \<open>Block parsing\<close>

definition version_auxpow :: int where "version_auxpow = 256"

datatype parsed_namecoin_block =
    NonAuxpow parsed_header
  | Auxpow parsed_auxpow_block

record parsed_child_block_coinbase =
  cc_child_header :: parsed_header
  cc_child_height :: "int option"
  cc_child_coinbase_txid :: bytes
  cc_child_coinbase_script :: bytes
  cc_child_coinbase_outputs :: "txout list"

record child_coinbase =
  ch_height :: "int option"
  ch_txid :: "bytes option"
  ch_script :: "bytes option"
  ch_outputs :: "txout list"
  ch_output_addresses :: "string list"

definition child_coinbase_absent :: child_coinbase where
  "child_coinbase_absent =
     \<lparr>ch_height = None, ch_txid = None, ch_script = None, ch_outputs = [], ch_output_addresses = []\<rparr>"

definition output_addresses :: "bitcoin_lib \<Rightarrow> txout list \<Rightarrow> string list" where
  "output_addresses L outputs = List.map_filter (\<lambda>out. address_from_script L (o_script_pubkey out)) outputs"

definition assemble_auxpow_block ::
  "bitcoin_lib \<Rightarrow> parsed_header \<Rightarrow> child_coinbase \<Rightarrow> parsed_auxpow \<Rightarrow> bytes \<Rightarrow> parsed_auxpow_block" where
  "assemble_auxpow_block L child_header child auxpow auxpow_bytes =
     (let parent_coinbase_script =
            (case pt_first_input_script (pa_coinbase_tx auxpow) of Some s \<Rightarrow> s | None \<Rightarrow> []) in
      \<lparr>pb_child_header = child_header, pb_child_height = ch_height child,
       pb_child_coinbase_txid = ch_txid child, pb_child_coinbase_script = ch_script child,
       pb_child_coinbase_outputs = ch_outputs child,
       pb_child_coinbase_output_addresses = ch_output_addresses child,
       pb_parent_header = pa_parent_header auxpow,
       pb_proof = \<lparr>ap_hash_block = pa_hash_block auxpow, ap_coinbase_branch = pa_coinbase_branch auxpow,
                   ap_chain_branch = pa_chain_branch auxpow\<rparr>,
       pb_parent_coinbase_txid = pt_txid (pa_coinbase_tx auxpow),
       pb_parent_coinbase_script = parent_coinbase_script,
       pb_parent_coinbase_outputs = pt_outputs (pa_coinbase_tx auxpow),
       pb_parent_coinbase_output_addresses = output_addresses L (pt_outputs (pa_coinbase_tx auxpow)),
       pb_auxpow_bytes = auxpow_bytes\<rparr>)"

definition read_classic_prefix ::
  "bitcoin_lib \<Rightarrow> bytes \<Rightarrow> (auxpow_error, parsed_header \<times> (parsed_auxpow \<times> nat) option) result" where
  "read_classic_prefix L raw =
     ensure (header_size \<le> length raw) (BlockErr ShortBlock)
     (rbind (read_slice header_size (reader_new raw)) (\<lambda>(raw_header, r1).
      rbind (parse_header L raw_header) (\<lambda>header.
      if h_version (ph_header header) AND version_auxpow = 0 then Inr (header, None)
      else rbind (read_auxpow L r1) (\<lambda>(proof, r2). Inr (header, Some (proof, r_pos r2))))))"

definition parse_namecoin_block ::
  "bitcoin_lib \<Rightarrow> bytes \<Rightarrow> (auxpow_error, parsed_namecoin_block) result" where
  "parse_namecoin_block L raw =
     rbind (read_classic_prefix L raw) (\<lambda>(child_header, prefix).
     case prefix of
       None \<Rightarrow> Inr (NonAuxpow child_header)
     | Some (auxpow, auxpow_end) \<Rightarrow>
         rbind (skip_bytes auxpow_end (reader_new raw)) (\<lambda>r.
         rbind (if \<not> is_eof r then
                  rbind (read_varint_usize r) (\<lambda>(tx_count, r1).
                  ensure (0 < tx_count) (BlockErr NoChildTransactions)
                  (rbind (read_transaction L r1) (\<lambda>(coinbase, r2).
                   let script = pt_first_input_script coinbase in
                   Inr \<lparr>ch_height = Option.bind script parse_bip34_height,
                        ch_txid = Some (pt_txid coinbase), ch_script = script,
                        ch_outputs = pt_outputs coinbase, ch_output_addresses = []\<rparr>)))
                else Inl (BlockErr MissingTransactionVector)) (\<lambda>child.
         Inr (Auxpow (assemble_auxpow_block L child_header child auxpow
                        (slice raw header_size auxpow_end))))))"

definition parse_auxpow_header_blob ::
  "bitcoin_lib \<Rightarrow> bytes \<Rightarrow> (auxpow_error, parsed_auxpow_block) result" where
  "parse_auxpow_header_blob L raw =
     ensure (header_size \<le> length raw) (BlockErr ShortBlob)
     (rbind (parse_header L (slice raw 0 header_size)) (\<lambda>child_header.
      ensure (h_version (ph_header child_header) AND version_auxpow \<noteq> 0) (BlockErr MissingAuxpowBit)
      (rbind (skip_bytes header_size (reader_new raw)) (\<lambda>r1.
       let auxpow_start = r_pos r1 in
       rbind (read_auxpow L r1) (\<lambda>(auxpow, r2).
       let auxpow_end = r_pos r2 in
       Inr (assemble_auxpow_block L child_header child_coinbase_absent auxpow
              (slice raw auxpow_start auxpow_end)))))))"

definition parse_child_block_coinbase_with_height ::
  "bitcoin_lib \<Rightarrow> bytes \<Rightarrow> (bytes \<Rightarrow> int option) \<Rightarrow>
     (auxpow_error, parsed_child_block_coinbase) result" where
  "parse_child_block_coinbase_with_height L raw height_parser =
     rbind (ok_or (BlockErr DeserializeChildBlock) (deserialize_block L raw)) (\<lambda>block.
     ensure (check_merkle_root L block) (BlockErr ChildMerkleRoot)
     (rbind (ok_or (BlockErr ChildBlockEmpty) (get_at (b_txdata block) 0)) (\<lambda>coinbase.
      ensure (is_coinbase L coinbase) (BlockErr ChildNotCoinbase)
      (rbind (ok_or (BlockErr ChildNoInputs) (get_at (tx_input coinbase) 0)) (\<lambda>input.
       let script = i_script_sig input in
       Inr \<lparr>cc_child_header = \<lparr>ph_header = b_header block\<rparr>, cc_child_height = height_parser script,
            cc_child_coinbase_txid = compute_txid L coinbase, cc_child_coinbase_script = script,
            cc_child_coinbase_outputs = tx_output coinbase\<rparr>)))))"

definition parse_child_block_coinbase ::
  "bitcoin_lib \<Rightarrow> bytes \<Rightarrow> (auxpow_error, parsed_child_block_coinbase) result" where
  "parse_child_block_coinbase L raw = parse_child_block_coinbase_with_height L raw parse_bip34_height"

definition attach_child_block_coinbase ::
  "bitcoin_lib \<Rightarrow> parsed_auxpow_block \<Rightarrow> parsed_child_block_coinbase \<Rightarrow>
     (auxpow_error, parsed_auxpow_block) result" where
  "attach_child_block_coinbase L parsed child =
     ensure (ph_hash L (pb_child_header parsed) = ph_hash L (cc_child_header child))
       (BlockErr ChildHashMismatch)
     (Inr (parsed\<lparr>pb_child_height :=
             (case pb_child_height parsed of Some h \<Rightarrow> Some h | None \<Rightarrow> cc_child_height child),
           pb_child_coinbase_txid := Some (cc_child_coinbase_txid child),
           pb_child_coinbase_script := Some (cc_child_coinbase_script child),
           pb_child_coinbase_outputs := cc_child_coinbase_outputs child,
           pb_child_coinbase_output_addresses := []\<rparr>))"

definition elastos_auxpow_chain_id :: u32 where "elastos_auxpow_chain_id = 1224"

definition max_elastos_auxpow_bytes :: nat where "max_elastos_auxpow_bytes = 4096"

definition parse_elastos_auxpow ::
  "bitcoin_lib \<Rightarrow> parsed_header \<Rightarrow> bytes \<Rightarrow> (auxpow_error, parsed_auxpow_block) result" where
  "parse_elastos_auxpow L child_header auxpow_blob =
     ensure (length auxpow_blob \<le> max_elastos_auxpow_bytes) (BlockErr (ElastosTooLarge (length auxpow_blob)))
     (rbind (read_auxpow L (reader_new auxpow_blob)) (\<lambda>(auxpow, r).
      ensure (is_eof r) (BlockErr ElastosTrailing)
      (Inr (assemble_auxpow_block L child_header child_coinbase_absent auxpow auxpow_blob))))"

section \<open>Classic evidence authentication\<close>

definition parse_verified_classic_block ::
  "bitcoin_lib \<Rightarrow> bytes \<Rightarrow> bytes \<Rightarrow> int \<Rightarrow> u32 \<Rightarrow> (auxpow_error, parsed_namecoin_block) result" where
  "parse_verified_classic_block L raw requested_hash requested_height chain_id =
     rbind (read_classic_prefix L raw) (\<lambda>(header, prefix).
     ensure (ph_hash L header = requested_hash) (EvidenceErr RequestedHashMismatch)
     (case prefix of
        None \<Rightarrow> Inr (NonAuxpow header)
      | Some (auxpow, body_offset) \<Rightarrow>
          ensure (pt_is_coinbase (pa_coinbase_tx auxpow)) (EvidenceErr ParentNotCoinbase)
          (ensure (drop_bit 16 (i32_as_u32 (h_version (ph_header header))) = chain_id)
             (EvidenceErr UnexpectedChainId)
          (ensure (drop_bit 16 (i32_as_u32 (h_version (ph_header (pa_parent_header auxpow)))) \<noteq> chain_id)
             (EvidenceErr ParentCarriesChainId)
          (let child_bytes = take header_size raw @ drop body_offset raw in
           rbind (parse_child_block_coinbase_with_height L child_bytes parse_child_bip34_height) (\<lambda>child.
           ensure (cc_child_height child = Some requested_height) (EvidenceErr ChildHeightMismatch)
           (let proof = assemble_auxpow_block L header child_coinbase_absent auxpow
                          (slice raw header_size body_offset) in
            rbind (attach_child_block_coinbase L proof child) (\<lambda>proof.
            rbind (verify_classic_auxpow_commitment L proof requested_hash chain_id) (\<lambda>_.
            ensure (validates_target L (ph_hash L (pb_parent_header proof)) (ph_bits (pb_child_header proof)))
              (EvidenceErr ParentMissesChildTarget)
              (Inr (Auxpow proof)))))))))))"

section \<open>Decoding stored bytes\<close>

record aux_marker =
  am_aux_merkle_root :: bytes
  am_merkle_size :: u32
  am_merkle_nonce :: u32

record aux_merkle_branch_detail =
  bd_index :: u32
  bd_siblings :: "bytes list"

record auxpow_proof_detail =
  pd_slot_index :: u32
  pd_parent_header_hash :: bytes
  pd_hash_block :: bytes
  pd_coinbase_branch :: aux_merkle_branch_detail
  pd_blockchain_branch :: aux_merkle_branch_detail

definition decode_aux_marker :: "bytes \<Rightarrow> aux_marker option" where
  "decode_aux_marker coinbase_script =
     Option.bind (position (\<lambda>w. w = auxpow_magic) (windows (length auxpow_magic) coinbase_script)) (\<lambda>magic_pos.
     let after = magic_pos + length auxpow_magic;
         root_end = after + 32;
         size_end = root_end + 4;
         nonce_end = size_end + 4
     in if length coinbase_script < nonce_end then None
        else Some \<lparr>am_aux_merkle_root = slice coinbase_script after root_end,
                   am_merkle_size = u32_from_le (slice coinbase_script root_end size_end),
                   am_merkle_nonce = u32_from_le (slice coinbase_script size_end nonce_end)\<rparr>)"

definition flush_run :: "string \<Rightarrow> string list \<Rightarrow> string list" where
  "flush_run run tags = (let trimmed = str_trim run in if 4 \<le> length trimmed then tags @ [trimmed] else tags)"

fun tag_loop :: "bytes \<Rightarrow> string \<Rightarrow> string list \<Rightarrow> string list" where
  "tag_loop [] run tags = flush_run run tags"
| "tag_loop (byte # rest) run tags =
     (if 0x20 \<le> byte \<and> byte \<le> 0x7E then tag_loop rest (run @ [char_of_byte byte]) tags
      else tag_loop rest [] (flush_run run tags))"

definition extract_coinbase_tag :: "bytes \<Rightarrow> string option" where
  "extract_coinbase_tag coinbase_script =
     (let tags = tag_loop coinbase_script [] [] in if tags \<noteq> [] then Some (str_join '' '' tags) else None)"

definition u32_try_from :: "int \<Rightarrow> u32 option" where
  "u32_try_from x = (if 0 \<le> x \<and> x < 2 ^ 32 then Some (word_of_int x) else None)"

definition decode_auxpow_proof :: "bitcoin_lib \<Rightarrow> bytes \<Rightarrow> auxpow_proof_detail option" where
  "decode_auxpow_proof L aux_merkle_proof =
     Option.bind (result_ok (read_auxpow L (reader_new aux_merkle_proof))) (\<lambda>(auxpow, r).
     if \<not> is_eof r then None
     else Option.bind (u32_try_from (mb_index (pa_chain_branch auxpow))) (\<lambda>slot_index.
          Option.bind (u32_try_from (mb_index (pa_coinbase_branch auxpow))) (\<lambda>coinbase_index.
          Some \<lparr>pd_slot_index = slot_index, pd_parent_header_hash = ph_hash L (pa_parent_header auxpow),
                pd_hash_block = pa_hash_block auxpow,
                pd_coinbase_branch = \<lparr>bd_index = coinbase_index, bd_siblings = mb_hashes (pa_coinbase_branch auxpow)\<rparr>,
                pd_blockchain_branch = \<lparr>bd_index = slot_index, bd_siblings = mb_hashes (pa_chain_branch auxpow)\<rparr>\<rparr>)))"

section \<open>Stored proofs decode to the proof that was parsed\<close>

lemma read_auxpow_window:
  assumes L: "lib_tx_ok L" and raw: "length raw < 2 ^ 63"
    and r: "reader_ok r" "r_buf r = raw"
    and a: "read_auxpow L r = Inr (auxpow, r')"
  shows "\<exists>s. read_auxpow L (reader_new (slice raw (r_pos r) (r_pos r'))) = Inr (auxpow, s) \<and> is_eof s"
    and "r_pos r \<le> r_pos r'" and "r_pos r' \<le> length raw"
proof -
  from read_auxpow_parses [OF L] r(1) a obtain bs where bs: "remaining_slice r = bs @ remaining_slice r'"
      "r_pos r' = r_pos r + length bs" "reader_ok r'"
    and again: "\<And>s t. reader_ok s \<Longrightarrow> remaining_slice s = bs @ t \<Longrightarrow>
      \<exists>s'. read_auxpow L s = Inr (auxpow, s') \<and> remaining_slice s' = t \<and>
        r_pos s' = r_pos s + length bs \<and> reader_ok s'"
    by (rule rd.parsesE) blast
  have win: "slice raw (r_pos r) (r_pos r') = bs"
    using bs(1,2) r(2) by (simp add: slice_def remaining_slice_def)
  have len: "length bs + length (remaining_slice r') = length raw - r_pos r"
    using arg_cong [OF bs(1), of length] r(2) by (simp add: remaining_slice_def)
  with r bs(2) show "r_pos r \<le> r_pos r'" "r_pos r' \<le> length raw"
    by (auto simp: reader_ok_def)
  have "reader_ok (reader_new bs)" using len raw by (intro reader_new_ok) simp
  from again [of "reader_new bs" "[]", OF this] obtain s where
      "read_auxpow L (reader_new bs) = Inr (auxpow, s)" "remaining_slice s = []" "reader_ok s"
    by auto
  then show "\<exists>s. read_auxpow L (reader_new (slice raw (r_pos r) (r_pos r'))) = Inr (auxpow, s) \<and> is_eof s"
    unfolding win by (auto simp: is_eof_iff)
qed

text \<open>The detail a presentation layer shows for a proof.\<close>

definition proof_detail :: "bitcoin_lib \<Rightarrow> parsed_auxpow_block \<Rightarrow> auxpow_proof_detail option" where
  "proof_detail L p =
     (let chain = ap_chain_branch (pb_proof p); coinbase = ap_coinbase_branch (pb_proof p) in
      if mb_index chain < 0 \<or> mb_index coinbase < 0 then None
      else Some \<lparr>pd_slot_index = i32_as_u32 (mb_index chain),
             pd_parent_header_hash = ph_hash L (pb_parent_header p),
             pd_hash_block = ap_hash_block (pb_proof p),
             pd_coinbase_branch = \<lparr>bd_index = i32_as_u32 (mb_index coinbase), bd_siblings = mb_hashes coinbase\<rparr>,
             pd_blockchain_branch = \<lparr>bd_index = i32_as_u32 (mb_index chain), bd_siblings = mb_hashes chain\<rparr>\<rparr>)"

text \<open>The bytes that \<open>read_auxpow\<close> reads as \<open>auxpow\<close>, with nothing left over.\<close>

definition encodes_auxpow :: "bitcoin_lib \<Rightarrow> bytes \<Rightarrow> parsed_auxpow \<Rightarrow> bool" where
  "encodes_auxpow L bs auxpow \<longleftrightarrow>
     (case read_auxpow L (reader_new bs) of Inr (a, r) \<Rightarrow> a = auxpow \<and> is_eof r | Inl _ \<Rightarrow> False)"

lemma read_auxpow_indices:
  assumes "read_auxpow L r = Inr (auxpow, r')"
  shows "i32_ok (mb_index (pa_chain_branch auxpow))" and "i32_ok (mb_index (pa_coinbase_branch auxpow))"
  using assms by (auto simp: read_auxpow_def read_i32_def result_simps i32_from_le_ok)

lemma decode_encoded_auxpow:
  assumes "encodes_auxpow L bs auxpow"
  shows "decode_auxpow_proof L bs = proof_detail L (assemble_auxpow_block L ch cc auxpow bs')"
proof -
  obtain r where r: "read_auxpow L (reader_new bs) = Inr (auxpow, r)" "is_eof r"
    using assms by (auto simp: encodes_auxpow_def split: sum.splits)
  from read_auxpow_indices [OF r(1)] have
    "u32_try_from (mb_index (pa_chain_branch auxpow)) =
       (if mb_index (pa_chain_branch auxpow) < 0 then None else Some (i32_as_u32 (mb_index (pa_chain_branch auxpow))))"
    "u32_try_from (mb_index (pa_coinbase_branch auxpow)) =
       (if mb_index (pa_coinbase_branch auxpow) < 0 then None else Some (i32_as_u32 (mb_index (pa_coinbase_branch auxpow))))"
    by (auto simp: u32_try_from_def i32_ok_def i32_as_u32_def)
  then show ?thesis
    using r by (simp add: decode_auxpow_proof_def proof_detail_def assemble_auxpow_block_def
        result_ok_def Let_def)
qed

lemma parse_header_exact:
  "lib_header_ok L \<Longrightarrow> parse_header L raw = Inr h \<Longrightarrow> serialize_header L (ph_header h) = raw"
  by (auto simp: parse_header_def lib_header_ok_def result_simps)

lemma read_classic_prefix_Inr:
  assumes L: "lib_tx_ok L" "lib_header_ok L" and raw: "length raw < 2 ^ 63"
    and p: "read_classic_prefix L raw = Inr (header, px)"
  shows "serialize_header L (ph_header header) = take header_size raw"
    and "px = None \<longleftrightarrow> h_version (ph_header header) AND version_auxpow = 0"
    and "px = Some (auxpow, stop) \<Longrightarrow> encodes_auxpow L (slice raw header_size stop) auxpow"
    and "px = Some (auxpow, stop) \<Longrightarrow> header_size \<le> stop \<and> stop \<le> length raw"
proof -
  from p obtain raw_header r1 where len: "header_size \<le> length raw"
    and r1: "read_slice header_size (reader_new raw) = Inr (raw_header, r1)"
    and h: "parse_header L raw_header = Inr header"
    and rest: "(if h_version (ph_header header) AND version_auxpow = 0 then Inr (header, None)
      else rbind (read_auxpow L r1) (\<lambda>(proof, r2). Inr (header, Some (proof, r_pos r2)))) =
      Inr (header, px)"
    by (auto simp: read_classic_prefix_def result_simps split: if_splits)
  have win: "raw_header = take header_size raw" "r_pos r1 = header_size" "r_buf r1 = raw" "reader_ok r1"
    using r1 len raw by (auto simp: read_slice_def Let_def ensure_eq_Inr reader_new_def slice_def reader_ok_def)
  show "serialize_header L (ph_header header) = take header_size raw"
    using parse_header_exact [OF L(2) h] win by simp
  show "px = None \<longleftrightarrow> h_version (ph_header header) AND version_auxpow = 0"
    using rest by (auto simp: result_simps split: if_splits)
  assume "px = Some (auxpow, stop)"
  with rest obtain r2 where r2: "read_auxpow L r1 = Inr (auxpow, r2)" "stop = r_pos r2"
    by (auto simp: result_simps split: if_splits)
  from read_auxpow_window [OF L(1) raw win(4,3) r2(1)] r2(2) win(2)
  show "encodes_auxpow L (slice raw header_size stop) auxpow" "header_size \<le> stop \<and> stop \<le> length raw"
    by (auto simp: encodes_auxpow_def)
qed

lemma verified_classic_Auxpow:
  assumes "parse_verified_classic_block L raw h height cid = Inr (Auxpow p)"
  obtains header auxpow stop child where
    "read_classic_prefix L raw = Inr (header, Some (auxpow, stop))"
    and "ph_hash L header = h" and "pt_is_coinbase (pa_coinbase_tx auxpow)"
    and "drop_bit 16 (i32_as_u32 (h_version (ph_header header))) = cid"
    and "drop_bit 16 (i32_as_u32 (h_version (ph_header (pa_parent_header auxpow)))) \<noteq> cid"
    and "parse_child_block_coinbase_with_height L (take header_size raw @ drop stop raw)
      parse_child_bip34_height = Inr child"
    and "cc_child_height child = Some height"
    and "attach_child_block_coinbase L (assemble_auxpow_block L header child_coinbase_absent auxpow
      (slice raw header_size stop)) child = Inr p"
    and "verify_classic_auxpow_commitment L p h cid = Inr ()"
    and "validates_target L (ph_hash L (pb_parent_header p)) (ph_bits (pb_child_header p))"
  using assms
  by (auto simp: parse_verified_classic_block_def Let_def result_simps split: option.splits)

lemma attached_fields:
  assumes "attach_child_block_coinbase L (assemble_auxpow_block L header child_coinbase_absent auxpow bs)
      child = Inr p"
  shows "pb_child_header p = header" and "pb_parent_header p = pa_parent_header auxpow"
    and "pb_auxpow_bytes p = bs" and "proof_detail L p =
      proof_detail L (assemble_auxpow_block L header child_coinbase_absent auxpow bs)"
    and "pb_child_height p = cc_child_height child"
    and "pb_child_coinbase_script p = Some (cc_child_coinbase_script child)"
    and "pb_child_coinbase_txid p = Some (cc_child_coinbase_txid child)"
    and "pb_child_coinbase_outputs p = cc_child_coinbase_outputs child"
    and "pb_parent_coinbase_txid p = pt_txid (pa_coinbase_tx auxpow)"
  using assms
  by (auto simp: attach_child_block_coinbase_def assemble_auxpow_block_def child_coinbase_absent_def
      result_simps Let_def proof_detail_def)

lemma slice_split3: "a \<le> b \<Longrightarrow> b \<le> length xs \<Longrightarrow> xs = take a xs @ slice xs a b @ drop b xs"
  by (metis append_assoc append_take_drop_id drop_0 slice_append slice_def diff_zero le0 slice_append)

lemma verified_classic_facts:
  assumes ok: "parse_verified_classic_block L raw h height cid = Inr (Auxpow p)"
  shows "ph_hash L (pb_child_header p) = h" and "pb_child_height p = Some height"
    and "drop_bit 16 (i32_as_u32 (h_version (ph_header (pb_child_header p)))) = cid"
    and "drop_bit 16 (i32_as_u32 (h_version (ph_header (pb_parent_header p)))) \<noteq> cid"
    and "verify_classic_auxpow_commitment L p h cid = Inr ()"
    and "validates_target L (ph_hash L (pb_parent_header p)) (ph_bits (pb_child_header p))"
  using verified_classic_Auxpow [OF ok] by (metis attached_fields(1,2,5))+

lemma verified_classic_stored:
  assumes L: "lib_tx_ok L" "lib_header_ok L" and raw: "length raw < 2 ^ 63"
    and ok: "parse_verified_classic_block L raw h height cid = Inr (Auxpow p)"
  shows "decode_auxpow_proof L (pb_auxpow_bytes p) = proof_detail L p" and "proof_detail L p \<noteq> None"
    and "serialize_header L (ph_header (pb_child_header p)) = take header_size raw"
    and "\<exists>body child. raw = serialize_header L (ph_header (pb_child_header p)) @ pb_auxpow_bytes p @ body \<and>
      parse_child_block_coinbase_with_height L (take header_size raw @ body) parse_child_bip34_height = Inr child \<and>
      pb_child_coinbase_script p = Some (cc_child_coinbase_script child) \<and>
      pb_child_coinbase_txid p = Some (cc_child_coinbase_txid child) \<and>
      pb_child_coinbase_outputs p = cc_child_coinbase_outputs child"
proof -
  obtain header auxpow stop child where
    pre: "read_classic_prefix L raw = Inr (header, Some (auxpow, stop))"
    and child: "parse_child_block_coinbase_with_height L (take header_size raw @ drop stop raw)
      parse_child_bip34_height = Inr child"
    and at: "attach_child_block_coinbase L (assemble_auxpow_block L header child_coinbase_absent auxpow
      (slice raw header_size stop)) child = Inr p"
    using ok by (rule verified_classic_Auxpow)
  note P = read_classic_prefix_Inr [OF L raw pre]
  have enc: "encodes_auxpow L (slice raw header_size stop) auxpow" using P(3) by simp
  show "decode_auxpow_proof L (pb_auxpow_bytes p) = proof_detail L p"
    unfolding attached_fields(3,4) [OF at] by (rule decode_encoded_auxpow [OF enc])
  show "proof_detail L p \<noteq> None"
    using verified_classic_facts(5) [OF ok] by (auto simp: verify_classic_Inr proof_detail_def Let_def)
  show "serialize_header L (ph_header (pb_child_header p)) = take header_size raw"
    using P(1) attached_fields(1) [OF at] by simp
  have "raw = serialize_header L (ph_header header) @ slice raw header_size stop @ drop stop raw"
    using P(1) P(4) [of auxpow stop] slice_split3 [of header_size stop raw] by simp
  then show "\<exists>body child. raw = serialize_header L (ph_header (pb_child_header p)) @ pb_auxpow_bytes p @ body \<and>
      parse_child_block_coinbase_with_height L (take header_size raw @ body) parse_child_bip34_height = Inr child \<and>
      pb_child_coinbase_script p = Some (cc_child_coinbase_script child) \<and>
      pb_child_coinbase_txid p = Some (cc_child_coinbase_txid child) \<and>
      pb_child_coinbase_outputs p = cc_child_coinbase_outputs child"
    using attached_fields [OF at] child by (intro exI [of _ "drop stop raw"] exI [of _ child]) simp
qed

lemma verified_child_height:
  assumes "parse_verified_classic_block L raw h height cid = Inr (Auxpow p)"
  shows "\<exists>k rest. 1 \<le> k \<and> k \<le> 4 \<and> 0 \<le> height \<and>
    pb_child_coinbase_script p = Some (push_height k (nat height) rest)"
proof -
  obtain header auxpow stop child where
    child: "parse_child_block_coinbase_with_height L (take header_size raw @ drop stop raw)
      parse_child_bip34_height = Inr child" and height: "cc_child_height child = Some height"
    and at: "attach_child_block_coinbase L (assemble_auxpow_block L header child_coinbase_absent auxpow
      (slice raw header_size stop)) child = Inr p"
    using assms by (rule verified_classic_Auxpow)
  have "parse_child_bip34_height (cc_child_coinbase_script child) = Some height"
    using child height by (auto simp: parse_child_block_coinbase_with_height_def result_simps Let_def)
  moreover have "pb_child_coinbase_script p = Some (cc_child_coinbase_script child)"
    using at by (auto simp: attach_child_block_coinbase_def result_simps)
  ultimately show ?thesis using parsed_height_pushed by fastforce
qed

text \<open>C2: An authenticated classic block is the serialized child header, the stored proof bytes and
  the child body.  The child header hashes to the requested hash and its coinbase pushes the
  requested height; the child version carries the chain id and the parent version does not.  The
  parent coinbase script holds, after its only marker (or with no marker, within its first 20
  bytes), a root, the size \<open>2 ^ k\<close> and a nonce, such that the chain branch of length \<open>k\<close> is an
  authentication path of the child hash to that root in the slot the nonce and the chain id select;
  the coinbase branch is a path of the parent coinbase, as first transaction, to the parent's
  Merkle root.  The child's compact target is well formed and the parent's hash meets it.\<close>

theorem verified_classic_block_sound:
  assumes L: "lib_hash_ok L" "lib_tx_ok L" "lib_header_ok L" and raw: "length raw < 2 ^ 63"
    and ok: "parse_verified_classic_block L raw h height cid = Inr (Auxpow p)"
  defines "child \<equiv> ph_header (pb_child_header p)" and "parent \<equiv> ph_header (pb_parent_header p)"
  defines "bits \<equiv> unat (h_bits child)"
  shows "(\<exists>body. raw = serialize_header L child @ pb_auxpow_bytes p @ body) \<and>
    block_hash L child = h \<and> pb_child_height p = Some height \<and>
    (\<exists>k rest. 1 \<le> k \<and> k \<le> 4 \<and> 0 \<le> height \<and>
       pb_child_coinbase_script p = Some (push_height k (nat height) rest)) \<and>
    drop_bit 16 (i32_as_u32 (h_version child)) = cid \<and>
    drop_bit 16 (i32_as_u32 (h_version parent)) \<noteq> cid \<and>
    proof_commits L p h cid \<and>
    1 \<le> bits div 2 ^ 24 \<and> bits div 2 ^ 24 \<le> 32 \<and> even (bits div 2 ^ 23) \<and> bits mod 2 ^ 23 \<noteq> 0 \<and>
    target_is_met_by L (target_from_compact L (h_bits child)) (block_hash L parent)"
proof -
  note F = verified_classic_facts [OF ok, unfolded ph_hash_def, folded child_def parent_def]
  have "length h = 32" using F(1) L(1) by (auto simp: lib_hash_ok_def)
  from verified_classic_commits [OF L(1) this F(5)] have "proof_commits L p h cid" .
  then show ?thesis
    using F(1-4) validates_target_met [OF F(6), folded bits_def] verified_child_height [OF ok]
      verified_classic_stored(4) [OF L(2,3) raw ok, folded child_def]
    by (intro conjI) (assumption | blast)+
qed

text \<open>An authenticated classic block is the child header, the stored proof bytes and the child
  body, in this order; the stored bytes decode, with nothing left over, to the proof that was
  verified, and the child coinbase fields come from the block whose Merkle root was checked.\<close>

theorem verified_classic_block_stores_proof:
  assumes L: "lib_tx_ok L" "lib_header_ok L" and raw: "length raw < 2 ^ 63"
    and ok: "parse_verified_classic_block L raw h height cid = Inr (Auxpow p)"
  shows "decode_auxpow_proof L (pb_auxpow_bytes p) = proof_detail L p \<and> proof_detail L p \<noteq> None \<and>
    (\<exists>body child. raw = serialize_header L (ph_header (pb_child_header p)) @ pb_auxpow_bytes p @ body \<and>
      parse_child_block_coinbase_with_height L (take header_size raw @ body) parse_child_bip34_height = Inr child \<and>
      pb_child_coinbase_script p = Some (cc_child_coinbase_script child) \<and>
      pb_child_coinbase_txid p = Some (cc_child_coinbase_txid child) \<and>
      pb_child_coinbase_outputs p = cc_child_coinbase_outputs child)"
  using verified_classic_stored [OF L raw ok] by simp

section \<open>A concrete block\<close>

definition demo_parent_script :: bytes where
  "demo_parent_script = honest_script [] (demo_leaf 2) 1 0 []"

definition demo_child_header :: header where
  "demo_child_header = \<lparr>h_version = 0x10100, h_prev_blockhash = replicate 32 3,
     h_merkle_root = replicate 32 4, h_time = 7, h_bits = 0x1D00FFFF, h_nonce = 9\<rparr>"

definition demo_parent_header :: header where
  "demo_parent_header = \<lparr>h_version = 4, h_prev_blockhash = replicate 32 5,
     h_merkle_root = demo_hash demo_parent_script, h_time = 8, h_bits = 0x1D00FFFF, h_nonce = 1\<rparr>"

definition demo_cauxpow :: bytes where
  "demo_cauxpow =
     [1, 0, 0, 0, 44] @ demo_parent_script @ replicate 32 0 @ [0] @ le_bytes 4 0 @
     [1] @ demo_leaf 2 @ le_bytes 4 1 @ demo_header_bytes demo_parent_header"

definition demo_raw :: bytes where
  "demo_raw = demo_header_bytes demo_child_header @ demo_cauxpow @ [1] @ [1, 0, 0, 0, 2, 1, 5]"




definition demo_child_hash :: bytes where
  "demo_child_hash = demo_hash (demo_header_bytes demo_child_header)"

definition demo_auxpow :: parsed_auxpow where
  "demo_auxpow =
     \<lparr>pa_coinbase_tx = \<lparr>pt_txid = demo_hash demo_parent_script, pt_is_coinbase = True,
        pt_first_input_script = Some demo_parent_script, pt_outputs = []\<rparr>,
      pa_hash_block = replicate 32 0, pa_coinbase_branch = \<lparr>mb_hashes = [], mb_index = 0\<rparr>,
      pa_chain_branch = \<lparr>mb_hashes = [demo_leaf 2], mb_index = 1\<rparr>,
      pa_parent_header = \<lparr>ph_header = demo_parent_header\<rparr>\<rparr>"

definition demo_child :: parsed_child_block_coinbase where
  "demo_child =
     \<lparr>cc_child_header = \<lparr>ph_header = demo_child_header\<rparr>, cc_child_height = Some 5,
      cc_child_coinbase_txid = demo_hash [1, 5], cc_child_coinbase_script = [1, 5],
      cc_child_coinbase_outputs = []\<rparr>"

definition demo_verified :: parsed_auxpow_block where
  "demo_verified =
     (assemble_auxpow_block demo_lib \<lparr>ph_header = demo_child_header\<rparr> child_coinbase_absent demo_auxpow demo_cauxpow)
       \<lparr>pb_child_height := Some 5, pb_child_coinbase_txid := Some (demo_hash [1, 5]),
        pb_child_coinbase_script := Some [1, 5]\<rparr>"

lemma demo_prefix:
  "read_classic_prefix demo_lib demo_raw =
     Inr (\<lparr>ph_header = demo_child_header\<rparr>, Some (demo_auxpow, length demo_raw - 8))"
  by code_simp

lemma demo_cut: "slice demo_raw header_size (length demo_raw - 8) = demo_cauxpow"
  by code_simp

lemma demo_body:
  "parse_child_block_coinbase_with_height demo_lib
     (take header_size demo_raw @ drop (length demo_raw - 8) demo_raw) parse_child_bip34_height = Inr demo_child"
  by code_simp

lemma demo_commitment: "verify_classic_auxpow_commitment demo_lib demo_verified demo_child_hash 1 = Inr ()"
  by code_simp

lemma demo_versions: "drop_bit 16 (i32_as_u32 (h_version demo_child_header)) = 1"
   "drop_bit 16 (i32_as_u32 (h_version demo_parent_header)) \<noteq> 1"
  by code_simp+

lemma demo_target: "validates_target demo_lib (ph_hash demo_lib \<lparr>ph_header = demo_parent_header\<rparr>) (h_bits demo_child_header)"
  by code_simp

lemma demo_child_hash: "ph_hash demo_lib \<lparr>ph_header = demo_child_header\<rparr> = demo_child_hash"
  by (simp add: ph_hash_def demo_lib_def demo_child_hash_def)

lemma demo_attached:
  "attach_child_block_coinbase demo_lib (assemble_auxpow_block demo_lib \<lparr>ph_header = demo_child_header\<rparr>
     child_coinbase_absent demo_auxpow demo_cauxpow) demo_child = Inr demo_verified"
  by (simp add: attach_child_block_coinbase_def demo_child_def demo_verified_def assemble_auxpow_block_def
      child_coinbase_absent_def ensure_def)

lemma demo_raw_verified:
  "parse_verified_classic_block demo_lib demo_raw demo_child_hash 5 1 = Inr (Auxpow demo_verified)"
proof -
  have p: "pb_parent_header demo_verified = \<lparr>ph_header = demo_parent_header\<rparr>"
    "pb_child_header demo_verified = \<lparr>ph_header = demo_child_header\<rparr>"
    "pt_is_coinbase (pa_coinbase_tx demo_auxpow)" "pa_parent_header demo_auxpow = \<lparr>ph_header = demo_parent_header\<rparr>"
    "cc_child_height demo_child = Some 5"
    by (simp_all add: demo_verified_def assemble_auxpow_block_def demo_auxpow_def demo_child_def)
  show ?thesis
    unfolding parse_verified_classic_block_def demo_prefix
    by (simp add: Let_def p demo_cut demo_body demo_commitment demo_versions demo_target
       demo_child_hash demo_attached ensure_def)
qed

lemma demo_raw_length: "length demo_raw < 2 ^ 63"
  by code_simp

theorem verified_classic_block_sound_witness:
  "block_hash demo_lib demo_child_header = demo_child_hash \<and> pb_child_height demo_verified = Some 5 \<and>
    proof_commits demo_lib demo_verified demo_child_hash 1 \<and>
    target_is_met_by demo_lib (target_from_compact demo_lib 0x1D00FFFF)
      (block_hash demo_lib demo_parent_header)"
proof -
  have "ph_header (pb_child_header demo_verified) = demo_child_header"
    "ph_header (pb_parent_header demo_verified) = demo_parent_header" "h_bits demo_child_header = 0x1D00FFFF"
    by (simp_all add: demo_verified_def assemble_auxpow_block_def demo_auxpow_def demo_child_header_def)
  note S = this
  show ?thesis
    using verified_classic_block_sound [OF demo_lib_ok(1,2,3) demo_raw_length demo_raw_verified, unfolded S]
    by blast
qed

theorem verified_classic_block_stores_proof_witness:
  "decode_auxpow_proof demo_lib (pb_auxpow_bytes demo_verified) = proof_detail demo_lib demo_verified \<and>
    proof_detail demo_lib demo_verified \<noteq> None"
  using verified_classic_block_stores_proof [OF demo_lib_ok(2,3) demo_raw_length demo_raw_verified] by blast

section \<open>Markers and tags of stored scripts\<close>

text \<open>For a parent coinbase that the Elastos check accepted, the stored script decodes to a marker
  whose root is the reversed chain root, whose size is the width of the chain tree, and whose
  nonce selects the slot the proof carries.\<close>

theorem accepted_marker_decodes:
  assumes "verify_auxpow_commitment L p child cid = Inr ()"
  shows "\<exists>m. decode_aux_marker (pb_parent_coinbase_script p) = Some m \<and>
    am_aux_merkle_root m = rev (fold_merkle_branch L (rev child) (ap_chain_branch (pb_proof p))) \<and>
    unat (am_merkle_size m) = 2 ^ chain_depth p \<and>
    i32_as_u32 (mb_index (ap_chain_branch (pb_proof p))) =
      auxpow_expected_index (am_merkle_nonce m) cid (chain_depth p)"
proof -
  let ?s = "pb_parent_coinbase_script p"
  obtain m where m: "unique_marker ?s m" "m + 44 \<le> length ?s" "chain_depth p < 32"
      "footer_size ?s m = shl_u32 1 (chain_depth p)"
      "i32_as_u32 (mb_index (ap_chain_branch (pb_proof p))) =
        auxpow_expected_index (footer_nonce ?s m) cid (chain_depth p)"
      "fold_merkle_branch L (rev child) (ap_chain_branch (pb_proof p)) = rev (footer_root ?s m)"
    using assms unfolding verify_auxpow_Inr by blast
  have "find_subslice ?s auxpow_magic = Some m"
    using m(1) by (auto simp: find_subslice_eq_Some unique_marker_def)
  then have "position (\<lambda>w. w = auxpow_magic) (windows (length auxpow_magic) ?s) = Some m"
    by (simp add: find_subslice_def)
  with m show ?thesis
    by (simp add: decode_aux_marker_def Let_def footer_size_def footer_nonce_def footer_root_def
        unat_shl_one add.commute)
qed

theorem accepted_marker_decodes_witness:
  "\<exists>m. decode_aux_marker (pb_parent_coinbase_script demo_parsed) = Some m \<and> unat (am_merkle_size m) = 2"
proof -
  have v: "verify_auxpow_commitment demo_lib demo_parsed (demo_leaf 1) 1 = Inr ()" by code_simp
  have "chain_depth demo_parsed = 1" by (simp add: demo_parsed_def)
  with accepted_marker_decodes [OF v] show ?thesis by auto
qed

definition printable :: "char \<Rightarrow> bool" where
  "printable c \<longleftrightarrow> 32 \<le> (of_char c :: nat) \<and> of_char c \<le> (126 :: nat)"

lemma printable_byte: "0x20 \<le> b \<Longrightarrow> b \<le> 0x7E \<Longrightarrow> printable (char_of_byte b)"
  by (simp add: printable_def char_of_byte_def word_le_nat_alt)

lemma flush_run_ok:
  "list_all (\<lambda>t. 4 \<le> length t \<and> list_all printable t) tags \<Longrightarrow> list_all printable run \<Longrightarrow>
     list_all (\<lambda>t. 4 \<le> length t \<and> list_all printable t) (flush_run run tags)"
  using set_str_trim [of run] by (auto simp: flush_run_def Let_def list_all_iff)

lemma tag_loop_ok:
  "list_all (\<lambda>t. 4 \<le> length t \<and> list_all printable t) tags \<Longrightarrow> list_all printable run \<Longrightarrow>
     list_all (\<lambda>t. 4 \<le> length t \<and> list_all printable t) (tag_loop bs run tags)"
proof (induction bs run tags rule: tag_loop.induct)
  case (1 run tags)
  then show ?case by (simp add: flush_run_ok)
next
  case (2 byte rest run tags)
  then show ?case by (simp add: flush_run_ok printable_byte)
qed

lemma str_join_ok:
  "list_all printable sep \<Longrightarrow> list_all (list_all printable) ts \<Longrightarrow> list_all printable (str_join sep ts)"
  by (induction sep ts rule: str_join.induct) simp_all

lemma str_join_length: "t \<in> set ts \<Longrightarrow> length t \<le> length (str_join sep ts)"
  by (induction sep ts rule: str_join.induct) force+

text \<open>A coinbase tag is at least four printable ASCII characters, whatever bytes the coinbase
  script holds.\<close>

theorem coinbase_tag_printable:
  assumes "extract_coinbase_tag script = Some tag"
  shows "4 \<le> length tag \<and> list_all printable tag"
proof -
  let ?tags = "tag_loop script [] []"
  have tags: "?tags \<noteq> []" "tag = str_join '' '' ?tags"
    using assms by (auto simp: extract_coinbase_tag_def Let_def split: if_splits)
  have ok: "list_all (\<lambda>t. 4 \<le> length t \<and> list_all printable t) ?tags" by (rule tag_loop_ok) simp_all
  obtain t where "t \<in> set ?tags" using tags(1) by (cases ?tags) auto
  with ok str_join_length [of t ?tags "'' ''"] have "4 \<le> length tag" by (auto simp: tags list_all_iff)
  moreover have "list_all printable '' ''" by (simp add: printable_def)
  then have "list_all printable tag"
    unfolding tags(2) using ok by (intro str_join_ok) (simp_all add: list_all_iff)
  ultimately show ?thesis ..
qed

theorem coinbase_tag_printable_witness:
  "extract_coinbase_tag [3, 0x2F, 0x46, 0x32, 0x50, 0x6F, 0x6F, 0x6C, 0x2F, 0] = Some ''/F2Pool/'' \<and>
     4 \<le> length ''/F2Pool/'' \<and> list_all printable ''/F2Pool/''"
proof -
  have e: "extract_coinbase_tag [3, 0x2F, 0x46, 0x32, 0x50, 0x6F, 0x6F, 0x6C, 0x2F, 0] = Some ''/F2Pool/''"
    by code_simp
  with coinbase_tag_printable [OF e] show ?thesis by blast
qed


end
