(* ===== verification/AuxPow_Qbit.thy ===== *)
theory AuxPow_Qbit
  imports AuxPow_Parse
begin

text \<open>
  \<open>crates/mmm-capture/src/auxpow/qbit.rs\<close>: the native Qbit proofs.  The proof has no hash field
  and its branches carry one-byte counts; its child target is the child's own compact target,
  and its errors are marked so that the capture can tell a bad proof from a bad block.
\<close>

section \<open>Records and constants\<close>

definition qbit_auxpow_chain_id :: u32 where "qbit_auxpow_chain_id = 47"

definition qbit_parent_branch_cap :: nat where "qbit_parent_branch_cap = 31"

definition qbit_chain_branch_cap :: nat where "qbit_chain_branch_cap = 30"

definition proof_error :: "(auxpow_error, 'a) result \<Rightarrow> (auxpow_error, 'a) result" where
  "proof_error m = (case m of Inl e \<Rightarrow> Inl (QbitProofError e) | Inr x \<Rightarrow> Inr x)"

definition qbit_pow_limit :: "bitcoin_lib \<Rightarrow> nat" where
  "qbit_pow_limit L = target_from_be_bytes L ([0, 0] @ replicate 30 0xFF)"

record parsed_qbit_auxpow =
  qa_child_header :: parsed_header
  qa_parent_header :: parsed_header
  qa_parent_coinbase_txid :: bytes
  qa_parent_coinbase_script :: bytes
  qa_parent_coinbase_outputs :: "txout list"
  qa_parent_coinbase_output_addresses :: "string list"
  qa_coinbase_branch :: merkle_branch
  qa_chain_branch :: merkle_branch
  qa_auxpow_bytes :: bytes

datatype parsed_qbit_block =
    QbitDirect parsed_header
  | QbitAuxpow parsed_qbit_auxpow


record qbit_raw_auxpow =
  qr_coinbase_txid :: bytes
  qr_coinbase_script :: bytes
  qr_coinbase_outputs :: "txout list"
  qr_coinbase_branch :: merkle_branch
  qr_chain_branch :: merkle_branch
  qr_parent_header :: parsed_header


section \<open>The version gate and the child target\<close>

definition qbit_version_gate :: "u32 \<Rightarrow> u32 \<Rightarrow> (auxpow_error, bool) result" where
  "qbit_version_gate version height =
     ensure (0 < height \<longrightarrow> 4 \<le> version \<and> version < 0x80000000) (QbitErr (QbitMinimumVersion version))
     (let shaped = (version AND 0xE0000000 = 0x20000000) in
      ensure (shaped \<or> version AND 0xFFFFFF00 = 0) (QbitErr (QbitTopBits version))
      (ensure (\<not> shaped \<or> version AND 0x00001E00 = 0) (QbitErr (QbitReservedBits version))
      (let merged = shaped \<and> version AND 0x100 \<noteq> 0;
           chain_id = drop_bit 13 version AND 0xFFFF in
       ensure (merged \<longrightarrow> chain_id = qbit_auxpow_chain_id) (QbitErr (QbitChainId chain_id))
         (Inr merged))))"

definition qbit_child_target :: "bitcoin_lib \<Rightarrow> u32 \<Rightarrow> (auxpow_error, nat) result" where
  "qbit_child_target L bits =
     (case well_formed_compact_target L bits of
        Some target \<Rightarrow>
          if target \<noteq> 0 \<and> target \<le> qbit_pow_limit L then Inr target else Inl (QbitErr QbitInvalidTarget)
      | None \<Rightarrow> Inl (QbitErr QbitInvalidTarget))"

section \<open>Reading the proof\<close>

definition read_qbit_branch :: "nat \<Rightarrow> reader \<Rightarrow> (auxpow_error, bytes list \<times> reader) result" where
  "read_qbit_branch cap r =
     rbind (read_u8 r) (\<lambda>(byte, r1).
       let count = unat byte in
       ensure (count \<le> cap) (QbitErr (QbitBranchCount count cap)) (read_hashes count r1))"

text \<open>
  \<open>first().expect(..)\<close> panics on an empty input list: the branch \<open>QbitNoInputPanic\<close>, which the
  documented law of \<open>is_coinbase\<close> makes unreachable.
\<close>

definition read_qbit_auxpow ::
  "bitcoin_lib \<Rightarrow> reader \<Rightarrow> (auxpow_error, qbit_raw_auxpow \<times> reader) result" where
  "read_qbit_auxpow L r0 =
     ensure (get_at (remaining_slice r0) 4 \<noteq> Some 0) (QbitErr QbitWitnessEncoding)
     (rbind (ok_or (ReaderErr ParseTransaction) (deserialize_partial_tx L (remaining_slice r0))) (\<lambda>(tx, consumed).
      rbind (skip_bytes consumed r0) (\<lambda>r1.
      ensure (is_coinbase L tx) (QbitErr QbitNotCoinbase)
      (rbind (ok_or (QbitErr QbitNoInputPanic) (first_script tx)) (\<lambda>coinbase_script.
       rbind (read_qbit_branch qbit_parent_branch_cap r1) (\<lambda>(coinbase_hashes, r2).
       rbind (read_i32 r2) (\<lambda>(coinbase_index, r3).
       rbind (read_qbit_branch qbit_chain_branch_cap r3) (\<lambda>(chain_hashes, r4).
       rbind (read_i32 r4) (\<lambda>(chain_index, r5).
       rbind (read_slice header_size r5) (\<lambda>(raw_header, r6).
       rbind (parse_header L raw_header) (\<lambda>parent_header.
         Inr (\<lparr>qr_coinbase_txid = compute_txid L tx, qr_coinbase_script = coinbase_script,
               qr_coinbase_outputs = tx_output tx,
               qr_coinbase_branch = \<lparr>mb_hashes = coinbase_hashes, mb_index = coinbase_index\<rparr>,
               qr_chain_branch = \<lparr>mb_hashes = chain_hashes, mb_index = chain_index\<rparr>,
               qr_parent_header = parent_header\<rparr>, r6))))))))))))"

definition verify_qbit_proof ::
  "bitcoin_lib \<Rightarrow> parsed_header \<Rightarrow> qbit_raw_auxpow \<Rightarrow> (auxpow_error, unit) result" where
  "verify_qbit_proof L child_header auxpow =
     (let coinbase_branch = qr_coinbase_branch auxpow; chain_branch = qr_chain_branch auxpow;
          chain_len = length (mb_hashes chain_branch); chain_index = mb_index chain_branch in
      ensure (mb_index coinbase_branch = 0) (CommitErr (CoinbaseNotFirst (mb_index coinbase_branch)))
      (ensure (0 \<le> chain_index \<and> nat chain_index < 2 ^ chain_len) (QbitErr (QbitChainIndexRange chain_index (2 ^ chain_len)))
      (ensure (fold_merkle_branch L (qr_coinbase_txid auxpow) coinbase_branch =
                 h_merkle_root (ph_header (qr_parent_header auxpow))) (CommitErr CoinbaseRootMismatch)
      (let chain_root = fold_merkle_branch L (ph_hash L child_header) chain_branch;
           display_root = rev chain_root in
       rbind (read_commitment_footer (qr_coinbase_script auxpow) display_root) (\<lambda>(tree_size, nonce).
       ensure (tree_size = shl_u32 1 chain_len) (CommitErr (TreeSizeMismatch tree_size chain_len))
       (let expected_slot = auxpow_expected_index nonce qbit_auxpow_chain_id chain_len in
        ensure (i32_as_u32 chain_index = expected_slot)
          (CommitErr (SlotMismatch (i32_as_u32 chain_index) expected_slot))
          (Inr ())))))))"

definition parse_qbit_extended_header ::
  "bitcoin_lib \<Rightarrow> bytes \<Rightarrow> u32 \<Rightarrow> (auxpow_error, parsed_qbit_block) result" where
  "parse_qbit_extended_header L raw child_height =
     ensure (header_size \<le> length raw) (BlockErr ShortBlock)
     (rbind (parse_header L (slice raw 0 header_size)) (\<lambda>child_header.
      let version = i32_as_u32 (h_version (ph_header child_header)) in
      rbind (qbit_version_gate version child_height) (\<lambda>merged.
      rbind (qbit_child_target L (ph_bits child_header)) (\<lambda>child_target.
      rbind (skip_bytes header_size (reader_new raw)) (\<lambda>r1.
      if \<not> merged then
        ensure (is_eof r1) (QbitErr QbitTrailingDirect)
        (ensure (target_is_met_by L child_target (ph_hash L child_header)) (QbitErr QbitDirectTarget)
          (Inr (QbitDirect child_header)))
      else
        let auxpow_start = r_pos r1 in
        rbind (proof_error (read_qbit_auxpow L r1)) (\<lambda>(auxpow, r2).
        rbind (if \<not> is_eof r2 then Inl (QbitProofError (QbitErr QbitTrailingAuxpow)) else Inr ()) (\<lambda>_.
        rbind (proof_error (verify_qbit_proof L child_header auxpow)) (\<lambda>_.
        ensure (target_is_met_by L child_target (ph_hash L (qr_parent_header auxpow))) (QbitErr QbitParentTarget)
        (Inr (QbitAuxpow
          \<lparr>qa_child_header = child_header, qa_parent_header = qr_parent_header auxpow,
           qa_parent_coinbase_txid = qr_coinbase_txid auxpow,
           qa_parent_coinbase_script = qr_coinbase_script auxpow,
           qa_parent_coinbase_outputs = qr_coinbase_outputs auxpow,
           qa_parent_coinbase_output_addresses = output_addresses L (qr_coinbase_outputs auxpow),
           qa_coinbase_branch = qr_coinbase_branch auxpow, qa_chain_branch = qr_chain_branch auxpow,
           qa_auxpow_bytes = slice raw auxpow_start (r_pos r2)\<rparr>))))))))))"




section \<open>The proof reader consumes exactly the proof\<close>







lemma word_field:
  fixes w :: u32
  shows "unat (drop_bit n w AND mask k) = unat w div 2 ^ n mod 2 ^ k"
proof -
  have "take_bit 32 (unat w) = unat w"
    using unsigned_less [of w, where 'a = nat] by (simp add: take_bit_nat_eq_self)
  then have "unat (drop_bit n w AND mask k) = take_bit k (drop_bit n (unat w))"
    by (simp add: take_bit_eq_mask [symmetric] unsigned_take_bit_eq unsigned_drop_bit_eq)
  then show ?thesis by (simp add: drop_bit_eq_div take_bit_eq_mod)
qed

lemma word_and_field: "(w :: u32) AND push_bit n (mask k) = push_bit n (drop_bit n w AND mask k)"
  by (rule bit_word_eqI) (auto simp: bit_simps)

lemma drop_push_small:
  fixes x :: u32
  assumes "n + k \<le> 32" and "unat x < 2 ^ k"
  shows "drop_bit n (push_bit n x) = x"
proof -
  have "(2::nat) ^ k \<le> 2 ^ (32 - n)" using assms(1) by (intro power_increasing) simp_all
  then have "unat x < 2 ^ (32 - n)" using assms(2) by (rule less_le_trans [rotated])
  then have "take_bit (32 - n) x = x"
    by (simp add: word_unat_eq_iff unsigned_take_bit_eq take_bit_nat_eq_self)
  then have "i < 32 - n" if "bit x i" for i using that by (metis bit_take_bit_iff)
  then have "n + i < 32" if "bit x i" for i using that by (simp add: less_diff_conv add.commute)
  then show ?thesis by (intro bit_word_eqI) (auto simp: bit_simps)
qed

lemma and_field_eq:
  fixes w c :: u32
  assumes nk: "n + k \<le> 32" and c: "unat c < 2 ^ k"
  shows "w AND push_bit n (mask k) = push_bit n c \<longleftrightarrow> unat w div 2 ^ n mod 2 ^ k = unat c"
proof -
  have "unat (drop_bit n w AND mask k) < 2 ^ k" by (simp add: word_field)
  then have "push_bit n (drop_bit n w AND mask k) = push_bit n c \<longleftrightarrow> drop_bit n w AND mask k = c"
    using drop_push_small [OF nk] c by metis
  then show ?thesis unfolding word_and_field by (simp add: word_field word_unat_eq_iff)
qed

lemma qbit_masks:
  "(0xE0000000 :: u32) = push_bit 29 (mask 3)" "(0x20000000 :: u32) = push_bit 29 1"
  "(0x00001E00 :: u32) = push_bit 9 (mask 4)" "(0x100 :: u32) = push_bit 8 (mask 1)"
  "(0xFFFF :: u32) = push_bit 0 (mask 16)" "(0 :: u32) = push_bit 9 0" 
  by (simp_all add: mask_eq_exp_minus_1 push_bit_eq_mult)

lemma div_mod_pair: "r < d \<Longrightarrow> q div d = c \<and> q mod d = r \<longleftrightarrow> q = c * d + r" for q :: nat
  by (auto simp: div_mult_mod_eq)

lemma odd_low_bit: "y < 2 \<Longrightarrow> x = 0 \<and> y = 1 \<longleftrightarrow> 2 * x + y = (1 :: nat)"
  by arith

lemma version_fields:
  fixes v :: nat
  assumes "v < 2 ^ 32"
  shows "v div 2 ^ 29 mod 2 ^ 3 = 1 \<and> v div 2 ^ 9 mod 2 ^ 4 = 0 \<and> v div 2 ^ 8 mod 2 ^ 1 = 1 \<and>
    v div 2 ^ 13 mod 2 ^ 16 = 47 \<longleftrightarrow> v div 2 ^ 8 = 0x2005E1"
proof -
  define a where "a = v div 2 ^ 8"
  have a: "a < 2 ^ 24" using assms by (simp add: a_def less_mult_imp_div_less)
  have d: "v div 2 ^ 29 = a div 32 div 65536" "v div 2 ^ 9 = a div 2" "v div 2 ^ 13 = a div 32"
    by (simp_all add: a_def div_mult2_eq [symmetric])
  have "a div 32 div 65536 < 8" using a by (simp add: div_mult2_eq [symmetric] less_mult_imp_div_less)
  then have top: "a div 32 div 65536 mod 2 ^ 3 = a div 32 div 65536" by simp
  have "a div 32 div 65536 = 1 \<and> a div 32 mod 65536 = 47 \<longleftrightarrow> a div 32 = 65583"
    using div_mod_pair [of 47 65536 "a div 32" 1] by simp
  moreover have "a div 2 mod 16 = 0 \<and> a mod 2 = 1 \<longleftrightarrow> a mod 32 = 1"
    using odd_low_bit [of "a mod 2" "a div 2 mod 16"] mod_mult2_eq [of a 2 16] by simp
  moreover have "a div 32 = 65583 \<and> a mod 32 = 1 \<longleftrightarrow> a = 0x2005E1"
    using div_mod_pair [of 1 32 a 65583] by simp
  ultimately show ?thesis unfolding d top a_def [symmetric] by auto
qed

text \<open>After genesis the version gate reports a merge-mined block exactly for the versions from
  \<open>0x2005E100\<close> to \<open>0x2005E1FF\<close>: the top bits \<open>001\<close>, chain id 47, the reserved bits clear and
  the AuxPoW bit set, with the low byte free.\<close>

theorem qbit_gate_merged_versions:
  assumes "0 < height"
  shows "qbit_version_gate version height = Inr True \<longleftrightarrow> unat version div 256 = 0x2005E1"
proof -
  have v: "unat version < 2 ^ 32" using unsigned_less [of version, where 'a = nat] by simp
  have shaped: "version AND 0xE0000000 = 0x20000000 \<longleftrightarrow> unat version div 2 ^ 29 mod 2 ^ 3 = 1"
    unfolding qbit_masks(1,2) using and_field_eq [of 29 3 1 version] by simp
  have reserved: "version AND 0x00001E00 = 0 \<longleftrightarrow> unat version div 2 ^ 9 mod 2 ^ 4 = 0"
    unfolding qbit_masks(3) using and_field_eq [of 9 4 0 version] by simp
  have flag: "version AND 0x100 = 0 \<longleftrightarrow> unat version div 2 ^ 8 mod 2 ^ 1 = 0"
    unfolding qbit_masks(4) using and_field_eq [of 8 1 0 version] by simp
  have chain: "drop_bit 13 version AND 0xFFFF = 47 \<longleftrightarrow> unat version div 2 ^ 13 mod 2 ^ 16 = 47"
    using word_field [of 13 version 16] by (simp add: qbit_masks(5) word_unat_eq_iff)
  have range: "4 \<le> version \<and> version < 0x80000000" if "unat version div 2 ^ 8 = 0x2005E1"
  proof -
    have "0x2005E100 \<le> unat version" "unat version < 0x2005E200" using that by simp_all
    then show ?thesis by (simp add: word_le_nat_alt word_less_nat_alt)
  qed
  have "qbit_version_gate version height = Inr True \<longleftrightarrow>
      4 \<le> version \<and> version < 0x80000000 \<and>
      unat version div 2 ^ 29 mod 2 ^ 3 = 1 \<and> unat version div 2 ^ 9 mod 2 ^ 4 = 0 \<and>
      unat version div 2 ^ 8 mod 2 ^ 1 = 1 \<and> unat version div 2 ^ 13 mod 2 ^ 16 = 47"
    unfolding qbit_version_gate_def Let_def ensure_eq_Inr shaped reserved flag chain qbit_auxpow_chain_id_def
    using assms by auto
  also have "\<dots> \<longleftrightarrow> unat version div 2 ^ 8 = 0x2005E1"
    by (metis version_fields [OF v] range)
  finally show ?thesis by simp
qed

theorem qbit_gate_merged_versions_witness:
  "qbit_version_gate 0x2005E104 7 = Inr True \<longleftrightarrow> unat (0x2005E104 :: u32) div 256 = 0x2005E1"
  by (rule qbit_gate_merged_versions) simp
section \<open>Authenticated blocks\<close>




lemma proof_error_Inr [result_simps]: "proof_error m = Inr x \<longleftrightarrow> m = Inr x"
  by (cases m) (simp_all add: proof_error_def)










section \<open>Well-formed blocks are accepted\<close>




section \<open>A concrete block\<close>

definition demo_qbit_header :: header where
  "demo_qbit_header = demo_child_header\<lparr>h_version := 0x2005E104\<rparr>"









lemma demo_qbit_header:
  "length (demo_header_bytes demo_qbit_header) = header_size"
  "parse_header demo_lib (demo_header_bytes demo_qbit_header) = Inr \<lparr>ph_header = demo_qbit_header\<rparr>"
  "qbit_version_gate (i32_as_u32 (h_version demo_qbit_header)) 5 = Inr True"
  "qbit_child_target demo_lib (h_bits demo_qbit_header) = Inr 65535"
  "target_is_met_by demo_lib 65535 (ph_hash demo_lib \<lparr>ph_header = demo_parent_header\<rparr>)"
  by code_simp+





section \<open>Which errors are proof errors\<close>

lemma not_proof_error:
  "parse_header L b \<noteq> Inl (QbitProofError e)" "qbit_version_gate v height \<noteq> Inl (QbitProofError e)"
  "qbit_child_target L bits \<noteq> Inl (QbitProofError e)" "skip_bytes n r \<noteq> Inl (QbitProofError e)"
  by (auto simp: parse_header_def qbit_version_gate_def qbit_child_target_def skip_bytes_def read_slice_def
      Let_def ensure_def ok_or_def rbind_def split: option.splits sum.splits if_splits)

text \<open>A Qbit block is reported with a proof error only after its version passed the gate as
  merge-mined and its compact target was accepted: a block that fails its own checks is never
  taken for a bad proof.\<close>

theorem qbit_proof_errors_only_in_proofs:
  assumes "parse_qbit_extended_header L raw height = Inl (QbitProofError e)"
  shows "\<exists>h target. parse_header L (take header_size raw) = Inr h \<and>
    qbit_version_gate (i32_as_u32 (h_version (ph_header h))) height = Inr True \<and>
    qbit_child_target L (ph_bits h) = Inr target"
proof -
  have len: "header_size \<le> length raw"
    using assms by (auto simp: parse_qbit_extended_header_def ensure_def split: if_splits)
  then obtain h merged target where "parse_header L (take header_size raw) = Inr h"
      "qbit_version_gate (i32_as_u32 (h_version (ph_header h))) height = Inr merged"
      "qbit_child_target L (ph_bits h) = Inr target"
    using assms
    by (auto simp: parse_qbit_extended_header_def Let_def ensure_def rbind_eq_Inl not_proof_error slice_def)
  with assms len show ?thesis
    by (cases merged)
      (auto simp: parse_qbit_extended_header_def Let_def ensure_def rbind_eq_Inl not_proof_error slice_def
        split: if_splits)
qed

theorem qbit_proof_errors_only_in_proofs_witness:
  "\<exists>h target. parse_header demo_lib (demo_header_bytes demo_qbit_header) = Inr h \<and>
    qbit_version_gate (i32_as_u32 (h_version (ph_header h))) 5 = Inr True \<and>
    qbit_child_target demo_lib (ph_bits h) = Inr target"
proof -
  have "parse_qbit_extended_header demo_lib (demo_header_bytes demo_qbit_header) 5 =
      Inl (QbitProofError (ReaderErr ParseTransaction))"
    by code_simp
  from qbit_proof_errors_only_in_proofs [OF this] show ?thesis
    using demo_qbit_header(1) by simp
qed

end
