(* ===== verification/Nbits_Table.thy ===== *)
theory Nbits_Table
  imports Prelude
begin

text \<open>
  \<open>crates/mmm-capture/src/nbits_table.rs\<close>: the difficulty history read from the cached Bitcoin
  Core headers.  The constructor rejects caches with gaps; the lemmas show that a table it builds
  answers every height up to its coverage with the bits of that height's epoch header, that its
  arithmetic does not overflow, and what the lookups by time return.
\<close>

section \<open>The table\<close>

definition daa_epoch_interval :: int where "daa_epoch_interval = 2016"

record bitcoin_epoch_header =
  eh_height :: int
  eh_block_time :: int
  eh_bits :: u32

record nbits_table =
  nt_covered_max_height :: int
  nt_horizon_height :: int
  nt_horizon_time :: int
  nt_by_epoch :: "int \<rightharpoonup> u32"
  nt_epochs_by_time :: "(int \<times> int) list"

datatype nbits_lookup = Found u32 | BelowTable | AboveTable

datatype weak_verdict = Match | NonBtcEpochBits | BelowFloor | AboveHorizon

datatype nbits_error =
    CacheEmpty
  | CacheUnordered
  | CacheNoEpoch
  | CacheNotAnchored
  | CacheGap int int
  | HorizonPrecedesEpoch
  | HorizonExceedsEpoch

definition daa_epoch_start :: "int \<Rightarrow> int" where
  "daa_epoch_start height = wrap_i32 (height div daa_epoch_interval * daa_epoch_interval)"

text \<open>The loop over \<open>epoch_rows.windows(2)\<close>.\<close>

fun check_epoch_gaps :: "bitcoin_epoch_header list \<Rightarrow> (nbits_error, unit) result" where
  "check_epoch_gaps (a # b # rest) =
     ensure (eh_height b = wrap_i32 (eh_height a + daa_epoch_interval)) (CacheGap (eh_height a) (eh_height b))
       (check_epoch_gaps (b # rest))"
| "check_epoch_gaps _ = Inr ()"

definition epoch_rows :: "bitcoin_epoch_header list \<Rightarrow> bitcoin_epoch_header list" where
  "epoch_rows headers = filter (\<lambda>h. eh_height h mod daa_epoch_interval = 0) headers"

definition from_bitcoin_core_headers_with_horizon_time ::
  "bitcoin_epoch_header list \<Rightarrow> int \<Rightarrow> (nbits_error, nbits_table) result" where
  "from_bitcoin_core_headers_with_horizon_time headers cached_horizon_time =
     rbind (if headers = [] then Inl CacheEmpty else Inr (last headers)) (\<lambda>horizon.
     ensure (list_all (\<lambda>pair. eh_height (pair ! 0) < eh_height (pair ! 1)) (windows 2 headers)) CacheUnordered
     (let rows = epoch_rows headers in
      rbind (if rows = [] then Inl CacheNoEpoch else Inr (hd rows)) (\<lambda>first.
      ensure (eh_height first = 0) CacheNotAnchored
      (rbind (check_epoch_gaps rows) (\<lambda>_.
       let last_epoch = last rows in
       ensure (eh_height last_epoch \<le> eh_height horizon) HorizonPrecedesEpoch
       (ensure (eh_height horizon < wrap_i32 (eh_height last_epoch + daa_epoch_interval)) HorizonExceedsEpoch
       (let by_epoch = map_of (rev (map (\<lambda>h. (eh_height h, eh_bits h)) rows));
            epochs_by_time = sort (map (\<lambda>h. (eh_block_time h, eh_height h)) rows);
            observed_horizon_time = Max (set (map eh_block_time headers)) in
        Inr \<lparr>nt_covered_max_height = eh_height last_epoch, nt_horizon_height = eh_height horizon,
             nt_horizon_time = max cached_horizon_time observed_horizon_time,
             nt_by_epoch = by_epoch, nt_epochs_by_time = epochs_by_time\<rparr>)))))))"

definition from_bitcoin_core_headers ::
  "bitcoin_epoch_header list \<Rightarrow> (nbits_error, nbits_table) result" where
  "from_bitcoin_core_headers headers = from_bitcoin_core_headers_with_horizon_time headers 0"

definition height_coverage_max :: "nbits_table \<Rightarrow> int" where
  "height_coverage_max t = wrap_i32 (wrap_i32 (nt_covered_max_height t + daa_epoch_interval) - 1)"

definition expected_nbits :: "nbits_table \<Rightarrow> int \<Rightarrow> nbits_lookup" where
  "expected_nbits t height =
     (if height < 0 then BelowTable
      else if height_coverage_max t < height then AboveTable
      else case nt_by_epoch t (daa_epoch_start height) of Some bits \<Rightarrow> Found bits | None \<Rightarrow> AboveTable)"

text \<open>\<open>partition_point\<close> of a sorted list: the number of leading elements that satisfy the predicate.\<close>

definition partition_point :: "('a \<Rightarrow> bool) \<Rightarrow> 'a list \<Rightarrow> nat" where
  "partition_point p xs = length (takeWhile p xs)"

definition epoch_height_for_time :: "nbits_table \<Rightarrow> int \<Rightarrow> int option" where
  "epoch_height_for_time t time =
     (if nt_horizon_time t < time then None
      else case get_at (nt_epochs_by_time t) 0 of
          None \<Rightarrow> None
        | Some (first_start, _) \<Rightarrow>
            if time < first_start then None
            else let index = partition_point (\<lambda>(start, _). start \<le> time) (nt_epochs_by_time t)
                 in map_option snd (get_at (nt_epochs_by_time t) (index - 1)))"

definition classify_nbits_by_time :: "nbits_table \<Rightarrow> int \<Rightarrow> u32 \<Rightarrow> weak_verdict" where
  "classify_nbits_by_time t header_time actual_bits =
     (if nt_horizon_time t < header_time then AboveHorizon
      else case epoch_height_for_time t header_time of
          None \<Rightarrow> BelowFloor
        | Some epoch \<Rightarrow>
            (let matches = list_ex (\<lambda>expected. actual_bits = expected)
                   (List.map_filter (nt_by_epoch t)
                     (List.map_filter id
                       [checked_i32 (epoch - daa_epoch_interval), Some epoch,
                        checked_i32 (epoch + daa_epoch_interval)]))
             in if matches then Match else NonBtcEpochBits))"

section \<open>What the constructor establishes\<close>

lemma windows_strict:
  "list_all (\<lambda>p. f (p ! 0) < f (p ! 1)) (windows 2 xs) \<longleftrightarrow> sorted_wrt (<) (map f xs)"
  for f :: "'a \<Rightarrow> int"
proof (induction xs)
  case (Cons x xs)
  show ?case
  proof (cases xs)
    case (Cons y ys)
    then show ?thesis using Cons.IH by (fastforce simp: sorted_wrt2)
  qed simp
qed simp

lemma wrap_i32_above:
  assumes "2 ^ 31 \<le> x" and "x < 2 ^ 32"
  shows "wrap_i32 x = x - 2 ^ 32"
proof -
  have "(x + 2 ^ 31) mod 2 ^ 32 = (x + 2 ^ 31 - 2 ^ 32) mod 2 ^ 32"
    by (rule minus_mod_self2 [symmetric])
  also have "\<dots> = x + 2 ^ 31 - 2 ^ 32" using assms by (intro mod_pos_pos_trivial) simp_all
  finally show ?thesis by (simp add: wrap_i32_def)
qed

text \<open>A step up that stays non-negative did not wrap.\<close>

lemma wrap_i32_step:
  assumes "0 \<le> x" "i32_ok x" "0 \<le> d" "d < 2 ^ 31" "x \<le> wrap_i32 (x + d)"
  shows "wrap_i32 (x + d) = x + d" and "x + d < 2 ^ 31"
proof -
  have "x + d < 2 ^ 31"
  proof (rule ccontr)
    assume "\<not> ?thesis"
    then have "wrap_i32 (x + d) = x + d - 2 ^ 32"
      using assms by (intro wrap_i32_above) (simp_all add: i32_ok_def)
    then show False using assms by (simp add: i32_ok_def)
  qed
  moreover from this have "i32_ok (x + d)" using assms by (simp add: i32_ok_def)
  ultimately show "x + d < 2 ^ 31" "wrap_i32 (x + d) = x + d" by simp_all
qed

lemma epoch_heights:
  assumes "check_epoch_gaps (a # rest) = Inr ()" and "sorted_wrt (<) (map eh_height (a # rest))"
    and "list_all (\<lambda>h. i32_ok (eh_height h)) (a # rest)" and "0 \<le> eh_height a"
    and "i < length (a # rest)"
  shows "eh_height ((a # rest) ! i) = eh_height a + 2016 * int i"
  using assms
proof (induction rest arbitrary: a i)
  case (Cons b rest)
  have step: "eh_height b = wrap_i32 (eh_height a + 2016)" and gaps: "check_epoch_gaps (b # rest) = Inr ()"
    using Cons.prems(1) by (simp_all add: ensure_eq_Inr daa_epoch_interval_def)
  have "eh_height b = eh_height a + 2016"
    using wrap_i32_step(1) [of "eh_height a" 2016] Cons.prems step by simp
  then show ?case
    using Cons.IH [OF gaps, of "i - 1"] Cons.prems by (cases i) auto
qed simp

text \<open>
  What holds of every table the constructor returns: the epochs from genesis to the covered
  height are all present, the horizon lies in the last of them, and no height overflows.
\<close>

definition table_ok :: "nbits_table \<Rightarrow> bool" where
  "table_ok t \<longleftrightarrow>
     0 \<le> nt_covered_max_height t \<and> nt_covered_max_height t mod 2016 = 0 \<and>
     nt_covered_max_height t + 2016 < 2 ^ 31 \<and>
     nt_covered_max_height t \<le> nt_horizon_height t \<and>
     nt_horizon_height t < nt_covered_max_height t + 2016 \<and>
     dom (nt_by_epoch t) = {h. 0 \<le> h \<and> h \<le> nt_covered_max_height t \<and> h mod 2016 = 0} \<and>
     nt_epochs_by_time t \<noteq> [] \<and> sorted (nt_epochs_by_time t) \<and>
     snd ` set (nt_epochs_by_time t) = dom (nt_by_epoch t) \<and>
     (\<forall>(start, _) \<in> set (nt_epochs_by_time t). start \<le> nt_horizon_time t)"

lemma from_headers_facts:
  assumes "from_bitcoin_core_headers_with_horizon_time headers ct = Inr t"
  shows "headers \<noteq> []" and "sorted_wrt (<) (map eh_height headers)"
    and "epoch_rows headers \<noteq> []" and "eh_height (hd (epoch_rows headers)) = 0"
    and "check_epoch_gaps (epoch_rows headers) = Inr ()"
    and "nt_covered_max_height t = eh_height (last (epoch_rows headers))"
    and "nt_horizon_height t = eh_height (last headers)"
    and "nt_covered_max_height t \<le> nt_horizon_height t"
    and "nt_horizon_height t < wrap_i32 (nt_covered_max_height t + 2016)"
    and "nt_horizon_time t = max ct (Max (set (map eh_block_time headers)))"
    and "nt_by_epoch t = map_of (rev (map (\<lambda>h. (eh_height h, eh_bits h)) (epoch_rows headers)))"
    and "nt_epochs_by_time t = sort (map (\<lambda>h. (eh_block_time h, eh_height h)) (epoch_rows headers))"
  using assms
  by (auto simp: from_bitcoin_core_headers_with_horizon_time_def Let_def result_simps
      windows_strict [unfolded One_nat_def]      daa_epoch_interval_def split: if_splits)

lemma sorted_wrt_filter_map: "sorted_wrt (<) (map f xs) \<Longrightarrow> sorted_wrt (<) (map f (filter p xs))"
  for f :: "'a \<Rightarrow> int"
  by (induction xs) auto

lemma from_headers_rows:
  assumes ok: "from_bitcoin_core_headers_with_horizon_time headers ct = Inr t"
    and w: "list_all (\<lambda>h. i32_ok (eh_height h)) headers"
  shows "i < length (epoch_rows headers) \<Longrightarrow> eh_height (epoch_rows headers ! i) = 2016 * int i"
    and "nt_covered_max_height t = 2016 * (int (length (epoch_rows headers)) - 1)"
    and "nt_covered_max_height t + 2016 < 2 ^ 31"
    and "wrap_i32 (nt_covered_max_height t + 2016) = nt_covered_max_height t + 2016"
proof -
  note F = from_headers_facts [OF ok]
  have srt: "sorted_wrt (<) (map eh_height (epoch_rows headers))"
    unfolding epoch_rows_def by (rule sorted_wrt_filter_map [OF F(2)])
  have wr: "list_all (\<lambda>h. i32_ok (eh_height h)) (epoch_rows headers)"
    using w by (auto simp: epoch_rows_def list_all_iff)
  obtain a rest where ar: "epoch_rows headers = a # rest" using F(3) by (cases "epoch_rows headers") auto
  have a0: "eh_height a = 0" using F(4) ar by simp
  have nth: "eh_height (epoch_rows headers ! i) = 2016 * int i" if "i < length (epoch_rows headers)" for i
    using epoch_heights [of a rest i] F(5) srt wr that ar a0 by simp
  then show "i < length (epoch_rows headers) \<Longrightarrow> eh_height (epoch_rows headers ! i) = 2016 * int i" by blast
  show cov: "nt_covered_max_height t = 2016 * (int (length (epoch_rows headers)) - 1)"
    using nth [of "length (epoch_rows headers) - 1"] F(3,6) by (simp add: last_conv_nth of_nat_diff Suc_le_eq)
  have "i32_ok (nt_covered_max_height t)" using wr F(3,6) by (simp add: list_all_iff)
  moreover have "0 \<le> nt_covered_max_height t" using cov F(3) by (cases "epoch_rows headers") simp_all
  moreover have "nt_covered_max_height t \<le> wrap_i32 (nt_covered_max_height t + 2016)"
    using F(8,9) by simp
  ultimately show "nt_covered_max_height t + 2016 < 2 ^ 31"
      "wrap_i32 (nt_covered_max_height t + 2016) = nt_covered_max_height t + 2016"
    using wrap_i32_step [of "nt_covered_max_height t" 2016] by simp_all
qed

lemma map_of_rev_distinct: "distinct (map fst xs) \<Longrightarrow> map_of (rev xs) = map_of xs"
proof (rule ext)
  fix k
  assume d: "distinct (map fst xs)"
  then have d': "distinct (map fst (rev xs))" by (simp add: rev_map [symmetric])
  show "map_of (rev xs) k = map_of xs k"
  proof (cases "map_of xs k")
    case None
    then have "map_of (rev xs) k = None" by (simp add: map_of_eq_None_iff)
    with None show ?thesis by simp
  next
    case (Some v)
    then have "(k, v) \<in> set (rev xs)" by (simp add: map_of_SomeD)
    with Some map_of_is_SomeI [OF d'] show ?thesis by simp
  qed
qed

lemma from_headers_by_epoch:
  assumes ok: "from_bitcoin_core_headers_with_horizon_time headers ct = Inr t"
    and w: "list_all (\<lambda>h. i32_ok (eh_height h)) headers"
  shows "nt_by_epoch t h = Some b \<longleftrightarrow>
      (\<exists>e \<in> set headers. eh_height e = h \<and> eh_bits e = b \<and> h mod 2016 = 0)"
    and "dom (nt_by_epoch t) = {h. 0 \<le> h \<and> h \<le> nt_covered_max_height t \<and> h mod 2016 = 0}"
proof -
  note F = from_headers_facts [OF ok]
  let ?rows = "epoch_rows headers"
  have "sorted_wrt (<) (map eh_height ?rows)"
    unfolding epoch_rows_def by (rule sorted_wrt_filter_map [OF F(2)])
  then have dist: "distinct (map fst (map (\<lambda>h. (eh_height h, eh_bits h)) ?rows))"
    by (simp add: strict_sorted_iff comp_def)
  have eq: "nt_by_epoch t = map_of (map (\<lambda>h. (eh_height h, eh_bits h)) ?rows)"
    unfolding F(11) by (rule map_of_rev_distinct [OF dist])
  show "nt_by_epoch t h = Some b \<longleftrightarrow>
      (\<exists>e \<in> set headers. eh_height e = h \<and> eh_bits e = b \<and> h mod 2016 = 0)"
    unfolding eq map_of_eq_Some_iff [OF dist] by (auto simp: epoch_rows_def daa_epoch_interval_def)
  have "dom (nt_by_epoch t) = set (map eh_height ?rows)"
    unfolding eq by (simp add: dom_map_of_conv_image_fst image_comp comp_def)
  also have "\<dots> = (\<lambda>i. 2016 * int i) ` {..<length ?rows}"
  proof -
    have "set ?rows = (!) ?rows ` {..<length ?rows}" by (auto simp: set_conv_nth)
    then show ?thesis using from_headers_rows(1) [OF ok w] by (simp add: image_image)
  qed
  also have "\<dots> = {h. 0 \<le> h \<and> h \<le> nt_covered_max_height t \<and> h mod 2016 = 0}"
  proof (intro equalityI subsetI)
    fix h assume "h \<in> {h. 0 \<le> h \<and> h \<le> nt_covered_max_height t \<and> h mod 2016 = 0}"
    then have h: "0 \<le> h" "h \<le> 2016 * (int (length ?rows) - 1)" "h mod 2016 = 0"
      using from_headers_rows(2) [OF ok w] by simp_all
    then obtain k where k: "h = 2016 * k" by (auto elim: dvdE simp: mod_eq_0_iff_dvd)
    with h have "h = 2016 * int (nat k)" "nat k < length ?rows" by simp_all
    then show "h \<in> (\<lambda>i. 2016 * int i) ` {..<length ?rows}" by blast
  next
    fix h assume "h \<in> (\<lambda>i. 2016 * int i) ` {..<length ?rows}"
    then show "h \<in> {h. 0 \<le> h \<and> h \<le> nt_covered_max_height t \<and> h mod 2016 = 0}"
      using from_headers_rows(2) [OF ok w] by auto
  qed
  finally show "dom (nt_by_epoch t) = {h. 0 \<le> h \<and> h \<le> nt_covered_max_height t \<and> h mod 2016 = 0}" .
qed

lemma from_headers_table_ok:
  assumes ok: "from_bitcoin_core_headers_with_horizon_time headers ct = Inr t"
    and w: "list_all (\<lambda>h. i32_ok (eh_height h)) headers"
  shows "table_ok t"
proof -
  note F = from_headers_facts [OF ok] and R = from_headers_rows [OF ok w]
    and B = from_headers_by_epoch [OF ok w]
  have rows: "set (epoch_rows headers) \<subseteq> set headers" by (auto simp: epoch_rows_def)
  have times: "set (nt_epochs_by_time t) = (\<lambda>h. (eh_block_time h, eh_height h)) ` set (epoch_rows headers)"
    by (simp add: F(12))
  have "snd ` set (nt_epochs_by_time t) = dom (nt_by_epoch t)"
    unfolding times F(11) by (simp add: dom_map_of_conv_image_fst image_comp comp_def)
  moreover have "eh_block_time h \<le> nt_horizon_time t" if "h \<in> set headers" for h
  proof -
    have "eh_block_time h \<le> Max (set (map eh_block_time headers))" using that by simp
    then show ?thesis by (simp add: F(10))
  qed
  then have "\<forall>(start, _) \<in> set (nt_epochs_by_time t). start \<le> nt_horizon_time t"
    unfolding times using rows by auto
  moreover have "0 \<le> nt_covered_max_height t" "nt_covered_max_height t mod 2016 = 0"
    using R(2) F(3) by (cases "epoch_rows headers"; simp)+
  moreover have "nt_epochs_by_time t \<noteq> []" using F(3,12) by (metis length_0_conv length_map length_sort)
  ultimately show ?thesis
    unfolding table_ok_def using R(3,4) F(8,9,12) B(2) by simp
qed

text \<open>The lookups of a table that satisfies the invariant.\<close>

lemma table_ok_coverage: "table_ok t \<Longrightarrow> height_coverage_max t = nt_covered_max_height t + 2015"
  by (simp add: table_ok_def height_coverage_max_def daa_epoch_interval_def i32_ok_def)

lemma daa_epoch_start_exact: "0 \<le> h \<Longrightarrow> h < 2 ^ 31 \<Longrightarrow> daa_epoch_start h = h - h mod 2016"
proof -
  assume "0 \<le> h" "h < 2 ^ 31"
  moreover have "h div 2016 * 2016 = h - h mod 2016" by (simp add: minus_mod_eq_div_mult)
  moreover have "0 \<le> h div 2016 * 2016" "h div 2016 * 2016 \<le> h"
    using \<open>0 \<le> h\<close> by (simp_all add: pos_imp_zdiv_nonneg_iff) 
  ultimately show ?thesis by (simp add: daa_epoch_start_def daa_epoch_interval_def i32_ok_def)
qed

lemma expected_nbits_Found:
  assumes "table_ok t"
  shows "expected_nbits t h = Found b \<longleftrightarrow>
    0 \<le> h \<and> h \<le> nt_covered_max_height t + 2015 \<and> nt_by_epoch t (h - h mod 2016) = Some b"
  using assms daa_epoch_start_exact [of h]
  by (auto simp: expected_nbits_def table_ok_coverage table_ok_def split: option.splits)

lemma expected_nbits_total:
  assumes ok: "table_ok t"
  shows "expected_nbits t h = BelowTable \<longleftrightarrow> h < 0"
    and "expected_nbits t h = AboveTable \<longleftrightarrow> nt_covered_max_height t + 2015 < h"
proof -
  show "expected_nbits t h = BelowTable \<longleftrightarrow> h < 0"
    by (simp add: expected_nbits_def split: option.splits)
  have "\<exists>b. nt_by_epoch t (h - h mod 2016) = Some b"
    if h: "0 \<le> h" "h \<le> nt_covered_max_height t + 2015"
  proof -
    obtain k where k: "nt_covered_max_height t = 2016 * k"
      using ok by (auto simp: table_ok_def elim: dvdE)
    have "h - h mod 2016 = 2016 * (h div 2016)" by (simp add: minus_mod_eq_mult_div)
    moreover have "h div 2016 \<le> k" using h(2) k using zdiv_mono1 [OF h(2), of 2016] by simp
    ultimately have "h - h mod 2016 \<in> dom (nt_by_epoch t)" using ok h k by (auto simp: table_ok_def)
    then show ?thesis by blast
  qed
  then show "expected_nbits t h = AboveTable \<longleftrightarrow> nt_covered_max_height t + 2015 < h"
    using ok daa_epoch_start_exact [of h]
    by (cases "0 \<le> h"; cases "h \<le> nt_covered_max_height t + 2015") (auto simp: expected_nbits_def table_ok_coverage table_ok_def split: option.splits)
qed

section \<open>Lookups by time\<close>

lemma takeWhile_sorted_prefix:
  assumes "sorted xs" and down: "\<And>x y. x \<le> y \<Longrightarrow> p y \<Longrightarrow> p x"
  shows "takeWhile p xs = filter p (xs :: 'a :: linorder list)"
proof (rule takeWhile_eq_filter)
  fix x assume x: "x \<in> set (dropWhile p xs)"
  then obtain y ys where ys: "dropWhile p xs = y # ys" by (cases "dropWhile p xs") auto
  have "\<not> p y" using ys by (metis hd_dropWhile list.sel(1) list.discI)
  moreover have "sorted (y # ys)" using assms(1) ys by (metis sorted_dropWhile)
  then have "y \<le> x" using x ys by auto
  ultimately show "\<not> p x" using down by blast
qed

lemma epoch_height_for_time_Some:
  assumes ok: "table_ok t"
  shows "epoch_height_for_time t time = Some e \<longleftrightarrow>
    time \<le> nt_horizon_time t \<and>
    (\<exists>s. (s, e) \<in> set (nt_epochs_by_time t) \<and> s \<le> time \<and>
      (\<forall>(s', e') \<in> set (nt_epochs_by_time t). s' \<le> time \<longrightarrow> (s', e') \<le> (s, e)))"
proof -
  let ?xs = "nt_epochs_by_time t" and ?p = "\<lambda>(start :: int, _ :: int). start \<le> time"
  have srt: "sorted ?xs" and ne: "?xs \<noteq> []" using ok by (simp_all add: table_ok_def)
  have tw: "takeWhile ?p ?xs = filter ?p ?xs"
    using srt by (rule takeWhile_sorted_prefix) (auto simp: less_eq_prod_def)
  obtain s0 e0 rest where xs: "?xs = (s0, e0) # rest" using ne by (cases ?xs) auto
  show ?thesis
  proof (cases "s0 \<le> time")
    case False
    have "\<not> s \<le> time" if "(s, e) \<in> set ?xs" for s e
      using srt that False unfolding xs by (auto simp: less_eq_prod_def)
    then show ?thesis using False by (auto simp: epoch_height_for_time_def xs get_at_def)
  next
    case True
    let ?f = "filter ?p ?xs"
    have fne: "?f \<noteq> []" using True xs by simp
    have fsrt: "sorted ?f" using srt by (rule sorted_wrt_filter)
    have idx: "?xs ! (length ?f - 1) = last ?f" "length ?f - 1 < length ?xs"
    proof -
      have "take (length ?f) ?xs = ?f" using tw by (metis takeWhile_eq_take)
      moreover have le: "length ?f \<le> length ?xs" by simp
      ultimately show "?xs ! (length ?f - 1) = last ?f"
        using fne by (metis last_conv_nth diff_less length_greater_0_conv nth_take zero_less_one)
      show "length ?f - 1 < length ?xs" using fne le by (metis diff_less le_trans length_greater_0_conv
            less_le_trans not_less zero_less_one)
    qed
    have look: "epoch_height_for_time t time =
        (if nt_horizon_time t < time then None else Some (snd (last ?f)))"
    proof -
      have "get_at ?xs 0 = Some (s0, e0)" by (simp add: get_at_def xs)
      moreover have "get_at ?xs (partition_point ?p ?xs - 1) = Some (last ?f)"
        unfolding partition_point_def tw get_at_def using idx by presburger
      ultimately show ?thesis using True by (simp add: epoch_height_for_time_def Let_def)
    qed
    have max: "x \<le> last ?f" if "x \<in> set ?f" for x
      using fsrt that by (cases ?f rule: rev_cases) (auto simp: sorted_append) 
    obtain s1 e1 where l: "last ?f = (s1, e1)" by fastforce
    have "(s1, e1) \<in> set ?f" using last_in_set [OF fne] l by simp
    then have in1: "(s1, e1) \<in> set ?xs" "s1 \<le> time" by auto
    have le1: "(s', e') \<le> (s1, e1)" if "(s', e') \<in> set ?xs" "s' \<le> time" for s' e'
      using max [of "(s', e')"] that l by simp
    have "e1 = e \<longleftrightarrow> (\<exists>s. (s, e) \<in> set ?xs \<and> s \<le> time \<and>
        (\<forall>(s', e') \<in> set ?xs. s' \<le> time \<longrightarrow> (s', e') \<le> (s, e)))"
    proof
      assume "e1 = e"
      with in1 le1 show "\<exists>s. (s, e) \<in> set ?xs \<and> s \<le> time \<and>
          (\<forall>(s', e') \<in> set ?xs. s' \<le> time \<longrightarrow> (s', e') \<le> (s, e))"
        by (intro exI [of _ s1]) auto
    next
      assume "\<exists>s. (s, e) \<in> set ?xs \<and> s \<le> time \<and>
          (\<forall>(s', e') \<in> set ?xs. s' \<le> time \<longrightarrow> (s', e') \<le> (s, e))"
      then obtain s where "(s, e) \<le> (s1, e1)" "(s1, e1) \<le> (s, e)" using in1 le1 by fastforce
      then have "(s, e) = (s1, e1)" by (rule order_antisym)
      then show "e1 = e" by simp
    qed
    then show ?thesis unfolding look l by (simp add: not_less)
  qed
qed

lemma epoch_height_for_time_dom:
  assumes ok: "table_ok t" and e: "epoch_height_for_time t time = Some e"
  shows "e \<in> dom (nt_by_epoch t)"
proof -
  obtain s where "(s, e) \<in> set (nt_epochs_by_time t)"
    using e unfolding epoch_height_for_time_Some [OF ok] by blast
  then have "e \<in> snd ` set (nt_epochs_by_time t)" by force
  then show ?thesis using ok by (simp only: table_ok_def)
qed

lemma classify_nbits_by_time_Match:
  assumes "table_ok t"
  shows "classify_nbits_by_time t time bits = Match \<longleftrightarrow>
    time \<le> nt_horizon_time t \<and> (\<exists>e. epoch_height_for_time t time = Some e \<and>
      (nt_by_epoch t (e - 2016) = Some bits \<or> nt_by_epoch t e = Some bits \<or> nt_by_epoch t (e + 2016) = Some bits))"
proof -
  have neighbours: "list_ex (\<lambda>x. bits = x) (List.map_filter (nt_by_epoch t)
      (List.map_filter id [checked_i32 (e - 2016), Some e, checked_i32 (e + 2016)])) \<longleftrightarrow>
      nt_by_epoch t (e - 2016) = Some bits \<or> nt_by_epoch t e = Some bits \<or> nt_by_epoch t (e + 2016) = Some bits"
    if e: "epoch_height_for_time t time = Some e" for e
  proof -
    have "i32_ok (e - 2016)" "i32_ok (e + 2016)"
      using epoch_height_for_time_dom [OF assms e] assms by (auto simp: table_ok_def i32_ok_def)
    then show ?thesis
      by (cases "nt_by_epoch t (e - 2016)"; cases "nt_by_epoch t e"; cases "nt_by_epoch t (e + 2016)")
        (auto simp: checked_i32_def List.map_filter_simps)
  qed
  show ?thesis
  proof (cases "epoch_height_for_time t time")
    case None
    then show ?thesis by (simp add: classify_nbits_by_time_def)
  next
    case (Some e)
    then show ?thesis using neighbours [OF Some]
      by (simp add: classify_nbits_by_time_def Let_def daa_epoch_interval_def)
  qed
qed

definition demo_headers :: "bitcoin_epoch_header list" where
  "demo_headers =
     [\<lparr>eh_height = 0, eh_block_time = 100, eh_bits = 7\<rparr>, \<lparr>eh_height = 2016, eh_block_time = 300, eh_bits = 8\<rparr>,
      \<lparr>eh_height = 4032, eh_block_time = 250, eh_bits = 9\<rparr>, \<lparr>eh_height = 4040, eh_block_time = 400, eh_bits = 9\<rparr>]"

definition demo_table :: nbits_table where
  "demo_table =
     \<lparr>nt_covered_max_height = 4032, nt_horizon_height = 4040, nt_horizon_time = 400,
      nt_by_epoch = map_of (rev [(0, 7), (2016, 8), (4032, 9)]),
      nt_epochs_by_time = [(100, 0), (250, 4032), (300, 2016)]\<rparr>"

lemma demo_headers_table:
  "from_bitcoin_core_headers_with_horizon_time demo_headers 0 = Inr demo_table"
  "list_all (\<lambda>h. i32_ok (eh_height h)) demo_headers"
  by (simp_all add: from_bitcoin_core_headers_with_horizon_time_def demo_headers_def demo_table_def
      epoch_rows_def daa_epoch_interval_def ensure_def i32_ok_def less_eq_prod_def)

text \<open>C34: A table built from a header cache answers every height: below zero it is below the table,
  beyond the last cached epoch above it, and otherwise it returns the bits of the cached header
  at the start of that height's epoch.\<close>

theorem nbits_lookup_complete:
  assumes "from_bitcoin_core_headers_with_horizon_time headers cached = Inr t"
    and "list_all (\<lambda>h. i32_ok (eh_height h)) headers"
  shows "if height < 0 then expected_nbits t height = BelowTable
    else if nt_covered_max_height t + 2015 < height then expected_nbits t height = AboveTable
    else \<exists>e \<in> set headers. eh_height e = height - height mod 2016 \<and>
      expected_nbits t height = Found (eh_bits e)"
proof -
  note ok = from_headers_table_ok [OF assms]
  show ?thesis
  proof (cases "expected_nbits t height")
    case (Found b)
    then have "nt_by_epoch t (height - height mod 2016) = Some b"
      using expected_nbits_Found [OF ok] by blast
    then obtain e where "e \<in> set headers" "eh_height e = height - height mod 2016" "eh_bits e = b"
      unfolding from_headers_by_epoch(1) [OF assms] by blast
    with Found have "\<exists>e \<in> set headers. eh_height e = height - height mod 2016 \<and>
        expected_nbits t height = Found (eh_bits e)" by blast
    with Found expected_nbits_total [OF ok, of height] show ?thesis by simp
  qed (use expected_nbits_total [OF ok, of height] in auto)
qed

theorem nbits_lookup_complete_witness:
  "\<exists>e \<in> set demo_headers. eh_height e = 3000 - 3000 mod 2016 \<and>
     expected_nbits demo_table 3000 = Found (eh_bits e)"
  using nbits_lookup_complete [OF demo_headers_table, of 3000]
  by (simp add: demo_table_def)

text \<open>The epoch selected for a time at or below the horizon is the latest cached epoch whose
  header time does not exceed it, ties resolved to the greater height; no epoch is selected
  above the horizon or before the earliest header time.\<close>

theorem epoch_for_time_is_latest:
  assumes "from_bitcoin_core_headers_with_horizon_time headers cached = Inr t"
    and "list_all (\<lambda>h. i32_ok (eh_height h)) headers"
  shows "epoch_height_for_time t time = Some e \<longleftrightarrow>
    time \<le> nt_horizon_time t \<and>
    (\<exists>h \<in> set (epoch_rows headers). eh_height h = e \<and> eh_block_time h \<le> time \<and>
      (\<forall>k \<in> set (epoch_rows headers). eh_block_time k \<le> time \<longrightarrow>
        eh_block_time k < eh_block_time h \<or> (eh_block_time k = eh_block_time h \<and> eh_height k \<le> e)))"
proof -
  have set: "set (nt_epochs_by_time t) = (\<lambda>h. (eh_block_time h, eh_height h)) ` set (epoch_rows headers)"
    using from_headers_facts(12) [OF assms(1)] by simp
  show ?thesis
    unfolding epoch_height_for_time_Some [OF from_headers_table_ok [OF assms]] set
    by (fastforce simp: less_eq_prod_def)
qed

theorem epoch_for_time_is_latest_witness:
  "epoch_height_for_time demo_table 260 = Some 4032 \<longleftrightarrow>
    260 \<le> nt_horizon_time demo_table \<and>
    (\<exists>h \<in> set (epoch_rows demo_headers). eh_height h = 4032 \<and> eh_block_time h \<le> 260 \<and>
      (\<forall>k \<in> set (epoch_rows demo_headers). eh_block_time k \<le> 260 \<longrightarrow>
        eh_block_time k < eh_block_time h \<or> (eh_block_time k = eh_block_time h \<and> eh_height k \<le> 4032)))"
  by (rule epoch_for_time_is_latest [OF demo_headers_table])


end
