(* ===== verification/Lineage.thy ===== *)
theory Lineage
  imports Nbits_Table AuxPow_Verify
begin

text \<open>
  \<open>crates/mmm-capture/src/lineage.rs\<close> and \<open>btc_orphan.rs\<close>: whether an AuxPoW parent header belongs
  to Bitcoin, from the place of its previous block, its coinbase height and the difficulty table.
\<close>

section \<open>The lineage rule\<close>

definition future_height_tolerance :: int where "future_height_tolerance = 144"

definition retarget_pending_window :: int where "retarget_pending_window = 6"

record parent_lineage_input =
  li_bits :: u32
  li_time :: int
  li_meets_own_target :: bool
  li_prev_height :: "int option"
  li_strict_height :: "int option"

datatype lineage_evidence = PlacedPrev | StrictHeight | EpochTime | CurrentEpoch

datatype lineage =
    Bitcoin lineage_evidence
  | NotBitcoin string
  | LineagePending string

definition is_exact :: "lineage_evidence \<Rightarrow> bool" where
  "is_exact e = (case e of PlacedPrev \<Rightarrow> True | StrictHeight \<Rightarrow> True | EpochTime \<Rightarrow> False | CurrentEpoch \<Rightarrow> False)"

definition previous_epoch_bits :: "nbits_table \<Rightarrow> int \<Rightarrow> u32 option" where
  "previous_epoch_bits t height =
     (case expected_nbits t (wrap_i32 (daa_epoch_start height - 1)) of
        Found bits \<Rightarrow> Some bits | BelowTable \<Rightarrow> None | AboveTable \<Rightarrow> None)"

definition above_horizon_lineage :: "u32 \<Rightarrow> bool \<Rightarrow> nbits_table \<Rightarrow> lineage" where
  "above_horizon_lineage bits is_share t =
     (let horizon = nt_horizon_height t;
          latest = expected_nbits t horizon in
      if latest = Found bits \<or> (is_share \<and> previous_epoch_bits t horizon = Some bits)
      then Bitcoin CurrentEpoch
      else let next_retarget = wrap_i32 (daa_epoch_start horizon + daa_epoch_interval) in
           if wrap_i32 (next_retarget - horizon) \<le> retarget_pending_window
           then LineagePending ''next_epoch_not_cached''
           else NotBitcoin ''non_btc_current_epoch_bits'')"

text \<open>The rule for a header whose previous block is placed at \<open>prev_height\<close>.\<close>

definition placed_prev_lineage :: "u32 \<Rightarrow> bool \<Rightarrow> int \<Rightarrow> nbits_table \<Rightarrow> lineage" where
  "placed_prev_lineage bits is_share prev_height t =
     (if is_share then Bitcoin PlacedPrev
      else case expected_nbits t (wrap_i32 (prev_height + 1)) of
          Found expected \<Rightarrow> if expected = bits then Bitcoin PlacedPrev else NotBitcoin ''placed_prev_nbits_mismatch''
        | AboveTable \<Rightarrow> LineagePending ''next_epoch_not_cached''
        | BelowTable \<Rightarrow> NotBitcoin ''prev_below_table'')"

text \<open>The rule for a coinbase height, and \<open>None\<close> where it falls through to the time rule.\<close>

definition strict_height_lineage :: "u32 \<Rightarrow> bool \<Rightarrow> int \<Rightarrow> int \<Rightarrow> nbits_table \<Rightarrow> lineage option" where
  "strict_height_lineage bits is_share time height t =
     (let above_horizon = nt_horizon_time t < time;
          consistent = above_horizon \<or>
            (case epoch_height_for_time t time of
               Some epoch \<Rightarrow> epoch \<le> height \<and> height < wrap_i32 (epoch + daa_epoch_interval)
             | None \<Rightarrow> False) in
      if \<not> consistent then None
      else case expected_nbits t height of
          Found expected \<Rightarrow>
            Some (if expected = bits \<or> (is_share \<and> previous_epoch_bits t height = Some bits)
                  then Bitcoin StrictHeight else NotBitcoin ''strict_height_nbits_mismatch'')
        | AboveTable \<Rightarrow>
            Some (if wrap_i32 (nt_horizon_height t + future_height_tolerance) < height
                  then NotBitcoin ''strict_height_far_future''
                  else LineagePending ''next_epoch_not_cached'')
        | BelowTable \<Rightarrow> None)"

definition time_lineage :: "u32 \<Rightarrow> bool \<Rightarrow> int \<Rightarrow> nbits_table \<Rightarrow> lineage" where
  "time_lineage bits is_share time t =
     (case classify_nbits_by_time t time bits of
        Match \<Rightarrow> Bitcoin EpochTime
      | NonBtcEpochBits \<Rightarrow> NotBitcoin ''non_btc_epoch_bits''
      | BelowFloor \<Rightarrow> NotBitcoin ''time_below_table''
      | AboveHorizon \<Rightarrow> above_horizon_lineage bits is_share t)"

definition bitcoin_lineage :: "parent_lineage_input \<Rightarrow> nbits_table \<Rightarrow> lineage" where
  "bitcoin_lineage input t =
     (let bits = li_bits input; is_share = \<not> li_meets_own_target input in
      case li_prev_height input of
        Some prev_height \<Rightarrow> placed_prev_lineage bits is_share prev_height t
      | None \<Rightarrow>
          (case Option.bind (li_strict_height input)
                  (\<lambda>height. strict_height_lineage bits is_share (li_time input) height t) of
             Some verdict \<Rightarrow> verdict
           | None \<Rightarrow> time_lineage bits is_share (li_time input) t))"

section \<open>Bitcoin orphans\<close>

definition bip34_activation_height :: int where "bip34_activation_height = 227931"

definition strict_bip34_chains :: "string list" where
  "strict_bip34_chains =
     [''argentum'', ''bitcoin-vault'', ''bitmark'', ''coiledcoin'', ''crown'', ''devcoin'', ''doichain'',
      ''elastos'', ''emercoin'', ''fractal'', ''geistgeld'', ''groupcoin'', ''hathor'', ''huntercoin'',
      ''i0coin'', ''ixcoin'', ''myriadcoin'', ''namecoin'', ''qbit'', ''syscoin'', ''terracoin'', ''unobtanium'']"

definition is_strict_bip34_chain :: "string \<Rightarrow> bool" where
  "is_strict_bip34_chain chain = List.member strict_bip34_chains chain"

text \<open>
  \<open>tx.input[0]\<close> is read only after \<open>is_coinbase\<close>, which holds of transactions with one input only.
\<close>

definition strict_bip34_height_from_evidence ::
  "bitcoin_lib \<Rightarrow> string \<Rightarrow> bytes \<Rightarrow> bytes option \<Rightarrow> int option" where
  "strict_bip34_height_from_evidence L chain script_sig tx_bytes =
     (if \<not> is_strict_bip34_chain chain then None
      else let height = (case parse_bip34_height script_sig of
                 Some h \<Rightarrow> if bip34_activation_height \<le> h then Some h else None | None \<Rightarrow> None) in
        if chain = ''hathor'' then
          Option.bind tx_bytes (\<lambda>raw.
          Option.bind (deserialize_tx L raw) (\<lambda>tx.
            if \<not> is_coinbase L tx \<or> i_script_sig (tx_input tx ! 0) \<noteq> script_sig then None else height))
        else height)"

datatype btc_orphan_verdict = OrphanStrict | OrphanWeak | OrphanExcluded | OrphanPending

definition orphan_as_db_str :: "btc_orphan_verdict \<Rightarrow> string option" where
  "orphan_as_db_str v =
     (case v of OrphanStrict \<Rightarrow> Some ''strict_btc_orphan'' | OrphanWeak \<Rightarrow> Some ''weak_btc_orphan''
      | OrphanExcluded \<Rightarrow> Some ''excluded'' | OrphanPending \<Rightarrow> None)"

definition classify_btc_orphan_with ::
  "nbits_table \<Rightarrow> int \<Rightarrow> u32 \<Rightarrow> int option \<Rightarrow> btc_orphan_verdict \<times> string" where
  "classify_btc_orphan_with t header_time header_bits strict_height =
     (let input = \<lparr>li_bits = header_bits, li_time = header_time, li_meets_own_target = True,
            li_prev_height = None,
            li_strict_height = (case strict_height of
               Some h \<Rightarrow> if bip34_activation_height \<le> h then Some h else None | None \<Rightarrow> None)\<rparr> in
      case bitcoin_lineage input t of
        Bitcoin ev \<Rightarrow>
          (case ev of
             StrictHeight \<Rightarrow> (OrphanStrict, ''strict_height_nbits_match'')
           | PlacedPrev \<Rightarrow> (OrphanStrict, ''strict_height_nbits_match'')
           | EpochTime \<Rightarrow> (OrphanWeak, ''timestamp_epoch_nbits_match'')
           | CurrentEpoch \<Rightarrow> (OrphanPending, ''above_nbits_time_horizon''))
      | NotBitcoin reason \<Rightarrow> (OrphanExcluded, reason)
      | LineagePending reason \<Rightarrow> (OrphanPending, reason))"

section \<open>What the verdicts mean\<close>

lemma strict_height_lineage_Bitcoin:
  assumes "strict_height_lineage bits is_share time h t = Some (Bitcoin ev)"
  shows "ev = StrictHeight"
    and "nt_horizon_time t < time \<or> (\<exists>e. epoch_height_for_time t time = Some e \<and> e \<le> h \<and> h < wrap_i32 (e + 2016))"
    and "\<exists>b. expected_nbits t h = Found b \<and> (b = bits \<or> (is_share \<and> previous_epoch_bits t h = Some bits))"
  using assms
  by (auto simp: strict_height_lineage_def Let_def daa_epoch_interval_def split: if_splits nbits_lookup.splits option.splits)

lemma above_horizon_evidence: "above_horizon_lineage bits is_share t = Bitcoin ev \<Longrightarrow> ev = CurrentEpoch"
  unfolding above_horizon_lineage_def Let_def by (simp split: if_split_asm)

lemma time_lineage_evidence:
  "time_lineage bits is_share time t = Bitcoin ev \<Longrightarrow> ev = EpochTime \<or> ev = CurrentEpoch"
  unfolding time_lineage_def
  by (cases "classify_nbits_by_time t time bits") (simp_all add: above_horizon_evidence)

text \<open>Without a placed previous block the verdict is the coinbase height's, or else the time's.\<close>

lemma lineage_unplaced_cases:
  assumes "li_prev_height input = None"
  obtains (strict) h where "li_strict_height input = Some h"
    and "strict_height_lineage (li_bits input) (\<not> li_meets_own_target input) (li_time input) h t =
      Some (bitcoin_lineage input t)"
  | (time) "bitcoin_lineage input t =
      time_lineage (li_bits input) (\<not> li_meets_own_target input) (li_time input) t"
proof (cases "Option.bind (li_strict_height input)
    (\<lambda>h. strict_height_lineage (li_bits input) (\<not> li_meets_own_target input) (li_time input) h t)")
  case None
  with assms have "bitcoin_lineage input t =
      time_lineage (li_bits input) (\<not> li_meets_own_target input) (li_time input) t"
    by (simp add: bitcoin_lineage_def Let_def)
  then show ?thesis by (rule time)
next
  case (Some v)
  then obtain h where h: "li_strict_height input = Some h"
      "strict_height_lineage (li_bits input) (\<not> li_meets_own_target input) (li_time input) h t = Some v"
    unfolding bind_eq_Some_conv by blast
  moreover have "bitcoin_lineage input t = v" using assms Some by (simp add: bitcoin_lineage_def Let_def)
  ultimately show ?thesis using strict by simp
qed

lemma exact_lineage_found:
  assumes ev: "bitcoin_lineage input t = Bitcoin ev" "is_exact ev" and own: "li_meets_own_target input"
  shows "\<exists>h. expected_nbits t h = Found (li_bits input) \<and>
    (case li_prev_height input of Some p \<Rightarrow> h = wrap_i32 (p + 1)
     | None \<Rightarrow> li_strict_height input = Some h \<and> (nt_horizon_time t < li_time input \<or>
         (\<exists>e. epoch_height_for_time t (li_time input) = Some e \<and> e \<le> h \<and> h < wrap_i32 (e + 2016))))"
proof (cases "li_prev_height input")
  case (Some p)
  have "placed_prev_lineage (li_bits input) False p t = Bitcoin ev"
    using ev(1) own Some by (simp add: bitcoin_lineage_def Let_def)
  then have "expected_nbits t (wrap_i32 (p + 1)) = Found (li_bits input)"
    by (cases "expected_nbits t (wrap_i32 (p + 1))") (simp_all add: placed_prev_lineage_def split: if_split_asm)
  with Some show ?thesis by simp
next
  case None
  then show ?thesis
  proof (cases rule: lineage_unplaced_cases [of input t])
    case (strict h)
    with ev own strict_height_lineage_Bitcoin(2,3) [of "li_bits input" False "li_time input" h t ev]
    show ?thesis using None by auto
  next
    case time
    have "ev = EpochTime \<or> ev = CurrentEpoch" using time ev(1) time_lineage_evidence by metis
    then show ?thesis using ev(2) by (auto simp: is_exact_def)
  qed
qed

text \<open>A parent block admitted as Bitcoin on exact evidence carries the bits of the cached header at
  the start of its epoch, where its height is one above its placed previous block or, without
  one, its coinbase height, which then lies in the epoch its time selects unless the header is
  newer than the cache.\<close>

theorem exact_lineage_carries_epoch_bits:
  assumes "from_bitcoin_core_headers_with_horizon_time headers cached = Inr t"
    and "list_all (\<lambda>h. i32_ok (eh_height h)) headers"
    and "bitcoin_lineage input t = Bitcoin ev" and "is_exact ev" and "li_meets_own_target input"
  shows "\<exists>h. 0 \<le> h \<and> (\<exists>e \<in> set headers. eh_height e = h - h mod 2016 \<and> eh_bits e = li_bits input) \<and>
    (case li_prev_height input of Some p \<Rightarrow> h = wrap_i32 (p + 1)
     | None \<Rightarrow> li_strict_height input = Some h \<and> (nt_horizon_time t < li_time input \<or>
         (\<exists>e. epoch_height_for_time t (li_time input) = Some e \<and> e \<le> h \<and> h < e + 2016)))"
proof -
  note ok = from_headers_table_ok [OF assms(1,2)]
  have nowrap: "wrap_i32 (e + 2016) = e + 2016" if "epoch_height_for_time t (li_time input) = Some e" for e
    using epoch_height_for_time_dom [OF ok that] ok by (auto simp: table_ok_def i32_ok_def)
  obtain h where h: "expected_nbits t h = Found (li_bits input)"
    and place: "case li_prev_height input of Some p \<Rightarrow> h = wrap_i32 (p + 1)
     | None \<Rightarrow> li_strict_height input = Some h \<and> (nt_horizon_time t < li_time input \<or>
         (\<exists>e. epoch_height_for_time t (li_time input) = Some e \<and> e \<le> h \<and> h < wrap_i32 (e + 2016)))"
    using exact_lineage_found [OF assms(3-5)] by blast
  have "0 \<le> h" "nt_by_epoch t (h - h mod 2016) = Some (li_bits input)"
    using h unfolding expected_nbits_Found [OF ok] by simp_all
  then have "0 \<le> h \<and> (\<exists>e \<in> set headers. eh_height e = h - h mod 2016 \<and> eh_bits e = li_bits input)"
    unfolding from_headers_by_epoch(1) [OF assms(1,2)] by blast
  with place nowrap show ?thesis
    by (intro exI [of _ h]) (auto split: option.splits)
qed

definition demo_input :: parent_lineage_input where
  "demo_input = \<lparr>li_bits = 8, li_time = 310, li_meets_own_target = True, li_prev_height = None,
     li_strict_height = Some 3000\<rparr>"

lemma demo_lineage: "bitcoin_lineage demo_input demo_table = Bitcoin StrictHeight"
  by code_simp

theorem exact_lineage_carries_epoch_bits_witness:
  "\<exists>h. 0 \<le> h \<and> (\<exists>e \<in> set demo_headers. eh_height e = h - h mod 2016 \<and> eh_bits e = li_bits demo_input) \<and>
    (case li_prev_height demo_input of Some p \<Rightarrow> h = wrap_i32 (p + 1)
     | None \<Rightarrow> li_strict_height demo_input = Some h \<and> (nt_horizon_time demo_table < li_time demo_input \<or>
         (\<exists>e. epoch_height_for_time demo_table (li_time demo_input) = Some e \<and> e \<le> h \<and> h < e + 2016)))"
  by (rule exact_lineage_carries_epoch_bits [OF demo_headers_table demo_lineage])
    (simp_all add: is_exact_def demo_input_def)

text \<open>The lineage rule leaves a header undecided only at the frontier of the cache: its placed
  height, or its coinbase height within a day of the horizon, lies beyond the cached epochs, or
  it is newer than the cache while a retarget is at most six blocks past the horizon.\<close>

theorem lineage_pending_only_at_frontier:
  assumes "from_bitcoin_core_headers_with_horizon_time headers cached = Inr t"
    and "list_all (\<lambda>h. i32_ok (eh_height h)) headers"
    and "bitcoin_lineage input t = LineagePending reason"
  shows "reason = ''next_epoch_not_cached'' \<and>
    (case li_prev_height input of
       Some p \<Rightarrow> li_meets_own_target input \<and> nt_covered_max_height t + 2015 < wrap_i32 (p + 1)
     | None \<Rightarrow>
         (\<exists>h. li_strict_height input = Some h \<and> nt_covered_max_height t + 2015 < h \<and>
            h \<le> wrap_i32 (nt_horizon_height t + 144)) \<or>
         (nt_horizon_time t < li_time input \<and>
            nt_covered_max_height t + 2016 - nt_horizon_height t \<le> 6))"
proof -
  note ok = from_headers_table_ok [OF assms(1,2)]
  show ?thesis
  proof (cases "li_prev_height input")
    case (Some p)
    with assms(3) show ?thesis
      by (auto simp: bitcoin_lineage_def placed_prev_lineage_def Let_def expected_nbits_total(2) [OF ok, symmetric]
          split: nbits_lookup.splits if_splits)
  next
    case None
    have frontier: "daa_epoch_start (nt_horizon_height t) = nt_covered_max_height t"
    proof -
      let ?c = "nt_covered_max_height t" and ?h = "nt_horizon_height t"
      have c: "0 \<le> ?c" "?c mod 2016 = 0" "?c \<le> ?h" "?h < ?c + 2016" "?c + 2016 < 2 ^ 31"
        using ok by (simp_all add: table_ok_def)
      then have "?h mod 2016 = (?h - ?c) mod 2016" by (simp add: mod_diff_right_eq [symmetric] del: mod_diff_right_eq)
      also have "\<dots> = ?h - ?c" using c by simp
      finally show ?thesis using c daa_epoch_start_exact [of ?h] by simp
    qed
    have above: "nt_horizon_time t < li_time input \<and> nt_covered_max_height t + 2016 - nt_horizon_height t \<le> 6 \<and>
        r = ''next_epoch_not_cached''"
      if "time_lineage (li_bits input) sh (li_time input) t = LineagePending r" for sh r
    proof -
      have "classify_nbits_by_time t (li_time input) (li_bits input) = AboveHorizon"
        using that by (auto simp: time_lineage_def split: weak_verdict.splits)
      then have "nt_horizon_time t < li_time input"
        by (auto simp: classify_nbits_by_time_def Let_def split: if_splits option.splits)
      moreover have "wrap_i32 (wrap_i32 (nt_covered_max_height t + 2016) - nt_horizon_height t) \<le> 6"
          "r = ''next_epoch_not_cached''"
        using that \<open>classify_nbits_by_time t (li_time input) (li_bits input) = AboveHorizon\<close>
        by (auto simp: time_lineage_def above_horizon_lineage_def Let_def frontier daa_epoch_interval_def
            retarget_pending_window_def split: if_splits)
      ultimately show ?thesis using ok by (simp add: table_ok_def i32_ok_def)
    qed
    from None show ?thesis
    proof (cases rule: lineage_unplaced_cases [of input t])
      case (strict h)
      with assms(3) None show ?thesis
        by (auto simp: strict_height_lineage_def Let_def future_height_tolerance_def
            expected_nbits_total(2) [OF ok, symmetric] split: if_splits nbits_lookup.splits)
    next
      case time
      with assms(3) None above show ?thesis by simp
    qed
  qed
qed

definition demo_frontier_input :: parent_lineage_input where
  "demo_frontier_input = \<lparr>li_bits = 8, li_time = 500, li_meets_own_target = True,
     li_prev_height = Some 6047, li_strict_height = None\<rparr>"

theorem lineage_pending_only_at_frontier_witness:
  "''next_epoch_not_cached'' = ''next_epoch_not_cached'' \<and>
    (case li_prev_height demo_frontier_input of
       Some p \<Rightarrow> li_meets_own_target demo_frontier_input \<and> nt_covered_max_height demo_table + 2015 < wrap_i32 (p + 1)
     | None \<Rightarrow>
         (\<exists>h. li_strict_height demo_frontier_input = Some h \<and> nt_covered_max_height demo_table + 2015 < h \<and>
            h \<le> wrap_i32 (nt_horizon_height demo_table + 144)) \<or>
         (nt_horizon_time demo_table < li_time demo_frontier_input \<and>
            nt_covered_max_height demo_table + 2016 - nt_horizon_height demo_table \<le> 6))"
proof (rule lineage_pending_only_at_frontier [OF demo_headers_table])
  show "bitcoin_lineage demo_frontier_input demo_table = LineagePending ''next_epoch_not_cached''"
    by code_simp
qed

text \<open>A verdict on a header with a placed previous block that is not pending does not change when
  the cache is extended by further epochs.\<close>

theorem placed_lineage_stable:
  assumes "from_bitcoin_core_headers_with_horizon_time headers cached = Inr t"
    and "from_bitcoin_core_headers_with_horizon_time headers' cached' = Inr t'"
    and "list_all (\<lambda>h. i32_ok (eh_height h)) headers" "list_all (\<lambda>h. i32_ok (eh_height h)) headers'"
    and "set (epoch_rows headers) \<subseteq> set (epoch_rows headers')"
    and "li_prev_height input = Some p" and "\<And>r. bitcoin_lineage input t \<noteq> LineagePending r"
  shows "bitcoin_lineage input t' = bitcoin_lineage input t"
proof -
  note ok = from_headers_table_ok [OF assms(1,3)] and ok' = from_headers_table_ok [OF assms(2,4)]
  have sub: "nt_by_epoch t' h = Some b" if hb: "nt_by_epoch t h = Some b" for h b
  proof -
    obtain e where e: "e \<in> set headers" "eh_height e = h" "eh_bits e = b" "h mod 2016 = 0"
      using iffD1 [OF from_headers_by_epoch(1) [OF assms(1,3)] hb] by (elim bexE conjE) rule
    then have "e \<in> set (epoch_rows headers)"
      by (simp only: epoch_rows_def set_filter mem_Collect_eq daa_epoch_interval_def)
    then have "e \<in> set headers'" using assms(5) by (auto simp: epoch_rows_def)
    with e show ?thesis by (intro iffD2 [OF from_headers_by_epoch(1) [OF assms(2,4)]] bexI [of _ e] conjI)
  qed
  have dom: "dom (nt_by_epoch t) = {h. 0 \<le> h \<and> h \<le> nt_covered_max_height t \<and> h mod 2016 = 0}"
      "dom (nt_by_epoch t') = {h. 0 \<le> h \<and> h \<le> nt_covered_max_height t' \<and> h mod 2016 = 0}"
      "0 \<le> nt_covered_max_height t" "nt_covered_max_height t mod 2016 = 0"
    using ok ok' by (simp_all add: table_ok_def)
  then have "nt_covered_max_height t \<in> dom (nt_by_epoch t)" by simp
  then obtain b where "nt_by_epoch t (nt_covered_max_height t) = Some b" by (auto simp only: dom_def mem_Collect_eq not_None_eq)
  from sub [OF this] have "nt_covered_max_height t \<in> dom (nt_by_epoch t')" by (rule domI)
  then have cov: "nt_covered_max_height t \<le> nt_covered_max_height t'" unfolding dom(2) by simp
  have keep: "expected_nbits t' h = expected_nbits t h" if "expected_nbits t h \<noteq> AboveTable" for h
  proof (cases "expected_nbits t h")
    case (Found b)
    then have "expected_nbits t' h = Found b"
      unfolding expected_nbits_Found [OF ok] expected_nbits_Found [OF ok'] using sub cov by simp
    with Found show ?thesis by simp
  next
    case BelowTable
    then show ?thesis unfolding expected_nbits_total(1) [OF ok] using expected_nbits_total(1) [OF ok'] BelowTable
      by simp
  qed (use that in simp)
  show ?thesis
  proof (cases "li_meets_own_target input")
    case True
    then have "expected_nbits t (wrap_i32 (p + 1)) \<noteq> AboveTable"
      using assms(6) assms(7) [of "''next_epoch_not_cached''"]
      by (auto simp: bitcoin_lineage_def placed_prev_lineage_def Let_def)
    with keep assms(6) show ?thesis by (simp add: bitcoin_lineage_def placed_prev_lineage_def Let_def)
  qed (use assms(6) in \<open>simp add: bitcoin_lineage_def placed_prev_lineage_def Let_def\<close>)
qed

definition demo_early_headers :: "bitcoin_epoch_header list" where
  "demo_early_headers = take 2 demo_headers"

definition demo_early_table :: nbits_table where
  "demo_early_table =
     \<lparr>nt_covered_max_height = 2016, nt_horizon_height = 2016, nt_horizon_time = 300,
      nt_by_epoch = map_of (rev [(0, 7), (2016, 8)]), nt_epochs_by_time = [(100, 0), (300, 2016)]\<rparr>"

definition demo_placed_input :: parent_lineage_input where
  "demo_placed_input = \<lparr>li_bits = 8, li_time = 0, li_meets_own_target = True, li_prev_height = Some 3000,
     li_strict_height = None\<rparr>"

lemma demo_early_headers_table:
  "from_bitcoin_core_headers_with_horizon_time demo_early_headers 0 = Inr demo_early_table"
  "list_all (\<lambda>h. i32_ok (eh_height h)) demo_early_headers"
  "set (epoch_rows demo_early_headers) \<subseteq> set (epoch_rows demo_headers)"
  by (simp_all add: from_bitcoin_core_headers_with_horizon_time_def demo_early_headers_def demo_headers_def
      demo_early_table_def epoch_rows_def daa_epoch_interval_def ensure_def i32_ok_def less_eq_prod_def)

lemma demo_placed_lineage: "bitcoin_lineage demo_placed_input demo_early_table = Bitcoin PlacedPrev"
  by code_simp

theorem placed_lineage_stable_witness:
  "bitcoin_lineage demo_placed_input demo_table = bitcoin_lineage demo_placed_input demo_early_table"
  by (rule placed_lineage_stable [OF demo_early_headers_table(1) demo_headers_table(1)
        demo_early_headers_table(2) demo_headers_table(2) demo_early_headers_table(3), of _ 3000])
    (simp_all add: demo_placed_lineage, simp add: demo_placed_input_def)

text \<open>A strict orphan verdict rests on a coinbase height at or above the BIP34 activation whose
  epoch bits the header carries, consistent with the epoch of its time unless the header is newer
  than the cache; the other verdicts never claim it.\<close>

theorem strict_orphan_evidence:
  "fst (classify_btc_orphan_with t time bits sh) = OrphanStrict \<longleftrightarrow>
     (\<exists>h. sh = Some h \<and> 227931 \<le> h \<and> expected_nbits t h = Found bits \<and>
       (nt_horizon_time t < time \<or>
        (\<exists>e. epoch_height_for_time t time = Some e \<and> e \<le> h \<and> h < wrap_i32 (e + 2016))))"
  (is "?lhs \<longleftrightarrow> ?rhs")
proof -
  define sh' where "sh' = (case sh of Some h \<Rightarrow> if bip34_activation_height \<le> h then Some h else None | None \<Rightarrow> None)"
  define input where "input = \<lparr>li_bits = bits, li_time = time, li_meets_own_target = True,
    li_prev_height = None, li_strict_height = sh'\<rparr>"
  have in_simps: "li_bits input = bits" "li_time input = time" "li_meets_own_target input"
    "li_prev_height input = None" "li_strict_height input = sh'" by (simp_all add: input_def)
  have sh': "sh' = Some h \<longleftrightarrow> sh = Some h \<and> 227931 \<le> h" for h
    by (cases sh) (auto simp: sh'_def bip34_activation_height_def)
  have "?lhs \<longleftrightarrow> (\<exists>ev. bitcoin_lineage input t = Bitcoin ev \<and> is_exact ev)"
    unfolding classify_btc_orphan_with_def Let_def sh'_def [symmetric] input_def [symmetric]
    by (cases "bitcoin_lineage input t") (auto simp: is_exact_def split: lineage_evidence.splits)
  also have "\<dots> \<longleftrightarrow> ?rhs"
  proof
    assume "\<exists>ev. bitcoin_lineage input t = Bitcoin ev \<and> is_exact ev"
    then obtain ev where "bitcoin_lineage input t = Bitcoin ev" "is_exact ev" by blast
    from exact_lineage_found [OF this in_simps(3)] show ?rhs by (simp add: in_simps sh') blast
  next
    assume ?rhs
    then obtain h where h: "sh' = Some h" "expected_nbits t h = Found bits"
      "nt_horizon_time t < time \<or> (\<exists>e. epoch_height_for_time t time = Some e \<and> e \<le> h \<and> h < wrap_i32 (e + 2016))"
      using sh' by blast
    then have "strict_height_lineage bits False time h t = Some (Bitcoin StrictHeight)"
      by (auto simp: strict_height_lineage_def daa_epoch_interval_def)
    then have "bitcoin_lineage input t = Bitcoin StrictHeight"
      using h(1) by (simp add: bitcoin_lineage_def in_simps)
    then show "\<exists>ev. bitcoin_lineage input t = Bitcoin ev \<and> is_exact ev" by (simp add: is_exact_def)
  qed
  finally show ?thesis .
qed

text \<open>A strict height for Hathor evidence requires the complete parent transaction: it
  deserializes, is a coinbase, and its first input carries exactly the stored script, which pushes
  that height, at or above the BIP34 activation.\<close>

theorem hathor_strict_height_needs_transaction:
  "strict_bip34_height_from_evidence L ''hathor'' script tx_bytes = Some h \<longleftrightarrow>
     (\<exists>raw tx. tx_bytes = Some raw \<and> deserialize_tx L raw = Some tx \<and> is_coinbase L tx \<and>
        i_script_sig (tx_input tx ! 0) = script \<and> parse_bip34_height script = Some h \<and> 227931 \<le> h)"
proof -
  have "is_strict_bip34_chain ''hathor''" by (simp add: is_strict_bip34_chain_def strict_bip34_chains_def)
  then show ?thesis
    by (auto simp: strict_bip34_height_from_evidence_def Let_def bind_eq_Some_conv bip34_activation_height_def
        split: option.splits if_splits)
qed


end
