(* ===== verification/Pool_Resolver.thy ===== *)
theory Pool_Resolver
  imports Prelude
begin

text \<open>
  \<open>crates/mmm-capture/src/pool_resolver/btc.rs\<close>, \<open>error.rs\<close>, \<open>identity.rs\<close> and
  \<open>identity_registry.rs\<close>: the validated indexes that attribute a coinbase to a pool by tag, by
  payout address or by RSK miner address.  The locale \<open>owner_index\<close> is what the address indexes
  promise; the lemmas show that validation makes every owner unique and that the most specific
  tag wins.
\<close>

section \<open>Errors\<close>

datatype pool_resolver_error =
    InvalidSnapshotJson string
  | InvalidRegistryJson string
  | UnsupportedSchemaVersion u32
  | EmptyValue string string
  | DuplicateValue string string string string
  | InvalidRskMinerAddress string string
  | WhitespaceValue string string
  | PoolSlugCanonicalNameConflict string string string

datatype identity_registry_error =
    RegistryUnsupportedSchemaVersion u32
  | EmptyField string string
  | WhitespaceField string string
  | DuplicateIdentifier string string string string
  | SlugCanonicalNameConflict string string string
  | InvalidIdentifier string string string string

section \<open>The Bitcoin pool snapshot\<close>

record pool_snapshot_source =
  ss_name :: string
  ss_upstream_url :: "string option"
  ss_license :: "string option"
  ss_notes :: "string option"

record pool_record =
  pr_slug :: string
  pr_source_id :: "u64 option"
  pr_canonical_name :: string
  pr_coinbase_tags :: "string list"
  pr_payout_addresses :: "string list"
  pr_link :: "string option"

record pool_snapshot =
  sn_schema_version :: u32
  sn_generated_at :: string
  sn_scope :: string
  sn_source :: pool_snapshot_source
  sn_pools :: "pool_record list"

datatype match_kind = CoinbaseTag | PayoutAddress

record pool_match =
  pm_pool :: pool_record
  pm_matched_by :: match_kind
  pm_matched_value :: string

record tag_index_entry =
  te_tag :: string
  te_pool_index :: nat

record pool_resolver =
  rv_snapshot :: pool_snapshot
  rv_coinbase_tags :: "tag_index_entry list"
  rv_payout_addresses :: "string \<rightharpoonup> nat"

definition validate_non_empty :: "string \<Rightarrow> string \<Rightarrow> string \<Rightarrow> (pool_resolver_error, unit) result" where
  "validate_non_empty field value pool_slug =
     (if str_trim value = [] then Inl (EmptyValue field pool_slug) else Inr ())"

text \<open>The inner loops of \<open>validate_snapshot\<close>; the owner map is threaded through.\<close>

fun check_tags ::
  "string \<Rightarrow> string list \<Rightarrow> (string \<rightharpoonup> string) \<Rightarrow> (pool_resolver_error, string \<rightharpoonup> string) result" where
  "check_tags slug [] owners = Inr owners"
| "check_tags slug (tag # tags) owners =
     rbind (validate_non_empty ''coinbase_tags'' tag slug) (\<lambda>_.
       case owners tag of
         Some first_pool \<Rightarrow> Inl (DuplicateValue ''coinbase_tags'' tag first_pool slug)
       | None \<Rightarrow> check_tags slug tags (owners(tag \<mapsto> slug)))"

fun check_addresses ::
  "string \<Rightarrow> string list \<Rightarrow> (string \<rightharpoonup> string) \<Rightarrow> (pool_resolver_error, string \<rightharpoonup> string) result" where
  "check_addresses slug [] owners = Inr owners"
| "check_addresses slug (address # addresses) owners =
     rbind (validate_non_empty ''payout_addresses'' address slug) (\<lambda>_.
       let trimmed = str_trim address in
       case owners trimmed of
         Some first_pool \<Rightarrow> Inl (DuplicateValue ''payout_addresses'' trimmed first_pool slug)
       | None \<Rightarrow> check_addresses slug addresses (owners(trimmed \<mapsto> slug)))"

fun check_pools ::
  "pool_record list \<Rightarrow> (string \<rightharpoonup> string) \<Rightarrow> (string \<rightharpoonup> string) \<Rightarrow> (string \<rightharpoonup> string) \<Rightarrow>
     (pool_resolver_error, unit) result" where
  "check_pools [] slug_owners tag_owners address_owners = Inr ()"
| "check_pools (pool # pools) slug_owners tag_owners address_owners =
     rbind (validate_non_empty ''slug'' (pr_slug pool) (pr_slug pool)) (\<lambda>_.
     rbind (validate_non_empty ''canonical_name'' (pr_canonical_name pool) (pr_slug pool)) (\<lambda>_.
       case slug_owners (pr_slug pool) of
         Some first_canonical \<Rightarrow>
           Inl (DuplicateValue ''slug'' (pr_slug pool) first_canonical (pr_canonical_name pool))
       | None \<Rightarrow>
           rbind (check_tags (pr_slug pool) (pr_coinbase_tags pool) tag_owners) (\<lambda>tag_owners'.
           rbind (check_addresses (pr_slug pool) (pr_payout_addresses pool) address_owners) (\<lambda>address_owners'.
             check_pools pools (slug_owners(pr_slug pool \<mapsto> pr_canonical_name pool)) tag_owners' address_owners'))))"

definition validate_snapshot :: "pool_snapshot \<Rightarrow> (pool_resolver_error, unit) result" where
  "validate_snapshot snapshot =
     (if sn_schema_version snapshot \<noteq> 1 then Inl (UnsupportedSchemaVersion (sn_schema_version snapshot))
      else check_pools (sn_pools snapshot) Map.empty Map.empty Map.empty)"

text \<open>The rows an index is built from: every key of every entry with the entry's position.\<close>

definition index_rows :: "('e \<Rightarrow> 'k list) \<Rightarrow> 'e list \<Rightarrow> ('k \<times> nat) list" where
  "index_rows keys entries = concat (map (\<lambda>(i, e). map (\<lambda>k. (k, i)) (keys e)) (enumerate 0 entries))"

definition from_snapshot :: "pool_snapshot \<Rightarrow> (pool_resolver_error, pool_resolver) result" where
  "from_snapshot snapshot =
     rbind (validate_snapshot snapshot) (\<lambda>_.
       let coinbase_tags = map (\<lambda>(tag, pool_index). \<lparr>te_tag = tag, te_pool_index = pool_index\<rparr>)
             (index_rows pr_coinbase_tags (sn_pools snapshot));
           payout_addresses = foldl (\<lambda>m (address, pool_index). m(str_trim address \<mapsto> pool_index)) Map.empty
             (index_rows pr_payout_addresses (sn_pools snapshot))
       in Inr \<lparr>rv_snapshot = snapshot,
               rv_coinbase_tags = sort_key (\<lambda>e. (- int (length (te_tag e)), te_tag e)) coinbase_tags,
               rv_payout_addresses = payout_addresses\<rparr>)"

definition contains_bytes :: "bytes \<Rightarrow> bytes \<Rightarrow> bool" where
  "contains_bytes haystack needle \<longleftrightarrow>
     needle \<noteq> [] \<and> length needle \<le> length haystack \<and>
     list_ex (\<lambda>candidate. candidate = needle) (windows (length needle) haystack)"

definition as_bytes :: "string \<Rightarrow> bytes" where
  "as_bytes s = map (\<lambda>c. word_of_nat (of_char c)) s"

definition resolve_coinbase_script :: "pool_resolver \<Rightarrow> bytes \<Rightarrow> pool_match option" where
  "resolve_coinbase_script r coinbase_script =
     find_map (\<lambda>entry.
       if contains_bytes coinbase_script (as_bytes (te_tag entry))
       then Some \<lparr>pm_pool = sn_pools (rv_snapshot r) ! te_pool_index entry, pm_matched_by = CoinbaseTag,
                  pm_matched_value = te_tag entry\<rparr>
       else None) (rv_coinbase_tags r)"

definition resolve_payout_address :: "pool_resolver \<Rightarrow> string \<Rightarrow> pool_match option" where
  "resolve_payout_address r address =
     (let address = str_trim address in
      map_option (\<lambda>pool_index.
        \<lparr>pm_pool = sn_pools (rv_snapshot r) ! pool_index, pm_matched_by = PayoutAddress,
         pm_matched_value = address\<rparr>) (rv_payout_addresses r address))"

definition resolve_payout_addresses :: "pool_resolver \<Rightarrow> string list \<Rightarrow> pool_match option" where
  "resolve_payout_addresses r addresses = find_map (resolve_payout_address r) addresses"

section \<open>Identity registries\<close>

record identity_registry_entry =
  ie_identifier :: string
  ie_pool_slug :: string
  ie_pool_canonical_name :: string

definition validate_field :: "string \<Rightarrow> string \<Rightarrow> string \<Rightarrow> (identity_registry_error, unit) result" where
  "validate_field field value pool_slug =
     (if str_trim value = [] then Inl (EmptyField field pool_slug)
      else if value \<noteq> str_trim value then Inl (WhitespaceField field pool_slug)
      else Inr ())"

fun check_identities ::
  "string \<Rightarrow> (string \<Rightarrow> (string, unit) result) \<Rightarrow> (string \<Rightarrow> string) \<Rightarrow> identity_registry_entry list \<Rightarrow>
     (string \<rightharpoonup> string) \<Rightarrow> (string \<rightharpoonup> string) \<Rightarrow> (identity_registry_error, unit) result" where
  "check_identities identifier_field identifier_validator identifier_key [] owners slug_canonical = Inr ()"
| "check_identities identifier_field identifier_validator identifier_key (entry # entries) owners slug_canonical =
     rbind (validate_field identifier_field (ie_identifier entry) (ie_pool_slug entry)) (\<lambda>_.
     rbind (validate_field ''pool_slug'' (ie_pool_slug entry) (ie_pool_slug entry)) (\<lambda>_.
     rbind (validate_field ''pool_canonical_name'' (ie_pool_canonical_name entry) (ie_pool_slug entry)) (\<lambda>_.
       case identifier_validator (ie_identifier entry) of
         Inl reason \<Rightarrow> Inl (InvalidIdentifier identifier_field (ie_identifier entry) (ie_pool_slug entry) reason)
       | Inr _ \<Rightarrow>
           let key = identifier_key (ie_identifier entry) in
           (case owners key of
              Some first_pool \<Rightarrow> Inl (DuplicateIdentifier identifier_field key first_pool (ie_pool_slug entry))
            | None \<Rightarrow>
                (case slug_canonical (ie_pool_slug entry) of
                   Some existing \<Rightarrow>
                     if existing \<noteq> ie_pool_canonical_name entry
                     then Inl (SlugCanonicalNameConflict (ie_pool_slug entry) existing (ie_pool_canonical_name entry))
                     else check_identities identifier_field identifier_validator identifier_key entries
                            (owners(key \<mapsto> ie_pool_slug entry)) slug_canonical
                 | None \<Rightarrow> check_identities identifier_field identifier_validator identifier_key entries
                            (owners(key \<mapsto> ie_pool_slug entry))
                            (slug_canonical(ie_pool_slug entry \<mapsto> ie_pool_canonical_name entry)))))))"

definition validate_identity_registry ::
  "u32 \<Rightarrow> identity_registry_entry list \<Rightarrow> string \<Rightarrow> (string \<Rightarrow> (string, unit) result) \<Rightarrow> (string \<Rightarrow> string) \<Rightarrow>
     (identity_registry_error, unit) result" where
  "validate_identity_registry schema_version entries identifier_field identifier_validator identifier_key =
     (if schema_version \<noteq> 1 then Inl (RegistryUnsupportedSchemaVersion schema_version)
      else check_identities identifier_field identifier_validator identifier_key entries Map.empty Map.empty)"

fun distinct_definitions_loop ::
  "identity_registry_entry list \<Rightarrow> string list \<Rightarrow> (string \<times> string) list \<Rightarrow> (string \<times> string) list" where
  "distinct_definitions_loop [] seen order = order"
| "distinct_definitions_loop (entry # entries) seen order =
     (if List.member seen (ie_pool_slug entry) then distinct_definitions_loop entries seen order
      else distinct_definitions_loop entries (ie_pool_slug entry # seen)
             (order @ [(ie_pool_slug entry, ie_pool_canonical_name entry)]))"

definition distinct_pool_definitions :: "identity_registry_entry list \<Rightarrow> (string \<times> string) list" where
  "distinct_pool_definitions entries = distinct_definitions_loop entries [] []"

definition identity_key :: "string \<Rightarrow> string" where "identity_key identifier = identifier"

definition accept_any_identifier :: "string \<Rightarrow> (string, unit) result" where
  "accept_any_identifier identifier = Inr ()"

section \<open>The RSK miner registry\<close>

record rsk_miner_entry =
  me_miner_address :: string
  me_pool_slug :: string
  me_pool_canonical_name :: string

record rsk_miner_registry =
  mr_schema_version :: u32
  mr_generated_at :: string
  mr_scope :: string
  mr_source :: pool_snapshot_source
  mr_entries :: "rsk_miner_entry list"

record pool_identity_registry =
  ir_rsk :: rsk_miner_registry
  ir_rsk_by_address :: "string \<rightharpoonup> nat"

definition ascii_lower :: "char \<Rightarrow> char" where
  "ascii_lower c = (if 65 \<le> (of_char c :: nat) \<and> of_char c \<le> (90 :: nat) then char_of (of_char c + (32 :: nat)) else c)"

definition to_ascii_lowercase :: "string \<Rightarrow> string" where
  "to_ascii_lowercase s = map ascii_lower s"

definition strip_prefix_or :: "string \<Rightarrow> string \<Rightarrow> string" where
  "strip_prefix_or p s = (if take (length p) s = p then drop (length p) s else s)"

definition normalize_rsk_address :: "string \<Rightarrow> string" where
  "normalize_rsk_address address = (let lower = to_ascii_lowercase (str_trim address) in strip_prefix_or ''0x'' lower)"

definition is_ascii_hexdigit :: "char \<Rightarrow> bool" where
  "is_ascii_hexdigit c \<longleftrightarrow> List.member ''0123456789abcdefABCDEF'' c"

definition validate_rsk_miner_address_format :: "string \<Rightarrow> (string, unit) result" where
  "validate_rsk_miner_address_format address =
     (let normalized = normalize_rsk_address address in
      if length normalized = 40 \<and> list_all is_ascii_hexdigit normalized then Inr ()
      else Inl ''expected 40 hex characters (optionally prefixed with 0x)'')"

definition rsk_registry_entry :: "rsk_miner_entry \<Rightarrow> identity_registry_entry" where
  "rsk_registry_entry entry =
     \<lparr>ie_identifier = me_miner_address entry, ie_pool_slug = me_pool_slug entry,
      ie_pool_canonical_name = me_pool_canonical_name entry\<rparr>"

definition map_rsk_registry_error :: "identity_registry_error \<Rightarrow> pool_resolver_error" where
  "map_rsk_registry_error e =
     (case e of
        RegistryUnsupportedSchemaVersion version \<Rightarrow> UnsupportedSchemaVersion version
      | EmptyField field pool_slug \<Rightarrow> EmptyValue field pool_slug
      | WhitespaceField field pool_slug \<Rightarrow> WhitespaceValue field pool_slug
      | DuplicateIdentifier field value first_pool duplicate_pool \<Rightarrow>
          DuplicateValue field value first_pool duplicate_pool
      | SlugCanonicalNameConflict slug first duplicate \<Rightarrow> PoolSlugCanonicalNameConflict slug first duplicate
      | InvalidIdentifier field value pool_slug reason \<Rightarrow> InvalidRskMinerAddress value pool_slug)"

definition validate_rsk_registry :: "rsk_miner_registry \<Rightarrow> (pool_resolver_error, unit) result" where
  "validate_rsk_registry registry =
     (case validate_identity_registry (mr_schema_version registry) (map rsk_registry_entry (mr_entries registry))
             ''miner_address'' validate_rsk_miner_address_format normalize_rsk_address of
        Inl e \<Rightarrow> Inl (map_rsk_registry_error e)
      | Inr x \<Rightarrow> Inr x)"

definition from_rsk_registry :: "rsk_miner_registry \<Rightarrow> (pool_resolver_error, pool_identity_registry) result" where
  "from_rsk_registry rsk =
     rbind (validate_rsk_registry rsk) (\<lambda>_.
       Inr \<lparr>ir_rsk = rsk,
            ir_rsk_by_address = foldl (\<lambda>m (index, entry). m(normalize_rsk_address (me_miner_address entry) \<mapsto> index))
              Map.empty (enumerate 0 (mr_entries rsk))\<rparr>)"

definition resolve_rsk_miner :: "pool_identity_registry \<Rightarrow> string \<Rightarrow> rsk_miner_entry option" where
  "resolve_rsk_miner r address =
     (let key = normalize_rsk_address address in
      map_option (\<lambda>index. mr_entries (ir_rsk r) ! index) (ir_rsk_by_address r key))"

definition rsk_distinct_pool_definitions :: "pool_identity_registry \<Rightarrow> (string \<times> string) list" where
  "rsk_distinct_pool_definitions r = distinct_pool_definitions (map rsk_registry_entry (mr_entries (ir_rsk r)))"

section \<open>What the address indexes promise\<close>

locale owner_index =
  fixes valid :: "'r \<Rightarrow> bool" and entries :: "'r \<Rightarrow> 'e list" and keys :: "'e \<Rightarrow> string list"
    and index :: "'r \<Rightarrow> string \<rightharpoonup> nat"
  assumes index_Some: "valid r \<Longrightarrow>
    index r k = Some i \<longleftrightarrow> i < length (entries r) \<and> k \<in> set (keys (entries r ! i))"
begin

lemma owner_unique:
  "valid r \<Longrightarrow> i < length (entries r) \<Longrightarrow> j < length (entries r) \<Longrightarrow>
     k \<in> set (keys (entries r ! i)) \<Longrightarrow> k \<in> set (keys (entries r ! j)) \<Longrightarrow> i = j"
  using index_Some [of r k i] index_Some [of r k j] by simp

lemma index_None: "valid r \<Longrightarrow> index r k = None \<longleftrightarrow> (\<forall>e \<in> set (entries r). k \<notin> set (keys e))"
  using index_Some [of r k] by (metis in_set_conv_nth not_None_eq)

lemma lookup_entry:
  assumes "valid r"
  shows "map_option (\<lambda>i. entries r ! i) (index r k) = Some e \<longleftrightarrow> e \<in> set (entries r) \<and> k \<in> set (keys e)"
proof
  assume "map_option (\<lambda>i. entries r ! i) (index r k) = Some e"
  then show "e \<in> set (entries r) \<and> k \<in> set (keys e)" using index_Some [OF assms] by (auto simp: in_set_conv_nth)
next
  assume "e \<in> set (entries r) \<and> k \<in> set (keys e)"
  then obtain i where "i < length (entries r)" "entries r ! i = e" "k \<in> set (keys e)"
    by (auto simp: in_set_conv_nth)
  then show "map_option (\<lambda>i. entries r ! i) (index r k) = Some e" using index_Some [OF assms, of k i] by simp
qed

end

section \<open>Building an index from distinct keys\<close>

lemma set_index_rows: "(k, i) \<in> set (index_rows keys es) \<longleftrightarrow> i < length es \<and> k \<in> set (keys (es ! i))"
  by (auto simp: index_rows_def in_set_enumerate_eq image_iff)

lemma fst_index_rows: "map fst (index_rows keys es) = concat (map keys es)"
proof -
  have "map fst (concat (map (\<lambda>(i, e). map (\<lambda>k. (k, i)) (keys e)) (enumerate n es))) = concat (map keys es)" for n
    by (induction es arbitrary: n) (simp_all add: comp_def)
  then show ?thesis by (simp add: index_rows_def)
qed

lemma foldl_upd_Some:
  assumes "distinct (map f xs)"
  shows "foldl (\<lambda>m x. m(f x \<mapsto> g x)) m0 xs k = Some v \<longleftrightarrow>
    (\<exists>x \<in> set xs. f x = k \<and> g x = v) \<or> (k \<notin> f ` set xs \<and> m0 k = Some v)"
  using assms
proof (induction xs arbitrary: m0)
  case (Cons x xs)
  then have "f x \<notin> f ` set xs" by auto
  then show ?case using Cons by (auto split: if_splits)
qed simp

section \<open>What validation establishes\<close>

lemma check_tags_Inr:
  "check_tags slug tags owners = Inr owners' \<Longrightarrow>
     distinct tags \<and> (\<forall>t \<in> set tags. t \<notin> dom owners \<and> str_trim t \<noteq> []) \<and> dom owners' = dom owners \<union> set tags"
proof (induction tags arbitrary: owners)
  case (Cons tag tags)
  have "str_trim tag \<noteq> []" "owners tag = None" "check_tags slug tags (owners(tag \<mapsto> slug)) = Inr owners'"
    using Cons.prems by (auto simp: result_simps validate_non_empty_def split: if_splits option.splits)
  with Cons.IH [OF this(3)] show ?case by auto
qed simp

lemma check_addresses_Inr:
  "check_addresses slug as owners = Inr owners' \<Longrightarrow>
     distinct (map str_trim as) \<and> (\<forall>a \<in> set (map str_trim as). a \<notin> dom owners \<and> a \<noteq> []) \<and>
     dom owners' = dom owners \<union> set (map str_trim as)"
proof (induction as arbitrary: owners)
  case (Cons a as)
  have "str_trim a \<noteq> []" "owners (str_trim a) = None"
      "check_addresses slug as (owners(str_trim a \<mapsto> slug)) = Inr owners'"
    using Cons.prems by (auto simp: result_simps validate_non_empty_def Let_def split: if_splits option.splits)
  with Cons.IH [OF this(3)] show ?case by auto
qed simp

text \<open>The tags and the trimmed payout addresses of all pools, in order.\<close>

definition all_tags :: "pool_record list \<Rightarrow> string list" where
  "all_tags pools = concat (map pr_coinbase_tags pools)"

definition all_addresses :: "pool_record list \<Rightarrow> string list" where
  "all_addresses pools = concat (map (\<lambda>p. map str_trim (pr_payout_addresses p)) pools)"

lemma check_pools_Inr:
  "check_pools pools so to ao = Inr () \<Longrightarrow>
     distinct (map pr_slug pools) \<and> set (map pr_slug pools) \<inter> dom so = {} \<and>
     distinct (all_tags pools) \<and> set (all_tags pools) \<inter> dom to = {} \<and>
     (\<forall>t \<in> set (all_tags pools). str_trim t \<noteq> []) \<and>
     distinct (all_addresses pools) \<and> set (all_addresses pools) \<inter> dom ao = {}"
proof (induction pools arbitrary: so to ao)
  case Nil
  then show ?case by (simp add: all_tags_def all_addresses_def)
next
  case (Cons p ps)
  obtain to' ao' where slug: "so (pr_slug p) = None"
    and tags: "check_tags (pr_slug p) (pr_coinbase_tags p) to = Inr to'"
    and addr: "check_addresses (pr_slug p) (pr_payout_addresses p) ao = Inr ao'"
    and rest: "check_pools ps (so(pr_slug p \<mapsto> pr_canonical_name p)) to' ao' = Inr ()"
    using Cons.prems by (auto simp: result_simps split: option.splits)
  note T = check_tags_Inr [OF tags] and A = check_addresses_Inr [OF addr] and R = Cons.IH [OF rest]
  have split: "all_tags (p # ps) = pr_coinbase_tags p @ all_tags ps"
    "all_addresses (p # ps) = map str_trim (pr_payout_addresses p) @ all_addresses ps"
    by (simp_all add: all_tags_def all_addresses_def)
  have "distinct (all_tags (p # ps)) \<and> set (all_tags (p # ps)) \<inter> dom to = {} \<and>
      (\<forall>t \<in> set (all_tags (p # ps)). str_trim t \<noteq> [])"
    using T R unfolding split by auto
  moreover have "distinct (all_addresses (p # ps)) \<and> set (all_addresses (p # ps)) \<inter> dom ao = {}"
    using A R unfolding split by auto
  moreover have "distinct (map pr_slug (p # ps)) \<and> set (map pr_slug (p # ps)) \<inter> dom so = {}"
    using slug R by auto
  ultimately show ?case by blast
qed

lemma from_snapshot_facts:
  assumes "from_snapshot s = Inr r"
  shows "rv_snapshot r = s" and "sn_schema_version s = 1"
    and "distinct (map pr_slug (sn_pools s))" and "distinct (all_tags (sn_pools s))"
    and "distinct (all_addresses (sn_pools s))" and "\<forall>t \<in> set (all_tags (sn_pools s)). str_trim t \<noteq> []"
    and "rv_coinbase_tags r = sort_key (\<lambda>e. (- int (length (te_tag e)), te_tag e))
      (map (\<lambda>(tag, i). \<lparr>te_tag = tag, te_pool_index = i\<rparr>) (index_rows pr_coinbase_tags (sn_pools s)))"
    and "rv_payout_addresses r = foldl (\<lambda>m (address, i). m(str_trim address \<mapsto> i)) Map.empty
      (index_rows pr_payout_addresses (sn_pools s))"
proof -
  have v: "validate_snapshot s = Inr ()" using assms by (auto simp: from_snapshot_def result_simps)
  then have "check_pools (sn_pools s) Map.empty Map.empty Map.empty = Inr ()" "sn_schema_version s = 1"
    by (auto simp: validate_snapshot_def split: if_splits)
  with check_pools_Inr [OF this(1)] show "sn_schema_version s = 1" "distinct (map pr_slug (sn_pools s))"
    "distinct (all_tags (sn_pools s))" "distinct (all_addresses (sn_pools s))"
    "\<forall>t \<in> set (all_tags (sn_pools s)). str_trim t \<noteq> []" by auto
  show "rv_snapshot r = s"
    "rv_coinbase_tags r = sort_key (\<lambda>e. (- int (length (te_tag e)), te_tag e))
      (map (\<lambda>(tag, i). \<lparr>te_tag = tag, te_pool_index = i\<rparr>) (index_rows pr_coinbase_tags (sn_pools s)))"
    "rv_payout_addresses r = foldl (\<lambda>m (address, i). m(str_trim address \<mapsto> i)) Map.empty
      (index_rows pr_payout_addresses (sn_pools s))"
    using assms v by (auto simp: from_snapshot_def Let_def)
qed

text \<open>A resolver built from its snapshot.\<close>

definition resolver_ok :: "pool_resolver \<Rightarrow> bool" where
  "resolver_ok r \<longleftrightarrow> from_snapshot (rv_snapshot r) = Inr r"

lemma from_snapshot_ok: "from_snapshot s = Inr r \<Longrightarrow> resolver_ok r \<and> rv_snapshot r = s"
  using from_snapshot_facts(1) by (auto simp: resolver_ok_def)

interpretation pay: owner_index resolver_ok "\<lambda>r. sn_pools (rv_snapshot r)"
    "\<lambda>p. map str_trim (pr_payout_addresses p)" rv_payout_addresses
proof
  fix r k i
  assume "resolver_ok r"
  then have F: "from_snapshot (rv_snapshot r) = Inr r" by (simp add: resolver_ok_def)
  let ?rows = "index_rows pr_payout_addresses (sn_pools (rv_snapshot r))"
  have "map (\<lambda>x. str_trim (fst x)) ?rows = map str_trim (map fst ?rows)" by simp
  also have "\<dots> = all_addresses (sn_pools (rv_snapshot r))"
    by (simp only: fst_index_rows) (simp add: all_addresses_def map_concat comp_def)
  finally have d: "distinct (map (\<lambda>x. str_trim (fst x)) ?rows)" using from_snapshot_facts(5) [OF F] by simp
  have "rv_payout_addresses r = foldl (\<lambda>m x. m(str_trim (fst x) \<mapsto> snd x)) Map.empty ?rows"
  proof -
    have "(\<lambda>m (address, i). m(str_trim address \<mapsto> i)) =
        (\<lambda>(m :: string \<rightharpoonup> nat) x. m(str_trim (fst x) \<mapsto> snd x))"
      by (intro ext) (simp split: prod.splits)
    then show ?thesis using from_snapshot_facts(8) [OF F] by simp
  qed
  moreover have "(\<exists>x \<in> set ?rows. str_trim (fst x) = k \<and> snd x = i) \<longleftrightarrow>
      i < length (sn_pools (rv_snapshot r)) \<and>
      k \<in> set (map str_trim (pr_payout_addresses (sn_pools (rv_snapshot r) ! i)))"
    unfolding Bex_def split_paired_Ex by (auto simp: set_index_rows)
  ultimately show "rv_payout_addresses r k = Some i \<longleftrightarrow> i < length (sn_pools (rv_snapshot r)) \<and>
      k \<in> set (map str_trim (pr_payout_addresses (sn_pools (rv_snapshot r) ! i)))"
    using foldl_upd_Some [OF d, of snd Map.empty k i] by simp
qed

section \<open>The most specific tag wins\<close>

lemma tag_entries:
  assumes "resolver_ok r"
  shows "e \<in> set (rv_coinbase_tags r) \<longleftrightarrow> te_pool_index e < length (sn_pools (rv_snapshot r)) \<and>
    te_tag e \<in> set (pr_coinbase_tags (sn_pools (rv_snapshot r) ! te_pool_index e))"
proof -
  have "set (rv_coinbase_tags r) = (\<lambda>(tag, i). \<lparr>te_tag = tag, te_pool_index = i\<rparr>) `
      set (index_rows pr_coinbase_tags (sn_pools (rv_snapshot r)))"
    using from_snapshot_facts(7) [of "rv_snapshot r" r] assms by (simp add: resolver_ok_def)
  then show ?thesis
    by (auto simp: set_index_rows image_iff intro!: bexI [of _ "(te_tag e, te_pool_index e)"])
qed

lemma contains_bytes_occurs:
  "contains_bytes haystack needle \<longleftrightarrow> needle \<noteq> [] \<and> (\<exists>i. occurs_at needle haystack i)"
proof (cases "needle = []")
  case False
  then have "(\<exists>i. occurs_at needle haystack i) \<longleftrightarrow> needle \<in> set (windows (length needle) haystack)"
    using position_windows_eq_None [of needle haystack] position_eq_None [of "\<lambda>w. w = needle"] by metis
  moreover have "occurs_at needle haystack i \<Longrightarrow> length needle \<le> length haystack" for i by (simp add: occurs_at_def)
  ultimately show ?thesis using False by (auto simp: contains_bytes_def list_ex_iff)
qed (simp add: contains_bytes_def)

definition tag_key :: "tag_index_entry \<Rightarrow> int \<times> string" where
  "tag_key e = (- int (length (te_tag e)), te_tag e)"

lemma find_map_sorted:
  fixes key :: "'a \<Rightarrow> 'k :: linorder"
  assumes "sorted (map key xs)" and "find_map f xs = Some y"
  shows "\<exists>x \<in> set xs. f x = Some y \<and> (\<forall>z \<in> set xs. f z \<noteq> None \<longrightarrow> key x \<le> key z)"
proof -
  obtain pre x post where x: "xs = pre @ x # post" "f x = Some y" "\<forall>z \<in> set pre. f z = None"
    using assms(2) by (rule find_map_first)
  have "key x \<le> key z" if "z \<in> set xs" "f z \<noteq> None" for z
    using that x assms(1) by (auto simp: sorted_append)
  with x show ?thesis by auto
qed

text \<open>The tag a coinbase script resolves to is contained in the script and belongs to the pool
  returned, and no pool has a longer tag in that script, nor one of the same length that comes
  before it; a script resolves to no pool exactly when it contains no tag of any pool.\<close>

theorem coinbase_tag_most_specific:
  assumes "from_snapshot s = Inr r"
  shows "case resolve_coinbase_script r script of
      Some m \<Rightarrow> pm_matched_by m = CoinbaseTag \<and> pm_pool m \<in> set (sn_pools s) \<and>
        pm_matched_value m \<in> set (pr_coinbase_tags (pm_pool m)) \<and>
        contains_bytes script (as_bytes (pm_matched_value m)) \<and>
        (\<forall>p \<in> set (sn_pools s). \<forall>t \<in> set (pr_coinbase_tags p). contains_bytes script (as_bytes t) \<longrightarrow>
          length t < length (pm_matched_value m) \<or>
          (length t = length (pm_matched_value m) \<and> pm_matched_value m \<le> t))
    | None \<Rightarrow> \<forall>p \<in> set (sn_pools s). \<forall>t \<in> set (pr_coinbase_tags p). \<not> contains_bytes script (as_bytes t)"
proof -
  have ok: "resolver_ok r" and s: "rv_snapshot r = s" using from_snapshot_ok [OF assms] by blast+
  have srt: "sorted (map tag_key (rv_coinbase_tags r))"
    unfolding from_snapshot_facts(7) [OF assms] tag_key_def by (rule sorted_sort_key)
  have entry: "\<lparr>te_tag = t, te_pool_index = i\<rparr> \<in> set (rv_coinbase_tags r)"
    if "i < length (sn_pools s)" "t \<in> set (pr_coinbase_tags (sn_pools s ! i))" for t i
    using that tag_entries [OF ok] by (simp add: s)
  show ?thesis
  proof (cases "resolve_coinbase_script r script")
    case None
    then have none: "\<not> contains_bytes script (as_bytes (te_tag e))" if "e \<in> set (rv_coinbase_tags r)" for e
      using that by (auto simp: resolve_coinbase_script_def find_map_eq_None split: if_splits)
    have "\<not> contains_bytes script (as_bytes t)" if pt: "p \<in> set (sn_pools s)" "t \<in> set (pr_coinbase_tags p)" for p t
    proof -
      obtain i where "i < length (sn_pools s)" "sn_pools s ! i = p" using pt(1) by (auto simp: in_set_conv_nth)
      then show ?thesis using none [OF entry, of i t] pt(2) by simp
    qed
    then show ?thesis by (simp add: None)
  next
    case (Some m)
    obtain e where e: "e \<in> set (rv_coinbase_tags r)" "contains_bytes script (as_bytes (te_tag e))"
        "m = \<lparr>pm_pool = sn_pools s ! te_pool_index e, pm_matched_by = CoinbaseTag, pm_matched_value = te_tag e\<rparr>"
      and best: "\<And>z. z \<in> set (rv_coinbase_tags r) \<Longrightarrow> contains_bytes script (as_bytes (te_tag z)) \<Longrightarrow> tag_key e \<le> tag_key z"
    proof -
      obtain e where "e \<in> set (rv_coinbase_tags r)"
        "(if contains_bytes script (as_bytes (te_tag e))
          then Some \<lparr>pm_pool = sn_pools (rv_snapshot r) ! te_pool_index e, pm_matched_by = CoinbaseTag,
                     pm_matched_value = te_tag e\<rparr> else None) = Some m"
        "\<forall>z \<in> set (rv_coinbase_tags r). (if contains_bytes script (as_bytes (te_tag z))
          then Some \<lparr>pm_pool = sn_pools (rv_snapshot r) ! te_pool_index z, pm_matched_by = CoinbaseTag,
                     pm_matched_value = te_tag z\<rparr> else None) \<noteq> None \<longrightarrow> tag_key e \<le> tag_key z"
        using find_map_sorted [OF srt Some [unfolded resolve_coinbase_script_def]] by blast
      then show thesis using that [of e] by (simp add: s split: if_split_asm)
    qed
    have "length t < length (te_tag e) \<or> (length t = length (te_tag e) \<and> te_tag e \<le> t)"
      if pt: "p \<in> set (sn_pools s)" "t \<in> set (pr_coinbase_tags p)" "contains_bytes script (as_bytes t)" for p t
    proof -
      obtain i where "i < length (sn_pools s)" "sn_pools s ! i = p" using pt(1) by (auto simp: in_set_conv_nth)
      then have "tag_key e \<le> tag_key \<lparr>te_tag = t, te_pool_index = i\<rparr>" using best entry pt by simp
      then show ?thesis by (auto simp: tag_key_def less_eq_prod_def)
    qed
    moreover have "te_pool_index e < length (sn_pools s) \<and> te_tag e \<in> set (pr_coinbase_tags (sn_pools s ! te_pool_index e))"
      using tag_entries [OF ok] e(1) by (simp add: s)
    ultimately show ?thesis using e(2) by (simp add: Some e(3))
  qed
qed

text \<open>A payout address resolves to a pool exactly when that pool lists it, up to surrounding
  white space; validation makes the pool the only one that does.\<close>

theorem payout_address_owner:
  assumes "from_snapshot s = Inr r"
  shows "resolve_payout_address r address = Some m \<longleftrightarrow>
    pm_pool m \<in> set (sn_pools s) \<and> str_trim address \<in> set (map str_trim (pr_payout_addresses (pm_pool m))) \<and>
    pm_matched_by m = PayoutAddress \<and> pm_matched_value m = str_trim address"
proof -
  have ok: "resolver_ok r" and s: "rv_snapshot r = s" using from_snapshot_ok [OF assms] by blast+
  let ?pool = "map_option (\<lambda>i. sn_pools s ! i) (rv_payout_addresses r (str_trim address))"
  have "resolve_payout_address r address =
      map_option (\<lambda>p. \<lparr>pm_pool = p, pm_matched_by = PayoutAddress, pm_matched_value = str_trim address\<rparr>) ?pool"
    by (simp add: resolve_payout_address_def Let_def s option.map_comp comp_def)
  also have "\<dots> = Some m \<longleftrightarrow> ?pool = Some (pm_pool m) \<and> pm_matched_by m = PayoutAddress \<and>
      pm_matched_value m = str_trim address"
    by auto
  also have "?pool = Some (pm_pool m) \<longleftrightarrow> pm_pool m \<in> set (sn_pools s) \<and>
      str_trim address \<in> set (map str_trim (pr_payout_addresses (pm_pool m)))"
    using pay.lookup_entry [OF ok, of "str_trim address" "pm_pool m"] by (simp only: s)
  finally show ?thesis by blast
qed

section \<open>Identity registries\<close>

text \<open>Entries with the same slug carry the same canonical name.\<close>

definition names_agree :: "identity_registry_entry list \<Rightarrow> bool" where
  "names_agree es \<longleftrightarrow> (\<forall>e \<in> set es. \<forall>e' \<in> set es. ie_pool_slug e = ie_pool_slug e' \<longrightarrow>
     ie_pool_canonical_name e = ie_pool_canonical_name e')"

lemma names_agree_Cons:
  assumes "names_agree es"
    and "\<And>e. e \<in> set es \<Longrightarrow> ie_pool_slug e = ie_pool_slug x \<Longrightarrow> ie_pool_canonical_name e = ie_pool_canonical_name x"
  shows "names_agree (x # es)"
  unfolding names_agree_def
proof (intro ballI impI)
  fix e e'
  assume "e \<in> set (x # es)" "e' \<in> set (x # es)" "ie_pool_slug e = ie_pool_slug e'"
  then show "ie_pool_canonical_name e = ie_pool_canonical_name e'"
    using assms(1) [unfolded names_agree_def] assms(2) [of e] assms(2) [of e'] by (metis set_ConsD)
qed

lemma check_identities_Inr:
  "check_identities field validator key entries owners canonical = Inr () \<Longrightarrow>
    distinct (map (\<lambda>e. key (ie_identifier e)) entries) \<and>
    (\<forall>e \<in> set entries. key (ie_identifier e) \<notin> dom owners \<and> validator (ie_identifier e) = Inr () \<and>
       canonical (ie_pool_slug e) \<in> {None, Some (ie_pool_canonical_name e)}) \<and> names_agree entries"
proof (induction entries arbitrary: owners canonical)
  case Nil
  then show ?case by (simp add: names_agree_def)
next
  case (Cons x xs)
  let ?can = "if canonical (ie_pool_slug x) = None
    then canonical(ie_pool_slug x \<mapsto> ie_pool_canonical_name x) else canonical"
  have x: "owners (key (ie_identifier x)) = None" "validator (ie_identifier x) = Inr ()"
      "canonical (ie_pool_slug x) \<in> {None, Some (ie_pool_canonical_name x)}"
    and rest: "check_identities field validator key xs (owners(key (ie_identifier x) \<mapsto> ie_pool_slug x)) ?can = Inr ()"
    using Cons.prems
    by (auto simp: rbind_eq_Inr Let_def split: option.split_asm sum.split_asm if_split_asm)
  have can: "?can (ie_pool_slug x) = Some (ie_pool_canonical_name x)"
    "\<And>sl. canonical sl \<noteq> None \<Longrightarrow> ?can sl = canonical sl"
    using x(3) by auto
  from Cons.IH [OF rest] have d: "distinct (map (\<lambda>e. key (ie_identifier e)) xs)"
    and agree: "names_agree xs"
    and each: "\<And>e. e \<in> set xs \<Longrightarrow> key (ie_identifier e) \<noteq> key (ie_identifier x) \<and>
      key (ie_identifier e) \<notin> dom owners \<and> validator (ie_identifier e) = Inr () \<and>
      ?can (ie_pool_slug e) \<in> {None, Some (ie_pool_canonical_name e)}"
    by (simp_all only: dom_fun_upd option.distinct if_False Un_iff insert_iff de_Morgan_disj not_False_eq_True)
  have "names_agree (x # xs)"
  proof (rule names_agree_Cons [OF agree])
    fix e assume "e \<in> set xs" "ie_pool_slug e = ie_pool_slug x"
    with each [OF this(1)] can(1) show "ie_pool_canonical_name e = ie_pool_canonical_name x" by simp
  qed
  moreover have "canonical (ie_pool_slug e) \<in> {None, Some (ie_pool_canonical_name e)}" if "e \<in> set xs" for e
    using each [OF that] can(2) [of "ie_pool_slug e"] by (cases "canonical (ie_pool_slug e)") simp_all
  moreover have "key (ie_identifier x) \<notin> (\<lambda>e. key (ie_identifier e)) ` set xs"
    using each by (metis imageE)
  ultimately show ?case using d each x by (simp add: domIff)
qed

lemma from_rsk_registry_facts:
  assumes "from_rsk_registry g = Inr r"
  shows "ir_rsk r = g" and "distinct (map (\<lambda>e. normalize_rsk_address (me_miner_address e)) (mr_entries g))"
    and "\<And>e e'. e \<in> set (mr_entries g) \<Longrightarrow> e' \<in> set (mr_entries g) \<Longrightarrow> me_pool_slug e = me_pool_slug e' \<Longrightarrow>
      me_pool_canonical_name e = me_pool_canonical_name e'"
    and "\<And>e. e \<in> set (mr_entries g) \<Longrightarrow> validate_rsk_miner_address_format (me_miner_address e) = Inr ()"
    and "ir_rsk_by_address r = foldl (\<lambda>m (i, e). m(normalize_rsk_address (me_miner_address e) \<mapsto> i))
      Map.empty (enumerate 0 (mr_entries g))"
proof -
  have v: "validate_rsk_registry g = Inr ()" using assms by (auto simp: from_rsk_registry_def result_simps)
  then have "check_identities ''miner_address'' validate_rsk_miner_address_format normalize_rsk_address
      (map rsk_registry_entry (mr_entries g)) Map.empty Map.empty = Inr ()"
    by (auto simp: validate_rsk_registry_def validate_identity_registry_def split: sum.splits if_splits)
  note C = check_identities_Inr [OF this]
  show "distinct (map (\<lambda>e. normalize_rsk_address (me_miner_address e)) (mr_entries g))"
    using C by (simp add: rsk_registry_entry_def comp_def)
  have mem: "rsk_registry_entry e \<in> set (map rsk_registry_entry (mr_entries g))" if "e \<in> set (mr_entries g)" for e
    using that by simp
  show "me_pool_canonical_name e = me_pool_canonical_name e'"
    if "e \<in> set (mr_entries g)" "e' \<in> set (mr_entries g)" "me_pool_slug e = me_pool_slug e'" for e e'
    using C [THEN conjunct2, THEN conjunct2, unfolded names_agree_def, rule_format, OF mem mem, OF that(1,2)] that(3)
    by (simp add: rsk_registry_entry_def)
  show "validate_rsk_miner_address_format (me_miner_address e) = Inr ()" if "e \<in> set (mr_entries g)" for e
    using C [THEN conjunct2, THEN conjunct1, rule_format, OF mem, OF that] by (simp add: rsk_registry_entry_def)
  show "ir_rsk r = g" "ir_rsk_by_address r = foldl (\<lambda>m (i, e). m(normalize_rsk_address (me_miner_address e) \<mapsto> i))
      Map.empty (enumerate 0 (mr_entries g))"
    using assms v by (auto simp: from_rsk_registry_def)
qed

definition registry_ok :: "pool_identity_registry \<Rightarrow> bool" where
  "registry_ok r \<longleftrightarrow> from_rsk_registry (ir_rsk r) = Inr r"

interpretation rsk: owner_index registry_ok "\<lambda>r. mr_entries (ir_rsk r)"
    "\<lambda>e. [normalize_rsk_address (me_miner_address e)]" ir_rsk_by_address
proof
  fix r k i
  assume "registry_ok r"
  then have F: "from_rsk_registry (ir_rsk r) = Inr r" by (simp add: registry_ok_def)
  let ?xs = "mr_entries (ir_rsk r)" and ?key = "\<lambda>e. normalize_rsk_address (me_miner_address e)"
  have "map ?key (map snd (enumerate 0 ?xs)) = map ?key ?xs"
    by (rule arg_cong [of _ _ "map ?key"]) (rule map_snd_enumerate)
  then have d: "distinct (map (\<lambda>x. ?key (snd x)) (enumerate 0 ?xs))"
    using from_rsk_registry_facts(2) [OF F] unfolding map_map comp_def by simp
  have upd: "(\<lambda>m (i, e). m(?key e \<mapsto> i)) = (\<lambda>(m :: string \<rightharpoonup> nat) x. m(?key (snd x) \<mapsto> fst x))"
    by (intro ext) (simp split: prod.splits)
  have "ir_rsk_by_address r = foldl (\<lambda>m x. m(?key (snd x) \<mapsto> fst x)) Map.empty (enumerate 0 ?xs)"
    using from_rsk_registry_facts(5) [OF F] unfolding upd .
  moreover have "(\<exists>x \<in> set (enumerate 0 ?xs). ?key (snd x) = k \<and> fst x = i) \<longleftrightarrow>
      i < length ?xs \<and> k \<in> set [?key (?xs ! i)]"
    unfolding Bex_def split_paired_Ex by (auto simp: in_set_enumerate_eq)
  ultimately show "ir_rsk_by_address r k = Some i \<longleftrightarrow> i < length ?xs \<and> k \<in> set [?key (?xs ! i)]"
    using foldl_upd_Some [OF d, of fst Map.empty k i] by simp
qed

text \<open>An RSK miner address resolves to a registry entry exactly when both normalize to the same
  address: surrounding white space, ASCII case and one leading 0x do not matter, and validation
  makes the entry unique.\<close>

theorem rsk_miner_resolves:
  assumes "from_rsk_registry g = Inr r"
  shows "resolve_rsk_miner r address = Some e \<longleftrightarrow>
    e \<in> set (mr_entries g) \<and> normalize_rsk_address (me_miner_address e) = normalize_rsk_address address"
proof -
  have g: "ir_rsk r = g" by (rule from_rsk_registry_facts(1) [OF assms])
  then have "registry_ok r" using assms by (simp add: registry_ok_def)
  from rsk.lookup_entry [OF this, of "normalize_rsk_address address" e] show ?thesis
    by (auto simp: resolve_rsk_miner_def Let_def g)
qed

lemma distinct_definitions_loop_spec:
  assumes "set seen = fst ` set order" and "distinct (map fst order)"
  shows "distinct (map fst (distinct_definitions_loop es seen order)) \<and>
    set order \<subseteq> set (distinct_definitions_loop es seen order) \<and>
    set (distinct_definitions_loop es seen order) \<subseteq>
      set order \<union> (\<lambda>e. (ie_pool_slug e, ie_pool_canonical_name e)) ` set es \<and>
    fst ` set (distinct_definitions_loop es seen order) = fst ` set order \<union> ie_pool_slug ` set es"
  using assms
proof (induction es seen order rule: distinct_definitions_loop.induct)
  case (2 entry entries seen order)
  show ?case
  proof (cases "ie_pool_slug entry \<in> set seen")
    case True
    with 2 show ?thesis by auto
  next
    case False
    with 2 show ?thesis by (auto simp: image_Un)
  qed
qed simp

text \<open>The pool definitions of a validated RSK registry name every slug of the registry once, with
  the canonical name all its entries agree on.\<close>

theorem rsk_pool_definitions:
  assumes "from_rsk_registry g = Inr r"
  shows "distinct (map fst (rsk_distinct_pool_definitions r)) \<and>
    set (rsk_distinct_pool_definitions r) = (\<lambda>e. (me_pool_slug e, me_pool_canonical_name e)) ` set (mr_entries g)"
proof -
  let ?es = "map rsk_registry_entry (mr_entries g)"
  let ?ds = "distinct_definitions_loop ?es [] []"
  have defs: "rsk_distinct_pool_definitions r = ?ds"
    by (simp add: rsk_distinct_pool_definitions_def distinct_pool_definitions_def from_rsk_registry_facts(1) [OF assms])
  note S = distinct_definitions_loop_spec [of "[]" "[]" ?es, simplified]
  have sub: "set ?ds \<subseteq> (\<lambda>e. (me_pool_slug e, me_pool_canonical_name e)) ` set (mr_entries g)"
    and slugs: "fst ` set ?ds = me_pool_slug ` set (mr_entries g)"
    using S by (auto simp: rsk_registry_entry_def image_comp comp_def)
  have "(me_pool_slug e, me_pool_canonical_name e) \<in> set ?ds" if e: "e \<in> set (mr_entries g)" for e
  proof -
    have "me_pool_slug e \<in> fst ` set ?ds" using slugs e by blast
    then obtain n where n: "(me_pool_slug e, n) \<in> set ?ds" by auto
    then obtain e' where "e' \<in> set (mr_entries g)" "me_pool_slug e' = me_pool_slug e" "me_pool_canonical_name e' = n"
      using sub by auto
    with from_rsk_registry_facts(3) [OF assms this(1) e] n show ?thesis by simp
  qed
  with sub S show ?thesis unfolding defs by blast
qed

section \<open>A concrete snapshot and registry\<close>

definition demo_source :: pool_snapshot_source where
  "demo_source = \<lparr>ss_name = ''s'', ss_upstream_url = None, ss_license = None, ss_notes = None\<rparr>"

definition demo_pool_a :: pool_record where
  "demo_pool_a = \<lparr>pr_slug = ''a'', pr_source_id = None, pr_canonical_name = ''A'', pr_coinbase_tags = [''/P/''],
     pr_payout_addresses = [''1a ''], pr_link = None\<rparr>"

definition demo_pool_b :: pool_record where
  "demo_pool_b = \<lparr>pr_slug = ''b'', pr_source_id = None, pr_canonical_name = ''B'', pr_coinbase_tags = [''b/P/''],
     pr_payout_addresses = [], pr_link = None\<rparr>"

definition demo_snapshot :: pool_snapshot where
  "demo_snapshot = \<lparr>sn_schema_version = 1, sn_generated_at = [], sn_scope = [], sn_source = demo_source,
     sn_pools = [demo_pool_a, demo_pool_b]\<rparr>"

definition demo_resolver :: pool_resolver where
  "demo_resolver = \<lparr>rv_snapshot = demo_snapshot,
     rv_coinbase_tags = [\<lparr>te_tag = ''b/P/'', te_pool_index = 1\<rparr>, \<lparr>te_tag = ''/P/'', te_pool_index = 0\<rparr>],
     rv_payout_addresses = [''1a'' \<mapsto> 0]\<rparr>"

lemma demo_trims: "str_trim ''a'' = ''a''" "str_trim ''A'' = ''A''" "str_trim ''/P/'' = ''/P/''" "str_trim ''1a '' = ''1a''"
  "str_trim ''b'' = ''b''" "str_trim ''B'' = ''B''" "str_trim ''b/P/'' = ''b/P/''"
  by code_simp+

lemma demo_snapshot_resolver: "from_snapshot demo_snapshot = Inr demo_resolver"
proof -
  have v: "validate_snapshot demo_snapshot = Inr ()"
    by (simp add: validate_snapshot_def demo_snapshot_def demo_pool_a_def demo_pool_b_def validate_non_empty_def
        Let_def demo_trims)
  have rows: "index_rows pr_coinbase_tags (sn_pools demo_snapshot) = [(''/P/'', 0), (''b/P/'', 1)]"
    "index_rows pr_payout_addresses (sn_pools demo_snapshot) = [(''1a '', 0)]"
    by (simp_all add: index_rows_def demo_snapshot_def demo_pool_a_def demo_pool_b_def)
  show ?thesis
    unfolding from_snapshot_def v rows Let_def rbind_Inr demo_resolver_def
    by (simp add: demo_trims less_eq_prod_def)
qed

theorem coinbase_tag_most_specific_witness:
  "pm_matched_value (the (resolve_coinbase_script demo_resolver (as_bytes ''xb/P/y''))) = ''b/P/'' \<and>
   (length ''/P/'' < length ''b/P/'' \<or> (length ''/P/'' = length ''b/P/'' \<and> ''b/P/'' \<le> ''/P/''))"
proof -
  have r: "resolve_coinbase_script demo_resolver (as_bytes ''xb/P/y'') =
      Some \<lparr>pm_pool = demo_pool_b, pm_matched_by = CoinbaseTag, pm_matched_value = ''b/P/''\<rparr>"
    by code_simp
  have shorter: "demo_pool_a \<in> set (sn_pools demo_snapshot)" "''/P/'' \<in> set (pr_coinbase_tags demo_pool_a)"
    "contains_bytes (as_bytes ''xb/P/y'') (as_bytes ''/P/'')"
    by (simp_all add: demo_snapshot_def demo_pool_a_def) code_simp
  from coinbase_tag_most_specific [OF demo_snapshot_resolver, of "as_bytes ''xb/P/y''"] r shorter show ?thesis
    by fastforce
qed

theorem payout_address_owner_witness:
  "resolve_payout_address demo_resolver '' 1a'' =
     Some \<lparr>pm_pool = demo_pool_a, pm_matched_by = PayoutAddress, pm_matched_value = ''1a''\<rparr>"
proof -
  have "str_trim '' 1a'' = ''1a''" by code_simp
  then show ?thesis
    unfolding payout_address_owner [OF demo_snapshot_resolver]
    by (simp add: demo_snapshot_def demo_pool_a_def demo_trims)
qed

definition demo_miner :: rsk_miner_entry where
  "demo_miner = \<lparr>me_miner_address = ''0x00000000000000000000000000000000000000aB'', me_pool_slug = ''a'',
     me_pool_canonical_name = ''A''\<rparr>"

definition demo_registry :: rsk_miner_registry where
  "demo_registry = \<lparr>mr_schema_version = 1, mr_generated_at = [], mr_scope = [], mr_source = demo_source,
     mr_entries = [demo_miner]\<rparr>"

lemma demo_miner_normal:
  "normalize_rsk_address ''0x00000000000000000000000000000000000000aB'' = ''00000000000000000000000000000000000000ab''"
  "normalize_rsk_address ''00000000000000000000000000000000000000Ab '' = ''00000000000000000000000000000000000000ab''"
  by code_simp+

lemma demo_registry_valid: "\<exists>r. from_rsk_registry demo_registry = Inr r"
proof -
  have "validate_rsk_registry demo_registry = Inr ()" by code_simp
  then show ?thesis by (simp add: from_rsk_registry_def)
qed

theorem rsk_miner_resolves_witness:
  "\<exists>r. from_rsk_registry demo_registry = Inr r \<and>
     resolve_rsk_miner r ''00000000000000000000000000000000000000Ab '' = Some demo_miner"
proof -
  obtain r where r: "from_rsk_registry demo_registry = Inr r" using demo_registry_valid by blast
  show ?thesis
    using r rsk_miner_resolves [OF r, of "''00000000000000000000000000000000000000Ab ''" demo_miner] demo_miner_normal
    by (simp add: demo_registry_def demo_miner_def)
qed

theorem rsk_pool_definitions_witness:
  "\<exists>r. from_rsk_registry demo_registry = Inr r \<and> set (rsk_distinct_pool_definitions r) = {(''a'', ''A'')}"
proof -
  obtain r where r: "from_rsk_registry demo_registry = Inr r" using demo_registry_valid by blast
  with rsk_pool_definitions [OF r] show ?thesis by (simp add: demo_registry_def demo_miner_def)
qed


end
