(* ===== verification/Text_Lib.thy ===== *)
theory Text_Lib
  imports Prelude
begin

text \<open>
  The string functions of the Rust standard library that the capture sources call (\<open>split\<close>,
  \<open>split_once\<close>, \<open>lines\<close>, \<open>starts_with\<close>, \<open>str::parse::<i32>\<close>), hexadecimal decoding, and the
  values of \<open>serde_json\<close>.
\<close>

section \<open>Splitting\<close>

fun str_split :: "(char \<Rightarrow> bool) \<Rightarrow> string \<Rightarrow> string list" where
  "str_split p [] = [[]]"
| "str_split p (c # s) =
     (if p c then [] # str_split p s
      else case str_split p s of [] \<Rightarrow> [[c]] | w # ws \<Rightarrow> (c # w) # ws)"

fun str_split_once :: "char \<Rightarrow> string \<Rightarrow> (string \<times> string) option" where
  "str_split_once d [] = None"
| "str_split_once d (c # s) =
     (if c = d then Some ([], s) else map_option (\<lambda>(l, r). (c # l, r)) (str_split_once d s))"

definition str_starts_with :: "string \<Rightarrow> string \<Rightarrow> bool" where
  "str_starts_with s p \<longleftrightarrow> take (length p) s = p"

text \<open>\<open>str::lines\<close>: split after newlines, drop one carriage return before each and the empty rest.\<close>

definition drop_cr :: "string \<Rightarrow> string" where
  "drop_cr s = (if s \<noteq> [] \<and> last s = CHR 0x0D then butlast s else s)"

definition str_lines :: "string \<Rightarrow> string list" where
  "str_lines s =
     (let parts = str_split (\<lambda>c. c = CHR 0x0A) s;
          body = map drop_cr (butlast parts)
      in if last parts = [] then body else body @ [last parts])"

lemma str_split_nonempty [simp]: "str_split p s \<noteq> []"
  by (cases s) (auto split: list.splits)

lemma str_split_no_delimiter: "w \<in> set (str_split p s) \<Longrightarrow> c \<in> set w \<Longrightarrow> \<not> p c"
proof (induction s arbitrary: w)
  case (Cons x s)
  show ?case
  proof (cases "p x")
    case True
    with Cons show ?thesis by auto
  next
    case False
    obtain v vs where v: "str_split p s = v # vs" by (cases "str_split p s") auto
    show ?thesis using Cons.IH [of v] Cons.IH [of w] Cons.prems False by (auto simp: v)
  qed
qed simp

lemma str_split_once_Some:
  "str_split_once d s = Some (l, r) \<longleftrightarrow> s = l @ d # r \<and> d \<notin> set l"
proof (induction s arbitrary: l)
  case (Cons c s)
  then show ?case by (cases l) auto
qed simp

section \<open>Numbers and hexadecimal\<close>

definition is_digit :: "char \<Rightarrow> bool" where
  "is_digit c \<longleftrightarrow> 48 \<le> (of_char c :: nat) \<and> of_char c \<le> (57 :: nat)"

definition digits_value :: "string \<Rightarrow> int" where
  "digits_value ds = foldl (\<lambda>v d. 10 * v + (of_char d - 48)) 0 ds"

text \<open>\<open>str::parse::<i32>\<close>: an optional sign, at least one digit, in range.\<close>

definition parse_i32 :: "string \<Rightarrow> int option" where
  "parse_i32 s =
     (let (sign, ds) = (case s of c # cs \<Rightarrow> if c = CHR ''-'' then (-1, cs) else if c = CHR ''+'' then (1, cs) else (1, s)
                        | [] \<Rightarrow> (1, [])) in
      if ds \<noteq> [] \<and> list_all is_digit ds then checked_i32 (sign * digits_value ds) else None)"

definition hex_value :: "char \<Rightarrow> nat option" where
  "hex_value c =
     (let n = of_char c in
      if 48 \<le> n \<and> n \<le> 57 then Some (n - 48)
      else if 97 \<le> n \<and> n \<le> 102 then Some (n - 87)
      else if 65 \<le> n \<and> n \<le> 70 then Some (n - 55)
      else None)"

fun hex_decode :: "string \<Rightarrow> bytes option" where
  "hex_decode [] = Some []"
| "hex_decode (a # b # s) =
     (case (hex_value a, hex_value b, hex_decode s) of
        (Some h, Some l, Some bs) \<Rightarrow> Some (word_of_nat (16 * h + l) # bs) | _ \<Rightarrow> None)"
| "hex_decode [_] = None"

definition hex_digit :: "nat \<Rightarrow> char" where
  "hex_digit n = ''0123456789abcdef'' ! n"

definition hex_encode :: "bytes \<Rightarrow> string" where
  "hex_encode bs = concat (map (\<lambda>b. [hex_digit (unat b div 16), hex_digit (unat b mod 16)]) bs)"

lemma hex_value_digit: "n < 16 \<Longrightarrow> hex_value (hex_digit n) = Some n"
proof -
  have "list_all (\<lambda>n. hex_value (hex_digit n) = Some n) [0..<16]" by code_simp
  then show "n < 16 \<Longrightarrow> ?thesis" by (simp add: list_all_iff)
qed

lemma hex_decode_encode: "hex_decode (hex_encode bs) = Some bs"
proof (induction bs)
  case (Cons b bs)
  have "unat b < 256" using unsigned_less [of b] by simp
  then have "hex_value (hex_digit (unat b div 16)) = Some (unat b div 16)"
    "hex_value (hex_digit (unat b mod 16)) = Some (unat b mod 16)" by (simp_all add: hex_value_digit)
  moreover have "word_of_nat (16 * (unat b div 16) + unat b mod 16) = b" by (simp add: mult.commute)
  ultimately show ?case using Cons by (simp add: hex_encode_def)
qed (simp add: hex_encode_def)

section \<open>JSON values\<close>

text \<open>
  A \<open>serde_json::Value\<close>; an object is the list of its members sorted by key, as its ordered map
  stores them.  \<open>JInt\<close> is a number that fits \<open>i64\<close> or \<open>u64\<close>, \<open>JFloat\<close> any other.
\<close>

datatype json =
    JNull | JBool bool | JInt int | JFloat string | JString string
  | JArray "json list" | JObject "(string \<times> json) list"

definition json_as_str :: "json \<Rightarrow> string option" where
  "json_as_str v = (case v of JString s \<Rightarrow> Some s | _ \<Rightarrow> None)"

definition json_as_i64 :: "json \<Rightarrow> int option" where
  "json_as_i64 v = (case v of JInt n \<Rightarrow> if i64_ok n then Some n else None | _ \<Rightarrow> None)"

definition json_as_array :: "json \<Rightarrow> json list option" where
  "json_as_array v = (case v of JArray vs \<Rightarrow> Some vs | _ \<Rightarrow> None)"

definition json_get :: "json \<Rightarrow> string \<Rightarrow> json option" where
  "json_get v key = (case v of JObject members \<Rightarrow> map_of members key | _ \<Rightarrow> None)"

end
