(* ===== verification/Child_Payout.thy ===== *)
theory Child_Payout
  imports Bitcoin_Lib Text_Lib
begin

text \<open>
  \<open>crates/mmm-capture/src/child_payout.rs\<close>: child payout addresses in the child chain's own
  formats.  The script predicates and the address encoders of the Bitcoin library are the fields
  of the parameter record \<open>address_lib\<close>.
\<close>

section \<open>The script and address library\<close>

record address_lib =
  is_p2pkh :: "bytes \<Rightarrow> bool"
  is_p2sh :: "bytes \<Rightarrow> bool"
  witness_version :: "bytes \<Rightarrow> nat option"
  base58_encode_check :: "bytes \<Rightarrow> string"
  segwit_encode :: "string \<Rightarrow> nat \<Rightarrow> bytes \<Rightarrow> string option"
  address_from_str :: "string \<Rightarrow> string option option"

text \<open>The lengths of the standard scripts, which make the slices of the formatter in range.\<close>

definition address_lib_ok :: "address_lib \<Rightarrow> bool" where
  "address_lib_ok A \<longleftrightarrow>
     (\<forall>s. is_p2pkh A s \<longrightarrow> length s = 25) \<and> (\<forall>s. is_p2sh A s \<longrightarrow> length s = 23) \<and>
     (\<forall>s. witness_version A s \<noteq> None \<longrightarrow> 4 \<le> length s \<and> length s \<le> 42)"

section \<open>Chain parameters\<close>

record child_payout_params =
  cp_namespace :: string
  cp_p2pkh_version :: "u8 option"
  cp_p2sh_version :: "u8 option"
  cp_bech32_hrp :: string
  cp_witness_program :: "(nat \<times> nat) option"

definition accepts_witness_program :: "child_payout_params \<Rightarrow> nat \<Rightarrow> nat \<Rightarrow> bool" where
  "accepts_witness_program params version len =
     (case cp_witness_program params of None \<Rightarrow> True | Some expected \<Rightarrow> expected = (version, len))"

definition namecoin_child_payout_params :: child_payout_params where
  "namecoin_child_payout_params =
     \<lparr>cp_namespace = ''namecoin_payout_address'', cp_p2pkh_version = Some 52, cp_p2sh_version = Some 13,
      cp_bech32_hrp = ''nc'', cp_witness_program = None\<rparr>"

definition syscoin_child_payout_params :: child_payout_params where
  "syscoin_child_payout_params =
     \<lparr>cp_namespace = ''syscoin_payout_address'', cp_p2pkh_version = Some 63, cp_p2sh_version = Some 5,
      cp_bech32_hrp = ''sys'', cp_witness_program = None\<rparr>"

definition fractal_child_reward_params :: child_payout_params where
  "fractal_child_reward_params =
     \<lparr>cp_namespace = ''fractal_reward_address'', cp_p2pkh_version = Some 0, cp_p2sh_version = Some 5,
      cp_bech32_hrp = ''bc'', cp_witness_program = None\<rparr>"

definition qbit_child_payout_params :: child_payout_params where
  "qbit_child_payout_params =
     \<lparr>cp_namespace = ''qbit_payout_address'', cp_p2pkh_version = None, cp_p2sh_version = None,
      cp_bech32_hrp = ''qb'', cp_witness_program = Some (2, 32)\<rparr>"

definition params_for_source_code :: "string \<Rightarrow> child_payout_params option" where
  "params_for_source_code source_code =
     (if source_code = ''auxpow:namecoin'' then Some namecoin_child_payout_params
      else if source_code = ''auxpow:syscoin'' then Some syscoin_child_payout_params
      else if source_code = ''auxpow:fractal'' then Some fractal_child_reward_params
      else if source_code = ''auxpow:qbit'' then Some qbit_child_payout_params
      else None)"

datatype child_payout_confidence = PayoutHigh | PayoutMedium

record pool_identity_ref =
  pi_pool_id :: int
  pi_pool_identity_id :: int
  pi_payout_confidence :: child_payout_confidence

type_synonym pool_identity_lookup = "string \<times> string \<rightharpoonup> pool_identity_ref"

definition pool_identity_lookup_key :: "string \<Rightarrow> string \<Rightarrow> string \<times> string" where
  "pool_identity_lookup_key namespace identifier = (namespace, identifier)"

section \<open>Formatting\<close>

definition base58_address :: "address_lib \<Rightarrow> u8 \<Rightarrow> bytes \<Rightarrow> string" where
  "base58_address A version payload = base58_encode_check A (version # payload)"

definition format_child_script_address :: "address_lib \<Rightarrow> bytes \<Rightarrow> child_payout_params \<Rightarrow> string option" where
  "format_child_script_address A script params =
     (if is_p2pkh A script then map_option (\<lambda>version. base58_address A version (slice script 3 23)) (cp_p2pkh_version params)
      else if is_p2sh A script then map_option (\<lambda>version. base58_address A version (slice script 2 22)) (cp_p2sh_version params)
      else case witness_version A script of
          Some version \<Rightarrow>
            let program = drop 2 script in
            if \<not> accepts_witness_program params version (length program) then None
            else segwit_encode A (cp_bech32_hrp params) version program
        | None \<Rightarrow> None)"

text \<open>The loop that pushes each address not yet in the list.\<close>

definition push_new :: "'a list \<Rightarrow> 'a \<Rightarrow> 'a list" where
  "push_new xs x = (if List.member xs x then xs else xs @ [x])"

definition child_output_addresses :: "address_lib \<Rightarrow> txout list \<Rightarrow> child_payout_params \<Rightarrow> string list" where
  "child_output_addresses A outputs params =
     foldl (\<lambda>addresses output.
       case format_child_script_address A (o_script_pubkey output) params of
         Some address \<Rightarrow> push_new addresses address
       | None \<Rightarrow> addresses) [] outputs"

section \<open>Deduplication\<close>

lemma distinct_push_new [simp]: "distinct xs \<Longrightarrow> distinct (push_new xs x)"
  by (simp add: push_new_def)

lemma set_push_new [simp]: "set (push_new xs x) = insert x (set xs)"
  by (auto simp: push_new_def)

lemma foldl_push_new:
  assumes "distinct acc"
  shows "distinct (foldl (\<lambda>as o'. case f o' of Some a \<Rightarrow> push_new as a | None \<Rightarrow> as) acc xs) \<and>
    set (foldl (\<lambda>as o'. case f o' of Some a \<Rightarrow> push_new as a | None \<Rightarrow> as) acc xs) =
      set acc \<union> {a. \<exists>x \<in> set xs. f x = Some a}"
  using assms by (induction xs arbitrary: acc) (auto split: option.splits)

lemma child_output_addresses_distinct: "distinct (child_output_addresses A outputs params)"
  and set_child_output_addresses: "set (child_output_addresses A outputs params) =
    {a. \<exists>out \<in> set outputs. format_child_script_address A (o_script_pubkey out) params = Some a}"
  using foldl_push_new [of "[]" "\<lambda>out. format_child_script_address A (o_script_pubkey out) params" outputs]
  by (simp_all add: child_output_addresses_def)

end
