(* ===== verification/Capture.thy ===== *)
theory Capture
  imports AuxPow_Parse Pool_Resolver Child_Payout
begin

text \<open>
  \<open>crates/mmm-capture/src/capture/mod.rs\<close>, \<open>invalid_blocks.rs\<close> and \<open>core_coinbase.rs\<close>: building
  the \<open>merge_mining_event\<close> payload from evidence, the parent's kind from proof of work, external
  proof and the invalid-block catalogue, and the pool attributions of the parent and the child.
\<close>

section \<open>The invalid-block catalogue\<close>

record invalid_block =
  ib_height :: int
  ib_rejection_reason :: string

text \<open>The panics of \<open>parse_registry\<close>, with the line number they report.\<close>

datatype registry_panic =
    BadInvalidBlockHeight nat | BadInvalidBlockHash nat | BadInvalidBlockReason nat
  | BadInvalidBlockFieldCount nat | DuplicateInvalidBlock nat | InvalidBlockRegistryEmpty

definition parse_registry_line ::
  "(string \<Rightarrow> bytes option) \<Rightarrow> nat \<Rightarrow> string \<Rightarrow> (registry_panic, bytes \<times> invalid_block) result" where
  "parse_registry_line block_hash_from_str line_number line =
     (let fields = str_split (\<lambda>c. c = CHR '','') line in
      rbind (ok_or (BadInvalidBlockHeight (line_number + 1))
        (case Option.bind (get_at fields 0) parse_i32 of Some h \<Rightarrow> if 0 \<le> h then Some h else None | None \<Rightarrow> None)) (\<lambda>height.
      rbind (ok_or (BadInvalidBlockHash (line_number + 1)) (Option.bind (get_at fields 1) block_hash_from_str)) (\<lambda>hash.
      rbind (ok_or (BadInvalidBlockReason (line_number + 1))
        (case get_at fields 2 of Some r \<Rightarrow> if r \<noteq> [] then Some r else None | None \<Rightarrow> None)) (\<lambda>rejection_reason.
      ensure (get_at fields 3 = None) (BadInvalidBlockFieldCount (line_number + 1))
        (Inr (hash, \<lparr>ib_height = height, ib_rejection_reason = rejection_reason\<rparr>))))))"

text \<open>The hash map of entries, as its association list.\<close>

type_synonym invalid_catalogue = "(bytes \<times> invalid_block) list"

fun parse_registry_lines ::
  "(string \<Rightarrow> bytes option) \<Rightarrow> (nat \<times> string) list \<Rightarrow> invalid_catalogue \<Rightarrow>
     (registry_panic, invalid_catalogue) result" where
  "parse_registry_lines from_str [] entries = Inr entries"
| "parse_registry_lines from_str ((line_number, line) # lines) entries =
     (if line = [] \<or> str_starts_with line ''#'' \<or> line = ''height,hash,rejection_reason''
      then parse_registry_lines from_str lines entries
      else rbind (parse_registry_line from_str line_number line) (\<lambda>(hash, entry).
        ensure (map_of entries hash = None) (DuplicateInvalidBlock (line_number + 1))
          (parse_registry_lines from_str lines ((hash, entry) # entries))))"

definition parse_registry :: "(string \<Rightarrow> bytes option) \<Rightarrow> string \<Rightarrow> (registry_panic, invalid_catalogue) result" where
  "parse_registry block_hash_from_str invalid_blocks_csv =
     rbind (parse_registry_lines block_hash_from_str (enumerate 0 (str_lines invalid_blocks_csv)) []) (\<lambda>entries.
     ensure (entries \<noteq> []) InvalidBlockRegistryEmpty (Inr entries))"

text \<open>The parsed catalogue is a parameter of the capture functions.\<close>

definition invalid_block_lookup :: "invalid_catalogue \<Rightarrow> bytes \<Rightarrow> invalid_block option" where
  "invalid_block_lookup catalogue hash = (if length hash = 32 then map_of catalogue hash else None)"

section \<open>Parent classification\<close>

datatype parent_kind = Canonical | Stale | InvalidBlock | Near | Unknown

definition parent_kind_as_db_str :: "parent_kind \<Rightarrow> string" where
  "parent_kind_as_db_str k =
     (case k of Canonical \<Rightarrow> ''canonical'' | Stale \<Rightarrow> ''stale'' | InvalidBlock \<Rightarrow> ''invalid_block''
      | Near \<Rightarrow> ''near'' | Unknown \<Rightarrow> ''unknown'')"

record classification_proof =
  pf_parent_kind :: "parent_kind option"
  pf_parent_height :: "int option"
  pf_difficulty_epoch_ok :: "bool option"
  pf_provisional :: bool

definition classification_proof_default :: classification_proof where
  "classification_proof_default =
     \<lparr>pf_parent_kind = None, pf_parent_height = None, pf_difficulty_epoch_ok = None, pf_provisional = False\<rparr>"

datatype capture_error =
    NearProofConflict | ProofRequiresHeight | ChildHeightUnavailable | OutputsDeserialize

definition classify_parent :: "bool \<Rightarrow> parent_kind option \<Rightarrow> int option \<Rightarrow> (capture_error, parent_kind) result" where
  "classify_parent pow_validates_btc_target proven_kind proven_height =
     (if \<not> pow_validates_btc_target then Inr Near
      else case proven_kind of
          Some Near \<Rightarrow> Inl NearProofConflict
        | Some kind \<Rightarrow>
            if (kind = Canonical \<or> kind = Stale \<or> kind = InvalidBlock) \<and> proven_height = None
            then Inl ProofRequiresHeight else Inr kind
        | None \<Rightarrow> Inr Unknown)"

definition invalid_block_proof ::
  "invalid_catalogue \<Rightarrow> bytes \<Rightarrow> bool \<Rightarrow> classification_proof \<Rightarrow> parent_kind option \<times> int option" where
  "invalid_block_proof catalogue parent_hash pow_validates_btc_target proof =
     (case (if pow_validates_btc_target then invalid_block_lookup catalogue parent_hash else None) of
        Some invalid_block \<Rightarrow> (Some InvalidBlock, Some (ib_height invalid_block))
      | None \<Rightarrow>
          (let height = (case pf_parent_kind proof of
                 Some Canonical \<Rightarrow> pf_parent_height proof | Some Stale \<Rightarrow> pf_parent_height proof
               | Some InvalidBlock \<Rightarrow> pf_parent_height proof
               | Some Near \<Rightarrow> None | Some Unknown \<Rightarrow> None | None \<Rightarrow> None)
           in (pf_parent_kind proof, height)))"

section \<open>Pool attributions\<close>

datatype pool_attribution_side = BtcParent | ChildBlock

definition side_as_db_str :: "pool_attribution_side \<Rightarrow> string" where
  "side_as_db_str s = (case s of BtcParent \<Rightarrow> ''btc_parent'' | ChildBlock \<Rightarrow> ''child_block'')"

datatype pool_attribution_confidence = High | Medium | Low

definition confidence_as_db_str :: "pool_attribution_confidence \<Rightarrow> string" where
  "confidence_as_db_str c = (case c of High \<Rightarrow> ''high'' | Medium \<Rightarrow> ''medium'' | Low \<Rightarrow> ''low'')"

record event_pool_attribution =
  at_side :: pool_attribution_side
  at_namespace :: string
  at_match_kind :: string
  at_matched_value :: string
  at_pool_id :: "int option"
  at_pool_identity_id :: "int option"
  at_source :: string
  at_confidence :: pool_attribution_confidence
  at_details :: json

definition from_btc_pool_match ::
  "pool_attribution_side \<Rightarrow> pool_match \<Rightarrow> int option \<Rightarrow> string \<Rightarrow> event_pool_attribution" where
  "from_btc_pool_match side m pool_id source =
     (let (namespace, match_kind) = (case pm_matched_by m of
            CoinbaseTag \<Rightarrow> (''btc_coinbase_tag'', ''coinbase_tag'')
          | PayoutAddress \<Rightarrow> (''btc_payout_address'', ''payout_address'')) in
      \<lparr>at_side = side, at_namespace = namespace, at_match_kind = match_kind,
       at_matched_value = pm_matched_value m, at_pool_id = pool_id, at_pool_identity_id = None,
       at_source = source, at_confidence = High, at_details = JObject []\<rparr>)"

definition from_btc_parent_pool_match :: "pool_match \<Rightarrow> int \<Rightarrow> event_pool_attribution" where
  "from_btc_parent_pool_match m pool_id = from_btc_pool_match BtcParent m (Some pool_id) ''btc_pool_snapshot''"

definition from_legacy_child_pool_match :: "pool_match \<Rightarrow> int \<Rightarrow> event_pool_attribution" where
  "from_legacy_child_pool_match m pool_id =
     from_btc_pool_match ChildBlock m (Some pool_id) ''btc_pool_snapshot_legacy_child_script''"

definition rsk_miner_address :: "string \<Rightarrow> int option \<Rightarrow> int option \<Rightarrow> bool \<Rightarrow> event_pool_attribution" where
  "rsk_miner_address miner_address pool_id pool_identity_id mapped =
     \<lparr>at_side = ChildBlock, at_namespace = ''rsk_miner_address'', at_match_kind = ''miner_address'',
      at_matched_value = miner_address, at_pool_id = pool_id, at_pool_identity_id = pool_identity_id,
      at_source = (if mapped then ''rsk_miner_registry'' else ''rsk_rpc_miner''),
      at_confidence = High, at_details = JObject []\<rparr>"

definition child_payout_address ::
  "child_payout_params \<Rightarrow> string \<Rightarrow> pool_identity_ref option \<Rightarrow> event_pool_attribution" where
  "child_payout_address params address identity =
     \<lparr>at_side = ChildBlock, at_namespace = cp_namespace params, at_match_kind = ''payout_address'',
      at_matched_value = address, at_pool_id = map_option pi_pool_id identity,
      at_pool_identity_id = map_option pi_pool_identity_id identity,
      at_source = (if identity \<noteq> None then ''child_payout_registry'' else ''child_coinbase_output''),
      at_confidence = (case map_option pi_payout_confidence identity of Some PayoutHigh \<Rightarrow> High | _ \<Rightarrow> Medium),
      at_details = JObject [(''address_source'', JString ''child_coinbase_outputs'')]\<rparr>"

definition resolve_btc_pool_match_from_coinbase :: "bytes \<Rightarrow> string list \<Rightarrow> pool_resolver \<Rightarrow> pool_match option" where
  "resolve_btc_pool_match_from_coinbase script output_addrs resolver =
     (case resolve_coinbase_script resolver script of
        Some m \<Rightarrow> Some m
      | None \<Rightarrow> resolve_payout_addresses resolver output_addrs)"

definition resolve_parent_pool_attribution_from_coinbase ::
  "bytes \<Rightarrow> string list \<Rightarrow> pool_resolver \<Rightarrow> (string \<rightharpoonup> int) \<Rightarrow> event_pool_attribution option" where
  "resolve_parent_pool_attribution_from_coinbase script output_addrs resolver pool_ids_by_slug =
     Option.bind (resolve_btc_pool_match_from_coinbase script output_addrs resolver) (\<lambda>m.
       map_option (from_btc_parent_pool_match m) (pool_ids_by_slug (pr_slug (pm_pool m))))"

definition resolve_parent_pool_attribution_from_serialized_coinbase_outputs ::
  "bitcoin_lib \<Rightarrow> bytes \<Rightarrow> bytes option \<Rightarrow> pool_resolver \<Rightarrow> (string \<rightharpoonup> int) \<Rightarrow>
     (capture_error, event_pool_attribution option) result" where
  "resolve_parent_pool_attribution_from_serialized_coinbase_outputs L script serialized resolver pool_ids_by_slug =
     (case resolve_parent_pool_attribution_from_coinbase script [] resolver pool_ids_by_slug of
        Some attribution \<Rightarrow> Inr (Some attribution)
      | None \<Rightarrow>
          (case serialized of
             None \<Rightarrow> Inr None
           | Some outputs_bytes \<Rightarrow>
               rbind (ok_or OutputsDeserialize (deserialize_txouts L outputs_bytes)) (\<lambda>outputs.
                 Inr (resolve_parent_pool_attribution_from_coinbase script (output_addresses L outputs)
                        resolver pool_ids_by_slug))))"

definition resolve_child_pool_attribution_from_script ::
  "bytes option \<Rightarrow> pool_resolver \<Rightarrow> (string \<rightharpoonup> int) \<Rightarrow> event_pool_attribution option" where
  "resolve_child_pool_attribution_from_script script resolver pool_ids_by_slug =
     Option.bind (Option.bind script (resolve_coinbase_script resolver)) (\<lambda>m.
       map_option (from_legacy_child_pool_match m) (pool_ids_by_slug (pr_slug (pm_pool m))))"

definition resolve_child_payout_attributions ::
  "address_lib \<Rightarrow> txout list \<Rightarrow> child_payout_params \<Rightarrow> pool_identity_lookup option \<Rightarrow> event_pool_attribution list" where
  "resolve_child_payout_attributions A outputs params identities =
     map (\<lambda>address.
       let identity = Option.bind identities (\<lambda>ids. ids (pool_identity_lookup_key (cp_namespace params) address))
       in child_payout_address params address identity) (child_output_addresses A outputs params)"

definition resolve_event_pools_with_child_payout ::
  "address_lib \<Rightarrow> parsed_auxpow_block \<Rightarrow> pool_resolver \<Rightarrow> (string \<rightharpoonup> int) \<Rightarrow> child_payout_params option \<Rightarrow>
     pool_identity_lookup option \<Rightarrow> event_pool_attribution list" where
  "resolve_event_pools_with_child_payout A parsed resolver pool_ids_by_slug child_payout_params identities =
     (case resolve_parent_pool_attribution_from_coinbase (pb_parent_coinbase_script parsed)
             (pb_parent_coinbase_output_addresses parsed) resolver pool_ids_by_slug of
        Some attribution \<Rightarrow> [attribution] | None \<Rightarrow> []) @
     (case resolve_child_pool_attribution_from_script (pb_child_coinbase_script parsed) resolver pool_ids_by_slug of
        Some attribution \<Rightarrow> [attribution] | None \<Rightarrow> []) @
     (case child_payout_params of
        Some params \<Rightarrow> resolve_child_payout_attributions A (pb_child_coinbase_outputs parsed) params identities
      | None \<Rightarrow> [])"

text \<open>\<open>core_coinbase.rs\<close>: the pool of a Core block's own coinbase.\<close>

record core_coinbase_pool_resolution =
  cr_pool_id :: "int option"
  cr_corrupt_outputs :: bool

definition resolve_btc_pool_from_coinbase ::
  "bitcoin_lib \<Rightarrow> bytes \<Rightarrow> bytes option \<Rightarrow> pool_resolver \<Rightarrow> (string \<rightharpoonup> int) \<Rightarrow> core_coinbase_pool_resolution" where
  "resolve_btc_pool_from_coinbase L script serialized_outputs resolver pool_ids_by_slug =
     (case resolve_parent_pool_attribution_from_serialized_coinbase_outputs L script serialized_outputs
             resolver pool_ids_by_slug of
        Inr attribution \<Rightarrow> \<lparr>cr_pool_id = Option.bind attribution at_pool_id, cr_corrupt_outputs = False\<rparr>
      | Inl _ \<Rightarrow> \<lparr>cr_pool_id = None, cr_corrupt_outputs = True\<rparr>)"

section \<open>Published output text\<close>

definition published_parent_output_address :: "bitcoin_lib \<Rightarrow> address_lib \<Rightarrow> string \<Rightarrow> string option" where
  "published_parent_output_address L A candidate =
     (if candidate = [] then None
      else case address_from_str A candidate of
          Some address \<Rightarrow> address
        | None \<Rightarrow>
            if length candidate mod 2 \<noteq> 0 \<or> \<not> list_all is_ascii_hexdigit candidate then None
            else Option.bind (hex_decode candidate) (address_from_script L))"

definition published_parent_coinbase_output_addresses :: "bitcoin_lib \<Rightarrow> address_lib \<Rightarrow> string \<Rightarrow> string list" where
  "published_parent_coinbase_output_addresses L A value =
     foldl (\<lambda>addresses entry.
       if entry = [] \<or> str_starts_with entry ''OP_RETURN'' \<or> str_starts_with entry ''nonstandard:'' then addresses
       else let address =
              (case Option.bind (str_split_once (CHR '':'') entry) (\<lambda>(left, right).
                      case published_parent_output_address L A (str_trim left) of
                        Some a \<Rightarrow> Some a
                      | None \<Rightarrow> published_parent_output_address L A (str_trim right)) of
                 Some a \<Rightarrow> Some a
               | None \<Rightarrow> published_parent_output_address L A entry)
            in case address of None \<Rightarrow> addresses | Some a \<Rightarrow> push_new addresses a)
       [] (map str_trim (str_split (\<lambda>c. c = CHR '';'' \<or> c = CHR ''|'') value))"

section \<open>The rows of one event\<close>

text \<open>The columns of the table's uniqueness constraint, beside the event.\<close>

definition attribution_key :: "event_pool_attribution \<Rightarrow> pool_attribution_side \<times> string \<times> string" where
  "attribution_key r = (at_side r, at_namespace r, at_matched_value r)"

lemma from_btc_pool_match_fields [simp]:
  "at_side (from_btc_pool_match side m pid src) = side"
  "at_pool_id (from_btc_pool_match side m pid src) = pid"
  "at_pool_identity_id (from_btc_pool_match side m pid src) = None"
  "at_namespace (from_btc_pool_match side m pid src) =
     (case pm_matched_by m of CoinbaseTag \<Rightarrow> ''btc_coinbase_tag'' | PayoutAddress \<Rightarrow> ''btc_payout_address'')"
  by (simp_all add: from_btc_pool_match_def split: match_kind.splits)

lemma parent_row:
  assumes "resolve_parent_pool_attribution_from_coinbase s as resolver ids = Some r"
  shows "at_side r = BtcParent" and "at_pool_identity_id r = None"
  using assms
  by (auto simp: resolve_parent_pool_attribution_from_coinbase_def from_btc_parent_pool_match_def
      Option.bind_eq_Some_conv)

lemma child_script_row:
  assumes "resolve_child_pool_attribution_from_script s resolver ids = Some r"
  shows "at_side r = ChildBlock" and "at_namespace r = ''btc_coinbase_tag''" and "at_pool_identity_id r = None"
proof -
  obtain script m id where m: "resolve_coinbase_script resolver script = Some m"
    and r: "r = from_legacy_child_pool_match m id"
    using assms by (auto simp: resolve_child_pool_attribution_from_script_def Option.bind_eq_Some_conv)
  have "pm_matched_by m = CoinbaseTag"
    using m by (auto simp: resolve_coinbase_script_def dest!: find_map_in_set split: if_splits)
  then show "at_side r = ChildBlock" "at_namespace r = ''btc_coinbase_tag''" "at_pool_identity_id r = None"
    unfolding r by (simp_all add: from_legacy_child_pool_match_def)
qed

lemma payout_rows:
  fixes A outs params ids
  defines "rows \<equiv> resolve_child_payout_attributions A outs params ids"
  shows "map attribution_key rows =
      map (\<lambda>a. (ChildBlock, cp_namespace params, a)) (child_output_addresses A outs params)"
    and "r \<in> set rows \<Longrightarrow> at_pool_identity_id r \<noteq> None \<Longrightarrow> at_pool_id r \<noteq> None"
  by (auto simp: rows_def resolve_child_payout_attributions_def attribution_key_def
      child_payout_address_def Let_def)

lemma params_namespace:
  assumes "params_for_source_code code = Some params"
  shows "cp_namespace params \<noteq> ''btc_coinbase_tag''"
  using assms
  by (auto simp: params_for_source_code_def namecoin_child_payout_params_def syscoin_child_payout_params_def
      fractal_child_reward_params_def qbit_child_payout_params_def split: if_splits)

lemma distinct_map_const_pair: "distinct (map (\<lambda>a. (s, n, a)) xs) \<longleftrightarrow> distinct xs"
  by (auto simp: distinct_map inj_on_def)

lemma set_opt_row: "r \<in> set (case x of None \<Rightarrow> [] | Some r \<Rightarrow> [r]) \<longleftrightarrow> x = Some r"
  by (auto split: option.splits)

lemma distinct_short: "length xs \<le> 1 \<Longrightarrow> distinct xs"
  by (cases xs) auto

lemma three_groups_distinct:
  assumes "distinct (map attribution_key ys)" and "length ps \<le> 1" "length cs \<le> 1"
    and ps: "\<And>r. r \<in> set ps \<Longrightarrow> at_side r = BtcParent"
    and cs: "\<And>r. r \<in> set cs \<Longrightarrow> at_side r = ChildBlock \<and> at_namespace r = n"
    and ys: "\<And>r. r \<in> set ys \<Longrightarrow> at_side r = ChildBlock \<and> at_namespace r \<noteq> n"
  shows "distinct (map attribution_key (ps @ cs @ ys))"
proof -
  have "attribution_key r \<noteq> attribution_key s" if "r \<in> set ps" "s \<in> set (cs @ ys)" for r s
    using ps [OF that(1)] cs [of s] ys [of s] that(2) by (auto simp: attribution_key_def)
  moreover have "attribution_key r \<noteq> attribution_key s" if "r \<in> set cs" "s \<in> set ys" for r s
    using cs [OF that(1)] ys [OF that(2)] by (auto simp: attribution_key_def)
  moreover have "distinct (map attribution_key ps)" "distinct (map attribution_key cs)"
    using assms(2,3) by (simp_all add: distinct_short del: distinct_map)
  ultimately show ?thesis
    using assms(1) unfolding map_append distinct_append by (fastforce simp del: distinct_map)
qed

text \<open>C39: The attribution rows resolved for one event, with the payout parameters of any source, satisfy
  the two constraints of the table they are written to: no two rows share side, namespace and
  matched value, and no row names a pool identity without naming its pool.\<close>

theorem event_rows_satisfy_table:
  "distinct (map attribution_key
     (resolve_event_pools_with_child_payout A parsed resolver ids (params_for_source_code code) identities)) \<and>
   filter (\<lambda>r. at_pool_identity_id r \<noteq> None \<and> at_pool_id r = None)
     (resolve_event_pools_with_child_payout A parsed resolver ids (params_for_source_code code) identities) = []"
proof -
  let ?p = "resolve_parent_pool_attribution_from_coinbase (pb_parent_coinbase_script parsed)
    (pb_parent_coinbase_output_addresses parsed) resolver ids"
  let ?c = "resolve_child_pool_attribution_from_script (pb_child_coinbase_script parsed) resolver ids"
  let ?ys = "case params_for_source_code code of
      Some params \<Rightarrow> resolve_child_payout_attributions A (pb_child_coinbase_outputs parsed) params identities
    | None \<Rightarrow> []"
  have ys: "distinct (map attribution_key ?ys)"
    by (auto simp: payout_rows(1) distinct_map_const_pair child_output_addresses_distinct
        simp del: distinct_map split: option.splits)
  have ns: "at_side r = ChildBlock" "at_namespace r \<noteq> ''btc_coinbase_tag''"
      "at_pool_identity_id r = None \<or> at_pool_id r \<noteq> None" if "r \<in> set ?ys" for r
    using that params_namespace [of code]
    by (auto simp: resolve_child_payout_attributions_def child_payout_address_def Let_def split: option.splits)
  have rows: "resolve_event_pools_with_child_payout A parsed resolver ids (params_for_source_code code) identities =
      (case ?p of Some r \<Rightarrow> [r] | None \<Rightarrow> []) @ (case ?c of Some r \<Rightarrow> [r] | None \<Rightarrow> []) @ ?ys"
    by (simp add: resolve_event_pools_with_child_payout_def)
  have p: "at_side r = BtcParent" "at_pool_identity_id r = None" if "?p = Some r" for r
    using parent_row [OF that] .
  have c: "at_side r = ChildBlock \<and> at_namespace r = ''btc_coinbase_tag''" "at_pool_identity_id r = None" if "?c = Some r" for r
    using child_script_row [OF that] by simp_all
  have d: "distinct (map attribution_key ((case ?p of Some r \<Rightarrow> [r] | None \<Rightarrow> []) @ (case ?c of Some r \<Rightarrow> [r] | None \<Rightarrow> []) @ ?ys))"
    by (rule three_groups_distinct [OF ys, of _ _ "''btc_coinbase_tag''"]) (use p c ns in \<open>auto split: option.splits\<close>)
  have q: "at_pool_identity_id r = None \<or> at_pool_id r \<noteq> None"
    if r: "r \<in> set ((case ?p of Some r \<Rightarrow> [r] | None \<Rightarrow> []) @ (case ?c of Some r \<Rightarrow> [r] | None \<Rightarrow> []) @ ?ys)" for r
  proof -
    from r consider "?p = Some r" | "?c = Some r" | "r \<in> set ?ys"
      unfolding set_append Un_iff set_opt_row by blast
    then show ?thesis using p(2) c(2) ns(3) by cases blast+
  qed
  show ?thesis
    unfolding rows filter_empty_conv using d by (intro conjI ballI) (assumption, drule q, simp)
qed

text \<open>The pool of a Core coinbase is best effort: a tag match decides it whatever the stored outputs
  are; undecodable outputs are reported, and only when no tag match settled the pool; and without
  a resolvable tag the pool is the one that owns the first known payout address.\<close>

theorem core_coinbase_best_effort:
  "resolve_btc_pool_from_coinbase L script outputs resolver ids =
     (let tag = Option.bind (resolve_coinbase_script resolver script) (\<lambda>m. ids (pr_slug (pm_pool m)));
          decoded = (case outputs of None \<Rightarrow> Some [] | Some b \<Rightarrow> deserialize_txouts L b)
      in \<lparr>cr_pool_id =
            (if tag \<noteq> None then tag
             else if resolve_coinbase_script resolver script \<noteq> None then None
             else Option.bind decoded (\<lambda>outs. Option.bind (resolve_payout_addresses resolver (output_addresses L outs))
                    (\<lambda>m. ids (pr_slug (pm_pool m))))),
          cr_corrupt_outputs = (tag = None \<and> decoded = None)\<rparr>)"
proof (cases "Option.bind (resolve_coinbase_script resolver script) (\<lambda>m. ids (pr_slug (pm_pool m)))")
  case None
  then have "resolve_parent_pool_attribution_from_coinbase script [] resolver ids = None \<and>
      (\<forall>as. resolve_parent_pool_attribution_from_coinbase script as resolver ids =
        (if resolve_coinbase_script resolver script \<noteq> None then None
         else Option.bind (resolve_payout_addresses resolver as)
           (\<lambda>m. map_option (from_btc_parent_pool_match m) (ids (pr_slug (pm_pool m))))))"
    by (cases "resolve_coinbase_script resolver script")
      (auto simp: resolve_parent_pool_attribution_from_coinbase_def resolve_btc_pool_match_from_coinbase_def
        resolve_payout_addresses_def)
  with None show ?thesis
    by (auto simp: resolve_btc_pool_from_coinbase_def Let_def ok_or_def from_btc_parent_pool_match_def
        output_addresses_def resolve_payout_addresses_def resolve_parent_pool_attribution_from_serialized_coinbase_outputs_def
        split: option.splits Option.bind_splits)
next
  case (Some id)
  then have "\<exists>r. resolve_parent_pool_attribution_from_coinbase script [] resolver ids = Some r \<and> at_pool_id r = Some id"
    by (auto simp: resolve_parent_pool_attribution_from_coinbase_def resolve_btc_pool_match_from_coinbase_def
        from_btc_parent_pool_match_def Option.bind_eq_Some_conv)
  with Some show ?thesis
    by (auto simp: resolve_btc_pool_from_coinbase_def Let_def
        resolve_parent_pool_attribution_from_serialized_coinbase_outputs_def)
qed

section \<open>The catalogue as its rows\<close>

definition registry_data_line :: "string \<Rightarrow> bool" where
  "registry_data_line line \<longleftrightarrow>
     line \<noteq> [] \<and> \<not> str_starts_with line ''#'' \<and> line \<noteq> ''height,hash,rejection_reason''"

lemma parse_registry_lines_entries:
  assumes "parse_registry_lines from_str lines entries = Inr m"
  shows "map_of m h = Some ib \<longleftrightarrow> map_of entries h = Some ib \<or>
    (\<exists>(n, line) \<in> set lines. registry_data_line line \<and> parse_registry_line from_str n line = Inr (h, ib))"
  using assms
proof (induction from_str lines entries rule: parse_registry_lines.induct)
  case (2 from_str n line lines entries)
  show ?case
  proof (cases "registry_data_line line")
    case False
    with 2 show ?thesis by (auto simp: registry_data_line_def)
  next
    case True
    with 2(3) obtain hash entry where l: "parse_registry_line from_str n line = Inr (hash, entry)"
      and new: "map_of entries hash = None"
      and rest: "parse_registry_lines from_str lines ((hash, entry) # entries) = Inr m"
      by (auto simp: registry_data_line_def result_simps)
    have "map_of m h = Some ib \<longleftrightarrow> map_of ((hash, entry) # entries) h = Some ib \<or>
      (\<exists>(n, line) \<in> set lines. registry_data_line line \<and> parse_registry_line from_str n line = Inr (h, ib))"
      using True by (intro 2(2) rest) (auto simp: registry_data_line_def l)
    with True l new show ?thesis by auto
  qed
qed simp

lemma parse_registry_line_fields:
  assumes "parse_registry_line from_str n line = Inr (h, ib)"
  shows "0 \<le> ib_height ib \<and> ib_rejection_reason ib \<noteq> []"
  using assms
  by (auto simp: parse_registry_line_def Let_def result_simps ok_or_def split: option.splits if_splits)

text \<open>The invalid-block catalogue is exactly the data rows of its file: a hash is looked up as an
  entry precisely when some row that is not blank, a comment or the column header parses to it;
  loading fails on a repeated hash, so the entry is unique, and its height is not negative and its
  reason not empty.\<close>

theorem invalid_catalogue_is_its_rows:
  assumes "parse_registry from_str csv = Inr m"
  shows "(map_of m h = Some ib \<longleftrightarrow> (\<exists>(n, line) \<in> set (enumerate 0 (str_lines csv)).
      registry_data_line line \<and> parse_registry_line from_str n line = Inr (h, ib))) \<and>
    (map_of m h = Some ib \<longrightarrow> 0 \<le> ib_height ib \<and> ib_rejection_reason ib \<noteq> [])"
proof -
  have "parse_registry_lines from_str (enumerate 0 (str_lines csv)) [] = Inr m"
    using assms by (auto simp: parse_registry_def result_simps)
  from parse_registry_lines_entries [OF this, of h ib] show ?thesis
    by (auto dest: parse_registry_line_fields)
qed

definition demo_block_hash_from_str :: "string \<Rightarrow> bytes option" where
  "demo_block_hash_from_str s = (if s = ''ff'' then Some (replicate 32 255) else None)"

definition demo_invalid_block :: invalid_block where
  "demo_invalid_block = \<lparr>ib_height = 7, ib_rejection_reason = ''bad''\<rparr>"

lemma demo_catalogue_parses:
  "parse_registry demo_block_hash_from_str ''7,ff,bad'' = Inr [(replicate 32 255, demo_invalid_block)]"
  by code_simp

theorem invalid_catalogue_is_its_rows_witness:
  "(\<exists>(n, line) \<in> set (enumerate 0 (str_lines ''7,ff,bad'')). registry_data_line line \<and>
      parse_registry_line demo_block_hash_from_str n line = Inr (replicate 32 255, demo_invalid_block)) \<and>
   0 \<le> ib_height demo_invalid_block \<and> ib_rejection_reason demo_invalid_block \<noteq> []"
  using invalid_catalogue_is_its_rows [OF demo_catalogue_parses, of "replicate 32 255" demo_invalid_block]
  by simp

end
