(* ===== verification/Protocol_Commitment.thy ===== *)
theory Protocol_Commitment
  imports Bitcoin_Lib
begin

text \<open>
  \<open>crates/mmm-capture/src/protocol_commitment.rs\<close>: the CORE and exSat declarations among the
  outputs of a Bitcoin coinbase.  The lemmas show that the decoder accepts exactly the encodings
  of its payloads and that at most one CORE output is marked as the one the upstream parser reads.
  \<open>Script::is_op_return\<close> of the Bitcoin library is a parameter.
\<close>

section \<open>Constants and data\<close>

definition core_magic :: bytes where "core_magic = [0x43, 0x4F, 0x52, 0x45]"

definition exsat_magic :: bytes where "exsat_magic = [0x45, 0x58, 0x53, 0x41, 0x54]"

definition supported_version :: u8 where "supported_version = 1"

definition direct_magic_at :: nat where "direct_magic_at = 2"

definition core_header :: bytes where "core_header = [0x6A, 0x2D, 0x43, 0x4F, 0x52, 0x45, 0x01]"

definition core_script_len :: nat where "core_script_len = length core_header + 40"

definition core_with_binding_hash_len :: nat where "core_with_binding_hash_len = core_script_len + 32"

definition exsat_version_at :: nat where "exsat_version_at = direct_magic_at + length exsat_magic"

definition exsat_max_account_len :: nat where "exsat_max_account_len = 12"

definition exsat_alphabet :: string where "exsat_alphabet = ''abcdefghijklmnopqrstuvwxyz12345.''"

datatype commitment_protocol = Core | Exsat

definition protocol_as_db_str :: "commitment_protocol \<Rightarrow> string" where
  "protocol_as_db_str p = (case p of Core \<Rightarrow> ''core'' | Exsat \<Rightarrow> ''exsat'')"

datatype commitment_payload =
    CorePayload (core_validator: bytes) (core_reward_address: bytes) (core_binding_hash: "bytes option")
  | ExsatPayload (exsat_account: string)

datatype malformed_reason =
    WrongPushLength | NestedHeader | TrailingBytes | Truncated | AccountByteOutOfRange | InvalidAccount

definition malformed_as_db_str :: "malformed_reason \<Rightarrow> string" where
  "malformed_as_db_str r =
     (case r of WrongPushLength \<Rightarrow> ''wrong_push_length'' | NestedHeader \<Rightarrow> ''nested_header''
      | TrailingBytes \<Rightarrow> ''trailing_bytes'' | Truncated \<Rightarrow> ''truncated''
      | AccountByteOutOfRange \<Rightarrow> ''account_byte_out_of_range'' | InvalidAccount \<Rightarrow> ''invalid_account'')"

datatype decode_status =
    Valid commitment_payload
  | Malformed malformed_reason
  | UnsupportedVersion u8

definition status_as_db_str :: "decode_status \<Rightarrow> string" where
  "status_as_db_str s =
     (case s of Valid _ \<Rightarrow> ''valid'' | Malformed _ \<Rightarrow> ''malformed'' | UnsupportedVersion _ \<Rightarrow> ''unsupported_version'')"

record protocol_commitment =
  pc_vout :: u32
  pc_protocol :: commitment_protocol
  pc_script :: bytes
  pc_status :: decode_status
  pc_upstream_selected :: "bool option"

section \<open>The decoder\<close>

definition starts_with :: "bytes \<Rightarrow> bytes \<Rightarrow> bool" where
  "starts_with xs p \<longleftrightarrow> take (length p) xs = p"

definition recognize_at :: "bytes \<Rightarrow> nat \<Rightarrow> (commitment_protocol \<times> nat) option" where
  "recognize_at script magic_at =
     (if length script < magic_at then None
      else let rest = drop magic_at script in
        if starts_with rest exsat_magic then Some (Exsat, magic_at + length exsat_magic)
        else if starts_with rest core_magic then Some (Core, magic_at + length core_magic)
        else None)"

definition recognize :: "bytes \<Rightarrow> (commitment_protocol \<times> nat) option" where
  "recognize script =
     Option.bind (get_at script 1) (\<lambda>opcode.
       let pushdata_at = (if opcode = 0x4C then [3] else if opcode = 0x4D then [4]
                          else if opcode = 0x4E then [6] else [])
       in find_map (recognize_at script) (direct_magic_at # pushdata_at))"

text \<open>
  \<open>version()\<close> of a commitment.  The slices of the decoders below are in range: \<open>recognize\<close> found
  the magic before \<open>version_at\<close> and the caller has read the version byte.
\<close>

definition commitment_version :: "protocol_commitment \<Rightarrow> u8 option" where
  "commitment_version c =
     Option.bind (recognize (pc_script c)) (\<lambda>(_, version_at). get_at (pc_script c) version_at)"

definition decode_core :: "bytes \<Rightarrow> nat \<Rightarrow> (malformed_reason, commitment_payload) result" where
  "decode_core script version_at =
     (let exact = starts_with script core_header in
      rbind (if length script = core_script_len \<and> exact then Inr None
             else if length script = core_with_binding_hash_len \<and> exact then Inr (Some (drop core_script_len script))
             else if starts_with (drop (version_at + 1) script) core_header then Inl NestedHeader
             else if \<not> exact then Inl WrongPushLength
             else if length script < core_script_len then Inl Truncated
             else Inl TrailingBytes) (\<lambda>binding_hash.
      Inr (CorePayload (slice script 7 27) (slice script 27 47) binding_hash)))"

fun account_symbols :: "bytes \<Rightarrow> string option" where
  "account_symbols [] = Some []"
| "account_symbols (symbol # symbols) =
     Option.bind (get_at exsat_alphabet (unat symbol)) (\<lambda>c.
     Option.bind (account_symbols symbols) (\<lambda>cs. Some (c # cs)))"

definition ends_with_dot :: "string \<Rightarrow> bool" where
  "ends_with_dot s \<longleftrightarrow> s \<noteq> [] \<and> last s = CHR ''.''"

definition decode_exsat :: "bytes \<Rightarrow> nat \<Rightarrow> (malformed_reason, commitment_payload) result" where
  "decode_exsat script version_at =
     ensure (version_at = exsat_version_at) WrongPushLength
     (let declared = unat (script ! 1) in
      ensure (declared \<le> length script - 2) Truncated
      (ensure (\<not> declared < length script - 2) TrailingBytes
      (let symbols = drop (version_at + 1) script in
       ensure (symbols \<noteq> [] \<and> length symbols \<le> exsat_max_account_len) InvalidAccount
       (rbind (ok_or AccountByteOutOfRange (account_symbols symbols)) (\<lambda>account.
        ensure (\<not> ends_with_dot account) InvalidAccount
          (Inr (ExsatPayload account)))))))"

definition core_dao_reads :: "bytes \<Rightarrow> bool" where
  "core_dao_reads script \<longleftrightarrow>
     core_script_len \<le> length script \<and>
     slice script direct_magic_at (length core_header) = drop direct_magic_at core_header"

definition is_exsat_account :: "string \<Rightarrow> bool" where
  "is_exsat_account account \<longleftrightarrow>
     1 \<le> length account \<and> length account \<le> exsat_max_account_len \<and>
     list_all (\<lambda>symbol. List.member exsat_alphabet symbol) account \<and> \<not> ends_with_dot account"

definition decode_status_of :: "bytes \<Rightarrow> commitment_protocol \<Rightarrow> nat \<Rightarrow> decode_status" where
  "decode_status_of script protocol version_at =
     (case get_at script version_at of
        None \<Rightarrow> Malformed Truncated
      | Some version \<Rightarrow>
          if version = supported_version then
            (case (case protocol of Core \<Rightarrow> decode_core script version_at | Exsat \<Rightarrow> decode_exsat script version_at) of
               Inl reason \<Rightarrow> Malformed reason
             | Inr payload \<Rightarrow> Valid payload)
          else UnsupportedVersion version)"

definition decode_output :: "(bytes \<Rightarrow> bool) \<Rightarrow> nat \<Rightarrow> txout \<Rightarrow> protocol_commitment option" where
  "decode_output is_op_return vout output =
     (let script = o_script_pubkey output in
      if \<not> is_op_return script then None
      else Option.bind (recognize script) (\<lambda>(protocol, version_at).
        let status = decode_status_of script protocol version_at in
        if vout < 2 ^ 32 then
          Some \<lparr>pc_vout = word_of_nat vout, pc_protocol = protocol, pc_script = script, pc_status = status,
                pc_upstream_selected = (if protocol = Core then Some False else None)\<rparr>
        else None))"

text \<open>The first CORE output after the first output that the upstream parser reads is marked.\<close>

fun select_first :: "protocol_commitment list \<Rightarrow> protocol_commitment list" where
  "select_first [] = []"
| "select_first (c # cs) =
     (if pc_upstream_selected c \<noteq> None \<and> 0 < pc_vout c \<and> core_dao_reads (pc_script c)
      then c\<lparr>pc_upstream_selected := Some True\<rparr> # cs
      else c # select_first cs)"

definition decode_protocol_commitments :: "(bytes \<Rightarrow> bool) \<Rightarrow> txout list \<Rightarrow> protocol_commitment list" where
  "decode_protocol_commitments is_op_return outputs =
     select_first (List.map_filter (\<lambda>(vout, output). decode_output is_op_return vout output) (enumerate 0 outputs))"

definition decode_serialized_protocol_commitments ::
  "bitcoin_lib \<Rightarrow> (bytes \<Rightarrow> bool) \<Rightarrow> bytes \<Rightarrow> (unit, protocol_commitment list) result" where
  "decode_serialized_protocol_commitments L is_op_return serialized =
     rbind (ok_or () (deserialize_txouts L serialized)) (\<lambda>outputs.
       Inr (decode_protocol_commitments is_op_return outputs))"

section \<open>The exact encodings\<close>

definition symbol_of :: "char \<Rightarrow> u8" where
  "symbol_of c = (case position (\<lambda>x. x = c) exsat_alphabet of Some i \<Rightarrow> word_of_nat i | None \<Rightarrow> 0)"

fun encode_payload :: "commitment_payload \<Rightarrow> bytes" where
  "encode_payload (CorePayload validator reward binding) =
     core_header @ validator @ reward @ (case binding of None \<Rightarrow> [] | Some h \<Rightarrow> h)"
| "encode_payload (ExsatPayload account) =
     [0x6A, word_of_nat (6 + length account)] @ exsat_magic @ [supported_version] @ map symbol_of account"

fun payload_ok :: "commitment_payload \<Rightarrow> bool" where
  "payload_ok (CorePayload validator reward binding) \<longleftrightarrow>
     length validator = 20 \<and> length reward = 20 \<and> (case binding of None \<Rightarrow> True | Some h \<Rightarrow> length h = 32)"
| "payload_ok (ExsatPayload account) \<longleftrightarrow> is_exsat_account account"

lemma alphabet_round_trip:
  "list_all (\<lambda>c. get_at exsat_alphabet (unat (symbol_of c)) = Some c) exsat_alphabet"
  "list_all (\<lambda>i. symbol_of (exsat_alphabet ! i) = word_of_nat i) [0..<32]"
  "length exsat_alphabet = 32"
  by code_simp+

lemma symbol_decodes: "c \<in> set exsat_alphabet \<Longrightarrow> get_at exsat_alphabet (unat (symbol_of c)) = Some c"
  using alphabet_round_trip(1) by (simp add: list_all_iff)

lemma symbol_encodes:
  assumes "get_at exsat_alphabet (unat s) = Some c"
  shows "symbol_of c = s" and "c \<in> set exsat_alphabet"
proof -
  have i: "unat s < 32" "exsat_alphabet ! unat s = c"
    using assms by (auto simp: get_at_def alphabet_round_trip(3) split: if_splits)
  then have "symbol_of c = word_of_nat (unat s)"
    using alphabet_round_trip(2) by (simp only: list_all_iff) auto
  then show "symbol_of c = s" by simp
  show "c \<in> set exsat_alphabet" using i alphabet_round_trip(3) nth_mem [of "unat s" exsat_alphabet] by simp
qed

lemma account_symbols_Some:
  "account_symbols ss = Some a \<longleftrightarrow> ss = map symbol_of a \<and> set a \<subseteq> set exsat_alphabet"
proof (induction ss arbitrary: a)
  case (Cons s ss)
  show ?case
  proof
    assume "account_symbols (s # ss) = Some a"
    then show "s # ss = map symbol_of a \<and> set a \<subseteq> set exsat_alphabet"
      using Cons.IH by (auto simp: bind_eq_Some_conv symbol_encodes)
  next
    assume "s # ss = map symbol_of a \<and> set a \<subseteq> set exsat_alphabet"
    then obtain c cs where a: "a = c # cs" "s = symbol_of c" "ss = map symbol_of cs" "c \<in> set exsat_alphabet"
        "set cs \<subseteq> set exsat_alphabet"
      by (cases a) auto
    then have "account_symbols ss = Some cs" using Cons.IH [of cs] by simp
    with a show "account_symbols (s # ss) = Some a" by (simp add: symbol_decodes)
  qed
qed auto

lemma core_lens: "length core_header = 7" "core_script_len = 47" "core_with_binding_hash_len = 79"
  by (simp_all add: core_header_def core_script_len_def core_with_binding_hash_len_def)

lemma starts_with_append: "starts_with xs p \<longleftrightarrow> (\<exists>ys. xs = p @ ys)"
proof
  assume "starts_with xs p"
  then have "xs = p @ drop (length p) xs" unfolding starts_with_def by (metis append_take_drop_id)
  then show "\<exists>ys. xs = p @ ys" ..
qed (auto simp: starts_with_def)

lemma decode_core_Inr:
  "decode_core script at = Inr p \<longleftrightarrow>
     (\<exists>v r b. p = CorePayload v r b) \<and> payload_ok p \<and> script = encode_payload p"
proof
  assume d: "decode_core script at = Inr p"
  then have exact: "starts_with script core_header" and len: "length script = 47 \<or> length script = 79"
    by (auto simp: decode_core_def Let_def core_lens result_simps split: if_splits)
  obtain ys where ys: "script = core_header @ ys" using exact unfolding starts_with_append by blast
  have parts: "slice script 7 27 = take 20 ys" "slice script 27 47 = take 20 (drop 20 ys)" "drop 47 script = drop 40 ys"
    by (simp_all add: ys slice_def core_lens drop_take)
  have p: "p = CorePayload (take 20 ys) (take 20 (drop 20 ys)) (if length script = 47 then None else Some (drop 40 ys))"
    using d exact len parts by (auto simp: decode_core_def Let_def core_lens)
  have "ys = take 20 ys @ take 20 (drop 20 ys) @ drop 40 ys"
    using append_take_drop_id [of 20 ys] append_take_drop_id [of 20 "drop 20 ys"] by simp
  then show "(\<exists>v r b. p = CorePayload v r b) \<and> payload_ok p \<and> script = encode_payload p"
    using len ys by (auto simp: p core_lens)
next
  assume "(\<exists>v r b. p = CorePayload v r b) \<and> payload_ok p \<and> script = encode_payload p"
  then obtain v r b where p: "p = CorePayload v r b" "length v = 20" "length r = 20"
      "case b of None \<Rightarrow> True | Some h \<Rightarrow> length h = 32" "script = encode_payload p" by auto
  then have "starts_with script core_header" by (auto simp: starts_with_append)
  then show "decode_core script at = Inr p"
    using p by (cases b) (auto simp: decode_core_def Let_def core_lens slice_def)
qed

lemma decode_exsat_Inr:
  assumes "length script = 8 + length symbols" and "drop 8 script = symbols"
  shows "decode_exsat script 7 = Inr p \<longleftrightarrow>
     (\<exists>a. p = ExsatPayload a \<and> is_exsat_account a \<and> symbols = map symbol_of a) \<and>
     unat (script ! 1) = 6 + length symbols"
proof -
  have "decode_exsat script 7 = Inr p \<longleftrightarrow> unat (script ! 1) = 6 + length symbols \<and>
      symbols \<noteq> [] \<and> length symbols \<le> 12 \<and>
      (\<exists>a. account_symbols symbols = Some a \<and> \<not> ends_with_dot a \<and> p = ExsatPayload a)"
    using assms
    by (auto simp: decode_exsat_def Let_def result_simps exsat_version_at_def direct_magic_at_def exsat_magic_def
        exsat_max_account_len_def)
  also have "\<dots> \<longleftrightarrow> (\<exists>a. p = ExsatPayload a \<and> is_exsat_account a \<and> symbols = map symbol_of a) \<and>
      unat (script ! 1) = 6 + length symbols"
    unfolding account_symbols_Some
    by (auto simp: is_exsat_account_def exsat_max_account_len_def list_all_iff Suc_le_eq)
  finally show ?thesis .
qed

lemma magic_lens: "length exsat_magic = 5" "length core_magic = 4" "exsat_magic \<noteq> []"
  by (simp_all add: exsat_magic_def core_magic_def)

lemma recognize_at_Exsat:
  "recognize_at script m = Some (Exsat, at) \<Longrightarrow> at = m + 5 \<and> starts_with (drop m script) exsat_magic"
  by (simp add: recognize_at_def Let_def magic_lens split: if_split_asm)

lemma recognize_Exsat_7:
  assumes "recognize script = Some (Exsat, 7)"
  shows "starts_with (drop 2 script) exsat_magic"
proof -
  from assms obtain ms where "find_map (recognize_at script) ms = Some (Exsat, 7)"
    unfolding recognize_def Let_def bind_eq_Some_conv by blast
  then obtain m where "recognize_at script m = Some (Exsat, 7)" using find_map_in_set by metis
  from recognize_at_Exsat [OF this] show ?thesis by auto
qed

lemma recognize_encoded_exsat:
  assumes "starts_with (drop 2 script) exsat_magic"
  shows "recognize script = Some (Exsat, 7)"
proof -
  have "take 5 (drop 2 script) = exsat_magic" using assms by (simp add: starts_with_def magic_lens)
  then have "5 \<le> length (drop 2 script)" using magic_lens(1) by (metis length_take min.cobounded1)
  then have "2 \<le> length script" "1 < length script" by simp_all
  with assms show ?thesis
    by (simp add: recognize_def Let_def direct_magic_at_def recognize_at_def magic_lens get_at_def)
qed

lemma recognize_encoded_core:
  assumes "starts_with script core_header"
  shows "recognize script = Some (Core, 6)" and "get_at script 6 = Some 1"
proof -
  obtain ys where ys: "script = core_header @ ys" using assms unfolding starts_with_append by blast
  then have d2: "drop 2 script = core_magic @ 1 # ys" by (simp add: core_header_def core_magic_def)
  have "starts_with (drop 2 script) core_magic" unfolding d2 starts_with_append by blast
  moreover have "hd (drop 2 script) \<noteq> hd exsat_magic" by (simp add: d2 core_magic_def exsat_magic_def)
  then have "\<not> starts_with (drop 2 script) exsat_magic" by (auto simp: starts_with_append exsat_magic_def)
  moreover have "2 \<le> length script" "1 < length script" using ys core_lens(1) by simp_all
  ultimately show "recognize script = Some (Core, 6)"
    by (simp add: recognize_def Let_def direct_magic_at_def recognize_at_def magic_lens get_at_def)
  show "get_at script 6 = Some 1" by (simp add: ys get_at_def core_header_def)
qed

lemma decode_output_Valid:
  assumes "vout < 2 ^ 32"
  shows "(\<exists>c. decode_output op vout out = Some c \<and> pc_status c = Valid p) \<longleftrightarrow>
    op (o_script_pubkey out) \<and> (\<exists>proto at. recognize (o_script_pubkey out) = Some (proto, at) \<and>
      get_at (o_script_pubkey out) at = Some 1 \<and>
      (case proto of Core \<Rightarrow> decode_core (o_script_pubkey out) at | Exsat \<Rightarrow> decode_exsat (o_script_pubkey out) at) = Inr p)"
proof -
  have status: "decode_status_of s proto at = Valid p \<longleftrightarrow> get_at s at = Some 1 \<and>
      (case proto of Core \<Rightarrow> decode_core s at | Exsat \<Rightarrow> decode_exsat s at) = Inr p" for s proto at
    by (auto simp: decode_status_of_def supported_version_def split: option.splits sum.splits)
  show ?thesis
    unfolding status [symmetric] using assms
    by (cases "recognize (o_script_pubkey out)") (auto simp: decode_output_def Let_def split: prod.splits)
qed

lemma exsat_exact:
  assumes "recognize script = Some (Exsat, at)" and "get_at script at = Some 1"
    and "decode_exsat script at = Inr p" and "take 1 script = [0x6A]"
  shows "payload_ok p \<and> script = encode_payload p"
proof -
  have at: "at = 7"
    using assms(3) by (auto simp: decode_exsat_def ensure_eq_Inr exsat_version_at_def direct_magic_at_def magic_lens)
  then have "starts_with (drop 2 script) exsat_magic" using assms(1) recognize_Exsat_7 by simp
  then obtain ys where ys: "drop 2 script = exsat_magic @ ys" unfolding starts_with_append by blast
  have len: "7 < length script" "script ! 7 = 1" using assms(2) by (auto simp: get_at_def at split: if_splits)
  have "2 < length script" using len by simp
  then have two: "script = [0x6A, script ! 1] @ drop 2 script"
    using assms(4) by (cases script; cases "tl script") auto
  have "drop 5 (drop 2 script) = ys" using ys by (simp add: magic_lens)
  then have ys7: "drop 7 script = ys" by simp
  define symbols where "symbols = drop 8 script"
  have sym: "ys = 1 # symbols" "drop 8 script = symbols"
    using len Cons_nth_drop_Suc [of 7 script] ys7 by (simp_all add: symbols_def)
  have l8: "length script = 8 + length symbols" using len(1) sym(2) by auto
  from decode_exsat_Inr [OF l8 sym(2), of p] assms(3) at obtain a where
      a: "p = ExsatPayload a" "is_exsat_account a" "symbols = map symbol_of a" "unat (script ! 1) = 6 + length symbols"
    by auto
  have "script ! 1 = word_of_nat (unat (script ! 1))" by simp
  then have "script ! 1 = word_of_nat (6 + length a)" using a(3,4) by (simp only: length_map)
  with a two ys sym show ?thesis by (simp add: supported_version_def)
qed

lemma exsat_accepted:
  assumes "is_exsat_account a"
  defines "script \<equiv> encode_payload (ExsatPayload a)"
  shows "recognize script = Some (Exsat, 7)" and "get_at script 7 = Some 1"
    and "decode_exsat script 7 = Inr (ExsatPayload a)" and "take 1 script = [0x6A]"
proof -
  have s: "script = 0x6A # word_of_nat (6 + length a) # exsat_magic @ 1 # map symbol_of a"
    by (simp add: script_def supported_version_def)
  have a12: "length a \<le> 12" using assms(1) by (simp add: is_exsat_account_def exsat_max_account_len_def)
  have d2: "drop 2 script = exsat_magic @ 1 # map symbol_of a" by (simp add: s)
  show "recognize script = Some (Exsat, 7)" by (rule recognize_encoded_exsat) (simp add: d2 starts_with_append)
  show "get_at script 7 = Some 1" "take 1 script = [0x6A]" by (simp_all add: s get_at_def exsat_magic_def)
  have l8: "length script = 8 + length (map symbol_of a)" "drop 8 script = map symbol_of a"
    by (simp_all add: s exsat_magic_def)
  have "unat (script ! 1) = 6 + length (map symbol_of a)"
    using a12 by (simp add: s unat_of_nat del: of_nat_add)
  then show "decode_exsat script 7 = Inr (ExsatPayload a)"
    unfolding decode_exsat_Inr [OF l8] using assms(1) by blast
qed

text \<open>C40: The decoder reports a valid commitment for an output exactly when its script is the exact
  encoding of a well-formed payload: the CORE header with a 20-byte validator, a 20-byte reward
  address and an optional 32-byte binding hash, or one push of the exSat magic, version 1 and 1
  to 12 account symbols that do not end in a dot.\<close>

theorem valid_commitment_exact:
  assumes op: "\<And>s. is_op_return s \<longleftrightarrow> take 1 s = [0x6A]" and vout: "vout < 2 ^ 32"
  shows "(\<exists>c. decode_output is_op_return vout output = Some c \<and> pc_status c = Valid p) \<longleftrightarrow>
    payload_ok p \<and> o_script_pubkey output = encode_payload p"
  unfolding decode_output_Valid [OF vout] op
proof
  let ?s = "o_script_pubkey output"
  assume "take 1 ?s = [0x6A] \<and> (\<exists>proto at. recognize ?s = Some (proto, at) \<and> get_at ?s at = Some 1 \<and>
      (case proto of Core \<Rightarrow> decode_core ?s at | Exsat \<Rightarrow> decode_exsat ?s at) = Inr p)"
  then obtain proto at where s: "take 1 ?s = [0x6A]" "recognize ?s = Some (proto, at)" "get_at ?s at = Some 1"
      "(case proto of Core \<Rightarrow> decode_core ?s at | Exsat \<Rightarrow> decode_exsat ?s at) = Inr p" by blast
  show "payload_ok p \<and> ?s = encode_payload p"
  proof (cases proto)
    case Core
    then show ?thesis using s(4) decode_core_Inr by simp
  next
    case Exsat
    then show ?thesis using exsat_exact [of ?s at p] s by simp
  qed
next
  let ?s = "o_script_pubkey output"
  assume ok: "payload_ok p \<and> ?s = encode_payload p"
  show "take 1 ?s = [0x6A] \<and> (\<exists>proto at. recognize ?s = Some (proto, at) \<and> get_at ?s at = Some 1 \<and>
      (case proto of Core \<Rightarrow> decode_core ?s at | Exsat \<Rightarrow> decode_exsat ?s at) = Inr p)"
  proof (cases p)
    case (CorePayload v r b)
    then have sw: "starts_with ?s core_header" using ok by (auto simp: starts_with_append)
    then have "take 1 ?s = [0x6A]" by (auto simp: starts_with_append core_header_def)
    moreover have "decode_core ?s 6 = Inr p" using ok CorePayload decode_core_Inr by auto
    ultimately show ?thesis using recognize_encoded_core [OF sw] by (intro conjI exI [of _ Core] exI [of _ 6]) simp_all
  next
    case (ExsatPayload a)
    then show ?thesis using ok exsat_accepted [of a]
      by (intro conjI exI [of _ Exsat] exI [of _ 7]) simp_all
  qed
qed

theorem valid_commitment_exact_witness:
  "\<exists>c. decode_output (\<lambda>s. take 1 s = [0x6A]) 3
     \<lparr>o_value = 0, o_script_pubkey = encode_payload (ExsatPayload ''abc1'')\<rparr> = Some c \<and>
     pc_status c = Valid (ExsatPayload ''abc1'')"
  by (subst valid_commitment_exact) code_simp+

definition core_dao_candidate :: "protocol_commitment \<Rightarrow> bool" where
  "core_dao_candidate c \<longleftrightarrow> pc_protocol c = Core \<and> 0 < pc_vout c \<and> core_dao_reads (pc_script c)"

lemma select_first_filter:
  assumes "\<forall>c \<in> set xs. pc_upstream_selected c = (if pc_protocol c = Core then Some False else None)"
  shows "filter (\<lambda>c. pc_upstream_selected c = Some True) (select_first xs) =
      map (\<lambda>c. c\<lparr>pc_upstream_selected := Some True\<rparr>) (take 1 (filter core_dao_candidate xs))"
  using assms
proof (induction xs)
  case (Cons c xs)
  have "filter (\<lambda>c. pc_upstream_selected c = Some True) xs = []"
    using Cons.prems by (auto simp: filter_empty_conv)
  with Cons show ?case by (auto simp: core_dao_candidate_def split: if_splits)
qed simp

lemma select_first_clears:
  "map (\<lambda>c. c\<lparr>pc_upstream_selected := None\<rparr>) (select_first xs) = map (\<lambda>c. c\<lparr>pc_upstream_selected := None\<rparr>) xs"
  by (induction xs) auto

text \<open>Of a coinbase's commitments exactly one is marked as the one Core DAO reads whenever there is a
  candidate: the first CORE output after output zero that its parser accepts; marking changes nothing
  else.\<close>

theorem core_selection_unique:
  "filter (\<lambda>c. pc_upstream_selected c = Some True) (decode_protocol_commitments op outputs) =
     map (\<lambda>c. c\<lparr>pc_upstream_selected := Some True\<rparr>) (take 1 (filter core_dao_candidate
       (List.map_filter (\<lambda>(vout, output). decode_output op vout output) (enumerate 0 outputs)))) \<and>
   map (\<lambda>c. c\<lparr>pc_upstream_selected := None\<rparr>) (decode_protocol_commitments op outputs) =
     map (\<lambda>c. c\<lparr>pc_upstream_selected := None\<rparr>)
       (List.map_filter (\<lambda>(vout, output). decode_output op vout output) (enumerate 0 outputs))"
proof -
  have "pc_upstream_selected c = (if pc_protocol c = Core then Some False else None)"
    if "c \<in> set (List.map_filter (\<lambda>(vout, output). decode_output op vout output) (enumerate 0 outputs))" for c
    using that by (auto simp: List.map_filter_def decode_output_def Let_def bind_eq_Some_conv split: if_splits)
  then show ?thesis
    unfolding decode_protocol_commitments_def using select_first_filter select_first_clears by blast
qed

end
