(* ===== verification/Relationship.thy ===== *)
theory Relationship
  imports Capture Protocol_Commitment
begin

text \<open>
  \<open>crates/mmm-capture/src/relationship.rs\<close>: the pools a Bitcoin parent names and whether they name
  more than one.  The source is generic over the pool type through the trait \<open>SignalPool\<close>; its two
  operations are arguments of the definitions, its contract is the locale \<open>signal_pool\<close>, and the
  read model's instance, a bare optional pool id, interprets it.
\<close>

section \<open>Signals\<close>

datatype 'p draft_pool = KnownPool 'p | SnapshotPool string

record 'p signal_draft =
  sd_kind :: string
  sd_source :: "string option"
  sd_namespace :: string
  sd_value :: string
  sd_pool :: "'p draft_pool"
  sd_basis :: string

record 'p relationship_signal =
  rl_kind :: string
  rl_source :: "string option"
  rl_namespace :: string
  rl_value :: string
  rl_pool :: 'p
  rl_basis :: string

record 'p relationship_signals =
  rg_mixed :: bool
  rg_reference_pool :: 'p
  rg_pools :: "'p list"
  rg_entries :: "'p relationship_signal list"

record coinbase_evidence =
  ce_script :: "bytes option"
  ce_outputs :: "bytes option"
  ce_outputs_text :: "string option"

definition tier :: "coinbase_evidence \<Rightarrow> nat option" where
  "tier c = (if ce_outputs c \<noteq> None then Some 0 else if ce_outputs_text c \<noteq> None then Some 1
             else map_option (\<lambda>_. 2) (ce_script c))"

text \<open>\<open>Iterator::min_by_key\<close>: the first of the least elements.\<close>

fun min_by_key :: "('a \<Rightarrow> 'k :: linorder) \<Rightarrow> 'a list \<Rightarrow> 'a option" where
  "min_by_key f [] = None"
| "min_by_key f (x # xs) =
     (case min_by_key f xs of None \<Rightarrow> Some x | Some y \<Rightarrow> if f x \<le> f y then Some x else Some y)"

definition choose_coinbase_evidence :: "(int \<times> coinbase_evidence) list \<Rightarrow> coinbase_evidence option" where
  "choose_coinbase_evidence copies =
     map_option snd (min_by_key fst
       (List.map_filter (\<lambda>(id, copy). map_option (\<lambda>t. ((t, id), copy)) (tier copy)) copies))"

definition draft_child :: "string \<Rightarrow> string \<Rightarrow> string \<Rightarrow> 'p \<Rightarrow> 'p signal_draft" where
  "draft_child source namespace value pool =
     (let (kind, basis) =
        (if namespace = ''btc_coinbase_tag'' then (''child_coinbase_tag'', ''pool_snapshot'')
         else if namespace = ''elastos_minerinfo'' then (''child_coinbase_tag'', ''child_registry'')
         else (''child_reward_address'', ''child_registry'')) in
      \<lparr>sd_kind = kind, sd_source = Some source, sd_namespace = namespace, sd_value = value,
       sd_pool = KnownPool pool, sd_basis = basis\<rparr>)"

definition draft_snapshot :: "string \<Rightarrow> string option \<Rightarrow> string \<Rightarrow> string \<Rightarrow> string \<Rightarrow> 'p signal_draft" where
  "draft_snapshot kind source namespace value slug =
     \<lparr>sd_kind = kind, sd_source = source, sd_namespace = namespace, sd_value = value,
      sd_pool = SnapshotPool slug, sd_basis = ''pool_snapshot''\<rparr>"

definition known_pool :: "'p signal_draft \<Rightarrow> 'p option" where
  "known_pool d = (case sd_pool d of KnownPool pool \<Rightarrow> Some pool | SnapshotPool _ \<Rightarrow> None)"

definition snapshot_slug :: "'p signal_draft \<Rightarrow> string option" where
  "snapshot_slug d = (case sd_pool d of KnownPool _ \<Rightarrow> None | SnapshotPool slug \<Rightarrow> Some slug)"

definition resolve_draft :: "'p \<Rightarrow> (string \<rightharpoonup> 'p) \<Rightarrow> 'p signal_draft \<Rightarrow> 'p relationship_signal" where
  "resolve_draft unknown pools_by_slug d =
     \<lparr>rl_kind = sd_kind d, rl_source = sd_source d, rl_namespace = sd_namespace d, rl_value = sd_value d,
      rl_pool = (case sd_pool d of
          KnownPool pool \<Rightarrow> pool
        | SnapshotPool slug \<Rightarrow> (case pools_by_slug slug of Some pool \<Rightarrow> pool | None \<Rightarrow> unknown)),
      rl_basis = sd_basis d\<rparr>"

definition protocol_account_draft :: "string \<Rightarrow> string option \<Rightarrow> 'p \<Rightarrow> 'p signal_draft option" where
  "protocol_account_draft protocol account pool =
     Option.bind (if protocol = ''core'' then Some ''core_reward_address''
                  else if protocol = ''exsat'' then Some ''exsat_account'' else None) (\<lambda>namespace.
     map_option (\<lambda>value.
       \<lparr>sd_kind = ''protocol_account'', sd_source = None, sd_namespace = namespace, sd_value = value,
        sd_pool = KnownPool pool, sd_basis = ''protocol_account_registry''\<rparr>) account)"

definition payout_addresses :: "bitcoin_lib \<Rightarrow> address_lib \<Rightarrow> coinbase_evidence \<Rightarrow> string list" where
  "payout_addresses L A coinbase =
     (case Option.bind (ce_outputs coinbase) (deserialize_txouts L) of
        Some outputs \<Rightarrow> output_addresses L outputs
      | None \<Rightarrow> (case ce_outputs_text coinbase of
            Some text \<Rightarrow> published_parent_coinbase_output_addresses L A text | None \<Rightarrow> []))"

definition bitcoin_drafts_with :: "bitcoin_lib \<Rightarrow> address_lib \<Rightarrow> pool_resolver \<Rightarrow> coinbase_evidence \<Rightarrow> 'p signal_draft list" where
  "bitcoin_drafts_with L A resolver coinbase =
     (case Option.bind (ce_script coinbase) (resolve_coinbase_script resolver) of
        Some tag \<Rightarrow> [draft_snapshot ''bitcoin_coinbase_tag'' None ''btc_coinbase_tag'' (pm_matched_value tag)
                      (pr_slug (pm_pool tag))]
      | None \<Rightarrow> []) @
     List.map_filter (\<lambda>address.
       map_option (\<lambda>payout. draft_snapshot ''bitcoin_payout_address'' None ''btc_payout_address'' address
           (pr_slug (pm_pool payout))) (resolve_payout_address resolver address))
       (payout_addresses L A coinbase)"

text \<open>The process-wide resolver over the compiled-in snapshot is the optional argument.\<close>

definition bitcoin_drafts ::
  "bitcoin_lib \<Rightarrow> address_lib \<Rightarrow> pool_resolver option \<Rightarrow> coinbase_evidence option \<Rightarrow> 'p signal_draft list" where
  "bitcoin_drafts L A default_pool_resolver coinbase =
     (case (coinbase, default_pool_resolver) of
        (Some c, Some resolver) \<Rightarrow> bitcoin_drafts_with L A resolver c | _ \<Rightarrow> [])"

definition child_coinbase_tag_draft_with :: "pool_resolver \<Rightarrow> string \<Rightarrow> bytes \<Rightarrow> 'p signal_draft option" where
  "child_coinbase_tag_draft_with resolver source script =
     map_option (\<lambda>tag. draft_snapshot ''child_coinbase_tag'' (Some source) ''btc_coinbase_tag''
         (pm_matched_value tag) (pr_slug (pm_pool tag))) (resolve_coinbase_script resolver script)"

definition child_coinbase_tag_draft :: "pool_resolver option \<Rightarrow> string \<Rightarrow> bytes option \<Rightarrow> 'p signal_draft option" where
  "child_coinbase_tag_draft default_pool_resolver source script =
     Option.bind default_pool_resolver (\<lambda>resolver.
       Option.bind script (child_coinbase_tag_draft_with resolver source))"

text \<open>The set of signals seen, kept by \<open>HashSet::insert\<close> inside the filter.\<close>

definition signal_key :: "'p signal_draft \<Rightarrow> string \<times> string option \<times> string \<times> string" where
  "signal_key d = (sd_kind d, sd_source d, sd_namespace d, sd_value d)"

fun dedup_drafts :: "(string \<times> string option \<times> string \<times> string) list \<Rightarrow> 'p signal_draft list \<Rightarrow> 'p signal_draft list" where
  "dedup_drafts seen [] = []"
| "dedup_drafts seen (d # ds) =
     (if signal_key d \<in> set seen then dedup_drafts seen ds
      else d # dedup_drafts (signal_key d # seen) ds)"

definition push_pool :: "('p \<Rightarrow> int option) \<Rightarrow> 'p list \<Rightarrow> 'p \<Rightarrow> 'p list" where
  "push_pool pool_id pools pool =
     (case pool_id pool of
        Some i \<Rightarrow> if \<not> list_ex (\<lambda>seen. pool_id seen = Some i) pools then pools @ [pool] else pools
      | None \<Rightarrow> pools)"

definition finish ::
  "('p \<Rightarrow> int option) \<Rightarrow> 'p \<Rightarrow> 'p \<Rightarrow> 'p signal_draft list \<Rightarrow> (string \<rightharpoonup> 'p) \<Rightarrow> 'p relationship_signals" where
  "finish pool_id unknown bitcoin_miner_pool drafts pools_by_slug =
     (let entries = map (resolve_draft unknown pools_by_slug) (dedup_drafts [] drafts);
          pools = foldl (push_pool pool_id) [] (bitcoin_miner_pool # map rl_pool entries) in
      \<lparr>rg_mixed = (1 < length pools),
       rg_reference_pool = (case pools of p # _ \<Rightarrow> p | [] \<Rightarrow> unknown),
       rg_pools = pools, rg_entries = entries\<rparr>)"

text \<open>The API's pool object as a signal pool.\<close>

record pool_object =
  po_id :: "int option"
  po_slug :: "string option"
  po_name :: string
  po_known :: bool

definition unknown_pool :: pool_object where
  "unknown_pool = \<lparr>po_id = None, po_slug = None, po_name = ''Unknown'', po_known = False\<rparr>"

definition pool_object_id :: "pool_object \<Rightarrow> int option" where
  "pool_object_id p = Option.bind (po_id p) (\<lambda>i. if po_known p then Some i else None)"

section \<open>The chosen coinbase copy\<close>

lemma min_by_key_None: "min_by_key f xs = None \<longleftrightarrow> xs = []"
  by (cases xs) (auto split: option.splits if_splits)

lemma min_by_key_Some:
  "min_by_key f xs = Some y \<Longrightarrow> y \<in> set xs \<and> (\<forall>x \<in> set xs. f y \<le> f x)"
  by (induction xs arbitrary: y)
    (auto simp: min_by_key_None not_le split: option.splits if_splits intro: order_trans less_imp_le)

text \<open>The coinbase copy the signals read is one of the stored copies of the lowest tier and, within
  it, the lowest row id, so a copy with only a script or only text never shadows one with structured
  outputs; and one is chosen whenever some copy is not empty.\<close>

theorem chosen_copy_most_complete:
  "(choose_coinbase_evidence copies = None \<longleftrightarrow> (\<forall>(id, copy) \<in> set copies. tier copy = None)) \<and>
   (\<forall>c. choose_coinbase_evidence copies = Some c \<longrightarrow>
     (\<exists>i t. (i, c) \<in> set copies \<and> tier c = Some t \<and>
       (\<forall>(j, d) \<in> set copies. \<forall>u. tier d = Some u \<longrightarrow> t < u \<or> t = u \<and> i \<le> j)))"
proof -
  let ?ranked = "List.map_filter (\<lambda>(id, copy). map_option (\<lambda>t. ((t, id), copy)) (tier copy)) copies"
  have mem: "((t, i), c) \<in> set ?ranked \<longleftrightarrow> (i, c) \<in> set copies \<and> tier c = Some t" for t i c
    by (force simp: List.map_filter_def image_iff split: prod.splits)
  have "?ranked = [] \<longleftrightarrow> (\<forall>(id, copy) \<in> set copies. tier copy = None)"
    by (auto simp: List.map_filter_def filter_empty_conv)
  moreover have "\<exists>i t. (i, c) \<in> set copies \<and> tier c = Some t \<and>
       (\<forall>(j, d) \<in> set copies. \<forall>u. tier d = Some u \<longrightarrow> t < u \<or> t = u \<and> i \<le> j)"
    if ch: "choose_coinbase_evidence copies = Some c" for c
  proof -
    obtain t i where m: "min_by_key fst ?ranked = Some ((t, i), c)"
      using ch by (auto simp: choose_coinbase_evidence_def)
    from min_by_key_Some [OF m] have c: "((t, i), c) \<in> set ?ranked"
      and least: "\<And>x. x \<in> set ?ranked \<Longrightarrow> (t, i) \<le> fst x" by auto
    have "t < u \<or> t = u \<and> i \<le> j" if "(j, d) \<in> set copies" "tier d = Some u" for j d u
      using least [of "((u, j), d)"] that unfolding mem by (auto simp: less_eq_prod_def)
    with c show ?thesis unfolding mem by blast
  qed
  ultimately show ?thesis
    unfolding choose_coinbase_evidence_def by (auto simp: min_by_key_None)
qed

section \<open>The contract of a pool type\<close>

lemma dedup_drafts_keys:
  "distinct (map signal_key (dedup_drafts seen ds)) \<and>
   set (map signal_key (dedup_drafts seen ds)) = set (map signal_key ds) - set seen"
  by (induction seen ds rule: dedup_drafts.induct) auto

lemma set_dedup_drafts: "set (dedup_drafts seen ds) \<subseteq> set ds"
  by (induction seen ds rule: dedup_drafts.induct) auto

definition draft_ids :: "('p \<Rightarrow> 'q) \<Rightarrow> 'p signal_draft \<Rightarrow> 'q signal_draft" where
  "draft_ids f d = \<lparr>sd_kind = sd_kind d, sd_source = sd_source d, sd_namespace = sd_namespace d,
     sd_value = sd_value d, sd_pool = (case sd_pool d of KnownPool p \<Rightarrow> KnownPool (f p)
       | SnapshotPool slug \<Rightarrow> SnapshotPool slug), sd_basis = sd_basis d\<rparr>"

text \<open>The elements that differ in their key from every element before them, in order.\<close>

fun nub_by :: "('a \<Rightarrow> 'k) \<Rightarrow> 'a list \<Rightarrow> 'a list" where
  "nub_by key [] = []"
| "nub_by key (x # xs) = x # filter (\<lambda>y. key y \<noteq> key x) (nub_by key xs)"

lemma dedup_drafts_nub: "dedup_drafts seen ds = filter (\<lambda>d. signal_key d \<notin> set seen) (nub_by signal_key ds)"
  by (induction seen ds rule: dedup_drafts.induct) (auto intro!: filter_cong)

lemma fold_push_pool_nub:
  "foldl (push_pool pool_id) pools ps =
     pools @ filter (\<lambda>p. pool_id p \<notin> pool_id ` set pools) (nub_by pool_id (filter (\<lambda>p. pool_id p \<noteq> None) ps))"
proof (induction ps arbitrary: pools)
  case (Cons p ps)
  show ?case
  proof (cases "pool_id p")
    case None
    then show ?thesis using Cons.IH by (simp add: push_pool_def)
  next
    case (Some i)
    have ex: "list_ex (\<lambda>seen. pool_id seen = Some i) pools \<longleftrightarrow> pool_id p \<in> pool_id ` set pools"
      unfolding list_ex_iff Some image_iff by metis
    show ?thesis
    proof (cases "pool_id p \<in> pool_id ` set pools")
      case True
      then have "push_pool pool_id pools p = pools" using Some ex by (simp add: push_pool_def)
      moreover have "filter (\<lambda>x. pool_id x \<noteq> pool_id p \<and> pool_id x \<notin> pool_id ` set pools) xs =
          filter (\<lambda>x. pool_id x \<notin> pool_id ` set pools) xs" for xs
        using True by (intro filter_cong) auto
      ultimately show ?thesis using Cons.IH [of pools] True Some by simp
    next
      case False
      then have "push_pool pool_id pools p = pools @ [p]" using Some ex by (simp add: push_pool_def)
      moreover have "filter (\<lambda>x. pool_id x \<notin> pool_id ` set (pools @ [p])) xs =
          filter (\<lambda>x. pool_id x \<noteq> pool_id p \<and> pool_id x \<notin> pool_id ` set pools) xs" for xs
        by (intro filter_cong) auto
      ultimately show ?thesis using Cons.IH [of "pools @ [p]"] False Some by simp
    qed
  qed
qed simp

definition summary_exact ::
  "('p \<Rightarrow> int option) \<Rightarrow> 'p \<Rightarrow> 'p \<Rightarrow> 'p signal_draft list \<Rightarrow> (string \<rightharpoonup> 'p) \<Rightarrow> 'p relationship_signals \<Rightarrow> bool" where
  "summary_exact pool_id unknown miner drafts by_slug r \<longleftrightarrow>
     rg_entries r = map (resolve_draft unknown by_slug) (nub_by signal_key drafts) \<and>
     rg_pools r = nub_by pool_id (filter (\<lambda>p. pool_id p \<noteq> None) (miner # map rl_pool (rg_entries r))) \<and>
     (rg_mixed r \<longleftrightarrow> 2 \<le> card (pool_id ` set (miner # map rl_pool (rg_entries r)) - {None})) \<and>
     rg_reference_pool r =
       (case List.find (\<lambda>p. pool_id p \<noteq> None) (miner # map rl_pool (rg_entries r)) of Some p \<Rightarrow> p | None \<Rightarrow> unknown)"

lemma nub_by_head: "(case nub_by key (filter P xs) of p # _ \<Rightarrow> p | [] \<Rightarrow> d) = (case List.find P xs of Some p \<Rightarrow> p | None \<Rightarrow> d)"
  by (induction xs) auto

locale signal_pool =
  fixes pool_id :: "'p \<Rightarrow> int option" and unknown :: 'p
  assumes unknown_id: "pool_id unknown = None"
begin

text \<open>The pools collected so far: known, pairwise different ids, the ids of what was offered.\<close>

definition pools_ok :: "'p list \<Rightarrow> 'p list \<Rightarrow> bool" where
  "pools_ok offered pools \<longleftrightarrow> distinct (map pool_id pools) \<and> None \<notin> pool_id ` set pools \<and>
     pool_id ` set pools = pool_id ` set offered - {None} \<and>
     (\<forall>p ps. offered = p # ps \<longrightarrow> pool_id p \<noteq> None \<longrightarrow> (\<exists>qs. pools = p # qs))"

lemma push_pool_ok:
  assumes "pools_ok offered pools"
  shows "pools_ok (offered @ [p]) (push_pool pool_id pools p)"
proof (cases "pool_id p")
  case None
  with assms show ?thesis by (cases offered) (auto simp: pools_ok_def push_pool_def)
next
  case (Some i)
  have ex: "list_ex (\<lambda>seen. pool_id seen = Some i) pools \<longleftrightarrow> Some i \<in> pool_id ` set pools"
    unfolding list_ex_iff image_iff by metis
  have O: "distinct (map pool_id pools)" "None \<notin> pool_id ` set pools"
      "pool_id ` set pools = pool_id ` set offered - {None}"
      "\<And>q qs. offered = q # qs \<Longrightarrow> pool_id q \<noteq> None \<Longrightarrow> \<exists>rs. pools = q # rs"
    using assms unfolding pools_ok_def by blast+
  show ?thesis
  proof (cases "Some i \<in> pool_id ` set pools")
    case True
    then have "Some i \<in> pool_id ` set offered" using O(3) by blast
    then have "pool_id ` set (offered @ [p]) = pool_id ` set offered" "offered \<noteq> []"
      using Some by auto
    moreover have "push_pool pool_id pools p = pools"
      using True Some by (simp add: push_pool_def ex)
    ultimately show ?thesis
      unfolding pools_ok_def using O by (metis append_eq_Cons_conv)
  next
    case False
    have "\<exists>rs. pools @ [p] = q # rs" if "offered @ [p] = q # qs" "pool_id q \<noteq> None" for q qs
    proof (cases offered)
      case Nil
      with O(3) that show ?thesis by simp
    next
      case (Cons q' qs')
      with O(4) [of q' qs'] that show ?thesis by auto
    qed
    with O(1-3) False Some show ?thesis
      by (auto simp: pools_ok_def push_pool_def ex)
  qed
qed

lemma fold_push_pool_ok:
  "pools_ok offered pools \<Longrightarrow> pools_ok (offered @ ps) (foldl (push_pool pool_id) pools ps)"
proof (induction ps arbitrary: offered pools)
  case (Cons p ps)
  from Cons.IH [OF push_pool_ok [OF Cons.prems, of p]] show ?case by simp
qed simp

lemma finish_pools:
  "pools_ok (miner # map rl_pool (rg_entries (finish pool_id unknown miner drafts by_slug)))
     (rg_pools (finish pool_id unknown miner drafts by_slug))"
proof -
  have "pools_ok [] []" by (simp add: pools_ok_def)
  from fold_push_pool_ok [OF this, of "miner # map rl_pool (map (resolve_draft unknown by_slug) (dedup_drafts [] drafts))"]
  show ?thesis by (simp add: finish_def Let_def)
qed

lemma finish_mixed:
  "rg_mixed (finish pool_id unknown miner drafts by_slug) \<longleftrightarrow>
     2 \<le> card (pool_id ` set (miner # map rl_pool (rg_entries (finish pool_id unknown miner drafts by_slug))) - {None})"
proof -
  let ?r = "finish pool_id unknown miner drafts by_slug"
  have ok: "distinct (map pool_id (rg_pools ?r))"
    "pool_id ` set (rg_pools ?r) = pool_id ` set (miner # map rl_pool (rg_entries ?r)) - {None}"
    using finish_pools [of miner drafts by_slug] unfolding pools_ok_def by blast+
  have "length (rg_pools ?r) = card (pool_id ` set (rg_pools ?r))"
    using distinct_card [OF ok(1)] by simp
  moreover have "rg_mixed ?r \<longleftrightarrow> 1 < length (rg_pools ?r)" by (simp add: finish_def Let_def)
  ultimately show ?thesis unfolding ok(2) by auto
qed

lemma finish_reference:
  "pool_id miner \<noteq> None \<Longrightarrow> rg_reference_pool (finish pool_id unknown miner drafts by_slug) = miner"
  "pool_id (rg_reference_pool (finish pool_id unknown miner drafts by_slug)) = None \<longleftrightarrow>
     rg_pools (finish pool_id unknown miner drafts by_slug) = []"
proof -
  let ?r = "finish pool_id unknown miner drafts by_slug"
  have ref: "rg_reference_pool ?r = (case rg_pools ?r of p # _ \<Rightarrow> p | [] \<Rightarrow> unknown)"
    by (simp add: finish_def Let_def)
  have ok: "pool_id miner \<noteq> None \<Longrightarrow> \<exists>qs. rg_pools ?r = miner # qs" "None \<notin> pool_id ` set (rg_pools ?r)"
    using finish_pools [of miner drafts by_slug] unfolding pools_ok_def by blast+
  show "pool_id miner \<noteq> None \<Longrightarrow> rg_reference_pool ?r = miner" using ok(1) by (auto simp: ref)
  show "pool_id (rg_reference_pool ?r) = None \<longleftrightarrow> rg_pools ?r = []"
    using ok(2) by (cases "rg_pools ?r") (auto simp: ref unknown_id)
qed

lemma finish_exact: "summary_exact pool_id unknown miner drafts by_slug (finish pool_id unknown miner drafts by_slug)"
proof -
  let ?r = "finish pool_id unknown miner drafts by_slug"
  have entries: "rg_entries ?r = map (resolve_draft unknown by_slug) (nub_by signal_key drafts)"
    by (simp add: finish_def Let_def dedup_drafts_nub)
  have "rg_pools ?r = foldl (push_pool pool_id) [] (miner # map rl_pool (rg_entries ?r))"
    by (simp add: finish_def Let_def)
  then have pools: "rg_pools ?r = nub_by pool_id (filter (\<lambda>p. pool_id p \<noteq> None) (miner # map rl_pool (rg_entries ?r)))"
    unfolding fold_push_pool_nub by simp
  have "rg_reference_pool ?r = (case rg_pools ?r of p # _ \<Rightarrow> p | [] \<Rightarrow> unknown)"
    by (simp add: finish_def Let_def)
  then show ?thesis
    unfolding summary_exact_def pools nub_by_head using entries pools finish_mixed by blast
qed

text \<open>Reading the ids first, or deriving first, gives the same summary.\<close>

lemma push_pool_ids:
  "map pool_id (push_pool pool_id pools p) = push_pool (\<lambda>i. i) (map pool_id pools) (pool_id p)"
proof -
  have "list_ex (\<lambda>s. s = Some i) (map pool_id pools) \<longleftrightarrow> list_ex (\<lambda>s. pool_id s = Some i) pools" for i
    by (induction pools) simp_all
  then show ?thesis by (simp add: push_pool_def split: option.splits)
qed

lemma fold_push_pool_ids:
  "map pool_id (foldl (push_pool pool_id) pools ps) = foldl (push_pool (\<lambda>i. i)) (map pool_id pools) (map pool_id ps)"
  by (induction ps arbitrary: pools) (simp_all add: push_pool_ids)

lemma finish_ids:
  "let r = finish pool_id unknown miner drafts by_slug;
       s = finish (\<lambda>i. i) None (pool_id miner) (map (draft_ids pool_id) drafts) (map_option pool_id \<circ> by_slug)
   in rg_mixed s = rg_mixed r \<and> rg_pools s = map pool_id (rg_pools r) \<and>
      rg_reference_pool s = pool_id (rg_reference_pool r) \<and>
      map rl_pool (rg_entries s) = map (pool_id \<circ> rl_pool) (rg_entries r)"
proof -
  have dedup: "dedup_drafts seen (map (draft_ids pool_id) ds) = map (draft_ids pool_id) (dedup_drafts seen ds)" for seen ds
    by (induction seen ds rule: dedup_drafts.induct) (simp_all add: signal_key_def draft_ids_def)
  have res: "rl_pool (resolve_draft None (\<lambda>x. map_option pool_id (by_slug x)) (draft_ids pool_id d)) =
      pool_id (rl_pool (resolve_draft unknown by_slug d))" for d
    by (simp add: resolve_draft_def draft_ids_def unknown_id split: draft_pool.splits option.splits)
  let ?ps = "foldl (push_pool pool_id) [] (miner # map (\<lambda>d. rl_pool (resolve_draft unknown by_slug d)) (dedup_drafts [] drafts))"
  have "foldl (push_pool (\<lambda>i. i)) [] (pool_id miner # map (\<lambda>d. pool_id (rl_pool (resolve_draft unknown by_slug d)))
      (dedup_drafts [] drafts)) = map pool_id ?ps"
    by (simp add: fold_push_pool_ids push_pool_ids comp_def)
  then show ?thesis
    by (cases "?ps") (simp_all add: finish_def Let_def dedup res comp_def unknown_id)
qed

end

interpretation bare: signal_pool "\<lambda>p. p" "None :: int option"
  by unfold_locales simp

text \<open>The API's instance, \<open>PoolObject\<close> of \<open>crates/mmm-api/src/projection/shared\<close>.\<close>

interpretation api: signal_pool pool_object_id unknown_pool
  by unfold_locales (simp add: pool_object_id_def unknown_pool_def)

text \<open>Reading the pool ids of the API's summary gives the summary of the pool ids.\<close>

lemma api_and_read_model_agree:
  "let r = finish pool_object_id unknown_pool miner drafts by_slug;
       s = finish (\<lambda>i. i) None (pool_object_id miner) (map (draft_ids pool_object_id) drafts)
             (map_option pool_object_id \<circ> by_slug)
   in rg_mixed s = rg_mixed r \<and> rg_pools s = map pool_object_id (rg_pools r) \<and>
      rg_reference_pool s = pool_object_id (rg_reference_pool r) \<and>
      map rl_pool (rg_entries s) = map (pool_object_id \<circ> rl_pool) (rg_entries r)"
  by (rule api.finish_ids)

text \<open>C37: Both summaries of a parent, the block page's over pool objects and the stored one over pool ids, are
  exactly what the signals say.  The entries are the drafts that repeat no earlier draft's kind,
  source, namespace and value, in order; the pools are the known ones of the miner and the entries,
  each id once, in order of first mention; the summary is mixed precisely when at least two
  different known pools are named; and the reference is the miner when its pool is known, else the
  first known pool of an entry, else the unknown pool.\<close>

theorem relationship_summary_exact:
  "summary_exact pool_object_id unknown_pool miner drafts by_slug
     (finish pool_object_id unknown_pool miner drafts by_slug) \<and>
   summary_exact (\<lambda>i. i) None miner_id id_drafts id_by_slug (finish (\<lambda>i. i) None miner_id id_drafts id_by_slug)"
  by (intro conjI api.finish_exact bare.finish_exact)

theorem chosen_copy_most_complete_witness:
  "\<exists>i t. (i, \<lparr>ce_script = None, ce_outputs = Some [], ce_outputs_text = None\<rparr>) \<in>
      set [(1 :: int, \<lparr>ce_script = Some [], ce_outputs = None, ce_outputs_text = None\<rparr>),
           (2, \<lparr>ce_script = None, ce_outputs = Some [], ce_outputs_text = None\<rparr>)] \<and> t = (0 :: nat)"
proof -
  let ?cs = "[(1 :: int, \<lparr>ce_script = Some [], ce_outputs = None, ce_outputs_text = None\<rparr>),
           (2, \<lparr>ce_script = None, ce_outputs = Some [], ce_outputs_text = None\<rparr>)]"
  have "choose_coinbase_evidence ?cs = Some \<lparr>ce_script = None, ce_outputs = Some [], ce_outputs_text = None\<rparr>"
    by code_simp
  with chosen_copy_most_complete [of ?cs] show ?thesis by blast
qed

end
