(* ===== verification/Event_Payload.thy ===== *)
theory Event_Payload
  imports Capture
begin

text \<open>
  \<open>crates/mmm-capture/src/capture/mod.rs\<close>, the event half: the \<open>merge_mining_event\<close> payload, the
  chain-agnostic evidence it is built from, and the re-application of a classification proof.
  The invalid-block catalogue and the \<open>bitcoin\<close> crate are parameters.
\<close>

record historical_event_provenance =
  hp_publication_ref :: string
  hp_chain :: string
  hp_source_kind :: string
  hp_source_path :: string
  hp_source_row_number :: int
  hp_artifact_scope :: string
  hp_provenance :: string
  hp_classification :: string
  hp_btc_height :: "int option"
  hp_validation_status :: "string option"
  hp_btc_stale_relevance :: "string option"
  hp_relevance_reason :: "string option"

record merge_mining_event_payload =
  ev_child_height :: "int option"
  ev_child_block_hash :: "bytes option"
  ev_child_header_bytes :: "bytes option"
  ev_child_block_time :: "int option"
  ev_child_nbits :: "u32 option"
  ev_child_prev_block_hash :: "bytes option"
  ev_btc_parent_header_hash :: bytes
  ev_btc_parent_prev_header_hash :: bytes
  ev_btc_parent_header_bytes :: bytes
  ev_btc_parent_header_time :: int
  ev_btc_parent_height :: "int option"
  ev_btc_parent_kind :: parent_kind
  ev_pow_validates_btc_target :: bool
  ev_pow_validates_child_target :: "bool option"
  ev_difficulty_epoch_ok :: "bool option"
  ev_classification_provisional :: bool
  ev_btc_parent_coinbase_txid :: "bytes option"
  ev_btc_parent_coinbase_script :: "bytes option"
  ev_btc_parent_coinbase_outputs :: "bytes option"
  ev_btc_parent_coinbase_outputs_text :: "string option"
  ev_btc_parent_coinbase_tx_bytes :: "bytes option"
  ev_child_coinbase_txid :: "bytes option"
  ev_child_coinbase_script :: "bytes option"
  ev_child_coinbase_outputs :: "bytes option"
  ev_aux_merkle_proof :: "bytes option"
  ev_pool_attributions :: "event_pool_attribution list"
  ev_discovered_at :: int
  ev_confirmed_at :: int
  ev_revoked_at :: "int option"
  ev_revocation_reason :: "string option"
  ev_historical_provenance :: "historical_event_provenance option"

record normalized_event_evidence =
  ne_child_height :: "int option"
  ne_child_block_hash :: "bytes option"
  ne_child_header_bytes :: "bytes option"
  ne_child_block_time :: "int option"
  ne_child_nbits :: "u32 option"
  ne_child_prev_block_hash :: "bytes option"
  ne_btc_parent_header :: header
  ne_pow_validates_child_target :: "bool option"
  ne_btc_parent_coinbase_txid :: "bytes option"
  ne_btc_parent_coinbase_script :: "bytes option"
  ne_btc_parent_coinbase_outputs :: "bytes option"
  ne_btc_parent_coinbase_outputs_text :: "string option"
  ne_btc_parent_coinbase_tx_bytes :: "bytes option"
  ne_child_coinbase_txid :: "bytes option"
  ne_child_coinbase_script :: "bytes option"
  ne_child_coinbase_outputs :: "bytes option"
  ne_aux_merkle_proof :: "bytes option"

definition build_event_payload_from_evidence ::
  "bitcoin_lib \<Rightarrow> invalid_catalogue \<Rightarrow> normalized_event_evidence \<Rightarrow> event_pool_attribution list \<Rightarrow>
     classification_proof \<Rightarrow> int \<Rightarrow> (capture_error, merge_mining_event_payload) result" where
  "build_event_payload_from_evidence L catalogue evidence pool_attributions proof observed_at_epoch =
     (let parent_hash = block_hash L (ne_btc_parent_header evidence);
          pow_validates_btc_target = validates_target L parent_hash (h_bits (ne_btc_parent_header evidence));
          (proven_kind, btc_parent_height) =
            invalid_block_proof catalogue parent_hash pow_validates_btc_target proof in
      rbind (classify_parent pow_validates_btc_target proven_kind btc_parent_height) (\<lambda>btc_parent_kind.
      Inr \<lparr>ev_child_height = ne_child_height evidence,
        ev_child_block_hash = ne_child_block_hash evidence,
        ev_child_header_bytes = ne_child_header_bytes evidence,
        ev_child_block_time = ne_child_block_time evidence,
        ev_child_nbits = ne_child_nbits evidence,
        ev_child_prev_block_hash = ne_child_prev_block_hash evidence,
        ev_btc_parent_header_hash = parent_hash,
        ev_btc_parent_prev_header_hash = h_prev_blockhash (ne_btc_parent_header evidence),
        ev_btc_parent_header_bytes = serialize_header L (ne_btc_parent_header evidence),
        ev_btc_parent_header_time = uint (h_time (ne_btc_parent_header evidence)),
        ev_btc_parent_height = btc_parent_height,
        ev_btc_parent_kind = btc_parent_kind,
        ev_pow_validates_btc_target = pow_validates_btc_target,
        ev_pow_validates_child_target = ne_pow_validates_child_target evidence,
        ev_difficulty_epoch_ok = pf_difficulty_epoch_ok proof,
        ev_classification_provisional = False,
        ev_btc_parent_coinbase_txid = ne_btc_parent_coinbase_txid evidence,
        ev_btc_parent_coinbase_script = ne_btc_parent_coinbase_script evidence,
        ev_btc_parent_coinbase_outputs = ne_btc_parent_coinbase_outputs evidence,
        ev_btc_parent_coinbase_outputs_text = ne_btc_parent_coinbase_outputs_text evidence,
        ev_btc_parent_coinbase_tx_bytes = ne_btc_parent_coinbase_tx_bytes evidence,
        ev_child_coinbase_txid = ne_child_coinbase_txid evidence,
        ev_child_coinbase_script = ne_child_coinbase_script evidence,
        ev_child_coinbase_outputs = ne_child_coinbase_outputs evidence,
        ev_aux_merkle_proof = ne_aux_merkle_proof evidence,
        ev_pool_attributions = pool_attributions,
        ev_discovered_at = observed_at_epoch, ev_confirmed_at = observed_at_epoch,
        ev_revoked_at = None, ev_revocation_reason = None, ev_historical_provenance = None\<rparr>))"

definition apply_classification_proof ::
  "invalid_catalogue \<Rightarrow> merge_mining_event_payload \<Rightarrow> classification_proof \<Rightarrow>
     (capture_error, merge_mining_event_payload) result" where
  "apply_classification_proof catalogue payload proof =
     (let (proven_kind, btc_parent_height) =
            invalid_block_proof catalogue (ev_btc_parent_header_hash payload)
              (ev_pow_validates_btc_target payload) proof in
      rbind (classify_parent (ev_pow_validates_btc_target payload) proven_kind btc_parent_height) (\<lambda>kind.
      Inr (payload\<lparr>ev_btc_parent_kind := kind, ev_btc_parent_height := btc_parent_height,
             ev_difficulty_epoch_ok := pf_difficulty_epoch_ok proof,
             ev_classification_provisional := pf_provisional proof\<rparr>)))"

definition namecoin_evidence ::
  "bitcoin_lib \<Rightarrow> parsed_auxpow_block \<Rightarrow> int option \<Rightarrow> (capture_error, normalized_event_evidence) result" where
  "namecoin_evidence L parsed child_height_hint =
     rbind (ok_or ChildHeightUnavailable
       (case child_height_hint of Some h \<Rightarrow> Some h | None \<Rightarrow> pb_child_height parsed)) (\<lambda>child_height.
     Inr \<lparr>ne_child_height = Some child_height,
       ne_child_block_hash = Some (ph_hash L (pb_child_header parsed)),
       ne_child_header_bytes = Some (serialize_header L (ph_header (pb_child_header parsed))),
       ne_child_block_time = Some (uint (h_time (ph_header (pb_child_header parsed)))),
       ne_child_nbits = Some (ph_bits (pb_child_header parsed)),
       ne_child_prev_block_hash = None,
       ne_btc_parent_header = ph_header (pb_parent_header parsed),
       ne_pow_validates_child_target =
         Some (validates_target L (ph_hash L (pb_parent_header parsed)) (ph_bits (pb_child_header parsed))),
       ne_btc_parent_coinbase_txid = Some (pb_parent_coinbase_txid parsed),
       ne_btc_parent_coinbase_script = Some (pb_parent_coinbase_script parsed),
       ne_btc_parent_coinbase_outputs = Some (serialize_txouts L (pb_parent_coinbase_outputs parsed)),
       ne_btc_parent_coinbase_outputs_text = None, ne_btc_parent_coinbase_tx_bytes = None,
       ne_child_coinbase_txid = pb_child_coinbase_txid parsed,
       ne_child_coinbase_script = pb_child_coinbase_script parsed,
       ne_child_coinbase_outputs =
         (if pb_child_coinbase_outputs parsed \<noteq> []
          then Some (serialize_txouts L (pb_child_coinbase_outputs parsed)) else None),
       ne_aux_merkle_proof = Some (pb_auxpow_bytes parsed)\<rparr>)"

definition build_event_payload ::
  "bitcoin_lib \<Rightarrow> invalid_catalogue \<Rightarrow> parsed_auxpow_block \<Rightarrow> int option \<Rightarrow> event_pool_attribution list \<Rightarrow>
     classification_proof \<Rightarrow> int \<Rightarrow> (capture_error, merge_mining_event_payload) result" where
  "build_event_payload L catalogue parsed child_height_hint pool_attributions proof observed_at_epoch =
     rbind (namecoin_evidence L parsed child_height_hint) (\<lambda>evidence.
       build_event_payload_from_evidence L catalogue evidence pool_attributions proof observed_at_epoch)"

section \<open>What a payload says of its parent\<close>

lemma classify_parent_Inr:
  "classify_parent pow kind height = Inr k \<longleftrightarrow>
     (if \<not> pow then k = Near
      else kind \<noteq> Some Near \<and> k = (case kind of Some k' \<Rightarrow> k' | None \<Rightarrow> Unknown) \<and>
        (k \<in> {Canonical, Stale, InvalidBlock} \<longrightarrow> height \<noteq> None))"
  by (auto simp: classify_parent_def split: option.splits parent_kind.splits if_splits)

lemma build_from_evidence_Inr:
  assumes "build_event_payload_from_evidence L catalogue e rows p t = Inr pl"
  obtains kind height where
    "invalid_block_proof catalogue (ev_btc_parent_header_hash pl) (ev_pow_validates_btc_target pl) p = (kind, height)"
    "classify_parent (ev_pow_validates_btc_target pl) kind height = Inr (ev_btc_parent_kind pl)"
    "ev_btc_parent_height pl = height"
    "ev_btc_parent_header_hash pl = block_hash L (ne_btc_parent_header e)"
    "ev_pow_validates_btc_target pl = pow_validates_target L (ne_btc_parent_header e)"
  using assms
  by (auto simp: build_event_payload_from_evidence_def Let_def pow_validates_target_def
      result_simps split: prod.splits)

text \<open>C5: The parent kind an event records is sound for every proof the classifier supplies: it is Near
  exactly when the parent header misses its own target, a parent in the invalid-block catalogue
  that meets its target is never recorded as anything else, a canonical, stale or invalid parent
  always has a height, and an unknown one never does.\<close>

theorem payload_kind_sound:
  assumes "build_event_payload_from_evidence L catalogue e rows p t = Inr pl"
  shows "(ev_btc_parent_kind pl = Near \<longleftrightarrow> \<not> pow_validates_target L (ne_btc_parent_header e)) \<and>
    (\<forall>ib. pow_validates_target L (ne_btc_parent_header e) \<longrightarrow>
      invalid_block_lookup catalogue (block_hash L (ne_btc_parent_header e)) = Some ib \<longrightarrow>
      ev_btc_parent_kind pl = InvalidBlock \<and> ev_btc_parent_height pl = Some (ib_height ib)) \<and>
    (ev_btc_parent_kind pl \<in> {Canonical, Stale, InvalidBlock} \<longrightarrow> ev_btc_parent_height pl \<noteq> None) \<and>
    (ev_btc_parent_kind pl = Unknown \<longrightarrow> ev_btc_parent_height pl = None)"
proof -
  obtain kind height where I: "invalid_block_proof catalogue (ev_btc_parent_header_hash pl)
        (ev_pow_validates_btc_target pl) p = (kind, height)"
    and K: "classify_parent (ev_pow_validates_btc_target pl) kind height = Inr (ev_btc_parent_kind pl)"
    and E: "ev_btc_parent_height pl = height" "ev_btc_parent_header_hash pl = block_hash L (ne_btc_parent_header e)"
      "ev_pow_validates_btc_target pl = pow_validates_target L (ne_btc_parent_header e)"
    using build_from_evidence_Inr [OF assms] .
  show ?thesis
    using I K unfolding E classify_parent_Inr invalid_block_proof_def
    by (auto simp: Let_def split: option.splits parent_kind.splits if_splits)
qed

text \<open>Re-applying a proof to a built payload gives exactly the payload, or the error, that building
  from the same evidence with that proof would have given, apart from the provisional flag, which
  only re-application takes from the proof.  So no classification depends on the order in which
  proofs arrived.\<close>

theorem reclassification_agrees_with_rebuild:
  assumes "build_event_payload_from_evidence L catalogue e rows p t = Inr pl"
  shows "apply_classification_proof catalogue pl q =
    rbind (build_event_payload_from_evidence L catalogue e rows q t)
      (\<lambda>pl'. Inr (pl'\<lparr>ev_classification_provisional := pf_provisional q\<rparr>))"
proof -
  let ?h = "block_hash L (ne_btc_parent_header e)"
  let ?pow = "validates_target L ?h (h_bits (ne_btc_parent_header e))"
  obtain qk qh where q: "invalid_block_proof catalogue ?h ?pow q = (qk, qh)" by fastforce
  obtain pk ph where p: "invalid_block_proof catalogue ?h ?pow p = (pk, ph)" by fastforce
  show ?thesis
    using assms q p
    by (cases "classify_parent ?pow qk qh"; cases "classify_parent ?pow pk ph")
      (auto simp: build_event_payload_from_evidence_def apply_classification_proof_def Let_def)
qed

lemma build_from_evidence_copies:
  assumes "build_event_payload_from_evidence L catalogue e rows p t = Inr pl"
  shows "ev_child_height pl = ne_child_height e" and "ev_child_block_hash pl = ne_child_block_hash e"
    and "ev_child_header_bytes pl = ne_child_header_bytes e"
    and "ev_pow_validates_child_target pl = ne_pow_validates_child_target e"
    and "ev_aux_merkle_proof pl = ne_aux_merkle_proof e"
  using assms
  by (auto simp: build_event_payload_from_evidence_def Let_def result_simps
      split: prod.splits)

text \<open>C35: An event of an authenticated classic block records the hash it was requested by and the
  height in its coinbase or the caller's hint, that the parent met the child's target, and proof
  bytes that decode to the proof that was verified.\<close>

theorem verified_block_event:
  assumes L: "lib_tx_ok L" "lib_header_ok L" and raw: "length raw < 2 ^ 63"
    and ok: "parse_verified_classic_block L raw h height cid = Inr (Auxpow parsed)"
    and ev: "build_event_payload L catalogue parsed hint rows p t = Inr pl"
  shows "ev_child_block_hash pl = Some h \<and>
    ev_child_height pl = Some (case hint of Some n \<Rightarrow> n | None \<Rightarrow> height) \<and>
    ev_child_header_bytes pl = Some (take header_size raw) \<and>
    ev_pow_validates_child_target pl = Some True \<and>
    Option.bind (ev_aux_merkle_proof pl) (decode_auxpow_proof L) = proof_detail L parsed \<and>
    proof_detail L parsed \<noteq> None"
proof -
  obtain e where e: "namecoin_evidence L parsed hint = Inr e"
    and b: "build_event_payload_from_evidence L catalogue e rows p t = Inr pl"
    using ev by (auto simp: build_event_payload_def result_simps)
  show ?thesis
    using verified_classic_facts(1,2,6) [OF ok] verified_classic_stored(1,2,3) [OF L raw ok] e
    unfolding build_from_evidence_copies [OF b]
    by (auto simp: namecoin_evidence_def ok_or_def split: option.splits)
qed

text \<open>With no external proof a payload is always built, from any evidence.\<close>

lemma build_from_evidence_default:
  "\<exists>pl. build_event_payload_from_evidence L catalogue e rows classification_proof_default t = Inr pl"
  by (auto simp: build_event_payload_from_evidence_def classification_proof_default_def
      invalid_block_proof_def classify_parent_def Let_def split: option.splits)

lemma build_event_payload_default:
  assumes "pb_child_height parsed = Some n"
  shows "\<exists>pl. build_event_payload L catalogue parsed hint rows classification_proof_default t = Inr pl"
  unfolding build_event_payload_def namecoin_evidence_def
  using assms build_from_evidence_default by (auto simp: ok_or_def split: option.splits)

theorem verified_block_event_witness:
  "\<exists>pl. build_event_payload demo_lib [] demo_verified None [] classification_proof_default 0 = Inr pl \<and>
    ev_child_block_hash pl = Some demo_child_hash \<and> ev_child_height pl = Some 5 \<and>
    ev_pow_validates_child_target pl = Some True"
proof -
  have h: "pb_child_height demo_verified = Some 5"
    using verified_classic_facts(2) [OF demo_raw_verified] .
  obtain pl where pl: "build_event_payload demo_lib [] demo_verified None [] classification_proof_default 0 = Inr pl"
    using build_event_payload_default [OF h] by blast
  show ?thesis
    using verified_block_event [OF demo_lib_ok(2,3) demo_raw_length demo_raw_verified pl] pl by simp
qed

text \<open>Two parents for the witnesses: one that meets its own target and one that does not.\<close>

definition demo_event_evidence :: "u32 \<Rightarrow> normalized_event_evidence" where
  "demo_event_evidence bits =
     \<lparr>ne_child_height = Some 5, ne_child_block_hash = None, ne_child_header_bytes = None,
      ne_child_block_time = None, ne_child_nbits = None, ne_child_prev_block_hash = None,
      ne_btc_parent_header = \<lparr>h_version = 4, h_prev_blockhash = replicate 32 0,
        h_merkle_root = replicate 32 7, h_time = 9, h_bits = bits, h_nonce = 0\<rparr>,
      ne_pow_validates_child_target = None, ne_btc_parent_coinbase_txid = None,
      ne_btc_parent_coinbase_script = None, ne_btc_parent_coinbase_outputs = None,
      ne_btc_parent_coinbase_outputs_text = None, ne_btc_parent_coinbase_tx_bytes = None,
      ne_child_coinbase_txid = None, ne_child_coinbase_script = None, ne_child_coinbase_outputs = None,
      ne_aux_merkle_proof = None\<rparr>"

definition demo_stale_proof :: classification_proof where
  "demo_stale_proof = \<lparr>pf_parent_kind = Some Stale, pf_parent_height = Some 12,
     pf_difficulty_epoch_ok = Some True, pf_provisional = True\<rparr>"

lemma invalid_block_lookup_Nil [simp]: "invalid_block_lookup [] h = None"
  by (simp add: invalid_block_lookup_def)

lemma demo_parents:
  "pow_validates_target demo_lib (ne_btc_parent_header (demo_event_evidence 0x1D00FFFF))"
  "\<not> pow_validates_target demo_lib (ne_btc_parent_header (demo_event_evidence 0x1D000003))"
  by code_simp+

theorem payload_kind_sound_witness:
  "(\<exists>pl. build_event_payload_from_evidence demo_lib [] (demo_event_evidence 0x1D000003) []
      classification_proof_default 0 = Inr pl \<and> ev_btc_parent_kind pl = Near) \<and>
   (\<exists>pl. build_event_payload_from_evidence demo_lib
      [(block_hash demo_lib (ne_btc_parent_header (demo_event_evidence 0x1D00FFFF)), demo_invalid_block)]
      (demo_event_evidence 0x1D00FFFF) [] classification_proof_default 0 = Inr pl \<and>
      ev_btc_parent_kind pl = InvalidBlock \<and> ev_btc_parent_height pl = Some 7)"
proof -
  let ?h = "block_hash demo_lib (ne_btc_parent_header (demo_event_evidence 0x1D00FFFF))"
  obtain pl where pl: "build_event_payload_from_evidence demo_lib [] (demo_event_evidence 0x1D000003) []
      classification_proof_default 0 = Inr pl"
    using build_from_evidence_default by blast
  obtain pl' where pl': "build_event_payload_from_evidence demo_lib [(?h, demo_invalid_block)]
      (demo_event_evidence 0x1D00FFFF) [] classification_proof_default 0 = Inr pl'"
    using build_from_evidence_default by blast
  have "invalid_block_lookup [(?h, demo_invalid_block)] ?h = Some demo_invalid_block"
    by (simp add: invalid_block_lookup_def demo_lib_def)
  then show ?thesis
    using payload_kind_sound [OF pl] payload_kind_sound [OF pl'] pl pl' demo_parents
    by (auto simp: demo_invalid_block_def)
qed

theorem reclassification_agrees_with_rebuild_witness:
  "\<exists>pl pl'. build_event_payload_from_evidence demo_lib [] (demo_event_evidence 0x1D00FFFF) []
      classification_proof_default 0 = Inr pl \<and>
    apply_classification_proof [] pl demo_stale_proof = Inr pl' \<and>
    ev_btc_parent_kind pl = Unknown \<and> ev_btc_parent_kind pl' = Stale \<and> ev_classification_provisional pl'"
proof -
  let ?e = "demo_event_evidence 0x1D00FFFF"
  have pow: "validates_target demo_lib (block_hash demo_lib (ne_btc_parent_header ?e))
      (h_bits (ne_btc_parent_header ?e))"
    using demo_parents(1) by (simp add: pow_validates_target_def)
  obtain pl where pl: "build_event_payload_from_evidence demo_lib [] ?e [] classification_proof_default 0 = Inr pl"
    using build_from_evidence_default by blast
  obtain pq where pq: "build_event_payload_from_evidence demo_lib [] ?e [] demo_stale_proof 0 = Inr pq"
      "ev_btc_parent_kind pq = Stale"
    using pow by (auto simp: build_event_payload_from_evidence_def demo_stale_proof_def invalid_block_proof_def
        classify_parent_def Let_def)
  have "ev_btc_parent_kind pl = Unknown"
    using pl pow by (auto simp: build_event_payload_from_evidence_def classification_proof_default_def
        invalid_block_proof_def classify_parent_def Let_def)
  then show ?thesis
    using reclassification_agrees_with_rebuild [OF pl, of demo_stale_proof] pl pq
    by (simp add: demo_stale_proof_def)
qed

end
