(* ===== verification/Observation.thy ===== *)
theory Observation
  imports Event_Payload
begin

text \<open>
  \<open>crates/mmm-capture/src/capture/observation.rs\<close>: the \<open>child_block_observation\<close> row of every
  observed child block, with the child identities and pools it takes from the attributions.  A
  \<open>BTreeSet\<close> is its sorted list of distinct elements.
\<close>

section \<open>Rows\<close>

datatype observation_kind = Evidence | NearKind | NotMergeMined | NonBitcoinParent | UnverifiedParent

definition observation_kind_as_db_str :: "observation_kind \<Rightarrow> string" where
  "observation_kind_as_db_str k =
     (case k of Evidence \<Rightarrow> ''evidence'' | NearKind \<Rightarrow> ''near'' | NotMergeMined \<Rightarrow> ''not_merge_mined''
      | NonBitcoinParent \<Rightarrow> ''non_bitcoin_parent'' | UnverifiedParent \<Rightarrow> ''unverified_parent'')"

definition is_child_only :: "observation_kind \<Rightarrow> bool" where
  "is_child_only k \<longleftrightarrow> \<not> (k = Evidence \<or> k = NearKind)"

record near_parent_evidence =
  np_header_bytes :: bytes
  np_header_time :: int
  np_coinbase_txid :: "bytes option"
  np_coinbase_script :: "bytes option"
  np_coinbase_outputs :: "bytes option"

text \<open>The derived order compares the namespace first.\<close>

datatype child_identity = ChildIdentity (ci_namespace: string) (ci_identifier: string)

instantiation child_identity :: linorder
begin

definition less_eq_child_identity :: "child_identity \<Rightarrow> child_identity \<Rightarrow> bool" where
  "a \<le> b \<longleftrightarrow> (ci_namespace a, ci_identifier a) \<le> (ci_namespace b, ci_identifier b)"

definition less_child_identity :: "child_identity \<Rightarrow> child_identity \<Rightarrow> bool" where
  "a < b \<longleftrightarrow> (ci_namespace a, ci_identifier a) < (ci_namespace b, ci_identifier b)"

instance
  by standard (auto simp: less_eq_child_identity_def less_child_identity_def child_identity.expand)

end

record child_block_observation =
  ob_kind :: observation_kind
  ob_child_height :: "int option"
  ob_child_block_hash :: "bytes option"
  ob_child_block_time :: "int option"
  ob_child_header_bytes :: "bytes option"
  ob_child_nbits :: "u32 option"
  ob_child_prev_block_hash :: "bytes option"
  ob_child_coinbase_txid :: "bytes option"
  ob_child_coinbase_script :: "bytes option"
  ob_child_coinbase_outputs :: "bytes option"
  ob_pow_validates_child_target :: "bool option"
  ob_btc_parent_header_hash :: "bytes option"
  ob_near_parent :: "near_parent_evidence option"
  ob_child_identities :: "child_identity list"
  ob_child_pool_id :: "int option"
  ob_child_pools_conflict :: bool
  ob_btc_parent_pool_id :: "int option"
  ob_recorded_at :: int

section \<open>Identities and pools of the attributions\<close>

definition is_child_identity_namespace :: "string \<Rightarrow> bool" where
  "is_child_identity_namespace namespace \<longleftrightarrow> \<not> str_starts_with namespace ''btc_''"

definition child_identities :: "event_pool_attribution list \<Rightarrow> child_identity list" where
  "child_identities attributions =
     remdups_adj (sort (map (\<lambda>row. ChildIdentity (at_namespace row) (at_matched_value row))
       (filter (\<lambda>row. at_side row = ChildBlock \<and> is_child_identity_namespace (at_namespace row)) attributions)))"

definition known_pools :: "event_pool_attribution list \<Rightarrow> pool_attribution_side \<Rightarrow> int list" where
  "known_pools attributions side =
     sort (remdups (List.map_filter at_pool_id (filter (\<lambda>row. at_side row = side) attributions)))"

definition unique_pool :: "event_pool_attribution list \<Rightarrow> pool_attribution_side \<Rightarrow> int option" where
  "unique_pool attributions side = (case known_pools attributions side of [pool] \<Rightarrow> Some pool | _ \<Rightarrow> None)"

definition header_prev_block_hash :: "bytes \<Rightarrow> bytes option" where
  "header_prev_block_hash h = (if length h = 80 then Some (slice h 4 36) else None)"

section \<open>Constructors\<close>

definition set_child_side_attribution ::
  "event_pool_attribution list \<Rightarrow> child_block_observation \<Rightarrow> child_block_observation" where
  "set_child_side_attribution attributions obs =
     obs\<lparr>ob_child_identities := child_identities attributions,
         ob_child_pool_id := unique_pool attributions ChildBlock,
         ob_child_pools_conflict := (1 < length (known_pools attributions ChildBlock))\<rparr>"

definition child_side :: "observation_kind \<Rightarrow> merge_mining_event_payload \<Rightarrow> child_block_observation" where
  "child_side kind payload =
     \<lparr>ob_kind = kind, ob_child_height = ev_child_height payload,
      ob_child_block_hash = ev_child_block_hash payload,
      ob_child_block_time = ev_child_block_time payload,
      ob_child_header_bytes = ev_child_header_bytes payload,
      ob_child_nbits = ev_child_nbits payload,
      ob_child_prev_block_hash =
        (case ev_child_prev_block_hash payload of
           Some h \<Rightarrow> Some h
         | None \<Rightarrow> Option.bind (ev_child_header_bytes payload) header_prev_block_hash),
      ob_child_coinbase_txid = ev_child_coinbase_txid payload,
      ob_child_coinbase_script = ev_child_coinbase_script payload,
      ob_child_coinbase_outputs = ev_child_coinbase_outputs payload,
      ob_pow_validates_child_target = ev_pow_validates_child_target payload,
      ob_btc_parent_header_hash = None, ob_near_parent = None, ob_child_identities = [],
      ob_child_pool_id = None, ob_child_pools_conflict = False, ob_btc_parent_pool_id = None,
      ob_recorded_at = ev_discovered_at payload\<rparr>"

definition from_event_payload :: "merge_mining_event_payload \<Rightarrow> child_block_observation" where
  "from_event_payload payload =
     (child_side Evidence payload)\<lparr>ob_btc_parent_header_hash := Some (ev_btc_parent_header_hash payload)\<rparr>"

text \<open>The \<open>debug_assert\<close> on the parent kind is not part of a release build.\<close>

definition near :: "merge_mining_event_payload \<Rightarrow> child_block_observation" where
  "near payload =
     (set_child_side_attribution (ev_pool_attributions payload)
       ((child_side NearKind payload)
          \<lparr>ob_btc_parent_header_hash := Some (ev_btc_parent_header_hash payload),
           ob_near_parent := Some
             \<lparr>np_header_bytes = ev_btc_parent_header_bytes payload,
              np_header_time = ev_btc_parent_header_time payload,
              np_coinbase_txid = ev_btc_parent_coinbase_txid payload,
              np_coinbase_script = ev_btc_parent_coinbase_script payload,
              np_coinbase_outputs = ev_btc_parent_coinbase_outputs payload\<rparr>\<rparr>))
     \<lparr>ob_btc_parent_pool_id := unique_pool (ev_pool_attributions payload) BtcParent\<rparr>"

definition non_bitcoin_parent :: "merge_mining_event_payload \<Rightarrow> child_block_observation" where
  "non_bitcoin_parent payload =
     set_child_side_attribution (ev_pool_attributions payload) (child_side NonBitcoinParent payload)"

definition child_only ::
  "observation_kind \<Rightarrow> int \<Rightarrow> bytes \<Rightarrow> int option \<Rightarrow> bytes option \<Rightarrow> int \<Rightarrow> child_block_observation" where
  "child_only kind child_height child_block_hash child_block_time child_prev_block_hash recorded_at =
     \<lparr>ob_kind = kind, ob_child_height = Some child_height, ob_child_block_hash = Some child_block_hash,
      ob_child_block_time = child_block_time, ob_child_header_bytes = None, ob_child_nbits = None,
      ob_child_prev_block_hash = child_prev_block_hash, ob_child_coinbase_txid = None,
      ob_child_coinbase_script = None, ob_child_coinbase_outputs = None,
      ob_pow_validates_child_target = None, ob_btc_parent_header_hash = None, ob_near_parent = None,
      ob_child_identities = [], ob_child_pool_id = None, ob_child_pools_conflict = False,
      ob_btc_parent_pool_id = None, ob_recorded_at = recorded_at\<rparr>"

definition child_only_from_header ::
  "bitcoin_lib \<Rightarrow> observation_kind \<Rightarrow> int \<Rightarrow> header \<Rightarrow> int \<Rightarrow> child_block_observation" where
  "child_only_from_header L kind child_height hdr recorded_at =
     (child_only kind child_height (block_hash L hdr) (Some (uint (h_time hdr)))
        (Some (h_prev_blockhash hdr)) recorded_at)
     \<lparr>ob_child_header_bytes := Some (serialize_header L hdr), ob_child_nbits := Some (h_bits hdr)\<rparr>"

section \<open>What the rows say of the attributions\<close>

lemma set_known_pools:
  "set (known_pools attributions side) =
     {pool. \<exists>row \<in> set attributions. at_side row = side \<and> at_pool_id row = Some pool}"
  by (force simp: known_pools_def List.map_filter_def)

lemma known_pools_sorted_distinct: "sorted (known_pools attributions side) \<and> distinct (known_pools attributions side)"
  by (simp add: known_pools_def)

lemma unique_pool_iff:
  "unique_pool attributions side = Some pool \<longleftrightarrow> set (known_pools attributions side) = {pool}"
proof -
  have d: "distinct (known_pools attributions side)" using known_pools_sorted_distinct by blast
  show ?thesis
  proof (cases "known_pools attributions side")
    case (Cons p ps)
    with d show ?thesis by (cases ps) (auto simp: unique_pool_def)
  qed (simp add: unique_pool_def)
qed

lemma sorted_remdups_adj_distinct: "sorted xs \<Longrightarrow> distinct (remdups_adj xs)"
  by (induction xs rule: remdups_adj.induct) auto

lemma child_identities_sorted_distinct:
  "sorted (child_identities attributions) \<and> distinct (child_identities attributions)"
  by (simp add: child_identities_def sorted_remdups_adj_distinct)

lemma set_child_identities:
  "ChildIdentity n v \<in> set (child_identities attributions) \<longleftrightarrow>
     (\<exists>row \<in> set attributions. at_side row = ChildBlock \<and> is_child_identity_namespace (at_namespace row) \<and>
        at_namespace row = n \<and> at_matched_value row = v)"
  by (auto simp: child_identities_def)

lemma length_known_pools: "length (known_pools attributions side) = card (set (known_pools attributions side))"
  using known_pools_sorted_distinct distinct_card by metis

text \<open>The near row of a payload names a child pool exactly when all its child-side attributions with
  a known pool agree on it, and is marked conflicting exactly when they disagree, so a row never
  both names a pool and conflicts; its identities are the child-side values outside the Bitcoin
  namespaces, sorted and without repeats.\<close>

theorem near_row_child_side:
  fixes payload
  defines "pools \<equiv> {pool. \<exists>row \<in> set (ev_pool_attributions payload).
      at_side row = ChildBlock \<and> at_pool_id row = Some pool}"
  shows "(ob_child_pool_id (near payload) = Some p \<longleftrightarrow> pools = {p}) \<and>
    (ob_child_pools_conflict (near payload) \<longleftrightarrow> 2 \<le> card pools) \<and>
    sorted (ob_child_identities (near payload)) \<and> distinct (ob_child_identities (near payload)) \<and>
    (ChildIdentity n v \<in> set (ob_child_identities (near payload)) \<longleftrightarrow>
      (\<exists>row \<in> set (ev_pool_attributions payload). at_side row = ChildBlock \<and>
        is_child_identity_namespace n \<and> at_namespace row = n \<and> at_matched_value row = v))"
proof -
  have pools: "set (known_pools (ev_pool_attributions payload) ChildBlock) = pools"
    by (simp add: pools_def set_known_pools)
  have near: "ob_child_pool_id (near payload) = unique_pool (ev_pool_attributions payload) ChildBlock"
      "ob_child_pools_conflict (near payload) \<longleftrightarrow> 1 < length (known_pools (ev_pool_attributions payload) ChildBlock)"
      "ob_child_identities (near payload) = child_identities (ev_pool_attributions payload)"
    by (simp_all add: near_def set_child_side_attribution_def)
  show ?thesis
    unfolding near unique_pool_iff length_known_pools pools set_child_identities
    using child_identities_sorted_distinct by auto
qed

lemma params_identity_namespace:
  assumes "params_for_source_code code = Some params"
  shows "is_child_identity_namespace (cp_namespace params)"
  using assms
  by (auto simp: params_for_source_code_def namecoin_child_payout_params_def syscoin_child_payout_params_def
      fractal_child_reward_params_def qbit_child_payout_params_def is_child_identity_namespace_def
      str_starts_with_def split: if_splits)

text \<open>For the attributions capture resolves from a block, the child identities of the row are
  exactly the payout addresses of the child coinbase in the chain's own format, whatever pools the
  parent coinbase and the child script matched.\<close>

theorem captured_identities_are_payout_addresses:
  "set (child_identities (resolve_event_pools_with_child_payout A parsed resolver ids
      (params_for_source_code code) identities)) =
    (case params_for_source_code code of
       None \<Rightarrow> {}
     | Some params \<Rightarrow> ChildIdentity (cp_namespace params) `
         set (child_output_addresses A (pb_child_coinbase_outputs parsed) params))"
proof -
  have btc: "\<not> is_child_identity_namespace ''btc_coinbase_tag''"
    by (simp add: is_child_identity_namespace_def str_starts_with_def)
  have p: "filter (\<lambda>row. at_side row = ChildBlock \<and> is_child_identity_namespace (at_namespace row))
      (case resolve_parent_pool_attribution_from_coinbase s as resolver ids of None \<Rightarrow> [] | Some r \<Rightarrow> [r]) = []" for s as
    using parent_row(1) [of s as resolver ids] by (auto split: option.splits)
  have c: "filter (\<lambda>row. at_side row = ChildBlock \<and> is_child_identity_namespace (at_namespace row))
      (case resolve_child_pool_attribution_from_script s resolver ids of None \<Rightarrow> [] | Some r \<Rightarrow> [r]) = []" for s
    using child_script_row(2) [of s resolver ids] btc by (auto split: option.splits)
  have y: "set (child_identities (resolve_child_payout_attributions A outs params identities)) =
      ChildIdentity (cp_namespace params) ` set (child_output_addresses A outs params)"
    if "params_for_source_code code = Some params" for outs params
    using params_identity_namespace [OF that]
    by (auto simp: child_identities_def resolve_child_payout_attributions_def child_payout_address_def Let_def
        image_image)
  have split: "child_identities (xs @ ys) = child_identities ys"
    if "filter (\<lambda>row. at_side row = ChildBlock \<and> is_child_identity_namespace (at_namespace row)) xs = []" for xs ys
    using that by (simp add: child_identities_def)
  show ?thesis
    unfolding resolve_event_pools_with_child_payout_def split [OF p] split [OF c]
    using y by (auto simp: child_identities_def split: option.splits)
qed

end
