(* ===== verification/Attribution_Policy.thy ===== *)
theory Attribution_Policy
  imports Capture
begin

text \<open>
  \<open>crates/mmm-capture/src/attribution_policy.rs\<close>: which replayed child-side attributions are
  written over the stored ones.
\<close>

datatype write_policy = ChildPayout bool | IdentityPromoteOnly

record keyed_attribution_row =
  kr_source :: string
  kr_match_kind :: string
  kr_pool_id :: "int option"
  kr_pool_identity_id :: "int option"
  kr_confidence :: string
  kr_details :: json

type_synonym existing_attribution_set = "string \<times> string \<rightharpoonup> keyed_attribution_row"

definition json_str_field :: "json \<Rightarrow> string \<Rightarrow> string option" where
  "json_str_field row key = Option.bind (json_get row key) json_as_str"

definition insert_json_row :: "existing_attribution_set \<Rightarrow> json \<Rightarrow> existing_attribution_set" where
  "insert_json_row by_key row =
     (case (json_str_field row ''namespace'', json_str_field row ''matched_value'',
            json_str_field row ''source'', json_str_field row ''match_kind'',
            json_str_field row ''confidence'') of
        (Some namespace, Some matched_value, Some source, Some match_kind, Some confidence) \<Rightarrow>
          by_key((namespace, matched_value) \<mapsto>
            \<lparr>kr_source = source, kr_match_kind = match_kind,
             kr_pool_id = Option.bind (json_get row ''pool_id'') json_as_i64,
             kr_pool_identity_id = Option.bind (json_get row ''pool_identity_id'') json_as_i64,
             kr_confidence = confidence,
             kr_details = (case json_get row ''details'' of Some d \<Rightarrow> d | None \<Rightarrow> JObject [])\<rparr>)
      | _ \<Rightarrow> by_key)"

definition existing_from_json :: "json \<Rightarrow> existing_attribution_set" where
  "existing_from_json value =
     (case json_as_array value of None \<Rightarrow> Map.empty | Some rows \<Rightarrow> foldl insert_json_row Map.empty rows)"

definition keyed_matches :: "keyed_attribution_row \<Rightarrow> event_pool_attribution \<Rightarrow> bool" where
  "keyed_matches row attribution \<longleftrightarrow>
     kr_source row = at_source attribution \<and> kr_match_kind row = at_match_kind attribution \<and>
     kr_pool_id row = at_pool_id attribution \<and> kr_pool_identity_id row = at_pool_identity_id attribution \<and>
     kr_confidence row = confidence_as_db_str (at_confidence attribution) \<and>
     kr_details row = at_details attribution"

definition should_write :: "existing_attribution_set \<Rightarrow> event_pool_attribution \<Rightarrow> write_policy \<Rightarrow> bool" where
  "should_write by_key attribution policy =
     (case by_key (at_namespace attribution, at_matched_value attribution) of
        None \<Rightarrow> True
      | Some existing \<Rightarrow>
          if keyed_matches existing attribution then False
          else case policy of
              ChildPayout overwrite \<Rightarrow>
                if kr_pool_id existing \<noteq> None \<and> at_pool_id attribution = None then False
                else if kr_pool_id existing \<noteq> None \<and> \<not> overwrite then False
                else True
            | IdentityPromoteOnly \<Rightarrow>
                if kr_pool_id existing \<noteq> None \<and> at_pool_id attribution \<noteq> None \<and>
                   (kr_pool_id existing \<noteq> at_pool_id attribution \<or>
                    kr_pool_identity_id existing \<noteq> at_pool_identity_id attribution) then False
                else if kr_pool_id existing \<noteq> None \<and> at_pool_id attribution = None then False
                else True)"

section \<open>Replays\<close>

text \<open>The stored row of a written attribution, and the store after a replay of attributions, each
  written when the policy says so.\<close>

definition row_of :: "event_pool_attribution \<Rightarrow> keyed_attribution_row" where
  "row_of a = \<lparr>kr_source = at_source a, kr_match_kind = at_match_kind a, kr_pool_id = at_pool_id a,
     kr_pool_identity_id = at_pool_identity_id a,
     kr_confidence = confidence_as_db_str (at_confidence a), kr_details = at_details a\<rparr>"

definition replay_step :: "write_policy \<Rightarrow> existing_attribution_set \<Rightarrow> event_pool_attribution \<Rightarrow> existing_attribution_set" where
  "replay_step policy stored a =
     (if should_write stored a policy
      then stored((at_namespace a, at_matched_value a) \<mapsto> row_of a) else stored)"

definition replay :: "write_policy \<Rightarrow> existing_attribution_set \<Rightarrow> event_pool_attribution list \<Rightarrow> existing_attribution_set" where
  "replay policy stored as = foldl (replay_step policy) stored as"

text \<open>What a policy keeps of a resolved row.\<close>

definition keeps :: "write_policy \<Rightarrow> keyed_attribution_row \<Rightarrow> keyed_attribution_row \<Rightarrow> bool" where
  "keeps policy old new \<longleftrightarrow>
     (case policy of
        IdentityPromoteOnly \<Rightarrow> kr_pool_id new = kr_pool_id old \<and> kr_pool_identity_id new = kr_pool_identity_id old
      | ChildPayout overwrite \<Rightarrow> if overwrite then kr_pool_id new \<noteq> None else new = old)"

lemma matches_row_of [simp]: "keyed_matches (row_of a) b \<longleftrightarrow> row_of a = row_of b"
  by (auto simp: keyed_matches_def row_of_def)

lemma keyed_matches_iff: "keyed_matches r a \<longleftrightarrow> r = row_of a"
  by (auto simp: keyed_matches_def row_of_def)

lemma keeps_refl: "kr_pool_id r \<noteq> None \<Longrightarrow> keeps policy r r"
  by (auto simp: keeps_def split: write_policy.splits)

lemma keeps_resolved: "kr_pool_id r \<noteq> None \<Longrightarrow> keeps policy r s \<Longrightarrow> kr_pool_id s \<noteq> None"
  by (auto simp: keeps_def split: write_policy.splits if_splits)

lemma keeps_trans: "keeps policy r s \<Longrightarrow> keeps policy s t \<Longrightarrow> keeps policy r t"
  by (auto simp: keeps_def split: write_policy.splits if_splits)

lemma replay_step_keeps:
  assumes "stored k = Some r" and "kr_pool_id r \<noteq> None"
  shows "\<exists>s. replay_step policy stored a k = Some s \<and> keeps policy r s"
  using assms keeps_refl [of r policy]
  by (auto simp: replay_step_def should_write_def keeps_def row_of_def
      split: write_policy.splits if_splits)

text \<open>No sequence of replays loses a resolved attribution: a stored row with a pool keeps a pool
  under every policy; it stays exactly as it is unless a payout replay may overwrite, and a
  promote-only replay never changes its pool or identity.\<close>

theorem replay_keeps_resolved:
  assumes "stored k = Some r" and "kr_pool_id r \<noteq> None"
  shows "\<exists>s. replay policy stored as k = Some s \<and> kr_pool_id s \<noteq> None \<and> keeps policy r s"
  using assms
proof (induction as arbitrary: stored r)
  case (Cons a as)
  from replay_step_keeps [of stored k r policy a, OF Cons.prems] obtain s where
    s: "replay_step policy stored a k = Some s" "keeps policy r s" by blast
  from Cons.IH [of "replay_step policy stored a" s, OF s(1) keeps_resolved [OF Cons.prems(2) s(2)]] s(2) show ?case
    by (auto simp: replay_def dest: keeps_trans)
qed (auto simp: replay_def keeps_refl)

lemma should_write_after_step: "\<not> should_write (replay_step policy stored a) a policy"
  by (auto simp: replay_step_def should_write_def keyed_matches_iff row_of_def
      split: option.splits write_policy.splits if_splits)

text \<open>A replay settles: once an attribution has been offered, offering it again is never written,
  so a second replay of a single attribution changes nothing; and an attribution whose key is not
  stored is always written as it is.\<close>

theorem replay_settles:
  "replay policy (replay policy stored [a]) [a] = replay policy stored [a] \<and>
   \<not> should_write (replay policy stored [a]) a policy \<and>
   (stored (at_namespace a, at_matched_value a) = None \<longrightarrow>
     replay policy stored [a] (at_namespace a, at_matched_value a) = Some (row_of a))"
  using should_write_after_step [of policy stored a]
  by (auto simp: replay_def replay_step_def should_write_def)

definition demo_row :: "int option \<Rightarrow> event_pool_attribution" where
  "demo_row pool = \<lparr>at_side = ChildBlock, at_namespace = ''ns'', at_match_kind = ''payout_address'',
     at_matched_value = ''v'', at_pool_id = pool, at_pool_identity_id = None, at_source = ''s'',
     at_confidence = High, at_details = JObject []\<rparr>"

theorem replay_keeps_resolved_witness:
  "\<exists>s. replay (ChildPayout True) [(''ns'', ''v'') \<mapsto> row_of (demo_row (Some 3))]
      [demo_row None, demo_row (Some 4)] (''ns'', ''v'') = Some s \<and> kr_pool_id s \<noteq> None \<and>
    keeps (ChildPayout True) (row_of (demo_row (Some 3))) s"
  by (rule replay_keeps_resolved) (simp_all add: row_of_def demo_row_def)

theorem replay_settles_witness:
  "replay IdentityPromoteOnly Map.empty [demo_row (Some 3)] (''ns'', ''v'') = Some (row_of (demo_row (Some 3)))"
  using replay_settles [of IdentityPromoteOnly Map.empty "demo_row (Some 3)"] by (simp add: demo_row_def)

end
