(* ===== verification/Reclassify_Plan.thy ===== *)
theory Reclassify_Plan
  imports Attribution_Policy
begin

text \<open>
  \<open>crates/mmm-producers/src/reclassify_pools/plan.rs\<close>: the planning layer of the pool
  reclassification, which turns a page of stored rows into the updates of each Bitcoin parent.
  Decoding the database columns is the caller's; a candidate row is what they decode to.
\<close>

record existing_source_attribution =
  es_row_count :: int
  es_namespace :: "string option"
  es_match_kind :: "string option"
  es_matched_value :: "string option"
  es_pool_id :: "int option"
  es_pool_identity_id :: "int option"
  es_confidence :: "string option"
  es_details :: "json option"

record candidate_row =
  ca_id :: int
  ca_btc_parent_header_hash :: bytes
  ca_source_code :: string
  ca_parent_attribution :: existing_source_attribution
  ca_child_attribution :: existing_source_attribution
  ca_child_payout_attributions :: existing_attribution_set
  ca_btc_parent_coinbase_script :: "bytes option"
  ca_btc_parent_coinbase_outputs :: "bytes option"
  ca_btc_parent_coinbase_outputs_text :: "string option"
  ca_child_coinbase_script :: "bytes option"
  ca_child_coinbase_outputs :: "bytes option"
  ca_event_confirmed_at :: int

definition source_matches :: "existing_source_attribution \<Rightarrow> event_pool_attribution \<Rightarrow> bool" where
  "source_matches cur attribution \<longleftrightarrow>
     es_row_count cur = 1 \<and> es_namespace cur = Some (at_namespace attribution) \<and>
     es_match_kind cur = Some (at_match_kind attribution) \<and>
     es_matched_value cur = Some (at_matched_value attribution) \<and>
     es_pool_id cur = at_pool_id attribution \<and> es_pool_identity_id cur = at_pool_identity_id attribution \<and>
     es_confidence cur = Some (confidence_as_db_str (at_confidence attribution)) \<and>
     es_details cur = Some (at_details attribution)"

record planned_update =
  pu_event_id :: int
  pu_parent_pool_changed :: bool
  pu_child_pool_changed :: bool
  pu_child_payout_changed :: bool
  pu_attributions :: "event_pool_attribution list"
  pu_child_payout_attributions :: "event_pool_attribution list"
  pu_observed_at :: int

record parent_update_group =
  pg_parent_hash :: bytes
  pg_updates :: "planned_update list"
  pg_parent_rollup_changed :: bool

record parent_resolution =
  ps_attribution :: "event_pool_attribution option"
  ps_corrupt_outputs :: bool

record stored_parent_coinbase =
  sc_id :: int
  sc_script :: "bytes option"
  sc_outputs :: "bytes option"
  sc_outputs_text :: "string option"

text \<open>Of the run's statistics, the two counters that planning changes.\<close>

record reclassify_stats =
  rs_corrupt_parent_outputs :: nat
  rs_corrupt_child_outputs_skipped :: nat

definition resolve_parent_pool_from_published_text ::
  "bitcoin_lib \<Rightarrow> address_lib \<Rightarrow> string option \<Rightarrow> bytes \<Rightarrow> pool_resolver \<Rightarrow> (string \<rightharpoonup> int) \<Rightarrow>
     event_pool_attribution option" where
  "resolve_parent_pool_from_published_text L A outputs_text script resolver pool_ids_by_slug =
     (let addresses = (case outputs_text of
            Some text \<Rightarrow> published_parent_coinbase_output_addresses L A text | None \<Rightarrow> []) in
      resolve_parent_pool_attribution_from_coinbase script addresses resolver pool_ids_by_slug)"

definition resolve_stored_parent_pool ::
  "bitcoin_lib \<Rightarrow> address_lib \<Rightarrow> stored_parent_coinbase \<Rightarrow> pool_resolver \<Rightarrow> (string \<rightharpoonup> int) \<Rightarrow> parent_resolution" where
  "resolve_stored_parent_pool L A coinbase resolver pool_ids_by_slug =
     (let script = (case sc_script coinbase of Some s \<Rightarrow> s | None \<Rightarrow> []);
          published = resolve_parent_pool_from_published_text L A (sc_outputs_text coinbase) script
                        resolver pool_ids_by_slug in
      case resolve_parent_pool_attribution_from_serialized_coinbase_outputs L script (sc_outputs coinbase)
             resolver pool_ids_by_slug of
        Inr (Some attribution) \<Rightarrow> \<lparr>ps_attribution = Some attribution, ps_corrupt_outputs = False\<rparr>
      | Inr None \<Rightarrow> \<lparr>ps_attribution = published, ps_corrupt_outputs = False\<rparr>
      | Inl _ \<Rightarrow> \<lparr>ps_attribution = published, ps_corrupt_outputs = True\<rparr>)"

definition resolve_parent_pool ::
  "bitcoin_lib \<Rightarrow> address_lib \<Rightarrow> candidate_row \<Rightarrow> pool_resolver \<Rightarrow> (string \<rightharpoonup> int) \<Rightarrow> parent_resolution" where
  "resolve_parent_pool L A row resolver pool_ids_by_slug =
     resolve_stored_parent_pool L A
       \<lparr>sc_id = ca_id row, sc_script = ca_btc_parent_coinbase_script row,
        sc_outputs = ca_btc_parent_coinbase_outputs row,
        sc_outputs_text = ca_btc_parent_coinbase_outputs_text row\<rparr> resolver pool_ids_by_slug"

definition replay_child_payouts ::
  "bitcoin_lib \<Rightarrow> address_lib \<Rightarrow> string \<Rightarrow> bytes option \<Rightarrow> pool_identity_lookup \<Rightarrow> event_pool_attribution list option" where
  "replay_child_payouts L A source_code outputs identities =
     (case (params_for_source_code source_code, outputs) of
        (Some params, Some bs) \<Rightarrow>
          (case deserialize_txouts L bs of
             Some outs \<Rightarrow> Some (resolve_child_payout_attributions A outs params (Some identities))
           | None \<Rightarrow> None)
      | _ \<Rightarrow> Some [])"

definition resolve_child_payouts ::
  "bitcoin_lib \<Rightarrow> address_lib \<Rightarrow> candidate_row \<Rightarrow> pool_identity_lookup \<Rightarrow> bool \<Rightarrow> event_pool_attribution list option" where
  "resolve_child_payouts L A row identities overwrite =
     map_option (filter (\<lambda>attribution.
         should_write (ca_child_payout_attributions row) attribution (ChildPayout overwrite)))
       (replay_child_payouts L A (ca_source_code row) (ca_child_coinbase_outputs row) identities)"

definition should_write_attribution ::
  "existing_source_attribution \<Rightarrow> event_pool_attribution option \<Rightarrow> bool \<Rightarrow> bool" where
  "should_write_attribution cur resolved overwrite =
     (case resolved of
        None \<Rightarrow> False
      | Some a \<Rightarrow> if es_row_count cur = 0 then True else overwrite \<and> \<not> source_matches cur a)"

text \<open>
  One candidate: the statistics it adds and its update, or none when it changes nothing.  The
  second part is the group it joins: the group of its parent hash when there is one, else a new
  group at the end.  \<open>group_index\<close> maps a parent hash to its position in \<open>groups\<close>.
\<close>

definition plan_candidate ::
  "bitcoin_lib \<Rightarrow> address_lib \<Rightarrow> pool_resolver \<Rightarrow> (string \<rightharpoonup> int) \<Rightarrow> pool_identity_lookup \<Rightarrow> bool \<Rightarrow>
     candidate_row \<Rightarrow> reclassify_stats \<Rightarrow> planned_update option \<times> reclassify_stats" where
  "plan_candidate L A resolver pool_ids_by_slug identities overwrite candidate stats =
     (let resolved_parent = resolve_parent_pool L A candidate resolver pool_ids_by_slug;
          stats1 = (if ps_corrupt_outputs resolved_parent
                    then stats\<lparr>rs_corrupt_parent_outputs := rs_corrupt_parent_outputs stats + 1\<rparr> else stats);
          resolved_child = resolve_child_pool_attribution_from_script (ca_child_coinbase_script candidate)
                             resolver pool_ids_by_slug;
          (payouts, stats2) = (case resolve_child_payouts L A candidate identities overwrite of
              Some ps \<Rightarrow> (ps, stats1)
            | None \<Rightarrow> ([], stats1\<lparr>rs_corrupt_child_outputs_skipped := rs_corrupt_child_outputs_skipped stats1 + 1\<rparr>));
          parent_source_changed = should_write_attribution (ca_parent_attribution candidate)
                                    (ps_attribution resolved_parent) overwrite;
          child_source_changed = should_write_attribution (ca_child_attribution candidate) resolved_child overwrite;
          child_payout_changed = (payouts \<noteq> []);
          attributions =
            (if parent_source_changed then (case ps_attribution resolved_parent of Some a \<Rightarrow> [a] | None \<Rightarrow> []) else []) @
            (if child_source_changed then (case resolved_child of Some a \<Rightarrow> [a] | None \<Rightarrow> []) else []) in
      if \<not> parent_source_changed \<and> \<not> child_source_changed \<and> \<not> child_payout_changed then (None, stats2)
      else (Some \<lparr>pu_event_id = ca_id candidate, pu_parent_pool_changed = parent_source_changed,
                  pu_child_pool_changed = child_source_changed, pu_child_payout_changed = child_payout_changed,
                  pu_attributions = attributions, pu_child_payout_attributions = payouts,
                  pu_observed_at = ca_event_confirmed_at candidate\<rparr>, stats2))"

definition push_update ::
  "bytes \<Rightarrow> planned_update \<Rightarrow> parent_update_group list \<times> (bytes \<rightharpoonup> nat) \<Rightarrow> parent_update_group list \<times> (bytes \<rightharpoonup> nat)" where
  "push_update hash upd = (\<lambda>(groups, group_index).
     let (groups1, group_index1, idx) =
           (case group_index hash of
              Some i \<Rightarrow> (groups, group_index, i)
            | None \<Rightarrow> (groups @ [\<lparr>pg_parent_hash = hash, pg_updates = [], pg_parent_rollup_changed = False\<rparr>],
                        group_index(hash \<mapsto> length groups), length groups));
         grp = groups1 ! idx in
     (groups1[idx := grp\<lparr>pg_updates := pg_updates grp @ [upd],
        pg_parent_rollup_changed := (pg_parent_rollup_changed grp \<or> pu_parent_pool_changed upd)\<rparr>], group_index1))"

fun plan_loop ::
  "bitcoin_lib \<Rightarrow> address_lib \<Rightarrow> pool_resolver \<Rightarrow> (string \<rightharpoonup> int) \<Rightarrow> pool_identity_lookup \<Rightarrow> bool \<Rightarrow>
     candidate_row list \<Rightarrow> reclassify_stats \<Rightarrow> parent_update_group list \<times> (bytes \<rightharpoonup> nat) \<Rightarrow>
     parent_update_group list \<times> reclassify_stats" where
  "plan_loop L A resolver ids identities overwrite [] stats state = (fst state, stats)"
| "plan_loop L A resolver ids identities overwrite (candidate # rows) stats state =
     (case plan_candidate L A resolver ids identities overwrite candidate stats of
        (None, stats') \<Rightarrow> plan_loop L A resolver ids identities overwrite rows stats' state
      | (Some upd, stats') \<Rightarrow>
          plan_loop L A resolver ids identities overwrite rows stats'
            (push_update (ca_btc_parent_header_hash candidate) upd state))"

definition plan_batch_updates ::
  "bitcoin_lib \<Rightarrow> address_lib \<Rightarrow> candidate_row list \<Rightarrow> pool_resolver \<Rightarrow> (string \<rightharpoonup> int) \<Rightarrow>
     pool_identity_lookup \<Rightarrow> bool \<Rightarrow> reclassify_stats \<Rightarrow> parent_update_group list \<times> reclassify_stats" where
  "plan_batch_updates L A rows resolver pool_ids_by_slug identities overwrite stats =
     plan_loop L A resolver pool_ids_by_slug identities overwrite rows stats ([], Map.empty)"

section \<open>The plan as a grouping\<close>

text \<open>The reference: the updates of the candidates, grouped by parent hash in order of first appearance.\<close>

definition candidate_update ::
  "bitcoin_lib \<Rightarrow> address_lib \<Rightarrow> pool_resolver \<Rightarrow> (string \<rightharpoonup> int) \<Rightarrow> pool_identity_lookup \<Rightarrow> bool \<Rightarrow>
     candidate_row \<Rightarrow> planned_update option" where
  "candidate_update L A resolver ids identities overwrite candidate =
     fst (plan_candidate L A resolver ids identities overwrite candidate
       \<lparr>rs_corrupt_parent_outputs = 0, rs_corrupt_child_outputs_skipped = 0\<rparr>)"

definition keyed_updates ::
  "(candidate_row \<Rightarrow> planned_update option) \<Rightarrow> candidate_row list \<Rightarrow> (bytes \<times> planned_update) list" where
  "keyed_updates f rows =
     List.map_filter (\<lambda>row. map_option (Pair (ca_btc_parent_header_hash row)) (f row)) rows"

definition group_of :: "(bytes \<times> planned_update) list \<Rightarrow> bytes \<Rightarrow> parent_update_group" where
  "group_of us h = \<lparr>pg_parent_hash = h, pg_updates = map snd (filter (\<lambda>u. fst u = h) us),
     pg_parent_rollup_changed = (\<exists>u \<in> set us. fst u = h \<and> pu_parent_pool_changed (snd u))\<rparr>"

definition first_seen :: "'a list \<Rightarrow> 'a list" where
  "first_seen xs = rev (remdups (rev xs))"

definition grouped :: "(bytes \<times> planned_update) list \<Rightarrow> parent_update_group list" where
  "grouped us = map (group_of us) (first_seen (map fst us))"

lemma first_seen_snoc: "first_seen (xs @ [x]) = (if x \<in> set xs then first_seen xs else first_seen xs @ [x])"
  by (simp add: first_seen_def)

lemma set_first_seen [simp]: "set (first_seen xs) = set xs"
  and distinct_first_seen [simp]: "distinct (first_seen xs)"
  by (simp_all add: first_seen_def)

text \<open>The loop state agrees with the grouping of the updates pushed so far.\<close>

definition plan_state_ok :: "(bytes \<times> planned_update) list \<Rightarrow> parent_update_group list \<times> (bytes \<rightharpoonup> nat) \<Rightarrow> bool" where
  "plan_state_ok us state \<longleftrightarrow> fst state = grouped us \<and>
     (\<forall>h i. snd state h = Some i \<longleftrightarrow> i < length (first_seen (map fst us)) \<and> first_seen (map fst us) ! i = h)"

lemma group_of_snoc:
  "group_of (us @ [(h, u)]) k =
     (if k = h then (group_of us h)\<lparr>pg_updates := pg_updates (group_of us h) @ [u],
        pg_parent_rollup_changed := (pg_parent_rollup_changed (group_of us h) \<or> pu_parent_pool_changed u)\<rparr>
      else group_of us k)"
  by (auto simp: group_of_def)

lemma group_of_absent:
  "h \<notin> set (map fst us) \<Longrightarrow>
     group_of us h = \<lparr>pg_parent_hash = h, pg_updates = [], pg_parent_rollup_changed = False\<rparr>"
  by (force simp: group_of_def filter_empty_conv)

lemma push_update_ok:
  assumes "plan_state_ok us state"
  shows "plan_state_ok (us @ [(h, u)]) (push_update h u state)"
proof -
  obtain groups index where state: "state = (groups, index)" by fastforce
  let ?ks = "first_seen (map fst us)"
  have g: "groups = map (group_of us) ?ks"
    and idx: "\<And>k i. index k = Some i \<longleftrightarrow> i < length ?ks \<and> ?ks ! i = k"
    using assms by (auto simp: plan_state_ok_def grouped_def state)
  show ?thesis
  proof (cases "index h")
    case None
    have new: "h \<notin> set ?ks"
    proof
      assume "h \<in> set ?ks"
      then obtain j where "j < length ?ks" "?ks ! j = h" unfolding in_set_conv_nth by blast
      with idx [of h j] None show False by simp
    qed
    then have n: "h \<notin> set (map fst us)" by simp
    have old: "map (group_of (us @ [(h, u)])) ?ks = groups"
      unfolding g using new by (auto simp: group_of_snoc)
    have last: "group_of (us @ [(h, u)]) h =
        \<lparr>pg_parent_hash = h, pg_updates = [u], pg_parent_rollup_changed = pu_parent_pool_changed u\<rparr>"
      by (simp add: group_of_snoc group_of_absent [OF n])
    have "push_update h u state = (groups @ [group_of (us @ [(h, u)]) h], index(h \<mapsto> length ?ks))"
      by (simp add: push_update_def state None last g list_update_append nth_append)
    moreover have "(index(h \<mapsto> length ?ks)) k = Some i \<longleftrightarrow> i < length (?ks @ [h]) \<and> (?ks @ [h]) ! i = k" for k i
      using idx [of k i] new nth_mem [of i ?ks] by (auto simp: nth_append less_Suc_eq)
    ultimately show ?thesis
      using n old by (auto simp: plan_state_ok_def grouped_def first_seen_snoc)
  next
    case (Some i)
    then have i: "i < length ?ks" "?ks ! i = h" using idx by auto
    then have old: "h \<in> set (map fst us)" using nth_mem [OF i(1)] by simp
    have upd: "map (group_of (us @ [(h, u)])) ?ks = groups[i := group_of (us @ [(h, u)]) h]"
    proof (rule nth_equalityI)
      fix j assume j: "j < length (map (group_of (us @ [(h, u)])) ?ks)"
      then have "?ks ! j = h \<longleftrightarrow> j = i"
        using i nth_eq_iff_index_eq [OF distinct_first_seen] by fastforce
      then show "map (group_of (us @ [(h, u)])) ?ks ! j = groups[i := group_of (us @ [(h, u)]) h] ! j"
        using j i by (auto simp: g nth_list_update group_of_snoc)
    qed (simp add: g)
    have "groups ! i = group_of us h" using i by (simp add: g)
    then have "push_update h u state = (groups[i := group_of (us @ [(h, u)]) h], index)"
      by (simp add: push_update_def state Some group_of_snoc Let_def)
    then show ?thesis
      using old idx by (simp add: plan_state_ok_def grouped_def first_seen_snoc upd)
  qed
qed

lemma plan_candidate_update:
  "fst (plan_candidate L A resolver ids identities overwrite candidate stats) =
     candidate_update L A resolver ids identities overwrite candidate"
  by (simp add: candidate_update_def plan_candidate_def Let_def split: option.splits prod.splits)

lemma plan_loop_ok:
  assumes "plan_state_ok us state"
  shows "fst (plan_loop L A resolver ids identities overwrite rows stats state) =
    grouped (us @ keyed_updates (candidate_update L A resolver ids identities overwrite) rows)"
  using assms
proof (induction rows arbitrary: us state stats)
  case Nil
  then show ?case by (simp add: plan_state_ok_def keyed_updates_def List.map_filter_def)
next
  case (Cons row rows)
  obtain upd stats' where p: "plan_candidate L A resolver ids identities overwrite row stats = (upd, stats')"
    by fastforce
  then have upd: "upd = candidate_update L A resolver ids identities overwrite row"
    using plan_candidate_update [of L A resolver ids identities overwrite row stats] by simp
  show ?case
  proof (cases upd)
    case None
    with Cons p upd show ?thesis by (simp add: keyed_updates_def List.map_filter_simps)
  next
    case (Some u)
    with upd have c: "candidate_update L A resolver ids identities overwrite row = Some u" by simp
    show ?thesis
      using Cons.IH [OF push_update_ok [OF Cons.prems]] p [unfolded upd]
      by (simp add: c keyed_updates_def List.map_filter_simps)
  qed
qed

text \<open>The plan of a page is the page's updates grouped by Bitcoin parent: groups stand in the order
  their parent first needs an update, each parent has one group, each group lists the updates of
  its candidates in page order, and its roll-up flag is set exactly when one of them changes the
  parent pool; candidates that change nothing appear nowhere.\<close>

theorem plan_is_grouping:
  "fst (plan_batch_updates L A rows resolver ids identities overwrite stats) =
     grouped (keyed_updates (candidate_update L A resolver ids identities overwrite) rows) \<and>
   distinct (map pg_parent_hash (fst (plan_batch_updates L A rows resolver ids identities overwrite stats)))"
proof -
  have "plan_state_ok [] ([], Map.empty)" by (simp add: plan_state_ok_def grouped_def first_seen_def)
  from plan_loop_ok [OF this] have
    e: "fst (plan_batch_updates L A rows resolver ids identities overwrite stats) =
      grouped (keyed_updates (candidate_update L A resolver ids identities overwrite) rows)"
    by (simp add: plan_batch_updates_def)
  have "map pg_parent_hash (grouped us) = first_seen (map fst us)" for us
    by (simp add: grouped_def group_of_def comp_def)
  then show ?thesis by (simp add: e)
qed

lemma candidate_update_Some:
  assumes "candidate_update L A resolver ids identities overwrite row = Some u"
  shows "pu_parent_pool_changed u = should_write_attribution (ca_parent_attribution row)
      (ps_attribution (resolve_parent_pool L A row resolver ids)) overwrite"
    and "pu_child_pool_changed u = should_write_attribution (ca_child_attribution row)
      (resolve_child_pool_attribution_from_script (ca_child_coinbase_script row) resolver ids) overwrite"
    and "pu_child_payout_attributions u =
      (case resolve_child_payouts L A row identities overwrite of Some ps \<Rightarrow> ps | None \<Rightarrow> [])"
  using assms
  by (cases "resolve_child_payouts L A row identities overwrite";
      auto simp: candidate_update_def plan_candidate_def Let_def split: if_splits)+

lemma should_write_keeps_resolved:
  "should_write stored a (ChildPayout False) \<Longrightarrow> stored (at_namespace a, at_matched_value a) = Some r \<Longrightarrow>
     kr_pool_id r = None"
  by (auto simp: should_write_def split: if_splits)

text \<open>Without the overwrite option reclassification never touches a resolved attribution: a
  planned update rewrites the parent or child row of a candidate only where none was stored, and
  its payout rows only where the stored row is absent or has no pool.\<close>

theorem plan_without_overwrite_only_adds:
  assumes "candidate_update L A resolver ids identities False row = Some u"
  shows "(pu_parent_pool_changed u \<longrightarrow> es_row_count (ca_parent_attribution row) = 0) \<and>
    (pu_child_pool_changed u \<longrightarrow> es_row_count (ca_child_attribution row) = 0) \<and>
    (\<forall>a \<in> set (pu_child_payout_attributions u). \<forall>r.
      ca_child_payout_attributions row (at_namespace a, at_matched_value a) = Some r \<longrightarrow> kr_pool_id r = None)"
proof -
  have "es_row_count cur = 0" if "should_write_attribution cur resolved False" for cur resolved
    using that by (auto simp: should_write_attribution_def split: option.splits if_splits)
  moreover have "should_write (ca_child_payout_attributions row) a (ChildPayout False)"
    if "a \<in> set (pu_child_payout_attributions u)" for a
    using that unfolding candidate_update_Some(3) [OF assms]
    by (auto simp: resolve_child_payouts_def split: option.splits)
  ultimately show ?thesis
    unfolding candidate_update_Some(1,2) [OF assms] using should_write_keeps_resolved by blast
qed

definition demo_source_state :: "int \<Rightarrow> existing_source_attribution" where
  "demo_source_state n = \<lparr>es_row_count = n, es_namespace = None, es_match_kind = None, es_matched_value = None,
     es_pool_id = None, es_pool_identity_id = None, es_confidence = None, es_details = None\<rparr>"

definition demo_candidate :: candidate_row where
  "demo_candidate = \<lparr>ca_id = 1, ca_btc_parent_header_hash = [1], ca_source_code = ''auxpow:namecoin'',
     ca_parent_attribution = demo_source_state 0, ca_child_attribution = demo_source_state 0,
     ca_child_payout_attributions = Map.empty, ca_btc_parent_coinbase_script = Some (as_bytes ''x/P/''),
     ca_btc_parent_coinbase_outputs = None, ca_btc_parent_coinbase_outputs_text = None,
     ca_child_coinbase_script = None, ca_child_coinbase_outputs = None, ca_event_confirmed_at = 0\<rparr>"

definition demo_address_lib :: address_lib where
  "demo_address_lib = \<lparr>is_p2pkh = (\<lambda>_. False), is_p2sh = (\<lambda>_. False), witness_version = (\<lambda>_. None),
     base58_encode_check = (\<lambda>_. []), segwit_encode = (\<lambda>_ _ _. None), address_from_str = (\<lambda>_. None)\<rparr>"

abbreviation demo_update :: "planned_update option" where
  "demo_update \<equiv> candidate_update demo_lib demo_address_lib demo_resolver [''a'' \<mapsto> 7] Map.empty False demo_candidate"

lemma demo_update_parent: "map_option pu_parent_pool_changed demo_update = Some True"
  by code_simp

theorem plan_without_overwrite_only_adds_witness:
  "\<exists>u. demo_update = Some u \<and> pu_parent_pool_changed u \<and> es_row_count (ca_parent_attribution demo_candidate) = 0"
proof -
  obtain u where u: "demo_update = Some u" "pu_parent_pool_changed u"
    using demo_update_parent by auto
  with plan_without_overwrite_only_adds [OF u(1)] show ?thesis by blast
qed

end
