(* ===== verification/Poller.thy ===== *)
theory Poller
  imports Text_Lib
begin

text \<open>
  \<open>crates/mmm-producers/src/poller/mod.rs\<close>: the live poller of one child chain.  The chain behind
  the trait \<open>ChainPoller\<close> (its node, its capture, the clock) is a parameter record of functions on
  an environment of any type; the poller's own state, the stored \<open>poll_cursor\<close> row and the control
  flow around the calls are modelled.  The statement that writes the row is the upsert of
  \<open>crates/mmm-store/src/poll_cursor.rs\<close>.
\<close>

section \<open>Configuration\<close>

record poller_defaults =
  pd_poll_interval_seconds :: nat
  pd_batch_size :: int
  pd_reorg_depth :: int

record poller_config =
  pc_start_height_override :: "int option"
  pc_poll_interval :: nat
  pc_batch_size :: int
  pc_reorg_depth :: int

datatype config_error =
    InvalidValue string string | StartHeightNegative string | PollIntervalZero string
  | BatchSizeNotPositive string | ReorgDepthNegative string

text \<open>\<open>str::parse::<u64>\<close>.\<close>

definition parse_u64 :: "string \<Rightarrow> nat option" where
  "parse_u64 s =
     (let ds = (case s of c # cs \<Rightarrow> if c = CHR ''+'' then cs else s | [] \<Rightarrow> []) in
      if ds \<noteq> [] \<and> list_all is_digit ds \<and> digits_value ds < 2 ^ 64 then Some (nat (digits_value ds)) else None)"

definition parse_lookup_or ::
  "(string \<Rightarrow> 'a option) \<Rightarrow> (string \<Rightarrow> string option) \<Rightarrow> string \<Rightarrow> 'a \<Rightarrow> (config_error, 'a) result" where
  "parse_lookup_or parse lookup key default_value =
     (case lookup key of
        Some value \<Rightarrow> ok_or (InvalidValue key value) (parse value)
      | None \<Rightarrow> Inr default_value)"

definition parse_lookup_opt :: "(string \<Rightarrow> string option) \<Rightarrow> string \<Rightarrow> (config_error, int option) result" where
  "parse_lookup_opt lookup key =
     (case lookup key of
        Some value \<Rightarrow> rbind (ok_or (InvalidValue key value) (parse_i32 value)) (\<lambda>v. Inr (Some v))
      | None \<Rightarrow> Inr None)"

definition from_lookup ::
  "string \<Rightarrow> poller_defaults \<Rightarrow> (string \<Rightarrow> string option) \<Rightarrow> (config_error, poller_config) result" where
  "from_lookup pre defaults lookup =
     rbind (parse_lookup_opt lookup (pre @ ''_START_HEIGHT'')) (\<lambda>start_height_override.
     rbind (parse_lookup_or parse_u64 lookup (pre @ ''_POLL_INTERVAL_SECONDS'')
              (pd_poll_interval_seconds defaults)) (\<lambda>poll_interval_seconds.
     rbind (parse_lookup_or parse_i32 lookup (pre @ ''_BATCH_SIZE'') (pd_batch_size defaults)) (\<lambda>batch_size.
     rbind (parse_lookup_or parse_i32 lookup (pre @ ''_REORG_DEPTH'') (pd_reorg_depth defaults)) (\<lambda>reorg_depth.
     ensure (case start_height_override of Some h \<Rightarrow> 0 \<le> h | None \<Rightarrow> True) (StartHeightNegative pre) (
     ensure (0 < poll_interval_seconds) (PollIntervalZero pre) (
     ensure (0 < batch_size) (BatchSizeNotPositive pre) (
     ensure (0 \<le> reorg_depth) (ReorgDepthNegative pre) (
     Inr \<lparr>pc_start_height_override = start_height_override, pc_poll_interval = poll_interval_seconds,
          pc_batch_size = batch_size, pc_reorg_depth = reorg_depth\<rparr>))))))))"

section \<open>The chain and the store\<close>

datatype height_progress = Advance | Hold

datatype tick_height = Rescan | New

record ('s, 'e) chain_poller =
  ch_activation_floor :: int
  ch_chain_tip :: "'s \<Rightarrow> ('e, int) result \<times> 's"
  ch_process_height :: "int \<Rightarrow> 's \<Rightarrow> ('e, height_progress) result \<times> 's"
  ch_rescan_height :: "int \<Rightarrow> 's \<Rightarrow> ('e, height_progress) result \<times> 's"
  ch_refresh_core_cache :: "'s \<Rightarrow> ('e, unit) result \<times> 's"
  ch_drain_pending :: "'s \<Rightarrow> ('e, unit) result \<times> 's"
  ch_prune_heads_below :: "int \<Rightarrow> 's \<Rightarrow> ('e, unit) result \<times> 's"
  ch_startup :: "'s \<Rightarrow> ('e, unit) result \<times> 's"
  ch_statement :: "'s \<Rightarrow> ('e, unit) result \<times> 's"
  ch_must_propagate :: "'e \<Rightarrow> bool"
  ch_recovery_pending :: "string \<Rightarrow> 'e"

text \<open>
  The environment and the stored row of this source: its cursor and target height.  Whether a
  statement on the row succeeds is the environment's answer \<open>ch_statement\<close>.
\<close>

record 's world =
  w_env :: 's
  w_row :: "(int \<times> int option) option"

definition in_env :: "('s \<Rightarrow> ('e, 'a) result \<times> 's) \<Rightarrow> 's world \<Rightarrow> ('e, 'a) result \<times> 's world" where
  "in_env f w = (let (r, s) = f (w_env w) in (r, w\<lparr>w_env := s\<rparr>))"

text \<open>The upsert: the stored cursor is the greater one, a missing target keeps the stored one.\<close>

definition upsert_row :: "int \<Rightarrow> int option \<Rightarrow> (int \<times> int option) option \<Rightarrow> (int \<times> int option) option" where
  "upsert_row cursor_height target_height row =
     (case row of
        None \<Rightarrow> Some (cursor_height, target_height)
      | Some (c, t) \<Rightarrow> Some (max c cursor_height, case target_height of Some _ \<Rightarrow> target_height | None \<Rightarrow> t))"

definition upsert_poll_cursor_with_target ::
  "('s, 'e) chain_poller \<Rightarrow> int \<Rightarrow> int option \<Rightarrow> 's world \<Rightarrow> ('e, unit) result \<times> 's world" where
  "upsert_poll_cursor_with_target chain cursor_height target_height w =
     (case in_env (ch_statement chain) w of
        (Inr _, w1) \<Rightarrow> (Inr (), w1\<lparr>w_row := upsert_row cursor_height target_height (w_row w1)\<rparr>)
      | (Inl e, w1) \<Rightarrow> (Inl e, w1))"

definition load_poll_cursor :: "('s, 'e) chain_poller \<Rightarrow> 's world \<Rightarrow> ('e, int option) result \<times> 's world" where
  "load_poll_cursor chain w =
     (case in_env (ch_statement chain) w of
        (Inr _, w1) \<Rightarrow> (Inr (map_option fst (w_row w1)), w1)
      | (Inl e, w1) \<Rightarrow> (Inl e, w1))"

section \<open>Windows\<close>

record tick_window =
  tw_rescan_start :: int
  tw_end :: int

definition effective_start :: "int option \<Rightarrow> int \<Rightarrow> int" where
  "effective_start start_height_override activation_floor =
     max (case start_height_override of Some h \<Rightarrow> h | None \<Rightarrow> activation_floor) activation_floor"

definition effective_seed_cursor :: "int \<Rightarrow> int \<Rightarrow> int" where
  "effective_seed_cursor seeded start = max seeded (wrap_i32 (start - 1))"

definition rescan_floor :: "int \<Rightarrow> int \<Rightarrow> int" where
  "rescan_floor cursor reorg_depth = sat_i32 (sat_i32 (cursor + 1) - reorg_depth)"

definition compute_tick_window :: "int \<Rightarrow> int \<Rightarrow> int \<Rightarrow> int \<Rightarrow> int \<Rightarrow> tick_window option" where
  "compute_tick_window start cursor tip reorg_depth batch_size =
     (let rescan_start = max start (rescan_floor cursor reorg_depth);
          end_height = min tip (sat_i32 (cursor + batch_size)) in
      if end_height < rescan_start then None
      else Some \<lparr>tw_rescan_start = rescan_start, tw_end = end_height\<rparr>)"

section \<open>The tick policy\<close>

record tick_progress =
  tp_processed :: nat
  tp_held :: bool

definition tick_progress_default :: tick_progress where
  "tick_progress_default = \<lparr>tp_processed = 0, tp_held = False\<rparr>"

fun rescan_loop ::
  "('e \<Rightarrow> bool) \<Rightarrow> (int \<Rightarrow> tick_height \<Rightarrow> 'w \<Rightarrow> ('e, height_progress) result \<times> 'w) \<Rightarrow> int list \<Rightarrow>
     tick_progress \<Rightarrow> 'w \<Rightarrow> ('e, unit) result \<times> tick_progress \<times> 'w" where
  "rescan_loop must_propagate process [] progress w = (Inr (), progress, w)"
| "rescan_loop must_propagate process (height # heights) progress w =
     (case process height Rescan w of
        (Inr Hold, w1) \<Rightarrow>
          rescan_loop must_propagate process heights
            (progress\<lparr>tp_held := True, tp_processed := tp_processed progress + 1\<rparr>) w1
      | (Inr Advance, w1) \<Rightarrow>
          rescan_loop must_propagate process heights (progress\<lparr>tp_processed := tp_processed progress + 1\<rparr>) w1
      | (Inl err, w1) \<Rightarrow>
          if must_propagate err then (Inl err, progress, w1)
          else rescan_loop must_propagate process heights (progress\<lparr>tp_held := True\<rparr>) w1)"

fun new_loop ::
  "(int \<Rightarrow> tick_height \<Rightarrow> 'w \<Rightarrow> ('e, height_progress) result \<times> 'w) \<Rightarrow> int list \<Rightarrow>
     int \<Rightarrow> tick_progress \<Rightarrow> 'w \<Rightarrow> ('e, unit) result \<times> int \<times> tick_progress \<times> 'w" where
  "new_loop process [] cursor progress w = (Inr (), cursor, progress, w)"
| "new_loop process (height # heights) cursor progress w =
     (case process height New w of
        (Inr Advance, w1) \<Rightarrow>
          new_loop process heights (max cursor height)
            (progress\<lparr>tp_processed := tp_processed progress + 1\<rparr>) w1
      | (Inr Hold, w1) \<Rightarrow> (Inr (), cursor, progress\<lparr>tp_held := True\<rparr>, w1)
      | (Inl err, w1) \<Rightarrow> (Inl err, cursor, progress, w1))"

definition run_tick_policy_counting ::
  "('e \<Rightarrow> bool) \<Rightarrow> (int \<Rightarrow> tick_height \<Rightarrow> 'w \<Rightarrow> ('e, height_progress) result \<times> 'w) \<Rightarrow> tick_window \<Rightarrow>
     int \<Rightarrow> tick_progress \<Rightarrow> 'w \<Rightarrow> ('e, unit) result \<times> int \<times> tick_progress \<times> 'w" where
  "run_tick_policy_counting must_propagate process window cursor progress w =
     (let replay_end = min cursor (tw_end window) in
      case rescan_loop must_propagate process [tw_rescan_start window..replay_end] progress w of
        (Inl err, progress1, w1) \<Rightarrow> (Inl err, cursor, progress1, w1)
      | (Inr _, progress1, w1) \<Rightarrow>
          if cursor < tw_end window
          then new_loop process [wrap_i32 (cursor + 1)..tw_end window] cursor progress1 w1
          else (Inr (), cursor, progress1, w1))"

section \<open>Fetching the tip\<close>

fun fetch_tip_attempts :: "('s \<Rightarrow> ('e, int) result \<times> 's) \<Rightarrow> nat \<Rightarrow> 'e \<Rightarrow> 's \<Rightarrow> ('e, int) result \<times> 's" where
  "fetch_tip_attempts chain_tip 0 last_err s = (Inl last_err, s)"
| "fetch_tip_attempts chain_tip (Suc n) last_err s =
     (case chain_tip s of
        (Inr tip, s1) \<Rightarrow> (Inr tip, s1)
      | (Inl err, s1) \<Rightarrow> fetch_tip_attempts chain_tip n err s1)"

text \<open>Five attempts; the first one's error starts the chain, so there is always a last error.\<close>

definition fetch_tip_with_retry :: "('s, 'e) chain_poller \<Rightarrow> 's \<Rightarrow> ('e, int) result \<times> 's" where
  "fetch_tip_with_retry chain s =
     (case ch_chain_tip chain s of
        (Inr tip, s1) \<Rightarrow> (Inr tip, s1)
      | (Inl err, s1) \<Rightarrow> fetch_tip_attempts (ch_chain_tip chain) 4 err s1)"

section \<open>One tick\<close>

record tick_summary =
  ts_tip :: "int option"
  ts_processed :: nat
  ts_rescanned :: nat
  ts_new :: int
  ts_held :: bool

definition tick_summary_default :: tick_summary where
  "tick_summary_default = \<lparr>ts_tip = None, ts_processed = 0, ts_rescanned = 0, ts_new = 0, ts_held = False\<rparr>"

record poller =
  pl_cursor :: int
  pl_config :: poller_config

definition tick_window_of :: "('s, 'e) chain_poller \<Rightarrow> poller \<Rightarrow> int \<Rightarrow> tick_window option" where
  "tick_window_of chain p tip =
     compute_tick_window
       (effective_start (pc_start_height_override (pl_config p)) (ch_activation_floor chain))
       (pl_cursor p) tip (pc_reorg_depth (pl_config p)) (pc_batch_size (pl_config p))"

definition prune_chain_heads_best_effort :: "('s, 'e) chain_poller \<Rightarrow> poller \<Rightarrow> 's world \<Rightarrow> 's world" where
  "prune_chain_heads_best_effort chain p w =
     (let floor0 = rescan_floor (pl_cursor p) (pc_reorg_depth (pl_config p));
          floor1 = (case pc_start_height_override (pl_config p) of None \<Rightarrow> floor0 | Some start \<Rightarrow> min floor0 start) in
      snd (in_env (ch_prune_heads_below chain floor1) w))"

definition drain_pending_before_capture :: "('s, 'e) chain_poller \<Rightarrow> 's world \<Rightarrow> ('e, unit) result \<times> 's world" where
  "drain_pending_before_capture chain w =
     (case in_env (ch_drain_pending chain) w of
        (Inl err, w1) \<Rightarrow>
          if ch_must_propagate chain err then (Inl err, w1)
          else (Inl (ch_recovery_pending chain ''capture_pending''), w1)
      | (Inr _, w1) \<Rightarrow> (Inr (), w1))"

definition fetch_tip_and_persist_target ::
  "('s, 'e) chain_poller \<Rightarrow> poller \<Rightarrow> 's world \<Rightarrow> ('e, int) result \<times> 's world" where
  "fetch_tip_and_persist_target chain p w =
     (case in_env (fetch_tip_with_retry chain) w of
        (Inl err, w1) \<Rightarrow> (Inl err, w1)
      | (Inr tip, w1) \<Rightarrow> (Inr tip, snd (upsert_poll_cursor_with_target chain (pl_cursor p) (Some tip) w1)))"

definition persist_progress_if_advanced ::
  "('s, 'e) chain_poller \<Rightarrow> int \<Rightarrow> int \<Rightarrow> poller \<Rightarrow> 's world \<Rightarrow> poller \<times> 's world" where
  "persist_progress_if_advanced chain new_cursor tip p w =
     (if new_cursor \<le> pl_cursor p then (p, w)
      else (p\<lparr>pl_cursor := new_cursor\<rparr>, snd (upsert_poll_cursor_with_target chain new_cursor (Some tip) w)))"

definition tick_process ::
  "('s, 'e) chain_poller \<Rightarrow> int \<Rightarrow> tick_height \<Rightarrow> 's world \<Rightarrow> ('e, height_progress) result \<times> 's world" where
  "tick_process chain height kind =
     in_env (case kind of Rescan \<Rightarrow> ch_rescan_height chain height | New \<Rightarrow> ch_process_height chain height)"

definition run_window_and_persist_progress ::
  "('s, 'e) chain_poller \<Rightarrow> tick_window \<Rightarrow> int \<Rightarrow> tick_summary \<Rightarrow> poller \<Rightarrow> 's world \<Rightarrow>
     ('e, unit) result \<times> tick_summary \<times> poller \<times> 's world" where
  "run_window_and_persist_progress chain window tip summary p w =
     (let (res, cursor, progress, w1) =
            run_tick_policy_counting (ch_must_propagate chain) (tick_process chain) window (pl_cursor p)
              tick_progress_default w;
          (p1, w2) = persist_progress_if_advanced chain cursor tip p w1;
          new = wrap_i32 (cursor - pl_cursor p) in
      (res, summary\<lparr>ts_processed := tp_processed progress,
                    ts_rescanned := tp_processed progress - nat new,
                    ts_new := new, ts_held := tp_held progress\<rparr>, p1, w2))"

definition poll_tick_steps ::
  "('s, 'e) chain_poller \<Rightarrow> tick_summary \<Rightarrow> poller \<Rightarrow> 's world \<Rightarrow> ('e, unit) result \<times> tick_summary \<times> poller \<times> 's world" where
  "poll_tick_steps chain summary p w =
     (case in_env (ch_refresh_core_cache chain) w of
        (Inl err, w1) \<Rightarrow> (Inl err, summary, p, w1)
      | (Inr _, w1) \<Rightarrow>
     (case drain_pending_before_capture chain w1 of
        (Inl err, w2) \<Rightarrow> (Inl err, summary, p, w2)
      | (Inr _, w2) \<Rightarrow>
     (case fetch_tip_and_persist_target chain p w2 of
        (Inl err, w3) \<Rightarrow> (Inl err, summary, p, w3)
      | (Inr tip, w3) \<Rightarrow>
          let (res, summary1, p1, w4) =
                (case tick_window_of chain p tip of
                   Some window \<Rightarrow> run_window_and_persist_progress chain window tip (summary\<lparr>ts_tip := Some tip\<rparr>) p w3
                 | None \<Rightarrow> (Inr (), summary\<lparr>ts_tip := Some tip\<rparr>, p, w3)) in
          (res, summary1, p1, prune_chain_heads_best_effort chain p1 w4))))"

definition poll_tick :: "('s, 'e) chain_poller \<Rightarrow> poller \<Rightarrow> 's world \<Rightarrow> ('e, tick_summary) result \<times> poller \<times> 's world" where
  "poll_tick chain p w =
     (let (res, summary, p1, w1) = poll_tick_steps chain tick_summary_default p w in
      (rbind res (\<lambda>_. Inr summary), p1, w1))"

record tick_outcome =
  to_progressed :: bool
  to_idle_at_target :: bool
  to_completed :: bool

definition tick :: "('s, 'e) chain_poller \<Rightarrow> poller \<Rightarrow> 's world \<Rightarrow> ('e, tick_outcome) result \<times> poller \<times> 's world" where
  "tick chain p w =
     (let (res, p1, w1) = poll_tick chain p w in
      (rbind res (\<lambda>summary.
         ensure (\<not> ts_held summary) (ch_recovery_pending chain ''capture_pending'')
           (Inr \<lparr>to_progressed = (0 < ts_processed summary),
                 to_idle_at_target = (ts_tip summary = Some (pl_cursor p1)), to_completed = True\<rparr>)), p1, w1))"

definition wait_after_tick ::
  "('s, 'e) chain_poller \<Rightarrow> ('e \<Rightarrow> bool) \<Rightarrow> poller \<Rightarrow> ('e, tick_outcome) result \<Rightarrow> ('e, nat) result" where
  "wait_after_tick chain is_backbone_integrity_error p res =
     (case res of
        Inl err \<Rightarrow> if ch_must_propagate chain err \<or> is_backbone_integrity_error err then Inl err
                   else Inr (pc_poll_interval (pl_config p))
      | Inr _ \<Rightarrow> Inr (pc_poll_interval (pl_config p)))"

section \<open>Startup\<close>

text \<open>The read-model repair and the membership warning before seeding are \<open>ch_startup\<close>.\<close>

definition poller_new :: "('s, 'e) chain_poller \<Rightarrow> poller_config \<Rightarrow> 's world \<Rightarrow> ('e, poller) result \<times> 's world" where
  "poller_new chain config w =
     (case in_env (ch_startup chain) w of
        (Inl err, w1) \<Rightarrow> (Inl err, w1)
      | (Inr _, w1) \<Rightarrow>
     (let start0 = effective_start (pc_start_height_override config) (ch_activation_floor chain);
          (seed, w2) =
            (case load_poll_cursor chain w1 of
               (Inl err, w2) \<Rightarrow> (Inl err, w2)
             | (Inr row, w2) \<Rightarrow>
                 (case pc_start_height_override config of
                    Some start \<Rightarrow> (Inr (effective_seed_cursor (wrap_i32 (start - 1)) start0, row = None, None), w2)
                  | None \<Rightarrow>
                      (case row of
                         Some persisted \<Rightarrow> (Inr (effective_seed_cursor persisted start0, False, None), w2)
                       | None \<Rightarrow>
                           (case in_env (fetch_tip_with_retry chain) w2 of
                              (Inl err, w3) \<Rightarrow> (Inl err, w3)
                            | (Inr tip, w3) \<Rightarrow>
                                (Inr (effective_seed_cursor (wrap_i32 (tip - pc_reorg_depth config)) start0,
                                      True, Some tip), w3))))) in
      case seed of
        Inl err \<Rightarrow> (Inl err, w2)
      | Inr (cursor, persist_seed, seed_target_height) \<Rightarrow>
          if persist_seed
          then (case upsert_poll_cursor_with_target chain cursor seed_target_height w2 of
                  (Inl err, w3) \<Rightarrow> (Inl err, w3)
                | (Inr _, w3) \<Rightarrow> (Inr \<lparr>pl_cursor = cursor, pl_config = config\<rparr>, w3))
          else (Inr \<lparr>pl_cursor = cursor, pl_config = config\<rparr>, w2)))"

end
