(* ===== verification/Poller_Run.thy ===== *)
theory Poller_Run
  imports Poller
begin

text \<open>
  What the live poller does over time: the heights one tick captures, the invariant of the poller
  and its stored row, runs of ticks as a step relation, progress to the tip and the retries of a
  tip request.
\<close>

section \<open>The heights a tick captures\<close>

text \<open>The new heights that answer \<open>Advance\<close>, up to the first that does not.\<close>

fun advances :: "(int \<Rightarrow> tick_height \<Rightarrow> 'w \<Rightarrow> ('e, height_progress) result \<times> 'w) \<Rightarrow> int list \<Rightarrow> 'w \<Rightarrow> int list" where
  "advances process [] w = []"
| "advances process (h # hs) w =
     (case process h New w of (Inr Advance, w1) \<Rightarrow> h # advances process hs w1 | _ \<Rightarrow> [])"

lemma upto_split: "(a :: int) \<le> b \<Longrightarrow> [a..b] = a # [a + 1..b]"
  by (rule upto_rec1)

lemma new_loop_advances:
  assumes "new_loop process [c + 1..e] c pr w = (res, c', pr', w')"
  shows "c \<le> c' \<and> c' \<le> max c e \<and> advances process [c + 1..e] w = [c + 1..c'] \<and>
    (res = Inr () \<and> \<not> tp_held pr' \<longrightarrow> c' = max c e)"
  using assms
proof (induction "nat (e - c)" arbitrary: c pr w)
  case 0
  then show ?case by auto
next
  case (Suc n)
  then have le: "c + 1 \<le> e" by simp
  obtain r w1 where p: "process (c + 1) New w = (r, w1)" by fastforce
  show ?case
  proof (cases "r = Inr Advance")
    case True
    have "new_loop process [c + 1 + 1..e] (c + 1) (pr\<lparr>tp_processed := tp_processed pr + 1\<rparr>) w1 = (res, c', pr', w')"
      using Suc.prems p True by (simp add: upto_split [OF le])
    from Suc.hyps(1) [OF _ this] Suc.hyps(2) have
      "c + 1 \<le> c' \<and> c' \<le> max (c + 1) e \<and> advances process [c + 1 + 1..e] w1 = [c + 1 + 1..c'] \<and>
       (res = Inr () \<and> \<not> tp_held pr' \<longrightarrow> c' = max (c + 1) e)" by simp
    with p True le show ?thesis by (auto simp: upto_split [OF le] upto_split [of "c + 1" c'])
  next
    case False
    with Suc.prems p show ?thesis
      by (auto simp: upto_split [OF le] split: sum.splits height_progress.splits)
  qed
qed

lemma rescan_loop_complete:
  assumes "rescan_loop mp process hs pr w = (Inr (), pr', w')" and "\<not> tp_held pr'"
  shows "\<not> tp_held pr \<and> tp_processed pr' = tp_processed pr + length hs"
  using assms
proof (induction hs arbitrary: pr w)
  case (Cons h hs)
  obtain r w1 where p: "process h Rescan w = (r, w1)" by fastforce
  with Cons show ?case
    by (auto split: sum.splits height_progress.splits if_splits) fastforce+
qed simp

lemma new_loop_processed:
  assumes "new_loop process hs c pr w = (res, c', pr', w')" and "\<not> tp_held pr'"
  shows "\<not> tp_held pr \<and> (res = Inr () \<longrightarrow> tp_processed pr' = tp_processed pr + length hs)"
  using assms
proof (induction hs arbitrary: c pr w)
  case (Cons h hs)
  obtain r w1 where p: "process h New w = (r, w1)" by fastforce
  with Cons show ?case
    by (auto split: sum.splits height_progress.splits) fastforce+
qed simp

text \<open>The heights one run of the policy captures.\<close>

definition policy_captures ::
  "('e \<Rightarrow> bool) \<Rightarrow> (int \<Rightarrow> tick_height \<Rightarrow> 'w \<Rightarrow> ('e, height_progress) result \<times> 'w) \<Rightarrow> tick_window \<Rightarrow> int \<Rightarrow> 'w \<Rightarrow> int list" where
  "policy_captures must_propagate process window cursor w =
     (case rescan_loop must_propagate process [tw_rescan_start window..min cursor (tw_end window)] tick_progress_default w of
        (Inr _, _, w1) \<Rightarrow> if cursor < tw_end window then advances process [cursor + 1..tw_end window] w1 else []
      | (Inl _, _, _) \<Rightarrow> [])"

lemma run_tick_policy_captures:
  assumes run: "run_tick_policy_counting mp process window c tick_progress_default w = (res, c', pr', w')"
    and width: "i32_ok c" "i32_ok (tw_end window)"
  shows "c \<le> c' \<and> c' \<le> max c (tw_end window) \<and> policy_captures mp process window c w = [c + 1..c'] \<and>
    (res = Inr () \<and> \<not> tp_held pr' \<longrightarrow> c' = max c (tw_end window))"
proof -
  obtain r pr1 w1 where rs: "rescan_loop mp process [tw_rescan_start window..min c (tw_end window)]
      tick_progress_default w = (r, pr1, w1)"
    by (metis prod_cases3)
  show ?thesis
  proof (cases "c < tw_end window")
    case True
    then have "wrap_i32 (c + 1) = c + 1" using width by (simp add: i32_ok_def)
    with run rs True show ?thesis
      using new_loop_advances [of process c "tw_end window" pr1 w1 res c' pr' w']
      by (auto simp: run_tick_policy_counting_def policy_captures_def split: sum.splits)
  next
    case False
    with run rs show ?thesis
      by (auto simp: run_tick_policy_counting_def policy_captures_def split: sum.splits)
  qed
qed

section \<open>A tick as its steps\<close>

definition tick_prelude :: "('s, 'e) chain_poller \<Rightarrow> poller \<Rightarrow> 's world \<Rightarrow> ('e, int) result \<times> 's world" where
  "tick_prelude chain p w =
     (case in_env (ch_refresh_core_cache chain) w of
        (Inl err, w1) \<Rightarrow> (Inl err, w1)
      | (Inr _, w1) \<Rightarrow>
     (case drain_pending_before_capture chain w1 of
        (Inl err, w2) \<Rightarrow> (Inl err, w2)
      | (Inr _, w2) \<Rightarrow> fetch_tip_and_persist_target chain p w2))"

definition tick_captures :: "('s, 'e) chain_poller \<Rightarrow> poller \<Rightarrow> 's world \<Rightarrow> int list" where
  "tick_captures chain p w =
     (case tick_prelude chain p w of
        (Inl _, _) \<Rightarrow> []
      | (Inr tip, w1) \<Rightarrow>
          (case tick_window_of chain p tip of
             None \<Rightarrow> []
           | Some window \<Rightarrow>
               policy_captures (ch_must_propagate chain) (tick_process chain) window (pl_cursor p) w1))"

lemma poll_tick_steps_prelude:
  "poll_tick_steps chain summary p w =
     (case tick_prelude chain p w of
        (Inl err, w1) \<Rightarrow> (Inl err, summary, p, w1)
      | (Inr tip, w1) \<Rightarrow>
          let (res, summary1, p1, w2) =
                (case tick_window_of chain p tip of
                   Some window \<Rightarrow> run_window_and_persist_progress chain window tip (summary\<lparr>ts_tip := Some tip\<rparr>) p w1
                 | None \<Rightarrow> (Inr (), summary\<lparr>ts_tip := Some tip\<rparr>, p, w1)) in
          (res, summary1, p1, prune_chain_heads_best_effort chain p1 w2))"
  by (simp add: poll_tick_steps_def tick_prelude_def split: prod.splits sum.splits)

section \<open>The invariant of a poller\<close>

text \<open>What the configuration checks establish, and the widths the Rust types give.\<close>

definition config_ok :: "poller_config \<Rightarrow> bool" where
  "config_ok c \<longleftrightarrow> 0 < pc_batch_size c \<and> 0 \<le> pc_reorg_depth c \<and> 0 < pc_poll_interval c \<and>
     i32_ok (pc_batch_size c) \<and> i32_ok (pc_reorg_depth c) \<and>
     (\<forall>h. pc_start_height_override c = Some h \<longrightarrow> 0 \<le> h \<and> i32_ok h)"

definition chain_ok :: "('s, 'e) chain_poller \<Rightarrow> bool" where
  "chain_ok chain \<longleftrightarrow> 0 \<le> ch_activation_floor chain \<and> i32_ok (ch_activation_floor chain) \<and>
     (\<forall>s tip s'. ch_chain_tip chain s = (Inr tip, s') \<longrightarrow> 0 \<le> tip \<and> i32_ok tip)"

definition start_of :: "('s, 'e) chain_poller \<Rightarrow> poller_config \<Rightarrow> int" where
  "start_of chain c = effective_start (pc_start_height_override c) (ch_activation_floor chain)"

definition poller_ok :: "('s, 'e) chain_poller \<Rightarrow> poller \<Rightarrow> bool" where
  "poller_ok chain p \<longleftrightarrow> config_ok (pl_config p) \<and> i32_ok (pl_cursor p) \<and> start_of chain (pl_config p) - 1 \<le> pl_cursor p"

lemma parse_lookup_or_i32:
  "parse_lookup_or parse_i32 lookup key d = Inr v \<Longrightarrow> i32_ok d \<Longrightarrow> i32_ok v"
  by (auto simp: parse_lookup_or_def ok_or_def parse_i32_def checked_i32_def Let_def
      split: option.splits if_splits prod.splits)

lemma parse_lookup_opt_i32: "parse_lookup_opt lookup key = Inr (Some v) \<Longrightarrow> i32_ok v"
  by (auto simp: parse_lookup_opt_def ok_or_def parse_i32_def checked_i32_def Let_def
      split: option.splits if_splits prod.splits)

lemma from_lookup_config_ok:
  assumes c: "from_lookup pre d lookup = Inr c" and d: "i32_ok (pd_batch_size d)" "i32_ok (pd_reorg_depth d)"
  shows "config_ok c"
proof -
  from c obtain ov pi bs rd where
    p: "parse_lookup_opt lookup (pre @ ''_START_HEIGHT'') = Inr ov"
      "parse_lookup_or parse_i32 lookup (pre @ ''_BATCH_SIZE'') (pd_batch_size d) = Inr bs"
      "parse_lookup_or parse_i32 lookup (pre @ ''_REORG_DEPTH'') (pd_reorg_depth d) = Inr rd"
    and g: "case ov of Some h \<Rightarrow> 0 \<le> h | None \<Rightarrow> True" "0 < pi" "0 < bs" "0 \<le> rd"
    and e: "c = \<lparr>pc_start_height_override = ov, pc_poll_interval = pi, pc_batch_size = bs, pc_reorg_depth = rd\<rparr>"
    unfolding from_lookup_def rbind_eq_Inr ensure_eq_Inr by auto
  show ?thesis
    using g p(1) parse_lookup_opt_i32 parse_lookup_or_i32 [OF p(2) d(1)] parse_lookup_or_i32 [OF p(3) d(2)]
    by (auto simp: config_ok_def e)
qed

lemma start_of_bounds:
  assumes "chain_ok chain" and "config_ok c"
  shows "0 \<le> start_of chain c" and "i32_ok (start_of chain c)" and "ch_activation_floor chain \<le> start_of chain c"
  using assms by (auto simp: start_of_def effective_start_def chain_ok_def config_ok_def max_def split: option.splits)

lemma fetch_tip_attempts_ok:
  assumes "\<forall>s tip s'. f s = (Inr tip, s') \<longrightarrow> P tip" and "fetch_tip_attempts f n e s = (Inr tip, s')"
  shows "P tip"
  using assms(2)
proof (induction n arbitrary: e s)
  case (Suc n)
  with assms(1) show ?case by (auto split: prod.splits sum.splits)
qed simp

lemma fetch_tip_ok:
  assumes "chain_ok chain" and "fetch_tip_with_retry chain s = (Inr tip, s')"
  shows "0 \<le> tip \<and> i32_ok tip"
proof (cases "ch_chain_tip chain s")
  case (Pair r s1)
  have ok: "\<forall>s tip s'. ch_chain_tip chain s = (Inr tip, s') \<longrightarrow> 0 \<le> tip \<and> i32_ok tip"
    using assms(1) by (simp add: chain_ok_def)
  show ?thesis
  proof (cases r)
    case (Inl e)
    with assms(2) Pair have "fetch_tip_attempts (ch_chain_tip chain) 4 e s1 = (Inr tip, s')"
      by (simp add: fetch_tip_with_retry_def)
    from fetch_tip_attempts_ok [OF ok this] show ?thesis .
  next
    case (Inr t)
    with assms(2) Pair ok show ?thesis by (auto simp: fetch_tip_with_retry_def)
  qed
qed

lemma window_Some:
  assumes "poller_ok chain p" and "i32_ok tip" and "tick_window_of chain p tip = Some win"
  shows "tw_end win = min tip (sat_i32 (pl_cursor p + pc_batch_size (pl_config p)))" and "i32_ok (tw_end win)"
    and "tw_rescan_start win = max (start_of chain (pl_config p)) (rescan_floor (pl_cursor p) (pc_reorg_depth (pl_config p)))"
    and "tw_rescan_start win \<le> tw_end win"
  using assms sat_i32_ok [of "pl_cursor p + pc_batch_size (pl_config p)"]
  by (auto simp: tick_window_of_def compute_tick_window_def Let_def start_of_def min_def split: if_splits)

lemma rescan_floor_le: "i32_ok c \<Longrightarrow> 0 \<le> d \<Longrightarrow> rescan_floor c d \<le> c + 1"
  by (auto simp: rescan_floor_def sat_i32_def i32_ok_def)

lemma window_None:
  assumes "poller_ok chain p" and "tick_window_of chain p tip = None"
  shows "min tip (sat_i32 (pl_cursor p + pc_batch_size (pl_config p))) \<le> pl_cursor p"
  using assms rescan_floor_le [of "pl_cursor p" "pc_reorg_depth (pl_config p)"]
  by (auto simp: tick_window_of_def compute_tick_window_def Let_def start_of_def poller_ok_def config_ok_def
      split: if_splits)

text \<open>The row after a statement: never lower, never above the cursor that was written.\<close>

definition row_cursor :: "'s world \<Rightarrow> int option" where
  "row_cursor w = map_option fst (w_row w)"

definition row_grows :: "int \<Rightarrow> 's world \<Rightarrow> 's world \<Rightarrow> bool" where
  "row_grows bound w w' \<longleftrightarrow>
     (\<forall>c. row_cursor w = Some c \<longrightarrow> (\<exists>c'. row_cursor w' = Some c' \<and> c \<le> c' \<and> c' \<le> max c bound)) \<and>
     (\<forall>c'. row_cursor w = None \<longrightarrow> row_cursor w' = Some c' \<longrightarrow> c' \<le> bound)"

lemma row_grows_refl [simp]: "row_grows b w w"
  by (simp add: row_grows_def)

lemma row_grows_trans: "row_grows b w w1 \<Longrightarrow> row_grows b' w1 w2 \<Longrightarrow> b \<le> b' \<Longrightarrow> row_grows b' w w2"
  unfolding row_grows_def by (cases "row_cursor w"; cases "row_cursor w1") fastforce+

lemma row_cursor_env [simp]: "row_cursor (w\<lparr>w_env := s\<rparr>) = row_cursor w"
  by (simp add: row_cursor_def)

lemma in_env_row: "in_env f w = (r, w') \<Longrightarrow> w_row w' = w_row w"
  by (auto simp: in_env_def split: prod.splits)

lemma row_grows_eq: "w_row w' = w_row w \<Longrightarrow> row_grows b w w'"
proof -
  assume "w_row w' = w_row w"
  then have "row_cursor w' = row_cursor w" by (simp add: row_cursor_def)
  then show ?thesis by (simp add: row_grows_def)
qed

lemma upsert_row_grows: "row_grows c w (snd (upsert_poll_cursor_with_target chain c t w))"
proof -
  obtain r w1 where e: "in_env (ch_statement chain) w = (r, w1)" by fastforce
  show ?thesis
    using in_env_row [OF e]
    by (cases "w_row w") (auto simp: upsert_poll_cursor_with_target_def e row_grows_def row_cursor_def upsert_row_def
        split: sum.splits prod.splits)
qed

lemma tick_process_row: "tick_process chain h k w = (r, w') \<Longrightarrow> w_row w' = w_row w"
  by (auto simp: tick_process_def dest: in_env_row)

lemma rescan_loop_row:
  "rescan_loop mp (tick_process chain) hs pr w = (res, pr', w') \<Longrightarrow> w_row w' = w_row w"
proof (induction hs arbitrary: pr w)
  case (Cons h hs)
  obtain r w1 where p: "tick_process chain h Rescan w = (r, w1)" by fastforce
  from Cons p tick_process_row [OF p] show ?case
    by (auto split: sum.splits height_progress.splits if_splits)
qed simp

lemma new_loop_row:
  "new_loop (tick_process chain) hs c pr w = (res, c', pr', w') \<Longrightarrow> w_row w' = w_row w"
proof (induction hs arbitrary: c pr w)
  case (Cons h hs)
  obtain r w1 where p: "tick_process chain h New w = (r, w1)" by fastforce
  from Cons p tick_process_row [OF p] show ?case
    by (auto split: sum.splits height_progress.splits)
qed simp

lemma run_tick_policy_row:
  "run_tick_policy_counting mp (tick_process chain) win c pr w = (res, c', pr', w') \<Longrightarrow> w_row w' = w_row w"
  by (auto simp: run_tick_policy_counting_def Let_def split: prod.splits sum.splits if_splits
      dest!: rescan_loop_row new_loop_row)

lemma tick_prelude_row: "tick_prelude chain p w = (r, w') \<Longrightarrow> row_grows (pl_cursor p) w w'"
proof -
  assume tp: "tick_prelude chain p w = (r, w')"
  obtain r1 w1 where e1: "in_env (ch_refresh_core_cache chain) w = (r1, w1)" by fastforce
  obtain r2 w2 where e2: "in_env (ch_drain_pending chain) w1 = (r2, w2)" by fastforce
  obtain r3 w3 where e3: "in_env (fetch_tip_with_retry chain) w2 = (r3, w3)" by fastforce
  note rows = in_env_row [OF e1] in_env_row [OF e2] in_env_row [OF e3]
  have up: "row_grows (pl_cursor p) w (snd (upsert_poll_cursor_with_target chain (pl_cursor p) t w3))" for t
    by (rule row_grows_trans [OF row_grows_eq upsert_row_grows order_refl]) (simp add: rows)
  from tp consider "w' = w1" | "w' = w2" | "w' = w3"
    | t where "w' = snd (upsert_poll_cursor_with_target chain (pl_cursor p) t w3)"
    by (cases r1; cases r2; cases r3)
      (auto simp: tick_prelude_def drain_pending_before_capture_def fetch_tip_and_persist_target_def e1 e2 e3
        split: if_splits)
  then show ?thesis by cases (simp_all add: row_grows_eq rows up)
qed

lemma run_window_step:
  assumes ok: "poller_ok chain p" "i32_ok (tw_end win)" "tw_end win \<le> sat_i32 (pl_cursor p + pc_batch_size (pl_config p))"
    and run: "run_window_and_persist_progress chain win tip summary p w = (res, summary', p', w')"
  shows "poller_ok chain p' \<and> pl_config p' = pl_config p \<and> pl_cursor p \<le> pl_cursor p' \<and>
    policy_captures (ch_must_propagate chain) (tick_process chain) win (pl_cursor p) w = [pl_cursor p + 1..pl_cursor p'] \<and>
    row_grows (pl_cursor p') w w' \<and> ts_tip summary' = ts_tip summary \<and>
    (res = Inr () \<and> \<not> ts_held summary' \<longrightarrow> pl_cursor p' = max (pl_cursor p) (tw_end win))"
proof -
  obtain r c' pr w1 where pol: "run_tick_policy_counting (ch_must_propagate chain) (tick_process chain) win
      (pl_cursor p) tick_progress_default w = (r, c', pr, w1)" by (metis prod_cases4)
  have c: "i32_ok (pl_cursor p)" using ok by (simp add: poller_ok_def)
  note cap = run_tick_policy_captures [OF pol c ok(2)]
  have row: "w_row w1 = w_row w" using pol by (rule run_tick_policy_row)
  have new: "i32_ok c'" using cap c ok(2) by (auto simp: i32_ok_def)
  have up: "row_grows c' w (snd (upsert_poll_cursor_with_target chain c' (Some tip) w1))"
    by (rule row_grows_trans [OF row_grows_eq upsert_row_grows order_refl]) (simp add: row)
  have out: "res = r" "ts_held summary' = tp_held pr" "ts_tip summary' = ts_tip summary"
      "pl_cursor p' = c'" "pl_config p' = pl_config p" "row_grows c' w w'"
    using run cap up row_grows_eq [OF row, of c']
    by (auto simp: run_window_and_persist_progress_def pol persist_progress_if_advanced_def Let_def
        split: if_splits)
  show ?thesis
    unfolding poller_ok_def out using cap ok(1) new out(6) by (auto simp: poller_ok_def)
qed

lemma prune_row [simp]: "w_row (prune_chain_heads_best_effort chain p w) = w_row w"
  by (auto simp: prune_chain_heads_best_effort_def in_env_def Let_def split: prod.splits)

lemma tick_step:
  assumes ok: "chain_ok chain" "poller_ok chain p" and tick: "tick chain p w = (res, p', w')"
  shows "poller_ok chain p' \<and> pl_config p' = pl_config p \<and> pl_cursor p \<le> pl_cursor p' \<and>
    tick_captures chain p w = [pl_cursor p + 1..pl_cursor p'] \<and> row_grows (pl_cursor p') w w' \<and>
    (\<forall>out. res = Inr out \<longrightarrow> (\<exists>tip w1. tick_prelude chain p w = (Inr tip, w1) \<and>
       pl_cursor p' = max (pl_cursor p) (min tip (sat_i32 (pl_cursor p + pc_batch_size (pl_config p))))))"
proof -
  obtain r w1 where pre: "tick_prelude chain p w = (r, w1)" by fastforce
  have row1: "row_grows (pl_cursor p) w w1" using pre by (rule tick_prelude_row)
  show ?thesis
  proof (cases r)
    case (Inl e)
    with tick pre have "p' = p" "w' = w1" "res = Inl e"
      by (auto simp: tick_def poll_tick_def poll_tick_steps_prelude)
    with Inl pre ok row1 show ?thesis by (simp add: tick_captures_def)
  next
    case (Inr tip)
    have tip: "i32_ok tip" using pre Inr ok(1) fetch_tip_ok [OF ok(1)]
      by (auto simp: tick_prelude_def fetch_tip_and_persist_target_def in_env_def split: prod.splits sum.splits)
    show ?thesis
    proof (cases "tick_window_of chain p tip")
      case None
      have "pl_cursor p = max (pl_cursor p) (min tip (sat_i32 (pl_cursor p + pc_batch_size (pl_config p))))"
        using window_None [OF ok(2) None] by simp
      moreover have "p' = p" "w' = prune_chain_heads_best_effort chain p w1"
        using tick pre Inr None by (auto simp: tick_def poll_tick_def poll_tick_steps_prelude)
      moreover have "row_grows (pl_cursor p) w (prune_chain_heads_best_effort chain p w1)"
        by (rule row_grows_trans [OF row1 row_grows_eq order_refl]) simp
      ultimately show ?thesis using Inr pre None ok by (simp add: tick_captures_def)
    next
      case (Some win)
      note win = window_Some [OF ok(2) tip Some]
      obtain r2 s2 p2 w2 where run: "run_window_and_persist_progress chain win tip
          (tick_summary_default\<lparr>ts_tip := Some tip\<rparr>) p w1 = (r2, s2, p2, w2)" by (metis prod_cases4)
      have "tw_end win \<le> sat_i32 (pl_cursor p + pc_batch_size (pl_config p))" using win(1) by simp
      note S = run_window_step [OF ok(2) win(2) this run]
      have out: "p' = p2" "w' = prune_chain_heads_best_effort chain p2 w2"
          "\<And>out. res = Inr out \<Longrightarrow> r2 = Inr () \<and> \<not> ts_held s2"
        using tick pre Inr Some run
        by (auto simp: tick_def poll_tick_def poll_tick_steps_prelude result_simps)
      have "row_grows (pl_cursor p2) w w2"
        using row_grows_trans [OF row1] S by blast
      then have "row_grows (pl_cursor p2) w w'"
        unfolding out using row_grows_trans [OF _ row_grows_eq order_refl] prune_row by blast
      then show ?thesis
        using S Inr pre Some out win(1) by (auto simp: tick_captures_def)
    qed
  qed
qed

section \<open>Runs of a poller\<close>

text \<open>
  A run is a sequence of ticks, each with any outcome, between which the environment may change in
  any way.  It collects the heights its ticks captured, in the order they were captured.
\<close>

inductive poll_run ::
  "('s, 'e) chain_poller \<Rightarrow> poller \<Rightarrow> 's world \<Rightarrow> int list \<Rightarrow> poller \<Rightarrow> 's world \<Rightarrow> bool"
  for chain p w where
  run_start: "poll_run chain p w [] p w"
| run_tick: "poll_run chain p w hs p1 w1 \<Longrightarrow> tick chain p1 w1 = (res, p2, w2) \<Longrightarrow>
     poll_run chain p w (hs @ tick_captures chain p1 w1) p2 w2"
| run_env: "poll_run chain p w hs p1 w1 \<Longrightarrow> poll_run chain p w hs p1 (w1\<lparr>w_env := s\<rparr>)"

lemma poll_run_invariant:
  assumes "poll_run chain p w hs p' w'" and "chain_ok chain" "poller_ok chain p"
  shows "poller_ok chain p' \<and> pl_cursor p \<le> pl_cursor p' \<and> hs = [pl_cursor p + 1..pl_cursor p'] \<and>
    row_grows (pl_cursor p') w w'"
  using assms
proof (induction rule: poll_run.induct)
  case (run_tick hs p1 w1 res p2 w2)
  then have I: "poller_ok chain p1" "pl_cursor p \<le> pl_cursor p1" "hs = [pl_cursor p + 1..pl_cursor p1]"
      "row_grows (pl_cursor p1) w w1" by auto
  note T = tick_step [OF run_tick.prems(1) I(1) run_tick.hyps(2)]
  have "hs @ tick_captures chain p1 w1 = [pl_cursor p + 1..pl_cursor p2]"
    using T I(2,3) upto_split2 [of "pl_cursor p + 1" "pl_cursor p1" "pl_cursor p2"]
    by (cases "pl_cursor p = pl_cursor p1") auto
  with T I show ?case using row_grows_trans by (metis order_trans)
next
  case (run_env hs p1 w1 s)
  then show ?case using row_grows_trans [OF _ row_grows_eq order_refl] by force
qed simp

text \<open>The startup leaves a poller that satisfies the invariant, at or above the activation floor.\<close>

definition row_ok :: "'s world \<Rightarrow> bool" where
  "row_ok w \<longleftrightarrow> (\<forall>c. row_cursor w = Some c \<longrightarrow> i32_ok c)"

lemma seed_ok:
  assumes "chain_ok chain" "config_ok c" and "i32_ok s"
  shows "poller_ok chain \<lparr>pl_cursor = effective_seed_cursor s (start_of chain c), pl_config = c\<rparr>"
proof -
  have "i32_ok (start_of chain c - 1)" "wrap_i32 (start_of chain c - 1) = start_of chain c - 1"
    using start_of_bounds(1,2) [OF assms(1,2)] by (simp_all add: i32_ok_def)
  with assms show ?thesis by (simp add: poller_ok_def effective_seed_cursor_def max_def)
qed

lemma poller_new_ok:
  assumes ok: "chain_ok chain" "config_ok c" "row_ok w" and new: "poller_new chain c w = (Inr p, w')"
  shows "poller_ok chain p" and "pl_config p = c"
proof -
  let ?s = "start_of chain c"
  have "\<exists>s. i32_ok s \<and> p = \<lparr>pl_cursor = effective_seed_cursor s ?s, pl_config = c\<rparr>"
  proof -
    obtain r w1 where e1: "in_env (ch_startup chain) w = (r, w1)" by fastforce
    obtain r2 w2 where e2: "in_env (ch_statement chain) w1 = (r2, w2)" by fastforce
    have rows: "w_row w2 = w_row w" using in_env_row [OF e1] in_env_row [OF e2] by simp
    obtain r3 w3 where e3: "in_env (fetch_tip_with_retry chain) w2 = (r3, w3)" by fastforce
    from new show ?thesis
      using ok(3) wrap_i32_ok
      by (cases r; cases r2; cases r3; cases "w_row w"; cases "pc_start_height_override c")
        (auto simp: poller_new_def load_poll_cursor_def e1 e2 e3 rows start_of_def row_ok_def row_cursor_def Let_def
          split: if_splits prod.splits sum.splits; blast)+
  qed
  with seed_ok [OF ok(1,2)] show "poller_ok chain p" "pl_config p = c" by auto
qed

text \<open>C6: The live poller never skips a height and never captures one twice as new: from startup, through
  any sequence of ticks that succeed, hold or fail and any changes of the environment between them,
  the new heights captured are exactly those after the seed cursor up to the current cursor, in
  increasing order; the cursor never falls, and the stored cursor is never lowered and never
  passes both its old value and the poller's own cursor.\<close>

theorem poller_gapless:
  assumes "chain_ok chain" "config_ok c" "row_ok w"
    and new: "poller_new chain c w = (Inr p, w0)" and run: "poll_run chain p w0 hs p' w'"
  shows "hs = [pl_cursor p + 1..pl_cursor p'] \<and> pl_cursor p \<le> pl_cursor p' \<and>
    start_of chain c - 1 \<le> pl_cursor p \<and> ch_activation_floor chain \<le> start_of chain c \<and>
    row_grows (pl_cursor p') w0 w'"
proof -
  note P = poller_new_ok [OF assms(1-3) new]
  have "start_of chain c - 1 \<le> pl_cursor p" using P by (simp add: poller_ok_def)
  with poll_run_invariant [OF run assms(1) P(1)] start_of_bounds(3) [OF assms(1,2)] show ?thesis by blast
qed

section \<open>Progress\<close>

text \<open>A chain that answers: every step succeeds, the tip is \<open>T\<close>, every height can be captured.\<close>

definition healthy :: "('s, 'e) chain_poller \<Rightarrow> int \<Rightarrow> bool" where
  "healthy chain T \<longleftrightarrow>
     (\<forall>s. fst (ch_refresh_core_cache chain s) = Inr () \<and> fst (ch_drain_pending chain s) = Inr () \<and>
        fst (ch_chain_tip chain s) = Inr T \<and>
        (\<forall>h. fst (ch_process_height chain h s) = Inr Advance \<and> fst (ch_rescan_height chain h s) = Inr Advance))"

lemma rescan_loop_healthy:
  assumes "\<And>h w. fst (process h Rescan w) = Inr Advance"
  shows "fst (rescan_loop mp process hs pr w) = Inr () \<and> tp_held (fst (snd (rescan_loop mp process hs pr w))) = tp_held pr"
proof (induction hs arbitrary: pr w)
  case (Cons h hs)
  obtain w1 where "process h Rescan w = (Inr Advance, w1)" using assms [of h w] by (metis prod.collapse)
  with Cons show ?case by simp
qed simp

lemma new_loop_healthy:
  assumes "\<And>h w. fst (process h New w) = Inr Advance"
  shows "fst (new_loop process hs c pr w) = Inr () \<and>
    tp_held (fst (snd (snd (new_loop process hs c pr w)))) = tp_held pr"
proof (induction hs arbitrary: c pr w)
  case (Cons h hs)
  obtain w1 where "process h New w = (Inr Advance, w1)" using assms [of h w] by (metis prod.collapse)
  with Cons show ?case by simp
qed simp

lemma run_policy_healthy:
  assumes "\<And>h k w. fst (process h k w) = Inr Advance"
  shows "\<exists>c' pr' w'. run_tick_policy_counting mp process win c pr w = (Inr (), c', pr', w') \<and> tp_held pr' = tp_held pr"
proof -
  obtain r pr1 w1 where rs: "rescan_loop mp process [tw_rescan_start win..min c (tw_end win)] pr w = (r, pr1, w1)"
    by (metis prod_cases3)
  with rescan_loop_healthy [of process mp "[tw_rescan_start win..min c (tw_end win)]" pr w] assms
  have "r = Inr ()" "tp_held pr1 = tp_held pr" by simp_all
  obtain r2 c2 pr2 w2 where nw: "new_loop process [wrap_i32 (c + 1)..tw_end win] c pr1 w1 = (r2, c2, pr2, w2)"
    by (metis prod_cases4)
  with new_loop_healthy [of process "[wrap_i32 (c + 1)..tw_end win]" c pr1 w1] assms
  have "r2 = Inr ()" "tp_held pr2 = tp_held pr1" by simp_all
  with rs nw \<open>r = Inr ()\<close> \<open>tp_held pr1 = tp_held pr\<close> show ?thesis
    by (simp add: run_tick_policy_counting_def Let_def)
qed

lemma healthy_tick:
  fixes chain :: "('a, 'b) chain_poller"
  assumes h: "healthy chain T"
  shows "\<exists>out p' w' w1. tick chain p w = (Inr out, p', w') \<and> tick_prelude chain p w = (Inr T, w1)"
proof -
  have env: "\<exists>v'. in_env f v = (Inr a, v')" if "fst (f (w_env v)) = Inr a"
    for f :: "'a \<Rightarrow> ('b, 'x) result \<times> 'a" and a and v :: "'a world"
    using that by (cases "f (w_env v)") (simp add: in_env_def)
  have proc: "fst (tick_process chain n k v) = Inr Advance" for n k v
    using h by (cases k) (simp_all add: tick_process_def in_env_def healthy_def case_prod_beta)
  have tip: "fst (fetch_tip_with_retry chain s) = Inr T" for s
    using h by (cases "ch_chain_tip chain s") (auto simp: fetch_tip_with_retry_def healthy_def dest: spec [of _ s])
  obtain s1 where e1: "in_env (ch_refresh_core_cache chain) w = (Inr (), s1)"
    using h env by (metis healthy_def)
  obtain s2 where e2: "in_env (ch_drain_pending chain) s1 = (Inr (), s2)"
    using h env by (metis healthy_def)
  obtain s3 where e3: "in_env (fetch_tip_with_retry chain) s2 = (Inr T, s3)"
    using env [of "fetch_tip_with_retry chain" s2 T, OF tip] by blast
  define w1 where "w1 = snd (upsert_poll_cursor_with_target chain (pl_cursor p) (Some T) s3)"
  have pre: "tick_prelude chain p w = (Inr T, w1)"
    by (simp add: tick_prelude_def drain_pending_before_capture_def fetch_tip_and_persist_target_def e1 e2 e3 w1_def)
  show ?thesis
  proof (cases "tick_window_of chain p T")
    case None
    with pre show ?thesis
      by (auto simp: tick_def poll_tick_def poll_tick_steps_prelude tick_summary_default_def ensure_def)
  next
    case (Some win)
    obtain c' pr' w' where "run_tick_policy_counting (ch_must_propagate chain) (tick_process chain) win (pl_cursor p)
        tick_progress_default w1 = (Inr (), c', pr', w')" "tp_held pr' = tp_held tick_progress_default"
      using run_policy_healthy [of "tick_process chain", OF proc] by blast
    with pre Some show ?thesis
      by (auto simp: tick_def poll_tick_def poll_tick_steps_prelude run_window_and_persist_progress_def
          tick_progress_default_def ensure_def Let_def split: prod.splits)
  qed
qed

fun ticks :: "('s, 'e) chain_poller \<Rightarrow> nat \<Rightarrow> poller \<Rightarrow> 's world \<Rightarrow> poller \<times> 's world" where
  "ticks chain 0 p w = (p, w)"
| "ticks chain (Suc n) p w = (let (_, p1, w1) = tick chain p w in ticks chain n p1 w1)"

text \<open>C29: The poller catches up: while the chain answers and its tip stays the same, the cursor is the tip
  after enough ticks, at most one per missing height.\<close>

theorem poller_reaches_tip:
  assumes "healthy chain T" "chain_ok chain" "poller_ok chain p" and "T - pl_cursor p \<le> int n"
  shows "pl_cursor (fst (ticks chain n p w)) = max (pl_cursor p) T"
  using assms(3,4)
proof (induction n arbitrary: p w)
  case 0
  then show ?case by simp
next
  case (Suc n)
  obtain out p1 w1 v where t: "tick chain p w = (Inr out, p1, w1)" "tick_prelude chain p w = (Inr T, v)"
    using healthy_tick [OF assms(1)] by blast
  note S = tick_step [OF assms(2) Suc.prems(1) t(1)]
  have c: "pl_cursor p1 = max (pl_cursor p) (min T (sat_i32 (pl_cursor p + pc_batch_size (pl_config p))))"
    using S t(2) by auto
  have T: "i32_ok T" using assms(1,2) by (auto simp: healthy_def chain_ok_def) (metis prod.collapse)
  have "1 \<le> pc_batch_size (pl_config p)" using Suc.prems(1) by (simp add: poller_ok_def config_ok_def)
  then have "pl_cursor p < T \<Longrightarrow> pl_cursor p + 1 \<le> pl_cursor p1 \<and> pl_cursor p1 \<le> T"
    using T Suc.prems(1) unfolding c by (auto simp: sat_i32_def i32_ok_def poller_ok_def)
  moreover have "T \<le> pl_cursor p \<Longrightarrow> pl_cursor p1 = pl_cursor p" unfolding c by simp
  ultimately have "T - pl_cursor p1 \<le> int n" "max (pl_cursor p1) T = max (pl_cursor p) T"
    using Suc.prems(2) S by linarith+
  with Suc.IH [of p1 w1] S t(1) show ?case by simp
qed

section \<open>Retries\<close>

text \<open>The answers of consecutive tip requests.\<close>

fun tip_answers :: "('s \<Rightarrow> ('e, int) result \<times> 's) \<Rightarrow> nat \<Rightarrow> 's \<Rightarrow> ('e, int) result list" where
  "tip_answers f 0 s = []"
| "tip_answers f (Suc n) s = fst (f s) # tip_answers f n (snd (f s))"

lemma fetch_tip_attempts_answers:
  "fst (fetch_tip_attempts f n e s) =
     (case filter is_ok (tip_answers f n s) of a # _ \<Rightarrow> a | [] \<Rightarrow> last (Inl e # tip_answers f n s))"
proof (induction n arbitrary: e s)
  case (Suc n)
  then show ?case
    by (cases "f s"; cases "fst (f s)") (auto simp: is_ok_def split: list.splits)
qed simp

text \<open>A tip request is retried up to five times in all: the result is the first answer that
  succeeds, and when none of the five does it is the error of the last one.\<close>

theorem tip_retry_first_success:
  fixes chain :: "('a, 'b) chain_poller"
  shows "fst (fetch_tip_with_retry chain s) =
     (let answers = tip_answers (ch_chain_tip chain) 5 s in
      case filter is_ok answers of a # _ \<Rightarrow> a | [] \<Rightarrow> last answers)"
proof -
  obtain e0 :: 'b where True by blast
  have five: "(5 :: nat) = Suc 4" by simp
  have "fst (fetch_tip_with_retry chain s) = fst (fetch_tip_attempts (ch_chain_tip chain) 5 e0 s)"
    unfolding five fetch_tip_attempts.simps fetch_tip_with_retry_def ..
  moreover have "tip_answers (ch_chain_tip chain) 5 s \<noteq> []" unfolding five tip_answers.simps by (rule list.distinct(2))
  ultimately show ?thesis
    unfolding fetch_tip_attempts_answers Let_def by (simp split: list.splits)
qed

section \<open>A concrete chain\<close>

definition demo_chain :: "(unit, unit) chain_poller" where
  "demo_chain = \<lparr>ch_activation_floor = 10, ch_chain_tip = (\<lambda>s. (Inr 25, s)),
     ch_process_height = (\<lambda>_ s. (Inr Advance, s)), ch_rescan_height = (\<lambda>_ s. (Inr Advance, s)),
     ch_refresh_core_cache = (\<lambda>s. (Inr (), s)), ch_drain_pending = (\<lambda>s. (Inr (), s)),
     ch_prune_heads_below = (\<lambda>_ s. (Inr (), s)), ch_startup = (\<lambda>s. (Inr (), s)),
     ch_statement = (\<lambda>s. (Inr (), s)), ch_must_propagate = (\<lambda>_. False), ch_recovery_pending = (\<lambda>_. ())\<rparr>"

definition demo_config :: poller_config where
  "demo_config = \<lparr>pc_start_height_override = None, pc_poll_interval = 30, pc_batch_size = 4, pc_reorg_depth = 6\<rparr>"

definition demo_world :: "unit world" where
  "demo_world = \<lparr>w_env = (), w_row = None\<rparr>"

lemma demo_poller_ok: "chain_ok demo_chain" "config_ok demo_config" "row_ok demo_world" "healthy demo_chain 25"
  by (simp_all add: chain_ok_def demo_chain_def config_ok_def demo_config_def row_ok_def row_cursor_def
      demo_world_def healthy_def i32_ok_def)

definition demo_poller :: poller where
  "demo_poller = \<lparr>pl_cursor = 19, pl_config = demo_config\<rparr>"

lemma demo_poller_new:
  "poller_new demo_chain demo_config demo_world = (Inr demo_poller, \<lparr>w_env = (), w_row = Some (19, Some 25)\<rparr>)"
  by code_simp

theorem poller_gapless_witness:
  "\<exists>hs p' w'. poll_run demo_chain demo_poller \<lparr>w_env = (), w_row = Some (19, Some 25)\<rparr> hs p' w' \<and>
     pl_cursor p' = 23 \<and> hs = [20..23]"
proof -
  obtain res p' w' where t: "tick demo_chain demo_poller \<lparr>w_env = (), w_row = Some (19, Some 25)\<rparr> = (res, p', w')"
    by (metis prod_cases3)
  have c: "pl_cursor (fst (snd (tick demo_chain demo_poller \<lparr>w_env = (), w_row = Some (19, Some 25)\<rparr>))) = 23"
    by code_simp
  note run = run_tick [OF run_start t]
  have "pl_cursor p' = 23" using c by (simp add: t)
  moreover have "[] @ tick_captures demo_chain demo_poller \<lparr>w_env = (), w_row = Some (19, Some 25)\<rparr> =
      [pl_cursor demo_poller + 1..pl_cursor p']"
    using poller_gapless [OF demo_poller_ok(1-3) demo_poller_new run] by blast
  ultimately have "[] @ tick_captures demo_chain demo_poller \<lparr>w_env = (), w_row = Some (19, Some 25)\<rparr> = [20..23]"
    by (simp add: demo_poller_def)
  with run \<open>pl_cursor p' = 23\<close> show ?thesis by blast
qed

theorem poller_reaches_tip_witness:
  "pl_cursor (fst (ticks demo_chain 6 demo_poller demo_world)) = 25"
proof -
  have ok: "poller_ok demo_chain demo_poller"
    using poller_new_ok(1) [OF demo_poller_ok(1-3) demo_poller_new] .
  have le: "25 - pl_cursor demo_poller \<le> int 6" by (simp add: demo_poller_def)
  from poller_reaches_tip [OF demo_poller_ok(4,1) ok le, of demo_world] show ?thesis
    by (simp add: demo_poller_def)
qed

end
