(* ===== verification/Parent_Classifier.thy ===== *)
theory Parent_Classifier
  imports Event_Payload
begin

text \<open>
  \<open>crates/mmm-bitcoin-core/src/parent_classifier/mod.rs\<close> and \<open>core.rs\<close>, with the error categories
  of \<open>availability.rs\<close> and \<open>bitcoin_rpc.rs\<close>: classifying a Bitcoin parent header through a Bitcoin
  Core node.  The node and the clock are the parameter record \<open>core_client\<close>: each call returns an
  answer or an error and may change the environment, so successive calls can disagree.
\<close>

section \<open>Errors and effects\<close>

datatype core_unavailable = Transport | Timeout | Warmup | InitialBlockDownload | HeaderLag | StaleTip

definition unavailable_code :: "core_unavailable \<Rightarrow> string" where
  "unavailable_code u =
     (case u of Transport \<Rightarrow> ''core_unreachable'' | Timeout \<Rightarrow> ''core_timeout'' | Warmup \<Rightarrow> ''core_warmup''
      | InitialBlockDownload \<Rightarrow> ''core_initial_block_download'' | HeaderLag \<Rightarrow> ''core_header_lag''
      | StaleTip \<Rightarrow> ''core_stale_tip'')"

datatype core_fault = WrongNetwork | Authentication | InvalidResponse

definition fault_code :: "core_fault \<Rightarrow> string" where
  "fault_code f = (case f of WrongNetwork \<Rightarrow> ''core_wrong_network'' | Authentication \<Rightarrow> ''core_authentication''
     | InvalidResponse \<Rightarrow> ''core_invalid_response'')"

text \<open>\<open>RpcError\<close> is a JSON-RPC error of the node with its code and message; \<open>Unreachable\<close> is the panic
  of \<open>unreachable!\<close>.\<close>

datatype core_error =
    RpcError int string | OtherError string | CoreUnavailable core_unavailable | CoreFault core_fault
  | MtpAncestorMismatch bytes bytes nat | NegativeHeight int | ClassifierDisabled | Unreachable

definition str_contains :: "string \<Rightarrow> string \<Rightarrow> bool" where
  "str_contains s p \<longleftrightarrow> list_ex (\<lambda>i. take (length p) (drop i s) = p) [0..<Suc (length s)]"

definition core_rpc_error_code :: "core_error \<Rightarrow> int option" where
  "core_rpc_error_code e = (case e of RpcError code _ \<Rightarrow> Some code | _ \<Rightarrow> None)"

definition is_not_found :: "core_error \<Rightarrow> bool" where
  "is_not_found e \<longleftrightarrow> core_rpc_error_code e = Some (-5)"

definition is_block_body_pruned :: "core_error \<Rightarrow> bool" where
  "is_block_body_pruned e \<longleftrightarrow>
     (case e of RpcError code message \<Rightarrow> code = -1 \<and> str_contains message ''pruned data'' | _ \<Rightarrow> False)"

definition is_block_height_out_of_range :: "core_error \<Rightarrow> bool" where
  "is_block_height_out_of_range e \<longleftrightarrow> core_rpc_error_code e = Some (-8)"

definition is_retryable_capture_error :: "core_error \<Rightarrow> bool" where
  "is_retryable_capture_error e \<longleftrightarrow>
     \<not> is_block_body_pruned e \<and> (core_rpc_error_code e = Some (-1) \<or> core_rpc_error_code e = Some (-8))"

type_synonym ('s, 'a) core_io = "'s \<Rightarrow> (core_error, 'a) result \<times> 's"

definition io_ok :: "'a \<Rightarrow> ('s, 'a) core_io" where
  "io_ok a s = (Inr a, s)"

definition io_err :: "core_error \<Rightarrow> ('s, 'a) core_io" where
  "io_err e s = (Inl e, s)"

text \<open>\<open>await\<close> and keep the result, and \<open>await?\<close>.\<close>

definition io_try :: "('s, 'a) core_io \<Rightarrow> ((core_error, 'a) result \<Rightarrow> ('s, 'b) core_io) \<Rightarrow> ('s, 'b) core_io" where
  "io_try m f s = (let (r, s1) = m s in f r s1)"

definition io_bind :: "('s, 'a) core_io \<Rightarrow> ('a \<Rightarrow> ('s, 'b) core_io) \<Rightarrow> ('s, 'b) core_io" where
  "io_bind m f = io_try m (\<lambda>r. case r of Inl e \<Rightarrow> io_err e | Inr a \<Rightarrow> f a)"

section \<open>The node\<close>

record core_header_status =
  hs_confirmations :: int
  hs_height :: int

record core_chain_status =
  st_is_mainnet :: bool
  st_blocks :: int
  st_headers :: int
  st_initial_block_download :: bool
  st_median_time :: int

definition is_synced_tip :: "core_chain_status \<Rightarrow> bool" where
  "is_synced_tip st \<longleftrightarrow> \<not> st_initial_block_download st \<and> st_blocks st = st_headers st"

record core_block_coinbase =
  cb_txid :: bytes
  cb_script :: bytes
  cb_outputs :: bytes

record 's core_client =
  cl_get_chain_status :: "('s, core_chain_status) core_io"
  cl_get_block_hash :: "nat \<Rightarrow> ('s, bytes) core_io"
  cl_get_block_header :: "bytes \<Rightarrow> ('s, header) core_io"
  cl_get_block_header_verbose :: "bytes \<Rightarrow> ('s, core_header_status) core_io"
  cl_get_block_coinbase :: "bytes \<Rightarrow> ('s, core_block_coinbase) core_io"
  cl_now_unix_secs :: "('s, int) core_io"
  cl_live :: bool

section \<open>Verdicts\<close>

definition mtp_window :: nat where "mtp_window = 11"

datatype height_source = BitcoinCore | PrevCanonical | PrevStale | InvalidBlockCatalog

definition height_source_as_db_str :: "height_source \<Rightarrow> string" where
  "height_source_as_db_str h =
     (case h of BitcoinCore \<Rightarrow> ''bitcoin-core'' | PrevCanonical \<Rightarrow> ''prev-canonical''
      | PrevStale \<Rightarrow> ''prev-stale'' | InvalidBlockCatalog \<Rightarrow> ''invalid-block-catalog'')"

definition height_source_from_db_str :: "string \<Rightarrow> height_source option" where
  "height_source_from_db_str v =
     (if v = ''bitcoin-core'' then Some BitcoinCore else if v = ''prev-canonical'' then Some PrevCanonical
      else if v = ''prev-stale'' then Some PrevStale
      else if v = ''invalid-block-catalog'' then Some InvalidBlockCatalog else None)"

datatype block_kind = BkCanonical | BkStale | BkInvalidBlock | BkUnknown

definition block_kind_as_db_str :: "block_kind \<Rightarrow> string" where
  "block_kind_as_db_str k = (case k of BkCanonical \<Rightarrow> ''canonical'' | BkStale \<Rightarrow> ''stale''
     | BkInvalidBlock \<Rightarrow> ''invalid_block'' | BkUnknown \<Rightarrow> ''unknown'')"

definition block_kind_from_db_str :: "string \<Rightarrow> block_kind option" where
  "block_kind_from_db_str v =
     (if v = ''canonical'' then Some BkCanonical else if v = ''stale'' then Some BkStale
      else if v = ''invalid_block'' then Some BkInvalidBlock else if v = ''unknown'' then Some BkUnknown else None)"

record known_block_context =
  kb_kind :: block_kind
  kb_btc_height :: "int option"
  kb_btc_height_source :: "height_source option"
  kb_canonical_competitor_hash :: "bytes option"
  kb_core_attested :: bool

record parent_preflight =
  pp_known_prev :: "known_block_context option"

record classified_header =
  ch_hash :: bytes
  ch_prev_hash :: bytes
  ch_header :: header
  ch_height :: int
  ch_coinbase :: "core_block_coinbase option"
  ch_coinbase_unavailable :: bool

record parent_classification =
  pk_kind :: parent_kind
  pk_height :: "int option"
  pk_height_source :: "height_source option"
  pk_prev_hash :: bytes
  pk_canonical_predecessor_header :: "classified_header option"
  pk_canonical_competitor_header :: "classified_header option"
  pk_canonical_competitor_hash :: "bytes option"
  pk_coinbase :: "core_block_coinbase option"
  pk_difficulty_epoch_ok :: "bool option"
  pk_rejection_reason :: "string option"
  pk_live_observed :: bool
  pk_core_attested :: bool
  pk_core_absence_attested :: bool
  pk_incomplete :: bool

definition classification_unknown :: "header \<Rightarrow> parent_classification" where
  "classification_unknown hdr =
     \<lparr>pk_kind = Unknown, pk_height = None, pk_height_source = None, pk_prev_hash = h_prev_blockhash hdr,
      pk_canonical_predecessor_header = None, pk_canonical_competitor_header = None,
      pk_canonical_competitor_hash = None, pk_coinbase = None, pk_difficulty_epoch_ok = None,
      pk_rejection_reason = None, pk_live_observed = False, pk_core_attested = False,
      pk_core_absence_attested = False, pk_incomplete = False\<rparr>"

definition incomplete_unknown :: "header \<Rightarrow> parent_classification" where
  "incomplete_unknown hdr = (classification_unknown hdr)\<lparr>pk_incomplete := True\<rparr>"

definition core_absence_unknown :: "header \<Rightarrow> parent_classification" where
  "core_absence_unknown hdr = (classification_unknown hdr)\<lparr>pk_core_absence_attested := True\<rparr>"

definition classification_invalid_block ::
  "header \<Rightarrow> int \<Rightarrow> height_source \<Rightarrow> bool option \<Rightarrow> string \<Rightarrow> parent_classification" where
  "classification_invalid_block hdr height height_source difficulty_epoch_ok rejection_reason =
     \<lparr>pk_kind = InvalidBlock, pk_height = Some height, pk_height_source = Some height_source,
      pk_prev_hash = h_prev_blockhash hdr, pk_canonical_predecessor_header = None,
      pk_canonical_competitor_header = None, pk_canonical_competitor_hash = None, pk_coinbase = None,
      pk_difficulty_epoch_ok = difficulty_epoch_ok, pk_rejection_reason = Some rejection_reason,
      pk_live_observed = False, pk_core_attested = False, pk_core_absence_attested = False,
      pk_incomplete = False\<rparr>"

definition to_proof :: "parent_classification \<Rightarrow> classification_proof" where
  "to_proof c = \<lparr>pf_parent_kind = Some (pk_kind c), pf_parent_height = pk_height c,
     pf_difficulty_epoch_ok = pk_difficulty_epoch_ok c,
     pf_provisional = (pk_incomplete c \<or> pk_core_absence_attested c)\<rparr>"

definition bits_match_expected :: "header \<Rightarrow> u32 \<Rightarrow> bool" where
  "bits_match_expected hdr expected \<longleftrightarrow> h_bits hdr = expected"

definition core_height_to_i32 :: "int \<Rightarrow> int option" where
  "core_height_to_i32 height = checked_i32 height"

definition classify_core_canonical_header ::
  "header \<Rightarrow> int \<Rightarrow> core_block_coinbase option \<Rightarrow> parent_classification" where
  "classify_core_canonical_header hdr height coinbase =
     \<lparr>pk_kind = Canonical, pk_height = Some height, pk_height_source = Some BitcoinCore,
      pk_prev_hash = h_prev_blockhash hdr, pk_canonical_predecessor_header = None,
      pk_canonical_competitor_header = None, pk_canonical_competitor_hash = None, pk_coinbase = coinbase,
      pk_difficulty_epoch_ok = Some True, pk_rejection_reason = None, pk_live_observed = True,
      pk_core_attested = True, pk_core_absence_attested = False, pk_incomplete = False\<rparr>"

definition classify_core_stale_header ::
  "bitcoin_lib \<Rightarrow> header \<Rightarrow> int \<Rightarrow> classified_header option \<Rightarrow> core_block_coinbase option \<Rightarrow> parent_classification" where
  "classify_core_stale_header L hdr height competitor coinbase =
     (case competitor of
        None \<Rightarrow> classification_unknown hdr
      | Some c \<Rightarrow>
          if ch_hash c = block_hash L hdr then classification_unknown hdr
          else \<lparr>pk_kind = Stale, pk_height = Some height, pk_height_source = Some BitcoinCore,
                pk_prev_hash = h_prev_blockhash hdr, pk_canonical_predecessor_header = None,
                pk_canonical_competitor_header = Some c, pk_canonical_competitor_hash = Some (ch_hash c),
                pk_coinbase = coinbase, pk_difficulty_epoch_ok = Some True, pk_rejection_reason = None,
                pk_live_observed = True, pk_core_attested = True, pk_core_absence_attested = False,
                pk_incomplete = ch_coinbase_unavailable c\<rparr>)"

definition inferred_height_source :: "block_kind \<Rightarrow> height_source option" where
  "inferred_height_source k =
     (case k of BkCanonical \<Rightarrow> Some PrevCanonical | BkStale \<Rightarrow> Some PrevStale
      | BkInvalidBlock \<Rightarrow> None | BkUnknown \<Rightarrow> None)"

text \<open>A predecessor kind that is not eligible panics, modelled as the error \<open>Unreachable\<close>.\<close>

definition classify_inferred_stale_with_competitor ::
  "header \<Rightarrow> int \<Rightarrow> classified_header option \<Rightarrow> block_kind \<Rightarrow> classified_header option \<Rightarrow>
     (core_error, parent_classification) result" where
  "classify_inferred_stale_with_competitor hdr height predecessor prev_kind competitor =
     (case competitor of
        None \<Rightarrow> Inr (classification_unknown hdr)
      | Some c \<Rightarrow>
          if \<not> bits_match_expected hdr (h_bits (ch_header c)) then Inr (classification_unknown hdr)
          else case inferred_height_source prev_kind of
              None \<Rightarrow> Inl Unreachable
            | Some hs \<Rightarrow>
                Inr \<lparr>pk_kind = Stale, pk_height = Some height, pk_height_source = Some hs,
                  pk_prev_hash = h_prev_blockhash hdr, pk_canonical_predecessor_header = predecessor,
                  pk_canonical_competitor_header = Some c, pk_canonical_competitor_hash = Some (ch_hash c),
                  pk_coinbase = None, pk_difficulty_epoch_ok = Some True, pk_rejection_reason = None,
                  pk_live_observed = False, pk_core_attested = False, pk_core_absence_attested = False,
                  pk_incomplete = (ch_coinbase_unavailable c \<or>
                    (case predecessor of Some q \<Rightarrow> ch_coinbase_unavailable q | None \<Rightarrow> False))\<rparr>)"

section \<open>Readiness\<close>

record synced_tip =
  sy_is_mainnet :: bool
  sy_height :: int
  sy_fresh :: bool

definition max_tip_age_secs :: int where "max_tip_age_secs = 86400"

definition tip_is_fresh :: "int \<Rightarrow> int \<Rightarrow> bool" where
  "tip_is_fresh median_time now_secs \<longleftrightarrow>
     max (- (2 ^ 63)) (min (now_secs - median_time) (2 ^ 63 - 1)) \<le> max_tip_age_secs"

definition ready_tip :: "'s core_client \<Rightarrow> ('s, synced_tip) core_io" where
  "ready_tip C =
     io_bind (cl_get_chain_status C) (\<lambda>status.
     if \<not> st_is_mainnet status then io_err (CoreFault WrongNetwork)
     else if st_initial_block_download status then io_err (CoreUnavailable InitialBlockDownload)
     else if st_blocks status \<noteq> st_headers status then io_err (CoreUnavailable HeaderLag)
     else io_bind (cl_now_unix_secs C) (\<lambda>now.
       if \<not> tip_is_fresh (st_median_time status) now then io_err (CoreUnavailable StaleTip)
       else io_ok \<lparr>sy_is_mainnet = True, sy_height = st_blocks status, sy_fresh = True\<rparr>))"

definition get_synced_tip :: "'s core_client \<Rightarrow> ('s, synced_tip option) core_io" where
  "get_synced_tip C =
     io_bind (cl_get_chain_status C) (\<lambda>status.
     if \<not> is_synced_tip status then io_ok None
     else io_bind (cl_now_unix_secs C) (\<lambda>now.
       io_ok (Some \<lparr>sy_is_mainnet = st_is_mainnet status, sy_height = st_blocks status,
                    sy_fresh = tip_is_fresh (st_median_time status) now\<rparr>)))"

record core_header_at =
  kh_height :: int
  kh_hash :: bytes
  kh_nbits :: u32
  kh_header_time :: int

definition canonical_header :: "'s core_client \<Rightarrow> int \<Rightarrow> ('s, core_header_at) core_io" where
  "canonical_header C height =
     (if height < 0 then io_err (NegativeHeight height)
      else io_bind (cl_get_block_hash C (nat height)) (\<lambda>hash.
        io_bind (cl_get_block_header C hash) (\<lambda>hdr.
        io_ok \<lparr>kh_height = height, kh_hash = hash, kh_nbits = h_bits hdr, kh_header_time = uint (h_time hdr)\<rparr>)))"

section \<open>Lookups\<close>

datatype coinbase_fetch = CoinbaseFound core_block_coinbase | CoinbaseMissing | CoinbaseUnavailable

datatype mtp_check = MtpPasses bool | MtpAncestorMissing | MtpUnavailable

datatype competitor = CompetitorFound classified_header | CompetitorAbsent | CompetitorUnavailable

definition coinbase_fetch_of :: "(core_error, core_block_coinbase) result \<Rightarrow> coinbase_fetch" where
  "coinbase_fetch_of r =
     (case r of
        Inr coinbase \<Rightarrow> CoinbaseFound coinbase
      | Inl err \<Rightarrow> if is_not_found err \<or> is_block_body_pruned err then CoinbaseMissing else CoinbaseUnavailable)"

definition live_coinbase_fetch ::
  "(core_error, core_block_coinbase) result \<Rightarrow> bool \<Rightarrow> (core_error, coinbase_fetch) result" where
  "live_coinbase_fetch r live =
     (case r of
        Inl err \<Rightarrow> if live \<and> \<not> is_not_found err \<and> \<not> is_block_body_pruned err then Inl err
                   else Inr (coinbase_fetch_of r)
      | Inr _ \<Rightarrow> Inr (coinbase_fetch_of r))"

definition fetch_coinbase :: "'s core_client \<Rightarrow> bytes \<Rightarrow> ('s, coinbase_fetch) core_io" where
  "fetch_coinbase C hash =
     io_try (cl_get_block_coinbase C hash) (\<lambda>r s. (live_coinbase_fetch r (cl_live C), s))"

definition coinbase_columns :: "coinbase_fetch \<Rightarrow> core_block_coinbase option \<times> bool" where
  "coinbase_columns f = (case f of CoinbaseFound c \<Rightarrow> (Some c, False) | CoinbaseMissing \<Rightarrow> (None, False)
     | CoinbaseUnavailable \<Rightarrow> (None, True))"

definition get_header :: "'s core_client \<Rightarrow> bytes \<Rightarrow> int \<Rightarrow> ('s, classified_header) core_io" where
  "get_header C hash height =
     io_bind (cl_get_block_header C hash) (\<lambda>hdr.
     io_bind (fetch_coinbase C hash) (\<lambda>f.
     let (coinbase, coinbase_unavailable) = coinbase_columns f in
     io_ok \<lparr>ch_hash = hash, ch_prev_hash = h_prev_blockhash hdr, ch_header = hdr, ch_height = height,
            ch_coinbase = coinbase, ch_coinbase_unavailable = coinbase_unavailable\<rparr>))"

definition fetch_competitor :: "'s core_client \<Rightarrow> int \<Rightarrow> bool \<Rightarrow> ('s, competitor) core_io" where
  "fetch_competitor C height fail_on_rpc_error =
     (if height < 0 then io_ok CompetitorAbsent
      else io_try (cl_get_block_hash C (nat height)) (\<lambda>r.
        case r of
          Inl err \<Rightarrow>
            if is_block_height_out_of_range err \<or> is_not_found err then io_ok CompetitorAbsent
            else if fail_on_rpc_error then io_err err else io_ok CompetitorUnavailable
        | Inr hash \<Rightarrow>
            io_try (get_header C hash height) (\<lambda>r2.
              case r2 of
                Inr hdr \<Rightarrow> io_ok (CompetitorFound hdr)
              | Inl err \<Rightarrow>
                  if is_not_found err then io_ok CompetitorAbsent
                  else if fail_on_rpc_error then io_err err else io_ok CompetitorUnavailable)))"

text \<open>The loop over the median-time window: the remaining depth, the requested hash, the ts so far.\<close>

fun mtp_loop ::
  "bitcoin_lib \<Rightarrow> 's core_client \<Rightarrow> bool \<Rightarrow> nat \<Rightarrow> bytes \<Rightarrow> u32 list \<Rightarrow> ('s, u32 list + mtp_check) core_io" where
  "mtp_loop L C fail_on_rpc_error 0 expected_hash ts = io_ok (Inl ts)"
| "mtp_loop L C fail_on_rpc_error (Suc n) expected_hash ts =
     io_try (cl_get_block_header C expected_hash) (\<lambda>r.
       case r of
         Inr hdr \<Rightarrow>
           if block_hash L hdr = expected_hash
           then mtp_loop L C fail_on_rpc_error n (h_prev_blockhash hdr) (ts @ [h_time hdr])
           else io_err (MtpAncestorMismatch (block_hash L hdr) expected_hash (length ts))
       | Inl err \<Rightarrow>
           if is_not_found err then io_ok (Inr MtpAncestorMissing)
           else if fail_on_rpc_error then io_err err else io_ok (Inr MtpUnavailable))"

definition median_time_past_passes :: "bitcoin_lib \<Rightarrow> 's core_client \<Rightarrow> header \<Rightarrow> bool \<Rightarrow> ('s, mtp_check) core_io" where
  "median_time_past_passes L C candidate fail_on_rpc_error =
     io_bind (mtp_loop L C fail_on_rpc_error mtp_window (h_prev_blockhash candidate) []) (\<lambda>r.
       case r of
         Inr check \<Rightarrow> io_ok check
       | Inl ts \<Rightarrow> io_ok (MtpPasses (sort ts ! (mtp_window div 2) < h_time candidate)))"

section \<open>Classification\<close>

definition time_below_mtp :: string where "time_below_mtp = ''time_below_mtp''"

definition classify_inferred_stale ::
  "bitcoin_lib \<Rightarrow> 's core_client \<Rightarrow> header \<Rightarrow> int \<Rightarrow> classified_header option \<Rightarrow> block_kind \<Rightarrow> bool \<Rightarrow>
     ('s, parent_classification) core_io" where
  "classify_inferred_stale L C hdr prev_height predecessor prev_kind fail_on_rpc_error =
     (case checked_i32 (prev_height + 1) of
        None \<Rightarrow> io_ok (core_absence_unknown hdr)
      | Some height \<Rightarrow>
          io_bind (fetch_competitor C height fail_on_rpc_error) (\<lambda>c.
          case c of
            CompetitorAbsent \<Rightarrow> io_ok (core_absence_unknown hdr)
          | CompetitorUnavailable \<Rightarrow> io_ok (incomplete_unknown hdr)
          | CompetitorFound rival \<Rightarrow>
              if \<not> bits_match_expected hdr (h_bits (ch_header rival)) then io_ok (classification_unknown hdr)
              else io_bind (median_time_past_passes L C hdr fail_on_rpc_error) (\<lambda>check.
                case check of
                  MtpPasses True \<Rightarrow>
                    (\<lambda>s. (classify_inferred_stale_with_competitor hdr height predecessor prev_kind (Some rival), s))
                | MtpPasses False \<Rightarrow>
                    (case inferred_height_source prev_kind of
                       None \<Rightarrow> io_err Unreachable
                     | Some hs \<Rightarrow> io_ok (classification_invalid_block hdr height hs (Some True) time_below_mtp))
                | MtpAncestorMissing \<Rightarrow> io_ok (classification_unknown hdr)
                | MtpUnavailable \<Rightarrow> io_ok (incomplete_unknown hdr))))"

definition classify_invalid_block_child ::
  "'s core_client \<Rightarrow> header \<Rightarrow> int \<Rightarrow> bool \<Rightarrow> ('s, parent_classification) core_io" where
  "classify_invalid_block_child C hdr prev_height fail_on_rpc_error =
     (case checked_i32 (prev_height + 1) of
        None \<Rightarrow> io_ok (core_absence_unknown hdr)
      | Some height \<Rightarrow>
          io_bind (fetch_competitor C height fail_on_rpc_error) (\<lambda>c.
          case c of
            CompetitorFound rival \<Rightarrow>
              if \<not> bits_match_expected hdr (h_bits (ch_header rival)) then io_ok (classification_unknown hdr)
              else io_ok (core_absence_unknown hdr)
          | CompetitorAbsent \<Rightarrow> io_ok (core_absence_unknown hdr)
          | CompetitorUnavailable \<Rightarrow> io_ok (incomplete_unknown hdr)))"

definition classify_by_core_predecessor ::
  "bitcoin_lib \<Rightarrow> 's core_client \<Rightarrow> header \<Rightarrow> bool \<Rightarrow> ('s, parent_classification) core_io" where
  "classify_by_core_predecessor L C hdr fail_on_rpc_error =
     io_try (cl_get_block_header_verbose C (h_prev_blockhash hdr)) (\<lambda>r.
       case r of
         Inl err \<Rightarrow>
           if is_not_found err then io_ok (core_absence_unknown hdr)
           else if fail_on_rpc_error then io_err err else io_ok (incomplete_unknown hdr)
       | Inr v \<Rightarrow>
           if hs_confirmations v < 0 then io_ok (core_absence_unknown hdr)
           else case core_height_to_i32 (hs_height v) of
               None \<Rightarrow> if cl_live C then io_err (CoreFault InvalidResponse) else io_ok (core_absence_unknown hdr)
             | Some prev_height \<Rightarrow>
                 io_try (get_header C (h_prev_blockhash hdr) prev_height) (\<lambda>r2.
                   case r2 of
                     Inl err \<Rightarrow> if fail_on_rpc_error then io_err err else io_ok (incomplete_unknown hdr)
                   | Inr predecessor \<Rightarrow>
                       classify_inferred_stale L C hdr prev_height (Some predecessor) BkCanonical fail_on_rpc_error))"

definition classify_core_unknown ::
  "bitcoin_lib \<Rightarrow> 's core_client \<Rightarrow> header \<Rightarrow> parent_preflight \<Rightarrow> bool \<Rightarrow> ('s, parent_classification) core_io" where
  "classify_core_unknown L C hdr preflight fail_on_rpc_error =
     (case Option.bind (pp_known_prev preflight) (\<lambda>k. map_option (Pair (kb_kind k)) (kb_btc_height k)) of
        Some (BkCanonical, prev_height) \<Rightarrow>
          classify_inferred_stale L C hdr prev_height None BkCanonical fail_on_rpc_error
      | Some (BkStale, prev_height) \<Rightarrow>
          classify_inferred_stale L C hdr prev_height None BkStale fail_on_rpc_error
      | Some (BkInvalidBlock, prev_height) \<Rightarrow> classify_invalid_block_child C hdr prev_height fail_on_rpc_error
      | Some (BkUnknown, _) \<Rightarrow> classify_by_core_predecessor L C hdr fail_on_rpc_error
      | None \<Rightarrow> classify_by_core_predecessor L C hdr fail_on_rpc_error)"

definition classify_indexed ::
  "bitcoin_lib \<Rightarrow> 's core_client \<Rightarrow> header \<Rightarrow> core_header_status \<Rightarrow> bool \<Rightarrow> ('s, parent_classification) core_io" where
  "classify_indexed L C hdr verbose fail_on_rpc_error =
     (case core_height_to_i32 (hs_height verbose) of
        None \<Rightarrow> if cl_live C then io_err (CoreFault InvalidResponse) else io_ok (classification_unknown hdr)
      | Some height \<Rightarrow>
          io_bind (fetch_coinbase C (block_hash L hdr)) (\<lambda>f.
          let (coinbase, coinbase_unavailable) = coinbase_columns f in
          if 0 \<le> hs_confirmations verbose then
            io_ok ((classify_core_canonical_header hdr height coinbase)\<lparr>pk_incomplete := coinbase_unavailable\<rparr>)
          else io_bind (fetch_competitor C height fail_on_rpc_error) (\<lambda>c.
            case c of
              CompetitorUnavailable \<Rightarrow> io_ok (incomplete_unknown hdr)
            | _ \<Rightarrow>
                let competitor = (case c of CompetitorFound rival \<Rightarrow> Some rival | _ \<Rightarrow> None);
                    verdict = classify_core_stale_header L hdr height competitor coinbase in
                io_ok (verdict\<lparr>pk_incomplete := (pk_incomplete verdict \<or> coinbase_unavailable)\<rparr>))))"

definition classify_parent_deferred_with_policy ::
  "bitcoin_lib \<Rightarrow> 's core_client \<Rightarrow> header \<Rightarrow> ('s, parent_preflight) core_io \<Rightarrow> bool \<Rightarrow> ('s, parent_classification) core_io" where
  "classify_parent_deferred_with_policy L C hdr preflight fail =
     (let fail_on_rpc_error = (fail \<or> cl_live C) in
      io_try (cl_get_block_header_verbose C (block_hash L hdr)) (\<lambda>r.
        case r of
          Inl err \<Rightarrow>
            if is_not_found err then
              io_bind (if cl_live C then io_bind (ready_tip C) (\<lambda>_. io_ok ()) else io_ok ()) (\<lambda>_.
              io_bind preflight (\<lambda>pre.
              io_bind (classify_core_unknown L C hdr pre fail_on_rpc_error) (\<lambda>verdict.
              io_bind (if cl_live C \<and> pk_core_absence_attested verdict
                       then io_bind (ready_tip C) (\<lambda>_. io_ok ()) else io_ok ()) (\<lambda>_.
              io_ok verdict))))
            else if fail_on_rpc_error then io_err err
            else io_ok (incomplete_unknown hdr)
        | Inr verbose \<Rightarrow> classify_indexed L C hdr verbose fail_on_rpc_error))"

section \<open>The configured classifier\<close>

datatype 's configured_classifier = ClassifierOff | CoreBacked "'s core_client"

definition classifier_is_live :: "'s configured_classifier \<Rightarrow> bool" where
  "classifier_is_live K = (case K of CoreBacked C \<Rightarrow> cl_live C | ClassifierOff \<Rightarrow> False)"

definition is_enabled :: "'s configured_classifier \<Rightarrow> bool" where
  "is_enabled K = (case K of CoreBacked C \<Rightarrow> True | ClassifierOff \<Rightarrow> False)"

definition configured_synced_tip :: "'s configured_classifier \<Rightarrow> ('s, synced_tip option) core_io" where
  "configured_synced_tip K = (case K of ClassifierOff \<Rightarrow> io_ok None | CoreBacked C \<Rightarrow> get_synced_tip C)"

definition configured_ready_tip :: "'s configured_classifier \<Rightarrow> ('s, synced_tip) core_io" where
  "configured_ready_tip K =
     (case K of
        CoreBacked C \<Rightarrow> ready_tip C
      | ClassifierOff \<Rightarrow>
          io_bind (configured_synced_tip K) (\<lambda>tip.
          case tip of
            None \<Rightarrow> io_err (CoreUnavailable InitialBlockDownload)
          | Some tip \<Rightarrow>
              if \<not> sy_is_mainnet tip then io_err (CoreFault WrongNetwork)
              else if \<not> sy_fresh tip then io_err (CoreUnavailable StaleTip)
              else io_ok tip))"

definition configured_canonical_header :: "'s configured_classifier \<Rightarrow> int \<Rightarrow> ('s, core_header_at) core_io" where
  "configured_canonical_header K height =
     (case K of ClassifierOff \<Rightarrow> io_err ClassifierDisabled | CoreBacked C \<Rightarrow> canonical_header C height)"

definition classify_parent_deferred ::
  "bitcoin_lib \<Rightarrow> 's configured_classifier \<Rightarrow> header \<Rightarrow> ('s, parent_preflight) core_io \<Rightarrow>
     ('s, parent_classification) core_io" where
  "classify_parent_deferred L K hdr preflight =
     (case K of ClassifierOff \<Rightarrow> io_ok (classification_unknown hdr)
      | CoreBacked C \<Rightarrow> classify_parent_deferred_with_policy L C hdr preflight False)"

definition classify_parent_deferred_strict ::
  "bitcoin_lib \<Rightarrow> 's configured_classifier \<Rightarrow> header \<Rightarrow> ('s, parent_preflight) core_io \<Rightarrow>
     ('s, parent_classification) core_io" where
  "classify_parent_deferred_strict L K hdr preflight =
     (case K of ClassifierOff \<Rightarrow> io_ok (classification_unknown hdr)
      | CoreBacked C \<Rightarrow> classify_parent_deferred_with_policy L C hdr preflight True)"

definition configured_classify_parent ::
  "bitcoin_lib \<Rightarrow> 's configured_classifier \<Rightarrow> header \<Rightarrow> parent_preflight \<Rightarrow> ('s, parent_classification) core_io" where
  "configured_classify_parent L K hdr preflight = classify_parent_deferred L K hdr (io_ok preflight)"

definition classify_parent_strict ::
  "bitcoin_lib \<Rightarrow> 's configured_classifier \<Rightarrow> header \<Rightarrow> parent_preflight \<Rightarrow> ('s, parent_classification) core_io" where
  "classify_parent_strict L K hdr preflight =
     (case K of ClassifierOff \<Rightarrow> io_ok (classification_unknown hdr)
      | CoreBacked C \<Rightarrow> classify_parent_deferred_with_policy L C hdr (io_ok preflight) True)"

section \<open>Reasoning about calls\<close>

text \<open>\<open>answers Q m\<close>: every answer \<open>m\<close> can give, in any environment, satisfies \<open>Q\<close>.\<close>

named_theorems answer_rules "rules for the answers of a call"

definition answers :: "('a \<Rightarrow> bool) \<Rightarrow> ('s, 'a) core_io \<Rightarrow> bool" where
  "answers Q m \<longleftrightarrow> (\<forall>s a s'. m s = (Inr a, s') \<longrightarrow> Q a)"

lemma answersD: "answers Q m \<Longrightarrow> m s = (Inr a, s') \<Longrightarrow> Q a"
  unfolding answers_def by blast

lemma answers_ok [answer_rules]: "answers Q (io_ok a) \<longleftrightarrow> Q a"
  by (simp add: answers_def io_ok_def)

lemma answers_err [answer_rules]: "answers Q (io_err e)"
  by (simp add: answers_def io_err_def)

lemma answers_result [answer_rules]: "answers Q (\<lambda>s. (r, s)) \<longleftrightarrow> (\<forall>a. r = Inr a \<longrightarrow> Q a)"
  by (simp add: answers_def)

lemma answers_try:
  assumes "\<And>r. answers Q (f r)"
  shows "answers Q (io_try m f)"
  using assms by (auto simp: answers_def io_try_def split: prod.splits)

lemma answers_try_post:
  assumes "answers P m" "\<And>a. P a \<Longrightarrow> answers Q (f (Inr a))" "\<And>e. answers Q (f (Inl e))"
  shows "answers Q (io_try m f)"
  unfolding answers_def
proof (intro allI impI)
  fix s a s' assume *: "io_try m f s = (Inr a, s')"
  obtain r s1 where m: "m s = (r, s1)" by (cases "m s")
  have "answers Q (f r)"
  proof (cases r)
    case (Inr b) then show ?thesis using assms(2) [OF answersD [OF assms(1)]] m by simp
  qed (simp add: assms(3))
  then show "Q a" using * m by (auto simp: io_try_def dest: answersD)
qed

lemma answers_bind_post:
  assumes "answers P m" "\<And>a. P a \<Longrightarrow> answers Q (f a)"
  shows "answers Q (io_bind m f)"
  unfolding io_bind_def by (rule answers_try_post [OF assms(1)]) (simp_all add: assms(2) answer_rules)

lemma answers_bind:
  assumes "\<And>a. answers Q (f a)"
  shows "answers Q (io_bind m f)"
  by (rule answers_bind_post [of "\<lambda>_. True"]) (simp_all add: assms, simp add: answers_def)

lemma io_bind_Inr:
  assumes "io_bind m f s = (Inr b, s')"
  obtains a s1 where "m s = (Inr a, s1)" "f a s1 = (Inr b, s')"
proof -
  obtain r s1 where m: "m s = (r, s1)" by (cases "m s")
  show thesis using assms m that by (cases r) (auto simp: io_bind_def io_try_def io_err_def)
qed

section \<open>What every verdict satisfies\<close>

text \<open>The kinds that claim a place carry a height of 32 bits and nothing else does; the source of the height
  fits the kind; a stale verdict carries the header of its canonical competitor; what Core attests was
  observed live; an absence verdict makes no other claim.\<close>

definition verdict_ok :: "parent_classification \<Rightarrow> bool" where
  "verdict_ok v \<longleftrightarrow>
     pk_kind v \<noteq> Near \<and> (pk_kind v = Unknown \<longleftrightarrow> pk_height v = None) \<and>
     (case pk_height v of None \<Rightarrow> True | Some h \<Rightarrow> i32_ok h) \<and>
     (pk_kind v = Unknown \<longleftrightarrow> pk_height_source v = None) \<and>
     (pk_kind v = Stale \<longleftrightarrow> pk_canonical_competitor_hash v \<noteq> None) \<and>
     (pk_kind v = InvalidBlock \<longleftrightarrow> pk_rejection_reason v \<noteq> None) \<and>
     (pk_core_attested v \<longrightarrow> pk_height_source v = Some BitcoinCore) \<and>
     (pk_kind v = Canonical \<longrightarrow> pk_height_source v = Some BitcoinCore) \<and>
     (pk_kind v = Stale \<longrightarrow> pk_height_source v \<noteq> Some InvalidBlockCatalog) \<and>
     (pk_kind v = InvalidBlock \<longrightarrow> pk_height_source v \<noteq> Some BitcoinCore) \<and>
     map_option ch_hash (pk_canonical_competitor_header v) = pk_canonical_competitor_hash v \<and>
     pk_live_observed v = pk_core_attested v \<and>
     (pk_core_absence_attested v \<longrightarrow> pk_kind v = Unknown \<and> \<not> pk_core_attested v \<and> \<not> pk_incomplete v)"

lemmas verdict_defs = classification_unknown_def incomplete_unknown_def core_absence_unknown_def
  classification_invalid_block_def classify_core_canonical_header_def classify_core_stale_header_def
  classify_inferred_stale_with_competitor_def inferred_height_source_def

lemma unknown_ok [answer_rules]:
  "verdict_ok (classification_unknown hdr)" "verdict_ok (incomplete_unknown hdr)"
  "verdict_ok (core_absence_unknown hdr)"
  by (simp_all add: verdict_ok_def verdict_defs)

lemma inferred_ok:
  "i32_ok height \<Longrightarrow> classify_inferred_stale_with_competitor hdr height p k c = Inr v \<Longrightarrow> verdict_ok v"
  by (auto simp: verdict_defs verdict_ok_def split: option.splits if_splits block_kind.splits)

lemma invalid_block_verdict_ok:
  "i32_ok height \<Longrightarrow> hs \<noteq> BitcoinCore \<Longrightarrow> verdict_ok (classification_invalid_block hdr height hs d r)"
  by (simp add: verdict_defs verdict_ok_def)

lemma inferred_source: "inferred_height_source k = Some hs \<Longrightarrow> hs \<noteq> BitcoinCore \<and> hs \<noteq> InvalidBlockCatalog"
  by (auto simp: inferred_height_source_def split: block_kind.splits)

lemma inferred_stale_ok: "answers verdict_ok (classify_inferred_stale L C hdr ph p k f)"
proof (cases "checked_i32 (ph + 1)")
  case (Some height)
  then have "i32_ok height" by (simp add: result_simps)
  then show ?thesis
    unfolding classify_inferred_stale_def Some option.case
    by (intro answers_bind)
      (auto simp: answer_rules inferred_ok invalid_block_verdict_ok dest: inferred_source intro!: answers_bind
        split: competitor.splits mtp_check.splits bool.splits option.splits)
qed (simp add: classify_inferred_stale_def answer_rules)

lemma invalid_block_child_ok: "answers verdict_ok (classify_invalid_block_child C hdr ph f)"
  unfolding classify_invalid_block_child_def
  by (auto simp: answer_rules intro!: answers_bind split: competitor.splits option.splits)

lemma core_predecessor_ok: "answers verdict_ok (classify_by_core_predecessor L C hdr f)"
  unfolding classify_by_core_predecessor_def
  by (auto simp: answer_rules inferred_stale_ok intro!: answers_try split: sum.splits option.splits)

lemma core_unknown_ok: "answers verdict_ok (classify_core_unknown L C hdr pre f)"
  unfolding classify_core_unknown_def
  by (auto simp: inferred_stale_ok invalid_block_child_ok core_predecessor_ok
      split: option.splits prod.splits block_kind.splits)

lemma indexed_ok: "answers verdict_ok (classify_indexed L C hdr vb f)"
proof (cases "core_height_to_i32 (hs_height vb)")
  case (Some height)
  then have "i32_ok height" by (simp add: core_height_to_i32_def result_simps)
  then have c: "verdict_ok ((classify_core_canonical_header hdr height cb)\<lparr>pk_incomplete := b\<rparr>)"
    and s: "verdict_ok ((classify_core_stale_header L hdr height r cb)\<lparr>pk_incomplete := b\<rparr>)" for r cb b
    by (auto simp: verdict_defs verdict_ok_def split: option.splits)
  show ?thesis
    unfolding classify_indexed_def Some option.case Let_def split_def
    by (auto simp: answer_rules c s intro!: answers_bind split: competitor.splits)
qed (simp add: classify_indexed_def answer_rules)

lemma policy_ok: "answers verdict_ok (classify_parent_deferred_with_policy L C hdr pre f)"
  unfolding classify_parent_deferred_with_policy_def Let_def
  by (rule answers_try)
    (auto simp: answer_rules indexed_ok intro!: answers_bind answers_bind_post [OF core_unknown_ok]
      split: sum.splits)

lemma configured_verdict_ok:
  "answers verdict_ok (classify_parent_deferred L K hdr pre)"
  "answers verdict_ok (classify_parent_deferred_strict L K hdr pre)"
  unfolding classify_parent_deferred_def classify_parent_deferred_strict_def
  by (auto simp: answer_rules policy_ok split: configured_classifier.splits)

lemma verdict_proof_applies:
  assumes "verdict_ok v"
  shows "\<exists>pl'. apply_classification_proof catalogue pl (to_proof v) = Inr pl' \<and>
    ev_classification_provisional pl' = (pk_incomplete v \<or> pk_core_absence_attested v) \<and>
    (ev_pow_validates_btc_target pl \<longrightarrow>
       invalid_block_lookup catalogue (ev_btc_parent_header_hash pl) = None \<longrightarrow>
       ev_btc_parent_kind pl' = pk_kind v \<and> ev_btc_parent_height pl' = pk_height v)"
proof -
  obtain kind height where I: "invalid_block_proof catalogue (ev_btc_parent_header_hash pl)
      (ev_pow_validates_btc_target pl) (to_proof v) = (kind, height)" by fastforce
  have k: "kind \<noteq> Some Near" "kind \<in> Some ` {Canonical, Stale, InvalidBlock} \<Longrightarrow> height \<noteq> None"
    "kind \<noteq> None"
    using I assms
    by (cases "pk_kind v"; auto simp: invalid_block_proof_def to_proof_def verdict_ok_def split: option.splits if_splits)+
  have exact: "ev_pow_validates_btc_target pl \<Longrightarrow>
      invalid_block_lookup catalogue (ev_btc_parent_header_hash pl) = None \<Longrightarrow>
      kind = Some (pk_kind v) \<and> height = pk_height v"
    using I assms by (cases "pk_kind v") (auto simp: invalid_block_proof_def to_proof_def verdict_ok_def)
  obtain k' where K: "classify_parent (ev_pow_validates_btc_target pl) kind height = Inr k'"
      "ev_pow_validates_btc_target pl \<Longrightarrow> kind = Some k'"
  proof (cases "ev_pow_validates_btc_target pl")
    case True
    then show thesis using k that by (cases "the kind") (auto simp: classify_parent_def)
  qed (use that in \<open>auto simp: classify_parent_def\<close>)
  show ?thesis
    using I K exact by (auto simp: apply_classification_proof_def to_proof_def)
qed

text \<open>C27: Whatever verdict the classifier returns, on any answers of the node, applying its proof to an
  event succeeds: no verdict is Near and every kind that needs a height has one.  Where the event's
  parent meets the Bitcoin target and is not a catalogued invalid block, the event takes the verdict's
  kind and height, and it is provisional exactly for an incomplete or absence verdict.\<close>

theorem verdict_applies_to_event:
  assumes "classify_parent_deferred L K hdr preflight s = (Inr v, s') \<or>
    classify_parent_deferred_strict L K hdr preflight s = (Inr v, s')"
  shows "\<exists>pl'. apply_classification_proof catalogue pl (to_proof v) = Inr pl' \<and>
    ev_classification_provisional pl' = (pk_incomplete v \<or> pk_core_absence_attested v) \<and>
    (ev_pow_validates_btc_target pl \<longrightarrow>
       invalid_block_lookup catalogue (ev_btc_parent_header_hash pl) = None \<longrightarrow>
       ev_btc_parent_kind pl' = pk_kind v \<and> ev_btc_parent_height pl' = pk_height v)"
  by (rule verdict_proof_applies, rule disjE [OF assms])
    (erule answersD [OF configured_verdict_ok(1)], erule answersD [OF configured_verdict_ok(2)])

section \<open>Attested verdicts\<close>

definition unattested :: "parent_classification \<Rightarrow> bool" where
  "unattested v \<longleftrightarrow> \<not> pk_core_attested v \<and> pk_kind v \<noteq> Canonical"

lemma unattested_verdicts [answer_rules]:
  "unattested (classification_unknown hdr)" "unattested (incomplete_unknown hdr)"
  "unattested (core_absence_unknown hdr)" "unattested (classification_invalid_block hdr h hs d r)"
  by (simp_all add: unattested_def verdict_defs)

lemma inferred_unattested [answer_rules]:
  "classify_inferred_stale_with_competitor hdr height p k c = Inr v \<Longrightarrow> unattested v"
  by (auto simp: verdict_defs unattested_def split: option.splits if_splits block_kind.splits)

lemma inferred_stale_unattested: "answers unattested (classify_inferred_stale L C hdr ph p k f)"
  unfolding classify_inferred_stale_def
  by (auto simp: answer_rules intro!: answers_bind
      split: competitor.splits mtp_check.splits bool.splits option.splits)

lemma core_unknown_unattested: "answers unattested (classify_core_unknown L C hdr pre f)"
  unfolding classify_core_unknown_def classify_invalid_block_child_def classify_by_core_predecessor_def
  by (auto simp: answer_rules inferred_stale_unattested intro!: answers_bind answers_try
      split: option.splits prod.splits block_kind.splits competitor.splits sum.splits)

lemma indexed_verdict:
  "answers (\<lambda>v. \<not> pk_core_absence_attested v \<and>
      (pk_core_attested v \<longrightarrow> pk_height v = Some (hs_height vb) \<and>
         pk_kind v = (if 0 \<le> hs_confirmations vb then Canonical else Stale)) \<and>
      (pk_kind v = Canonical \<longrightarrow> pk_core_attested v) \<and>
      (0 \<le> hs_confirmations vb \<longrightarrow> i32_ok (hs_height vb) \<longrightarrow> pk_kind v = Canonical))
    (classify_indexed L C hdr vb f)"
  unfolding classify_indexed_def Let_def split_def
  by (auto simp: answer_rules core_height_to_i32_def checked_i32_def verdict_defs intro!: answers_bind
      split: option.splits competitor.splits)

lemma ready_guard:
  assumes "(if b then io_bind (ready_tip C) (\<lambda>_. io_ok ()) else io_ok ()) s = (Inr u, s')"
  shows "b \<Longrightarrow> \<exists>t. ready_tip C s = (Inr t, s')" and "\<not> b \<Longrightarrow> s' = s"
  using assms by (auto simp: io_ok_def elim!: io_bind_Inr)

lemma policy_steps:
  assumes "classify_parent_deferred_with_policy L C hdr pre f s = (Inr v, s')"
    and "pk_core_attested v \<or> pk_kind v = Canonical \<or> pk_core_absence_attested v"
  obtains vb s1 where "cl_get_block_header_verbose C (block_hash L hdr) s = (Inr vb, s1)"
      "classify_indexed L C hdr vb (f \<or> cl_live C) s1 = (Inr v, s')"
  | e s1 s2 s3 s4 p g where "cl_get_block_header_verbose C (block_hash L hdr) s = (Inl e, s1)" "is_not_found e"
      "cl_live C \<Longrightarrow> \<exists>t. ready_tip C s1 = (Inr t, s2)"
      "pre s2 = (Inr p, s3)" "classify_core_unknown L C hdr p g s3 = (Inr v, s4)"
      "cl_live C \<Longrightarrow> pk_core_absence_attested v \<Longrightarrow> \<exists>t. ready_tip C s4 = (Inr t, s')"
proof -
  obtain r s1 where r: "cl_get_block_header_verbose C (block_hash L hdr) s = (r, s1)"
    by (cases "cl_get_block_header_verbose C (block_hash L hdr) s")
  show thesis
  proof (cases r)
    case (Inr vb)
    then show thesis using assms r that(1)
      by (simp add: classify_parent_deferred_with_policy_def Let_def io_try_def)
  next
    case (Inl e)
    have nf: "is_not_found e"
      using assms r Inl
      by (auto simp: classify_parent_deferred_with_policy_def Let_def io_try_def io_err_def io_ok_def
          incomplete_unknown_def classification_unknown_def split: if_splits)
    let ?ready = "\<lambda>b. if b then io_bind (ready_tip C) (\<lambda>_. io_ok ()) else io_ok ()"
    let ?last = "\<lambda>v. io_bind (?ready (cl_live C \<and> pk_core_absence_attested v)) (\<lambda>_. io_ok v)"
    let ?rest = "\<lambda>p. io_bind (classify_core_unknown L C hdr p (f \<or> cl_live C)) ?last"
    have 1: "io_bind (?ready (cl_live C)) (\<lambda>_. io_bind pre ?rest) s1 = (Inr v, s')"
      using assms(1) r Inl nf by (simp add: classify_parent_deferred_with_policy_def Let_def io_try_def)
    obtain u s2 where 2: "?ready (cl_live C) s1 = (Inr u, s2)" and 3: "io_bind pre ?rest s2 = (Inr v, s')"
      by (rule io_bind_Inr [OF 1])
    obtain p s3 where 4: "pre s2 = (Inr p, s3)" and 5: "?rest p s3 = (Inr v, s')"
      by (rule io_bind_Inr [OF 3])
    obtain w s4 where 6: "classify_core_unknown L C hdr p (f \<or> cl_live C) s3 = (Inr w, s4)"
      and 7: "?last w s4 = (Inr v, s')" by (rule io_bind_Inr [OF 5])
    obtain u' s5 where 8: "?ready (cl_live C \<and> pk_core_absence_attested w) s4 = (Inr u', s5)"
      and 9: "io_ok w s5 = (Inr v, s')" by (rule io_bind_Inr [OF 7])
    have "w = v" "s5 = s'" using 9 by (auto simp: io_ok_def)
    then show thesis
      using that(2) [OF r [unfolded Inl] nf ready_guard(1) [OF 2] 4] 6 ready_guard(1) [OF 8] by blast
  qed
qed

text \<open>A verdict attested by Core rests on Core's own record of the candidate: the first call asked for
  the candidate's hash and was answered, the verdict has the answered height, and it is Canonical
  exactly when the block has confirmations and Stale otherwise.  No other Canonical verdict exists.\<close>

theorem core_attested_verdict:
  assumes "classify_parent_deferred_with_policy L C hdr preflight f s = (Inr v, s')"
  shows "pk_core_attested v \<or> pk_kind v = Canonical \<longrightarrow>
    (\<exists>vb s1. cl_get_block_header_verbose C (block_hash L hdr) s = (Inr vb, s1) \<and>
       pk_core_attested v \<and> pk_height v = Some (hs_height vb) \<and>
       pk_kind v = (if 0 \<le> hs_confirmations vb then Canonical else Stale))"
proof
  assume a: "pk_core_attested v \<or> pk_kind v = Canonical"
  then show "\<exists>vb s1. cl_get_block_header_verbose C (block_hash L hdr) s = (Inr vb, s1) \<and>
       pk_core_attested v \<and> pk_height v = Some (hs_height vb) \<and>
       pk_kind v = (if 0 \<le> hs_confirmations vb then Canonical else Stale)"
    using policy_steps [OF assms] answersD [OF indexed_verdict] answersD [OF core_unknown_unattested]
    unfolding unattested_def by metis
qed

text \<open>C28: Absence is attested only after Core answered "not found" for the candidate's hash; with the live
  policy, a synced fresh mainnet tip was confirmed both after that answer and as the last call.\<close>

theorem absence_attested_only_when_observed:
  assumes "classify_parent_deferred_with_policy L C hdr preflight f s = (Inr v, s')"
    and "pk_core_absence_attested v"
  shows "\<exists>e s1. cl_get_block_header_verbose C (block_hash L hdr) s = (Inl e, s1) \<and> is_not_found e \<and>
    (cl_live C \<longrightarrow> (\<exists>t s2. ready_tip C s1 = (Inr t, s2)) \<and> (\<exists>t s4. ready_tip C s4 = (Inr t, s')))"
proof (rule policy_steps [OF assms(1)])
  show "pk_core_attested v \<or> pk_kind v = Canonical \<or> pk_core_absence_attested v" using assms(2) by simp
next
  fix vb s1 assume "classify_indexed L C hdr vb (f \<or> cl_live C) s1 = (Inr v, s')"
  from answersD [OF indexed_verdict this] have "\<not> pk_core_absence_attested v" by simp
  then show ?thesis using assms(2) by simp
next
  fix e s1 s2 s3 s4 p g
  assume "cl_get_block_header_verbose C (block_hash L hdr) s = (Inl e, s1)" "is_not_found e"
    "cl_live C \<Longrightarrow> \<exists>t. ready_tip C s1 = (Inr t, s2)"
    "cl_live C \<Longrightarrow> pk_core_absence_attested v \<Longrightarrow> \<exists>t. ready_tip C s4 = (Inr t, s')"
  then show ?thesis using assms(2) by blast
qed

lemma ready_tip_facts:
  assumes "ready_tip C s = (Inr t, s')"
  shows "\<exists>st s1 now. cl_get_chain_status C s = (Inr st, s1) \<and> cl_now_unix_secs C s1 = (Inr now, s') \<and>
    st_is_mainnet st \<and> is_synced_tip st \<and> tip_is_fresh (st_median_time st) now \<and> sy_height t = st_blocks st"
  using assms by (auto simp: ready_tip_def is_synced_tip_def io_err_def io_ok_def elim!: io_bind_Inr split: if_splits)

section \<open>The live policy\<close>

lemma live_fetch_coinbase:
  assumes "cl_live C"
  shows "answers (\<lambda>f. f \<noteq> CoinbaseUnavailable) (fetch_coinbase C h)"
  unfolding fetch_coinbase_def using assms
  by (intro answers_try) (auto simp: answer_rules live_coinbase_fetch_def coinbase_fetch_of_def split: sum.splits)

lemma live_get_header:
  assumes "cl_live C"
  shows "answers (\<lambda>h. \<not> ch_coinbase_unavailable h) (get_header C hash height)"
  unfolding get_header_def
  by (intro answers_bind answers_bind_post [OF live_fetch_coinbase [OF assms]])
    (auto simp: answer_rules coinbase_columns_def split: coinbase_fetch.splits)

lemma live_fetch_competitor:
  assumes "cl_live C"
  shows "answers (\<lambda>c. c \<noteq> CompetitorUnavailable \<and> (\<forall>h. c = CompetitorFound h \<longrightarrow> \<not> ch_coinbase_unavailable h))
    (fetch_competitor C height True)"
proof (cases "height < 0")
  case False
  have "answers (\<lambda>c. c \<noteq> CompetitorUnavailable \<and> (\<forall>h. c = CompetitorFound h \<longrightarrow> \<not> ch_coinbase_unavailable h))
    (io_try (get_header C hash height) k)"
    if "\<And>r. k r = (case r of Inr hdr \<Rightarrow> io_ok (CompetitorFound hdr)
      | Inl err \<Rightarrow> if is_not_found err then io_ok CompetitorAbsent else io_err err)" for hash k
    by (rule answers_try_post [OF live_get_header [OF assms]]) (simp_all add: that answer_rules)
  then show ?thesis
    using False unfolding fetch_competitor_def
    by (auto simp: answer_rules intro!: answers_try split: sum.splits)
qed (simp add: fetch_competitor_def answer_rules)

lemma strict_mtp_loop: "answers (\<lambda>r. r \<noteq> Inr MtpUnavailable) (mtp_loop L C True n h ts)"
  by (induction n arbitrary: h ts) (auto simp: answer_rules intro!: answers_try split: sum.splits)

lemma strict_mtp: "answers (\<lambda>r. r \<noteq> MtpUnavailable) (median_time_past_passes L C hdr True)"
  unfolding median_time_past_passes_def
  by (auto simp: answer_rules intro!: answers_bind_post [OF strict_mtp_loop] split: sum.splits)

lemma complete_verdicts [answer_rules]:
  "\<not> pk_incomplete (classification_unknown hdr)" "\<not> pk_incomplete (core_absence_unknown hdr)"
  "\<not> pk_incomplete (classification_invalid_block hdr h hs d r)"
  "\<not> pk_incomplete (classify_core_canonical_header hdr h cb)"
  by (simp_all add: verdict_defs)

lemma live_inferred_stale:
  assumes live: "cl_live C" and pred: "\<forall>q. p = Some q \<longrightarrow> \<not> ch_coinbase_unavailable q"
  shows "answers (\<lambda>v. \<not> pk_incomplete v) (classify_inferred_stale L C hdr ph p k True)"
proof -
  have stale: "\<not> pk_incomplete v" if "\<not> ch_coinbase_unavailable c"
    "classify_inferred_stale_with_competitor hdr height p k (Some c) = Inr v" for c v height
    using that pred by (auto simp: classify_inferred_stale_with_competitor_def classification_unknown_def
        split: if_splits option.splits)
  show ?thesis
    unfolding classify_inferred_stale_def
    by (auto simp: answer_rules stale
        intro!: answers_bind_post [OF live_fetch_competitor [OF live]] answers_bind_post [OF strict_mtp]
        split: competitor.splits mtp_check.splits bool.splits option.splits)
qed

lemma live_core_predecessor:
  assumes live: "cl_live C"
  shows "answers (\<lambda>v. \<not> pk_incomplete v) (classify_by_core_predecessor L C hdr True)"
proof -
  have *: "answers (\<lambda>v. \<not> pk_incomplete v) (io_try (get_header C h n) (\<lambda>r. case r of Inl e \<Rightarrow> io_err e
      | Inr q \<Rightarrow> classify_inferred_stale L C hdr n (Some q) BkCanonical True))" for h n
    by (rule answers_try_post [OF live_get_header [OF live]])
      (simp_all add: answer_rules live_inferred_stale [OF live])
  show ?thesis
    unfolding classify_by_core_predecessor_def
    by (rule answers_try) (auto simp: answer_rules * split: sum.splits option.splits)
qed

lemma live_core_unknown:
  assumes live: "cl_live C"
  shows "answers (\<lambda>v. \<not> pk_incomplete v) (classify_core_unknown L C hdr pre True)"
  unfolding classify_core_unknown_def classify_invalid_block_child_def
  by (auto simp: answer_rules live_inferred_stale [OF live] live_core_predecessor [OF live]
      intro!: answers_bind_post [OF live_fetch_competitor [OF live]]
      split: option.splits prod.splits block_kind.splits competitor.splits)

lemma live_indexed:
  assumes live: "cl_live C"
  shows "answers (\<lambda>v. \<not> pk_incomplete v) (classify_indexed L C hdr vb True)"
  unfolding classify_indexed_def Let_def split_def
  by (auto simp: answer_rules coinbase_columns_def classify_core_stale_header_def
      intro!: answers_bind_post [OF live_fetch_coinbase [OF live]] answers_bind_post [OF live_fetch_competitor [OF live]]
      split: option.splits competitor.splits coinbase_fetch.splits)

section \<open>Recording the failures of a call\<close>

text \<open>An error that is an answer about the block: it is not known, its body was pruned, or the height
  is above the tip.  Every other error is a failure of the lookup.\<close>

definition definite :: "core_error \<Rightarrow> bool" where
  "definite e \<longleftrightarrow> is_not_found e \<or> is_block_body_pruned e \<or> is_block_height_out_of_range e"

text \<open>The same calls, with every error they return appended to a log.\<close>

definition watch :: "('s, 'a) core_io \<Rightarrow> ('s \<times> core_error list, 'a) core_io" where
  "watch m = (\<lambda>(s, es). case m s of (Inl e, s') \<Rightarrow> (Inl e, (s', es @ [e])) | (Inr a, s') \<Rightarrow> (Inr a, (s', es)))"

definition watched :: "'s core_client \<Rightarrow> ('s \<times> core_error list) core_client" where
  "watched C =
     \<lparr>cl_get_chain_status = watch (cl_get_chain_status C), cl_get_block_hash = (\<lambda>n. watch (cl_get_block_hash C n)),
      cl_get_block_header = (\<lambda>h. watch (cl_get_block_header C h)),
      cl_get_block_header_verbose = (\<lambda>h. watch (cl_get_block_header_verbose C h)),
      cl_get_block_coinbase = (\<lambda>h. watch (cl_get_block_coinbase C h)),
      cl_now_unix_secs = watch (cl_now_unix_secs C), cl_live = cl_live C\<rparr>"

lemma watched_sel [simp]:
  "cl_get_chain_status (watched C) = watch (cl_get_chain_status C)"
  "cl_get_block_hash (watched C) n = watch (cl_get_block_hash C n)"
  "cl_get_block_header (watched C) h = watch (cl_get_block_header C h)"
  "cl_get_block_header_verbose (watched C) h = watch (cl_get_block_header_verbose C h)"
  "cl_get_block_coinbase (watched C) h = watch (cl_get_block_coinbase C h)"
  "cl_now_unix_secs (watched C) = watch (cl_now_unix_secs C)" "cl_live (watched C) = cl_live C"
  by (simp_all add: watched_def)

text \<open>Recording changes neither the answer nor the environment.\<close>

definition erases :: "('s \<times> core_error list, 'a) core_io \<Rightarrow> ('s, 'a) core_io \<Rightarrow> bool" where
  "erases m' m \<longleftrightarrow> (\<forall>s es. \<exists>es'. m' (s, es) = (fst (m s), (snd (m s), es')))"

named_theorems erase_rules "rules for recorded calls"

lemma erases_watch [erase_rules]: "erases (watch m) m"
  by (auto simp: erases_def watch_def split: prod.splits sum.splits)

lemma erases_basic [erase_rules]:
  "erases (io_ok a) (io_ok a)" "erases (io_err e) (io_err e)" "erases (\<lambda>s. (r, s)) (\<lambda>s. (r, s))"
  by (simp_all add: erases_def io_ok_def io_err_def)

lemma erases_try [erase_rules]:
  assumes "erases m' m" and "\<And>r. erases (f' r) (f r)"
  shows "erases (io_try m' f') (io_try m f)"
  unfolding erases_def
proof (intro allI)
  fix s es
  obtain es1 where 1: "m' (s, es) = (fst (m s), (snd (m s), es1))" using assms(1) unfolding erases_def by blast
  obtain es2 where 2: "f' (fst (m s)) (snd (m s), es1) = (fst (f (fst (m s)) (snd (m s))), (snd (f (fst (m s)) (snd (m s))), es2))"
    using assms(2) unfolding erases_def by blast
  show "\<exists>es'. io_try m' f' (s, es) = (fst (io_try m f s), (snd (io_try m f s), es'))"
    using 1 2 by (simp add: io_try_def split_def Let_def)
qed

lemma erases_bind [erase_rules]:
  assumes "erases m' m" and "\<And>a. erases (f' a) (f a)"
  shows "erases (io_bind m' f') (io_bind m f)"
  unfolding io_bind_def using assms by (intro erases_try) (auto intro: erase_rules split: sum.splits)

lemma erases_ready [erase_rules]: "erases (ready_tip (watched C)) (ready_tip C)"
  unfolding ready_tip_def by (auto intro!: erase_rules)

lemma erases_coinbase [erase_rules]: "erases (fetch_coinbase (watched C) h) (fetch_coinbase C h)"
  unfolding fetch_coinbase_def by (auto intro!: erase_rules)

lemma erases_header [erase_rules]: "erases (get_header (watched C) hash h) (get_header C hash h)"
  unfolding get_header_def Let_def split_def by (auto intro!: erase_rules)

lemma erases_competitor [erase_rules]: "erases (fetch_competitor (watched C) h f) (fetch_competitor C h f)"
  unfolding fetch_competitor_def by (auto intro!: erase_rules split: sum.splits)

lemma erases_mtp_loop [erase_rules]: "erases (mtp_loop L (watched C) f n h ts) (mtp_loop L C f n h ts)"
  by (induction n arbitrary: h ts) (auto intro!: erase_rules split: sum.splits)

lemma erases_mtp [erase_rules]: "erases (median_time_past_passes L (watched C) hdr f) (median_time_past_passes L C hdr f)"
  unfolding median_time_past_passes_def by (auto intro!: erase_rules split: sum.splits)

lemma erases_inferred [erase_rules]:
  "erases (classify_inferred_stale L (watched C) hdr ph p k f) (classify_inferred_stale L C hdr ph p k f)"
  unfolding classify_inferred_stale_def
  by (auto intro!: erase_rules split: option.splits competitor.splits mtp_check.splits bool.splits)

lemma erases_invalid_child [erase_rules]:
  "erases (classify_invalid_block_child (watched C) hdr ph f) (classify_invalid_block_child C hdr ph f)"
  unfolding classify_invalid_block_child_def
  by (auto intro!: erase_rules split: option.splits competitor.splits)

lemma erases_predecessor [erase_rules]:
  "erases (classify_by_core_predecessor L (watched C) hdr f) (classify_by_core_predecessor L C hdr f)"
  unfolding classify_by_core_predecessor_def by (auto intro!: erase_rules split: option.splits sum.splits)

lemma erases_unknown [erase_rules]:
  "erases (classify_core_unknown L (watched C) hdr pre f) (classify_core_unknown L C hdr pre f)"
  unfolding classify_core_unknown_def by (auto intro!: erase_rules split: option.splits prod.splits block_kind.splits)

lemma erases_indexed [erase_rules]:
  "erases (classify_indexed L (watched C) hdr vb f) (classify_indexed L C hdr vb f)"
  unfolding classify_indexed_def Let_def split_def by (auto intro!: erase_rules split: option.splits competitor.splits)

lemma erases_policy:
  "erases (classify_parent_deferred_with_policy L (watched C) hdr (watch pre) f)
     (classify_parent_deferred_with_policy L C hdr pre f)"
  unfolding classify_parent_deferred_with_policy_def Let_def watched_sel
  by (auto intro!: erase_rules split: sum.splits)

text \<open>A call that, started on a log without failures, leaves such a log unless it fails itself.\<close>

definition surfaces :: "('s \<times> core_error list, 'a) core_io \<Rightarrow> bool" where
  "surfaces m \<longleftrightarrow> (\<forall>s es r s' es'. m (s, es) = (r, (s', es')) \<longrightarrow> list_all definite es \<longrightarrow>
     (case r of Inl e \<Rightarrow> definite e | Inr a \<Rightarrow> True) \<longrightarrow> list_all definite es')"

named_theorems surface_rules "rules for calls that surface failures"

lemma surfaces_watch [surface_rules]: "surfaces (watch m)"
  by (auto simp: surfaces_def watch_def split: prod.splits sum.splits)

lemma surfaces_basic [surface_rules]: "surfaces (io_ok a)" "surfaces (io_err e)" "surfaces (\<lambda>s. (r, s))"
  by (simp_all add: surfaces_def io_ok_def io_err_def)

lemma surfaces_try:
  assumes m: "surfaces m" and ok: "\<And>a. surfaces (f (Inr a))" and known: "\<And>e. definite e \<Longrightarrow> surfaces (f (Inl e))"
    and failed: "\<And>e. \<not> definite e \<Longrightarrow> f (Inl e) = io_err e"
  shows "surfaces (io_try m f)"
  unfolding surfaces_def
proof (intro allI impI)
  fix s es r s' es'
  assume run: "io_try m f (s, es) = (r, (s', es'))" and es: "list_all definite es"
    and r: "case r of Inl e \<Rightarrow> definite e | Inr a \<Rightarrow> True"
  obtain r1 s1 es1 where 1: "m (s, es) = (r1, (s1, es1))" by (cases "m (s, es)") auto
  have 2: "f r1 (s1, es1) = (r, (s', es'))" using run 1 by (simp add: io_try_def)
  show "list_all definite es'"
  proof (cases "case r1 of Inl e \<Rightarrow> definite e | Inr a \<Rightarrow> True")
    case True
    then have "list_all definite es1" using m 1 es unfolding surfaces_def by blast
    moreover have "surfaces (f r1)" using True ok known by (cases r1) simp_all
    ultimately show ?thesis using 2 r unfolding surfaces_def by blast
  next
    case False
    then obtain e where "r1 = Inl e" "\<not> definite e" by (cases r1) auto
    then show ?thesis using 2 failed r by (auto simp: io_err_def)
  qed
qed

lemma surfaces_bind [surface_rules]:
  "surfaces m \<Longrightarrow> (\<And>a. surfaces (f a)) \<Longrightarrow> surfaces (io_bind m f)"
  unfolding io_bind_def by (intro surfaces_try) (simp_all add: surface_rules)

lemma surfaces_ready [surface_rules]: "surfaces (ready_tip (watched C))"
  unfolding ready_tip_def by (auto intro!: surface_rules)

lemma surfaces_coinbase [surface_rules]:
  assumes "cl_live C"
  shows "surfaces (fetch_coinbase (watched C) h)"
  unfolding fetch_coinbase_def using assms
  by (intro surfaces_try)
    (auto simp: surface_rules live_coinbase_fetch_def definite_def io_err_def fun_eq_iff)

lemma surfaces_header [surface_rules]: "cl_live C \<Longrightarrow> surfaces (get_header (watched C) hash h)"
  unfolding get_header_def Let_def split_def by (auto intro!: surface_rules)

lemma surfaces_competitor [surface_rules]:
  assumes "cl_live C"
  shows "surfaces (fetch_competitor (watched C) h True)"
  unfolding fetch_competitor_def using assms
  by (auto simp: definite_def intro!: surface_rules surfaces_try)

lemma surfaces_mtp_loop [surface_rules]: "surfaces (mtp_loop L (watched C) True n h ts)"
  by (induction n arbitrary: h ts) (auto simp: definite_def intro!: surface_rules surfaces_try)

lemma surfaces_mtp [surface_rules]: "surfaces (median_time_past_passes L (watched C) hdr True)"
  unfolding median_time_past_passes_def by (auto intro!: surface_rules split: sum.splits)

lemma surfaces_inferred [surface_rules]:
  "cl_live C \<Longrightarrow> surfaces (classify_inferred_stale L (watched C) hdr ph p k True)"
  unfolding classify_inferred_stale_def
  by (auto intro!: surface_rules split: option.splits competitor.splits mtp_check.splits bool.splits)

lemma surfaces_invalid_child [surface_rules]:
  "cl_live C \<Longrightarrow> surfaces (classify_invalid_block_child (watched C) hdr ph True)"
  unfolding classify_invalid_block_child_def
  by (auto intro!: surface_rules split: option.splits competitor.splits)

lemma surfaces_predecessor [surface_rules]:
  assumes "cl_live C"
  shows "surfaces (classify_by_core_predecessor L (watched C) hdr True)"
  unfolding classify_by_core_predecessor_def using assms
  by (auto simp: definite_def intro!: surface_rules surfaces_try split: option.splits)

lemma surfaces_unknown [surface_rules]:
  "cl_live C \<Longrightarrow> surfaces (classify_core_unknown L (watched C) hdr pre True)"
  unfolding classify_core_unknown_def by (auto intro!: surface_rules split: option.splits prod.splits block_kind.splits)

lemma surfaces_indexed [surface_rules]:
  "cl_live C \<Longrightarrow> surfaces (classify_indexed L (watched C) hdr vb True)"
  unfolding classify_indexed_def Let_def split_def by (auto intro!: surface_rules split: option.splits competitor.splits)

lemma surfaces_policy:
  assumes "cl_live C"
  shows "surfaces (classify_parent_deferred_with_policy L (watched C) hdr (watch pre) f)"
  unfolding classify_parent_deferred_with_policy_def Let_def using assms
  by (auto simp: definite_def intro!: surface_rules surfaces_try)

lemma live_policy_complete:
  assumes "cl_live C"
  shows "answers (\<lambda>v. \<not> pk_incomplete v) (classify_parent_deferred_with_policy L C hdr preflight f)"
proof -
  have *: "answers (\<lambda>v. \<not> pk_incomplete v) (io_bind (classify_core_unknown L C hdr pre True)
      (\<lambda>v. io_bind (m v) (\<lambda>_. io_ok v)))" for pre and m :: "parent_classification \<Rightarrow> ('a, unit) core_io"
    by (rule answers_bind_post [OF live_core_unknown [OF assms]]) (auto simp: answer_rules intro!: answers_bind)
  show ?thesis
    unfolding classify_parent_deferred_with_policy_def Let_def using assms
    by (intro answers_try) (auto simp: answer_rules live_indexed split: sum.splits
        intro!: answers_bind [where m = "io_bind _ _"] answers_bind [where m = preflight] *)
qed

text \<open>C30: With the live policy a failed lookup is an error of the call and never becomes a verdict.  Run
  with every error of the node and of the preflight recorded, a call that returns a verdict returns the
  same verdict and has recorded only errors that are answers about a block: not found, body pruned,
  or height above the tip.  The verdict is never marked incomplete.\<close>

theorem live_verdicts_are_complete:
  assumes "cl_live C" and "classify_parent_deferred_with_policy L C hdr preflight f s = (Inr v, s')"
  shows "\<not> pk_incomplete v \<and>
    (\<exists>errs. classify_parent_deferred_with_policy L (watched C) hdr (watch preflight) f (s, []) = (Inr v, (s', errs)) \<and>
       list_all (\<lambda>e. is_not_found e \<or> is_block_body_pruned e \<or> is_block_height_out_of_range e) errs)"
proof -
  obtain errs where run: "classify_parent_deferred_with_policy L (watched C) hdr (watch preflight) f (s, []) = (Inr v, (s', errs))"
    using erases_policy [of L C hdr preflight f] assms(2) unfolding erases_def by (metis fst_conv snd_conv)
  then have "list_all definite errs"
    using surfaces_policy [OF assms(1)] unfolding surfaces_def by fastforce
  then show ?thesis
    using run answersD [OF live_policy_complete [OF assms(1)] assms(2)] by (auto simp: definite_def list_all_iff)
qed


section \<open>The median-time rule\<close>

text \<open>A run of headers going back from a hash, each the one its predecessor field names.\<close>

fun linked :: "bitcoin_lib \<Rightarrow> bytes \<Rightarrow> header list \<Rightarrow> bool" where
  "linked L h [] \<longleftrightarrow> True"
| "linked L h (x # xs) \<longleftrightarrow> block_hash L x = h \<and> linked L (h_prev_blockhash x) xs"

definition median_time :: "header list \<Rightarrow> u32" where
  "median_time hs = sort (map h_time hs) ! (length hs div 2)"

lemma mtp_loop_linked:
  "answers (\<lambda>r. \<forall>ts'. r = Inl ts' \<longrightarrow> (\<exists>hs. length hs = n \<and> linked L h hs \<and> ts' = ts @ map h_time hs))
    (mtp_loop L C f n h ts)"
proof (induction n arbitrary: h ts)
  case (Suc n)
  have "answers (\<lambda>r. \<forall>ts'. r = Inl ts' \<longrightarrow> (\<exists>hs. length hs = Suc n \<and> linked L h hs \<and> ts' = ts @ map h_time hs))
      (mtp_loop L C f n (h_prev_blockhash x) (ts @ [h_time x]))" if x: "block_hash L x = h" for x
    unfolding answers_def
  proof (intro allI impI)
    fix s r s' ts' assume "mtp_loop L C f n (h_prev_blockhash x) (ts @ [h_time x]) s = (Inr r, s')" "r = Inl ts'"
    from answersD [OF Suc.IH this(1)] this(2) obtain hs where
      "length hs = n" "linked L (h_prev_blockhash x) hs" "ts' = ts @ h_time x # map h_time hs" by auto
    then have "length (x # hs) = Suc n" "linked L h (x # hs)" "ts' = ts @ map h_time (x # hs)" using x by simp_all
    then show "\<exists>hs. length hs = Suc n \<and> linked L h hs \<and> ts' = ts @ map h_time hs" by blast
  qed
  then show ?case
    by (auto simp: answer_rules intro!: answers_try split: sum.splits)
qed (simp add: answer_rules)

lemma mtp_loop_stops: "answers (\<lambda>r. r \<noteq> Inr (MtpPasses b)) (mtp_loop L C f n h ts)"
  by (induction n arbitrary: h ts) (auto simp: answer_rules intro!: answers_try split: sum.splits)

lemma answers_conj: "answers P m \<Longrightarrow> answers Q m \<Longrightarrow> answers (\<lambda>a. P a \<and> Q a) m"
  unfolding answers_def by blast

lemma answers_all: "(\<And>x. answers (P x) m) \<Longrightarrow> answers (\<lambda>a. \<forall>x. P x a) m"
  unfolding answers_def by blast

lemma mtp_passes_linked:
  "answers (\<lambda>r. \<forall>b. r = MtpPasses b \<longrightarrow> (\<exists>hs. length hs = mtp_window \<and> linked L (h_prev_blockhash hdr) hs \<and>
      b = (median_time hs < h_time hdr)))
    (median_time_past_passes L C hdr f)"
  unfolding median_time_past_passes_def
  by (rule answers_bind_post [OF answers_conj [OF mtp_loop_linked answers_all [OF mtp_loop_stops]]])
    (auto simp: answer_rules median_time_def split: sum.splits, force)

definition mtp_justified :: "bitcoin_lib \<Rightarrow> header \<Rightarrow> parent_classification \<Rightarrow> bool" where
  "mtp_justified L hdr v \<longleftrightarrow>
     (pk_kind v = Stale \<or> pk_kind v = InvalidBlock \<longrightarrow>
        (\<exists>hs. length hs = mtp_window \<and> linked L (h_prev_blockhash hdr) hs \<and>
              (pk_kind v = Stale \<longleftrightarrow> median_time hs < h_time hdr))) \<and>
     (pk_kind v = Stale \<longrightarrow>
        (\<exists>rival. pk_canonical_competitor_header v = Some rival \<and> h_bits (ch_header rival) = h_bits hdr \<and>
                 pk_height v = Some (ch_height rival))) \<and>
     (pk_kind v = InvalidBlock \<longrightarrow> pk_rejection_reason v = Some time_below_mtp)"

lemma unplaced_justified [answer_rules]:
  "mtp_justified L hdr (classification_unknown hdr)" "mtp_justified L hdr (incomplete_unknown hdr)"
  "mtp_justified L hdr (core_absence_unknown hdr)"
  by (simp_all add: mtp_justified_def verdict_defs)

lemma get_header_height: "answers (\<lambda>h. ch_height h = height \<and> ch_hash h = hash) (get_header C hash height)"
  unfolding get_header_def Let_def split_def by (auto simp: answer_rules intro!: answers_bind)

lemma fetch_competitor_height:
  "answers (\<lambda>c. \<forall>h. c = CompetitorFound h \<longrightarrow> ch_height h = height) (fetch_competitor C height f)"
proof -
  have "answers (\<lambda>c. \<forall>h. c = CompetitorFound h \<longrightarrow> ch_height h = height) (io_try (get_header C hash height)
    (\<lambda>r. case r of Inr hdr \<Rightarrow> io_ok (CompetitorFound hdr)
      | Inl err \<Rightarrow> if is_not_found err then io_ok CompetitorAbsent
                   else if f then io_err err else io_ok CompetitorUnavailable))" for hash
    by (rule answers_try_post [OF get_header_height]) (simp_all add: answer_rules)
  then show ?thesis
    unfolding fetch_competitor_def by (auto simp: answer_rules intro!: answers_try split: sum.splits)
qed

lemma inferred_stale_justified: "answers (mtp_justified L hdr) (classify_inferred_stale L C hdr ph p k f)"
proof (cases "checked_i32 (ph + 1)")
  case (Some height)
  have placed: "answers (mtp_justified L hdr) (io_bind (median_time_past_passes L C hdr f) (\<lambda>check.
        case check of
          MtpPasses True \<Rightarrow> (\<lambda>s. (classify_inferred_stale_with_competitor hdr height p k (Some rival), s))
        | MtpPasses False \<Rightarrow>
            (case inferred_height_source k of None \<Rightarrow> io_err Unreachable
             | Some hs \<Rightarrow> io_ok (classification_invalid_block hdr height hs (Some True) time_below_mtp))
        | MtpAncestorMissing \<Rightarrow> io_ok (classification_unknown hdr)
        | MtpUnavailable \<Rightarrow> io_ok (incomplete_unknown hdr)))"
    if "h_bits (ch_header rival) = h_bits hdr" "ch_height rival = height" for rival
    using that
    by (intro answers_bind_post [OF mtp_passes_linked])
      (auto simp: answer_rules mtp_justified_def bits_match_expected_def classify_inferred_stale_with_competitor_def
        classification_invalid_block_def classification_unknown_def incomplete_unknown_def
        split: mtp_check.splits bool.splits option.splits if_splits)
  show ?thesis
    unfolding classify_inferred_stale_def Some option.case
    by (rule answers_bind_post [OF fetch_competitor_height])
      (auto simp: answer_rules bits_match_expected_def placed split: competitor.splits)
qed (simp add: classify_inferred_stale_def answer_rules)

lemma core_unknown_justified: "answers (mtp_justified L hdr) (classify_core_unknown L C hdr pre f)"
  unfolding classify_core_unknown_def classify_invalid_block_child_def classify_by_core_predecessor_def
  by (auto simp: answer_rules inferred_stale_justified intro!: answers_bind answers_try
      split: option.splits prod.splits block_kind.splits competitor.splits sum.splits)

lemma indexed_justified:
  "answers (\<lambda>v. pk_core_attested v \<or> mtp_justified L hdr v) (classify_indexed L C hdr vb f)"
  unfolding classify_indexed_def Let_def split_def
  by (auto simp: answer_rules classify_core_canonical_header_def classify_core_stale_header_def
      mtp_justified_def classification_unknown_def incomplete_unknown_def
      intro!: answers_bind split: option.splits competitor.splits)

lemma policy_justified:
  "answers (\<lambda>v. pk_core_attested v \<or> mtp_justified L hdr v) (classify_parent_deferred_with_policy L C hdr pre f)"
proof -
  have *: "answers (\<lambda>v. pk_core_attested v \<or> mtp_justified L hdr v)
      (io_bind (classify_core_unknown L C hdr p g) (\<lambda>v. io_bind (m v) (\<lambda>_. io_ok v)))"
    for p g and m :: "parent_classification \<Rightarrow> ('a, unit) core_io"
    by (rule answers_bind_post [OF core_unknown_justified]) (auto simp: answer_rules intro!: answers_bind)
  show ?thesis
    unfolding classify_parent_deferred_with_policy_def Let_def
    by (intro answers_try) (auto simp: answer_rules indexed_justified split: sum.splits
        intro!: answers_bind [where m = "io_bind _ _"] answers_bind [where m = "io_ok _"]
          answers_bind [where m = pre] *)
qed

text \<open>C26: A header Core does not index is called Stale or invalid only on the evidence of the eleven
  headers before it: fetched by following the predecessor hashes and re-hashed, with a median time
  below the candidate's for Stale and not below it for an invalid block.  A Stale one has the bits of
  the canonical block at the height it is given; an invalid one the reason \<open>time_below_mtp\<close>.\<close>

theorem inferred_verdict_has_mtp_evidence:
  assumes "classify_parent_deferred_with_policy L C hdr preflight f s = (Inr v, s')"
    and "pk_kind v = Stale \<or> pk_kind v = InvalidBlock" and "\<not> pk_core_attested v"
  shows "(\<exists>hs. length hs = 11 \<and> linked L (h_prev_blockhash hdr) hs \<and>
      (pk_kind v = Stale \<longleftrightarrow> median_time hs < h_time hdr)) \<and>
    (pk_kind v = Stale \<longrightarrow>
      (\<exists>rival. pk_canonical_competitor_header v = Some rival \<and> h_bits (ch_header rival) = h_bits hdr \<and>
         pk_height v = Some (ch_height rival))) \<and>
    (pk_kind v = InvalidBlock \<longrightarrow> pk_rejection_reason v = Some time_below_mtp)"
  using answersD [OF policy_justified assms(1)] assms(2,3)
  by (auto simp: mtp_justified_def mtp_window_def)

section \<open>A node for the witnesses\<close>

text \<open>A node that indexes a chain of 21 headers, ten seconds apart, and no block bodies.  A header's
  hash is its version byte, padded to 32 bytes.\<close>

definition demo_node_hash :: "u8 \<Rightarrow> bytes" where
  "demo_node_hash b = b # replicate 31 0"

definition demo_node_lib :: bitcoin_lib where
  "demo_node_lib = demo_lib\<lparr>block_hash := \<lambda>h. demo_node_hash (word_of_int (h_version h))\<rparr>"

definition demo_chain :: "nat \<Rightarrow> header" where
  "demo_chain n = \<lparr>h_version = int n, h_prev_blockhash = demo_node_hash (of_nat (n - 1)), h_merkle_root = replicate 32 7,
     h_time = of_nat (10 * n), h_bits = 5, h_nonce = 0\<rparr>"

definition demo_find :: "bytes \<Rightarrow> nat option" where
  "demo_find h = (case h of [] \<Rightarrow> None | b # _ \<Rightarrow> if unat b < 21 then Some (unat b) else None)"

definition demo_node :: "bool \<Rightarrow> unit core_client" where
  "demo_node live =
     \<lparr>cl_get_chain_status = io_ok \<lparr>st_is_mainnet = True, st_blocks = 20, st_headers = 20,
        st_initial_block_download = False, st_median_time = 0\<rparr>,
      cl_get_block_hash = (\<lambda>n. if n < 21 then io_ok (block_hash demo_node_lib (demo_chain n)) else io_err (RpcError (-8) [])),
      cl_get_block_header = (\<lambda>h. case demo_find h of Some n \<Rightarrow> io_ok (demo_chain n) | None \<Rightarrow> io_err (RpcError (-5) [])),
      cl_get_block_header_verbose = (\<lambda>h. case demo_find h of
          Some n \<Rightarrow> io_ok \<lparr>hs_confirmations = 21 - int n, hs_height = int n\<rparr>
        | None \<Rightarrow> io_err (RpcError (-5) [])),
      cl_get_block_coinbase = (\<lambda>_. io_err (RpcError (-5) [])),
      cl_now_unix_secs = io_ok 0, cl_live = live\<rparr>"

definition demo_candidate :: "nat \<Rightarrow> u32 \<Rightarrow> header" where
  "demo_candidate n t = (demo_chain n)\<lparr>h_version := 77, h_time := t\<rparr>"

definition demo_verdict :: "header \<Rightarrow> parent_classification option" where
  "demo_verdict hdr = result_ok (fst (classify_parent_deferred_with_policy demo_node_lib (demo_node True) hdr
     (io_ok \<lparr>pp_known_prev = None\<rparr>) False ()))"

lemma demo_verdict_call:
  "demo_verdict hdr = Some v \<Longrightarrow>
    classify_parent_deferred_with_policy demo_node_lib (demo_node True) hdr (io_ok \<lparr>pp_known_prev = None\<rparr>) False () = (Inr v, ())"
  by (cases "classify_parent_deferred_with_policy demo_node_lib (demo_node True) hdr (io_ok \<lparr>pp_known_prev = None\<rparr>) False ()")
    (simp add: demo_verdict_def result_ok_eq_Some)

lemma demo_verdicts:
  "map_option pk_kind (demo_verdict (demo_chain 12)) = Some Canonical"
  "map_option pk_kind (demo_verdict (demo_candidate 15 95)) = Some Stale"
  "map_option pk_kind (demo_verdict (demo_candidate 15 90)) = Some InvalidBlock"
  "map_option pk_core_attested (demo_verdict (demo_candidate 15 95)) = Some False"
  "map_option pk_core_attested (demo_verdict (demo_candidate 15 90)) = Some False"
  "map_option pk_core_absence_attested (demo_verdict (demo_candidate 15 90\<lparr>h_prev_blockhash := []\<rparr>)) = Some True"
  by code_simp+

lemma demo_configured:
  "demo_verdict hdr = Some v \<Longrightarrow>
    classify_parent_deferred demo_node_lib (CoreBacked (demo_node True)) hdr (io_ok \<lparr>pp_known_prev = None\<rparr>) () = (Inr v, ())"
  by (simp add: classify_parent_deferred_def demo_verdict_call)

lemma demo_verdict_cases:
  obtains v w u a where
    "demo_verdict (demo_chain 12) = Some v" "pk_kind v = Canonical"
    "demo_verdict (demo_candidate 15 95) = Some w" "pk_kind w = Stale"
    "demo_verdict (demo_candidate 15 90) = Some u" "pk_kind u = InvalidBlock"
    "demo_verdict (demo_candidate 15 90\<lparr>h_prev_blockhash := []\<rparr>) = Some a" "pk_core_absence_attested a"
  using demo_verdicts by (auto simp: map_option_eq_Some)

theorem verdict_applies_to_event_witness:
  "\<exists>v pl pl'. demo_verdict (demo_candidate 15 95) = Some v \<and>
    build_event_payload_from_evidence demo_lib [] (demo_event_evidence 0x1D00FFFF) []
      classification_proof_default 0 = Inr pl \<and>
    apply_classification_proof [] pl (to_proof v) = Inr pl' \<and>
    ev_classification_provisional pl' = (pk_incomplete v \<or> pk_core_absence_attested v)"
proof -
  obtain v where v: "demo_verdict (demo_candidate 15 95) = Some v" by (rule demo_verdict_cases)
  obtain pl where pl: "build_event_payload_from_evidence demo_lib [] (demo_event_evidence 0x1D00FFFF) []
      classification_proof_default 0 = Inr pl"
    using build_from_evidence_default by blast
  show ?thesis using verdict_applies_to_event [OF disjI1 [OF demo_configured [OF v]], of "[]" pl] v pl by blast
qed

theorem core_attested_verdict_witness:
  "\<exists>v vb. demo_verdict (demo_chain 12) = Some v \<and> pk_kind v = Canonical \<and> pk_core_attested v \<and>
    cl_get_block_header_verbose (demo_node True) (block_hash demo_node_lib (demo_chain 12)) () = (Inr vb, ()) \<and>
    pk_height v = Some (hs_height vb)"
proof -
  obtain v where v: "demo_verdict (demo_chain 12) = Some v" "pk_kind v = Canonical" by (rule demo_verdict_cases)
  show ?thesis using core_attested_verdict [OF demo_verdict_call [OF v(1)]] v by auto
qed

theorem absence_attested_only_when_observed_witness:
  "\<exists>v e t. demo_verdict (demo_candidate 15 90\<lparr>h_prev_blockhash := []\<rparr>) = Some v \<and>
    pk_core_absence_attested v \<and>
    cl_get_block_header_verbose (demo_node True)
      (block_hash demo_node_lib (demo_candidate 15 90\<lparr>h_prev_blockhash := []\<rparr>)) () = (Inl e, ()) \<and>
    is_not_found e \<and> ready_tip (demo_node True) () = (Inr t, ())"
proof -
  have live: "cl_live (demo_node True)" by (simp add: demo_node_def)
  obtain v where v: "demo_verdict (demo_candidate 15 90\<lparr>h_prev_blockhash := []\<rparr>) = Some v" "pk_core_absence_attested v"
    by (rule demo_verdict_cases)
  show ?thesis using absence_attested_only_when_observed [OF demo_verdict_call [OF v(1)] v(2)] v live by auto
qed

theorem live_verdicts_are_complete_witness:
  "cl_live (demo_node True) \<and> (\<exists>v errs. demo_verdict (demo_candidate 15 95) = Some v \<and> \<not> pk_incomplete v \<and>
     classify_parent_deferred_with_policy demo_node_lib (watched (demo_node True)) (demo_candidate 15 95)
       (watch (io_ok \<lparr>pp_known_prev = None\<rparr>)) False ((), []) = (Inr v, ((), errs)))"
proof -
  have live: "cl_live (demo_node True)" by (simp add: demo_node_def)
  obtain v where v: "demo_verdict (demo_candidate 15 95) = Some v" by (rule demo_verdict_cases)
  show ?thesis using live_verdicts_are_complete [OF live demo_verdict_call [OF v]] v live by blast
qed

theorem inferred_verdict_has_mtp_evidence_witness:
  "(\<exists>v hs. demo_verdict (demo_candidate 15 95) = Some v \<and> pk_kind v = Stale \<and> length hs = 11 \<and>
      linked demo_node_lib (h_prev_blockhash (demo_candidate 15 95)) hs \<and> median_time hs < 95) \<and>
   (\<exists>v hs. demo_verdict (demo_candidate 15 90) = Some v \<and> pk_kind v = InvalidBlock \<and> length hs = 11 \<and>
      linked demo_node_lib (h_prev_blockhash (demo_candidate 15 90)) hs \<and> \<not> median_time hs < 90)"
proof -
  have t: "h_time (demo_candidate 15 t) = t" for t by (simp add: demo_candidate_def)
  obtain w u where w: "demo_verdict (demo_candidate 15 95) = Some w" "pk_kind w = Stale"
    and u: "demo_verdict (demo_candidate 15 90) = Some u" "pk_kind u = InvalidBlock"
    by (rule demo_verdict_cases)
  have "\<not> pk_core_attested w" "\<not> pk_core_attested u" using demo_verdicts(4,5) w(1) u(1) by simp_all
  then show ?thesis
    using inferred_verdict_has_mtp_evidence [OF demo_verdict_call [OF w(1)]]
      inferred_verdict_has_mtp_evidence [OF demo_verdict_call [OF u(1)]] w u t by auto
qed

section \<open>A block that arrives during classification\<close>

text \<open>A node whose chain has fifteen headers until its first answer and sixteen afterwards.\<close>

definition demo_missing :: "bool \<Rightarrow> (core_error, 'a) result \<times> bool" where
  "demo_missing s = (Inl (RpcError (-5) []), True)"

definition demo_lookup :: "bytes \<Rightarrow> bool \<Rightarrow> nat option" where
  "demo_lookup h s = (case demo_find h of
     Some n \<Rightarrow> if n < (if s then 16 else 15) then Some n else None | None \<Rightarrow> None)"

definition demo_growing_node :: "bool core_client" where
  "demo_growing_node =
     \<lparr>cl_get_chain_status = (\<lambda>s. (Inr \<lparr>st_is_mainnet = True, st_blocks = (if s then 15 else 14),
        st_headers = (if s then 15 else 14), st_initial_block_download = False, st_median_time = 0\<rparr>, True)),
      cl_get_block_hash = (\<lambda>n s. if n < (if s then 16 else 15)
        then (Inr (block_hash demo_node_lib (demo_chain n)), True) else demo_missing s),
      cl_get_block_header = (\<lambda>h s. case demo_lookup h s of Some n \<Rightarrow> (Inr (demo_chain n), True) | None \<Rightarrow> demo_missing s),
      cl_get_block_header_verbose = (\<lambda>h s. case demo_lookup h s of
          Some n \<Rightarrow> (Inr \<lparr>hs_confirmations = 1, hs_height = int n\<rparr>, True) | None \<Rightarrow> demo_missing s),
      cl_get_block_coinbase = (\<lambda>_. demo_missing), cl_now_unix_secs = (\<lambda>s. (Inr 0, True)), cl_live = True\<rparr>"

lemma get_header_run:
  assumes "cl_get_block_header C hash s = (Inr hdr, s1)" and "fetch_coinbase C hash s1 = (Inr cb, s2)"
  shows "\<exists>h. get_header C hash height s = (Inr h, s2) \<and> ch_hash h = hash \<and> ch_header h = hdr"
  using assms by (cases cb) (simp_all add: get_header_def io_bind_def io_try_def coinbase_columns_def io_ok_def)

lemma inferred_stale_run:
  assumes height: "i32_ok (ph + 1)" "0 \<le> ph + 1" and kind: "inferred_height_source k = Some hs"
    and hash: "cl_get_block_hash C (nat (ph + 1)) s = (Inr (block_hash L hdr), s1)"
    and header: "cl_get_block_header C (block_hash L hdr) s1 = (Inr hdr, s2)"
    and coinbase: "fetch_coinbase C (block_hash L hdr) s2 = (Inr cb, s3)"
    and mtp: "median_time_past_passes L C hdr f s3 = (Inr (MtpPasses True), s4)"
  shows "\<exists>v. classify_inferred_stale L C hdr ph p k f s = (Inr v, s4) \<and> pk_kind v = Stale \<and>
    pk_canonical_competitor_hash v = Some (block_hash L hdr) \<and> \<not> pk_core_absence_attested v"
proof -
  obtain h where h: "get_header C (block_hash L hdr) (ph + 1) s1 = (Inr h, s3)" "ch_hash h = block_hash L hdr" "ch_header h = hdr"
    using get_header_run [OF header coinbase] by blast
  have "fetch_competitor C (ph + 1) f s = (Inr (CompetitorFound h), s3)"
    using height(2) hash h(1) by (simp add: fetch_competitor_def io_try_def io_ok_def)
  then show ?thesis
    using height(1) kind h(2,3) mtp
    by (simp add: classify_inferred_stale_def checked_i32_def io_bind_def io_try_def
        bits_match_expected_def classify_inferred_stale_with_competitor_def)
qed

text \<open>The indexed path refuses a block as its own competitor; the inferred path has no such check.  On
  any node, when Core does not know the candidate at the first lookup, its predecessor is recorded as
  canonical or stale, and Core has accepted the candidate by the time of the competitor lookup, the
  verdict on this block of the active chain is Stale and names the block itself as its canonical
  competitor.  On the indexed path a competitor with the candidate's hash gives Unknown.\<close>

theorem inferred_stale_can_name_itself:
  assumes first: "cl_get_block_header_verbose C (block_hash L hdr) s = (Inl e, s1)" "is_not_found e"
    and ready: "if cl_live C then ready_tip C s1 = (Inr tip, s2) else s2 = s1"
    and pre: "preflight s2 = (Inr pre, s3)" "pp_known_prev pre = Some known" "kb_btc_height known = Some ph"
      "kb_kind known = BkCanonical \<or> kb_kind known = BkStale" "0 \<le> ph" "ph + 1 < 2 ^ 31"
    and accepted: "cl_get_block_hash C (nat (ph + 1)) s3 = (Inr (block_hash L hdr), s4)"
      "cl_get_block_header C (block_hash L hdr) s4 = (Inr hdr, s5)"
      "fetch_coinbase C (block_hash L hdr) s5 = (Inr cb, s6)"
    and mtp: "median_time_past_passes L C hdr (f \<or> cl_live C) s6 = (Inr (MtpPasses True), s7)"
  shows "(\<exists>v. classify_parent_deferred_with_policy L C hdr preflight f s = (Inr v, s7) \<and> pk_kind v = Stale \<and>
      pk_canonical_competitor_hash v = Some (block_hash L hdr)) \<and>
    (\<forall>rival height coinbase. pk_kind (classify_core_stale_header L hdr height
       (Some (rival\<lparr>ch_hash := block_hash L hdr\<rparr>)) coinbase) = Unknown)"
proof -
  obtain hs where hs: "inferred_height_source (kb_kind known) = Some hs"
    using pre(4) by (auto simp: inferred_height_source_def)
  have "i32_ok (ph + 1)" "0 \<le> ph + 1" using pre(5,6) by (simp_all add: i32_ok_def)
  from inferred_stale_run [OF this hs accepted mtp, of None] obtain v where
    v: "classify_inferred_stale L C hdr ph None (kb_kind known) (f \<or> cl_live C) s3 = (Inr v, s7)"
      "pk_kind v = Stale" "pk_canonical_competitor_hash v = Some (block_hash L hdr)" "\<not> pk_core_absence_attested v"
    by blast
  have "classify_core_unknown L C hdr pre (f \<or> cl_live C) =
      classify_inferred_stale L C hdr ph None (kb_kind known) (f \<or> cl_live C)"
    using pre(2,3,4) by (auto simp: classify_core_unknown_def)
  with v(1) have unknown: "classify_core_unknown L C hdr pre (f \<or> cl_live C) s3 = (Inr v, s7)" by simp
  have "classify_parent_deferred_with_policy L C hdr preflight f s = (Inr v, s7)"
    using first v(4) pre(1) unknown ready
    by (cases "cl_live C") (simp_all add: classify_parent_deferred_with_policy_def Let_def io_try_def io_bind_def io_ok_def)
  then show ?thesis using v(2,3) by (auto simp: classify_core_stale_header_def classification_unknown_def)
qed

definition demo_known :: known_block_context where
  "demo_known = \<lparr>kb_kind = BkCanonical, kb_btc_height = Some 14, kb_btc_height_source = Some BitcoinCore,
     kb_canonical_competitor_hash = None, kb_core_attested = True\<rparr>"

theorem inferred_stale_can_name_itself_witness:
  "\<exists>v. classify_parent_deferred_with_policy demo_node_lib demo_growing_node (demo_chain 15)
      (io_ok \<lparr>pp_known_prev = Some demo_known\<rparr>) False False = (Inr v, True) \<and> pk_kind v = Stale \<and>
      pk_canonical_competitor_hash v = Some (block_hash demo_node_lib (demo_chain 15))"
proof -
  let ?C = demo_growing_node and ?h = "block_hash demo_node_lib (demo_chain 15)"
  have "(case cl_get_block_header_verbose ?C ?h False of (Inl (RpcError c m), b) \<Rightarrow> c = -5 \<and> m = [] \<and> b | _ \<Rightarrow> False)"
    by code_simp
  then have 1: "cl_get_block_header_verbose ?C ?h False = (Inl (RpcError (-5) []), True)"
    by (auto split: prod.splits sum.splits core_error.splits)
  have 2: "\<exists>t. ready_tip ?C True = (Inr t, True)" "cl_live ?C"
    by (simp_all add: ready_tip_def demo_growing_node_def io_bind_def io_try_def tip_is_fresh_def max_tip_age_secs_def io_ok_def)
  have 3: "cl_get_block_hash ?C (nat (14 + 1)) True = (Inr ?h, True)" "cl_get_block_header ?C ?h True = (Inr (demo_chain 15), True)"
    by code_simp+
  have 4: "fetch_coinbase ?C ?h True = (Inr CoinbaseMissing, True)"
    "median_time_past_passes demo_node_lib ?C (demo_chain 15) (False \<or> cl_live ?C) True = (Inr (MtpPasses True), True)"
    by code_simp+
  obtain t where "ready_tip ?C True = (Inr t, True)" using 2 by blast
  then show ?thesis
    using inferred_stale_can_name_itself [OF 1, of t True "io_ok \<lparr>pp_known_prev = Some demo_known\<rparr>"
        "\<lparr>pp_known_prev = Some demo_known\<rparr>" True demo_known 14 True True CoinbaseMissing True False True] 2 3 4
    by (simp add: is_not_found_def core_rpc_error_code_def io_ok_def demo_known_def)
qed

end
