(* ===== verification/Read_Model.thy ===== *)
theory Read_Model
  imports Parent_Classifier Lineage
begin

text \<open>
  \<open>crates/mmm-read-model/src/writers.rs\<close>, \<open>classify.rs\<close>, \<open>competition.rs\<close>, \<open>queries.rs\<close> and the
  in-transaction part of \<open>reconcile.rs\<close>: the \<open>block\<close> rows derived from the captured events and from
  Bitcoin Core.  A table is the list of its rows; a statement of the sources is the function its SQL
  text describes.  The row time stamps and the tables \<open>attestation_proof\<close>, \<open>protocol_commitment\<close> and
  \<open>source_health\<close> are left out.  A transaction that fails leaves the database as it was, so an
  operation returns a database only with its success.  Inside one transaction the second read of an
  event under its locks is the first one, so the lock sets, which are then equal, are left out too.
\<close>

section \<open>Rows\<close>

datatype core_coinbase_status = NotAttempted | CoinbaseComplete | CoinbaseFailed

definition coinbase_status_as_db_str :: "core_coinbase_status \<Rightarrow> string" where
  "coinbase_status_as_db_str s = (case s of NotAttempted \<Rightarrow> ''not_attempted'' | CoinbaseComplete \<Rightarrow> ''complete''
     | CoinbaseFailed \<Rightarrow> ''failed'')"

record block_row =
  br_hash :: bytes
  br_prev_hash :: bytes
  br_height :: "int option"
  br_height_source :: "height_source option"
  br_kind :: block_kind
  br_header_bytes :: bytes
  br_header_time :: int
  br_bitcoin_miner_pool_id :: "int option"
  br_coinbase_txid :: "bytes option"
  br_coinbase_script :: "bytes option"
  br_coinbase_outputs :: "bytes option"
  br_coinbase_status :: core_coinbase_status
  br_invalid_block_reason :: "string option"
  br_canonical_competitor_hash :: "bytes option"
  br_total_attestations :: int
  br_distinct_sources :: int
  br_auxpow_chain_count :: int
  br_live_observed :: bool
  br_core_attested :: bool
  br_pow_validated :: bool
  br_difficulty_epoch_ok :: "bool option"
  br_first_attested_at :: "int option"
  br_last_attested_at :: "int option"
  br_btc_orphan_class :: "string option"

text \<open>An event row with the columns of its \<open>source\<close> row (chain, kind) and of its historical
  provenance (relevance reason) that the statements join.\<close>

record event_row =
  er_id :: int
  er_source_id :: int
  er_chain :: "string option"
  er_source_is_auxpow :: bool
  er_child_height :: "int option"
  er_parent_hash :: bytes
  er_parent_prev_hash :: bytes
  er_parent_header_bytes :: bytes
  er_parent_header_time :: int
  er_parent_height :: "int option"
  er_parent_kind :: parent_kind
  er_pow_validates_btc_target :: bool
  er_difficulty_epoch_ok :: "bool option"
  er_coinbase_script :: "bytes option"
  er_coinbase_outputs :: "bytes option"
  er_coinbase_tx_bytes :: "bytes option"
  er_discovered_at :: int
  er_confirmed_at :: int
  er_revoked_at :: "int option"
  er_relevance_reasons :: "string list"

record database =
  db_blocks :: "block_row list"
  db_events :: "event_row list"
  db_known_stale :: "bytes list"
  db_pool_ids :: "string \<rightharpoonup> int"

text \<open>What the code embeds or loads once: the Bitcoin library, the invalid-block catalogue, the pool
  resolver and the difficulty table.\<close>

record read_model_env =
  rm_lib :: bitcoin_lib
  rm_catalogue :: invalid_catalogue
  rm_resolver :: pool_resolver
  rm_nbits :: nbits_table

datatype read_model_error =
    LiveCoreDrift bytes | ClassificationWithoutHeight int | InvalidBlockIncomplete
  | HeaderNotDecoded | HeadersDisagree bytes | CatalogueDisagrees bytes | CatalogueContradicted bytes
  | LockSetChanged int | EventNotFound int | NoActiveEvent bytes | ClassifierError core_error
  | ProofRejected capture_error

definition find_block :: "block_row list \<Rightarrow> bytes \<Rightarrow> block_row option" where
  "find_block blocks hash = List.find (\<lambda>r. br_hash r = hash) blocks"

definition active_events :: "event_row list \<Rightarrow> bytes \<Rightarrow> event_row list" where
  "active_events events hash = filter (\<lambda>e. er_parent_hash e = hash \<and> er_revoked_at e = None) events"

section \<open>Block writes\<close>

datatype block_write_mode = EventRollup | SynthesizedCore

definition coinbase_merge :: "block_row \<Rightarrow> block_row \<Rightarrow> bytes option \<times> bytes option \<times> bytes option \<times> core_coinbase_status" where
  "coinbase_merge old excluded =
     (case br_coinbase_txid excluded of Some t \<Rightarrow> Some t | None \<Rightarrow> br_coinbase_txid old,
      case br_coinbase_script excluded of Some t \<Rightarrow> Some t | None \<Rightarrow> br_coinbase_script old,
      case br_coinbase_outputs excluded of Some t \<Rightarrow> Some t | None \<Rightarrow> br_coinbase_outputs old,
      if br_coinbase_status excluded = CoinbaseComplete then CoinbaseComplete
      else if br_coinbase_status excluded = CoinbaseFailed \<and> br_coinbase_status old \<noteq> CoinbaseComplete
      then CoinbaseFailed else br_coinbase_status old)"

definition coinbase_of :: "block_row \<Rightarrow> bytes option \<times> bytes option \<times> bytes option \<times> core_coinbase_status" where
  "coinbase_of r = (br_coinbase_txid r, br_coinbase_script r, br_coinbase_outputs r, br_coinbase_status r)"

definition set_coinbase ::
  "bytes option \<times> bytes option \<times> bytes option \<times> core_coinbase_status \<Rightarrow> block_row \<Rightarrow> block_row" where
  "set_coinbase = (\<lambda>(t, s, x, st) r. r\<lparr>br_coinbase_txid := t, br_coinbase_script := s,
     br_coinbase_outputs := x, br_coinbase_status := st\<rparr>)"

definition event_rollup_set :: "block_row \<Rightarrow> block_row \<Rightarrow> block_row" where
  "event_rollup_set old excluded = set_coinbase (coinbase_merge old excluded) excluded"

definition event_rollup_where :: "block_row \<Rightarrow> block_row \<Rightarrow> bool" where
  "event_rollup_where old excluded \<longleftrightarrow>
     br_prev_hash old \<noteq> br_prev_hash excluded \<or> br_height old \<noteq> br_height excluded \<or>
     br_height_source old \<noteq> br_height_source excluded \<or> br_kind old \<noteq> br_kind excluded \<or>
     br_header_bytes old \<noteq> br_header_bytes excluded \<or> br_header_time old \<noteq> br_header_time excluded \<or>
     br_bitcoin_miner_pool_id old \<noteq> br_bitcoin_miner_pool_id excluded \<or>
     coinbase_of old \<noteq> coinbase_merge old excluded \<or>
     br_canonical_competitor_hash old \<noteq> br_canonical_competitor_hash excluded \<or>
     br_total_attestations old \<noteq> br_total_attestations excluded \<or>
     br_distinct_sources old \<noteq> br_distinct_sources excluded \<or>
     br_auxpow_chain_count old \<noteq> br_auxpow_chain_count excluded \<or>
     br_live_observed old \<noteq> br_live_observed excluded \<or> br_core_attested old \<noteq> br_core_attested excluded \<or>
     br_pow_validated old \<noteq> br_pow_validated excluded \<or>
     br_difficulty_epoch_ok old \<noteq> br_difficulty_epoch_ok excluded \<or>
     br_first_attested_at old \<noteq> br_first_attested_at excluded \<or>
     br_last_attested_at old \<noteq> br_last_attested_at excluded \<or>
     br_invalid_block_reason old \<noteq> br_invalid_block_reason excluded \<or>
     br_btc_orphan_class old \<noteq> br_btc_orphan_class excluded"

definition promotes :: "block_row \<Rightarrow> block_row \<Rightarrow> bool" where
  "promotes old excluded \<longleftrightarrow> br_core_attested excluded \<and> br_kind excluded = BkCanonical \<and> br_kind old \<noteq> BkCanonical"

definition miner_pool_merge :: "block_row \<Rightarrow> block_row \<Rightarrow> int option" where
  "miner_pool_merge old excluded =
     (if br_coinbase_script excluded \<noteq> None \<and> br_bitcoin_miner_pool_id excluded \<noteq> None
      then br_bitcoin_miner_pool_id excluded else br_bitcoin_miner_pool_id old)"

definition coalesce :: "'a option \<Rightarrow> 'a option \<Rightarrow> 'a option" where
  "coalesce a b = (case a of Some x \<Rightarrow> Some x | None \<Rightarrow> b)"

definition synthesized_set :: "block_row \<Rightarrow> block_row \<Rightarrow> block_row" where
  "synthesized_set old excluded =
     (let flag = (br_live_observed old \<or> br_core_attested old \<or> br_live_observed excluded \<or> br_core_attested excluded) in
      set_coinbase (coinbase_merge old excluded)
        (old\<lparr>br_prev_hash := br_prev_hash excluded,
           br_height := (if promotes old excluded then br_height excluded
                         else coalesce (br_height old) (br_height excluded)),
           br_height_source := (if promotes old excluded then br_height_source excluded
                                else coalesce (br_height_source old) (br_height_source excluded)),
           br_kind := (if promotes old excluded then br_kind excluded
                       else if br_kind old = BkUnknown then br_kind excluded else br_kind old),
           br_header_bytes := br_header_bytes excluded, br_header_time := br_header_time excluded,
           br_bitcoin_miner_pool_id := miner_pool_merge old excluded,
           br_canonical_competitor_hash := (if promotes old excluded then None else br_canonical_competitor_hash old),
           br_distinct_sources := max (br_distinct_sources old) (br_distinct_sources excluded),
           br_live_observed := flag, br_core_attested := flag,
           br_pow_validated := (br_pow_validated old \<or> br_pow_validated excluded),
           br_difficulty_epoch_ok := coalesce (br_difficulty_epoch_ok old) (br_difficulty_epoch_ok excluded),
           br_invalid_block_reason := coalesce (br_invalid_block_reason old) (br_invalid_block_reason excluded),
           br_btc_orphan_class := None\<rparr>))"

definition synthesized_where :: "block_row \<Rightarrow> block_row \<Rightarrow> bool" where
  "synthesized_where old excluded \<longleftrightarrow>
     br_prev_hash old \<noteq> br_prev_hash excluded \<or>
     br_height old \<noteq> coalesce (br_height old) (br_height excluded) \<or>
     promotes old excluded \<or> br_bitcoin_miner_pool_id old \<noteq> miner_pool_merge old excluded \<or>
     coinbase_of old \<noteq> coinbase_merge old excluded \<or> br_kind old = BkUnknown \<or>
     br_live_observed old \<noteq> br_core_attested old \<or> \<not> br_live_observed old \<or> \<not> br_core_attested old \<or>
     \<not> br_pow_validated old \<or> br_difficulty_epoch_ok old = None"

text \<open>\<open>INSERT ... ON CONFLICT (btc_header_hash) DO UPDATE SET ... WHERE ...\<close>; the insert of a synthesized
  row leaves \<open>btc_orphan_class\<close> out.\<close>

definition put_block :: "block_row \<Rightarrow> block_row list \<Rightarrow> block_row list" where
  "put_block r blocks = map (\<lambda>b. if br_hash b = br_hash r then r else b) blocks"

definition ensure_live_core_lockstep :: "block_row \<Rightarrow> (read_model_error, unit) result" where
  "ensure_live_core_lockstep b = ensure (br_live_observed b = br_core_attested b) (LiveCoreDrift (br_hash b)) (Inr ())"

definition upsert_block_row ::
  "block_row \<Rightarrow> block_write_mode \<Rightarrow> block_row list \<Rightarrow> (read_model_error, block_row list) result" where
  "upsert_block_row excluded mode blocks =
     rbind (ensure_live_core_lockstep excluded) (\<lambda>_.
     Inr (case find_block blocks (br_hash excluded) of
            None \<Rightarrow> blocks @ [case mode of EventRollup \<Rightarrow> excluded
                                | SynthesizedCore \<Rightarrow> excluded\<lparr>br_btc_orphan_class := None\<rparr>]
          | Some old \<Rightarrow>
              (case mode of
                 EventRollup \<Rightarrow>
                   if event_rollup_where old excluded then put_block (event_rollup_set old excluded) blocks else blocks
               | SynthesizedCore \<Rightarrow>
                   if synthesized_where old excluded then put_block (synthesized_set old excluded) blocks else blocks)))"

definition core_coinbase_columns ::
  "core_block_coinbase option \<Rightarrow> bytes option \<times> bytes option \<times> bytes option \<times> core_coinbase_status" where
  "core_coinbase_columns coinbase =
     (case coinbase of
        Some c \<Rightarrow> (Some (cb_txid c), Some (cb_script c), Some (cb_outputs c), CoinbaseComplete)
      | None \<Rightarrow> (None, None, None, NotAttempted))"

definition resolve_bitcoin_miner_pool_id_from_coinbase ::
  "read_model_env \<Rightarrow> database \<Rightarrow> bytes option \<Rightarrow> bytes option \<Rightarrow> int option" where
  "resolve_bitcoin_miner_pool_id_from_coinbase E db script outputs =
     (case script of
        None \<Rightarrow> None
      | Some s \<Rightarrow> cr_pool_id (resolve_btc_pool_from_coinbase (rm_lib E) s outputs (rm_resolver E) (db_pool_ids db)))"

definition resolve_core_coinbase_pool_id ::
  "read_model_env \<Rightarrow> database \<Rightarrow> core_block_coinbase option \<Rightarrow> int option" where
  "resolve_core_coinbase_pool_id E db coinbase =
     resolve_bitcoin_miner_pool_id_from_coinbase E db (map_option cb_script coinbase) (map_option cb_outputs coinbase)"

definition synthesized_row :: "read_model_env \<Rightarrow> database \<Rightarrow> classified_header \<Rightarrow> block_row" where
  "synthesized_row E db h =
     set_coinbase (core_coinbase_columns (ch_coinbase h))
       \<lparr>br_hash = ch_hash h, br_prev_hash = ch_prev_hash h, br_height = Some (ch_height h),
        br_height_source = Some BitcoinCore, br_kind = BkCanonical,
        br_header_bytes = serialize_header (rm_lib E) (ch_header h),
        br_header_time = uint (h_time (ch_header h)),
        br_bitcoin_miner_pool_id = resolve_core_coinbase_pool_id E db (ch_coinbase h),
        br_coinbase_txid = None, br_coinbase_script = None, br_coinbase_outputs = None,
        br_coinbase_status = NotAttempted, br_invalid_block_reason = None,
        br_canonical_competitor_hash = None, br_total_attestations = 0, br_distinct_sources = 1,
        br_auxpow_chain_count = 0, br_live_observed = True, br_core_attested = True,
        br_pow_validated = True, br_difficulty_epoch_ok = Some True, br_first_attested_at = None,
        br_last_attested_at = None, br_btc_orphan_class = None\<rparr>"

definition upsert_synthesized_canonical ::
  "read_model_env \<Rightarrow> classified_header \<Rightarrow> database \<Rightarrow> (read_model_error, database) result" where
  "upsert_synthesized_canonical E h db =
     rbind (upsert_block_row (synthesized_row E db h) SynthesizedCore (db_blocks db)) (\<lambda>blocks.
     Inr (db\<lparr>db_blocks := blocks\<rparr>))"

definition upsert_core_canonical_header_with_coinbase ::
  "read_model_env \<Rightarrow> header \<Rightarrow> int \<Rightarrow> core_block_coinbase option \<Rightarrow> database \<Rightarrow> (read_model_error, database) result" where
  "upsert_core_canonical_header_with_coinbase E hdr height coinbase db =
     upsert_synthesized_canonical E
       \<lparr>ch_hash = block_hash (rm_lib E) hdr, ch_prev_hash = h_prev_blockhash hdr, ch_header = hdr,
        ch_height = height, ch_coinbase = coinbase, ch_coinbase_unavailable = False\<rparr> db"

definition record_coinbase_failure :: "int \<Rightarrow> bytes \<Rightarrow> database \<Rightarrow> database" where
  "record_coinbase_failure height hash db =
     db\<lparr>db_blocks := map (\<lambda>b.
        if br_height b = Some height \<and> br_hash b = hash \<and> br_coinbase_status b \<noteq> CoinbaseComplete
        then b\<lparr>br_coinbase_status := CoinbaseFailed\<rparr> else b) (db_blocks db)\<rparr>"

section \<open>Classification\<close>

record block_cascade_state =
  bs_kind :: block_kind
  bs_height :: "int option"
  bs_height_source :: "height_source option"
  bs_invalid_block_reason :: "string option"
  bs_canonical_competitor_hash :: "bytes option"
  bs_core_attested :: bool
  bs_difficulty_epoch_ok :: "bool option"
  bs_coinbase_script :: "bytes option"

definition load_block_cascade_state :: "block_row list \<Rightarrow> bytes \<Rightarrow> block_cascade_state option" where
  "load_block_cascade_state blocks hash = map_option (\<lambda>r.
     \<lparr>bs_kind = br_kind r, bs_height = br_height r, bs_height_source = br_height_source r,
      bs_invalid_block_reason = br_invalid_block_reason r,
      bs_canonical_competitor_hash = br_canonical_competitor_hash r, bs_core_attested = br_core_attested r,
      bs_difficulty_epoch_ok = br_difficulty_epoch_ok r, bs_coinbase_script = br_coinbase_script r\<rparr>)
     (find_block blocks hash)"

definition load_parent_preflight :: "block_row list \<Rightarrow> bytes \<Rightarrow> parent_preflight" where
  "load_parent_preflight blocks prev_hash = \<lparr>pp_known_prev = map_option (\<lambda>r.
     \<lparr>kb_kind = br_kind r, kb_btc_height = br_height r, kb_btc_height_source = br_height_source r,
      kb_canonical_competitor_hash = br_canonical_competitor_hash r, kb_core_attested = br_core_attested r\<rparr>)
     (find_block blocks prev_hash)\<rparr>"

definition resolve_parent_classification ::
  "read_model_env \<Rightarrow> header \<Rightarrow> parent_classification option \<Rightarrow> (read_model_error, parent_classification) result" where
  "resolve_parent_classification E hdr live =
     (let hash = block_hash (rm_lib E) hdr in
      case invalid_block_lookup (rm_catalogue E) hash of
        None \<Rightarrow> Inr (case live of Some c \<Rightarrow> c | None \<Rightarrow> classification_unknown hdr)
      | Some entry \<Rightarrow>
          let catalogue_classification =
            classification_invalid_block hdr (ib_height entry) InvalidBlockCatalog None (ib_rejection_reason entry) in
          case live of
            None \<Rightarrow> Inr catalogue_classification
          | Some live \<Rightarrow>
              if pk_kind live = InvalidBlock then
                if pk_height live \<noteq> Some (ib_height entry) \<or>
                   pk_rejection_reason live \<noteq> Some (ib_rejection_reason entry)
                then Inl (CatalogueDisagrees hash) else Inr live
              else if ib_rejection_reason entry = time_below_mtp \<and>
                      (pk_kind live = Canonical \<or> pk_kind live = Stale)
              then Inl (CatalogueContradicted hash)
              else Inr catalogue_classification)"

definition persisted_classification_from_hash ::
  "read_model_env \<Rightarrow> block_row list \<Rightarrow> bytes \<Rightarrow> header \<Rightarrow> parent_classification option" where
  "persisted_classification_from_hash E blocks parent_hash hdr =
     Option.bind (load_block_cascade_state blocks parent_hash) (\<lambda>persisted.
     if bs_kind persisted = BkUnknown then None
     else if bs_kind persisted = BkInvalidBlock \<and> bs_height_source persisted = Some InvalidBlockCatalog \<and>
             invalid_block_lookup (rm_catalogue E) parent_hash = None then None
     else
       let kind = (case bs_kind persisted of BkCanonical \<Rightarrow> Canonical | BkStale \<Rightarrow> Stale
                   | BkInvalidBlock \<Rightarrow> InvalidBlock | BkUnknown \<Rightarrow> Unknown) in
       Option.bind
         (if kind = Stale then
            Option.bind (bs_canonical_competitor_hash persisted) (\<lambda>competitor_hash.
            case load_block_cascade_state blocks competitor_hash of
              Some state \<Rightarrow> if bs_kind state = BkCanonical then Some (Some competitor_hash) else None
            | None \<Rightarrow> None)
          else Some None) (\<lambda>canonical_competitor_hash.
       Some \<lparr>pk_kind = kind, pk_height = bs_height persisted, pk_height_source = bs_height_source persisted,
             pk_prev_hash = h_prev_blockhash hdr, pk_canonical_predecessor_header = None,
             pk_canonical_competitor_header = None, pk_canonical_competitor_hash = canonical_competitor_hash,
             pk_coinbase = None, pk_difficulty_epoch_ok = bs_difficulty_epoch_ok persisted,
             pk_rejection_reason = bs_invalid_block_reason persisted,
             pk_live_observed = bs_core_attested persisted, pk_core_attested = bs_core_attested persisted,
             pk_core_absence_attested = False, pk_incomplete = False\<rparr>))"

definition load_proven_parent_classification ::
  "read_model_env \<Rightarrow> block_row list \<Rightarrow> header \<Rightarrow> parent_classification option" where
  "load_proven_parent_classification E blocks hdr =
     (case persisted_classification_from_hash E blocks (block_hash (rm_lib E) hdr) hdr of
        Some c \<Rightarrow> if pk_kind c = Stale \<or> (pk_kind c = Canonical \<and> pk_core_attested c) then Some c else None
      | None \<Rightarrow> None)"

definition classification_from_event :: "event_row \<Rightarrow> header \<Rightarrow> parent_classification option" where
  "classification_from_event ev hdr =
     (if er_parent_kind ev \<noteq> Canonical then None
      else Some \<lparr>pk_kind = er_parent_kind ev, pk_height = er_parent_height ev,
             pk_height_source = map_option (\<lambda>_. BitcoinCore) (er_parent_height ev),
             pk_prev_hash = h_prev_blockhash hdr, pk_canonical_predecessor_header = None,
             pk_canonical_competitor_header = None, pk_canonical_competitor_hash = None, pk_coinbase = None,
             pk_difficulty_epoch_ok = er_difficulty_epoch_ok ev, pk_rejection_reason = None,
             pk_live_observed = False, pk_core_attested = False, pk_core_absence_attested = False,
             pk_incomplete = False\<rparr>)"

definition effective_classification ::
  "read_model_env \<Rightarrow> block_row list \<Rightarrow> event_row \<Rightarrow> header \<Rightarrow> parent_classification \<Rightarrow> parent_classification" where
  "effective_classification E blocks ev hdr classification =
     (if pk_kind classification = Unknown then
        case persisted_classification_from_hash E blocks (er_parent_hash ev) hdr of
          Some c \<Rightarrow> c
        | None \<Rightarrow>
            (case classification_from_event ev hdr of
               Some c \<Rightarrow> c
             | None \<Rightarrow>
                 if er_parent_kind ev = Stale
                 then (classification_unknown hdr)\<lparr>pk_difficulty_epoch_ok := pk_difficulty_epoch_ok classification\<rparr>
                 else classification)
      else classification)"

definition apply_event_classification ::
  "event_row \<Rightarrow> parent_classification \<Rightarrow> event_row list \<Rightarrow> (read_model_error, event_row list) result" where
  "apply_event_classification ev classification events =
     (let placed = (pk_kind classification = Canonical \<or> pk_kind classification = Stale \<or>
                    pk_kind classification = InvalidBlock);
          height = (if placed then pk_height classification else None) in
      if placed \<and> height = None then Inl (ClassificationWithoutHeight (er_id ev))
      else Inr (map (\<lambda>e.
        if er_parent_hash e = er_parent_hash ev \<and> er_revoked_at e = None \<and>
           (pk_kind classification \<noteq> Unknown \<or> er_parent_kind e = Unknown \<or> er_parent_kind e = InvalidBlock)
        then e\<lparr>er_parent_kind := pk_kind classification, er_parent_height := height,
               er_difficulty_epoch_ok := coalesce (pk_difficulty_epoch_ok classification) (er_difficulty_epoch_ok e)\<rparr>
        else e) events))"

section \<open>Rebuilding one parent\<close>

record parent_rollup =
  ru_total_attestations :: int
  ru_distinct_sources :: int
  ru_auxpow_chain_count :: int
  ru_pow_validated :: bool
  ru_difficulty_epoch_ok :: "bool option"
  ru_first_attested_at :: "int option"
  ru_last_attested_at :: "int option"

text \<open>\<open>bool_or\<close> ignores nulls and is null when nothing is left.\<close>

definition bool_or :: "bool option list \<Rightarrow> bool option" where
  "bool_or bs = (let vs = List.map_filter (\<lambda>b. b) bs in if vs = [] then None else Some (list_ex (\<lambda>b. b) vs))"

definition load_parent_rollup :: "event_row list \<Rightarrow> bytes \<Rightarrow> parent_rollup option" where
  "load_parent_rollup events hash =
     (let active = active_events events hash in
      if active = [] then None
      else Some \<lparr>ru_total_attestations = int (length active),
             ru_distinct_sources = int (length (remdups (map er_source_id active))),
             ru_auxpow_chain_count =
               int (length (remdups (List.map_filter (\<lambda>e. if er_source_is_auxpow e then er_chain e else None) active))),
             ru_pow_validated = list_ex er_pow_validates_btc_target active,
             ru_difficulty_epoch_ok = bool_or (map er_difficulty_epoch_ok active),
             ru_first_attested_at = Some (Min (set (map er_discovered_at active))),
             ru_last_attested_at = Some (Max (set (map er_confirmed_at active)))\<rparr>)"

text \<open>\<open>ORDER BY child_height NULLS LAST, id\<close>.\<close>

definition anchor_key :: "event_row \<Rightarrow> bool \<times> int \<times> int" where
  "anchor_key e = (er_child_height e = None, case er_child_height e of Some h \<Rightarrow> h | None \<Rightarrow> 0, er_id e)"

definition find_anchor_event_for_block :: "event_row list \<Rightarrow> bytes \<Rightarrow> int option" where
  "find_anchor_event_for_block events hash =
     (case sort_key anchor_key (active_events events hash) of [] \<Rightarrow> None | e # _ \<Rightarrow> Some (er_id e))"

definition load_representative_active_event ::
  "event_row list \<Rightarrow> bytes \<Rightarrow> (read_model_error, event_row) result" where
  "load_representative_active_event events hash =
     (case sort_key (\<lambda>e. (er_coinbase_script e = None, anchor_key e)) (active_events events hash) of
        [] \<Rightarrow> Inl (NoActiveEvent hash)
      | e # _ \<Rightarrow>
          if list_ex (\<lambda>x. er_parent_header_bytes x \<noteq> er_parent_header_bytes e) (active_events events hash)
          then Inl (HeadersDisagree hash) else Inr e)"

definition merge_difficulty :: "bool option \<Rightarrow> parent_classification \<Rightarrow> bool option" where
  "merge_difficulty rollup_difficulty classification = coalesce (pk_difficulty_epoch_ok classification) rollup_difficulty"

definition resolve_persisted_core_coinbase_bitcoin_miner_pool_id ::
  "read_model_env \<Rightarrow> database \<Rightarrow> bytes \<Rightarrow> int option" where
  "resolve_persisted_core_coinbase_bitcoin_miner_pool_id E db hash =
     Option.bind (find_block (db_blocks db) hash) (\<lambda>r.
     Option.bind (br_coinbase_script r) (\<lambda>script.
       resolve_bitcoin_miner_pool_id_from_coinbase E db (Some script) (br_coinbase_outputs r)))"

definition resolve_effective_bitcoin_miner_pool_id ::
  "read_model_env \<Rightarrow> database \<Rightarrow> bytes \<Rightarrow> block_kind \<Rightarrow> parent_classification \<Rightarrow> event_row \<Rightarrow> int option" where
  "resolve_effective_bitcoin_miner_pool_id E db hash kind classification ev =
     (let fresh = (if pk_core_attested classification \<and> (pk_kind classification = Canonical \<or> pk_kind classification = Stale)
                   then resolve_core_coinbase_pool_id E db (pk_coinbase classification) else None);
          persisted = (if kind = BkCanonical \<or> (kind = BkStale \<and> pk_core_attested classification)
                       then resolve_persisted_core_coinbase_bitcoin_miner_pool_id E db hash else None) in
      case fresh of Some p \<Rightarrow> Some p | None \<Rightarrow>
      (case persisted of Some p \<Rightarrow> Some p | None \<Rightarrow>
         resolve_bitcoin_miner_pool_id_from_coinbase E db (er_coinbase_script ev) (er_coinbase_outputs ev)))"

definition load_strict_bip34_height :: "read_model_env \<Rightarrow> event_row list \<Rightarrow> bytes \<Rightarrow> int option" where
  "load_strict_bip34_height E events hash =
     find_map (\<lambda>e. case (er_chain e, er_coinbase_script e) of
         (Some chain, Some script) \<Rightarrow>
           if is_strict_bip34_chain chain
           then strict_bip34_height_from_evidence (rm_lib E) chain script (er_coinbase_tx_bytes e) else None
       | _ \<Rightarrow> None) (sort_key er_id (active_events events hash))"

definition has_published_stale_branch_attestation :: "event_row list \<Rightarrow> bytes \<Rightarrow> bool" where
  "has_published_stale_branch_attestation events hash =
     list_ex (\<lambda>e. list_ex (\<lambda>r. r = ''valid_direct_stale'' \<or> r = ''valid_stale_descendant'') (er_relevance_reasons e))
       (active_events events hash)"

definition compute_block_orphan_class ::
  "read_model_env \<Rightarrow> database \<Rightarrow> bytes \<Rightarrow> block_kind \<Rightarrow> parent_classification \<Rightarrow> header \<Rightarrow> string option" where
  "compute_block_orphan_class E db hash kind classification hdr =
     (if kind \<noteq> BkUnknown then None
      else if has_published_stale_branch_attestation (db_events db) hash then orphan_as_db_str OrphanExcluded
      else if \<not> pk_core_absence_attested classification
      then Option.bind (find_block (db_blocks db) hash) br_btc_orphan_class
      else if List.member (db_known_stale db) hash then orphan_as_db_str OrphanExcluded
      else orphan_as_db_str (fst (classify_btc_orphan_with (rm_nbits E) (uint (h_time hdr)) (h_bits hdr)
             (load_strict_bip34_height E (db_events db) hash))))"

text \<open>The kind, height, height source, competitor and reason columns of a classification.\<close>

definition parent_columns ::
  "parent_classification \<Rightarrow> (read_model_error, block_kind \<times> int option \<times> height_source option \<times> bytes option \<times> string option) result" where
  "parent_columns c =
     (case pk_kind c of
        Canonical \<Rightarrow> Inr (BkCanonical, pk_height c, coalesce (pk_height_source c) (Some BitcoinCore), None, None)
      | Stale \<Rightarrow> Inr (BkStale, pk_height c, pk_height_source c, pk_canonical_competitor_hash c, None)
      | InvalidBlock \<Rightarrow>
          if pk_height c = None \<or> pk_height_source c = None \<or> pk_rejection_reason c = None
          then Inl InvalidBlockIncomplete
          else Inr (BkInvalidBlock, pk_height c, pk_height_source c, None, pk_rejection_reason c)
      | Unknown \<Rightarrow> Inr (BkUnknown, None, None, None, None)
      | Near \<Rightarrow> Inr (BkUnknown, None, None, None, None))"

definition demote_zero_active_block :: "read_model_env \<Rightarrow> bytes \<Rightarrow> database \<Rightarrow> database" where
  "demote_zero_active_block E hash db =
     (let core_pool_id = resolve_persisted_core_coinbase_bitcoin_miner_pool_id E db hash in
      db\<lparr>db_blocks := map (\<lambda>b. if br_hash b \<noteq> hash then b else
        (let core = br_core_attested b in
         b\<lparr>br_kind := (if core then br_kind b else BkUnknown),
           br_height := (if core then br_height b else None),
           br_height_source := (if core then br_height_source b else None),
           br_canonical_competitor_hash := (if core then br_canonical_competitor_hash b else None),
           br_total_attestations := 0, br_distinct_sources := (if core then 1 else 0),
           br_auxpow_chain_count := 0,
           br_bitcoin_miner_pool_id := (if core then core_pool_id else None),
           br_pow_validated := core,
           br_difficulty_epoch_ok := (if core then br_difficulty_epoch_ok b else None),
           br_first_attested_at := None, br_last_attested_at := None,
           br_invalid_block_reason := (if core then br_invalid_block_reason b else None),
           br_btc_orphan_class := None\<rparr>)) (db_blocks db)\<rparr>)"

definition retire_zero_active_block :: "read_model_env \<Rightarrow> bytes \<Rightarrow> database \<Rightarrow> database" where
  "retire_zero_active_block E hash db =
     (let (core_attested, referenced) =
            (case find_block (db_blocks db) hash of
               Some r \<Rightarrow> (br_core_attested r,
                           list_ex (\<lambda>r. br_canonical_competitor_hash r = Some hash) (db_blocks db))
             | None \<Rightarrow> (False, False)) in
      if core_attested \<or> referenced then demote_zero_active_block E hash db
      else db\<lparr>db_blocks := filter (\<lambda>b. br_hash b \<noteq> hash) (db_blocks db)\<rparr>)"

text \<open>The row built from a rollup, a representative event and the effective classification.\<close>

definition rebuilt_row ::
  "read_model_env \<Rightarrow> database \<Rightarrow> bytes \<Rightarrow> parent_rollup \<Rightarrow> event_row \<Rightarrow> header \<Rightarrow> parent_classification \<Rightarrow>
     block_kind \<times> int option \<times> height_source option \<times> bytes option \<times> string option \<Rightarrow> block_row" where
  "rebuilt_row E db hash rollup ev hdr c = (\<lambda>(kind, height, hsource, competitor_hash, reason).
     set_coinbase (core_coinbase_columns (pk_coinbase c))
       \<lparr>br_hash = hash, br_prev_hash = er_parent_prev_hash ev, br_height = height, br_height_source = hsource,
        br_kind = kind, br_header_bytes = er_parent_header_bytes ev, br_header_time = er_parent_header_time ev,
        br_bitcoin_miner_pool_id = resolve_effective_bitcoin_miner_pool_id E db hash kind c ev,
        br_coinbase_txid = None, br_coinbase_script = None, br_coinbase_outputs = None,
        br_coinbase_status = NotAttempted, br_invalid_block_reason = reason,
        br_canonical_competitor_hash = competitor_hash,
        br_total_attestations = ru_total_attestations rollup,
        br_distinct_sources = ru_distinct_sources rollup + (if pk_core_attested c then 1 else 0),
        br_auxpow_chain_count = ru_auxpow_chain_count rollup,
        br_live_observed = pk_live_observed c, br_core_attested = pk_core_attested c,
        br_pow_validated = (ru_pow_validated rollup \<or> pk_core_attested c),
        br_difficulty_epoch_ok = merge_difficulty (ru_difficulty_epoch_ok rollup) c,
        br_first_attested_at = ru_first_attested_at rollup, br_last_attested_at = ru_last_attested_at rollup,
        br_btc_orphan_class = compute_block_orphan_class E db hash kind c hdr\<rparr>)"

definition rebuild_parent_read_model ::
  "read_model_env \<Rightarrow> bytes \<Rightarrow> parent_classification option \<Rightarrow> database \<Rightarrow> (read_model_error, database) result" where
  "rebuild_parent_read_model E hash classification db =
     (case load_parent_rollup (db_events db) hash of
        None \<Rightarrow> Inr (retire_zero_active_block E hash db)
      | Some rollup \<Rightarrow>
          rbind (load_representative_active_event (db_events db) hash) (\<lambda>ev.
          rbind (ok_or HeaderNotDecoded (deserialize_header (rm_lib E) (er_parent_header_bytes ev))) (\<lambda>hdr.
          let c = (case classification of
                     Some c \<Rightarrow> effective_classification E (db_blocks db) ev hdr c
                   | None \<Rightarrow>
                       (case persisted_classification_from_hash E (db_blocks db) (er_parent_hash ev) hdr of
                          Some c \<Rightarrow> c | None \<Rightarrow> classification_unknown hdr)) in
          rbind (parent_columns c) (\<lambda>columns.
          rbind (upsert_block_row (rebuilt_row E db hash rollup ev hdr c columns) EventRollup (db_blocks db)) (\<lambda>blocks.
          Inr (db\<lparr>db_blocks := blocks\<rparr>))))))"

section \<open>Reconciling one event\<close>

definition load_event :: "event_row list \<Rightarrow> int \<Rightarrow> (read_model_error, event_row) result" where
  "load_event events event_id = ok_or (EventNotFound event_id) (List.find (\<lambda>e. er_id e = event_id) events)"

type_synonym ('s, 'a) rm_io = "'s \<Rightarrow> (read_model_error, 'a) result \<times> 's"

definition rm_pure :: "(read_model_error, 'a) result \<Rightarrow> ('s, 'a) rm_io" where
  "rm_pure r s = (r, s)"

definition rm_bind :: "('s, 'a) rm_io \<Rightarrow> ('a \<Rightarrow> ('s, 'b) rm_io) \<Rightarrow> ('s, 'b) rm_io" where
  "rm_bind m f s = (case m s of (Inl e, s1) \<Rightarrow> (Inl e, s1) | (Inr a, s1) \<Rightarrow> f a s1)"

definition rm_core :: "('s, 'a) core_io \<Rightarrow> ('s, 'a) rm_io" where
  "rm_core m s = (case m s of (Inl e, s1) \<Rightarrow> (Inl (ClassifierError e), s1) | (Inr a, s1) \<Rightarrow> (Inr a, s1))"

definition classify_event_parent ::
  "read_model_env \<Rightarrow> 's configured_classifier \<Rightarrow> block_row list \<Rightarrow> event_row \<Rightarrow> parent_classification option \<Rightarrow> bool \<Rightarrow>
     ('s, header \<times> parent_classification) rm_io" where
  "classify_event_parent E K blocks ev preclassified strict_core_errors =
     rm_bind (rm_pure (ok_or HeaderNotDecoded (deserialize_header (rm_lib E) (er_parent_header_bytes ev)))) (\<lambda>hdr.
     rm_bind
       (case preclassified of
          Some c \<Rightarrow> rm_pure (Inr (Some c))
        | None \<Rightarrow>
            if is_enabled K then
              let preflight = load_parent_preflight blocks (er_parent_prev_hash ev) in
              rm_bind (rm_core (if strict_core_errors then classify_parent_strict (rm_lib E) K hdr preflight
                                else configured_classify_parent (rm_lib E) K hdr preflight))
                (\<lambda>c. rm_pure (Inr (Some c)))
            else rm_pure (Inr None)) (\<lambda>live.
     rm_bind (rm_pure (resolve_parent_classification E hdr live)) (\<lambda>c.
     rm_pure (Inr (hdr, c)))))"

record preclassified_parent =
  pr_expected_parent_hash :: "bytes option"
  pr_classification :: parent_classification
  pr_strict_core_errors :: bool

definition trusted :: "parent_classification \<Rightarrow> preclassified_parent" where
  "trusted c = \<lparr>pr_expected_parent_hash = None, pr_classification = c, pr_strict_core_errors = False\<rparr>"

definition for_event :: "event_row \<Rightarrow> parent_classification \<Rightarrow> bool \<Rightarrow> preclassified_parent" where
  "for_event ev c strict_core_errors =
     \<lparr>pr_expected_parent_hash = Some (er_parent_hash ev), pr_classification = c,
      pr_strict_core_errors = strict_core_errors\<rparr>"

definition upsert_synthesized_sibling ::
  "read_model_env \<Rightarrow> classified_header \<Rightarrow> database \<Rightarrow> (read_model_error, database \<times> bytes list) result" where
  "upsert_synthesized_sibling E sibling db =
     rbind (upsert_synthesized_canonical E sibling db) (\<lambda>db1.
     Inr (db1, if load_block_cascade_state (db_blocks db) (ch_hash sibling) \<noteq>
                  load_block_cascade_state (db_blocks db1) (ch_hash sibling)
               then [ch_hash sibling] else []))"

fun upsert_siblings ::
  "read_model_env \<Rightarrow> classified_header list \<Rightarrow> database \<Rightarrow> (read_model_error, database \<times> bytes list) result" where
  "upsert_siblings E [] db = Inr (db, [])"
| "upsert_siblings E (h # hs) db =
     rbind (upsert_synthesized_sibling E h db) (\<lambda>(db1, changed).
     rbind (upsert_siblings E hs db1) (\<lambda>(db2, changed2). Inr (db2, changed @ changed2)))"

definition option_list :: "'a option \<Rightarrow> 'a list" where
  "option_list x = (case x of Some a \<Rightarrow> [a] | None \<Rightarrow> [])"

definition write_event_classification ::
  "read_model_env \<Rightarrow> event_row \<Rightarrow> parent_classification \<Rightarrow> database \<Rightarrow> (read_model_error, database \<times> bytes list) result" where
  "write_event_classification E ev c db =
     rbind (apply_event_classification ev c (db_events db)) (\<lambda>events.
     rbind (upsert_siblings E (option_list (pk_canonical_predecessor_header c) @
              option_list (pk_canonical_competitor_header c)) (db\<lparr>db_events := events\<rparr>)) (\<lambda>(db1, changed).
     rbind (rebuild_parent_read_model E (er_parent_hash ev) (Some c) db1) (\<lambda>db2.
     Inr (db2, remdups_adj (sort (changed @
       (if load_block_cascade_state (db_blocks db) (er_parent_hash ev) \<noteq>
           load_block_cascade_state (db_blocks db2) (er_parent_hash ev)
        then [er_parent_hash ev] else [])))))))"

definition reconcile_one_event_in_txn ::
  "read_model_env \<Rightarrow> 's configured_classifier \<Rightarrow> int \<Rightarrow> preclassified_parent option \<Rightarrow> database \<Rightarrow>
     ('s, database \<times> bytes list) rm_io" where
  "reconcile_one_event_in_txn E K event_id preclassified db =
     rm_bind (rm_pure (load_event (db_events db) event_id)) (\<lambda>ev.
     if \<not> er_pow_validates_btc_target ev then rm_pure (Inr (db, []))
     else if (case Option.bind preclassified pr_expected_parent_hash of
                Some hash \<Rightarrow> hash \<noteq> er_parent_hash ev | None \<Rightarrow> False)
     then rm_pure (Inl (LockSetChanged event_id))
     else
       rm_bind (classify_event_parent E K (db_blocks db) ev (map_option pr_classification preclassified) False) (\<lambda>(hdr, c0).
       rm_pure (write_event_classification E ev (effective_classification E (db_blocks db) ev hdr c0) db)))"

section \<open>Classifying a captured payload\<close>

definition classify_payload_parent ::
  "read_model_env \<Rightarrow> 's configured_classifier \<Rightarrow> block_row list \<Rightarrow> merge_mining_event_payload \<Rightarrow>
     ('s, merge_mining_event_payload \<times> parent_classification option) rm_io" where
  "classify_payload_parent E K blocks payload =
     (if \<not> ev_pow_validates_btc_target payload then rm_pure (Inr (payload, None))
      else rm_bind (rm_pure (ok_or HeaderNotDecoded
               (deserialize_header (rm_lib E) (ev_btc_parent_header_bytes payload)))) (\<lambda>hdr.
        if \<not> is_enabled K \<and> invalid_block_lookup (rm_catalogue E) (ev_btc_parent_header_hash payload) = None
        then rm_pure (Inr (payload, None))
        else
          rm_bind
            (if is_enabled K then
               rm_bind (rm_core (configured_classify_parent (rm_lib E) K hdr
                          (load_parent_preflight blocks (ev_btc_parent_prev_header_hash payload))))
                 (\<lambda>c. rm_pure (Inr (Some c)))
             else rm_pure (Inr None)) (\<lambda>live.
          rm_bind (rm_pure (resolve_parent_classification E hdr live)) (\<lambda>c.
          rm_bind (rm_pure (case apply_classification_proof (rm_catalogue E) payload (to_proof c) of
                     Inl e \<Rightarrow> Inl (ProofRejected e) | Inr pl \<Rightarrow> Inr pl)) (\<lambda>payload1.
          rm_pure (Inr (payload1, Some c)))))))"

section \<open>The constraints of the block table\<close>

text \<open>The \<open>CHECK\<close> constraints of \<open>migrations/0001_canonical_schema.sql\<close> as of migration 37, and the
  lockstep of the two Core flags that the writers keep.\<close>

definition block_checks :: "block_row \<Rightarrow> bool" where
  "block_checks r \<longleftrightarrow>
     (case br_kind r of
        BkCanonical \<Rightarrow> br_height r \<noteq> None \<and> br_height_source r = Some BitcoinCore \<and> br_canonical_competitor_hash r = None
      | BkStale \<Rightarrow> br_height r \<noteq> None \<and> br_height_source r \<in> {Some BitcoinCore, Some PrevCanonical, Some PrevStale} \<and>
                   br_canonical_competitor_hash r \<noteq> None
      | BkInvalidBlock \<Rightarrow> br_height r \<noteq> None \<and>
                   br_height_source r \<in> {Some InvalidBlockCatalog, Some PrevCanonical, Some PrevStale} \<and>
                   br_canonical_competitor_hash r = None
      | BkUnknown \<Rightarrow> br_height r = None \<and> br_height_source r = None \<and> br_canonical_competitor_hash r = None) \<and>
     br_canonical_competitor_hash r \<noteq> Some (br_hash r) \<and>
     (br_btc_orphan_class r \<noteq> None \<longrightarrow> br_kind r = BkUnknown) \<and>
     (br_coinbase_status r = CoinbaseComplete \<longrightarrow> br_coinbase_script r \<noteq> None) \<and>
     (br_kind r = BkInvalidBlock \<longleftrightarrow> br_invalid_block_reason r \<noteq> None) \<and>
     br_live_observed r = br_core_attested r"

definition keys_of :: "block_row list \<Rightarrow> bytes set" where
  "keys_of blocks = br_hash ` set blocks"

text \<open>Primary key, row constraints and the foreign key of the competitor column.\<close>

definition blocks_ok :: "block_row list \<Rightarrow> bool" where
  "blocks_ok blocks \<longleftrightarrow> distinct (map br_hash blocks) \<and>
     (\<forall>r\<in>set blocks. block_checks r \<and> (\<forall>h. br_canonical_competitor_hash r = Some h \<longrightarrow> h \<in> keys_of blocks))"

lemma find_block_Some: "find_block blocks h = Some r \<Longrightarrow> r \<in> set blocks \<and> br_hash r = h"
  unfolding find_block_def by (auto simp: find_Some_iff)

lemma find_block_None: "find_block blocks h = None \<longleftrightarrow> h \<notin> keys_of blocks"
  unfolding find_block_def keys_of_def by (auto simp: find_None_iff)

lemma find_block_in:
  assumes "distinct (map br_hash blocks)" "r \<in> set blocks"
  shows "find_block blocks (br_hash r) = Some r"
  using assms by (induction blocks) (auto simp: find_block_def)

lemma put_block_hashes [simp]: "map br_hash (put_block r blocks) = map br_hash blocks"
  by (induction blocks) (auto simp: put_block_def)

lemma keys_put_block [simp]: "keys_of (put_block r blocks) = keys_of blocks"
  by (metis put_block_hashes keys_of_def list.set_map)

lemma keys_of_snoc [simp]: "keys_of (blocks @ [r]) = insert (br_hash r) (keys_of blocks)"
  by (auto simp: keys_of_def)

lemma set_put_block: "set (put_block r blocks) \<subseteq> insert r (set blocks)"
  by (auto simp: put_block_def)

lemma blocks_ok_put:
  assumes "blocks_ok blocks" "block_checks r" "\<And>h. br_canonical_competitor_hash r = Some h \<Longrightarrow> h \<in> keys_of blocks"
  shows "blocks_ok (put_block r blocks)"
  unfolding blocks_ok_def
proof (intro conjI ballI allI impI)
  show "distinct (map br_hash (put_block r blocks))" using assms(1) by (simp add: blocks_ok_def)
  fix x assume "x \<in> set (put_block r blocks)"
  then have x: "x = r \<or> x \<in> set blocks" using set_put_block by blast
  then show "block_checks x" using assms by (auto simp: blocks_ok_def)
  fix h assume "br_canonical_competitor_hash x = Some h"
  then show "h \<in> keys_of (put_block r blocks)" using x assms by (auto simp: blocks_ok_def)
qed

lemma blocks_ok_snoc:
  assumes "blocks_ok blocks" "block_checks r" "br_hash r \<notin> keys_of blocks"
    and "\<And>h. br_canonical_competitor_hash r = Some h \<Longrightarrow> h \<in> keys_of blocks"
  shows "blocks_ok (blocks @ [r])"
  using assms by (auto simp: blocks_ok_def keys_of_def)

section \<open>Row updates\<close>

text \<open>The columns a row to be written satisfies, and the effect of the coinbase merge.\<close>

lemma set_coinbase_fields [simp]:
  "br_hash (set_coinbase c r) = br_hash r" "br_prev_hash (set_coinbase c r) = br_prev_hash r"
  "br_height (set_coinbase c r) = br_height r" "br_height_source (set_coinbase c r) = br_height_source r"
  "br_kind (set_coinbase c r) = br_kind r" "br_canonical_competitor_hash (set_coinbase c r) = br_canonical_competitor_hash r"
  "br_btc_orphan_class (set_coinbase c r) = br_btc_orphan_class r"
  "br_invalid_block_reason (set_coinbase c r) = br_invalid_block_reason r"
  "br_live_observed (set_coinbase c r) = br_live_observed r" "br_core_attested (set_coinbase c r) = br_core_attested r"
  "br_coinbase_script (set_coinbase c r) = fst (snd c)" "br_coinbase_status (set_coinbase c r) = snd (snd (snd c))"
  "coinbase_of (set_coinbase c r) = c" "br_total_attestations (set_coinbase c r) = br_total_attestations r"
  "br_pow_validated (set_coinbase c r) = br_pow_validated r"
  by (cases c; simp add: set_coinbase_def coinbase_of_def)+

lemma coinbase_merge_script:
  assumes "br_coinbase_status old = CoinbaseComplete \<longrightarrow> br_coinbase_script old \<noteq> None"
    and "br_coinbase_status new = CoinbaseComplete \<longrightarrow> br_coinbase_script new \<noteq> None"
  shows "snd (snd (snd (coinbase_merge old new))) = CoinbaseComplete \<longrightarrow> fst (snd (coinbase_merge old new)) \<noteq> None"
  using assms by (auto simp: coinbase_merge_def split: option.splits if_splits)

lemma event_rollup_checks:
  assumes "block_checks old" "block_checks new"
  shows "block_checks (event_rollup_set old new)"
proof -
  have "snd (snd (snd (coinbase_merge old new))) = CoinbaseComplete \<longrightarrow> fst (snd (coinbase_merge old new)) \<noteq> None"
    using assms by (intro coinbase_merge_script) (simp_all add: block_checks_def)
  then show ?thesis using assms(2)
    by (cases "br_kind new") (simp_all add: event_rollup_set_def block_checks_def)
qed

lemma event_rollup_fields [simp]:
  "br_hash (event_rollup_set old new) = br_hash new"
  "br_canonical_competitor_hash (event_rollup_set old new) = br_canonical_competitor_hash new"
  by (simp_all add: event_rollup_set_def)

lemma synthesized_hash [simp]: "br_hash (synthesized_set old new) = br_hash old"
  by (simp add: synthesized_set_def Let_def)

lemma blocks_okD:
  assumes "blocks_ok blocks" "find_block blocks h = Some r"
  shows "block_checks r" "br_hash r = h" "h \<in> keys_of blocks"
    and "br_canonical_competitor_hash r = Some c \<Longrightarrow> c \<in> keys_of blocks"
proof -
  have r: "r \<in> set blocks" "br_hash r = h" using find_block_Some [OF assms(2)] by simp_all
  then show "block_checks r" "br_hash r = h" using assms(1) by (simp_all add: blocks_ok_def)
  show "h \<in> keys_of blocks" using r unfolding keys_of_def by blast
  assume "br_canonical_competitor_hash r = Some c"
  then show "c \<in> keys_of blocks" using r(1) assms(1) unfolding blocks_ok_def by blast
qed

lemma synthesized_checks:
  assumes old: "block_checks old" "br_kind old \<noteq> BkInvalidBlock"
    and new: "block_checks new" "br_kind new = BkCanonical" "br_core_attested new"
  shows "block_checks (synthesized_set old new)"
proof -
  have "snd (snd (snd (coinbase_merge old new))) = CoinbaseComplete \<longrightarrow> fst (snd (coinbase_merge old new)) \<noteq> None"
    using assms by (intro coinbase_merge_script) (simp_all add: block_checks_def)
  then show ?thesis
    using assms
    by (cases "br_kind old")
      (auto simp: synthesized_set_def promotes_def Let_def block_checks_def coalesce_def split: option.splits)
qed

lemma synthesized_competitor:
  "br_canonical_competitor_hash (synthesized_set old new) = Some h \<Longrightarrow> br_canonical_competitor_hash old = Some h"
  by (auto simp: synthesized_set_def Let_def split: if_splits)

lemma upsert_event_rollup_ok:
  assumes ok: "blocks_ok blocks" and new: "block_checks new"
    and fk: "\<And>h. br_canonical_competitor_hash new = Some h \<Longrightarrow> h \<in> keys_of blocks"
    and w: "upsert_block_row new EventRollup blocks = Inr blocks'"
  shows "blocks_ok blocks' \<and> keys_of blocks' = insert (br_hash new) (keys_of blocks)"
proof (cases "find_block blocks (br_hash new)")
  case None
  then have "blocks' = blocks @ [new]" using w by (simp add: upsert_block_row_def result_simps)
  then show ?thesis using blocks_ok_snoc [OF ok new _ fk] None by (simp add: find_block_None)
next
  case (Some old)
  note o = blocks_okD [OF ok Some]
  have put: "blocks_ok (put_block (event_rollup_set old new) blocks)"
    by (rule blocks_ok_put [OF ok event_rollup_checks [OF o(1) new]]) (simp add: fk)
  have "blocks' = blocks \<or> blocks' = put_block (event_rollup_set old new) blocks"
    using w Some by (simp add: upsert_block_row_def result_simps split: if_splits)
  then show ?thesis using ok put insert_absorb [OF o(3)] by (elim disjE) simp_all
qed

lemma upsert_synthesized_ok:
  assumes ok: "blocks_ok blocks" and new: "block_checks new" "br_kind new = BkCanonical" "br_core_attested new"
      "br_btc_orphan_class new = None"
    and inv: "\<And>old. find_block blocks (br_hash new) = Some old \<Longrightarrow> br_kind old \<noteq> BkInvalidBlock"
    and w: "upsert_block_row new SynthesizedCore blocks = Inr blocks'"
  shows "blocks_ok blocks' \<and> keys_of blocks' = insert (br_hash new) (keys_of blocks)"
proof (cases "find_block blocks (br_hash new)")
  case None
  have "new\<lparr>br_btc_orphan_class := None\<rparr> = new" using new(4) by simp
  then have b: "blocks' = blocks @ [new]" using w None by (simp add: upsert_block_row_def result_simps)
  have "br_canonical_competitor_hash new = None" using new by (simp add: block_checks_def)
  then show ?thesis using b blocks_ok_snoc [OF ok new(1)] None by (simp add: find_block_None)
next
  case (Some old)
  note o = blocks_okD [OF ok Some]
  have put: "blocks_ok (put_block (synthesized_set old new) blocks)"
    by (rule blocks_ok_put [OF ok synthesized_checks [OF o(1) inv [OF Some] new(1-3)]])
      (rule o(4), rule synthesized_competitor)
  have "blocks' = blocks \<or> blocks' = put_block (synthesized_set old new) blocks"
    using w Some by (simp add: upsert_block_row_def result_simps split: if_splits)
  then show ?thesis using ok put insert_absorb [OF o(3)] by (elim disjE) simp_all
qed

end
