(* ===== verification/Read_Model_Invariant.thy ===== *)
theory Read_Model_Invariant
  imports Read_Model
begin

text \<open>
  What the writes of \<open>crates/mmm-read-model/src\<close> keep: the constraints of the \<open>block\<close> and
  \<open>merge_mining_event\<close> tables under every reconciliation, the coinbase evidence of a row, and the
  equivalence of the filtered upserts with the unfiltered ones.
\<close>

section \<open>Storable classifications\<close>

text \<open>\<open>chk_mme_parent_kind_consistency\<close>; whether a header meets the target is a fact of the header, so
  the events of one parent agree on it.\<close>

definition events_ok :: "event_row list \<Rightarrow> bool" where
  "events_ok events \<longleftrightarrow>
     (\<forall>e\<in>set events. er_parent_kind e \<noteq> Near \<and>
        (er_parent_kind e = Unknown \<or> er_parent_height e \<noteq> None \<and> er_pow_validates_btc_target e)) \<and>
     (\<forall>e\<in>set events. \<forall>e'\<in>set events. er_parent_hash e = er_parent_hash e' \<longrightarrow>
        er_pow_validates_btc_target e = er_pow_validates_btc_target e')"

definition storable :: "bytes set \<Rightarrow> bytes \<Rightarrow> parent_classification \<Rightarrow> bool" where
  "storable keys hash c \<longleftrightarrow>
     pk_live_observed c = pk_core_attested c \<and> pk_kind c \<noteq> Near \<and>
     (pk_kind c = Canonical \<longrightarrow> pk_height c \<noteq> None \<and> pk_height_source c \<in> {None, Some BitcoinCore}) \<and>
     (pk_kind c = Stale \<longrightarrow> pk_height c \<noteq> None \<and>
        pk_height_source c \<in> {Some BitcoinCore, Some PrevCanonical, Some PrevStale} \<and>
        (\<exists>k. pk_canonical_competitor_hash c = Some k \<and> k \<noteq> hash \<and> k \<in> keys)) \<and>
     (pk_kind c = InvalidBlock \<longrightarrow> pk_height_source c \<noteq> Some BitcoinCore)"

lemma storable_unknown: "pk_kind c = Unknown \<Longrightarrow> pk_live_observed c = pk_core_attested c \<Longrightarrow> storable keys hash c"
  by (simp add: storable_def)

lemma storable_mono: "storable keys hash c \<Longrightarrow> keys \<subseteq> keys' \<Longrightarrow> storable keys' hash c"
  unfolding storable_def by blast

lemma persisted_storable:
  assumes ok: "blocks_ok blocks" and p: "persisted_classification_from_hash E blocks hash hdr = Some c"
  shows "storable (keys_of blocks) hash c \<and> pk_canonical_predecessor_header c = None \<and>
    pk_canonical_competitor_header c = None"
proof -
  from p obtain r where r: "find_block blocks hash = Some r"
    unfolding persisted_classification_from_hash_def load_block_cascade_state_def
    by (cases "find_block blocks hash") auto
  have c: "block_checks r" by (rule blocks_okD(1) [OF ok r])
  have h: "br_hash r = hash" by (rule blocks_okD(2) [OF ok r])
  note k = blocks_okD(4) [OF ok r]
  show ?thesis
  proof (cases "br_kind r")
    case BkCanonical
    then show ?thesis using p c r
      by (auto simp: persisted_classification_from_hash_def load_block_cascade_state_def storable_def block_checks_def)
  next
    case BkStale
    then obtain w where w: "br_canonical_competitor_hash r = Some w" using c by (auto simp: block_checks_def)
    then have "w \<in> keys_of blocks" "w \<noteq> hash" using k c h by (auto simp: block_checks_def)
    then show ?thesis using p c r w BkStale
      by (auto simp: persisted_classification_from_hash_def load_block_cascade_state_def storable_def block_checks_def
          split: option.splits if_splits)
  next
    case BkInvalidBlock
    then show ?thesis using p c r
      by (auto simp: persisted_classification_from_hash_def load_block_cascade_state_def storable_def block_checks_def
          split: if_splits)
  next
    case BkUnknown
    then show ?thesis using p r by (simp add: persisted_classification_from_hash_def load_block_cascade_state_def)
  qed
qed

lemma from_event_storable:
  assumes "events_ok events" "ev \<in> set events" "classification_from_event ev hdr = Some c"
  shows "storable keys hash c \<and> pk_canonical_predecessor_header c = None \<and> pk_canonical_competitor_header c = None"
proof -
  have "er_parent_kind ev = Canonical" using assms(3) by (simp add: classification_from_event_def split: if_splits)
  moreover from this have "er_parent_height ev \<noteq> None" using assms(1,2) unfolding events_ok_def by fastforce
  ultimately show ?thesis using assms(3) by (auto simp: classification_from_event_def storable_def)
qed

lemma effective_storable:
  assumes ok: "blocks_ok blocks" "events_ok events" "ev \<in> set events"
    and c: "storable keys (er_parent_hash ev) c" "keys_of blocks \<subseteq> keys"
  shows "storable keys (er_parent_hash ev) (effective_classification E blocks ev hdr c)"
proof (cases "pk_kind c = Unknown")
  case u: True
  show ?thesis
  proof (cases "persisted_classification_from_hash E blocks (er_parent_hash ev) hdr")
    case (Some p)
    then have "effective_classification E blocks ev hdr c = p" using u by (simp add: effective_classification_def)
    then show ?thesis using storable_mono [OF conjunct1 [OF persisted_storable [OF ok(1) Some]] c(2)] by simp
  next
    case None
    show ?thesis
    proof (cases "classification_from_event ev hdr")
      case (Some p)
      then have "effective_classification E blocks ev hdr c = p"
        using u None by (simp add: effective_classification_def)
      then show ?thesis using from_event_storable [OF ok(2,3) Some] by simp
    qed (use u None c in \<open>simp add: effective_classification_def storable_unknown classification_unknown_def\<close>)
  qed
qed (use c in \<open>simp add: effective_classification_def\<close>)

text \<open>The headers written beside the event's parent are those of the given classification, or none.\<close>

definition sibling_headers :: "parent_classification \<Rightarrow> classified_header list" where
  "sibling_headers c = option_list (pk_canonical_predecessor_header c) @ option_list (pk_canonical_competitor_header c)"

lemma effective_siblings:
  assumes ok: "blocks_ok blocks" "events_ok events" "ev \<in> set events"
  shows "effective_classification E blocks ev hdr c = c \<or>
    sibling_headers (effective_classification E blocks ev hdr c) = []"
proof (cases "pk_kind c = Unknown")
  case u: True
  show ?thesis
  proof (cases "persisted_classification_from_hash E blocks (er_parent_hash ev) hdr")
    case (Some p)
    then have "effective_classification E blocks ev hdr c = p" using u by (simp add: effective_classification_def)
    then show ?thesis using persisted_storable [OF ok(1) Some] by (simp add: sibling_headers_def option_list_def)
  next
    case None
    show ?thesis
    proof (cases "classification_from_event ev hdr")
      case (Some p)
      then have "effective_classification E blocks ev hdr c = p"
        using u None by (simp add: effective_classification_def)
      then show ?thesis using from_event_storable [OF ok(2,3) Some] by (simp add: sibling_headers_def option_list_def)
    qed (use u None in \<open>simp add: effective_classification_def classification_unknown_def sibling_headers_def option_list_def\<close>)
  qed
qed (simp add: effective_classification_def)

section \<open>Events\<close>

lemma apply_event_ok:
  assumes ok: "events_ok events" "ev \<in> set events" "er_pow_validates_btc_target ev" and k: "pk_kind c \<noteq> Near"
    and a: "apply_event_classification ev c events = Inr events'"
  shows "events_ok events'"
proof -
  define f where "f e = (if er_parent_hash e = er_parent_hash ev \<and> er_revoked_at e = None \<and>
       (pk_kind c \<noteq> Unknown \<or> er_parent_kind e = Unknown \<or> er_parent_kind e = InvalidBlock)
     then e\<lparr>er_parent_kind := pk_kind c,
            er_parent_height := (if pk_kind c = Canonical \<or> pk_kind c = Stale \<or> pk_kind c = InvalidBlock then pk_height c else None),
            er_difficulty_epoch_ok := coalesce (pk_difficulty_epoch_ok c) (er_difficulty_epoch_ok e)\<rparr>
     else e)" for e :: event_row
  let ?placed = "pk_kind c = Canonical \<or> pk_kind c = Stale \<or> pk_kind c = InvalidBlock"
  have apply_f: "apply_event_classification ev c events =
      (if ?placed \<and> (if ?placed then pk_height c else None) = None then Inl (ClassificationWithoutHeight (er_id ev))
       else Inr (map f events))"
    unfolding apply_event_classification_def Let_def f_def by (rule refl)
  have no: "\<not> (?placed \<and> (if ?placed then pk_height c else None) = None)"
  proof
    assume "?placed \<and> (if ?placed then pk_height c else None) = None"
    then have "apply_event_classification ev c events = Inl (ClassificationWithoutHeight (er_id ev))"
      unfolding apply_f by (rule if_P)
    then show False using a by simp
  qed
  then have "apply_event_classification ev c events = Inr (map f events)" unfolding apply_f by (rule if_not_P)
  then have ev': "events' = map f events" using a by simp
  have placed: "pk_kind c = Unknown \<or> pk_height c \<noteq> None"
    using no k by (cases "pk_kind c") simp_all
  have same: "er_parent_hash (f e) = er_parent_hash e" "er_pow_validates_btc_target (f e) = er_pow_validates_btc_target e" for e
    by (simp_all add: f_def)
  have pow: "er_pow_validates_btc_target e" if "e \<in> set events" "er_parent_hash e = er_parent_hash ev" for e
  proof -
    have "er_pow_validates_btc_target e = er_pow_validates_btc_target ev"
      using conjunct2 [OF ok(1) [unfolded events_ok_def]] that ok(2) by blast
    then show ?thesis using ok(3) by simp
  qed
  have kinds: "er_parent_kind (f e) \<noteq> Near \<and>
      (er_parent_kind (f e) = Unknown \<or> er_parent_height (f e) \<noteq> None \<and> er_pow_validates_btc_target (f e))"
    if e: "e \<in> set events" for e
  proof (cases "er_parent_hash e = er_parent_hash ev \<and> er_revoked_at e = None \<and>
      (pk_kind c \<noteq> Unknown \<or> er_parent_kind e = Unknown \<or> er_parent_kind e = InvalidBlock)")
    case False
    then have fe: "f e = e" unfolding f_def by (rule if_not_P)
    show ?thesis unfolding fe using conjunct1 [OF ok(1) [unfolded events_ok_def]] e by (rule bspec)
  next
    case True
    then have fe: "f e = e\<lparr>er_parent_kind := pk_kind c,
        er_parent_height := (if ?placed then pk_height c else None),
        er_difficulty_epoch_ok := coalesce (pk_difficulty_epoch_ok c) (er_difficulty_epoch_ok e)\<rparr>"
      unfolding f_def by (rule if_P)
    show ?thesis unfolding fe using placed k pow [OF e conjunct1 [OF True]] by (cases "pk_kind c") simp_all
  qed
  have agree: "er_pow_validates_btc_target e = er_pow_validates_btc_target e'"
    if "e \<in> set events" "e' \<in> set events" "er_parent_hash e = er_parent_hash e'" for e e'
    using conjunct2 [OF ok(1) [unfolded events_ok_def]] that by blast
  show ?thesis unfolding ev' events_ok_def set_map ball_simps(9)
  proof (rule conjI; intro ballI)
    show "er_parent_kind (f e) \<noteq> Near \<and> (er_parent_kind (f e) = Unknown \<or>
        er_parent_height (f e) \<noteq> None \<and> er_pow_validates_btc_target (f e))" if "e \<in> set events" for e
      by (rule kinds [OF that])
    show "er_parent_hash (f e) = er_parent_hash (f e') \<longrightarrow>
        er_pow_validates_btc_target (f e) = er_pow_validates_btc_target (f e')"
      if "e \<in> set events" "e' \<in> set events" for e e'
      unfolding same by (rule impI, rule agree [OF that])
  qed
qed

section \<open>Sibling rows\<close>

definition not_invalid :: "block_row list \<Rightarrow> bytes \<Rightarrow> bool" where
  "not_invalid blocks h \<longleftrightarrow> (case find_block blocks h of Some r \<Rightarrow> br_kind r \<noteq> BkInvalidBlock | None \<Rightarrow> True)"

lemma synthesized_row_checks:
  "block_checks (synthesized_row E db h)" "br_kind (synthesized_row E db h) = BkCanonical"
  "br_core_attested (synthesized_row E db h)" "br_btc_orphan_class (synthesized_row E db h) = None"
  "br_hash (synthesized_row E db h) = ch_hash h"
  by (simp_all add: synthesized_row_def block_checks_def core_coinbase_columns_def split: option.splits)

lemma find_block_snoc:
  "find_block (blocks @ [r]) h = (case find_block blocks h of Some x \<Rightarrow> Some x | None \<Rightarrow> if br_hash r = h then Some r else None)"
  unfolding find_block_def by (induction blocks) auto

lemma find_block_put:
  "find_block (put_block r blocks) h =
     (if br_hash r = h then map_option (\<lambda>_. r) (find_block blocks h) else find_block blocks h)"
  unfolding find_block_def put_block_def by (induction blocks) auto

lemma upsert_synthesized_canonical_ok:
  assumes ok: "blocks_ok (db_blocks db)" and inv: "not_invalid (db_blocks db) (ch_hash h)"
    and w: "upsert_synthesized_canonical E h db = Inr db'"
  shows "blocks_ok (db_blocks db')" "keys_of (db_blocks db') = insert (ch_hash h) (keys_of (db_blocks db))"
    and "db_events db' = db_events db" "not_invalid (db_blocks db) x \<Longrightarrow> not_invalid (db_blocks db') x"
proof -
  let ?new = "synthesized_row E db h"
  obtain blocks' where b: "upsert_block_row ?new SynthesizedCore (db_blocks db) = Inr blocks'"
    and db': "db' = db\<lparr>db_blocks := blocks'\<rparr>"
    using w by (auto simp: upsert_synthesized_canonical_def result_simps)
  note s = synthesized_row_checks [of E db h]
  have i: "\<And>old. find_block (db_blocks db) (br_hash ?new) = Some old \<Longrightarrow> br_kind old \<noteq> BkInvalidBlock"
    using inv by (simp add: not_invalid_def s)
  show "blocks_ok (db_blocks db')" "keys_of (db_blocks db') = insert (ch_hash h) (keys_of (db_blocks db))"
    "db_events db' = db_events db"
    using upsert_synthesized_ok [OF ok s(1-4) i b] by (simp_all add: db' s)
  assume x: "not_invalid (db_blocks db) x"
  show "not_invalid (db_blocks db') x"
  proof (cases "find_block (db_blocks db) (ch_hash h)")
    case None
    then have "blocks' = db_blocks db @ [?new\<lparr>br_btc_orphan_class := None\<rparr>]"
      using b by (simp add: upsert_block_row_def result_simps s)
    then show ?thesis using x by (auto simp: db' not_invalid_def find_block_snoc s split: option.splits if_splits)
  next
    case (Some old)
    then have k: "br_hash old = ch_hash h" "br_kind (synthesized_set old ?new) \<noteq> BkInvalidBlock"
      using inv find_block_Some [OF Some] by (auto simp: synthesized_set_def Let_def not_invalid_def s)
    have "blocks' = db_blocks db \<or> blocks' = put_block (synthesized_set old ?new) (db_blocks db)"
      using b Some by (simp add: upsert_block_row_def result_simps s split: if_splits)
    then show ?thesis
      using x k by (elim disjE) (auto simp: db' not_invalid_def find_block_put split: if_splits option.splits)
  qed
qed

lemma upsert_siblings_ok:
  assumes "blocks_ok (db_blocks db)" "\<forall>h\<in>set hs. not_invalid (db_blocks db) (ch_hash h)"
    and "upsert_siblings E hs db = Inr (db', changed)"
  shows "blocks_ok (db_blocks db') \<and> keys_of (db_blocks db') = keys_of (db_blocks db) \<union> ch_hash ` set hs \<and>
    db_events db' = db_events db"
  using assms
proof (induction hs arbitrary: db changed)
  case (Cons h hs)
  obtain db1 ch1 ch2 where s: "upsert_synthesized_canonical E h db = Inr db1" "upsert_siblings E hs db1 = Inr (db', ch2)"
    using Cons.prems(3) by (auto simp: upsert_synthesized_sibling_def result_simps)
  note o = upsert_synthesized_canonical_ok [OF Cons.prems(1) _ s(1)]
  have inv: "not_invalid (db_blocks db) (ch_hash h)" using Cons.prems(2) by simp
  have "\<forall>x\<in>set hs. not_invalid (db_blocks db1) (ch_hash x)" using Cons.prems(2) o(4) [OF inv] by simp
  from Cons.IH [OF o(1) [OF inv] this s(2)] show ?case using o(2,3) [OF inv] by auto
qed simp

section \<open>The rebuilt row\<close>

lemma rebuilt_row_checks:
  assumes c: "storable keys hash c" and p: "parent_columns c = Inr columns"
  shows "block_checks (rebuilt_row E db hash rollup ev hdr c columns)"
    and "br_hash (rebuilt_row E db hash rollup ev hdr c columns) = hash"
    and "br_canonical_competitor_hash (rebuilt_row E db hash rollup ev hdr c columns) = Some k \<Longrightarrow> k \<in> keys"
proof -
  obtain kind height hs comp_hash reason where col: "columns = (kind, height, hs, comp_hash, reason)"
    by (cases columns) auto
  show "br_hash (rebuilt_row E db hash rollup ev hdr c columns) = hash"
    by (simp add: rebuilt_row_def col)
  show "k \<in> keys" if "br_canonical_competitor_hash (rebuilt_row E db hash rollup ev hdr c columns) = Some k"
    using that c p by (cases "pk_kind c") (auto simp: rebuilt_row_def col parent_columns_def storable_def split: if_splits)
  have cb: "snd (snd (snd (core_coinbase_columns x))) = CoinbaseComplete \<longrightarrow> fst (snd (core_coinbase_columns x)) \<noteq> None" for x
    by (simp add: core_coinbase_columns_def split: option.splits)
  show "block_checks (rebuilt_row E db hash rollup ev hdr c columns)"
    using c p cb [of "pk_coinbase c"]
    by (cases "pk_kind c"; cases "pk_height_source c"; cases "the (pk_height_source c)")
      (auto simp: rebuilt_row_def col parent_columns_def storable_def block_checks_def coalesce_def
        compute_block_orphan_class_def split: if_splits)
qed

lemma blocks_ok_map:
  assumes "blocks_ok blocks" "\<And>b. br_hash (f b) = br_hash b" "\<And>b. block_checks b \<Longrightarrow> block_checks (f b)"
    and fk: "\<And>b k. br_canonical_competitor_hash (f b) = Some k \<Longrightarrow> br_canonical_competitor_hash b = Some k"
  shows "blocks_ok (map f blocks)"
proof -
  have keys: "keys_of (map f blocks) = keys_of blocks" by (simp add: keys_of_def image_image assms(2))
  have hashes: "map br_hash (map f blocks) = map br_hash blocks" by (simp add: assms(2))
  show ?thesis unfolding blocks_ok_def keys hashes set_map
  proof (intro conjI ballI allI impI)
    show "distinct (map br_hash blocks)" using assms(1) by (simp add: blocks_ok_def)
    fix r assume "r \<in> f ` set blocks"
    then obtain b where b: "b \<in> set blocks" "r = f b" by blast
    then show "block_checks r" using assms(1,3) by (simp add: blocks_ok_def)
    fix k assume "br_canonical_competitor_hash r = Some k"
    then have k: "br_canonical_competitor_hash b = Some k" unfolding b(2) by (rule fk)
    show "k \<in> keys_of blocks" using assms(1) b(1) k unfolding blocks_ok_def by blast
  qed
qed

lemma demote_row_checks:
  assumes "blocks_ok (db_blocks db)"
  shows "blocks_ok (db_blocks (demote_zero_active_block E hash db))"
proof -
  let ?p = "resolve_persisted_core_coinbase_bitcoin_miner_pool_id E db hash"
  let ?f = "\<lambda>b. if br_hash b \<noteq> hash then b else
      (let core = br_core_attested b in
       b\<lparr>br_kind := (if core then br_kind b else BkUnknown),
         br_height := (if core then br_height b else None),
         br_height_source := (if core then br_height_source b else None),
         br_canonical_competitor_hash := (if core then br_canonical_competitor_hash b else None),
         br_total_attestations := 0, br_distinct_sources := (if core then 1 else 0),
         br_auxpow_chain_count := 0,
         br_bitcoin_miner_pool_id := (if core then ?p else None),
         br_pow_validated := core,
         br_difficulty_epoch_ok := (if core then br_difficulty_epoch_ok b else None),
         br_first_attested_at := None, br_last_attested_at := None,
         br_invalid_block_reason := (if core then br_invalid_block_reason b else None),
         br_btc_orphan_class := None\<rparr>)"
  have "blocks_ok (map ?f (db_blocks db))"
  proof (rule blocks_ok_map [OF assms])
    show "br_hash (?f b) = br_hash b" for b by (simp add: Let_def)
    show "block_checks b \<Longrightarrow> block_checks (?f b)" for b
      by (cases "br_core_attested b"; cases "br_kind b") (auto simp: Let_def block_checks_def)
    show "br_canonical_competitor_hash (?f b) = Some k \<Longrightarrow> br_canonical_competitor_hash b = Some k" for b k
      by (simp add: Let_def split: if_splits)
  qed
  then show ?thesis by (simp add: demote_zero_active_block_def)
qed

lemma retire_ok:
  assumes ok: "blocks_ok (db_blocks db)"
  shows "blocks_ok (db_blocks (retire_zero_active_block E hash db))"
proof (cases "find_block (db_blocks db) hash")
  case None
  then have "filter (\<lambda>b. br_hash b \<noteq> hash) (db_blocks db) = db_blocks db"
    by (auto simp: find_block_None keys_of_def filter_id_conv)
  then show ?thesis using None ok by (simp add: retire_zero_active_block_def)
next
  case (Some r)
  let ?keep = "filter (\<lambda>b. br_hash b \<noteq> hash) (db_blocks db)"
  have "blocks_ok ?keep" if n: "\<not> list_ex (\<lambda>r. br_canonical_competitor_hash r = Some hash) (db_blocks db)"
    unfolding blocks_ok_def
  proof (intro conjI ballI allI impI)
    show "distinct (map br_hash ?keep)" using ok by (simp add: blocks_ok_def distinct_map_filter)
    fix b assume b: "b \<in> set ?keep"
    then show "block_checks b" using ok by (simp add: blocks_ok_def)
    fix k assume k: "br_canonical_competitor_hash b = Some k"
    then have "k \<noteq> hash" using b n by (auto simp: list_ex_iff)
    moreover have "k \<in> keys_of (db_blocks db)" using ok b k unfolding blocks_ok_def by auto
    ultimately show "k \<in> keys_of ?keep" by (auto simp: keys_of_def)
  qed
  then show ?thesis using Some demote_row_checks [OF ok]
    by (simp add: retire_zero_active_block_def)
qed

lemma retire_events [simp]: "db_events (retire_zero_active_block E hash db) = db_events db"
  by (simp add: retire_zero_active_block_def demote_zero_active_block_def Let_def split: option.splits)

lemma representative_event:
  assumes "load_representative_active_event events hash = Inr ev"
  shows "ev \<in> set events \<and> er_parent_hash ev = hash"
proof (cases "sort_key (\<lambda>e. (er_coinbase_script e = None, anchor_key e)) (active_events events hash)")
  case Nil
  then show ?thesis using assms by (simp add: load_representative_active_event_def)
next
  case (Cons e es)
  then have "ev = e" using assms by (simp add: load_representative_active_event_def split: if_splits)
  moreover have "e \<in> set (active_events events hash)"
    using arg_cong [OF Cons, of set] unfolding set_sort by (simp add: set_eq_iff)
  ultimately show ?thesis by (simp add: active_events_def)
qed

lemma rebuild_cases:
  assumes r: "rebuild_parent_read_model E hash (Some c) db = Inr db'"
    and s: "load_parent_rollup (db_events db) hash = Some rollup"
  obtains ev hdr columns blocks where
    "load_representative_active_event (db_events db) hash = Inr ev"
    "parent_columns (effective_classification E (db_blocks db) ev hdr c) = Inr columns"
    "upsert_block_row (rebuilt_row E db hash rollup ev hdr (effective_classification E (db_blocks db) ev hdr c) columns)
        EventRollup (db_blocks db) = Inr blocks"
    "db' = db\<lparr>db_blocks := blocks\<rparr>"
proof -
  obtain ev where ev: "load_representative_active_event (db_events db) hash = Inr ev"
    using r unfolding rebuild_parent_read_model_def s by (cases "load_representative_active_event (db_events db) hash") (simp_all add: rbind_def)
  obtain hdr where hdr: "ok_or HeaderNotDecoded (deserialize_header (rm_lib E) (er_parent_header_bytes ev)) = Inr hdr"
    using r unfolding rebuild_parent_read_model_def s option.case ev rbind_def sum.case
    by (cases "ok_or HeaderNotDecoded (deserialize_header (rm_lib E) (er_parent_header_bytes ev))") simp_all
  let ?c = "effective_classification E (db_blocks db) ev hdr c"
  obtain columns where col: "parent_columns ?c = Inr columns"
    using r unfolding rebuild_parent_read_model_def s option.case ev rbind_def sum.case hdr Let_def
    by (cases "parent_columns ?c") simp_all
  obtain blocks where up: "upsert_block_row (rebuilt_row E db hash rollup ev hdr ?c columns) EventRollup (db_blocks db) = Inr blocks"
    using r unfolding rebuild_parent_read_model_def s option.case ev rbind_def sum.case hdr Let_def col
    by (cases "upsert_block_row (rebuilt_row E db hash rollup ev hdr ?c columns) EventRollup (db_blocks db)") simp_all
  have "db' = db\<lparr>db_blocks := blocks\<rparr>"
    using r unfolding rebuild_parent_read_model_def s option.case ev rbind_def sum.case hdr Let_def col up by simp
  then show thesis using that ev col up by blast
qed

lemma rebuild_ok:
  assumes ok: "blocks_ok (db_blocks db)" "events_ok (db_events db)"
    and c: "storable (keys_of (db_blocks db)) hash c"
    and r: "rebuild_parent_read_model E hash (Some c) db = Inr db'"
  shows "blocks_ok (db_blocks db') \<and> db_events db' = db_events db"
proof (cases "load_parent_rollup (db_events db) hash")
  case None
  then have "db' = retire_zero_active_block E hash db" using r by (simp add: rebuild_parent_read_model_def)
  then show ?thesis using retire_ok [OF ok(1)] by simp
next
  case (Some rollup)
  from rebuild_cases [OF r Some] obtain ev hdr columns blocks where
    ev: "load_representative_active_event (db_events db) hash = Inr ev" and
    col: "parent_columns (effective_classification E (db_blocks db) ev hdr c) = Inr columns" and
    up: "upsert_block_row (rebuilt_row E db hash rollup ev hdr (effective_classification E (db_blocks db) ev hdr c) columns)
        EventRollup (db_blocks db) = Inr blocks" and db': "db' = db\<lparr>db_blocks := blocks\<rparr>"
    by blast
  note rep = representative_event [OF ev]
  have st: "storable (keys_of (db_blocks db)) hash (effective_classification E (db_blocks db) ev hdr c)"
    using effective_storable [OF ok, of ev "keys_of (db_blocks db)" c E hdr] rep c by simp
  from upsert_event_rollup_ok [OF ok(1) rebuilt_row_checks(1) [OF st col] rebuilt_row_checks(3) [OF st col] up]
  show ?thesis by (simp add: db')
qed

section \<open>Reconciling an event\<close>

lemma write_ok:
  assumes ok: "blocks_ok (db_blocks db)" "events_ok (db_events db)"
    and ev: "ev \<in> set (db_events db)" "er_pow_validates_btc_target ev"
    and c: "storable (keys_of (db_blocks db) \<union> ch_hash ` set (sibling_headers c)) (er_parent_hash ev) c"
    and s: "\<forall>h\<in>set (sibling_headers c). not_invalid (db_blocks db) (ch_hash h)"
    and w: "write_event_classification E ev c db = Inr (db', changed)"
  shows "blocks_ok (db_blocks db') \<and> events_ok (db_events db')"
proof -
  obtain events db1 ch where
    a: "apply_event_classification ev c (db_events db) = Inr events" and
    u: "upsert_siblings E (sibling_headers c) (db\<lparr>db_events := events\<rparr>) = Inr (db1, ch)" and
    r: "rebuild_parent_read_model E (er_parent_hash ev) (Some c) db1 = Inr db'"
    using w by (auto simp: write_event_classification_def sibling_headers_def result_simps)
  have near: "pk_kind c \<noteq> Near" using c by (simp add: storable_def)
  note e = apply_event_ok [OF ok(2) ev near a]
  have b1: "blocks_ok (db_blocks db1)" "keys_of (db_blocks db1) = keys_of (db_blocks db) \<union> ch_hash ` set (sibling_headers c)"
    "db_events db1 = events"
    using upsert_siblings_ok [OF _ _ u] ok(1) s by simp_all
  from rebuild_ok [OF b1(1) _ _ r] show ?thesis using e c b1 by simp
qed

lemma verdict_storable:
  assumes v: "verdict_ok c" "pk_canonical_competitor_hash c \<noteq> Some hash"
  shows "storable (keys \<union> ch_hash ` set (sibling_headers c)) hash c"
proof -
  have "k \<in> ch_hash ` set (sibling_headers c)" if "pk_canonical_competitor_hash c = Some k" for k
  proof -
    have "map_option ch_hash (pk_canonical_competitor_header c) = Some k" using v(1) that by (simp add: verdict_ok_def)
    then show ?thesis by (auto simp: sibling_headers_def option_list_def)
  qed
  moreover have "pk_height_source c \<in> {Some BitcoinCore, Some PrevCanonical, Some PrevStale}" if "pk_kind c = Stale"
    using v(1) that by (cases "pk_height_source c"; cases "the (pk_height_source c)") (simp_all add: verdict_ok_def)
  ultimately show ?thesis using v by (cases "pk_kind c") (auto simp: storable_def verdict_ok_def)
qed

text \<open>A preclassification the reconciler can store: a verdict of the classifier that names neither the
  parent itself as its competitor nor a sibling that is recorded as an invalid block.\<close>

definition reconcilable :: "block_row list \<Rightarrow> bytes \<Rightarrow> parent_classification \<Rightarrow> bool" where
  "reconcilable blocks hash c \<longleftrightarrow> verdict_ok c \<and> pk_canonical_competitor_hash c \<noteq> Some hash \<and>
     list_all (\<lambda>h. not_invalid blocks (ch_hash h)) (sibling_headers c)"

definition no_siblings_or :: "block_row list \<Rightarrow> bytes set \<Rightarrow> bytes \<Rightarrow> parent_classification \<Rightarrow> bool" where
  "no_siblings_or blocks keys hash c \<longleftrightarrow>
     storable (keys \<union> ch_hash ` set (sibling_headers c)) hash c \<and>
     (\<forall>h\<in>set (sibling_headers c). not_invalid blocks (ch_hash h))"

lemma resolved_storable:
  assumes "resolve_parent_classification E hdr live = Inr c"
    and "\<And>l. live = Some l \<Longrightarrow> reconcilable blocks hash l"
  shows "no_siblings_or blocks keys hash c"
proof -
  have cat: "no_siblings_or blocks keys hash (classification_invalid_block hdr h InvalidBlockCatalog None r)" for h r
    by (simp add: no_siblings_or_def classification_invalid_block_def storable_def sibling_headers_def option_list_def)
  have unk: "no_siblings_or blocks keys hash (classification_unknown hdr)"
    by (simp add: no_siblings_or_def classification_unknown_def storable_def sibling_headers_def option_list_def)
  have live: "no_siblings_or blocks keys hash l" if "live = Some l" for l
    using assms(2) [OF that] verdict_storable [of l hash keys]
    by (auto simp: no_siblings_or_def reconcilable_def list_all_iff)
  show ?thesis
    using assms(1) cat unk live unfolding resolve_parent_classification_def Let_def
    by (auto split: option.splits if_splits)
qed

lemma effective_no_siblings_or:
  assumes ok: "blocks_ok blocks" "events_ok events" "ev \<in> set events"
    and c: "no_siblings_or blocks (keys_of blocks) (er_parent_hash ev) c"
  shows "no_siblings_or blocks (keys_of blocks) (er_parent_hash ev) (effective_classification E blocks ev hdr c)"
proof (cases "effective_classification E blocks ev hdr c = c")
  case False
  let ?c = "effective_classification E blocks ev hdr c"
  have s: "sibling_headers ?c = []" using effective_siblings [OF ok, of E hdr c] False by simp
  have "pk_kind c = Unknown" using False by (auto simp: effective_classification_def split: if_splits)
  then have "storable (keys_of blocks) (er_parent_hash ev) c"
    using c by (simp add: no_siblings_or_def storable_def)
  then have "storable (keys_of blocks) (er_parent_hash ev) ?c" by (rule effective_storable [OF ok]) simp
  then show ?thesis by (simp add: no_siblings_or_def s)
qed (use c in simp)

lemmas rm_defs = rm_bind_def rm_pure_def rm_core_def

lemma reconcile_cases:
  assumes ev: "load_event (db_events db) event_id = Inr ev"
    and r: "reconcile_one_event_in_txn E K event_id preclassified db s = (Inr (db', changed), s')"
  obtains "db' = db" "\<not> er_pow_validates_btc_target ev"
  | hdr c where "er_pow_validates_btc_target ev"
      "classify_event_parent E K (db_blocks db) ev (map_option pr_classification preclassified) False s = (Inr (hdr, c), s')"
      "write_event_classification E ev (effective_classification E (db_blocks db) ev hdr c) db = Inr (db', changed)"
proof (cases "er_pow_validates_btc_target ev")
  case False
  then have "db' = db" using r by (simp add: reconcile_one_event_in_txn_def rm_defs ev)
  then show thesis using that(1) False by blast
next
  case True
  have "\<not> (case Option.bind preclassified pr_expected_parent_hash of Some hash \<Rightarrow> hash \<noteq> er_parent_hash ev | None \<Rightarrow> False)"
    using r True by (auto simp: reconcile_one_event_in_txn_def rm_defs ev)
  then have r1: "rm_bind (classify_event_parent E K (db_blocks db) ev (map_option pr_classification preclassified) False) (\<lambda>(hdr, c0).
       rm_pure (write_event_classification E ev (effective_classification E (db_blocks db) ev hdr c0) db)) s =
     (Inr (db', changed), s')"
    using r True by (simp add: reconcile_one_event_in_txn_def rm_bind_def [of "rm_pure _"] rm_pure_def ev)
  obtain res s1 where m: "classify_event_parent E K (db_blocks db) ev (map_option pr_classification preclassified) False s = (res, s1)"
    by fastforce
  show thesis
  proof (cases res)
    case (Inr a)
    obtain hdr c where a: "a = (hdr, c)" by (cases a)
    show thesis using that(2) [of hdr c] True r1 m Inr a by (simp add: rm_defs)
  qed (use r1 m in \<open>simp add: rm_defs\<close>)
qed

lemma classified_event:
  assumes r: "classify_event_parent E K blocks ev pre False s = (Inr (hdr, c), s')"
    and pre: "case pre of Some p \<Rightarrow> P p | None \<Rightarrow> \<not> is_enabled K"
  shows "\<exists>live. resolve_parent_classification E hdr live = Inr c \<and> (\<forall>l. live = Some l \<longrightarrow> P l) \<and> live = pre"
proof -
  obtain h where h: "ok_or HeaderNotDecoded (deserialize_header (rm_lib E) (er_parent_header_bytes ev)) = Inr h"
    using r by (cases "ok_or HeaderNotDecoded (deserialize_header (rm_lib E) (er_parent_header_bytes ev))")
      (simp_all add: classify_event_parent_def rm_defs)
  have "rm_bind (rm_pure (resolve_parent_classification E h pre)) (\<lambda>c. rm_pure (Inr (h, c))) s = (Inr (hdr, c), s')"
    using r pre h by (cases pre) (simp_all add: classify_event_parent_def rm_defs)
  then have "resolve_parent_classification E hdr pre = Inr c"
    by (cases "resolve_parent_classification E h pre") (simp_all add: rm_defs)
  then show ?thesis using pre by (cases pre) auto
qed

lemma reconcile_ok:
  assumes ok: "blocks_ok (db_blocks db)" "events_ok (db_events db)"
    and ev: "load_event (db_events db) event_id = Inr ev"
    and pre: "case preclassified of
        Some p \<Rightarrow> reconcilable (db_blocks db) (er_parent_hash ev) (pr_classification p) | None \<Rightarrow> \<not> is_enabled K"
    and r: "reconcile_one_event_in_txn E K event_id preclassified db s = (Inr (db', changed), s')"
  shows "blocks_ok (db_blocks db') \<and> events_ok (db_events db')"
  using ev r
proof (cases rule: reconcile_cases)
  case (2 hdr c)
  have e: "ev \<in> set (db_events db)"
    using ev by (cases "List.find (\<lambda>e. er_id e = event_id) (db_events db)")
      (auto simp: load_event_def result_simps find_Some_iff)
  have pre': "case map_option pr_classification preclassified of
      Some p \<Rightarrow> reconcilable (db_blocks db) (er_parent_hash ev) p | None \<Rightarrow> \<not> is_enabled K"
    using pre by (cases preclassified) simp_all
  from classified_event [OF 2(2) pre'] have
    "no_siblings_or (db_blocks db) (keys_of (db_blocks db)) (er_parent_hash ev) c"
    by (elim exE conjE) (rule resolved_storable, assumption, blast)
  from effective_no_siblings_or [OF ok e this] write_ok [OF ok e 2(1) _ _ 2(3)] show ?thesis
    by (simp add: no_siblings_or_def)
qed (use ok in simp)

text \<open>C7: Reconciling an event keeps the constraints of both tables: every block hash once, the height, source,
  competitor and reason columns that the kind asks for, the competitor's row present and never the
  block itself, a complete coinbase with its script, the two Core flags equal, and every event of a
  placed kind with its height.  The preclassification is any verdict of the classifier that does not
  name the parent as its own competitor and whose siblings are not recorded as invalid.\<close>

theorem reconcile_keeps_constraints:
  assumes ok: "blocks_ok (db_blocks db)" "events_ok (db_events db)"
    and ev: "load_event (db_events db) event_id = Inr ev"
    and pre: "case preclassified of
        Some p \<Rightarrow> reconcilable (db_blocks db) (er_parent_hash ev) (pr_classification p) | None \<Rightarrow> \<not> is_enabled K"
    and r: "reconcile_one_event_in_txn E K event_id preclassified db s = (Inr (db', changed), s')"
  shows "blocks_ok (db_blocks db') \<and> events_ok (db_events db')"
  by (rule reconcile_ok [OF assms])

section \<open>Coinbase evidence and filtered writes\<close>

lemma coinbase_merge_keeps:
  "br_coinbase_status old = CoinbaseComplete \<Longrightarrow> snd (snd (snd (coinbase_merge old new))) = CoinbaseComplete"
  "br_coinbase_script old \<noteq> None \<Longrightarrow> fst (snd (coinbase_merge old new)) \<noteq> None"
  by (auto simp: coinbase_merge_def split: option.splits)

lemma rollup_unfiltered:
  assumes "\<not> event_rollup_where old new" "br_hash old = br_hash new"
  shows "event_rollup_set old new = old"
proof -
  note w = assms(1) [unfolded event_rollup_where_def de_Morgan_disj not_not]
  have s: "event_rollup_set old new = new\<lparr>br_coinbase_txid := br_coinbase_txid old, br_coinbase_script := br_coinbase_script old,
      br_coinbase_outputs := br_coinbase_outputs old, br_coinbase_status := br_coinbase_status old\<rparr>"
  proof -
    have m: "coinbase_of old = coinbase_merge old new" using w by (elim conjE)
    show ?thesis unfolding event_rollup_set_def m [symmetric] set_coinbase_def coinbase_of_def prod.case by (rule refl)
  qed
  show ?thesis unfolding s using w assms(2)
    by (elim conjE) (rule block_row.equality; simp)
qed

lemma put_block_same:
  assumes d: "distinct (map br_hash blocks)" and f: "find_block blocks (br_hash r) = Some r"
  shows "put_block r blocks = blocks"
  unfolding put_block_def
proof (rule map_idI)
  fix b assume b: "b \<in> set blocks"
  show "(if br_hash b = br_hash r then r else b) = b"
  proof (cases "br_hash b = br_hash r")
    case True
    from find_block_in [OF d b] have "find_block blocks (br_hash r) = Some b" unfolding True .
    then have "r = b" using f by simp
    then show ?thesis by simp
  qed simp
qed

text \<open>The conflict clause of the event rollup skips a write only when it would change nothing: the upsert is
  the unconditional one.\<close>

theorem rollup_filter_exact:
  assumes "distinct (map br_hash blocks)" "br_live_observed new = br_core_attested new"
  shows "upsert_block_row new EventRollup blocks =
    Inr (case find_block blocks (br_hash new) of
           None \<Rightarrow> blocks @ [new] | Some old \<Rightarrow> put_block (event_rollup_set old new) blocks)"
proof (cases "find_block blocks (br_hash new)")
  case (Some old)
  have h: "br_hash old = br_hash new" using find_block_Some [OF Some] by simp
  show ?thesis
  proof (cases "event_rollup_where old new")
    case False
    have e: "event_rollup_set old new = old" by (rule rollup_unfiltered [OF False h])
    have "put_block old blocks = blocks" by (rule put_block_same [OF assms(1)]) (simp add: h Some)
    then show ?thesis using False Some assms(2) e by (simp add: upsert_block_row_def ensure_live_core_lockstep_def result_simps)
  qed (use Some assms(2) in \<open>simp add: upsert_block_row_def ensure_live_core_lockstep_def result_simps\<close>)
qed (use assms(2) in \<open>simp add: upsert_block_row_def ensure_live_core_lockstep_def result_simps\<close>)

text \<open>C32: No write of a block loses its coinbase evidence: after an upsert in either mode, from events or from
  Core, and after a recorded fetch failure, a complete row is still complete and a row that had a
  script still has one.\<close>

theorem coinbase_evidence_kept:
  assumes r: "find_block blocks h = Some r"
    and w: "upsert_block_row new mode blocks = Inr blocks' \<or>
      blocks' = db_blocks (record_coinbase_failure height h' (db\<lparr>db_blocks := blocks\<rparr>))"
  shows "\<exists>r'. find_block blocks' h = Some r' \<and>
    (br_coinbase_status r = CoinbaseComplete \<longrightarrow> br_coinbase_status r' = CoinbaseComplete) \<and>
    (br_coinbase_script r \<noteq> None \<longrightarrow> br_coinbase_script r' \<noteq> None)"
  using w
proof
  assume u: "upsert_block_row new mode blocks = Inr blocks'"
  note k = coinbase_merge_keeps [of r new]
  show ?thesis
  proof (cases "br_hash new = h")
    case True
    then consider "blocks' = blocks" | "blocks' = put_block (event_rollup_set r new) blocks"
      | "blocks' = put_block (synthesized_set r new) blocks"
      using u r by (cases mode) (auto simp: upsert_block_row_def result_simps split: if_splits)
    then show ?thesis
      using r k True find_block_Some [OF r]
      by cases (simp_all add: find_block_put event_rollup_set_def synthesized_set_def Let_def)
  next
    case False
    have "find_block blocks' h = Some r"
      using u r False find_block_Some
      by (cases mode; cases "find_block blocks (br_hash new)")
        (auto simp: upsert_block_row_def result_simps find_block_snoc find_block_put split: if_splits)
    then show ?thesis by simp
  qed
next
  let ?f = "\<lambda>b. if br_height b = Some height \<and> br_hash b = h' \<and> br_coinbase_status b \<noteq> CoinbaseComplete
    then b\<lparr>br_coinbase_status := CoinbaseFailed\<rparr> else b"
  assume "blocks' = db_blocks (record_coinbase_failure height h' (db\<lparr>db_blocks := blocks\<rparr>))"
  then have b: "blocks' = map ?f blocks" by (simp add: record_coinbase_failure_def)
  have "find_block (map ?f bs) h = map_option ?f (find_block bs h)" for bs
    by (induction bs) (simp_all add: find_block_def)
  then have "find_block blocks' h = Some (?f r)" using r b by simp
  then show ?thesis by simp
qed


section \<open>Uncertain verdicts\<close>

lemma upserted_rollup:
  assumes u: "upsert_block_row new EventRollup blocks = Inr blocks'"
    and old: "find_block blocks (br_hash new) = Some old"
  shows "find_block blocks' (br_hash new) = Some (event_rollup_set old new)"
proof (cases "event_rollup_where old new")
  case True
  then have "blocks' = put_block (event_rollup_set old new) blocks"
    using u old by (simp add: upsert_block_row_def result_simps)
  then show ?thesis using old by (simp add: find_block_put)
next
  case False
  have "event_rollup_set old new = old"
    using rollup_unfiltered [OF False] find_block_Some [OF old] by simp
  moreover have "blocks' = blocks" using u old False by (simp add: upsert_block_row_def result_simps)
  ultimately show ?thesis using old by simp
qed

lemma apply_keeps_active:
  assumes "apply_event_classification ev c events = Inr events'" "active_events events hash \<noteq> []"
  shows "active_events events' hash \<noteq> []"
proof -
  define f where "f e = (if er_parent_hash e = er_parent_hash ev \<and> er_revoked_at e = None \<and>
       (pk_kind c \<noteq> Unknown \<or> er_parent_kind e = Unknown \<or> er_parent_kind e = InvalidBlock)
     then e\<lparr>er_parent_kind := pk_kind c,
            er_parent_height := (if pk_kind c = Canonical \<or> pk_kind c = Stale \<or> pk_kind c = InvalidBlock then pk_height c else None),
            er_difficulty_epoch_ok := coalesce (pk_difficulty_epoch_ok c) (er_difficulty_epoch_ok e)\<rparr>
     else e)" for e :: event_row
  have "events' = map f events"
    using assms(1) unfolding apply_event_classification_def Let_def f_def [symmetric] by (simp split: if_split_asm)
  moreover have "er_parent_hash (f e) = er_parent_hash e" "er_revoked_at (f e) = er_revoked_at e" for e
    by (simp_all add: f_def)
  ultimately have "active_events events' hash = map f (active_events events hash)"
    by (simp add: active_events_def filter_map comp_def)
  then show ?thesis using assms(2) by simp
qed

lemma persisted_columns:
  assumes ok: "blocks_ok blocks" and row: "find_block blocks hash = Some row"
    and p: "persisted_classification_from_hash E blocks hash hdr = Some c"
  shows "parent_columns c = Inr (br_kind row, br_height row, br_height_source row,
      br_canonical_competitor_hash row, br_invalid_block_reason row)"
    and "pk_kind c \<noteq> Unknown" "pk_core_attested c = br_core_attested row"
proof -
  have c: "block_checks row" by (rule blocks_okD(1) [OF ok row])
  have "parent_columns c = Inr (br_kind row, br_height row, br_height_source row,
      br_canonical_competitor_hash row, br_invalid_block_reason row) \<and> pk_kind c \<noteq> Unknown \<and>
      pk_core_attested c = br_core_attested row"
  proof (cases "br_kind row")
    case BkCanonical
    then show ?thesis using p c row
      by (auto simp: persisted_classification_from_hash_def load_block_cascade_state_def block_checks_def
          parent_columns_def coalesce_def)
  next
    case BkStale
    then obtain w where w: "br_canonical_competitor_hash row = Some w" using c by (auto simp: block_checks_def)
    then show ?thesis using p c row BkStale
      by (auto simp: persisted_classification_from_hash_def load_block_cascade_state_def block_checks_def
          parent_columns_def split: option.splits if_splits)
  next
    case BkInvalidBlock
    then show ?thesis using p c row
      by (auto simp: persisted_classification_from_hash_def load_block_cascade_state_def block_checks_def
          parent_columns_def split: if_splits)
  next
    case BkUnknown
    then show ?thesis using p row by (simp add: persisted_classification_from_hash_def load_block_cascade_state_def)
  qed
  then show "parent_columns c = Inr (br_kind row, br_height row, br_height_source row,
      br_canonical_competitor_hash row, br_invalid_block_reason row)"
    "pk_kind c \<noteq> Unknown" "pk_core_attested c = br_core_attested row" by simp_all
qed

definition same_placement :: "block_row \<Rightarrow> block_row \<Rightarrow> bool" where
  "same_placement a b \<longleftrightarrow> br_kind a = br_kind b \<and> br_height a = br_height b \<and> br_height_source a = br_height_source b \<and>
     br_canonical_competitor_hash a = br_canonical_competitor_hash b \<and>
     br_invalid_block_reason a = br_invalid_block_reason b \<and> br_core_attested a = br_core_attested b"

lemma write_persisted:
  assumes ok: "blocks_ok (db_blocks db)"
    and row: "find_block (db_blocks db) (er_parent_hash ev) = Some row"
    and p: "persisted_classification_from_hash E (db_blocks db) (er_parent_hash ev) hdr = Some q"
    and act: "active_events (db_events db) (er_parent_hash ev) \<noteq> []"
    and w: "write_event_classification E ev q db = Inr (db', changed)"
  shows "\<exists>row'. find_block (db_blocks db') (er_parent_hash ev) = Some row' \<and> same_placement row row'"
proof -
  have sib: "option_list (pk_canonical_predecessor_header q) @ option_list (pk_canonical_competitor_header q) = []"
    using persisted_storable [OF ok p] by (simp add: option_list_def)
  obtain events where
    a: "apply_event_classification ev q (db_events db) = Inr events" and
    r: "rebuild_parent_read_model E (er_parent_hash ev) (Some q) (db\<lparr>db_events := events\<rparr>) = Inr db'"
    using w unfolding write_event_classification_def sib by (auto simp: result_simps)
  have "active_events events (er_parent_hash ev) \<noteq> []" by (rule apply_keeps_active [OF a act])
  then obtain rollup where ru: "load_parent_rollup (db_events (db\<lparr>db_events := events\<rparr>)) (er_parent_hash ev) = Some rollup"
    by (simp add: load_parent_rollup_def Let_def)
  note c = persisted_columns [OF ok row p]
  have eff: "effective_classification E' bs e h q = q" for E' bs e h
    using c(2) by (simp add: effective_classification_def)
  obtain ev2 hdr2 columns blocks where
    col: "parent_columns q = Inr columns" and
    up: "upsert_block_row (rebuilt_row E (db\<lparr>db_events := events\<rparr>) (er_parent_hash ev) rollup ev2 hdr2 q columns)
        EventRollup (db_blocks db) = Inr blocks" and db': "db' = (db\<lparr>db_events := events\<rparr>)\<lparr>db_blocks := blocks\<rparr>"
    by (rule rebuild_cases [OF r ru]) (simp add: eff)
  let ?new = "rebuilt_row E (db\<lparr>db_events := events\<rparr>) (er_parent_hash ev) rollup ev2 hdr2 q columns"
  have h: "br_hash ?new = er_parent_hash ev" by (cases columns) (simp add: rebuilt_row_def)
  have "find_block blocks (br_hash ?new) = Some (event_rollup_set row ?new)"
    by (rule upserted_rollup [OF up]) (simp add: h row)
  moreover have "same_placement row (event_rollup_set row ?new)"
    using c(1,3) col by (simp add: same_placement_def event_rollup_set_def rebuilt_row_def)
  ultimately show ?thesis using h by (auto simp: db')
qed

text \<open>C31: For an active event whose parent is not in the catalogue of invalid blocks, an Unknown verdict does not
  displace what is established: when the preclassification is Unknown and the parent's row holds a
  placement that still stands, its kind, height, source, competitor, reason and Core flag come out of
  the reconciliation unchanged.  (A catalogued parent takes the catalogue's placement instead, and a
  parent whose last event is revoked is retired; neither case is meant here.)\<close>

theorem uncertain_verdict_keeps_placement:
  assumes ok: "blocks_ok (db_blocks db)"
    and ev: "load_event (db_events db) event_id = Inr ev" "er_revoked_at ev = None"
    and row: "find_block (db_blocks db) (er_parent_hash ev) = Some row"
    and hdr: "deserialize_header (rm_lib E) (er_parent_header_bytes ev) = Some hdr"
    and p: "persisted_classification_from_hash E (db_blocks db) (er_parent_hash ev) hdr \<noteq> None"
    and unknown: "pk_kind (pr_classification pre) = Unknown"
    and cat: "invalid_block_lookup (rm_catalogue E) (block_hash (rm_lib E) hdr) = None"
    and r: "reconcile_one_event_in_txn E K event_id (Some pre) db s = (Inr (db', changed), s')"
  shows "\<exists>row'. find_block (db_blocks db') (er_parent_hash ev) = Some row' \<and> same_placement row row'"
  using ev(1) r
proof (cases rule: reconcile_cases)
  case 1
  then show ?thesis using row by (simp add: same_placement_def)
next
  case (2 hdr' c)
  have c: "hdr' = hdr" "c = pr_classification pre"
    using 2(2) hdr cat by (simp_all add: classify_event_parent_def rm_defs resolve_parent_classification_def result_simps)
  obtain q where q: "persisted_classification_from_hash E (db_blocks db) (er_parent_hash ev) hdr = Some q"
    using p by blast
  have eff: "effective_classification E (db_blocks db) ev hdr' c = q"
    using q unknown by (simp add: c effective_classification_def)
  have e: "ev \<in> set (db_events db)"
    using ev(1) by (cases "List.find (\<lambda>e. er_id e = event_id) (db_events db)")
      (auto simp: load_event_def result_simps find_Some_iff)
  then have "active_events (db_events db) (er_parent_hash ev) \<noteq> []"
    using ev(2) by (auto simp: active_events_def filter_empty_conv)
  from write_persisted [OF ok row q this 2(3) [unfolded eff]] show ?thesis .
qed

section \<open>Payloads\<close>

lemma placed_proof_applies:
  assumes "pk_kind v \<noteq> Near" "pk_kind v = Unknown \<or> pk_height v \<noteq> None"
  shows "\<exists>pl'. apply_classification_proof catalogue pl (to_proof v) = Inr pl'"
proof -
  obtain kind height where I: "invalid_block_proof catalogue (ev_btc_parent_header_hash pl)
      (ev_pow_validates_btc_target pl) (to_proof v) = (kind, height)" by fastforce
  have k: "kind \<noteq> Some Near" "kind \<in> Some ` {Canonical, Stale, InvalidBlock} \<Longrightarrow> height \<noteq> None" "kind \<noteq> None"
    using I assms
    by (cases "pk_kind v"; auto simp: invalid_block_proof_def to_proof_def split: option.splits if_splits)+
  obtain k' where "classify_parent (ev_pow_validates_btc_target pl) kind height = Inr k'"
  proof (cases "ev_pow_validates_btc_target pl")
    case True
    then show thesis using k that by (cases "the kind") (auto simp: classify_parent_def)
  qed (use that in \<open>auto simp: classify_parent_def\<close>)
  then show ?thesis using I by (auto simp: apply_classification_proof_def to_proof_def)
qed

lemma resolved_placed:
  assumes "resolve_parent_classification E hdr live = Inr c" "\<And>l. live = Some l \<Longrightarrow> verdict_ok l"
  shows "pk_kind c \<noteq> Near \<and> (pk_kind c = Unknown \<or> pk_height c \<noteq> None)"
proof -
  have "pk_kind l \<noteq> Near \<and> (pk_kind l = Unknown \<or> pk_height l \<noteq> None)" if "live = Some l" for l
    using assms(2) [OF that] by (auto simp: verdict_ok_def)
  then show ?thesis
    using assms(1) unfolding resolve_parent_classification_def Let_def
    by (auto simp: classification_invalid_block_def classification_unknown_def split: option.splits if_splits)
qed

lemma resolve_errors:
  assumes "resolve_parent_classification E hdr live = Inl e"
  shows "(\<exists>h. e = CatalogueDisagrees h) \<or> (\<exists>h. e = CatalogueContradicted h)"
  using assms unfolding resolve_parent_classification_def Let_def by (auto split: option.splits if_splits)

lemma classified_payload_verdict:
  assumes "configured_classify_parent L K hdr preflight s = (Inr c, s')"
  shows "verdict_ok c"
  by (rule answersD [OF configured_verdict_ok(1) assms [unfolded configured_classify_parent_def]])

lemma rm_bind_pure: "rm_bind (rm_pure (Inr a)) f = f a" "rm_bind (rm_pure (Inl e)) f = rm_pure (Inl e)"
  by (simp_all add: rm_defs fun_eq_iff)

lemma rm_bind_error:
  assumes "rm_bind m f s = (Inl e, s')"
  obtains "m s = (Inl e, s')" | a s1 where "m s = (Inr a, s1)" "f a s1 = (Inl e, s')"
  using assms unfolding rm_bind_def by (cases "m s"; cases "fst (m s)") auto

lemma resolved_payload_errors:
  assumes t: "rm_bind (rm_pure (resolve_parent_classification E hdr live)) (\<lambda>c.
          rm_bind (rm_pure (case apply_classification_proof (rm_catalogue E) payload (to_proof c) of
                     Inl e \<Rightarrow> Inl (ProofRejected e) | Inr pl \<Rightarrow> Inr pl)) (\<lambda>payload1.
          rm_pure (Inr (payload1, Some c)))) s1 = (Inl e, s2)"
    and v: "\<And>l. live = Some l \<Longrightarrow> verdict_ok l"
  shows "(\<exists>h. e = CatalogueDisagrees h) \<or> (\<exists>h. e = CatalogueContradicted h)"
proof (cases "resolve_parent_classification E hdr live")
  case (Inr c)
  from placed_proof_applies resolved_placed [OF Inr v] obtain pl' where
    "apply_classification_proof (rm_catalogue E) payload (to_proof c) = Inr pl'" by blast
  then show ?thesis using t Inr by (simp add: rm_defs)
qed (use t resolve_errors in \<open>auto simp: rm_defs\<close>)

text \<open>Classifying a captured payload fails only for a cause outside the verdict: a header that does not
  decode, a failed call to Core, or a catalogued invalid block that Core contradicts.  The proof built
  from the verdict is never rejected.\<close>

theorem payload_classification_errors:
  assumes r: "classify_payload_parent E K blocks payload s = (Inl e, s')"
  shows "e = HeaderNotDecoded \<or> (\<exists>c. e = ClassifierError c) \<or> (\<exists>h. e = CatalogueDisagrees h) \<or>
    (\<exists>h. e = CatalogueContradicted h)"
proof (cases "ev_pow_validates_btc_target payload")
  case False
  then show ?thesis using r by (simp add: classify_payload_parent_def rm_defs)
next
  case pow: True
  show ?thesis
  proof (cases "deserialize_header (rm_lib E) (ev_btc_parent_header_bytes payload)")
    case None
    then show ?thesis using r pow by (simp add: classify_payload_parent_def rm_defs result_simps)
  next
    case (Some hdr)
    let ?tail = "\<lambda>live. rm_bind (rm_pure (resolve_parent_classification E hdr live)) (\<lambda>c.
          rm_bind (rm_pure (case apply_classification_proof (rm_catalogue E) payload (to_proof c) of
                     Inl e \<Rightarrow> Inl (ProofRejected e) | Inr pl \<Rightarrow> Inr pl)) (\<lambda>payload1.
          rm_pure (Inr (payload1, Some c))))"
    have body: "classify_payload_parent E K blocks payload =
      (if \<not> is_enabled K \<and> invalid_block_lookup (rm_catalogue E) (ev_btc_parent_header_hash payload) = None
       then rm_pure (Inr (payload, None))
       else rm_bind (if is_enabled K then
               rm_bind (rm_core (configured_classify_parent (rm_lib E) K hdr
                          (load_parent_preflight blocks (ev_btc_parent_prev_header_hash payload))))
                 (\<lambda>c. rm_pure (Inr (Some c)))
             else rm_pure (Inr None)) ?tail)"
      using pow Some by (simp only: classify_payload_parent_def ok_or_simps rm_bind_pure not_True_eq_False if_False)
    show ?thesis
    proof (cases "is_enabled K")
      case False
      then have "?tail None s = (Inl e, s')"
        using r unfolding body by (cases "invalid_block_lookup (rm_catalogue E) (ev_btc_parent_header_hash payload)")
          (simp_all only: False rm_bind_pure not_False_eq_True if_True if_False simp_thms option.distinct rm_pure_def prod.inject sum.distinct)
      then have "(\<exists>h. e = CatalogueDisagrees h) \<or> (\<exists>h. e = CatalogueContradicted h)" by (rule resolved_payload_errors) simp
      then show ?thesis by blast
    next
      case True
      then have "rm_bind (rm_bind (rm_core (configured_classify_parent (rm_lib E) K hdr
            (load_parent_preflight blocks (ev_btc_parent_prev_header_hash payload))))
          (\<lambda>c. rm_pure (Inr (Some c)))) ?tail s = (Inl e, s')"
      proof -
        have i: "(if is_enabled K then A else B) = A" for A B :: "('a, parent_classification option) rm_io" using True by (rule if_P)
        have j: "(if \<not> is_enabled K \<and> X then A else B) = B" for X and A B :: "('a, merge_mining_event_payload \<times> parent_classification option) rm_io"
          using True by simp
        from r show ?thesis unfolding body i j .
      qed
      then show ?thesis
      proof (rule rm_bind_error)
        assume "rm_bind (rm_core (configured_classify_parent (rm_lib E) K hdr
            (load_parent_preflight blocks (ev_btc_parent_prev_header_hash payload))))
          (\<lambda>c. rm_pure (Inr (Some c))) s = (Inl e, s')"
        then show ?thesis by (rule rm_bind_error) (auto simp: rm_core_def rm_pure_def split: prod.splits sum.splits)
      next
        fix a s1 assume m: "rm_bind (rm_core (configured_classify_parent (rm_lib E) K hdr
            (load_parent_preflight blocks (ev_btc_parent_prev_header_hash payload))))
          (\<lambda>c. rm_pure (Inr (Some c))) s = (Inr a, s1)" and t: "?tail a s1 = (Inl e, s')"
        have v: "verdict_ok l" if "a = Some l" for l
          using m that classified_payload_verdict [of "rm_lib E" K hdr]
          by (auto simp: rm_defs split: prod.splits sum.splits)
        have "(\<exists>h. e = CatalogueDisagrees h) \<or> (\<exists>h. e = CatalogueContradicted h)" by (rule resolved_payload_errors [OF t v])
        then show ?thesis by blast
      qed
    qed
  qed
qed

section \<open>A concrete database\<close>

definition demo_parent :: header where "demo_parent = Parent_Classifier.demo_chain 15"

definition demo_env :: read_model_env where
  "demo_env = \<lparr>rm_lib = demo_node_lib, rm_catalogue = [], rm_resolver = demo_resolver, rm_nbits = demo_table\<rparr>"

definition demo_capture :: event_row where
  "demo_capture = \<lparr>er_id = 7, er_source_id = 1, er_chain = None, er_source_is_auxpow = True, er_child_height = Some 3,
     er_parent_hash = demo_node_hash 15, er_parent_prev_hash = demo_node_hash 14,
     er_parent_header_bytes = demo_header_bytes demo_parent, er_parent_header_time = 150, er_parent_height = None,
     er_parent_kind = Unknown, er_pow_validates_btc_target = True, er_difficulty_epoch_ok = None,
     er_coinbase_script = None, er_coinbase_outputs = None, er_coinbase_tx_bytes = None, er_discovered_at = 1,
     er_confirmed_at = 2, er_revoked_at = None, er_relevance_reasons = []\<rparr>"

definition demo_rival :: classified_header where
  "demo_rival = \<lparr>ch_hash = demo_node_hash 16, ch_prev_hash = demo_node_hash 14, ch_header = demo_parent,
     ch_height = 15, ch_coinbase = None, ch_coinbase_unavailable = False\<rparr>"

definition demo_empty :: database where
  "demo_empty = \<lparr>db_blocks = [], db_events = [demo_capture], db_known_stale = [], db_pool_ids = Map.empty\<rparr>"

definition demo_stale :: parent_classification where
  "demo_stale = classify_core_stale_header demo_node_lib demo_parent 15 (Some demo_rival) None"

definition demo_canonical_header :: classified_header where
  "demo_canonical_header = demo_rival\<lparr>ch_hash := demo_node_hash 15,
     ch_coinbase := Some \<lparr>cb_txid = [1], cb_script = [2], cb_outputs = [3]\<rparr>\<rparr>"

definition demo_row :: block_row where
  "demo_row = synthesized_row demo_env demo_empty demo_canonical_header"

definition demo_run :: "parent_classification \<Rightarrow> block_row list \<Rightarrow> (database \<times> bytes list) option" where
  "demo_run c blocks = result_ok (fst (reconcile_one_event_in_txn demo_env (ClassifierOff :: unit configured_classifier) 7
     (Some (trusted c)) (demo_empty\<lparr>db_blocks := blocks\<rparr>) ()))"

lemma demo_run_call:
  assumes "demo_run c blocks = Some (db', ch)"
  shows "reconcile_one_event_in_txn demo_env (ClassifierOff :: unit configured_classifier) 7 (Some (trusted c))
    (demo_empty\<lparr>db_blocks := blocks\<rparr>) () = (Inr (db', ch), ())"
  using assms unfolding demo_run_def result_ok_def
  by (cases "reconcile_one_event_in_txn demo_env (ClassifierOff :: unit configured_classifier) 7 (Some (trusted c))
    (demo_empty\<lparr>db_blocks := blocks\<rparr>) ()") (auto split: sum.splits)

lemma demo_stale_run:
  "map_option (\<lambda>(db, ch). map br_kind (db_blocks db)) (demo_run demo_stale []) = Some [BkCanonical, BkStale]"
  by code_simp

lemma demo_unknown_run:
  "map_option (\<lambda>(db, ch). map br_kind (db_blocks db)) (demo_run (classification_unknown demo_parent) [demo_row]) = Some [BkCanonical]"
  by code_simp

lemma demo_row_ok: "blocks_ok [demo_row]"
proof -
  note c = synthesized_row_checks [of demo_env demo_empty demo_canonical_header, folded demo_row_def]
  then have "br_canonical_competitor_hash demo_row = None" by (simp add: block_checks_def)
  then show ?thesis using c(1) by (simp add: blocks_ok_def)
qed

lemma demo_events_ok: "events_ok [demo_capture]"
  by (simp add: events_ok_def demo_capture_def)

lemma demo_stale_reconcilable: "reconcilable [] (demo_node_hash 15) demo_stale"
  by code_simp

lemma demo_found: "load_event [demo_capture] 7 = Inr demo_capture"
  by (simp add: load_event_def demo_capture_def)

theorem reconcile_keeps_constraints_witness:
  "\<exists>db' ch. demo_run demo_stale [] = Some (db', ch) \<and> blocks_ok (db_blocks db') \<and> events_ok (db_events db') \<and>
     map br_kind (db_blocks db') = [BkCanonical, BkStale]"
proof -
  obtain db' ch where r: "demo_run demo_stale [] = Some (db', ch)" "map br_kind (db_blocks db') = [BkCanonical, BkStale]"
    using demo_stale_run by (auto simp: map_option_eq_Some)
  have f: "load_event (db_events (demo_empty\<lparr>db_blocks := []\<rparr>)) 7 = Inr demo_capture"
    using demo_found by (simp add: demo_empty_def)
  have h: "er_parent_hash demo_capture = demo_node_hash 15" by (simp add: demo_capture_def)
  have "blocks_ok (db_blocks db') \<and> events_ok (db_events db')"
    by (rule reconcile_keeps_constraints [OF _ _ f _ demo_run_call [OF r(1)]])
      (use demo_events_ok demo_stale_reconcilable in \<open>simp_all add: demo_empty_def blocks_ok_def h trusted_def\<close>)
  then show ?thesis using r by simp
qed

theorem rollup_filter_exact_witness:
  "upsert_block_row demo_row EventRollup [demo_row] = Inr (put_block (event_rollup_set demo_row demo_row) [demo_row])"
proof -
  have "br_live_observed demo_row = br_core_attested demo_row" using demo_row_ok by (simp add: blocks_ok_def block_checks_def)
  from rollup_filter_exact [OF _ this, of "[demo_row]"] show ?thesis by (simp add: find_block_def)
qed

theorem coinbase_evidence_kept_witness:
  "\<exists>r'. find_block [demo_row\<lparr>br_kind := BkCanonical\<rparr>] (demo_node_hash 15) = Some r' \<and>
     br_coinbase_status r' = CoinbaseComplete \<and> br_coinbase_script r' \<noteq> None"
proof -
  have h: "br_hash demo_row = demo_node_hash 15" "br_kind demo_row = BkCanonical"
    by (simp_all add: demo_row_def synthesized_row_checks demo_canonical_header_def)
  have s: "br_coinbase_status demo_row = CoinbaseComplete" "br_coinbase_script demo_row = Some [2]"
    by (simp_all add: demo_row_def synthesized_row_def core_coinbase_columns_def demo_canonical_header_def)
  have f: "find_block [demo_row] (demo_node_hash 15) = Some demo_row" by (simp add: find_block_def h)
  have "db_blocks (record_coinbase_failure 15 (demo_node_hash 15) (demo_empty\<lparr>db_blocks := [demo_row]\<rparr>)) =
      [demo_row\<lparr>br_kind := BkCanonical\<rparr>]"
    using s h(2) by (simp add: record_coinbase_failure_def)
  from coinbase_evidence_kept [OF f disjI2 [OF this [symmetric]]] s show ?thesis by auto
qed

theorem uncertain_verdict_keeps_placement_witness:
  "\<exists>db' ch row'. demo_run (classification_unknown demo_parent) [demo_row] = Some (db', ch) \<and>
     find_block (db_blocks db') (demo_node_hash 15) = Some row' \<and> same_placement demo_row row'"
proof -
  obtain db' ch where r: "demo_run (classification_unknown demo_parent) [demo_row] = Some (db', ch)"
    using demo_unknown_run by (auto simp: map_option_eq_Some)
  have hash: "br_hash demo_row = demo_node_hash 15"
    by (simp add: demo_row_def synthesized_row_checks demo_canonical_header_def)
  have kind: "br_kind demo_row = BkCanonical" by (simp add: demo_row_def synthesized_row_checks)
  have f: "load_event (db_events (demo_empty\<lparr>db_blocks := [demo_row]\<rparr>)) 7 = Inr demo_capture"
    using demo_found by (simp add: demo_empty_def)
  have ev: "er_revoked_at demo_capture = None" "er_parent_hash demo_capture = demo_node_hash 15"
    by (simp_all add: demo_capture_def)
  have hdr: "deserialize_header (rm_lib demo_env) (er_parent_header_bytes demo_capture) = Some demo_parent" by code_simp
  have row: "find_block (db_blocks (demo_empty\<lparr>db_blocks := [demo_row]\<rparr>)) (er_parent_hash demo_capture) = Some demo_row"
    by (simp add: find_block_def hash ev)
  have p: "persisted_classification_from_hash demo_env (db_blocks (demo_empty\<lparr>db_blocks := [demo_row]\<rparr>))
      (er_parent_hash demo_capture) demo_parent \<noteq> None"
    using row kind by (simp add: persisted_classification_from_hash_def load_block_cascade_state_def)
  from uncertain_verdict_keeps_placement [OF _ f ev(1) row hdr p _ _ demo_run_call [OF r]] demo_row_ok r
  show ?thesis by (simp add: ev trusted_def classification_unknown_def demo_env_def invalid_block_lookup_def)
qed

definition demo_undecoded :: "merge_mining_event_payload \<Rightarrow> merge_mining_event_payload" where
  "demo_undecoded pl = pl\<lparr>ev_btc_parent_header_bytes := [], ev_pow_validates_btc_target := True\<rparr>"

lemma demo_undecoded_error:
  "classify_payload_parent demo_env (ClassifierOff :: unit configured_classifier) [] (demo_undecoded pl) () =
    (Inl HeaderNotDecoded, ())"
  by (simp add: classify_payload_parent_def demo_undecoded_def rm_defs demo_env_def demo_node_lib_def demo_lib_def
      demo_header_def)

theorem payload_classification_errors_witness:
  "\<exists>e pl. classify_payload_parent demo_env (ClassifierOff :: unit configured_classifier) [] (demo_undecoded pl) () = (Inl e, ()) \<and>
    (e = HeaderNotDecoded \<or> (\<exists>c. e = ClassifierError c) \<or> (\<exists>h. e = CatalogueDisagrees h) \<or>
     (\<exists>h. e = CatalogueContradicted h))"
  using demo_undecoded_error payload_classification_errors [OF demo_undecoded_error] by blast

section \<open>Siblings recorded as invalid\<close>

definition demo_invalid_row :: block_row where
  "demo_invalid_row = demo_row\<lparr>br_hash := demo_node_hash 16, br_kind := BkInvalidBlock,
     br_height_source := Some InvalidBlockCatalog, br_invalid_block_reason := Some time_below_mtp,
     br_live_observed := False, br_core_attested := False\<rparr>"

lemma promoted_invalid_row:
  assumes row: "find_block (db_blocks db) (ch_hash h) = Some row" "br_kind row = BkInvalidBlock"
    and w: "upsert_synthesized_canonical E h db = Inr db'"
  shows "\<exists>row'. find_block (db_blocks db') (ch_hash h) = Some row' \<and> br_kind row' = BkCanonical \<and>
    (br_invalid_block_reason row \<noteq> None \<longrightarrow> br_invalid_block_reason row' = br_invalid_block_reason row)"
proof -
  let ?new = "synthesized_row E db h"
  note s = synthesized_row_checks [of E db h]
  have p: "promotes row ?new" using row(2) by (simp add: promotes_def s)
  then have w': "synthesized_where row ?new" by (simp add: synthesized_where_def)
  have "db_blocks db' = put_block (synthesized_set row ?new) (db_blocks db)"
    using w row(1) w' by (auto simp: upsert_synthesized_canonical_def upsert_block_row_def result_simps s)
  moreover have "br_hash (synthesized_set row ?new) = ch_hash h"
    using find_block_Some [OF row(1)] by (simp add: synthesized_set_def Let_def)
  ultimately have "find_block (db_blocks db') (ch_hash h) = Some (synthesized_set row ?new)"
    using row(1) by (simp add: find_block_put)
  moreover have "br_kind (synthesized_set row ?new) = BkCanonical"
    "br_invalid_block_reason (synthesized_set row ?new) = coalesce (br_invalid_block_reason row) (br_invalid_block_reason ?new)"
    using p by (simp_all add: synthesized_set_def Let_def s)
  ultimately show ?thesis by (auto simp: coalesce_def)
qed

lemma synthesized_upsert_returns: "\<exists>db'. upsert_synthesized_canonical E h db = Inr db'"
proof -
  have "br_live_observed (synthesized_row E db h) = br_core_attested (synthesized_row E db h)"
    using synthesized_row_checks(1) [of E db h] by (simp add: block_checks_def)
  then show ?thesis
    by (simp add: upsert_synthesized_canonical_def upsert_block_row_def ensure_live_core_lockstep_def result_simps ensure_def)
qed

text \<open>C33: Writing a header of Core's chain into a table that satisfies its constraints keeps them exactly when the
  block is not recorded as invalid.  A row recorded as invalid that Core has since accepted becomes
  Canonical but keeps its reason, which \<open>chk_block_invalid_block_reason\<close> refuses.\<close>

theorem promoted_invalid_row_keeps_reason:
  assumes ok: "blocks_ok (db_blocks db)"
  shows "\<exists>db'. upsert_synthesized_canonical E h db = Inr db' \<and>
    (blocks_ok (db_blocks db') \<longleftrightarrow>
       (case find_block (db_blocks db) (ch_hash h) of Some row \<Rightarrow> br_kind row \<noteq> BkInvalidBlock | None \<Rightarrow> True)) \<and>
    (\<forall>row. find_block (db_blocks db) (ch_hash h) = Some row \<and> br_kind row = BkInvalidBlock \<longrightarrow>
       (\<exists>row'. find_block (db_blocks db') (ch_hash h) = Some row' \<and> br_kind row' = BkCanonical \<and>
          br_invalid_block_reason row' = br_invalid_block_reason row \<and> br_invalid_block_reason row \<noteq> None))"
proof -
  obtain db' where w: "upsert_synthesized_canonical E h db = Inr db'" using synthesized_upsert_returns by blast
  have kept: "\<exists>row'. find_block (db_blocks db') (ch_hash h) = Some row' \<and> br_kind row' = BkCanonical \<and>
      br_invalid_block_reason row' = br_invalid_block_reason row \<and> br_invalid_block_reason row \<noteq> None"
    if row: "find_block (db_blocks db) (ch_hash h) = Some row" "br_kind row = BkInvalidBlock" for row
  proof -
    have "block_checks row" using ok find_block_Some [OF row(1)] by (auto simp: blocks_ok_def)
    then have "br_invalid_block_reason row \<noteq> None" using row(2) by (simp add: block_checks_def)
    with promoted_invalid_row [OF row w] show ?thesis by blast
  qed
  have "\<not> blocks_ok (db_blocks db')"
    if row: "find_block (db_blocks db) (ch_hash h) = Some row" "br_kind row = BkInvalidBlock" for row
  proof
    assume "blocks_ok (db_blocks db')"
    with kept [OF row] obtain row' where r: "block_checks row'" "br_kind row' = BkCanonical" "br_invalid_block_reason row' \<noteq> None"
      using find_block_Some unfolding blocks_ok_def by metis
    then show False by (simp add: block_checks_def)
  qed
  moreover have "blocks_ok (db_blocks db')" if "not_invalid (db_blocks db) (ch_hash h)"
    using upsert_synthesized_canonical_ok(1) [OF ok that w] .
  ultimately have "blocks_ok (db_blocks db') \<longleftrightarrow> not_invalid (db_blocks db) (ch_hash h)"
    by (auto simp: not_invalid_def split: option.splits)
  with w kept show ?thesis unfolding not_invalid_def by blast
qed

theorem promoted_invalid_row_keeps_reason_witness:
  "\<exists>db'. upsert_synthesized_canonical demo_env demo_rival (demo_empty\<lparr>db_blocks := [demo_invalid_row]\<rparr>) = Inr db' \<and>
     \<not> blocks_ok (db_blocks db')"
proof -
  have "block_checks demo_invalid_row" "br_canonical_competitor_hash demo_invalid_row = None"
    "find_block [demo_invalid_row] (ch_hash demo_rival) \<noteq> None"
    "map_option br_kind (find_block [demo_invalid_row] (ch_hash demo_rival)) = Some BkInvalidBlock"
    by code_simp+
  note d = this
  have "blocks_ok (db_blocks (demo_empty\<lparr>db_blocks := [demo_invalid_row]\<rparr>))"
    using d(1,2) by (simp add: blocks_ok_def)
  from promoted_invalid_row_keeps_reason [OF this, of demo_env demo_rival] d(3,4) show ?thesis
    by (auto split: option.splits)
qed

end
