(* ===== verification/Reconcile_Queue.thy ===== *)
theory Reconcile_Queue
  imports Read_Model_Invariant
begin

text \<open>
  The cascade of \<open>crates/mmm-read-model/src/reconcile.rs\<close>: reconciling an event or a block in its own
  transaction, with the retries after a changed lock set, and draining the breadth-first queue of the
  rows that depend on a change.  Every item commits on its own, so a failed drain keeps the items before
  it.
\<close>

section \<open>One item\<close>

definition reconcile_lock_set_retry_limit :: nat where "reconcile_lock_set_retry_limit = 3"

definition preclassify_event_parent_with_policy ::
  "read_model_env \<Rightarrow> 's configured_classifier \<Rightarrow> int \<Rightarrow> bool \<Rightarrow> database \<Rightarrow> ('s, preclassified_parent option) rm_io" where
  "preclassify_event_parent_with_policy E K event_id strict_core_errors db =
     rm_bind (rm_pure (load_event (db_events db) event_id)) (\<lambda>ev.
     if \<not> er_pow_validates_btc_target ev then rm_pure (Inr None)
     else if invalid_block_lookup (rm_catalogue E) (er_parent_hash ev) = None \<and> \<not> is_enabled K
     then rm_pure (Inr None)
     else rm_bind (classify_event_parent E K (db_blocks db) ev None strict_core_errors) (\<lambda>(hdr, c).
       rm_pure (Inr (Some (for_event ev c strict_core_errors)))))"

text \<open>The attempts, by the number of retries left; a failed attempt is rolled back.\<close>

fun reconcile_attempts ::
  "read_model_env \<Rightarrow> 's configured_classifier \<Rightarrow> int \<Rightarrow> preclassified_parent option \<Rightarrow> bool \<Rightarrow> nat \<Rightarrow> database \<Rightarrow>
     ('s, database \<times> bytes list) rm_io" where
  "reconcile_attempts E K event_id preclassified strict retries db s =
     (case (if \<not> is_enabled K then rm_pure (Inr preclassified)
            else preclassify_event_parent_with_policy E K event_id strict db) s of
        (Inl e, s1) \<Rightarrow> (Inl e, s1)
      | (Inr attempt, s1) \<Rightarrow>
          (case reconcile_one_event_in_txn E K event_id attempt db s1 of
             (Inr r, s2) \<Rightarrow> (Inr r, s2)
           | (Inl (LockSetChanged i), s2) \<Rightarrow>
               (case retries of
                  Suc n \<Rightarrow> reconcile_attempts E K event_id preclassified strict n db s2
                | 0 \<Rightarrow> (Inl (LockSetChanged i), s2))
           | (Inl e, s2) \<Rightarrow> (Inl e, s2)))"

definition reconcile_one_event_with_policy ::
  "read_model_env \<Rightarrow> 's configured_classifier \<Rightarrow> int \<Rightarrow> preclassified_parent option \<Rightarrow> bool \<Rightarrow> database \<Rightarrow>
     ('s, database \<times> bytes list) rm_io" where
  "reconcile_one_event_with_policy E K event_id preclassified strict db =
     reconcile_attempts E K event_id preclassified strict (reconcile_lock_set_retry_limit - 1) db"

definition reconcile_one_event ::
  "read_model_env \<Rightarrow> 's configured_classifier \<Rightarrow> int \<Rightarrow> preclassified_parent option \<Rightarrow> database \<Rightarrow>
     ('s, database \<times> bytes list) rm_io" where
  "reconcile_one_event E K event_id preclassified db =
     reconcile_one_event_with_policy E K event_id preclassified
       (case preclassified of Some p \<Rightarrow> pr_strict_core_errors p | None \<Rightarrow> False) db"

definition reconcile_one_block_with_policy ::
  "read_model_env \<Rightarrow> 's configured_classifier \<Rightarrow> bytes \<Rightarrow> bool \<Rightarrow> database \<Rightarrow> ('s, database \<times> bytes list) rm_io" where
  "reconcile_one_block_with_policy E K hash strict db =
     (case find_anchor_event_for_block (db_events db) hash of
        Some event_id \<Rightarrow> reconcile_one_event_with_policy E K event_id None strict db
      | None \<Rightarrow>
          rm_bind (rm_pure (rebuild_parent_read_model E hash None db)) (\<lambda>db1.
          rm_pure (Inr (db1, if load_block_cascade_state (db_blocks db) hash \<noteq> load_block_cascade_state (db_blocks db1) hash
                             then [hash] else []))))"

definition reconcile_one_block ::
  "read_model_env \<Rightarrow> 's configured_classifier \<Rightarrow> bytes \<Rightarrow> database \<Rightarrow> ('s, database \<times> bytes list) rm_io" where
  "reconcile_one_block E K hash db = reconcile_one_block_with_policy E K hash False db"

section \<open>Dependents\<close>

definition find_child_events :: "event_row list \<Rightarrow> bytes \<Rightarrow> int list" where
  "find_child_events events hash = map er_id (sort_key anchor_key
     (filter (\<lambda>e. er_parent_prev_hash e = hash \<and> er_pow_validates_btc_target e \<and> er_revoked_at e = None) events))"

definition find_derived_child_blocks :: "block_row list \<Rightarrow> bytes \<Rightarrow> bytes list" where
  "find_derived_child_blocks blocks hash = map br_hash (sort_key
     (\<lambda>r. (br_height r = None, case br_height r of Some h \<Rightarrow> h | None \<Rightarrow> 0, br_hash r))
     (filter (\<lambda>r. br_prev_hash r = hash) blocks))"

definition find_stale_competitor_dependents :: "block_row list \<Rightarrow> bytes \<Rightarrow> bytes list" where
  "find_stale_competitor_dependents blocks hash = sort (map br_hash
     (filter (\<lambda>r. br_kind r = BkStale \<and> br_canonical_competitor_hash r = Some hash) blocks))"

datatype reconcile_work = EventWork int "preclassified_parent option" | StrictEventWork int | BlockWork bytes

record reconcile_stats =
  rs_parents_reconciled :: nat
  rs_descendants_reconciled :: nat

definition dependents :: "database \<Rightarrow> int list \<Rightarrow> bytes list \<Rightarrow> bytes \<Rightarrow> reconcile_work list" where
  "dependents db visited_events visited_blocks hash =
     map (\<lambda>i. EventWork i None) (filter (\<lambda>i. \<not> List.member visited_events i) (find_child_events (db_events db) hash)) @
     map BlockWork (filter (\<lambda>h. \<not> List.member visited_blocks h) (find_derived_child_blocks (db_blocks db) hash)) @
     map BlockWork (filter (\<lambda>h. \<not> List.member visited_blocks h) (find_stale_competitor_dependents (db_blocks db) hash))"

definition enqueue_dependents ::
  "database \<Rightarrow> int list \<Rightarrow> bytes list \<Rightarrow> bytes \<Rightarrow> reconcile_work list \<times> reconcile_stats \<Rightarrow> reconcile_work list \<times> reconcile_stats" where
  "enqueue_dependents db visited_events visited_blocks hash = (\<lambda>(queue, stats).
     let found = dependents db visited_events visited_blocks hash in
     (queue @ found, stats\<lparr>rs_descendants_reconciled := rs_descendants_reconciled stats + length found\<rparr>))"

section \<open>The queue\<close>

datatype cascade_error =
  CascadeBudgetExhausted nat | ItemFailed read_model_error | ClassifierRequired | NoActiveParent bytes

definition already_visited :: "int list \<Rightarrow> bytes list \<Rightarrow> reconcile_work \<Rightarrow> bool" where
  "already_visited visited_events visited_blocks work =
     (case work of EventWork i _ \<Rightarrow> List.member visited_events i | StrictEventWork i \<Rightarrow> List.member visited_events i
      | BlockWork h \<Rightarrow> List.member visited_blocks h)"

definition visit :: "reconcile_work \<Rightarrow> int list \<times> bytes list \<Rightarrow> int list \<times> bytes list" where
  "visit work = (\<lambda>(visited_events, visited_blocks).
     case work of EventWork i _ \<Rightarrow> (i # visited_events, visited_blocks)
     | StrictEventWork i \<Rightarrow> (i # visited_events, visited_blocks)
     | BlockWork h \<Rightarrow> (visited_events, h # visited_blocks))"

definition run_work ::
  "read_model_env \<Rightarrow> 's configured_classifier \<Rightarrow> reconcile_work \<Rightarrow> database \<Rightarrow> ('s, database \<times> bytes list) rm_io" where
  "run_work E K work db =
     (case work of EventWork i pre \<Rightarrow> reconcile_one_event E K i pre db
      | StrictEventWork i \<Rightarrow> reconcile_one_event_with_policy E K i None True db
      | BlockWork h \<Rightarrow> reconcile_one_block E K h db)"

definition budget_reached :: "nat option \<Rightarrow> reconcile_stats \<Rightarrow> bool" where
  "budget_reached budget stats = (case budget of Some b \<Rightarrow> b \<le> rs_parents_reconciled stats | None \<Rightarrow> False)"

definition default_cascade_budget :: nat where "default_cascade_budget = 10000"

definition budget_error :: "nat option \<Rightarrow> cascade_error" where
  "budget_error budget = CascadeBudgetExhausted (case budget of Some b \<Rightarrow> b | None \<Rightarrow> default_cascade_budget)"

partial_function (option) drain_loop ::
  "read_model_env \<Rightarrow> 's configured_classifier \<Rightarrow> nat option \<Rightarrow> reconcile_work list \<Rightarrow> int list \<Rightarrow> bytes list \<Rightarrow>
     reconcile_stats \<Rightarrow> database \<Rightarrow> 's \<Rightarrow> ((cascade_error, reconcile_stats) result \<times> database \<times> 's) option" where
  "drain_loop E K budget queue visited_events visited_blocks stats db s =
     (case queue of
        [] \<Rightarrow> Some (Inr stats, db, s)
      | work # rest \<Rightarrow>
          if budget_reached budget stats then Some (Inl (budget_error budget), db, s)
          else if already_visited visited_events visited_blocks work
          then drain_loop E K budget rest visited_events visited_blocks stats db s
          else
            (case run_work E K work db s of
               (Inl e, s1) \<Rightarrow> Some (Inl (ItemFailed e), db, s1)
             | (Inr (db1, changed_hashes), s1) \<Rightarrow>
                 let (visited_events1, visited_blocks1) = visit work (visited_events, visited_blocks);
                     (queue1, stats1) = fold (enqueue_dependents db1 visited_events1 visited_blocks1) changed_hashes
                       (rest, stats\<lparr>rs_parents_reconciled := rs_parents_reconciled stats + 1\<rparr>)
                 in drain_loop E K budget queue1 visited_events1 visited_blocks1 stats1 db1 s1))"

definition drain_reconcile_queue ::
  "read_model_env \<Rightarrow> 's configured_classifier \<Rightarrow> nat option \<Rightarrow> reconcile_work list \<Rightarrow> database \<Rightarrow> 's \<Rightarrow>
     ((cascade_error, reconcile_stats) result \<times> database \<times> 's) option" where
  "drain_reconcile_queue E K budget queue db s =
     drain_loop E K budget queue [] [] \<lparr>rs_parents_reconciled = 0, rs_descendants_reconciled = 0\<rparr> db s"

definition reconcile_dependents_after_changes_with_budget ::
  "read_model_env \<Rightarrow> 's configured_classifier \<Rightarrow> bytes list \<Rightarrow> nat \<Rightarrow> database \<Rightarrow> 's \<Rightarrow>
     ((cascade_error, unit) result \<times> database \<times> 's) option" where
  "reconcile_dependents_after_changes_with_budget E K hashes cascade_budget db s =
     (let (queue, stats) = fold (enqueue_dependents db [] []) hashes
            ([], \<lparr>rs_parents_reconciled = 0, rs_descendants_reconciled = 0\<rparr>) in
      if queue = [] then Some (Inr (), db, s)
      else map_option (\<lambda>(r, rest). (case r of Inl e \<Rightarrow> Inl e | Inr _ \<Rightarrow> Inr (), rest))
        (drain_reconcile_queue E K (Some cascade_budget) queue db s))"

definition reconcile_dependents_after_change ::
  "read_model_env \<Rightarrow> 's configured_classifier \<Rightarrow> bytes \<Rightarrow> database \<Rightarrow> 's \<Rightarrow>
     ((cascade_error, unit) result \<times> database \<times> 's) option" where
  "reconcile_dependents_after_change E K hash db s =
     reconcile_dependents_after_changes_with_budget E K [hash] default_cascade_budget db s"

definition reconcile_by_block_hash ::
  "read_model_env \<Rightarrow> 's configured_classifier \<Rightarrow> bytes \<Rightarrow> database \<Rightarrow> 's \<Rightarrow>
     ((cascade_error, reconcile_stats) result \<times> database \<times> 's) option" where
  "reconcile_by_block_hash E K hash db s =
     drain_reconcile_queue E K (Some default_cascade_budget) [BlockWork hash] db s"

definition reconcile_from_merge_mining_event ::
  "read_model_env \<Rightarrow> 's configured_classifier \<Rightarrow> int \<Rightarrow> parent_classification option \<Rightarrow> database \<Rightarrow> 's \<Rightarrow>
     ((cascade_error, reconcile_stats) result \<times> database \<times> 's) option" where
  "reconcile_from_merge_mining_event E K event_id preclassified db s =
     drain_reconcile_queue E K (Some default_cascade_budget) [EventWork event_id (map_option trusted preclassified)] db s"

definition run_reclassify_parent ::
  "read_model_env \<Rightarrow> 's configured_classifier \<Rightarrow> bytes \<Rightarrow> database \<Rightarrow> 's \<Rightarrow>
     ((cascade_error, reconcile_stats) result \<times> database \<times> 's) option" where
  "run_reclassify_parent E K hash db s =
     (if \<not> is_enabled K then Some (Inl ClassifierRequired, db, s)
      else case find_anchor_event_for_block (db_events db) hash of
          None \<Rightarrow> Some (Inl (NoActiveParent hash), db, s)
        | Some event_id \<Rightarrow>
            drain_reconcile_queue E K (Some default_cascade_budget) [StrictEventWork event_id] db s)"

section \<open>Termination\<close>

lemma enqueue_keeps_parents [simp]:
  "rs_parents_reconciled (snd (enqueue_dependents db ve vb hash qs)) = rs_parents_reconciled (snd qs)"
  by (cases qs) (simp add: enqueue_dependents_def Let_def)

lemma fold_enqueue_keeps_parents [simp]:
  "rs_parents_reconciled (snd (fold (enqueue_dependents db ve vb) hashes qs)) = rs_parents_reconciled (snd qs)"
  by (induction hashes arbitrary: qs) simp_all

definition within_budget :: "nat \<Rightarrow> (cascade_error, reconcile_stats) result \<Rightarrow> bool" where
  "within_budget b r = (case r of Inr stats \<Rightarrow> rs_parents_reconciled stats \<le> b | Inl e \<Rightarrow>
     e = CascadeBudgetExhausted b \<or> (\<exists>x. e = ItemFailed x))"

lemma drain_loop_returns:
  assumes "rs_parents_reconciled stats \<le> b"
  shows "\<exists>r db' s'. drain_loop E K (Some b) queue ve vb stats db s = Some (r, db', s') \<and> within_budget b r"
  using assms
proof (induction "b - rs_parents_reconciled stats" arbitrary: queue ve vb stats db s rule: less_induct)
  case less
  note outer = less.hyps and bound = less.prems
  show ?case
  proof (induction queue)
    case Nil
    then show ?case using bound by (simp add: drain_loop.simps within_budget_def)
  next
    case (Cons work rest)
    consider (full) "b \<le> rs_parents_reconciled stats"
      | (seen) "\<not> b \<le> rs_parents_reconciled stats" "already_visited ve vb work"
      | (run) "\<not> b \<le> rs_parents_reconciled stats" "\<not> already_visited ve vb work" by blast
    then show ?case
    proof cases
      case full
      then show ?thesis by (simp add: drain_loop.simps budget_reached_def budget_error_def within_budget_def)
    next
      case seen
      then show ?thesis using Cons by (simp add: drain_loop.simps [of E K "Some b" "work # rest"] budget_reached_def)
    next
      case run
      obtain res s1 where m: "run_work E K work db s = (res, s1)" by fastforce
      show ?thesis
      proof (cases res)
        case (Inl e)
        then show ?thesis using run m by (simp add: drain_loop.simps budget_reached_def within_budget_def)
      next
        case (Inr a)
        obtain db1 changed where a: "a = (db1, changed)" by (cases a)
        obtain ve1 vb1 where v: "visit work (ve, vb) = (ve1, vb1)" by fastforce
        obtain q1 st1 where f: "fold (enqueue_dependents db1 ve1 vb1) changed
            (rest, stats\<lparr>rs_parents_reconciled := rs_parents_reconciled stats + 1\<rparr>) = (q1, st1)" by fastforce
        have p: "rs_parents_reconciled st1 = rs_parents_reconciled stats + 1"
          using fold_enqueue_keeps_parents [of db1 ve1 vb1 changed
              "(rest, stats\<lparr>rs_parents_reconciled := rs_parents_reconciled stats + 1\<rparr>)"] unfolding f by simp
        have "\<exists>r db' s'. drain_loop E K (Some b) q1 ve1 vb1 st1 db1 s1 = Some (r, db', s') \<and> within_budget b r"
          by (rule outer) (use run p in simp_all)
        then show ?thesis using run m Inr a v f
          by (simp add: drain_loop.simps [of E K "Some b" "work # rest"] budget_reached_def)
      qed
    qed
  qed
qed

lemma cascade_returns:
  "\<exists>r db' s'. drain_reconcile_queue E K (Some b) queue db s = Some (r, db', s') \<and> within_budget b r"
  unfolding drain_reconcile_queue_def by (rule drain_loop_returns) simp

text \<open>C23: A cascade with a budget returns, whatever Core answers: it either succeeds, having reconciled at
  most the budgeted number of parents, or reports the exhausted budget, or the error of the item that
  failed.\<close>

theorem cascade_returns_within_budget:
  "\<exists>r db' s'. drain_reconcile_queue E K (Some b) queue db s = Some (r, db', s') \<and> within_budget b r"
  by (rule cascade_returns)

section \<open>The cascade keeps the constraints\<close>

definition tables_ok :: "database \<Rightarrow> bool" where
  "tables_ok db \<longleftrightarrow> blocks_ok (db_blocks db) \<and> events_ok (db_events db)"

lemma unknown_columns: "parent_columns (classification_unknown hdr) = Inr (BkUnknown, None, None, None, None)"
  by (simp add: parent_columns_def classification_unknown_def)

lemma rebuild_without_event_ok:
  assumes ok: "tables_ok db" and none: "find_anchor_event_for_block (db_events db) hash = None"
    and r: "rebuild_parent_read_model E hash None db = Inr db'"
  shows "tables_ok db'"
proof -
  have "sort_key anchor_key (active_events (db_events db) hash) = []"
    using none by (simp add: find_anchor_event_for_block_def split: list.splits)
  then have "set (active_events (db_events db) hash) = {}" by (metis set_empty set_sort)
  then have "load_parent_rollup (db_events db) hash = None" by (simp add: load_parent_rollup_def)
  then have "db' = retire_zero_active_block E hash db" using r by (simp add: rebuild_parent_read_model_def)
  then show ?thesis using ok retire_ok [of db E hash] by (simp add: tables_ok_def)
qed

lemma reconcile_event_loads:
  assumes "reconcile_one_event_in_txn E K event_id pre db s = (Inr a, s')"
  obtains ev where "load_event (db_events db) event_id = Inr ev"
  using assms by (cases "load_event (db_events db) event_id") (simp_all add: reconcile_one_event_in_txn_def rm_defs)

lemma txn_off_ok:
  assumes ok: "tables_ok db"
    and r: "reconcile_one_event_in_txn E ClassifierOff event_id None db s = (Inr (db', changed), s')"
  shows "tables_ok db'"
proof -
  obtain ev where "load_event (db_events db) event_id = Inr ev" by (rule reconcile_event_loads [OF r])
  from reconcile_ok [OF _ _ this _ r] ok show ?thesis by (simp add: tables_ok_def is_enabled_def)
qed

lemma attempts_off_ok:
  assumes ok: "tables_ok db"
    and r: "reconcile_attempts E ClassifierOff event_id None strict retries db s = (Inr (db', changed), s')"
  shows "tables_ok db'"
  using r
proof (induction retries arbitrary: s)
  case (0 s)
  then show ?case
    using txn_off_ok [OF ok, of E event_id s db' changed s']
    by (simp add: rm_pure_def is_enabled_def split: prod.splits sum.splits read_model_error.splits)
next
  case (Suc n s)
  then consider "reconcile_one_event_in_txn E ClassifierOff event_id None db s = (Inr (db', changed), s')"
    | s2 where "reconcile_attempts E ClassifierOff event_id None strict n db s2 = (Inr (db', changed), s')"
    by (simp add: rm_pure_def is_enabled_def del: reconcile_attempts.simps
        add: reconcile_attempts.simps [of _ _ _ _ _ "Suc n"]
        split: prod.splits sum.splits read_model_error.splits)
  then show ?case by cases (rule txn_off_ok [OF ok], assumption, rule Suc.IH)
qed

definition unclassified :: "reconcile_work \<Rightarrow> bool" where
  "unclassified work = (case work of EventWork _ pre \<Rightarrow> pre = None | _ \<Rightarrow> True)"

lemma run_work_off_ok:
  assumes ok: "tables_ok db" and u: "unclassified work"
    and r: "run_work E ClassifierOff work db s = (Inr (db', changed), s')"
  shows "tables_ok db'"
proof (cases work)
  case (BlockWork h)
  show ?thesis
  proof (cases "find_anchor_event_for_block (db_events db) h")
    case None
    obtain db1 where "rebuild_parent_read_model E h None db = Inr db1" "db' = db1"
      using r None BlockWork
      by (cases "rebuild_parent_read_model E h None db")
        (simp_all add: run_work_def reconcile_one_block_def reconcile_one_block_with_policy_def rm_defs)
    then show ?thesis using rebuild_without_event_ok [OF ok None] by simp
  next
    case (Some i)
    then show ?thesis
      using r BlockWork by (simp add: run_work_def reconcile_one_block_def reconcile_one_block_with_policy_def
          reconcile_one_event_with_policy_def del: reconcile_attempts.simps) (rule attempts_off_ok [OF ok])
  qed
next
  case (EventWork i pre)
  then have "reconcile_attempts E ClassifierOff i None False (reconcile_lock_set_retry_limit - 1) db s = (Inr (db', changed), s')"
    using r u by (simp add: run_work_def unclassified_def reconcile_one_event_def reconcile_one_event_with_policy_def
        del: reconcile_attempts.simps)
  then show ?thesis by (rule attempts_off_ok [OF ok])
next
  case (StrictEventWork i)
  then have "reconcile_attempts E ClassifierOff i None True (reconcile_lock_set_retry_limit - 1) db s = (Inr (db', changed), s')"
    using r by (simp add: run_work_def reconcile_one_event_with_policy_def del: reconcile_attempts.simps)
  then show ?thesis by (rule attempts_off_ok [OF ok])
qed

lemma enqueue_unclassified:
  "list_all unclassified (fst qs) \<Longrightarrow> list_all unclassified (fst (fold (enqueue_dependents db ve vb) hashes qs))"
proof (induction hashes arbitrary: qs)
  case (Cons h hs)
  have "list_all unclassified (fst (enqueue_dependents db ve vb h qs))"
    using Cons.prems by (cases qs) (auto simp: enqueue_dependents_def dependents_def Let_def list_all_iff unclassified_def)
  then show ?case using Cons.IH by simp
qed simp

lemma drain_off_ok:
  assumes "drain_loop E K budget queue ve vb stats db s = Some (r, db', s')"
    and "K = ClassifierOff" "tables_ok db" "list_all unclassified queue"
  shows "tables_ok db'"
proof -
  have "K = ClassifierOff \<longrightarrow> tables_ok db \<longrightarrow> list_all unclassified queue \<longrightarrow> tables_ok (fst (snd (r, db', s')))"
  proof (rule drain_loop.raw_induct [OF _ assms(1), where P = "\<lambda>E K budget queue ve vb stats db s res.
      K = ClassifierOff \<longrightarrow> tables_ok db \<longrightarrow> list_all unclassified queue \<longrightarrow> tables_ok (fst (snd res))"], intro impI)
    fix drain E K budget queue ve vb stats db s res
    assume IH: "\<And>E K budget queue ve vb stats db s res. drain E K budget queue ve vb stats db s = Some res \<Longrightarrow>
        K = ClassifierOff \<longrightarrow> tables_ok db \<longrightarrow> list_all unclassified queue \<longrightarrow> tables_ok (fst (snd res))"
      and step: "(case queue of [] \<Rightarrow> Some (Inr stats, db, s)
        | work # rest \<Rightarrow>
          if budget_reached budget stats then Some (Inl (budget_error budget), db, s)
          else if already_visited ve vb work then drain E K budget rest ve vb stats db s
          else
            (case run_work E K work db s of
               (Inl e, s1) \<Rightarrow> Some (Inl (ItemFailed e), db, s1)
             | (Inr (db1, changed_hashes), s1) \<Rightarrow>
                 let (visited_events1, visited_blocks1) = visit work (ve, vb);
                     (queue1, stats1) = fold (enqueue_dependents db1 visited_events1 visited_blocks1) changed_hashes
                       (rest, stats\<lparr>rs_parents_reconciled := rs_parents_reconciled stats + 1\<rparr>)
                 in drain E K budget queue1 visited_events1 visited_blocks1 stats1 db1 s1)) = Some res"
      and K: "K = ClassifierOff" and ok: "tables_ok db" and u: "list_all unclassified queue"
    show "tables_ok (fst (snd res))"
    proof (cases queue)
      case Nil
      then show ?thesis using step ok by auto
    next
      case (Cons work rest)
      have u': "unclassified work" "list_all unclassified rest" using u Cons by simp_all
      consider "budget_reached budget stats" | "\<not> budget_reached budget stats" "already_visited ve vb work"
        | "\<not> budget_reached budget stats" "\<not> already_visited ve vb work" by blast
      then show ?thesis
      proof cases
        case 1
        then show ?thesis using step Cons ok by auto
      next
        case 2
        then have "drain E K budget rest ve vb stats db s = Some res" using step Cons by simp
        then show ?thesis using IH K ok u' by blast
      next
        case 3
        obtain m s1 where m: "run_work E K work db s = (m, s1)" by fastforce
        show ?thesis
        proof (cases m)
          case (Inl e)
          then show ?thesis using step Cons 3 m ok by auto
        next
          case (Inr a)
          obtain db1 changed where a: "a = (db1, changed)" by (cases a)
          have "tables_ok db1" by (rule run_work_off_ok [OF ok u'(1)]) (use m Inr a K in simp)
          moreover obtain q1 v1 v2 st1 where "drain E K budget q1 v1 v2 st1 db1 s1 = Some res" "list_all unclassified q1"
          proof -
            obtain v1 v2 where v: "visit work (ve, vb) = (v1, v2)" by fastforce
            obtain q1 st1 where f: "fold (enqueue_dependents db1 v1 v2) changed
                (rest, stats\<lparr>rs_parents_reconciled := rs_parents_reconciled stats + 1\<rparr>) = (q1, st1)" by fastforce
            have "list_all unclassified q1"
              using enqueue_unclassified [of "(rest, stats\<lparr>rs_parents_reconciled := rs_parents_reconciled stats + 1\<rparr>)"
                  db1 v1 v2 changed] u'(2) unfolding f by simp
            then show thesis using that step Cons 3 m Inr a v f by simp
          qed
          ultimately show ?thesis using IH K by blast
        qed
      qed
    qed
  qed
  then show ?thesis using assms(2-4) by simp
qed

text \<open>C24: Rebuilding without Core keeps the tables: with the classifier off, a cascade from any queue of
  unclassified events and blocks leaves every constraint of both tables in place, whether it
  completes, runs out of budget or stops at a failing item.\<close>

theorem cascade_keeps_constraints:
  assumes "tables_ok db" "list_all unclassified queue"
    and "drain_reconcile_queue E ClassifierOff budget queue db s = Some (r, db', s')"
  shows "tables_ok db'"
  by (rule drain_off_ok [OF assms(3) [unfolded drain_reconcile_queue_def] refl assms(1,2)])

theorem cascade_keeps_constraints_witness:
  "\<exists>r db'. drain_reconcile_queue demo_env (ClassifierOff :: unit configured_classifier) (Some 5)
     [BlockWork (demo_node_hash 15)] (demo_empty\<lparr>db_blocks := [demo_row]\<rparr>) () = Some (r, db', ()) \<and> tables_ok db'"
proof -
  obtain r db' where d: "drain_reconcile_queue demo_env (ClassifierOff :: unit configured_classifier) (Some 5)
      [BlockWork (demo_node_hash 15)] (demo_empty\<lparr>db_blocks := [demo_row]\<rparr>) () = Some (r, db', ())"
    using cascade_returns [of demo_env "ClassifierOff :: unit configured_classifier" 5 "[BlockWork (demo_node_hash 15)]"
        "demo_empty\<lparr>db_blocks := [demo_row]\<rparr>" "()"] by auto
  have "tables_ok (demo_empty\<lparr>db_blocks := [demo_row]\<rparr>)"
    using demo_row_ok demo_events_ok by (simp add: tables_ok_def demo_empty_def)
  from cascade_keeps_constraints [OF this _ d] d show ?thesis by (simp add: unclassified_def)
qed

end
