(* ===== verification/Core_Suffix.thy ===== *)
theory Core_Suffix
  imports Reconcile_Queue "HOL-Library.AList"
begin

text \<open>
  \<open>crates/mmm-read-model/src/mutation/core_suffix.rs\<close> and \<open>core_suffix_status.rs\<close>: the replacement of
  the canonical suffix after a reorganisation, the durable queue of the parents it affects, and the status
  row that reports the pending work.  The queue and the status row are those of the one Core source.
  The transaction either commits or leaves the tables as they were, so a failed operation returns no
  tables.  The caller's two validators are arguments.  Advisory and row locks, source-health counters
  and row time stamps other than the queue's order are left out.
\<close>

section \<open>Replacements\<close>

record core_canonical_replacement =
  cc_height :: int
  cc_header :: header
  cc_coinbase :: core_block_coinbase

record expected_core_canonical_row =
  xr_height :: int
  xr_hash :: bytes
  xr_prev_hash :: bytes

record core_suffix_replacement_summary =
  su_common_ancestor_height :: int
  su_replaced_from_height :: int
  su_replaced_through_height :: int
  su_displaced_blocks :: nat
  su_queued_hashes :: nat

record locked_canonical_row =
  lk_height :: int
  lk_hash :: bytes
  lk_prev_hash :: bytes
  lk_coinbase_txid :: "bytes option"
  lk_coinbase_script :: "bytes option"
  lk_coinbase_outputs :: "bytes option"

record suffix_mutation_plan =
  sp_replacement_hashes :: "(int \<times> bytes) list"
  sp_displaced :: "locked_canonical_row list"
  sp_affected_hashes :: "bytes list"

datatype suffix_error =
    EmptyReplacement | AncestorOverflow | WrongFirstHeight int | NotContiguous | LinkMismatch int
  | AncestorNotUnique | NotLinkedToAncestor | HashNot32Bytes | TargetNotCovered | SyncStateMissing
  | CursorChanged int | SuffixChanged | CompetitorMissing int | SuffixReadModel read_model_error
  | SuspendedErrorMalformed string

definition locked_expected :: "locked_canonical_row \<Rightarrow> expected_core_canonical_row" where
  "locked_expected r = \<lparr>xr_height = lk_height r, xr_hash = lk_hash r, xr_prev_hash = lk_prev_hash r\<rparr>"

definition locked_coinbase :: "locked_canonical_row \<Rightarrow> core_block_coinbase option" where
  "locked_coinbase r =
     (case (lk_coinbase_txid r, lk_coinbase_script r, lk_coinbase_outputs r) of
        (Some t, Some s, Some x) \<Rightarrow> Some \<lparr>cb_txid = t, cb_script = s, cb_outputs = x\<rparr>
      | _ \<Rightarrow> None)"

definition replacement_hash :: "read_model_env \<Rightarrow> core_canonical_replacement \<Rightarrow> bytes" where
  "replacement_hash E r = block_hash (rm_lib E) (cc_header r)"

fun check_links :: "read_model_env \<Rightarrow> core_canonical_replacement list \<Rightarrow> (suffix_error, unit) result" where
  "check_links E (a # b # rest) =
     (if cc_height b \<noteq> cc_height a + 1 then Inl NotContiguous
      else if h_prev_blockhash (cc_header b) \<noteq> replacement_hash E a then Inl (LinkMismatch (cc_height b))
      else check_links E (b # rest))"
| "check_links E _ = Inr ()"

definition validate_replacement ::
  "read_model_env \<Rightarrow> int \<Rightarrow> expected_core_canonical_row list \<Rightarrow> core_canonical_replacement list \<Rightarrow> (suffix_error, unit) result" where
  "validate_replacement E common_ancestor_height expected_local replacements =
     (case replacements of
        [] \<Rightarrow> Inl EmptyReplacement
      | first # _ \<Rightarrow>
          rbind (ok_or AncestorOverflow (checked_i32 (common_ancestor_height + 1))) (\<lambda>expected_first.
          if cc_height first \<noteq> expected_first then Inl (WrongFirstHeight (cc_height first))
          else rbind (check_links E replacements) (\<lambda>_.
            case filter (\<lambda>r. xr_height r = common_ancestor_height) expected_local of
              [ancestor] \<Rightarrow>
                if xr_hash ancestor \<noteq> h_prev_blockhash (cc_header first) then Inl NotLinkedToAncestor
                else if list_ex (\<lambda>r. length (xr_hash r) \<noteq> 32 \<or> length (xr_prev_hash r) \<noteq> 32) expected_local
                then Inl HashNot32Bytes
                else Inr ()
            | _ \<Rightarrow> Inl AncestorNotUnique)))"

definition normalized_expected_suffix ::
  "expected_core_canonical_row list \<Rightarrow> int \<Rightarrow> int \<Rightarrow> expected_core_canonical_row list" where
  "normalized_expected_suffix expected from_height through =
     sort_key (\<lambda>r. (xr_height r, xr_hash r)) (filter (\<lambda>r. from_height \<le> xr_height r \<and> xr_height r \<le> through) expected)"

definition load_locked_canonical_rows :: "block_row list \<Rightarrow> int \<Rightarrow> int \<Rightarrow> locked_canonical_row list" where
  "load_locked_canonical_rows blocks from_height through =
     sort_key (\<lambda>r. (lk_height r, lk_hash r)) (List.map_filter (\<lambda>b.
       case br_height b of
         Some h \<Rightarrow>
           if br_kind b = BkCanonical \<and> from_height \<le> h \<and> h \<le> through
           then Some \<lparr>lk_height = h, lk_hash = br_hash b, lk_prev_hash = br_prev_hash b,
                      lk_coinbase_txid = br_coinbase_txid b, lk_coinbase_script = br_coinbase_script b,
                      lk_coinbase_outputs = br_coinbase_outputs b\<rparr>
           else None
       | None \<Rightarrow> None) blocks)"

definition verify_expected_rows ::
  "locked_canonical_row list \<Rightarrow> expected_core_canonical_row list \<Rightarrow> (suffix_error, unit) result" where
  "verify_expected_rows current expected =
     (if map locked_expected current \<noteq> expected then Inl SuffixChanged else Inr ())"

text \<open>The map from heights to hashes is built in height order, as the replacements are given.\<close>

definition plan_suffix_mutation ::
  "read_model_env \<Rightarrow> locked_canonical_row list \<Rightarrow> core_canonical_replacement list \<Rightarrow> suffix_mutation_plan" where
  "plan_suffix_mutation E current replacements =
     (let replacement_hashes = map (\<lambda>r. (cc_height r, replacement_hash E r)) replacements;
          first_height = cc_height (hd replacements);
          displaced = filter (\<lambda>row. first_height \<le> lk_height row \<and>
            map_of replacement_hashes (lk_height row) \<noteq> Some (lk_hash row)) current
      in \<lparr>sp_replacement_hashes = replacement_hashes, sp_displaced = displaced,
          sp_affected_hashes = remdups_adj (sort (map snd replacement_hashes @ map lk_hash displaced))\<rparr>)"

section \<open>Applying a plan\<close>

definition stale_classification :: "locked_canonical_row \<Rightarrow> bytes \<Rightarrow> parent_classification" where
  "stale_classification old competitor_hash =
     \<lparr>pk_kind = Stale, pk_height = Some (lk_height old), pk_height_source = Some BitcoinCore,
      pk_prev_hash = lk_prev_hash old, pk_canonical_predecessor_header = None, pk_canonical_competitor_header = None,
      pk_canonical_competitor_hash = Some competitor_hash, pk_coinbase = locked_coinbase old,
      pk_difficulty_epoch_ok = Some True, pk_rejection_reason = None, pk_live_observed = True, pk_core_attested = True,
      pk_core_absence_attested = False, pk_incomplete = False\<rparr>"

definition canonical_classification :: "core_canonical_replacement \<Rightarrow> parent_classification" where
  "canonical_classification r =
     \<lparr>pk_kind = Canonical, pk_height = Some (cc_height r), pk_height_source = Some BitcoinCore,
      pk_prev_hash = h_prev_blockhash (cc_header r), pk_canonical_predecessor_header = None,
      pk_canonical_competitor_header = None, pk_canonical_competitor_hash = None, pk_coinbase = Some (cc_coinbase r),
      pk_difficulty_epoch_ok = Some True, pk_rejection_reason = None, pk_live_observed = True, pk_core_attested = True,
      pk_core_absence_attested = False, pk_incomplete = False\<rparr>"

definition reconcile_trusted ::
  "read_model_env \<Rightarrow> int \<Rightarrow> parent_classification \<Rightarrow> database \<Rightarrow> (suffix_error, database) result" where
  "reconcile_trusted E event_id c db =
     (case reconcile_one_event_in_txn E (ClassifierOff :: unit configured_classifier) event_id (Some (trusted c)) db () of
        (Inl e, _) \<Rightarrow> Inl (SuffixReadModel e) | (Inr (db1, _), _) \<Rightarrow> Inr db1)"

definition demoted_row :: "locked_canonical_row \<Rightarrow> bytes \<Rightarrow> block_row \<Rightarrow> block_row" where
  "demoted_row old competitor_hash b =
     b\<lparr>br_kind := BkStale, br_height := Some (lk_height old), br_height_source := Some BitcoinCore,
       br_canonical_competitor_hash := Some competitor_hash, br_live_observed := True, br_core_attested := True,
       br_pow_validated := True, br_difficulty_epoch_ok := Some True, br_btc_orphan_class := None,
       br_invalid_block_reason := None\<rparr>"

definition demote_displaced_parent ::
  "read_model_env \<Rightarrow> locked_canonical_row \<Rightarrow> bytes \<Rightarrow> database \<Rightarrow> (suffix_error, database) result" where
  "demote_displaced_parent E old competitor_hash db =
     (case find_anchor_event_for_block (db_events db) (lk_hash old) of
        Some event_id \<Rightarrow> reconcile_trusted E event_id (stale_classification old competitor_hash) db
      | None \<Rightarrow> Inr (db\<lparr>db_blocks := map (\<lambda>b. if br_hash b = lk_hash old then demoted_row old competitor_hash b else b)
                  (db_blocks db)\<rparr>))"

definition rebind_stale_competitors :: "locked_canonical_row \<Rightarrow> bytes \<Rightarrow> database \<Rightarrow> database" where
  "rebind_stale_competitors displaced replacement db =
     db\<lparr>db_blocks := map (\<lambda>b.
        if br_kind b = BkStale \<and> br_height b = Some (lk_height displaced) \<and>
           br_canonical_competitor_hash b = Some (lk_hash displaced)
        then b\<lparr>br_canonical_competitor_hash := Some replacement\<rparr> else b) (db_blocks db)\<rparr>"

definition reconcile_replacement_parent ::
  "read_model_env \<Rightarrow> core_canonical_replacement \<Rightarrow> database \<Rightarrow> (suffix_error, database) result" where
  "reconcile_replacement_parent E r db =
     (case find_anchor_event_for_block (db_events db) (replacement_hash E r) of
        None \<Rightarrow> Inr db
      | Some event_id \<Rightarrow> reconcile_trusted E event_id (canonical_classification r) db)"

fun each :: "('a \<Rightarrow> database \<Rightarrow> (suffix_error, database) result) \<Rightarrow> 'a list \<Rightarrow> database \<Rightarrow> (suffix_error, database) result" where
  "each f [] db = Inr db"
| "each f (x # xs) db = rbind (f x db) (each f xs)"

definition upsert_replacement ::
  "read_model_env \<Rightarrow> core_canonical_replacement \<Rightarrow> database \<Rightarrow> (suffix_error, database) result" where
  "upsert_replacement E r db =
     (case upsert_core_canonical_header_with_coinbase E (cc_header r) (cc_height r) (Some (cc_coinbase r)) db of
        Inl e \<Rightarrow> Inl (SuffixReadModel e) | Inr db1 \<Rightarrow> Inr db1)"

definition displace :: "read_model_env \<Rightarrow> (int \<times> bytes) list \<Rightarrow> locked_canonical_row \<Rightarrow> database \<Rightarrow> (suffix_error, database) result" where
  "displace E replacement_hashes old db =
     (case map_of replacement_hashes (lk_height old) of
        None \<Rightarrow> Inl (CompetitorMissing (lk_height old))
      | Some competitor_hash \<Rightarrow>
          rbind (demote_displaced_parent E old competitor_hash db) (\<lambda>db1.
          Inr (rebind_stale_competitors old competitor_hash db1)))"

definition apply_suffix_mutation ::
  "read_model_env \<Rightarrow> core_canonical_replacement list \<Rightarrow> suffix_mutation_plan \<Rightarrow> database \<Rightarrow> (suffix_error, database) result" where
  "apply_suffix_mutation E replacements plan db =
     rbind (each (upsert_replacement E) replacements db) (\<lambda>db1.
     rbind (each (displace E (sp_replacement_hashes plan)) (sp_displaced plan) db1) (\<lambda>db2.
     each (reconcile_replacement_parent E) replacements db2))"

section \<open>The durable queue\<close>

record queue_row =
  qr_hash :: bytes
  qr_primary_pending :: bool
  qr_expand_unchanged :: bool
  qr_generation :: int
  qr_enqueued_at :: int

text \<open>\<open>INSERT ... SELECT ... ON CONFLICT DO UPDATE\<close>: one row per hash; a new row starts at generation 1.\<close>

definition upsert_queue_row :: "(queue_row \<Rightarrow> queue_row) \<Rightarrow> queue_row \<Rightarrow> queue_row list \<Rightarrow> queue_row list" where
  "upsert_queue_row change fresh rows =
     (if list_ex (\<lambda>r. qr_hash r = qr_hash fresh) rows
      then map (\<lambda>r. if qr_hash r = qr_hash fresh then change r else r) rows else rows @ [fresh])"

definition enqueue_core_reconcile_hash :: "int \<Rightarrow> bool \<Rightarrow> bytes \<Rightarrow> queue_row list \<Rightarrow> queue_row list" where
  "enqueue_core_reconcile_hash now expand_unchanged hash =
     upsert_queue_row (\<lambda>r. r\<lparr>qr_primary_pending := True,
         qr_expand_unchanged := (qr_expand_unchanged r \<or> expand_unchanged \<or> \<not> qr_primary_pending r),
         qr_generation := qr_generation r + 1\<rparr>)
       \<lparr>qr_hash = hash, qr_primary_pending = True, qr_expand_unchanged = expand_unchanged, qr_generation = 1, qr_enqueued_at = now\<rparr>"

definition enqueue_core_reconcile_hashes :: "int \<Rightarrow> bytes list \<Rightarrow> bool \<Rightarrow> queue_row list \<Rightarrow> queue_row list" where
  "enqueue_core_reconcile_hashes now hashes expand_unchanged = fold (enqueue_core_reconcile_hash now expand_unchanged) hashes"

definition enqueue_core_reconcile_expansions :: "int \<Rightarrow> bytes list \<Rightarrow> queue_row list \<Rightarrow> queue_row list" where
  "enqueue_core_reconcile_expansions now = fold (\<lambda>hash.
     upsert_queue_row (\<lambda>r. r\<lparr>qr_expand_unchanged := True, qr_generation := qr_generation r + 1\<rparr>)
       \<lparr>qr_hash = hash, qr_primary_pending = False, qr_expand_unchanged = False, qr_generation = 1, qr_enqueued_at = now\<rparr>)"

definition settle_core_reconcile_primary :: "bytes \<Rightarrow> int \<Rightarrow> bool \<Rightarrow> queue_row list \<Rightarrow> queue_row list" where
  "settle_core_reconcile_primary hash generation changed rows =
     (let held = (\<lambda>r. qr_hash r = hash \<and> qr_primary_pending r \<and> qr_generation r = generation) in
      if \<not> changed \<and> list_ex (\<lambda>r. held r \<and> \<not> qr_expand_unchanged r) rows
      then filter (\<lambda>r. \<not> (held r \<and> \<not> qr_expand_unchanged r)) rows
      else map (\<lambda>r. if held r then r\<lparr>qr_primary_pending := False, qr_generation := qr_generation r + 1\<rparr> else r) rows)"

section \<open>The status row\<close>

text \<open>The \<open>serde_json\<close> values the details column holds; an object is its members in order.\<close>

datatype json = JNull | JBool bool | JNumber int | JString string | JArray "json list" | JObject "(string \<times> json) list"

definition json_get :: "json \<Rightarrow> string \<Rightarrow> json option" where
  "json_get v key = (case v of JObject members \<Rightarrow> map_of members key | _ \<Rightarrow> None)"

definition json_insert :: "string \<Rightarrow> json \<Rightarrow> json \<Rightarrow> json" where
  "json_insert key value v = (case v of JObject members \<Rightarrow> JObject (AList.update key value members) | _ \<Rightarrow> v)"

definition json_opt :: "('a \<Rightarrow> json) \<Rightarrow> 'a option \<Rightarrow> json" where
  "json_opt f x = (case x of Some a \<Rightarrow> f a | None \<Rightarrow> JNull)"

record sync_state =
  ss_target_tip_height :: "int option"
  ss_target_tip_hash :: "bytes option"
  ss_contiguous_complete_height :: int
  ss_last_scanned_height :: "int option"
  ss_last_attempted_height :: "int option"
  ss_last_error_code :: "string option"
  ss_last_error_height :: "int option"
  ss_last_error :: "string option"
  ss_last_error_details :: json

definition reconcile_pending :: string where "reconcile_pending = ''backbone_reorg_reconcile_pending''"

definition suspended_error_key :: string where "suspended_error_key = ''suspended_error''"

definition suffix_resolved_structural_errors :: "string list" where
  "suffix_resolved_structural_errors = [''backbone_height_conflict'', ''backbone_link_mismatch'']"

record replacement_pending =
  rp_contiguous_complete_height :: int
  rp_common_ancestor_height :: int
  rp_first_height :: int
  rp_target_tip_height :: int
  rp_target_tip_hash :: bytes
  rp_sync_target_tip_height :: int
  rp_sync_target_tip_hash :: bytes
  rp_displaced_blocks :: nat
  rp_queued_hashes :: nat

record suspended_sync_error =
  se_code :: string
  se_height :: "int option"
  se_message :: "string option"
  se_details :: json

definition is_resolved_by :: "suspended_sync_error \<Rightarrow> replacement_pending \<Rightarrow> bool" where
  "is_resolved_by e pending \<longleftrightarrow>
     List.member suffix_resolved_structural_errors (se_code e) \<and>
     (case se_height e of
        Some height \<Rightarrow> rp_first_height pending \<le> height \<and> height \<le> rp_target_tip_height pending
      | None \<Rightarrow> False)"

definition suspended_to_json :: "suspended_sync_error \<Rightarrow> json" where
  "suspended_to_json e = JObject [(''code'', JString (se_code e)), (''height'', json_opt JNumber (se_height e)),
     (''message'', json_opt JString (se_message e)), (''details'', se_details e)]"

definition json_height :: "json option \<Rightarrow> (suffix_error, int option) result" where
  "json_height v =
     (case v of
        None \<Rightarrow> Inr None
      | Some JNull \<Rightarrow> Inr None
      | Some (JNumber n) \<Rightarrow>
          if n < - (2 ^ 63) \<or> 2 ^ 63 \<le> n then Inl (SuspendedErrorMalformed ''height must be an integer'')
          else (case checked_i32 n of
             Some h \<Rightarrow> Inr (Some h) | None \<Rightarrow> Inl (SuspendedErrorMalformed ''height overflows i32''))
      | Some _ \<Rightarrow> Inl (SuspendedErrorMalformed ''height must be an integer''))"

definition json_message :: "json option \<Rightarrow> (suffix_error, string option) result" where
  "json_message v =
     (case v of
        None \<Rightarrow> Inr None
      | Some JNull \<Rightarrow> Inr None
      | Some (JString m) \<Rightarrow> Inr (Some m)
      | Some _ \<Rightarrow> Inl (SuspendedErrorMalformed ''message must be a string''))"

definition suspended_from_json :: "json option \<Rightarrow> (suffix_error, suspended_sync_error option) result" where
  "suspended_from_json v =
     (case v of
        None \<Rightarrow> Inr None
      | Some (JObject members) \<Rightarrow>
          (case map_of members ''code'' of
             Some (JString code) \<Rightarrow>
               rbind (json_height (map_of members ''height'')) (\<lambda>height.
               rbind (json_message (map_of members ''message'')) (\<lambda>message.
               Inr (Some \<lparr>se_code = code, se_height = height, se_message = message,
                          se_details = (case map_of members ''details'' of Some d \<Rightarrow> d | None \<Rightarrow> JObject [])\<rparr>)))
           | _ \<Rightarrow> Inl (SuspendedErrorMalformed ''missing its code''))
      | Some _ \<Rightarrow> Inl (SuspendedErrorMalformed ''must be a JSON object''))"

definition load_suspended_sync_error :: "sync_state \<Rightarrow> (suffix_error, suspended_sync_error option) result" where
  "load_suspended_sync_error row =
     (if ss_last_error_code row = Some reconcile_pending
      then suspended_from_json (json_get (ss_last_error_details row) suspended_error_key)
      else Inr (map_option (\<lambda>code. \<lparr>se_code = code, se_height = ss_last_error_height row,
             se_message = ss_last_error row, se_details = ss_last_error_details row\<rparr>) (ss_last_error_code row)))"

definition pending_details :: "(bytes \<Rightarrow> string) \<Rightarrow> replacement_pending \<Rightarrow> json" where
  "pending_details show_hash p = JObject
     [(''common_ancestor_height'', JNumber (rp_common_ancestor_height p)),
      (''replacement_start_height'', JNumber (rp_first_height p)),
      (''replacement_target_height'', JNumber (rp_target_tip_height p)),
      (''replacement_target_hash'', JString (show_hash (rp_target_tip_hash p))),
      (''displaced_blocks'', JNumber (int (rp_displaced_blocks p))),
      (''queued_hashes'', JNumber (int (rp_queued_hashes p)))]"

definition replaced_message :: string where
  "replaced_message = ''Bitcoin Core canonical suffix replaced; dependent reconciliation pending''"

definition mark_replacement_pending ::
  "(bytes \<Rightarrow> string) \<Rightarrow> replacement_pending \<Rightarrow> sync_state \<Rightarrow> (suffix_error, sync_state) result" where
  "mark_replacement_pending show_hash p row =
     rbind (load_suspended_sync_error row) (\<lambda>loaded.
     let suspended = (case loaded of Some e \<Rightarrow> if is_resolved_by e p then None else Some e | None \<Rightarrow> None);
         details = (case suspended of
             Some e \<Rightarrow> json_insert suspended_error_key (suspended_to_json e) (pending_details show_hash p)
           | None \<Rightarrow> pending_details show_hash p)
     in Inr (row\<lparr>ss_target_tip_height := Some (rp_sync_target_tip_height p),
               ss_target_tip_hash := Some (rp_sync_target_tip_hash p),
               ss_contiguous_complete_height := rp_contiguous_complete_height p,
               ss_last_scanned_height := Some (rp_sync_target_tip_height p),
               ss_last_attempted_height := Some (rp_sync_target_tip_height p),
               ss_last_error_code := Some reconcile_pending, ss_last_error_height := Some (rp_first_height p),
               ss_last_error := Some replaced_message, ss_last_error_details := details\<rparr>))"

definition clear_pending_error_in_transaction ::
  "queue_row list \<Rightarrow> sync_state option \<Rightarrow> (suffix_error, sync_state option) result" where
  "clear_pending_error_in_transaction rows sync =
     (if rows \<noteq> [] then Inr sync
      else case sync of
          None \<Rightarrow> Inr None
        | Some row \<Rightarrow>
            if ss_last_error_code row \<noteq> Some reconcile_pending then Inr (Some row)
            else rbind (suspended_from_json (json_get (ss_last_error_details row) suspended_error_key)) (\<lambda>suspended.
              Inr (Some (case suspended of
                  Some e \<Rightarrow> row\<lparr>ss_last_error_code := Some (se_code e), ss_last_error_height := se_height e,
                               ss_last_error := se_message e, ss_last_error_details := se_details e\<rparr>
                | None \<Rightarrow> row\<lparr>ss_last_error_code := None, ss_last_error_height := None, ss_last_error := None,
                             ss_last_error_details := JObject []\<rparr>))))"

section \<open>Replacing a suffix\<close>

record core_state =
  co_db :: database
  co_queue :: "queue_row list"
  co_sync :: "sync_state option"

definition lock_and_verify_sync_state :: "sync_state option \<Rightarrow> int \<Rightarrow> (suffix_error, sync_state) result" where
  "lock_and_verify_sync_state sync expected_cch =
     rbind (ok_or SyncStateMissing sync) (\<lambda>row.
     if ss_contiguous_complete_height row \<noteq> expected_cch then Inl (CursorChanged (ss_contiguous_complete_height row))
     else Inr row)"

definition suffix_pending ::
  "read_model_env \<Rightarrow> int \<Rightarrow> core_canonical_replacement list \<Rightarrow> int \<Rightarrow> suffix_mutation_plan \<Rightarrow> int \<times> bytes \<Rightarrow> replacement_pending" where
  "suffix_pending E ancestor replacements cch plan sync =
     (let target = last replacements in
      \<lparr>rp_contiguous_complete_height = (if ancestor \<le> cch then cc_height target else cch),
       rp_common_ancestor_height = ancestor, rp_first_height = cc_height (hd replacements),
       rp_target_tip_height = cc_height target, rp_target_tip_hash = replacement_hash E target,
       rp_sync_target_tip_height = fst sync, rp_sync_target_tip_hash = snd sync,
       rp_displaced_blocks = length (sp_displaced plan), rp_queued_hashes = length (sp_affected_hashes plan)\<rparr>)"

text \<open>A validator of the caller reads the transaction and the world outside, whose state is \<open>'s\<close>.\<close>

type_synonym ('s, 'e) suffix_validator = "core_state \<Rightarrow> 's \<Rightarrow> ('e, unit) result \<times> 's"

datatype 'e replace_error = ReplaceSuffix suffix_error | ReplaceValidator 'e

text \<open>The body of the transaction between the two validators.\<close>

definition replace_suffix_in_transaction ::
  "read_model_env \<Rightarrow> (bytes \<Rightarrow> string) \<Rightarrow> int \<Rightarrow> int \<Rightarrow> int \<Rightarrow> expected_core_canonical_row list \<Rightarrow>
     core_canonical_replacement list \<Rightarrow> int \<times> bytes \<Rightarrow> core_state \<Rightarrow>
     (suffix_error, core_state \<times> core_suffix_replacement_summary) result" where
  "replace_suffix_in_transaction E show_hash now expected_cch ancestor expected_local replacements sync_target st =
     rbind (lock_and_verify_sync_state (co_sync st) expected_cch) (\<lambda>row.
     let target_height = cc_height (last replacements);
         current = load_locked_canonical_rows (db_blocks (co_db st)) ancestor target_height in
     rbind (verify_expected_rows current (normalized_expected_suffix expected_local ancestor target_height)) (\<lambda>_.
     let plan = plan_suffix_mutation E current replacements in
     rbind (apply_suffix_mutation E replacements plan (co_db st)) (\<lambda>db1.
     rbind (mark_replacement_pending show_hash
              (suffix_pending E ancestor replacements (ss_contiguous_complete_height row) plan sync_target) row) (\<lambda>row1.
     Inr (\<lparr>co_db = db1, co_queue = enqueue_core_reconcile_hashes now (sp_affected_hashes plan) True (co_queue st),
           co_sync = Some row1\<rparr>,
          \<lparr>su_common_ancestor_height = ancestor, su_replaced_from_height = cc_height (hd replacements),
           su_replaced_through_height = target_height, su_displaced_blocks = length (sp_displaced plan),
           su_queued_hashes = length (sp_affected_hashes plan)\<rparr>)))))"

definition replace_core_canonical_suffix_validated ::
  "read_model_env \<Rightarrow> (bytes \<Rightarrow> string) \<Rightarrow> int \<Rightarrow> int \<Rightarrow> int \<Rightarrow> expected_core_canonical_row list \<Rightarrow>
     core_canonical_replacement list \<Rightarrow> (int \<times> bytes) option \<Rightarrow> ('s, 'e) suffix_validator \<times> ('s, 'e) suffix_validator \<Rightarrow>
     core_state \<Rightarrow> 's \<Rightarrow> ('e replace_error, core_state \<times> core_suffix_replacement_summary) result \<times> 's" where
  "replace_core_canonical_suffix_validated E show_hash now expected_cch ancestor expected_local replacements
       pending_target validators st s =
     (case validate_replacement E ancestor expected_local replacements of
        Inl e \<Rightarrow> (Inl (ReplaceSuffix e), s)
      | Inr _ \<Rightarrow>
          let target_height = cc_height (last replacements);
              target_hash = replacement_hash E (last replacements);
              (sync_height, sync_hash) = (case pending_target of Some p \<Rightarrow> p | None \<Rightarrow> (target_height, target_hash))
          in if sync_height < target_height \<or> (sync_height = target_height \<and> sync_hash \<noteq> target_hash)
             then (Inl (ReplaceSuffix TargetNotCovered), s)
             else
               (case fst validators st s of
                  (Inl e, s1) \<Rightarrow> (Inl (ReplaceValidator e), s1)
                | (Inr _, s1) \<Rightarrow>
                    (case replace_suffix_in_transaction E show_hash now expected_cch ancestor expected_local replacements
                            (sync_height, sync_hash) st of
                       Inl e \<Rightarrow> (Inl (ReplaceSuffix e), s1)
                     | Inr (st1, summary) \<Rightarrow>
                         (case snd validators st1 s1 of
                            (Inl e, s2) \<Rightarrow> (Inl (ReplaceValidator e), s2)
                          | (Inr _, s2) \<Rightarrow> (Inr (st1, summary), s2)))))"

definition replace_core_canonical_suffix ::
  "read_model_env \<Rightarrow> (bytes \<Rightarrow> string) \<Rightarrow> int \<Rightarrow> int \<Rightarrow> int \<Rightarrow> expected_core_canonical_row list \<Rightarrow>
     core_canonical_replacement list \<Rightarrow> core_state \<Rightarrow> 's \<Rightarrow>
     (unit replace_error, core_state \<times> core_suffix_replacement_summary) result \<times> 's" where
  "replace_core_canonical_suffix E show_hash now expected_cch ancestor expected_local replacements st s =
     replace_core_canonical_suffix_validated E show_hash now expected_cch ancestor expected_local replacements None
       (\<lambda>_ s. (Inr (), s), \<lambda>_ s. (Inr (), s)) st s"

section \<open>Draining the durable queue\<close>

definition core_recovery_batch :: nat where "core_recovery_batch = 25"

definition load_next_core_reconcile_work :: "queue_row list \<Rightarrow> queue_row option" where
  "load_next_core_reconcile_work rows =
     (case sort_key (\<lambda>r. (qr_enqueued_at r, qr_hash r)) rows of [] \<Rightarrow> None | r # _ \<Rightarrow> Some r)"

definition durable_settle :: "int \<Rightarrow> bytes \<Rightarrow> int \<Rightarrow> bytes list \<Rightarrow> queue_row list \<Rightarrow> queue_row list" where
  "durable_settle now primary_hash generation changed_hashes rows =
     (let siblings = filter (\<lambda>h. h \<noteq> primary_hash) changed_hashes in
      settle_core_reconcile_primary primary_hash generation (List.member changed_hashes primary_hash)
        (if siblings \<noteq> [] then enqueue_core_reconcile_expansions now siblings rows else rows))"

definition reconcile_one_block_strict ::
  "read_model_env \<Rightarrow> 's configured_classifier \<Rightarrow> int \<Rightarrow> queue_row \<Rightarrow> core_state \<Rightarrow> ('s, core_state) rm_io" where
  "reconcile_one_block_strict E K now work st =
     rm_bind (reconcile_one_block_with_policy E K (qr_hash work) True (co_db st)) (\<lambda>(db1, changed_hashes).
     rm_pure (Inr (st\<lparr>co_db := db1,
       co_queue := durable_settle now (qr_hash work) (qr_generation work) changed_hashes (co_queue st)\<rparr>)))"

definition durable_dependents :: "database \<Rightarrow> bytes \<Rightarrow> bytes list" where
  "durable_dependents db hash = remdups_adj (sort (filter (\<lambda>h. h \<noteq> hash)
     (map er_parent_hash (filter (\<lambda>e. er_parent_prev_hash e = hash \<and> er_pow_validates_btc_target e \<and>
          er_revoked_at e = None) (db_events db)) @
      map br_hash (filter (\<lambda>b. br_prev_hash b = hash) (db_blocks db)) @
      map br_hash (filter (\<lambda>b. br_kind b = BkStale \<and> br_canonical_competitor_hash b = Some hash) (db_blocks db)))))"

definition expand_core_reconcile_work :: "int \<Rightarrow> queue_row \<Rightarrow> core_state \<Rightarrow> (suffix_error, core_state) result" where
  "expand_core_reconcile_work now work st =
     (case List.find (\<lambda>r. qr_hash r = qr_hash work) (co_queue st) of
        None \<Rightarrow> Inr st
      | Some current \<Rightarrow>
          if qr_primary_pending current \<or> qr_generation current \<noteq> qr_generation work then Inr st
          else
            let dependents = durable_dependents (co_db st) (qr_hash work);
                queued = (if dependents \<noteq> [] then enqueue_core_reconcile_hashes now dependents False (co_queue st)
                          else co_queue st);
                rest = filter (\<lambda>r. \<not> (qr_hash r = qr_hash work \<and> \<not> qr_primary_pending r \<and>
                         qr_generation r = qr_generation work)) queued
            in rbind (clear_pending_error_in_transaction rest (co_sync st)) (\<lambda>sync.
               Inr (st\<lparr>co_queue := rest, co_sync := sync\<rparr>)))"

datatype drain_error = DrainSuffix suffix_error | DrainItem bytes read_model_error | DrainBudgetExhausted nat

text \<open>The loop: \<open>unlimited\<close> says that a progress reporter was given, so that only the parents are counted;
  \<open>clock n\<close> is the time of the \<open>n\<close>th item.\<close>

partial_function (option) core_drain_loop ::
  "read_model_env \<Rightarrow> 's configured_classifier \<Rightarrow> (nat \<Rightarrow> int) \<Rightarrow> nat \<Rightarrow> bool \<Rightarrow> nat \<Rightarrow> nat \<Rightarrow> core_state \<Rightarrow> 's \<Rightarrow>
     ((drain_error, bool) result \<times> core_state \<times> 's) option" where
  "core_drain_loop E K clock max_primaries unlimited parents_reconciled work_items st s =
     (case load_next_core_reconcile_work (co_queue st) of
        None \<Rightarrow>
          (case clear_pending_error_in_transaction (co_queue st) (co_sync st) of
             Inl e \<Rightarrow> Some (Inl (DrainSuffix e), st, s)
           | Inr sync \<Rightarrow> Some (Inr True, st\<lparr>co_sync := sync\<rparr>, s))
      | Some work \<Rightarrow>
          if \<not> unlimited \<and> max_primaries \<le> work_items then Some (Inr False, st, s)
          else if qr_primary_pending work then
            if max_primaries \<le> parents_reconciled then Some (Inr False, st, s)
            else
              (case reconcile_one_block_strict E K (clock work_items) work st s of
                 (Inl e, s1) \<Rightarrow> Some (Inl (DrainItem (qr_hash work) e), st, s1)
               | (Inr st1, s1) \<Rightarrow>
                   core_drain_loop E K clock max_primaries unlimited (parents_reconciled + 1) (work_items + 1) st1 s1)
          else
            (case expand_core_reconcile_work (clock work_items) work st of
               Inl e \<Rightarrow> Some (Inl (DrainSuffix e), st, s)
             | Inr st1 \<Rightarrow> core_drain_loop E K clock max_primaries unlimited parents_reconciled (work_items + 1) st1 s))"

definition drain_core_reconcile_queue_up_to ::
  "read_model_env \<Rightarrow> 's configured_classifier \<Rightarrow> (nat \<Rightarrow> int) \<Rightarrow> nat \<Rightarrow> bool \<Rightarrow> core_state \<Rightarrow> 's \<Rightarrow>
     ((drain_error, bool) result \<times> core_state \<times> 's) option" where
  "drain_core_reconcile_queue_up_to E K clock max_primaries unlimited st s =
     core_drain_loop E K clock max_primaries unlimited 0 0 st s"

definition drain_core_reconcile_queue_with_budget ::
  "read_model_env \<Rightarrow> 's configured_classifier \<Rightarrow> (nat \<Rightarrow> int) \<Rightarrow> nat \<Rightarrow> core_state \<Rightarrow> 's \<Rightarrow>
     ((drain_error, unit) result \<times> core_state \<times> 's) option" where
  "drain_core_reconcile_queue_with_budget E K clock cascade_budget st s =
     map_option (\<lambda>(r, rest). (rbind r (\<lambda>drained. if drained then Inr () else Inl (DrainBudgetExhausted cascade_budget)), rest))
       (drain_core_reconcile_queue_up_to E K clock cascade_budget True st s)"

definition drain_core_reconcile_queue ::
  "read_model_env \<Rightarrow> 's configured_classifier \<Rightarrow> (nat \<Rightarrow> int) \<Rightarrow> core_state \<Rightarrow> 's \<Rightarrow>
     ((drain_error, unit) result \<times> core_state \<times> 's) option" where
  "drain_core_reconcile_queue E K clock st s = drain_core_reconcile_queue_with_budget E K clock default_cascade_budget st s"

definition drain_core_reconcile_queue_batch ::
  "read_model_env \<Rightarrow> 's configured_classifier \<Rightarrow> (nat \<Rightarrow> int) \<Rightarrow> nat \<Rightarrow> core_state \<Rightarrow> 's \<Rightarrow>
     ((drain_error, bool) result \<times> core_state \<times> 's) option" where
  "drain_core_reconcile_queue_batch E K clock max_primaries st s =
     drain_core_reconcile_queue_up_to E K clock max_primaries False st s"

section \<open>Suspended errors\<close>

lemma suspended_round_trip_ok:
  assumes "case se_height e of Some h \<Rightarrow> i32_ok h | None \<Rightarrow> True"
  shows "suspended_from_json (Some (suspended_to_json e)) = Inr (Some e)"
proof -
  have h: "json_height (Some (json_opt JNumber (se_height e))) = Inr (se_height e)"
    using assms by (cases "se_height e") (auto simp: json_height_def json_opt_def i32_ok_def checked_i32_def)
  have m: "json_message (Some (json_opt JString (se_message e))) = Inr (se_message e)"
    by (cases "se_message e") (simp_all add: json_message_def json_opt_def)
  show ?thesis
    unfolding suspended_to_json_def suspended_from_json_def option.case json.case by (simp add: h m)
qed

definition error_of :: "sync_state \<Rightarrow> suspended_sync_error option" where
  "error_of row = map_option (\<lambda>code. \<lparr>se_code = code, se_height = ss_last_error_height row,
     se_message = ss_last_error row, se_details = ss_last_error_details row\<rparr>) (ss_last_error_code row)"

fun mark_all :: "(bytes \<Rightarrow> string) \<Rightarrow> replacement_pending list \<Rightarrow> sync_state \<Rightarrow> (suffix_error, sync_state) result" where
  "mark_all show_hash [] row = Inr row"
| "mark_all show_hash (p # ps) row = rbind (mark_replacement_pending show_hash p row) (mark_all show_hash ps)"

definition survivor :: "replacement_pending list \<Rightarrow> suspended_sync_error option \<Rightarrow> suspended_sync_error option" where
  "survivor ps susp = (case susp of Some e \<Rightarrow> if \<exists>p\<in>set ps. is_resolved_by e p then None else Some e | None \<Rightarrow> None)"

definition storable :: "suspended_sync_error option \<Rightarrow> bool" where
  "storable susp = (case susp of Some e \<Rightarrow> (case se_height e of Some h \<Rightarrow> i32_ok h | None \<Rightarrow> True) | None \<Rightarrow> True)"

lemma json_get_insert: "json_get (json_insert key v (pending_details sh p)) key = Some v"
  by (simp add: json_get_def json_insert_def pending_details_def update_Some_unfold)

lemma pending_details_unsuspended: "json_get (pending_details sh p) suspended_error_key = None"
  by (simp add: json_get_def pending_details_def suspended_error_key_def)

lemma mark_loads:
  assumes l: "load_suspended_sync_error row = Inr susp" and s: "storable susp"
  shows "\<exists>row1. mark_replacement_pending sh p row = Inr row1 \<and> ss_last_error_code row1 = Some reconcile_pending \<and>
    load_suspended_sync_error row1 = Inr (survivor [p] susp)"
proof (cases "survivor [p] susp")
  case None
  then have "(case susp of Some e \<Rightarrow> if is_resolved_by e p then None else Some e | None \<Rightarrow> None) = None"
    by (auto simp: survivor_def split: option.splits if_splits)
  then show ?thesis using l None
    by (simp add: mark_replacement_pending_def Let_def load_suspended_sync_error_def [of "_\<lparr>ss_last_error_details := _\<rparr>"]
        pending_details_unsuspended suspended_from_json_def)
next
  case (Some e)
  then have e: "susp = Some e" "\<not> is_resolved_by e p" by (auto simp: survivor_def split: option.splits if_splits)
  have "suspended_from_json (Some (suspended_to_json e)) = Inr (Some e)"
    using s unfolding e(1) storable_def by (intro suspended_round_trip_ok) simp
  then show ?thesis using l Some e
    by (simp add: mark_replacement_pending_def Let_def load_suspended_sync_error_def [of "_\<lparr>ss_last_error_details := _\<rparr>"]
        json_get_insert)
qed

lemma storable_survivor: "storable susp \<Longrightarrow> storable (survivor ps susp)"
  by (auto simp: storable_def survivor_def split: option.splits)

lemma survivor_append: "survivor qs (survivor ps susp) = survivor (ps @ qs) susp"
  by (auto simp: survivor_def split: option.splits)

lemma mark_all_loads:
  assumes "load_suspended_sync_error row = Inr susp" "storable susp" "ps \<noteq> []"
  shows "\<exists>row1. mark_all sh ps row = Inr row1 \<and> ss_last_error_code row1 = Some reconcile_pending \<and>
    load_suspended_sync_error row1 = Inr (survivor ps susp)"
  using assms
proof (induction ps arbitrary: row susp)
  case (Cons p ps)
  obtain row1 where r: "mark_replacement_pending sh p row = Inr row1" "ss_last_error_code row1 = Some reconcile_pending"
    "load_suspended_sync_error row1 = Inr (survivor [p] susp)"
    using mark_loads [OF Cons.prems(1,2)] by blast
  show ?case
  proof (cases "ps = []")
    case True
    with r show ?thesis by simp
  next
    case False
    from Cons.IH [OF r(3) storable_survivor [OF Cons.prems(2)] this] r(1) show ?thesis by (simp add: survivor_append)
  qed
qed simp

lemma clear_restores:
  assumes "ss_last_error_code row = Some reconcile_pending" "load_suspended_sync_error row = Inr susp"
  shows "\<exists>row1. clear_pending_error_in_transaction [] (Some row) = Inr (Some row1) \<and> error_of row1 = susp"
  using assms by (cases susp) (auto simp: clear_pending_error_in_transaction_def load_suspended_sync_error_def error_of_def)

text \<open>C25: Reorganisations suspend the error the status row reported and the last drain restores it: whatever the number of
  suffixes replaced before the queue runs dry, clearing the pending status gives back that very error,
  with its code, height, message and details, unless one of the replacements covered the height of a
  structural error, and then no error is left.\<close>

theorem suspended_error_restored:
  assumes "error_of row = Some e" "se_code e \<noteq> reconcile_pending" "storable (Some e)" "ps \<noteq> []"
  shows "\<exists>row1 row2. mark_all sh ps row = Inr row1 \<and> ss_last_error_code row1 = Some reconcile_pending \<and>
    clear_pending_error_in_transaction [] (Some row1) = Inr (Some row2) \<and>
    error_of row2 = (if \<exists>p\<in>set ps. is_resolved_by e p then None else Some e)"
proof -
  have "load_suspended_sync_error row = Inr (Some e)"
    using assms(1,2) by (auto simp: load_suspended_sync_error_def error_of_def)
  from mark_all_loads [OF this assms(3,4)] obtain row1 where
    r: "mark_all sh ps row = Inr row1" "ss_last_error_code row1 = Some reconcile_pending"
    "load_suspended_sync_error row1 = Inr (survivor ps (Some e))" by blast
  from clear_restores [OF r(2,3)] r(1,2) show ?thesis by (auto simp: survivor_def)
qed

section \<open>Draining returns\<close>

definition nonprimary :: "queue_row list \<Rightarrow> nat" where
  "nonprimary rows = length (filter (\<lambda>r. \<not> qr_primary_pending r) rows)"

lemma upsert_hashes:
  assumes "\<forall>r. qr_hash (change r) = qr_hash r"
  shows "map qr_hash (upsert_queue_row change fresh rows) =
    (if qr_hash fresh \<in> qr_hash ` set rows then map qr_hash rows else map qr_hash rows @ [qr_hash fresh])"
  using assms by (auto simp: upsert_queue_row_def list_ex_iff intro!: rev_image_eqI)

lemma enqueue_hash_view:
  fixes now expand hash
  defines "q \<equiv> enqueue_core_reconcile_hash now expand hash"
  shows "distinct (map qr_hash rows) \<Longrightarrow> distinct (map qr_hash (q rows))"
    and "nonprimary (q rows) \<le> nonprimary rows"
    and "r \<in> set rows \<Longrightarrow> qr_hash r \<noteq> hash \<Longrightarrow> r \<in> set (q rows)"
    and "\<exists>r\<in>set (q rows). qr_hash r = hash \<and> qr_primary_pending r \<and> (expand \<longrightarrow> qr_expand_unchanged r)"
    and "r \<in> set rows \<Longrightarrow> \<exists>r'\<in>set (q rows). qr_hash r' = qr_hash r \<and> (qr_primary_pending r \<longrightarrow> qr_primary_pending r') \<and>
      (qr_expand_unchanged r \<longrightarrow> qr_expand_unchanged r') \<and> qr_generation r \<le> qr_generation r'"
proof -
  show "distinct (map qr_hash (q rows))" if "distinct (map qr_hash rows)"
    using that by (auto simp: q_def enqueue_core_reconcile_hash_def upsert_hashes simp del: distinct_map)
  have *: "length (filter (\<lambda>r. \<not> qr_primary_pending r) (map f rows)) \<le> length (filter (\<lambda>r. \<not> qr_primary_pending r) rows)"
    if "\<forall>r. qr_primary_pending r \<longrightarrow> qr_primary_pending (f r)" for f
    using that by (induction rows) auto
  let ?f = "\<lambda>r. if qr_hash r = hash then r\<lparr>qr_primary_pending := True,
         qr_expand_unchanged := (qr_expand_unchanged r \<or> expand \<or> \<not> qr_primary_pending r),
         qr_generation := qr_generation r + 1\<rparr> else r"
  show "nonprimary (q rows) \<le> nonprimary rows"
    unfolding q_def nonprimary_def enqueue_core_reconcile_hash_def upsert_queue_row_def
    using * [of ?f] by (simp del: filter_map)
  show "r \<in> set (q rows)" if "r \<in> set rows" "qr_hash r \<noteq> hash"
    using that by (auto simp: q_def enqueue_core_reconcile_hash_def upsert_queue_row_def image_iff)
  show "\<exists>r\<in>set (q rows). qr_hash r = hash \<and> qr_primary_pending r \<and> (expand \<longrightarrow> qr_expand_unchanged r)"
  proof (cases "\<exists>r\<in>set rows. qr_hash r = hash")
    case True
    then obtain r where r: "r \<in> set rows" "qr_hash r = hash" by blast
    then have "?f r \<in> set (q rows)"
      by (auto simp: q_def enqueue_core_reconcile_hash_def upsert_queue_row_def list_ex_iff)
    then show ?thesis using r(2) by (intro bexI [of _ "?f r"]) auto
  next
    case False
    then show ?thesis by (auto simp: q_def enqueue_core_reconcile_hash_def upsert_queue_row_def list_ex_iff)
  qed
  show "\<exists>r'\<in>set (q rows). qr_hash r' = qr_hash r \<and> (qr_primary_pending r \<longrightarrow> qr_primary_pending r') \<and>
      (qr_expand_unchanged r \<longrightarrow> qr_expand_unchanged r') \<and> qr_generation r \<le> qr_generation r'" if r: "r \<in> set rows"
  proof -
    have "?f r \<in> set (q rows)"
      using r by (auto simp: q_def enqueue_core_reconcile_hash_def upsert_queue_row_def list_ex_iff)
    then show ?thesis by (intro bexI [of _ "?f r"]) auto
  qed
qed

lemma enqueue_hashes_view:
  shows "distinct (map qr_hash rows) \<Longrightarrow> distinct (map qr_hash (enqueue_core_reconcile_hashes now hashes expand rows))"
    and "nonprimary (enqueue_core_reconcile_hashes now hashes expand rows) \<le> nonprimary rows"
    and "r \<in> set rows \<Longrightarrow> qr_hash r \<notin> set hashes \<Longrightarrow> r \<in> set (enqueue_core_reconcile_hashes now hashes expand rows)"
  unfolding enqueue_core_reconcile_hashes_def
  by (induction hashes arbitrary: rows) (auto intro: enqueue_hash_view order_trans [OF _ enqueue_hash_view(2)] simp del: distinct_map)

lemma enqueue_hashes_keep:
  assumes "r \<in> set rows"
  shows "\<exists>r'\<in>set (enqueue_core_reconcile_hashes now hashes expand rows). qr_hash r' = qr_hash r \<and>
    (qr_primary_pending r \<longrightarrow> qr_primary_pending r') \<and> (qr_expand_unchanged r \<longrightarrow> qr_expand_unchanged r') \<and>
    qr_generation r \<le> qr_generation r'"
  using assms unfolding enqueue_core_reconcile_hashes_def
proof (induction hashes arbitrary: rows r)
  case Nil
  then show ?case by auto
next
  case (Cons h hs)
  obtain r1 where r1: "r1 \<in> set (enqueue_core_reconcile_hash now expand h rows)" "qr_hash r1 = qr_hash r"
    "qr_primary_pending r \<longrightarrow> qr_primary_pending r1" "qr_expand_unchanged r \<longrightarrow> qr_expand_unchanged r1"
    "qr_generation r \<le> qr_generation r1"
    using enqueue_hash_view(5) [OF Cons.prems] by blast
  from Cons.IH [OF r1(1)] r1(2-5) show ?case by fastforce
qed

lemma enqueue_hashes_pending:
  assumes "h \<in> set hashes"
  shows "\<exists>r\<in>set (enqueue_core_reconcile_hashes now hashes expand rows). qr_hash r = h \<and> qr_primary_pending r \<and>
    (expand \<longrightarrow> qr_expand_unchanged r)"
proof -
  obtain as bs where hs: "hashes = as @ h # bs" using assms by (auto dest: split_list)
  let ?mid = "enqueue_core_reconcile_hash now expand h (enqueue_core_reconcile_hashes now as expand rows)"
  have eq: "enqueue_core_reconcile_hashes now hashes expand rows = enqueue_core_reconcile_hashes now bs expand ?mid"
    by (simp add: hs enqueue_core_reconcile_hashes_def)
  obtain r where r: "r \<in> set ?mid" "qr_hash r = h" "qr_primary_pending r" "expand \<longrightarrow> qr_expand_unchanged r"
    using enqueue_hash_view(4) by blast
  from enqueue_hashes_keep [OF r(1), of now bs expand] r(2-4) show ?thesis unfolding eq by auto
qed

lemma settle_distinct:
  assumes "distinct (map qr_hash rows)"
  shows "distinct (map qr_hash (durable_settle now h g changed rows))"
proof -
  have exp: "distinct (map qr_hash (enqueue_core_reconcile_expansions now hs rows))" if "distinct (map qr_hash rows)" for hs rows
    using that unfolding enqueue_core_reconcile_expansions_def
    by (induction hs arbitrary: rows) (auto simp: upsert_hashes simp del: distinct_map)
  have settle: "distinct (map qr_hash (settle_core_reconcile_primary h g c rows))" if "distinct (map qr_hash rows)" for c rows
  proof -
    have "map qr_hash (map (\<lambda>r. if P r then r\<lparr>qr_primary_pending := False, qr_generation := qr_generation r + 1\<rparr> else r) rows) =
      map qr_hash rows" for P by auto
    moreover have "distinct (map qr_hash (filter P rows))" for P using that by (rule distinct_map_filter)
    ultimately show ?thesis using that by (simp add: settle_core_reconcile_primary_def Let_def del: map_map distinct_map)
  qed
  show ?thesis using assms unfolding durable_settle_def Let_def by (auto intro!: settle exp simp del: distinct_map)
qed

lemma next_work_in: "load_next_core_reconcile_work rows = Some w \<Longrightarrow> w \<in> set rows"
  unfolding load_next_core_reconcile_work_def
  by (cases "sort_key (\<lambda>r. (qr_enqueued_at r, qr_hash r)) rows") (auto dest!: arg_cong [where f = set])

lemma next_work_None: "load_next_core_reconcile_work rows = None \<longleftrightarrow> rows = []"
  unfolding load_next_core_reconcile_work_def
  by (cases "sort_key (\<lambda>r. (qr_enqueued_at r, qr_hash r)) rows") (auto dest!: arg_cong [where f = set])

lemma expand_view:
  assumes d: "distinct (map qr_hash (co_queue st))" and w: "w \<in> set (co_queue st)" "\<not> qr_primary_pending w"
    and x: "expand_core_reconcile_work now w st = Inr st'"
  shows "distinct (map qr_hash (co_queue st'))" "nonprimary (co_queue st') < nonprimary (co_queue st)"
proof -
  have u: "r = w" if "r \<in> set (co_queue st)" "qr_hash r = qr_hash w" for r
    using d w(1) that by (simp add: distinct_map inj_on_def)
  have f: "List.find (\<lambda>r. qr_hash r = qr_hash w) (co_queue st) = Some w"
  proof (cases "List.find (\<lambda>r. qr_hash r = qr_hash w) (co_queue st)")
    case None
    then show ?thesis using w(1) by (auto simp: find_None_iff)
  next
    case (Some r)
    then have "r \<in> set (co_queue st)" "qr_hash r = qr_hash w" by (auto simp: find_Some_iff)
    with Some u show ?thesis by simp
  qed
  define queued where "queued = (if durable_dependents (co_db st) (qr_hash w) \<noteq> [] then
    enqueue_core_reconcile_hashes now (durable_dependents (co_db st) (qr_hash w)) False (co_queue st) else co_queue st)"
  have q': "co_queue st' = filter (\<lambda>r. \<not> (qr_hash r = qr_hash w \<and> \<not> qr_primary_pending r \<and>
      qr_generation r = qr_generation w)) queued"
    using x w(2) unfolding expand_core_reconcile_work_def f queued_def Let_def by (auto simp: result_simps)
  have dq: "distinct (map qr_hash queued)" unfolding queued_def using enqueue_hashes_view(1) [OF d] d by simp
  show "distinct (map qr_hash (co_queue st'))" unfolding q' by (rule distinct_map_filter [OF dq])
  have "qr_hash w \<notin> set (durable_dependents (co_db st) (qr_hash w))" by (auto simp: durable_dependents_def)
  then have wq: "w \<in> set queued" unfolding queued_def using enqueue_hashes_view(3) [OF w(1)] w(1) by simp
  have "nonprimary (co_queue st') < nonprimary queued"
  proof -
    have "filter (\<lambda>r. \<not> qr_primary_pending r) (co_queue st') = filter (\<lambda>r. \<not> (qr_hash r = qr_hash w \<and> qr_generation r = qr_generation w))
        (filter (\<lambda>r. \<not> qr_primary_pending r) queued)"
      unfolding q' filter_filter by (rule filter_cong) auto
    moreover have "w \<in> set (filter (\<lambda>r. \<not> qr_primary_pending r) queued)" using wq w(2) by simp
    ultimately show ?thesis unfolding nonprimary_def by (simp only:) (rule length_filter_less [of w], simp_all)
  qed
  moreover have "nonprimary queued \<le> nonprimary (co_queue st)" unfolding queued_def using enqueue_hashes_view(2) by simp
  ultimately show "nonprimary (co_queue st') < nonprimary (co_queue st)" by simp
qed

lemma strict_distinct:
  assumes "reconcile_one_block_strict E K now w st s = (Inr st', s')" "distinct (map qr_hash (co_queue st))"
  shows "distinct (map qr_hash (co_queue st'))"
  using assms unfolding reconcile_one_block_strict_def rm_bind_def rm_pure_def
  by (auto split: prod.splits sum.splits intro: settle_distinct simp del: distinct_map)

lemma core_drain_loop_returns:
  assumes "distinct (map qr_hash (co_queue st))"
  shows "\<exists>r st' s'. core_drain_loop E K clock budget unlimited parents items st s = Some (r, st', s') \<and>
    (r = Inr True \<longrightarrow> co_queue st' = [])"
  using assms
proof (induction "(budget - parents, nonprimary (co_queue st))" arbitrary: parents items st s rule: wf_induct_rule [OF wf_lex_prod [OF wf_less_than wf_less_than]])
  case (1 parents st items s)
  note IH = 1(1)
  show ?case
  proof (cases "load_next_core_reconcile_work (co_queue st)")
    case None
    then show ?thesis
      using None [unfolded next_work_None] by (subst core_drain_loop.simps) (auto split: sum.splits)
  next
    case (Some w)
    note w = next_work_in [OF Some]
    show ?thesis
    proof (cases "qr_primary_pending w")
      case True
      show ?thesis
      proof (cases "(\<not> unlimited \<and> budget \<le> items) \<or> budget \<le> parents")
        case stop: True
        with True Some show ?thesis by (subst core_drain_loop.simps) auto
      next
        case go: False
        obtain x s1 where x: "reconcile_one_block_strict E K (clock items) w st s = (x, s1)" by fastforce
        show ?thesis
        proof (cases x)
          case (Inl e)
          with True Some go x show ?thesis by (subst core_drain_loop.simps) auto
        next
          case (Inr st1)
          have "\<exists>r st' s'. core_drain_loop E K clock budget unlimited (parents + 1) (items + 1) st1 s1 = Some (r, st', s') \<and>
              (r = Inr True \<longrightarrow> co_queue st' = [])"
            by (rule IH) (use go strict_distinct [OF x [unfolded Inr] 1(2)] in auto)
          with True Some go x Inr show ?thesis by (subst core_drain_loop.simps) auto
        qed
      qed
    next
      case False
      show ?thesis
      proof (cases "\<not> unlimited \<and> budget \<le> items")
        case stop: True
        with False Some show ?thesis by (subst core_drain_loop.simps) auto
      next
        case go: False
        show ?thesis
        proof (cases "expand_core_reconcile_work (clock items) w st")
          case (Inl e)
          with False Some go show ?thesis by (subst core_drain_loop.simps) auto
        next
          case (Inr st1)
          note v = expand_view [OF 1(2) w False Inr]
          have "\<exists>r st' s'. core_drain_loop E K clock budget unlimited parents (items + 1) st1 s = Some (r, st', s') \<and>
              (r = Inr True \<longrightarrow> co_queue st' = [])"
            by (rule IH) (use v in auto)
          with False Some go Inr show ?thesis by (subst core_drain_loop.simps) auto
        qed
      qed
    qed
  qed
qed

text \<open>Draining the durable queue always returns, whatever the classifier answers: within the budget of parents, the
  expansions, which are not counted when progress is reported, cannot go on for ever, since each one
  removes its own row and only ever queues parents.  When it reports the queue drained, the queue is
  empty.\<close>

theorem core_drain_returns:
  assumes "distinct (map qr_hash (co_queue st))"
  shows "\<exists>r st' s'. drain_core_reconcile_queue_up_to E K clock budget unlimited st s = Some (r, st', s') \<and>
    (r = Inr True \<longrightarrow> co_queue st' = [])"
  unfolding drain_core_reconcile_queue_up_to_def by (rule core_drain_loop_returns [OF assms])

section \<open>Witnesses\<close>

definition demo_ancestor_row :: block_row where
  "demo_ancestor_row = synthesized_row demo_env demo_empty (demo_canonical_header\<lparr>ch_hash := demo_node_hash 14,
     ch_prev_hash := demo_node_hash 13, ch_header := Parent_Classifier.demo_chain 14, ch_height := 14\<rparr>)"

definition demo_sync :: sync_state where
  "demo_sync = \<lparr>ss_target_tip_height = None, ss_target_tip_hash = None, ss_contiguous_complete_height = 15,
     ss_last_scanned_height = None, ss_last_attempted_height = None, ss_last_error_code = Some ''backbone_rpc_error'',
     ss_last_error_height = Some 9, ss_last_error = None, ss_last_error_details = JObject []\<rparr>"

definition demo_state :: core_state where
  "demo_state = \<lparr>co_db = demo_empty\<lparr>db_blocks := [demo_ancestor_row, demo_row]\<rparr>, co_queue = [], co_sync = Some demo_sync\<rparr>"

definition demo_pending :: replacement_pending where
  "demo_pending = \<lparr>rp_contiguous_complete_height = 15, rp_common_ancestor_height = 14, rp_first_height = 15,
     rp_target_tip_height = 15, rp_target_tip_hash = demo_node_hash 16, rp_sync_target_tip_height = 15,
     rp_sync_target_tip_hash = demo_node_hash 16, rp_displaced_blocks = 1, rp_queued_hashes = 2\<rparr>"

theorem suspended_error_restored_witness:
  "\<exists>row1 row2. mark_all (\<lambda>_. []) [demo_pending, demo_pending] demo_sync = Inr row1 \<and>
     clear_pending_error_in_transaction [] (Some row1) = Inr (Some row2) \<and> error_of row2 = error_of demo_sync"
proof -
  have e: "error_of demo_sync = Some \<lparr>se_code = ''backbone_rpc_error'', se_height = Some 9, se_message = None, se_details = JObject []\<rparr>"
    by (simp add: error_of_def demo_sync_def)
  show ?thesis
    using suspended_error_restored [OF e, of "[demo_pending, demo_pending]" "\<lambda>_. []"] e
    by (auto simp: reconcile_pending_def storable_def i32_ok_def is_resolved_by_def suffix_resolved_structural_errors_def)
qed

definition demo_work :: queue_row where
  "demo_work = \<lparr>qr_hash = demo_node_hash 15, qr_primary_pending = False, qr_expand_unchanged = False, qr_generation = 1, qr_enqueued_at = 0\<rparr>"

theorem core_drain_returns_witness:
  "\<exists>r st' s'. drain_core_reconcile_queue_up_to demo_env (ClassifierOff :: unit configured_classifier) int 2 True
     (demo_state\<lparr>co_queue := [demo_work]\<rparr>) () = Some (r, st', s') \<and> (r = Inr True \<longrightarrow> co_queue st' = [])"
  by (rule core_drain_returns) simp

end
