(* ===== verification/Suffix_Replacement.thy ===== *)
theory Suffix_Replacement
  imports Core_Suffix
begin

text \<open>
  What replacing a canonical suffix does to the block table.  Each of the three passes of
  \<open>apply_suffix_mutation\<close> is described by the kind, height and competitor of every row before and after
  it; the passes compose because the replacements, the displaced rows and the other rows are disjoint.
\<close>

section \<open>Reconciling with a trusted verdict\<close>

text \<open>The identity columns of an event, which no reconciliation changes.\<close>

definition event_identity :: "event_row \<Rightarrow> int \<times> bytes \<times> bytes \<times> int option \<times> bool" where
  "event_identity e = (er_id e, er_parent_hash e, er_parent_header_bytes e, er_revoked_at e, er_pow_validates_btc_target e)"

lemma apply_keeps_identity:
  assumes "apply_event_classification ev c events = Inr events'"
  shows "map event_identity events' = map event_identity events"
proof -
  define f where "f e = (if er_parent_hash e = er_parent_hash ev \<and> er_revoked_at e = None \<and>
       (pk_kind c \<noteq> Unknown \<or> er_parent_kind e = Unknown \<or> er_parent_kind e = InvalidBlock)
     then e\<lparr>er_parent_kind := pk_kind c,
            er_parent_height := (if pk_kind c = Canonical \<or> pk_kind c = Stale \<or> pk_kind c = InvalidBlock then pk_height c else None),
            er_difficulty_epoch_ok := coalesce (pk_difficulty_epoch_ok c) (er_difficulty_epoch_ok e)\<rparr>
     else e)" for e :: event_row
  have "events' = map f events"
    using assms unfolding apply_event_classification_def Let_def f_def [symmetric] by (simp split: if_split_asm)
  moreover have "event_identity (f e) = event_identity e" for e by (simp add: event_identity_def f_def)
  ultimately show ?thesis by simp
qed

definition events_clean :: "read_model_env \<Rightarrow> bytes set \<Rightarrow> event_row list \<Rightarrow> bool" where
  "events_clean E hashes events \<longleftrightarrow> distinct (map er_id events) \<and>
     (\<forall>e\<in>set events. er_parent_hash e \<in> hashes \<and> er_revoked_at e = None \<longrightarrow>
        er_pow_validates_btc_target e \<and>
        (case deserialize_header (rm_lib E) (er_parent_header_bytes e) of
           Some hdr \<Rightarrow> invalid_block_lookup (rm_catalogue E) (block_hash (rm_lib E) hdr) = None | None \<Rightarrow> True))"

lemma events_clean_identity:
  assumes "map event_identity events' = map event_identity events" "events_clean E hashes events"
  shows "events_clean E hashes events'"
proof -
  have ids: "map er_id es = map fst (map event_identity es)" for es by (simp add: event_identity_def)
  have d: "distinct (map er_id events')"
    using assms(2) unfolding events_clean_def ids assms(1) by (rule conjunct1)
  show ?thesis unfolding events_clean_def
  proof (intro conjI d ballI impI)
    fix e assume e: "e \<in> set events'" "er_parent_hash e \<in> hashes \<and> er_revoked_at e = None"
    have "event_identity e \<in> set (map event_identity events)" using e(1) unfolding assms(1) [symmetric] by simp
    then obtain x where x: "x \<in> set events" "event_identity x = event_identity e" by auto
    then have f: "er_parent_hash x = er_parent_hash e" "er_parent_header_bytes x = er_parent_header_bytes e"
      "er_revoked_at x = er_revoked_at e" "er_pow_validates_btc_target x = er_pow_validates_btc_target e"
      by (simp_all add: event_identity_def)
    have "er_pow_validates_btc_target x \<and>
        (case deserialize_header (rm_lib E) (er_parent_header_bytes x) of
           Some hdr \<Rightarrow> invalid_block_lookup (rm_catalogue E) (block_hash (rm_lib E) hdr) = None | None \<Rightarrow> True)"
      by (rule mp [OF bspec [OF conjunct2 [OF assms(2) [unfolded events_clean_def]] x(1)]]) (simp add: f e(2))
    then show "er_pow_validates_btc_target e"
      "case deserialize_header (rm_lib E) (er_parent_header_bytes e) of
           Some hdr \<Rightarrow> invalid_block_lookup (rm_catalogue E) (block_hash (rm_lib E) hdr) = None | None \<Rightarrow> True"
      by (simp_all add: f)
  qed
qed

lemma anchor_event:
  assumes d: "distinct (map er_id events)" and a: "find_anchor_event_for_block events hash = Some i"
  obtains ev where "load_event events i = Inr ev" "ev \<in> set events" "er_parent_hash ev = hash" "er_revoked_at ev = None"
proof -
  obtain ev es where s: "sort_key anchor_key (active_events events hash) = ev # es" "er_id ev = i"
    using a by (auto simp: find_anchor_event_for_block_def split: list.splits)
  have "ev \<in> set (active_events events hash)"
    using arg_cong [OF s(1), of set] unfolding set_sort by (simp add: set_eq_iff)
  then have ev: "ev \<in> set events" "er_parent_hash ev = hash" "er_revoked_at ev = None" by (simp_all add: active_events_def)
  have "List.find (\<lambda>e. er_id e = i) events = Some ev"
    using d ev(1) s(2) by (induction events) (auto simp: rev_image_eqI)
  then show thesis using that ev by (simp add: load_event_def)
qed

lemma rollup_view:
  assumes "upsert_block_row new EventRollup blocks = Inr blocks'"
  shows "find_block blocks' h = (if h = br_hash new
    then Some (case find_block blocks h of None \<Rightarrow> new | Some old \<Rightarrow> event_rollup_set old new) else find_block blocks h)"
proof (cases "find_block blocks (br_hash new)")
  case None
  then have "blocks' = blocks @ [new]" using assms by (simp add: upsert_block_row_def result_simps)
  then show ?thesis using None by (simp add: find_block_snoc split: option.splits)
next
  case (Some old)
  have "find_block blocks' (br_hash new) = Some (event_rollup_set old new)" by (rule upserted_rollup [OF assms Some])
  moreover have "blocks' = blocks \<or> blocks' = put_block (event_rollup_set old new) blocks"
    using assms Some by (simp add: upsert_block_row_def result_simps split: if_splits)
  ultimately show ?thesis using Some by (auto simp: find_block_put)
qed

definition placed_at :: "block_row list \<Rightarrow> bytes \<Rightarrow> block_kind \<Rightarrow> int \<Rightarrow> bytes option \<Rightarrow> bool" where
  "placed_at blocks h kind height rival \<longleftrightarrow> (\<exists>row. find_block blocks h = Some row \<and> br_kind row = kind \<and>
     br_height row = Some height \<and> br_canonical_competitor_hash row = rival)"

lemma write_placed:
  assumes kind: "pk_kind c = Canonical \<or> pk_kind c = Stale" and height: "pk_height c = Some height"
    and sib: "pk_canonical_predecessor_header c = None" "pk_canonical_competitor_header c = None"
    and act: "active_events (db_events db) (er_parent_hash ev) \<noteq> []"
    and w: "write_event_classification E ev c db = Inr (db', changed)"
  shows "map event_identity (db_events db') = map event_identity (db_events db)"
    and "h \<noteq> er_parent_hash ev \<Longrightarrow> find_block (db_blocks db') h = find_block (db_blocks db) h"
    and "placed_at (db_blocks db') (er_parent_hash ev) (if pk_kind c = Canonical then BkCanonical else BkStale) height
      (if pk_kind c = Canonical then None else pk_canonical_competitor_hash c)"
proof -
  have s: "option_list (pk_canonical_predecessor_header c) @ option_list (pk_canonical_competitor_header c) = []"
    by (simp add: sib option_list_def)
  obtain events where
    a: "apply_event_classification ev c (db_events db) = Inr events" and
    r: "rebuild_parent_read_model E (er_parent_hash ev) (Some c) (db\<lparr>db_events := events\<rparr>) = Inr db'"
    using w unfolding write_event_classification_def s by (auto simp: result_simps)
  have "active_events events (er_parent_hash ev) \<noteq> []" by (rule apply_keeps_active [OF a act])
  then obtain rollup where ru: "load_parent_rollup (db_events (db\<lparr>db_events := events\<rparr>)) (er_parent_hash ev) = Some rollup"
    by (simp add: load_parent_rollup_def Let_def)
  have eff: "effective_classification E' bs e h c = c" for E' bs e h
    using kind by (auto simp: effective_classification_def)
  obtain ev2 hdr2 columns blocks where
    col: "parent_columns c = Inr columns" and
    up: "upsert_block_row (rebuilt_row E (db\<lparr>db_events := events\<rparr>) (er_parent_hash ev) rollup ev2 hdr2 c columns)
        EventRollup (db_blocks db) = Inr blocks" and db': "db' = (db\<lparr>db_events := events\<rparr>)\<lparr>db_blocks := blocks\<rparr>"
    by (rule rebuild_cases [OF r ru]) (simp add: eff)
  let ?new = "rebuilt_row E (db\<lparr>db_events := events\<rparr>) (er_parent_hash ev) rollup ev2 hdr2 c columns"
  have new: "br_hash ?new = er_parent_hash ev" by (cases columns) (simp add: rebuilt_row_def)
  show "map event_identity (db_events db') = map event_identity (db_events db)"
    using apply_keeps_identity [OF a] by (simp add: db')
  show "find_block (db_blocks db') h = find_block (db_blocks db) h" if "h \<noteq> er_parent_hash ev"
    using rollup_view [OF up, of h] that by (simp add: db' new)
  have cols: "br_kind ?new = (if pk_kind c = Canonical then BkCanonical else BkStale)" "br_height ?new = Some height"
    "br_canonical_competitor_hash ?new = (if pk_kind c = Canonical then None else pk_canonical_competitor_hash c)"
    using kind col height by (auto simp: parent_columns_def rebuilt_row_def)
  show "placed_at (db_blocks db') (er_parent_hash ev) (if pk_kind c = Canonical then BkCanonical else BkStale) height
      (if pk_kind c = Canonical then None else pk_canonical_competitor_hash c)"
    using rollup_view [OF up, of "er_parent_hash ev"] cols
    by (simp add: placed_at_def db' new event_rollup_set_def split: option.splits)
qed

lemma trusted_view:
  assumes kind: "pk_kind c = Canonical \<or> pk_kind c = Stale" and height: "pk_height c = Some height"
    and sib: "pk_canonical_predecessor_header c = None" "pk_canonical_competitor_header c = None"
    and a: "find_anchor_event_for_block (db_events db) hash = Some i"
    and clean: "events_clean E hashes (db_events db)" "hash \<in> hashes"
    and r: "reconcile_trusted E i c db = Inr db'"
  shows "map event_identity (db_events db') = map event_identity (db_events db)"
    and "h \<noteq> hash \<Longrightarrow> find_block (db_blocks db') h = find_block (db_blocks db) h"
    and "placed_at (db_blocks db') hash (if pk_kind c = Canonical then BkCanonical else BkStale) height
      (if pk_kind c = Canonical then None else pk_canonical_competitor_hash c)"
proof -
  obtain ev where ev: "load_event (db_events db) i = Inr ev" "ev \<in> set (db_events db)" "er_parent_hash ev = hash"
      "er_revoked_at ev = None"
    by (rule anchor_event [OF _ a]) (use clean in \<open>simp add: events_clean_def\<close>)
  obtain ch where m: "reconcile_one_event_in_txn E (ClassifierOff :: unit configured_classifier) i (Some (trusted c)) db () =
      (Inr (db', ch), ())"
    using r unfolding reconcile_trusted_def by (auto split: prod.splits sum.splits)
  have pow: "er_pow_validates_btc_target ev"
    and cat: "case deserialize_header (rm_lib E) (er_parent_header_bytes ev) of
      Some hdr \<Rightarrow> invalid_block_lookup (rm_catalogue E) (block_hash (rm_lib E) hdr) = None | None \<Rightarrow> True"
    using clean ev unfolding events_clean_def by auto
  have act: "active_events (db_events db) (er_parent_hash ev) \<noteq> []"
    using ev by (auto simp: active_events_def filter_empty_conv)
  have w: "write_event_classification E ev c db = Inr (db', ch)"
    using ev(1) m
  proof (cases rule: reconcile_cases)
    case (2 hdr c')
    obtain hdr0 where h0: "deserialize_header (rm_lib E) (er_parent_header_bytes ev) = Some hdr0"
      using 2(2) by (cases "deserialize_header (rm_lib E) (er_parent_header_bytes ev)") (simp_all add: classify_event_parent_def rm_defs)
    have "c' = c" using 2(2) h0 cat
      by (simp add: classify_event_parent_def rm_defs resolve_parent_classification_def result_simps trusted_def)
    moreover have "effective_classification E (db_blocks db) ev hdr c = c" using kind by (auto simp: effective_classification_def)
    ultimately show ?thesis using 2(3) by simp
  qed (use pow in simp)
  note p = write_placed [OF kind height sib act w]
  show "map event_identity (db_events db') = map event_identity (db_events db)" by (rule p(1))
  show "h \<noteq> hash \<Longrightarrow> find_block (db_blocks db') h = find_block (db_blocks db) h" using p(2) ev(3) by simp
  show "placed_at (db_blocks db') hash (if pk_kind c = Canonical then BkCanonical else BkStale) height
      (if pk_kind c = Canonical then None else pk_canonical_competitor_hash c)" using p(3) ev(3) by simp
qed

section \<open>The three passes\<close>

definition kind_and_height :: "block_row list \<Rightarrow> bytes \<Rightarrow> (block_kind \<times> int option) option" where
  "kind_and_height blocks h = map_option (\<lambda>r. (br_kind r, br_height r)) (find_block blocks h)"

lemma upsert_replacement_view:
  assumes u: "upsert_replacement E r db = Inr db'"
    and agree: "\<forall>old. find_block (db_blocks db) (replacement_hash E r) = Some old \<longrightarrow> br_kind old = BkCanonical \<longrightarrow>
      br_height old = Some (cc_height r)"
  shows "db_events db' = db_events db"
    and "h \<noteq> replacement_hash E r \<Longrightarrow> find_block (db_blocks db') h = find_block (db_blocks db) h"
    and "kind_and_height (db_blocks db') (replacement_hash E r) = Some (BkCanonical, Some (cc_height r))"
proof -
  define hdr where "hdr = \<lparr>ch_hash = block_hash (rm_lib E) (cc_header r), ch_prev_hash = h_prev_blockhash (cc_header r),
      ch_header = cc_header r, ch_height = cc_height r, ch_coinbase = Some (cc_coinbase r), ch_coinbase_unavailable = False\<rparr>"
  let ?new = "synthesized_row E db hdr"
  obtain blocks where b: "upsert_block_row ?new SynthesizedCore (db_blocks db) = Inr blocks" and db': "db' = db\<lparr>db_blocks := blocks\<rparr>"
    using u unfolding upsert_replacement_def upsert_core_canonical_header_with_coinbase_def hdr_def [symmetric]
      upsert_synthesized_canonical_def
    by (cases "upsert_block_row ?new SynthesizedCore (db_blocks db)") (simp_all add: result_simps)
  have new: "br_hash ?new = replacement_hash E r" "br_kind ?new = BkCanonical" "br_height ?new = Some (cc_height r)"
    "br_core_attested ?new"
    by (simp_all add: synthesized_row_def hdr_def replacement_hash_def)
  show "db_events db' = db_events db" by (simp add: db')
  show "find_block (db_blocks db') h = find_block (db_blocks db) h" if "h \<noteq> replacement_hash E r"
    using b that new(1) find_block_Some [of "db_blocks db"]
    by (cases "find_block (db_blocks db) (replacement_hash E r)")
      (auto simp: db' upsert_block_row_def result_simps find_block_snoc find_block_put split: if_splits option.splits)
  show "kind_and_height (db_blocks db') (replacement_hash E r) = Some (BkCanonical, Some (cc_height r))"
  proof (cases "find_block (db_blocks db) (replacement_hash E r)")
    case None
    then have "blocks = db_blocks db @ [?new\<lparr>br_btc_orphan_class := None\<rparr>]"
      using b by (simp add: upsert_block_row_def result_simps new(1))
    then show ?thesis using None new by (simp add: db' kind_and_height_def find_block_snoc)
  next
    case (Some old)
    have h: "br_hash old = replacement_hash E r" using find_block_Some [OF Some] by simp
    show ?thesis
    proof (cases "br_kind old = BkCanonical")
      case True
      have "br_kind (synthesized_set old ?new) = BkCanonical" "br_height (synthesized_set old ?new) = Some (cc_height r)"
        using True agree [rule_format, OF Some True] by (simp_all add: synthesized_set_def Let_def promotes_def coalesce_def)
      moreover have "blocks = db_blocks db \<or> blocks = put_block (synthesized_set old ?new) (db_blocks db)"
        using b Some by (simp add: upsert_block_row_def result_simps new(1) split: if_splits)
      ultimately show ?thesis using Some h True agree [rule_format, OF Some True]
        by (elim disjE) (simp_all add: db' kind_and_height_def find_block_put)
    next
      case False
      then have p: "promotes old ?new" by (simp add: promotes_def new)
      then have "blocks = put_block (synthesized_set old ?new) (db_blocks db)"
        using b Some by (simp add: upsert_block_row_def result_simps new(1) synthesized_where_def)
      moreover have "br_kind (synthesized_set old ?new) = BkCanonical" "br_height (synthesized_set old ?new) = Some (cc_height r)"
        using p by (simp_all add: synthesized_set_def Let_def new)
      ultimately show ?thesis using Some h by (simp add: db' kind_and_height_def find_block_put)
    qed
  qed
qed

lemma upserts_view:
  assumes "each (upsert_replacement E) rs db = Inr db'" "distinct (map (replacement_hash E) rs)"
    and "\<forall>r\<in>set rs. \<forall>old. find_block (db_blocks db) (replacement_hash E r) = Some old \<longrightarrow> br_kind old = BkCanonical \<longrightarrow>
      br_height old = Some (cc_height r)"
  shows "db_events db' = db_events db \<and>
    (\<forall>h. h \<notin> replacement_hash E ` set rs \<longrightarrow> find_block (db_blocks db') h = find_block (db_blocks db) h) \<and>
    (\<forall>r\<in>set rs. kind_and_height (db_blocks db') (replacement_hash E r) = Some (BkCanonical, Some (cc_height r)))"
  using assms
proof (induction rs arbitrary: db)
  case (Cons r rs)
  obtain db1 where u: "upsert_replacement E r db = Inr db1" "each (upsert_replacement E) rs db1 = Inr db'"
    using Cons.prems(1) by (auto simp: result_simps)
  have "\<forall>old. find_block (db_blocks db) (replacement_hash E r) = Some old \<longrightarrow> br_kind old = BkCanonical \<longrightarrow>
      br_height old = Some (cc_height r)" using Cons.prems(3) by simp
  note v = upsert_replacement_view [OF u(1) this]
  have ne: "replacement_hash E x \<noteq> replacement_hash E r" if "x \<in> set rs" for x
    using Cons.prems(2) imageI [OF that, of "replacement_hash E"] by (metis distinct.simps(2) list.simps(9) list.set_map)
  have agree: "\<forall>x\<in>set rs. \<forall>old. find_block (db_blocks db1) (replacement_hash E x) = Some old \<longrightarrow>
      br_kind old = BkCanonical \<longrightarrow> br_height old = Some (cc_height x)"
    using Cons.prems(3) v(2) [OF ne] by simp
  from Cons.IH [OF u(2) _ agree] Cons.prems(2) have IH:
    "db_events db' = db_events db1"
    "\<And>h. h \<notin> replacement_hash E ` set rs \<Longrightarrow> find_block (db_blocks db') h = find_block (db_blocks db1) h"
    "\<And>x. x \<in> set rs \<Longrightarrow> kind_and_height (db_blocks db') (replacement_hash E x) = Some (BkCanonical, Some (cc_height x))"
    by auto
  have r_out: "replacement_hash E r \<notin> replacement_hash E ` set rs" using Cons.prems(2) by auto
  have "kind_and_height (db_blocks db') (replacement_hash E r) = Some (BkCanonical, Some (cc_height r))"
    using v(3) IH(2) [OF r_out] by (simp add: kind_and_height_def)
  then show ?case using IH v(1,2) by auto
qed simp

lemma find_block_map:
  assumes "\<And>b. br_hash (f b) = br_hash b"
  shows "find_block (map f bs) h = map_option f (find_block bs h)"
  using assms by (induction bs) (simp_all add: find_block_def)

lemma rebind_view:
  "find_block (db_blocks (rebind_stale_competitors d c db)) h = map_option (\<lambda>b.
     if br_kind b = BkStale \<and> br_height b = Some (lk_height d) \<and> br_canonical_competitor_hash b = Some (lk_hash d)
     then b\<lparr>br_canonical_competitor_hash := Some c\<rparr> else b) (find_block (db_blocks db) h)"
  by (simp add: rebind_stale_competitors_def find_block_map)

text \<open>The rows that are not displaced keep kind and height, and their competitor unless it is displaced.\<close>

definition keeps_rows :: "bytes set \<Rightarrow> block_row list \<Rightarrow> block_row list \<Rightarrow> bool" where
  "keeps_rows gone old new \<longleftrightarrow> (\<forall>h. h \<notin> gone \<longrightarrow>
     kind_and_height new h = kind_and_height old h \<and>
     (\<forall>a b. find_block old h = Some a \<longrightarrow> find_block new h = Some b \<longrightarrow>
        br_canonical_competitor_hash a \<notin> Some ` gone \<longrightarrow>
        br_canonical_competitor_hash b = br_canonical_competitor_hash a))"

lemma demote_view:
  assumes d: "demote_displaced_parent E old c db = Inr db'"
    and clean: "events_clean E hashes (db_events db)" "lk_hash old \<in> hashes"
    and row: "find_block (db_blocks db) (lk_hash old) \<noteq> None"
  shows "map event_identity (db_events db') = map event_identity (db_events db)"
    and "h \<noteq> lk_hash old \<Longrightarrow> find_block (db_blocks db') h = find_block (db_blocks db) h"
    and "placed_at (db_blocks db') (lk_hash old) BkStale (lk_height old) (Some c)"
proof -
  have "map event_identity (db_events db') = map event_identity (db_events db) \<and>
    (\<forall>h. h \<noteq> lk_hash old \<longrightarrow> find_block (db_blocks db') h = find_block (db_blocks db) h) \<and>
    placed_at (db_blocks db') (lk_hash old) BkStale (lk_height old) (Some c)"
  proof (cases "find_anchor_event_for_block (db_events db) (lk_hash old)")
    case None
    let ?f = "\<lambda>b. if br_hash b = lk_hash old then demoted_row old c b else b"
    have db': "db' = db\<lparr>db_blocks := map ?f (db_blocks db)\<rparr>" using d None by (simp add: demote_displaced_parent_def)
    have f: "find_block (db_blocks db') h = map_option ?f (find_block (db_blocks db) h)" for h
      by (simp add: db' find_block_map demoted_row_def)
    obtain r where r: "find_block (db_blocks db) (lk_hash old) = Some r" using row by blast
    have "find_block (db_blocks db') h = find_block (db_blocks db) h" if "h \<noteq> lk_hash old" for h
      using that find_block_Some [of "db_blocks db" h] by (cases "find_block (db_blocks db) h") (auto simp: f)
    moreover have "placed_at (db_blocks db') (lk_hash old) BkStale (lk_height old) (Some c)"
      using find_block_Some [OF r] by (simp add: placed_at_def f r demoted_row_def)
    ultimately show ?thesis by (simp add: db')
  next
    case (Some i)
    have r: "reconcile_trusted E i (stale_classification old c) db = Inr db'"
      using d Some by (simp add: demote_displaced_parent_def)
    have k: "pk_kind (stale_classification old c) = Canonical \<or> pk_kind (stale_classification old c) = Stale"
      "pk_height (stale_classification old c) = Some (lk_height old)"
      "pk_canonical_predecessor_header (stale_classification old c) = None"
      "pk_canonical_competitor_header (stale_classification old c) = None"
      by (simp_all add: stale_classification_def)
    note v = trusted_view [OF k Some clean r]
    show ?thesis using v by (simp add: stale_classification_def)
  qed
  then show "map event_identity (db_events db') = map event_identity (db_events db)"
    "h \<noteq> lk_hash old \<Longrightarrow> find_block (db_blocks db') h = find_block (db_blocks db) h"
    "placed_at (db_blocks db') (lk_hash old) BkStale (lk_height old) (Some c)" by blast+
qed

lemma displace_view:
  assumes d: "displace E rh old db = Inr db'"
    and clean: "events_clean E hashes (db_events db)" "lk_hash old \<in> hashes"
    and row: "find_block (db_blocks db) (lk_hash old) \<noteq> None"
    and c: "lk_hash old \<notin> snd ` set rh"
  shows "map event_identity (db_events db') = map event_identity (db_events db)"
    and "keeps_rows {lk_hash old} (db_blocks db) (db_blocks db')"
    and "\<exists>c. map_of rh (lk_height old) = Some c \<and> placed_at (db_blocks db') (lk_hash old) BkStale (lk_height old) (Some c)"
proof -
  obtain c db1 where m: "map_of rh (lk_height old) = Some c" "demote_displaced_parent E old c db = Inr db1"
      "db' = rebind_stale_competitors old c db1"
    using d by (auto simp: displace_def result_simps split: option.splits)
  have "c \<in> snd ` set rh" using map_of_SomeD [OF m(1)] by force
  then have ne: "c \<noteq> lk_hash old" using assms(5) by blast
  note v = demote_view [OF m(2) clean row]
  show "map event_identity (db_events db') = map event_identity (db_events db)"
    using v(1) by (simp add: m(3) rebind_stale_competitors_def)
  show "keeps_rows {lk_hash old} (db_blocks db) (db_blocks db')"
    unfolding keeps_rows_def m(3) kind_and_height_def rebind_view
    using v(2) by (auto simp: map_option_case split: option.splits)
  show "\<exists>c. map_of rh (lk_height old) = Some c \<and> placed_at (db_blocks db') (lk_hash old) BkStale (lk_height old) (Some c)"
  proof -
    obtain row where r: "find_block (db_blocks db1) (lk_hash old) = Some row" "br_kind row = BkStale"
        "br_height row = Some (lk_height old)" "br_canonical_competitor_hash row = Some c"
      using v(3) unfolding placed_at_def by blast
    have "find_block (db_blocks db') (lk_hash old) = Some row" using r ne by (simp add: m(3) rebind_view)
    then show ?thesis using r m(1) by (simp add: placed_at_def)
  qed
qed

lemma keeps_rows_trans:
  assumes "keeps_rows A x y" "keeps_rows B y z"
  shows "keeps_rows (A \<union> B) x z"
  unfolding keeps_rows_def
proof (intro allI impI conjI)
  fix h assume h: "h \<notin> A \<union> B"
  have xy: "kind_and_height y h = kind_and_height x h" using assms(1) h unfolding keeps_rows_def by blast
  have yz: "kind_and_height z h = kind_and_height y h" using assms(2) h unfolding keeps_rows_def by blast
  show "kind_and_height z h = kind_and_height x h" using xy yz by simp
  fix a b assume ab: "find_block x h = Some a" "find_block z h = Some b"
    and r: "br_canonical_competitor_hash a \<notin> Some ` (A \<union> B)"
  obtain m where m: "find_block y h = Some m" using xy ab(1) by (auto simp: kind_and_height_def)
  have "br_canonical_competitor_hash m = br_canonical_competitor_hash a"
    using assms(1) h ab(1) m r unfolding keeps_rows_def by blast
  moreover have "br_canonical_competitor_hash b = br_canonical_competitor_hash m"
    using assms(2) h ab(2) m r calculation unfolding keeps_rows_def by (metis UnI2 image_Un)
  ultimately show "br_canonical_competitor_hash b = br_canonical_competitor_hash a" by simp
qed

lemma keeps_rows_placed:
  assumes "keeps_rows A x y" "h \<notin> A" "placed_at x h kind height rival" "rival \<notin> Some ` A"
  shows "placed_at y h kind height rival"
proof -
  obtain a where a: "find_block x h = Some a" "br_kind a = kind" "br_height a = Some height" "br_canonical_competitor_hash a = rival"
    using assms(3) by (auto simp: placed_at_def)
  have k: "kind_and_height y h = kind_and_height x h" using assms(1,2) unfolding keeps_rows_def by blast
  then obtain b where b: "find_block y h = Some b" "br_kind b = kind" "br_height b = Some height"
    using a by (auto simp: kind_and_height_def)
  have "br_canonical_competitor_hash b = br_canonical_competitor_hash a"
    using assms(1,2,4) a b(1) unfolding keeps_rows_def by blast
  then show ?thesis using a b by (simp add: placed_at_def)
qed

lemma displaced_view:
  assumes "each (displace E rh) ds db = Inr db'" "distinct (map lk_hash ds)"
    and "events_clean E hashes (db_events db)" "lk_hash ` set ds \<subseteq> hashes"
    and "\<forall>d\<in>set ds. find_block (db_blocks db) (lk_hash d) \<noteq> None"
    and "lk_hash ` set ds \<inter> snd ` set rh = {}"
  shows "map event_identity (db_events db') = map event_identity (db_events db) \<and>
    keeps_rows (lk_hash ` set ds) (db_blocks db) (db_blocks db') \<and>
    (\<forall>d\<in>set ds. \<exists>c. map_of rh (lk_height d) = Some c \<and>
       placed_at (db_blocks db') (lk_hash d) BkStale (lk_height d) (Some c))"
  using assms
proof (induction ds arbitrary: db)
  case Nil
  then show ?case by (auto simp: keeps_rows_def)
next
  case (Cons d ds)
  obtain db1 where u: "displace E rh d db = Inr db1" "each (displace E rh) ds db1 = Inr db'"
    using Cons.prems(1) by (auto simp: result_simps)
  have pre: "lk_hash d \<in> hashes" "find_block (db_blocks db) (lk_hash d) \<noteq> None" "lk_hash d \<notin> snd ` set rh"
    using Cons.prems by auto
  note v = displace_view [OF u(1) Cons.prems(3) pre]
  have ne: "lk_hash d \<notin> lk_hash ` set ds" using Cons.prems(2) by simp
  have rows: "\<forall>x\<in>set ds. find_block (db_blocks db1) (lk_hash x) \<noteq> None"
  proof
    fix x assume x: "x \<in> set ds"
    then have "lk_hash x \<noteq> lk_hash d" using ne by (metis imageI)
    then have "kind_and_height (db_blocks db1) (lk_hash x) = kind_and_height (db_blocks db) (lk_hash x)"
      using v(2) unfolding keeps_rows_def by blast
    moreover have "find_block (db_blocks db) (lk_hash x) \<noteq> None" using Cons.prems(5) x by simp
    ultimately show "find_block (db_blocks db1) (lk_hash x) \<noteq> None"
      by (cases "find_block (db_blocks db1) (lk_hash x)") (simp_all add: kind_and_height_def)
  qed
  have clean: "events_clean E hashes (db_events db1)" by (rule events_clean_identity [OF v(1) Cons.prems(3)])
  have IH: "map event_identity (db_events db') = map event_identity (db_events db1) \<and>
    keeps_rows (lk_hash ` set ds) (db_blocks db1) (db_blocks db') \<and>
    (\<forall>d\<in>set ds. \<exists>c. map_of rh (lk_height d) = Some c \<and>
       placed_at (db_blocks db') (lk_hash d) BkStale (lk_height d) (Some c))"
    by (rule Cons.IH [OF u(2) _ clean _ rows]) (use Cons.prems in auto)
  obtain c where c: "map_of rh (lk_height d) = Some c" "placed_at (db_blocks db1) (lk_hash d) BkStale (lk_height d) (Some c)"
    using v(3) by blast
  have "c \<in> snd ` set rh" using map_of_SomeD [OF c(1)] by force
  then have "Some c \<notin> Some ` lk_hash ` set ds" using Cons.prems(6) by auto
  then have "placed_at (db_blocks db') (lk_hash d) BkStale (lk_height d) (Some c)"
    using keeps_rows_placed [OF conjunct1 [OF conjunct2 [OF IH]] ne c(2)] by blast
  moreover have "keeps_rows (lk_hash ` set (d # ds)) (db_blocks db) (db_blocks db')"
    using keeps_rows_trans [OF v(2) conjunct1 [OF conjunct2 [OF IH]]] by simp
  ultimately show ?case using IH v(1) c(1) by auto
qed

lemma replacement_parent_view:
  assumes d: "reconcile_replacement_parent E r db = Inr db'"
    and clean: "events_clean E hashes (db_events db)" "replacement_hash E r \<in> hashes"
    and k: "kind_and_height (db_blocks db) (replacement_hash E r) = Some (BkCanonical, Some (cc_height r))"
  shows "map event_identity (db_events db') = map event_identity (db_events db) \<and>
    (\<forall>h. h \<noteq> replacement_hash E r \<longrightarrow> find_block (db_blocks db') h = find_block (db_blocks db) h) \<and>
    kind_and_height (db_blocks db') (replacement_hash E r) = Some (BkCanonical, Some (cc_height r))"
proof (cases "find_anchor_event_for_block (db_events db) (replacement_hash E r)")
  case None
  then show ?thesis using d k by (simp add: reconcile_replacement_parent_def)
next
  case (Some i)
  have r: "reconcile_trusted E i (canonical_classification r) db = Inr db'"
    using d Some by (simp add: reconcile_replacement_parent_def)
  have c: "pk_kind (canonical_classification r) = Canonical \<or> pk_kind (canonical_classification r) = Stale"
    "pk_height (canonical_classification r) = Some (cc_height r)"
    "pk_canonical_predecessor_header (canonical_classification r) = None"
    "pk_canonical_competitor_header (canonical_classification r) = None"
    by (simp_all add: canonical_classification_def)
  note v = trusted_view [OF c Some clean r]
  have "kind_and_height (db_blocks db') (replacement_hash E r) = Some (BkCanonical, Some (cc_height r))"
    using v(3) by (auto simp: placed_at_def kind_and_height_def canonical_classification_def)
  then show ?thesis using v(1,2) by blast
qed

lemma replacement_parents_view:
  assumes "each (reconcile_replacement_parent E) rs db = Inr db'"
    and "events_clean E hashes (db_events db)" "replacement_hash E ` set rs \<subseteq> hashes"
    and "\<forall>r\<in>set rs. kind_and_height (db_blocks db) (replacement_hash E r) = Some (BkCanonical, Some (cc_height r))"
    and "inj_on (replacement_hash E) (set rs)"
  shows "(\<forall>h. h \<notin> replacement_hash E ` set rs \<longrightarrow> find_block (db_blocks db') h = find_block (db_blocks db) h) \<and>
    (\<forall>r\<in>set rs. kind_and_height (db_blocks db') (replacement_hash E r) = Some (BkCanonical, Some (cc_height r)))"
  using assms
proof (induction rs arbitrary: db)
  case (Cons r rs)
  obtain db1 where u: "reconcile_replacement_parent E r db = Inr db1" "each (reconcile_replacement_parent E) rs db1 = Inr db'"
    using Cons.prems(1) by (auto simp: result_simps)
  have v: "map event_identity (db_events db1) = map event_identity (db_events db)"
    "\<And>h. h \<noteq> replacement_hash E r \<Longrightarrow> find_block (db_blocks db1) h = find_block (db_blocks db) h"
    "kind_and_height (db_blocks db1) (replacement_hash E r) = Some (BkCanonical, Some (cc_height r))"
    using replacement_parent_view [OF u(1) Cons.prems(2)] Cons.prems(3,4) by simp_all
  have all: "\<forall>x\<in>set (r # rs). kind_and_height (db_blocks db1) (replacement_hash E x) = Some (BkCanonical, Some (cc_height x))"
  proof
    fix x assume x: "x \<in> set (r # rs)"
    show "kind_and_height (db_blocks db1) (replacement_hash E x) = Some (BkCanonical, Some (cc_height x))"
    proof (cases "replacement_hash E x = replacement_hash E r")
      case True
      then have "x = r" using inj_onD [OF Cons.prems(5) True x] by simp
      then show ?thesis using v(3) by simp
    next
      case False
      have "kind_and_height (db_blocks db) (replacement_hash E x) = Some (BkCanonical, Some (cc_height x))"
        using Cons.prems(4) x by blast
      then show ?thesis unfolding kind_and_height_def v(2) [OF False] .
    qed
  qed
  have IH: "(\<forall>h. h \<notin> replacement_hash E ` set rs \<longrightarrow> find_block (db_blocks db') h = find_block (db_blocks db1) h) \<and>
    (\<forall>r\<in>set rs. kind_and_height (db_blocks db') (replacement_hash E r) = Some (BkCanonical, Some (cc_height r)))"
    by (rule Cons.IH [OF u(2) events_clean_identity [OF v(1) Cons.prems(2)]])
      (use Cons.prems(3,5) all in \<open>auto simp: inj_on_def\<close>)
  have "kind_and_height (db_blocks db') (replacement_hash E r) = Some (BkCanonical, Some (cc_height r))"
  proof (cases "replacement_hash E r \<in> replacement_hash E ` set rs")
    case True
    then obtain x where "x \<in> set rs" "replacement_hash E x = replacement_hash E r" by auto
    moreover from this have "x = r" using inj_onD [OF Cons.prems(5), of x r] by simp
    ultimately show ?thesis using IH by blast
  next
    case False
    then show ?thesis using IH v(3) by (simp add: kind_and_height_def)
  qed
  then show ?case using IH v(2) by auto
qed simp

section \<open>The replaced suffix\<close>

lemma check_links_heights:
  assumes "check_links E rs = Inr ()" "rs \<noteq> []"
  shows "map cc_height rs = [cc_height (hd rs) .. cc_height (last rs)]"
  using assms
proof (induction E rs rule: check_links.induct)
  case (1 E a b rest)
  then have IH: "map cc_height (b # rest) = [cc_height b .. cc_height (last (b # rest))]" "cc_height b = cc_height a + 1"
    by (simp_all split: if_splits)
  have "cc_height b \<le> cc_height (last (b # rest))"
  proof (rule ccontr)
    assume "\<not> cc_height b \<le> cc_height (last (b # rest))"
    then have "[cc_height b .. cc_height (last (b # rest))] = []" by simp
    then show False using IH(1) by simp
  qed
  then have "[cc_height a .. cc_height (last (b # rest))] = cc_height a # [cc_height b .. cc_height (last (b # rest))]"
    using IH(2) upto.simps [of "cc_height a" "cc_height (last (b # rest))"] by simp
  then show ?case using IH(1) by simp
qed simp_all

text \<open>What the tables hold before a replacement: one row per hash, no two replacements with one hash, a canonical row of
  a replacement at its height, and events of the blocks involved that meet the target and are not catalogued.\<close>

definition suffix_consistent :: "read_model_env \<Rightarrow> core_canonical_replacement list \<Rightarrow> database \<Rightarrow> bool" where
  "suffix_consistent E rs db \<longleftrightarrow> distinct (map br_hash (db_blocks db)) \<and> distinct (map (replacement_hash E) rs) \<and>
     (\<forall>r\<in>set rs. \<forall>b\<in>set (db_blocks db). br_hash b = replacement_hash E r \<and> br_kind b = BkCanonical \<longrightarrow>
        br_height b = Some (cc_height r)) \<and>
     events_clean E (replacement_hash E ` set rs \<union> br_hash ` set (filter (\<lambda>b. br_kind b = BkCanonical) (db_blocks db)))
       (db_events db)"

lemma locked_rows:
  assumes d: "distinct (map br_hash blocks)"
  shows "distinct (map lk_hash (load_locked_canonical_rows blocks a b))"
    and "d \<in> set (load_locked_canonical_rows blocks a b) \<Longrightarrow>
      kind_and_height blocks (lk_hash d) = Some (BkCanonical, Some (lk_height d)) \<and> a \<le> lk_height d \<and> lk_height d \<le> b"
    and "kind_and_height blocks h = Some (BkCanonical, Some k) \<Longrightarrow> a \<le> k \<Longrightarrow> k \<le> b \<Longrightarrow>
      \<exists>d\<in>set (load_locked_canonical_rows blocks a b). lk_hash d = h \<and> lk_height d = k"
proof -
  define f where "f = (\<lambda>b' :: block_row. case br_height b' of
         Some h \<Rightarrow>
           if br_kind b' = BkCanonical \<and> a \<le> h \<and> h \<le> b
           then Some \<lparr>lk_height = h, lk_hash = br_hash b', lk_prev_hash = br_prev_hash b',
                      lk_coinbase_txid = br_coinbase_txid b', lk_coinbase_script = br_coinbase_script b',
                      lk_coinbase_outputs = br_coinbase_outputs b'\<rparr>
           else None
       | None \<Rightarrow> None)"
  have l: "load_locked_canonical_rows blocks a b = sort_key (\<lambda>r. (lk_height r, lk_hash r)) (List.map_filter f blocks)"
    by (simp add: load_locked_canonical_rows_def f_def)
  have f: "f r = Some d \<Longrightarrow> lk_hash d = br_hash r \<and> br_kind r = BkCanonical \<and> br_height r = Some (lk_height d) \<and>
      a \<le> lk_height d \<and> lk_height d \<le> b" for r d
    by (auto simp: f_def split: option.splits if_splits)
  have in_f: "d \<in> set (List.map_filter f bs) \<longleftrightarrow> (\<exists>r\<in>set bs. f r = Some d)" for d bs
    by (induction bs) (auto simp: map_filter_simps split: option.splits)
  have "distinct (map lk_hash (List.map_filter f bs))" if "distinct (map br_hash bs)" for bs
    using that
  proof (induction bs)
    case (Cons r bs)
    have "lk_hash d \<noteq> br_hash r" if m: "d \<in> set (List.map_filter f bs)" for d
    proof
      assume eq: "lk_hash d = br_hash r"
      obtain x where "x \<in> set bs" "f x = Some d" using m in_f by blast
      then have "br_hash r \<in> br_hash ` set bs" using f eq by (metis imageI)
      then show False using Cons.prems by simp
    qed
    then have fresh: "br_hash r \<notin> lk_hash ` set (List.map_filter f bs)" by (metis imageE)
    have d: "distinct (map lk_hash (List.map_filter f bs))" using Cons by simp
    show ?case
    proof (cases "f r")
      case (Some x)
      then have "lk_hash x = br_hash r" using f by blast
      then show ?thesis using fresh d Some by (simp add: map_filter_simps)
    qed (use d in \<open>simp add: map_filter_simps\<close>)
  qed (simp add: map_filter_simps)
  from this [OF d] show "distinct (map lk_hash (load_locked_canonical_rows blocks a b))"
    unfolding l by (simp add: distinct_map)
  show "kind_and_height blocks (lk_hash d) = Some (BkCanonical, Some (lk_height d)) \<and> a \<le> lk_height d \<and> lk_height d \<le> b"
    if mem: "d \<in> set (load_locked_canonical_rows blocks a b)" for d
  proof -
    have "d \<in> set (List.map_filter f blocks)" using mem unfolding l by simp
    then obtain r where "r \<in> set blocks" "f r = Some d" using in_f by blast
    then show ?thesis using f [of r d] find_block_in [OF d] by (auto simp: kind_and_height_def)
  qed
  show "\<exists>d\<in>set (load_locked_canonical_rows blocks a b). lk_hash d = h \<and> lk_height d = k"
    if mem: "kind_and_height blocks h = Some (BkCanonical, Some k)" "a \<le> k" "k \<le> b"
  proof -
    obtain r where r: "find_block blocks h = Some r" "br_kind r = BkCanonical" "br_height r = Some k"
      using mem(1) by (auto simp: kind_and_height_def)
    obtain d where "f r = Some d" using r mem by (simp add: f_def)
    moreover have "r \<in> set blocks" "br_hash r = h" using find_block_Some [OF r(1)] by simp_all
    ultimately show ?thesis using f [of r d] r(3) in_f unfolding l by auto
  qed
qed

lemma validated_suffix:
  assumes "validate_replacement E anc exp rs = Inr ()"
  shows "rs \<noteq> []" "cc_height (hd rs) = anc + 1" "check_links E rs = Inr ()"
proof -
  obtain r rest where rs: "rs = r # rest"
    using assms by (cases rs) (simp_all add: validate_replacement_def)
  then show "rs \<noteq> []" by simp
  have "i32_ok (anc + 1)" "cc_height r = anc + 1" "check_links E (r # rest) = Inr ()"
    using assms unfolding validate_replacement_def rs
    by (auto simp: result_simps split: if_splits)
  then show "cc_height (hd rs) = anc + 1" "check_links E rs = Inr ()" by (simp_all add: rs)
qed

lemma replace_cases:
  assumes "replace_core_canonical_suffix_validated E sh now cch anc exp rs pend vals st s = (Inr (st', summary), s')"
  obtains row row1 sync where "validate_replacement E anc exp rs = Inr ()"
    "apply_suffix_mutation E rs (plan_suffix_mutation E
       (load_locked_canonical_rows (db_blocks (co_db st)) anc (cc_height (last rs))) rs) (co_db st) = Inr (co_db st')"
    "co_queue st' = enqueue_core_reconcile_hashes now (sp_affected_hashes (plan_suffix_mutation E
       (load_locked_canonical_rows (db_blocks (co_db st)) anc (cc_height (last rs))) rs)) True (co_queue st)"
    "co_sync st = Some row" "ss_contiguous_complete_height row = cch"
    "mark_replacement_pending sh (suffix_pending E anc rs cch (plan_suffix_mutation E
       (load_locked_canonical_rows (db_blocks (co_db st)) anc (cc_height (last rs))) rs) sync) row = Inr row1"
    "co_sync st' = Some row1"
proof -
  obtain th hash where v: "validate_replacement E anc exp rs = Inr ()"
    and r: "replace_suffix_in_transaction E sh now cch anc exp rs (th, hash) st = Inr (st', summary)"
    using assms unfolding replace_core_canonical_suffix_validated_def Let_def
    by (auto split: sum.splits prod.splits if_splits)
  show thesis
    using r that [OF v] unfolding replace_suffix_in_transaction_def Let_def
    by (auto simp: result_simps lock_and_verify_sync_state_def split: if_splits)
qed

lemma mark_fields:
  assumes "mark_replacement_pending sh p row = Inr row1"
  shows "ss_contiguous_complete_height row1 = rp_contiguous_complete_height p" "ss_last_error_code row1 = Some reconcile_pending"
  using assms by (auto simp: mark_replacement_pending_def result_simps Let_def)

lemma map_of_replacements:
  assumes "check_links E rs = Inr ()" "rs \<noteq> []"
  shows "r \<in> set rs \<Longrightarrow> map_of (map (\<lambda>r. (cc_height r, replacement_hash E r)) rs) (cc_height r) = Some (replacement_hash E r)"
    and "cc_height (hd rs) \<le> k \<Longrightarrow> k \<le> cc_height (last rs) \<Longrightarrow> \<exists>r\<in>set rs. cc_height r = k"
proof -
  have h: "map cc_height rs = [cc_height (hd rs) .. cc_height (last rs)]" by (rule check_links_heights [OF assms])
  then have d: "distinct (map cc_height rs)" by simp
  show "map_of (map (\<lambda>r. (cc_height r, replacement_hash E r)) rs) (cc_height r) = Some (replacement_hash E r)" if "r \<in> set rs"
    using d that by (intro map_of_is_SomeI) (simp_all add: comp_def)
  show "\<exists>r\<in>set rs. cc_height r = k" if "cc_height (hd rs) \<le> k" "k \<le> cc_height (last rs)"
  proof -
    have "k \<in> set (map cc_height rs)" unfolding h using that by simp
    then show ?thesis by auto
  qed
qed

text \<open>The rows displaced by a plan are the canonical rows of the range that no replacement names.\<close>

lemma plan_displaced:
  assumes con: "suffix_consistent E rs db" and v: "validate_replacement E anc exp rs = Inr ()"
  defines "ds \<equiv> sp_displaced (plan_suffix_mutation E (load_locked_canonical_rows (db_blocks db) anc (cc_height (last rs))) rs)"
  shows "distinct (map lk_hash ds)"
    and "d \<in> set ds \<Longrightarrow> kind_and_height (db_blocks db) (lk_hash d) = Some (BkCanonical, Some (lk_height d)) \<and>
      anc < lk_height d \<and> lk_height d \<le> cc_height (last rs)"
    and "lk_hash ` set ds \<inter> replacement_hash E ` set rs = {}"
    and "kind_and_height (db_blocks db) h = Some (BkCanonical, Some k) \<Longrightarrow> anc < k \<Longrightarrow> k \<le> cc_height (last rs) \<Longrightarrow>
      h \<notin> replacement_hash E ` set rs \<Longrightarrow> \<exists>d\<in>set ds. lk_hash d = h \<and> lk_height d = k"
proof -
  note s = validated_suffix [OF v]
  let ?cur = "load_locked_canonical_rows (db_blocks db) anc (cc_height (last rs))"
  let ?rh = "map (\<lambda>r. (cc_height r, replacement_hash E r)) rs"
  have db: "distinct (map br_hash (db_blocks db))" using con by (simp add: suffix_consistent_def)
  note l = locked_rows [OF db, where a = anc and b = "cc_height (last rs)"]
  have ds: "ds = filter (\<lambda>row. cc_height (hd rs) \<le> lk_height row \<and> map_of ?rh (lk_height row) \<noteq> Some (lk_hash row)) ?cur"
    by (simp add: ds_def plan_suffix_mutation_def Let_def)
  show "distinct (map lk_hash ds)" unfolding ds by (rule distinct_map_filter [OF l(1)])
  show p: "kind_and_height (db_blocks db) (lk_hash d) = Some (BkCanonical, Some (lk_height d)) \<and>
      anc < lk_height d \<and> lk_height d \<le> cc_height (last rs)" if "d \<in> set ds" for d
    using that l(2) [of d] s(2) unfolding ds by simp
  show "lk_hash ` set ds \<inter> replacement_hash E ` set rs = {}"
  proof (rule ccontr)
    assume "lk_hash ` set ds \<inter> replacement_hash E ` set rs \<noteq> {}"
    then obtain d r where dr: "d \<in> set ds" "r \<in> set rs" "lk_hash d = replacement_hash E r" by auto
    obtain b where b: "find_block (db_blocks db) (lk_hash d) = Some b" "br_kind b = BkCanonical" "br_height b = Some (lk_height d)"
      using p [OF dr(1)] by (auto simp: kind_and_height_def)
    have "br_height b = Some (cc_height r)"
      using con find_block_Some [OF b(1)] b(2) dr(2,3) unfolding suffix_consistent_def by simp
    then have "lk_height d = cc_height r" using b(3) by simp
    then have "map_of ?rh (lk_height d) = Some (lk_hash d)"
      using map_of_replacements(1) [OF s(3,1) dr(2)] dr(3) by simp
    then show False using dr(1) unfolding ds by simp
  qed
  show "\<exists>d\<in>set ds. lk_hash d = h \<and> lk_height d = k"
    if h: "kind_and_height (db_blocks db) h = Some (BkCanonical, Some k)" "anc < k" "k \<le> cc_height (last rs)"
      "h \<notin> replacement_hash E ` set rs"
  proof -
    obtain d where d: "d \<in> set ?cur" "lk_hash d = h" "lk_height d = k" using l(3) [OF h(1) _ h(3)] h(2) by auto
    have "map_of ?rh k \<noteq> Some h"
    proof
      assume "map_of ?rh k = Some h"
      then have "(k, h) \<in> set ?rh" by (rule map_of_SomeD)
      then show False using h(4) by auto
    qed
    then show ?thesis using d h(2) s(2) unfolding ds by auto
  qed
qed

lemma suffix_passes:
  assumes con: "suffix_consistent E rs db" and v: "validate_replacement E anc exp rs = Inr ()"
  defines "plan \<equiv> plan_suffix_mutation E (load_locked_canonical_rows (db_blocks db) anc (cc_height (last rs))) rs"
  assumes a: "apply_suffix_mutation E rs plan db = Inr db'"
  shows "\<forall>r\<in>set rs. kind_and_height (db_blocks db') (replacement_hash E r) = Some (BkCanonical, Some (cc_height r))"
    and "d \<in> set (sp_displaced plan) \<Longrightarrow> \<exists>r\<in>set rs. cc_height r = lk_height d \<and>
      placed_at (db_blocks db') (lk_hash d) BkStale (lk_height d) (Some (replacement_hash E r))"
    and "h \<notin> replacement_hash E ` set rs \<Longrightarrow> h \<notin> lk_hash ` set (sp_displaced plan) \<Longrightarrow>
      kind_and_height (db_blocks db') h = kind_and_height (db_blocks db) h"
proof -
  let ?rh = "map (\<lambda>r. (cc_height r, replacement_hash E r)) rs"
  let ?R = "replacement_hash E ` set rs" and ?D = "lk_hash ` set (sp_displaced plan)"
  let ?H = "?R \<union> br_hash ` set (filter (\<lambda>b. br_kind b = BkCanonical) (db_blocks db))"
  note s = validated_suffix [OF v] and pd = plan_displaced [OF con v, folded plan_def]
  have rh: "sp_replacement_hashes plan = ?rh" by (simp add: plan_def plan_suffix_mutation_def Let_def)
  obtain db1 db2 where p: "each (upsert_replacement E) rs db = Inr db1"
      "each (displace E ?rh) (sp_displaced plan) db1 = Inr db2" "each (reconcile_replacement_parent E) rs db2 = Inr db'"
    using a unfolding apply_suffix_mutation_def rh by (auto simp: result_simps)
  have d: "distinct (map (replacement_hash E) rs)" and cl: "events_clean E ?H (db_events db)"
    using con by (simp_all add: suffix_consistent_def)
  have agree: "\<forall>r\<in>set rs. \<forall>old. find_block (db_blocks db) (replacement_hash E r) = Some old \<longrightarrow>
      br_kind old = BkCanonical \<longrightarrow> br_height old = Some (cc_height r)"
    using con find_block_Some unfolding suffix_consistent_def by blast
  note v1 = upserts_view [OF p(1) d agree]
  have kept1: "find_block (db_blocks db1) h = find_block (db_blocks db) h" if "h \<notin> ?R" for h
    using v1 that by blast
  have DR: "?D \<inter> snd ` set ?rh = {}" using pd(3) by (simp add: image_image)
  have disj: "lk_hash x \<notin> ?R" if "x \<in> set (sp_displaced plan)" for x using pd(3) that by blast
  have canonical: "\<exists>b. find_block (db_blocks db) (lk_hash x) = Some b \<and> br_kind b = BkCanonical"
    if "x \<in> set (sp_displaced plan)" for x
    using pd(2) [OF that] unfolding kind_and_height_def by (auto split: option.splits)
  have DH: "?D \<subseteq> ?H"
  proof
    fix h assume "h \<in> ?D"
    then obtain x where x: "x \<in> set (sp_displaced plan)" "h = lk_hash x" by blast
    obtain b where b: "find_block (db_blocks db) (lk_hash x) = Some b" "br_kind b = BkCanonical" using canonical [OF x(1)] by blast
    have "b \<in> set (filter (\<lambda>b. br_kind b = BkCanonical) (db_blocks db))" "br_hash b = h"
      using find_block_Some [OF b(1)] b(2) x(2) by simp_all
    then show "h \<in> ?H" by blast
  qed
  have rows: "\<forall>x\<in>set (sp_displaced plan). find_block (db_blocks db1) (lk_hash x) \<noteq> None"
  proof
    fix x assume x: "x \<in> set (sp_displaced plan)"
    show "find_block (db_blocks db1) (lk_hash x) \<noteq> None"
      unfolding kept1 [OF disj [OF x]] using canonical [OF x] by blast
  qed
  have cl1: "events_clean E ?H (db_events db1)" using v1 cl by simp
  note v2 = displaced_view [OF p(2) pd(1) cl1 DH rows DR]
  have kept2: "kind_and_height (db_blocks db2) h = kind_and_height (db_blocks db1) h" if "h \<notin> ?D" for h
    using v2 that unfolding keeps_rows_def by blast
  have can2: "\<forall>r\<in>set rs. kind_and_height (db_blocks db2) (replacement_hash E r) = Some (BkCanonical, Some (cc_height r))"
  proof
    fix r assume r: "r \<in> set rs"
    have "replacement_hash E r \<notin> ?D" using pd(3) r by blast
    then show "kind_and_height (db_blocks db2) (replacement_hash E r) = Some (BkCanonical, Some (cc_height r))"
      using kept2 v1 r by simp
  qed
  have cl2: "events_clean E ?H (db_events db2)" by (rule events_clean_identity [OF conjunct1 [OF v2] cl1])
  have inj: "inj_on (replacement_hash E) (set rs)" using d by (simp add: distinct_map)
  have v3: "\<And>h. h \<notin> ?R \<Longrightarrow> find_block (db_blocks db') h = find_block (db_blocks db2) h"
    "\<forall>r\<in>set rs. kind_and_height (db_blocks db') (replacement_hash E r) = Some (BkCanonical, Some (cc_height r))"
    using replacement_parents_view [OF p(3) cl2 _ can2 inj] by auto
  show "\<forall>r\<in>set rs. kind_and_height (db_blocks db') (replacement_hash E r) = Some (BkCanonical, Some (cc_height r))"
    by (rule v3(2))
  show "kind_and_height (db_blocks db') h = kind_and_height (db_blocks db) h" if "h \<notin> ?R" "h \<notin> ?D"
    using v3(1) [OF that(1)] kept1 [OF that(1)] kept2 [OF that(2)] by (simp add: kind_and_height_def)
  show "\<exists>r\<in>set rs. cc_height r = lk_height x \<and>
      placed_at (db_blocks db') (lk_hash x) BkStale (lk_height x) (Some (replacement_hash E r))"
    if x: "x \<in> set (sp_displaced plan)" for x
  proof -
    obtain c where c: "map_of ?rh (lk_height x) = Some c" "placed_at (db_blocks db2) (lk_hash x) BkStale (lk_height x) (Some c)"
      using v2 x by blast
    obtain r where "r \<in> set rs" "cc_height r = lk_height x" "replacement_hash E r = c" using map_of_SomeD [OF c(1)] by auto
    moreover have "lk_hash x \<notin> ?R" using pd(3) x by blast
    then have "placed_at (db_blocks db') (lk_hash x) BkStale (lk_height x) (Some c)"
      using c(2) v3(1) by (simp add: placed_at_def)
    ultimately show ?thesis by blast
  qed
qed

section \<open>One row per hash\<close>

abbreviation one_row_per_hash :: "database \<Rightarrow> bool" where
  "one_row_per_hash db \<equiv> distinct (map br_hash (db_blocks db))"

lemma upsert_keeps_keys:
  assumes "upsert_block_row r mode blocks = Inr blocks'" "distinct (map br_hash blocks)"
  shows "distinct (map br_hash blocks')"
proof (cases "find_block blocks (br_hash r)")
  case None
  then have "br_hash r \<notin> br_hash ` set blocks" by (auto simp: find_block_def find_None_iff)
  moreover have "map br_hash blocks' = map br_hash blocks @ [br_hash r]"
    using assms(1) None by (auto simp: upsert_block_row_def result_simps split: block_write_mode.splits)
  ultimately show ?thesis using assms(2) by simp
next
  case (Some old)
  then have "map br_hash blocks' = map br_hash blocks"
    using assms(1) by (auto simp: upsert_block_row_def result_simps split: block_write_mode.splits if_splits)
  then show ?thesis using assms(2) by simp
qed

lemma synthesized_keeps_keys: "upsert_synthesized_canonical E h db = Inr db' \<Longrightarrow> one_row_per_hash db \<Longrightarrow> one_row_per_hash db'"
  unfolding upsert_synthesized_canonical_def by (auto simp: result_simps dest: upsert_keeps_keys)

lemma siblings_keep_keys: "upsert_siblings E hs db = Inr (db', ch) \<Longrightarrow> one_row_per_hash db \<Longrightarrow> one_row_per_hash db'"
proof (induction E hs db arbitrary: db' ch rule: upsert_siblings.induct)
  case (2 E h hs db)
  then show ?case
    by (auto simp: result_simps upsert_synthesized_sibling_def dest: synthesized_keeps_keys)
qed simp

lemma retire_keeps_keys: "one_row_per_hash db \<Longrightarrow> one_row_per_hash (retire_zero_active_block E h db)"
proof -
  assume d: "one_row_per_hash db"
  have "map br_hash (db_blocks (demote_zero_active_block E h db)) = map br_hash (db_blocks db)"
    by (auto simp: demote_zero_active_block_def Let_def)
  then show ?thesis using d distinct_map_filter [of br_hash "db_blocks db"]
    by (simp add: retire_zero_active_block_def Let_def split: prod.splits del: distinct_map)
qed

lemma rebuild_keeps_keys:
  assumes "rebuild_parent_read_model E h c db = Inr db'" "one_row_per_hash db"
  shows "one_row_per_hash db'"
  using assms retire_keeps_keys [OF assms(2)] unfolding rebuild_parent_read_model_def Let_def
  by (cases "load_parent_rollup (db_events db) h") (auto simp: result_simps dest: upsert_keeps_keys simp del: distinct_map)

lemma write_keeps_keys:
  assumes "write_event_classification E ev c db = Inr (db', ch)" "one_row_per_hash db"
  shows "one_row_per_hash db'"
  using assms unfolding write_event_classification_def
  by (auto simp: result_simps simp del: distinct_map dest!: siblings_keep_keys rebuild_keeps_keys)

lemma trusted_keeps_keys:
  assumes "reconcile_trusted E i c db = Inr db'" "one_row_per_hash db"
  shows "one_row_per_hash db'"
proof -
  obtain ch where m: "reconcile_one_event_in_txn E (ClassifierOff :: unit configured_classifier) i (Some (trusted c)) db () = (Inr (db', ch), ())"
    using assms(1) unfolding reconcile_trusted_def by (auto split: prod.splits sum.splits)
  then obtain ev where ev: "load_event (db_events db) i = Inr ev"
    by (cases "load_event (db_events db) i") (simp_all add: reconcile_one_event_in_txn_def rm_defs)
  from ev m show ?thesis
    by (cases rule: reconcile_cases) (use assms(2) write_keeps_keys in blast)+
qed

lemma each_keeps_keys:
  assumes "each f xs db = Inr db'" "one_row_per_hash db"
    and "\<And>x db db'. f x db = Inr db' \<Longrightarrow> one_row_per_hash db \<Longrightarrow> one_row_per_hash db'"
  shows "one_row_per_hash db'"
  using assms(1,2) by (induction xs arbitrary: db) (auto simp: result_simps dest: assms(3) simp del: distinct_map)

lemma displace_keeps_keys:
  assumes "displace E rh d db = Inr db'" "one_row_per_hash db"
  shows "one_row_per_hash db'"
proof -
  obtain c db1 where m: "demote_displaced_parent E d c db = Inr db1" "db' = rebind_stale_competitors d c db1"
    using assms(1) by (auto simp: displace_def result_simps split: option.splits)
  have "map br_hash (db_blocks (rebind_stale_competitors d c db1)) = map br_hash (db_blocks db1)"
    by (auto simp: rebind_stale_competitors_def)
  moreover have "map br_hash (map (\<lambda>b. if br_hash b = lk_hash d then demoted_row d c b else b) bs) = map br_hash bs" for bs
    by (auto simp: demoted_row_def)
  then have "one_row_per_hash db1"
    using m(1) assms(2) trusted_keeps_keys unfolding demote_displaced_parent_def
    by (cases "find_anchor_event_for_block (db_events db) (lk_hash d)") (auto simp del: distinct_map map_map)
  ultimately show ?thesis by (simp add: m(2))
qed

lemma suffix_keeps_keys:
  assumes "apply_suffix_mutation E rs plan db = Inr db'" "one_row_per_hash db"
  shows "one_row_per_hash db'"
proof -
  obtain db1 db2 where p: "each (upsert_replacement E) rs db = Inr db1"
      "each (displace E (sp_replacement_hashes plan)) (sp_displaced plan) db1 = Inr db2"
      "each (reconcile_replacement_parent E) rs db2 = Inr db'"
    using assms(1) unfolding apply_suffix_mutation_def by (auto simp: result_simps)
  have "one_row_per_hash db1"
    by (rule each_keeps_keys [OF p(1) assms(2)])
      (auto simp: upsert_replacement_def upsert_core_canonical_header_with_coinbase_def simp del: distinct_map
        split: sum.splits dest: synthesized_keeps_keys)
  then have "one_row_per_hash db2" by (rule each_keeps_keys [OF p(2) _ displace_keeps_keys])
  then show ?thesis
    by (rule each_keeps_keys [OF p(3)])
      (auto simp: reconcile_replacement_parent_def simp del: distinct_map split: option.splits dest: trusted_keeps_keys)
qed

section \<open>The whole replacement\<close>

lemma replacement_exact:
  assumes con: "suffix_consistent E rs (co_db st)"
    and r: "replace_core_canonical_suffix_validated E sh now cch anc exp rs pend vals st s = (Inr (st', summary), s')"
  shows "(\<forall>r\<in>set rs. kind_and_height (db_blocks (co_db st')) (replacement_hash E r) = Some (BkCanonical, Some (cc_height r))) \<and>
    (\<forall>h k. kind_and_height (db_blocks (co_db st')) h = Some (BkCanonical, Some k) \<and> anc < k \<and> k \<le> cc_height (last rs) \<longrightarrow>
       (\<exists>r\<in>set rs. cc_height r = k \<and> replacement_hash E r = h)) \<and>
    (\<forall>h k. kind_and_height (db_blocks (co_db st)) h = Some (BkCanonical, Some k) \<and> anc < k \<and> k \<le> cc_height (last rs) \<and>
       h \<notin> replacement_hash E ` set rs \<longrightarrow>
       (\<exists>r\<in>set rs. cc_height r = k \<and> placed_at (db_blocks (co_db st')) h BkStale k (Some (replacement_hash E r)))) \<and>
    (\<forall>h. h \<notin> replacement_hash E ` set rs \<and>
       \<not> (\<exists>k. kind_and_height (db_blocks (co_db st)) h = Some (BkCanonical, Some k) \<and> anc < k \<and> k \<le> cc_height (last rs)) \<longrightarrow>
       kind_and_height (db_blocks (co_db st')) h = kind_and_height (db_blocks (co_db st)) h)"
proof -
  let ?plan = "plan_suffix_mutation E (load_locked_canonical_rows (db_blocks (co_db st)) anc (cc_height (last rs))) rs"
  let ?R = "replacement_hash E ` set rs" and ?new = "db_blocks (co_db st')" and ?old = "db_blocks (co_db st)"
  from r obtain v: "validate_replacement E anc exp rs = Inr ()"
    and a: "apply_suffix_mutation E rs ?plan (co_db st) = Inr (co_db st')" by (rule replace_cases)
  note pd = plan_displaced [OF con v] and p = suffix_passes [OF con v a]
  have displaced: "\<exists>r\<in>set rs. cc_height r = k \<and> placed_at ?new h BkStale k (Some (replacement_hash E r))"
    if h: "kind_and_height ?old h = Some (BkCanonical, Some k)" "anc < k" "k \<le> cc_height (last rs)" "h \<notin> ?R" for h k
    using pd(4) [OF h] p(2) by blast
  have others: "kind_and_height ?new h = kind_and_height ?old h"
    if h: "h \<notin> ?R" "\<not> (\<exists>k. kind_and_height ?old h = Some (BkCanonical, Some k) \<and> anc < k \<and> k \<le> cc_height (last rs))" for h
  proof -
    have "h \<notin> lk_hash ` set (sp_displaced ?plan)" using pd(2) h(2) by blast
    then show ?thesis by (rule p(3) [OF h(1)])
  qed
  have only: "\<exists>r\<in>set rs. cc_height r = k \<and> replacement_hash E r = h"
    if h: "kind_and_height ?new h = Some (BkCanonical, Some k)" "anc < k" "k \<le> cc_height (last rs)" for h k
  proof (cases "h \<in> ?R")
    case True
    then obtain r where "r \<in> set rs" "h = replacement_hash E r" by blast
    moreover from this have "cc_height r = k" using p(1) h(1) by auto
    ultimately show ?thesis by blast
  next
    case False
    show ?thesis
    proof (cases "\<exists>k. kind_and_height ?old h = Some (BkCanonical, Some k) \<and> anc < k \<and> k \<le> cc_height (last rs)")
      case True
      then obtain k' where "kind_and_height ?old h = Some (BkCanonical, Some k')" "anc < k'" "k' \<le> cc_height (last rs)"
        by blast
      from displaced [OF this False] h(1) show ?thesis by (auto simp: placed_at_def kind_and_height_def)
    next
      case no: False
      from others [OF False no] h show ?thesis using no by auto
    qed
  qed
  show ?thesis using p(1) only displaced others by blast
qed

text \<open>C8: On consistent tables a committed replacement leaves exactly the replaced chain canonical above the
  common ancestor.  Consistent (\<open>suffix_consistent\<close>) means: no hash twice among the rows or among the
  replacements, a replacement that is already canonical has its height, and the active events of the
  affected blocks meet the Bitcoin target and name no catalogued invalid block.  Then every
  replacement is canonical at its height; a canonical row in the range is one of them; a row that was
  canonical there and is not replaced is stale at its height with the replacement of that height as
  its competitor; and every other row keeps its kind and height, in particular all below the
  ancestor.\<close>

theorem suffix_replacement_exact:
  assumes con: "suffix_consistent E rs (co_db st)"
    and r: "replace_core_canonical_suffix_validated E sh now cch anc exp rs pend vals st s = (Inr (st', summary), s')"
  shows "(\<forall>r\<in>set rs. kind_and_height (db_blocks (co_db st')) (replacement_hash E r) = Some (BkCanonical, Some (cc_height r))) \<and>
    (\<forall>h k. kind_and_height (db_blocks (co_db st')) h = Some (BkCanonical, Some k) \<and> anc < k \<and> k \<le> cc_height (last rs) \<longrightarrow>
       (\<exists>r\<in>set rs. cc_height r = k \<and> replacement_hash E r = h)) \<and>
    (\<forall>h k. kind_and_height (db_blocks (co_db st)) h = Some (BkCanonical, Some k) \<and> anc < k \<and> k \<le> cc_height (last rs) \<and>
       h \<notin> replacement_hash E ` set rs \<longrightarrow>
       (\<exists>r\<in>set rs. cc_height r = k \<and> placed_at (db_blocks (co_db st')) h BkStale k (Some (replacement_hash E r)))) \<and>
    (\<forall>h. h \<notin> replacement_hash E ` set rs \<and>
       \<not> (\<exists>k. kind_and_height (db_blocks (co_db st)) h = Some (BkCanonical, Some k) \<and> anc < k \<and> k \<le> cc_height (last rs)) \<longrightarrow>
       kind_and_height (db_blocks (co_db st')) h = kind_and_height (db_blocks (co_db st)) h)"
  by (rule replacement_exact [OF con r])

section \<open>Queueing\<close>

text \<open>A committed replacement queues, for a fresh reconciliation that is expanded to the dependents even when it
  changes nothing, every replacement and every row it displaced; it drops no row of the queue, whose
  generations never fall; and the contiguous cursor moves to the new tip exactly when it had reached
  the common ancestor.\<close>

theorem suffix_queues_affected:
  assumes r: "replace_core_canonical_suffix_validated E sh now cch anc exp rs pend vals st s = (Inr (st', summary), s')"
    and h: "h \<in> replacement_hash E ` set rs \<or>
      h \<in> lk_hash ` set (sp_displaced (plan_suffix_mutation E
        (load_locked_canonical_rows (db_blocks (co_db st)) anc (cc_height (last rs))) rs))"
  shows "(\<exists>q\<in>set (co_queue st'). qr_hash q = h \<and> qr_primary_pending q \<and> qr_expand_unchanged q) \<and>
    (\<forall>q\<in>set (co_queue st). \<exists>q'\<in>set (co_queue st'). qr_hash q' = qr_hash q \<and>
       (qr_primary_pending q \<longrightarrow> qr_primary_pending q') \<and> qr_generation q \<le> qr_generation q') \<and>
    (\<exists>row'. co_sync st' = Some row' \<and> ss_last_error_code row' = Some reconcile_pending \<and>
       ss_contiguous_complete_height row' = (if anc \<le> cch then cc_height (last rs) else cch))"
proof -
  let ?plan = "plan_suffix_mutation E (load_locked_canonical_rows (db_blocks (co_db st)) anc (cc_height (last rs))) rs"
  from r obtain row row1 sync where q: "co_queue st' = enqueue_core_reconcile_hashes now (sp_affected_hashes ?plan) True (co_queue st)"
    and m: "mark_replacement_pending sh (suffix_pending E anc rs cch ?plan sync) row = Inr row1" "co_sync st' = Some row1"
    by (rule replace_cases)
  have "h \<in> set (sp_affected_hashes ?plan)" using h by (auto simp: plan_suffix_mutation_def Let_def)
  from enqueue_hashes_pending [OF this, of now True] mark_fields [OF m(1)] m(2) enqueue_hashes_keep show ?thesis
    unfolding q by (simp add: suffix_pending_def Let_def) blast
qed

section \<open>Witnesses\<close>

definition demo_replacement :: core_canonical_replacement where
  "demo_replacement = \<lparr>cc_height = 15, cc_header = (Parent_Classifier.demo_chain 15)\<lparr>h_version := 16\<rparr>,
     cc_coinbase = \<lparr>cb_txid = [1], cb_script = [2], cb_outputs = [3]\<rparr>\<rparr>"

definition demo_expected :: "expected_core_canonical_row list" where
  "demo_expected = [\<lparr>xr_height = 14, xr_hash = demo_node_hash 14, xr_prev_hash = demo_node_hash 13\<rparr>,
     \<lparr>xr_height = 15, xr_hash = demo_node_hash 15, xr_prev_hash = demo_node_hash 14\<rparr>]"

definition demo_replace :: "(core_state \<times> core_suffix_replacement_summary) option" where
  "demo_replace = result_ok (fst (replace_core_canonical_suffix demo_env (\<lambda>_. []) 5 15 14 demo_expected
     [demo_replacement] demo_state ()))"

lemma demo_replaced:
  "map_option (\<lambda>(st, su). map (\<lambda>b. (br_hash b, br_kind b)) (db_blocks (co_db st))) demo_replace =
     Some [(demo_node_hash 14, BkCanonical), (demo_node_hash 15, BkStale), (demo_node_hash 16, BkCanonical)]"
  by code_simp

lemma demo_consistent: "suffix_consistent demo_env [demo_replacement] (co_db demo_state)"
  by code_simp

lemma demo_replace_call:
  assumes "demo_replace = Some (st', su)"
  shows "replace_core_canonical_suffix_validated demo_env (\<lambda>_. []) 5 15 14 demo_expected [demo_replacement] None
    (\<lambda>_ s. (Inr (), s), \<lambda>_ s. (Inr (), s)) demo_state () = (Inr (st', su) :: (unit replace_error, _) result, ())"
  using assms unfolding demo_replace_def result_ok_eq_Some replace_core_canonical_suffix_def by (simp add: prod_eq_iff)

lemma demo_replace_cases:
  obtains st' su where "demo_replace = Some (st', su)"
  using demo_replaced by (cases demo_replace) auto

lemma demo_replacement_fields: "replacement_hash demo_env demo_replacement = demo_node_hash 16" "cc_height demo_replacement = 15"
  by (simp_all add: replacement_hash_def demo_env_def demo_replacement_def demo_node_lib_def)

lemma demo_displaced:
  "kind_and_height (db_blocks (co_db demo_state)) (demo_node_hash 15) = Some (BkCanonical, Some 15) \<and>
   demo_node_hash 15 \<noteq> demo_node_hash 16"
  by code_simp

theorem suffix_replacement_exact_witness:
  "\<exists>st' su. demo_replace = Some (st', su) \<and> placed_at (db_blocks (co_db st')) (demo_node_hash 15) BkStale 15 (Some (demo_node_hash 16)) \<and>
     kind_and_height (db_blocks (co_db st')) (demo_node_hash 16) = Some (BkCanonical, Some 15)"
proof -
  obtain st' su where r: "demo_replace = Some (st', su)" by (rule demo_replace_cases)
  note x = suffix_replacement_exact [OF demo_consistent demo_replace_call [OF r]]
  have "kind_and_height (db_blocks (co_db st')) (demo_node_hash 16) = Some (BkCanonical, Some 15)"
    using x by (simp add: demo_replacement_fields)
  moreover have "placed_at (db_blocks (co_db st')) (demo_node_hash 15) BkStale 15 (Some (demo_node_hash 16))"
    using x demo_displaced by (simp add: demo_replacement_fields)
  ultimately show ?thesis using r by blast
qed

theorem suffix_queues_affected_witness:
  "\<exists>st' su q. demo_replace = Some (st', su) \<and> q \<in> set (co_queue st') \<and> qr_hash q = demo_node_hash 16 \<and> qr_primary_pending q"
proof -
  obtain st' su where r: "demo_replace = Some (st', su)" by (rule demo_replace_cases)
  have "\<exists>q\<in>set (co_queue st'). qr_hash q = demo_node_hash 16 \<and> qr_primary_pending q \<and> qr_expand_unchanged q"
    by (rule conjunct1 [OF suffix_queues_affected [OF demo_replace_call [OF r]]]) (simp add: demo_replacement_fields)
  with r show ?thesis by blast
qed


end
