(* ===== verification/Backbone.thy ===== *)
theory Backbone
  imports Suffix_Replacement
begin

text \<open>
  \<open>crates/mmm-producers/src/bitcoin_core_backbone/mod.rs\<close>, \<open>integrity.rs\<close> and \<open>sync_state.rs\<close>: the sync that
  fills the canonical rows with the headers and coinbases of Bitcoin Core, the guards that stop it, and
  the status row it advances.  The source of headers is a record of functions over a state of its own
  (\<open>trait BitcoinCoreBackboneSource\<close>), so that its answers may change between calls.  A command runs on the
  tables and that state; an error keeps what was written before it, a transaction undoes the tables,
  and \<open>None\<close> stands for a cascade that would not return.  The wording of messages and of their JSON
  details is the argument \<open>be_text\<close>; delays, logging and row time stamps are left out.
\<close>

section \<open>The source of headers\<close>

record backbone_tip =
  bt_height :: int
  bt_hash :: bytes

record 's backbone_source =
  so_tip :: "('s, backbone_tip) core_io"
  so_block_hash :: "int \<Rightarrow> ('s, bytes) core_io"
  so_block_header :: "bytes \<Rightarrow> ('s, header) core_io"
  so_block_coinbase :: "bytes \<Rightarrow> ('s, core_block_coinbase) core_io"

text \<open>The RPC client as a source; \<open>get_block_count\<close> is the call the classifier does not use.\<close>

definition rpc_backbone_source :: "('s, nat) core_io \<Rightarrow> 's core_client \<Rightarrow> 's backbone_source" where
  "rpc_backbone_source get_block_count C =
     \<lparr>so_tip = io_bind get_block_count (\<lambda>height.
        if i32_ok (int height)
        then io_bind (cl_get_block_hash C height) (\<lambda>hash. io_ok \<lparr>bt_height = int height, bt_hash = hash\<rparr>)
        else io_err (OtherError ''Bitcoin Core tip height exceeds i32'')),
      so_block_hash = (\<lambda>height.
        if 0 \<le> height then cl_get_block_hash C (nat height)
        else io_err (OtherError ''Bitcoin Core backbone height must be non-negative'')),
      so_block_header = cl_get_block_header C, so_block_coinbase = cl_get_block_coinbase C\<rparr>"

section \<open>Failures\<close>

datatype integrity_kind = HeightConflict | ChainLinkMismatch | LiveWindowInvariant | TargetTipChanged

text \<open>What a message is about, with the values it prints.\<close>

datatype failure_reason =
    SameHeightConflict int bytes "bytes list" | PreviousHeightMissing int | PreviousLinkBroken int bytes "bytes list"
  | ActiveHashChanged int bytes bytes | TargetChangedAt int bytes bytes | TipRegressed backbone_tip backbone_tip
  | TargetMoved backbone_tip bytes | TargetBelowCursor backbone_tip int | TargetBelowPersisted backbone_tip int
  | CursorRowMissing int | CursorRowIncomplete int | NoMatchingAnchorIn string int int int int
  | WindowMissingHeight int | WindowDuplicateHeight int "bytes list" | WindowIncompleteCoinbase int bytes
  | WindowPrevLink int bytes bytes | WindowTipHash backbone_tip "bytes option" | WindowTargetHash backbone_tip bytes
  | ToHeightAboveTip int int | CoinbaseFetchFailed bytes core_error | RetryableRepair string "backbone_tip option"

record backbone_failure =
  bf_kind :: integrity_kind
  bf_code :: string
  bf_height :: int
  bf_reason :: failure_reason

datatype backbone_error =
    SourceError core_error | FailureError backbone_failure | IntegrityError integrity_kind | ReconcileQueuePending
  | ToHeightError int | BackboneWrite read_model_error | BackboneCascade cascade_error | BackboneSuffix suffix_error
  | BackboneDrain drain_error | LocalRecoveryPending string | WrongHeader bytes bytes int | CursorViewChanged
  | BackboneSyncStateMissing | HeaderCacheIntegrity

definition error_kind :: "backbone_error \<Rightarrow> integrity_kind option" where
  "error_kind e = (case e of FailureError f \<Rightarrow> Some (bf_kind f) | IntegrityError k \<Rightarrow> Some k | _ \<Rightarrow> None)"

definition is_backbone_integrity_error :: "backbone_error \<Rightarrow> bool" where
  "is_backbone_integrity_error e = (error_kind e \<noteq> None)"

definition source_must_propagate :: "core_error \<Rightarrow> bool" where
  "source_must_propagate e = (case e of CoreUnavailable _ \<Rightarrow> True | CoreFault _ \<Rightarrow> True | _ \<Rightarrow> False)"

definition retryable_repair_error_code :: string where "retryable_repair_error_code = ''near_tip_reorg_repair_retry''"
definition target_tip_changed_error_code :: string where "target_tip_changed_error_code = ''target_tip_changed''"
definition reorg_repair_error_code :: string where "reorg_repair_error_code = ''near_tip_reorg_repair_failed''"
definition live_window_invariant_error_code :: string where
  "live_window_invariant_error_code = ''live_window_invariant_failed''"

definition repair_owned_error_codes :: "string list" where
  "repair_owned_error_codes = [retryable_repair_error_code, target_tip_changed_error_code, reorg_repair_error_code,
     live_window_invariant_error_code]"

definition height_conflict_code :: string where "height_conflict_code = ''backbone_height_conflict''"
definition link_mismatch_code :: string where "link_mismatch_code = ''backbone_link_mismatch''"

record backbone_env =
  be_rm :: read_model_env
  be_text :: "failure_reason \<Rightarrow> string \<times> json"
  be_show :: "bytes \<Rightarrow> string"
  be_clock :: "nat \<Rightarrow> int"

section \<open>Commands\<close>

type_synonym ('s, 'a) backbone = "core_state \<Rightarrow> 's \<Rightarrow> ((backbone_error, 'a) result \<times> core_state \<times> 's) option"

definition bb_ok :: "'a \<Rightarrow> ('s, 'a) backbone" where
  "bb_ok a st s = Some (Inr a, st, s)"

definition bb_err :: "backbone_error \<Rightarrow> ('s, 'a) backbone" where
  "bb_err e st s = Some (Inl e, st, s)"

definition bb_bind :: "('s, 'a) backbone \<Rightarrow> ('a \<Rightarrow> ('s, 'b) backbone) \<Rightarrow> ('s, 'b) backbone" where
  "bb_bind m f st s =
     (case m st s of
        None \<Rightarrow> None | Some (Inl e, st1, s1) \<Rightarrow> Some (Inl e, st1, s1) | Some (Inr a, st1, s1) \<Rightarrow> f a st1 s1)"

definition bb_get :: "('s, core_state) backbone" where
  "bb_get st s = Some (Inr st, st, s)"

definition bb_modify :: "(core_state \<Rightarrow> core_state) \<Rightarrow> ('s, unit) backbone" where
  "bb_modify f st s = Some (Inr (), f st, s)"

definition bb_source :: "('s, 'a) core_io \<Rightarrow> ('s, 'a) backbone" where
  "bb_source m st s = (case m s of (Inl e, s1) \<Rightarrow> Some (Inl (SourceError e), st, s1) | (Inr a, s1) \<Rightarrow> Some (Inr a, st, s1))"

text \<open>\<open>run_exclusive_core_canonical_view_transaction\<close>: an error rolls the tables back.\<close>

definition bb_transaction :: "('s, 'a) backbone \<Rightarrow> ('s, 'a) backbone" where
  "bb_transaction m st s =
     (case m st s of
        None \<Rightarrow> None | Some (Inl e, _, s1) \<Rightarrow> Some (Inl e, st, s1) | Some (Inr a, st1, s1) \<Rightarrow> Some (Inr a, st1, s1))"

section \<open>The status row\<close>

record backbone_sync_state =
  sy_target_tip_height :: "int option"
  sy_target_tip_hash :: "bytes option"
  sy_contiguous_complete_height :: int
  sy_last_error_code :: "string option"
  sy_last_error_height :: "int option"
  sy_preserve_error :: bool

definition fresh_sync_row :: sync_state where
  "fresh_sync_row = \<lparr>ss_target_tip_height = None, ss_target_tip_hash = None, ss_contiguous_complete_height = -1,
     ss_last_scanned_height = None, ss_last_attempted_height = None, ss_last_error_code = None,
     ss_last_error_height = None, ss_last_error = None, ss_last_error_details = JObject []\<rparr>"

definition load_or_init_sync_state :: "('s, backbone_sync_state) backbone" where
  "load_or_init_sync_state st s =
     (let row = (case co_sync st of Some row \<Rightarrow> row | None \<Rightarrow> fresh_sync_row) in
      Some (Inr \<lparr>sy_target_tip_height = ss_target_tip_height row, sy_target_tip_hash = ss_target_tip_hash row,
             sy_contiguous_complete_height = ss_contiguous_complete_height row,
             sy_last_error_code = ss_last_error_code row, sy_last_error_height = ss_last_error_height row,
             sy_preserve_error = False\<rparr>, st\<lparr>co_sync := Some row\<rparr>, s))"

definition write_sync_error :: "int \<Rightarrow> string \<Rightarrow> string \<times> json \<Rightarrow> sync_state \<Rightarrow> sync_state" where
  "write_sync_error height code message row =
     (if ss_last_error_code row \<noteq> Some reconcile_pending \<and>
         (\<not> List.member repair_owned_error_codes code \<or> ss_last_error_code row = None \<or>
          (case ss_last_error_code row of Some old \<Rightarrow> List.member repair_owned_error_codes old | None \<Rightarrow> False))
      then row\<lparr>ss_last_scanned_height := Some height, ss_last_attempted_height := Some height,
               ss_last_error_code := Some code, ss_last_error_height := Some height,
               ss_last_error := Some (fst message), ss_last_error_details := snd message\<rparr>
      else row)"

definition update_sync_error :: "backbone_env \<Rightarrow> int \<Rightarrow> string \<Rightarrow> failure_reason \<Rightarrow> ('s, unit) backbone" where
  "update_sync_error B height code reason =
     bb_modify (\<lambda>st. st\<lparr>co_sync := map_option (write_sync_error height code (be_text B reason)) (co_sync st)\<rparr>)"

definition persist :: "backbone_env \<Rightarrow> backbone_failure \<Rightarrow> ('s, unit) backbone" where
  "persist B f = update_sync_error B (bf_height f) (bf_code f) (bf_reason f)"

definition persist_and_fail :: "backbone_env \<Rightarrow> backbone_failure \<Rightarrow> ('s, 'a) backbone" where
  "persist_and_fail B f = bb_bind (persist B f) (\<lambda>_. bb_err (FailureError f))"

text \<open>\<open>if let Err(err) = &result && let Some(failure) = err.downcast_ref()\<close>: a failure is recorded after the
  transaction that raised it was rolled back.\<close>

definition persist_after :: "backbone_env \<Rightarrow> ('s, 'a) backbone \<Rightarrow> ('s, 'a) backbone" where
  "persist_after B m st s =
     (case m st s of
        Some (Inl (FailureError f), st1, s1) \<Rightarrow> bb_bind (persist B f) (\<lambda>_. bb_err (FailureError f)) st1 s1
      | r \<Rightarrow> r)"

definition guard_no_pending_core_reconcile :: "('s, unit) backbone" where
  "guard_no_pending_core_reconcile =
     bb_bind bb_get (\<lambda>st. if co_queue st \<noteq> [] then bb_err ReconcileQueuePending else bb_ok ())"

definition store_target :: "backbone_sync_state \<Rightarrow> backbone_tip \<Rightarrow> ('s, backbone_sync_state) backbone" where
  "store_target state tip =
     bb_bind (bb_modify (\<lambda>st. st\<lparr>co_sync := map_option (\<lambda>row. row\<lparr>ss_target_tip_height := Some (bt_height tip),
         ss_target_tip_hash := Some (bt_hash tip)\<rparr>) (co_sync st)\<rparr>)) (\<lambda>_.
     bb_ok (state\<lparr>sy_target_tip_height := Some (bt_height tip), sy_target_tip_hash := Some (bt_hash tip)\<rparr>))"

definition verify_or_set_target_tip ::
  "backbone_env \<Rightarrow> backbone_sync_state \<Rightarrow> backbone_tip \<Rightarrow> ('s, backbone_sync_state) backbone" where
  "verify_or_set_target_tip B state tip =
     (case sy_target_tip_hash state of
        Some existing \<Rightarrow>
          if sy_target_tip_height state = Some (bt_height tip) \<and> existing \<noteq> bt_hash tip
          then persist_and_fail B \<lparr>bf_kind = TargetTipChanged, bf_code = target_tip_changed_error_code,
                 bf_height = bt_height tip, bf_reason = TargetChangedAt (bt_height tip) existing (bt_hash tip)\<rparr>
          else store_target state tip
      | None \<Rightarrow> store_target state tip)"

record canonical_height_row =
  hr_hash :: bytes
  hr_prev_hash :: bytes
  hr_coinbase_status :: core_coinbase_status

definition load_canonical_rows_at_height :: "block_row list \<Rightarrow> int \<Rightarrow> canonical_height_row list" where
  "load_canonical_rows_at_height blocks height =
     map (\<lambda>b. \<lparr>hr_hash = br_hash b, hr_prev_hash = br_prev_hash b, hr_coinbase_status = br_coinbase_status b\<rparr>)
       (sort_key br_hash (filter (\<lambda>b. br_kind b = BkCanonical \<and> br_height b = Some height) blocks))"

definition skipped_complete_has_missing_dependents :: "database \<Rightarrow> bytes \<Rightarrow> bool" where
  "skipped_complete_has_missing_dependents db hash =
     list_ex (\<lambda>e. er_parent_prev_hash e = hash \<and> er_pow_validates_btc_target e \<and> er_revoked_at e = None \<and>
       find_block (db_blocks db) (er_parent_hash e) = None) (db_events db)"

text \<open>The loop of \<open>advance_contiguous_complete_prefix\<close>: the height it stops at.\<close>

function advance_prefix :: "block_row list \<Rightarrow> bytes option \<Rightarrow> int \<Rightarrow> int" where
  "advance_prefix blocks anchor height =
     (case checked_i32 (height + 1) of
        None \<Rightarrow> height
      | Some next_height \<Rightarrow>
          (case load_canonical_rows_at_height blocks next_height of
             [row] \<Rightarrow>
               if hr_coinbase_status row \<noteq> CoinbaseComplete then height
               else if next_height \<noteq> 0 \<and> anchor \<noteq> Some (hr_prev_hash row) then height
               else advance_prefix blocks (Some (hr_hash row)) next_height
           | _ \<Rightarrow> height))"
  by pat_completeness auto
termination
  by (relation "measure (\<lambda>(_, _, h). nat (2 ^ 31 - h))") (auto simp: checked_i32_def i32_ok_def split: if_splits)

definition advanced_height :: "block_row list \<Rightarrow> int \<Rightarrow> int" where
  "advanced_height blocks height =
     (if 0 \<le> height then
        (case load_canonical_rows_at_height blocks height of
           [row] \<Rightarrow> if hr_coinbase_status row \<noteq> CoinbaseComplete then height
                    else advance_prefix blocks (Some (hr_hash row)) height
         | _ \<Rightarrow> height)
      else advance_prefix blocks None height)"

definition advance_contiguous_complete_prefix :: "backbone_sync_state \<Rightarrow> ('s, backbone_sync_state) backbone" where
  "advance_contiguous_complete_prefix state =
     bb_bind bb_get (\<lambda>st.
     let new_height = advanced_height (db_blocks (co_db st)) (sy_contiguous_complete_height state) in
     if sy_contiguous_complete_height state < new_height
     then bb_bind (bb_modify (\<lambda>st. st\<lparr>co_sync := map_option (\<lambda>row. row\<lparr>ss_contiguous_complete_height :=
              max (ss_contiguous_complete_height row) new_height\<rparr>) (co_sync st)\<rparr>)) (\<lambda>_.
          bb_ok (state\<lparr>sy_contiguous_complete_height := new_height\<rparr>))
     else bb_ok state)"

section \<open>Guards\<close>

definition guard_same_height_conflicts ::
  "backbone_env \<Rightarrow> int \<Rightarrow> bytes \<Rightarrow> canonical_height_row list \<Rightarrow> ('s, unit) backbone" where
  "guard_same_height_conflicts B height core_hash rows =
     (if \<not> (1 < length rows \<or> list_ex (\<lambda>r. hr_hash r \<noteq> core_hash) rows) then bb_ok ()
      else persist_and_fail B \<lparr>bf_kind = HeightConflict, bf_code = height_conflict_code, bf_height = height,
             bf_reason = SameHeightConflict height core_hash (map hr_hash rows)\<rparr>)"

definition guard_header_link :: "backbone_env \<Rightarrow> int \<Rightarrow> bytes \<Rightarrow> bool \<Rightarrow> ('s, unit) backbone" where
  "guard_header_link B height prev_hash default_contiguous_pass =
     (if height = 0 then bb_ok ()
      else bb_bind bb_get (\<lambda>st.
        let prev_rows = load_canonical_rows_at_height (db_blocks (co_db st)) (height - 1) in
        case prev_rows of
          [] \<Rightarrow>
            if default_contiguous_pass
            then persist_and_fail B \<lparr>bf_kind = ChainLinkMismatch, bf_code = link_mismatch_code, bf_height = height,
                   bf_reason = PreviousHeightMissing height\<rparr>
            else bb_ok ()
        | prev_row # _ \<Rightarrow>
            if 1 < length prev_rows \<or> hr_hash prev_row \<noteq> prev_hash
            then persist_and_fail B \<lparr>bf_kind = ChainLinkMismatch, bf_code = link_mismatch_code, bf_height = height,
                   bf_reason = PreviousLinkBroken height prev_hash (map hr_hash prev_rows)\<rparr>
            else bb_ok ()))"

definition guard_existing_link :: "backbone_env \<Rightarrow> int \<Rightarrow> canonical_height_row \<Rightarrow> bool \<Rightarrow> ('s, unit) backbone" where
  "guard_existing_link B height row default_contiguous_pass =
     guard_header_link B height (hr_prev_hash row) default_contiguous_pass"

definition active_hash_changed_failure :: "int \<Rightarrow> bytes \<Rightarrow> bytes \<Rightarrow> backbone_failure" where
  "active_hash_changed_failure height expected current =
     \<lparr>bf_kind = HeightConflict, bf_code = height_conflict_code, bf_height = height,
      bf_reason = ActiveHashChanged height expected current\<rparr>"

definition clear_link_error :: "int \<Rightarrow> core_state \<Rightarrow> core_state" where
  "clear_link_error error_height st =
     st\<lparr>co_sync := map_option (\<lambda>row.
        if ss_last_error_code row = Some link_mismatch_code \<and> ss_last_error_height row = Some error_height \<and> co_queue st = []
        then row\<lparr>ss_last_error_code := None, ss_last_error_height := None, ss_last_error := None,
                 ss_last_error_details := JObject []\<rparr>
        else row) (co_sync st)\<rparr>"

definition clear_resolved_backbone_link_error ::
  "backbone_env \<Rightarrow> 's backbone_source \<Rightarrow> backbone_sync_state \<Rightarrow> ('s, unit) backbone" where
  "clear_resolved_backbone_link_error B S state =
     (if sy_last_error_code state \<noteq> Some link_mismatch_code then bb_ok ()
      else case sy_last_error_height state of
          None \<Rightarrow> bb_ok ()
        | Some error_height \<Rightarrow>
            if sy_contiguous_complete_height state < error_height then bb_ok ()
            else
              bb_bind (bb_source (so_block_hash S error_height)) (\<lambda>core_hash.
              bb_bind bb_get (\<lambda>st.
              case load_canonical_rows_at_height (db_blocks (co_db st)) error_height of
                [row] \<Rightarrow>
                  if hr_coinbase_status row \<noteq> CoinbaseComplete \<or> hr_hash row \<noteq> core_hash then bb_ok ()
                  else bb_bind (guard_existing_link B error_height row True) (\<lambda>_. bb_modify (clear_link_error error_height))
              | _ \<Rightarrow> bb_ok ())))"

definition write_sync_progress :: "int \<Rightarrow> backbone_sync_state \<Rightarrow> core_state \<Rightarrow> core_state" where
  "write_sync_progress height state st =
     st\<lparr>co_sync := map_option (\<lambda>row.
        let row1 = row\<lparr>ss_contiguous_complete_height :=
                max (ss_contiguous_complete_height row) (sy_contiguous_complete_height state),
              ss_last_scanned_height := Some height, ss_last_attempted_height := Some height\<rparr>
        in if \<not> sy_preserve_error state \<and>
              (ss_last_error_height row = None \<or> ss_last_error_height row = Some height) \<and> co_queue st = []
           then row1\<lparr>ss_last_error_code := None, ss_last_error_height := None, ss_last_error := None,
                     ss_last_error_details := JObject []\<rparr>
           else row1) (co_sync st)\<rparr>"

definition update_sync_progress :: "int \<Rightarrow> backbone_sync_state \<Rightarrow> ('s, unit) backbone" where
  "update_sync_progress height state = bb_modify (write_sync_progress height state)"

section \<open>One height\<close>

datatype height_sync_outcome = HeightCompleted | SkippedComplete | HeightCoinbaseFailed

definition bb_cascade :: "backbone_env \<Rightarrow> bytes list \<Rightarrow> ('s, unit) backbone" where
  "bb_cascade B changed_hashes st s =
     (if changed_hashes = [] then Some (Inr (), st, s)
      else case reconcile_dependents_after_changes_with_budget (be_rm B) ClassifierOff changed_hashes
                  default_cascade_budget (co_db st) s of
          None \<Rightarrow> None
        | Some (Inl e, db1, s1) \<Rightarrow> Some (Inl (BackboneCascade e), st\<lparr>co_db := db1\<rparr>, s1)
        | Some (Inr _, db1, s1) \<Rightarrow> Some (Inr (), st\<lparr>co_db := db1\<rparr>, s1))"

definition bb_write :: "(database \<Rightarrow> (read_model_error, database) result) \<Rightarrow> ('s, unit) backbone" where
  "bb_write f st s =
     (case f (co_db st) of Inl e \<Rightarrow> Some (Inl (BackboneWrite e), st, s) | Inr db1 \<Rightarrow> Some (Inr (), st\<lparr>co_db := db1\<rparr>, s))"

definition try_skip_complete ::
  "backbone_env \<Rightarrow> 's backbone_source \<Rightarrow> int \<Rightarrow> bytes \<Rightarrow> bool \<Rightarrow> backbone_sync_state \<Rightarrow>
     ('s, (bytes \<times> backbone_sync_state) option) backbone" where
  "try_skip_complete B S height expected_hash default_contiguous_pass state =
     persist_after B (bb_transaction (
       bb_bind guard_no_pending_core_reconcile (\<lambda>_.
       bb_bind (bb_source (so_block_hash S height)) (\<lambda>current_hash.
       if current_hash \<noteq> expected_hash
       then bb_err (FailureError (active_hash_changed_failure height expected_hash current_hash))
       else
         bb_bind bb_get (\<lambda>st.
         let rows = load_canonical_rows_at_height (db_blocks (co_db st)) height in
         bb_bind (guard_same_height_conflicts B height expected_hash rows) (\<lambda>_.
         case rows of
           [row] \<Rightarrow>
             if hr_hash row \<noteq> expected_hash \<or> hr_coinbase_status row \<noteq> CoinbaseComplete then bb_ok None
             else
               bb_bind (guard_existing_link B height row default_contiguous_pass) (\<lambda>_.
               bb_bind (advance_contiguous_complete_prefix state) (\<lambda>state1.
               bb_bind (update_sync_progress height state1) (\<lambda>_.
               bb_ok (Some (hr_hash row, state1)))))
         | _ \<Rightarrow> bb_ok None))))))"

text \<open>\<open>CoreHeightObservation::validate\<close>, run inside the transaction of the write.\<close>

definition validate_observation ::
  "backbone_env \<Rightarrow> 's backbone_source \<Rightarrow> int \<Rightarrow> bytes \<Rightarrow> header \<Rightarrow> bool \<Rightarrow> ('s, unit) backbone" where
  "validate_observation B S height hash hdr default_contiguous_pass =
     bb_bind guard_no_pending_core_reconcile (\<lambda>_.
     bb_bind (bb_source (so_block_hash S height)) (\<lambda>current.
     if current \<noteq> hash then bb_err (FailureError (active_hash_changed_failure height hash current))
     else
       bb_bind bb_get (\<lambda>st.
       bb_bind (guard_same_height_conflicts B height hash (load_canonical_rows_at_height (db_blocks (co_db st)) height)) (\<lambda>_.
       guard_header_link B height (h_prev_blockhash hdr) default_contiguous_pass))))"

definition write_observed_core_canonical ::
  "backbone_env \<Rightarrow> 's backbone_source \<Rightarrow> int \<Rightarrow> bytes \<Rightarrow> header \<Rightarrow> bool \<Rightarrow> core_block_coinbase option \<Rightarrow>
     ('s, 'a) backbone \<Rightarrow> ('s, 'a \<times> bytes list) backbone" where
  "write_observed_core_canonical B S height hash hdr default_contiguous_pass coinbase in_txn_extra =
     persist_after B (bb_transaction (
       bb_bind (validate_observation B S height hash hdr default_contiguous_pass) (\<lambda>_.
       bb_bind (bb_write (upsert_core_canonical_header_with_coinbase (be_rm B) hdr height coinbase)) (\<lambda>_.
       bb_bind in_txn_extra (\<lambda>a.
       bb_ok (a, [block_hash (rm_lib (be_rm B)) hdr]))))))"

definition sync_fetched_height ::
  "backbone_env \<Rightarrow> 's backbone_source \<Rightarrow> int \<Rightarrow> bytes \<Rightarrow> header \<Rightarrow> bool \<Rightarrow> backbone_sync_state \<Rightarrow>
     (core_error, core_block_coinbase) result \<Rightarrow> ('s, height_sync_outcome \<times> backbone_sync_state) backbone" where
  "sync_fetched_height B S height core_hash hdr default_contiguous_pass state fetched =
     (case fetched of
        Inl err \<Rightarrow>
          if source_must_propagate err then bb_err (SourceError err)
          else
            bb_bind (write_observed_core_canonical B S height core_hash hdr default_contiguous_pass None
              (bb_bind (bb_modify (\<lambda>st. st\<lparr>co_db := record_coinbase_failure height core_hash (co_db st)\<rparr>)) (\<lambda>_.
               update_sync_error B height ''coinbase_fetch_failed'' (CoinbaseFetchFailed core_hash err)))) (\<lambda>(_, changed).
            bb_bind (bb_cascade B changed) (\<lambda>_.
            bb_ok (HeightCoinbaseFailed, state\<lparr>sy_preserve_error := True\<rparr>)))
      | Inr coinbase \<Rightarrow>
          bb_bind (write_observed_core_canonical B S height core_hash hdr default_contiguous_pass (Some coinbase)
            (bb_bind (advance_contiguous_complete_prefix state) (\<lambda>state1.
             bb_bind (update_sync_progress height state1) (\<lambda>_. bb_ok state1)))) (\<lambda>(state1, changed).
          bb_bind (bb_cascade B changed) (\<lambda>_. bb_ok (HeightCompleted, state1))))"

text \<open>\<open>await\<close> without \<open>?\<close>.\<close>

definition bb_attempt :: "('s, 'a) core_io \<Rightarrow> ('s, (core_error, 'a) result) backbone" where
  "bb_attempt m st s = (let (r, s1) = m s in Some (Inr r, st, s1))"

definition sync_one_height ::
  "backbone_env \<Rightarrow> 's backbone_source \<Rightarrow> int \<Rightarrow> bool \<Rightarrow> bool \<Rightarrow> backbone_sync_state \<Rightarrow>
     ('s, height_sync_outcome \<times> backbone_sync_state) backbone" where
  "sync_one_height B S height missing_only default_contiguous_pass state =
     bb_bind (bb_source (so_block_hash S height)) (\<lambda>core_hash.
     bb_bind bb_get (\<lambda>st.
     let rows = load_canonical_rows_at_height (db_blocks (co_db st)) height in
     bb_bind (guard_same_height_conflicts B height core_hash rows) (\<lambda>_.
     bb_bind
       (case rows of
          row # _ \<Rightarrow>
            if missing_only \<and> hr_hash row = core_hash \<and> hr_coinbase_status row = CoinbaseComplete
            then try_skip_complete B S height core_hash default_contiguous_pass state else bb_ok None
        | [] \<Rightarrow> bb_ok None) (\<lambda>skipped.
     case skipped of
       Some (skipped_hash, state1) \<Rightarrow>
         bb_bind bb_get (\<lambda>st1.
         bb_bind (if skipped_complete_has_missing_dependents (co_db st1) skipped_hash then bb_cascade B [skipped_hash]
                  else bb_ok ()) (\<lambda>_.
         bb_ok (SkippedComplete, state1)))
     | None \<Rightarrow>
         bb_bind (bb_source (so_block_header S core_hash)) (\<lambda>hdr.
         bb_bind (guard_header_link B height (h_prev_blockhash hdr) default_contiguous_pass) (\<lambda>_.
         bb_bind (bb_attempt (so_block_coinbase S core_hash)) (\<lambda>fetched.
         sync_fetched_height B S height core_hash hdr default_contiguous_pass state fetched)))))))"

section \<open>A batch\<close>

record backbone_sync_stats =
  st_attempted :: nat
  st_completed :: nat
  st_skipped_complete :: nat
  st_coinbase_failed :: nat

definition zero_stats :: backbone_sync_stats where
  "zero_stats = \<lparr>st_attempted = 0, st_completed = 0, st_skipped_complete = 0, st_coinbase_failed = 0\<rparr>"

definition count_outcome :: "height_sync_outcome \<Rightarrow> backbone_sync_stats \<Rightarrow> backbone_sync_stats" where
  "count_outcome o0 stats =
     (let stats1 = stats\<lparr>st_attempted := st_attempted stats + 1\<rparr> in
      case o0 of
        HeightCompleted \<Rightarrow> stats1\<lparr>st_completed := st_completed stats1 + 1\<rparr>
      | SkippedComplete \<Rightarrow> stats1\<lparr>st_skipped_complete := st_skipped_complete stats1 + 1\<rparr>
      | HeightCoinbaseFailed \<Rightarrow> stats1\<lparr>st_coinbase_failed := st_coinbase_failed stats1 + 1\<rparr>)"

fun sync_heights ::
  "backbone_env \<Rightarrow> 's backbone_source \<Rightarrow> bool \<Rightarrow> bool \<Rightarrow> int list \<Rightarrow> backbone_sync_stats \<times> backbone_sync_state \<Rightarrow>
     ('s, backbone_sync_stats) backbone" where
  "sync_heights B S missing_only dcp [] (stats, state) = bb_ok stats"
| "sync_heights B S missing_only dcp (height # heights) (stats, state) =
     bb_bind (sync_one_height B S height missing_only dcp state) (\<lambda>(outcome, state1).
     sync_heights B S missing_only dcp heights (count_outcome outcome stats, state1))"

definition prepare_sync_batch ::
  "backbone_env \<Rightarrow> 's backbone_source \<Rightarrow> bool \<Rightarrow> ('s, backbone_sync_state \<times> backbone_tip) backbone" where
  "prepare_sync_batch B S pin_target =
     persist_after B (bb_transaction (
       bb_bind guard_no_pending_core_reconcile (\<lambda>_.
       bb_bind load_or_init_sync_state (\<lambda>state.
       bb_bind (bb_source (so_tip S)) (\<lambda>tip.
       bb_bind (if pin_target then verify_or_set_target_tip B state tip else bb_ok state) (\<lambda>state1.
       bb_bind (advance_contiguous_complete_prefix state1) (\<lambda>state2.
       bb_bind (clear_resolved_backbone_link_error B S state2) (\<lambda>_.
       bb_ok (state2, tip)))))))))"

record backbone_sync_config =
  sc_from_height :: "int option"
  sc_to_height :: "int option"
  sc_limit :: int
  sc_tip :: bool
  sc_missing_only :: bool
  sc_follow :: bool
  sc_follow_interval_secs :: nat
  sc_near_tip_repair_window_heights :: int

definition sync_range :: "backbone_sync_config \<Rightarrow> int \<Rightarrow> int \<Rightarrow> int \<times> int" where
  "sync_range config cch tip_height =
     (let from_height = (case sc_from_height config of Some h \<Rightarrow> h | None \<Rightarrow> max (wrap_i32 (cch + 1)) 0);
          limit_end_height = min (from_height + sc_limit config - 1) (2 ^ 31 - 1)
      in (from_height, case sc_to_height config of Some h \<Rightarrow> h | None \<Rightarrow> min tip_height limit_end_height))"

definition sync_heights_in ::
  "backbone_env \<Rightarrow> 's backbone_source \<Rightarrow> backbone_sync_config \<Rightarrow> backbone_sync_state \<Rightarrow> backbone_tip \<Rightarrow>
     ('s, backbone_sync_stats) backbone" where
  "sync_heights_in B S config state tip =
     (let (from_height, to_height) = sync_range config (sy_contiguous_complete_height state) (bt_height tip) in
      sync_heights B S (sc_missing_only config) (sc_from_height config = None) [from_height..to_height] (zero_stats, state))"

definition run_sync_bitcoin_core ::
  "backbone_env \<Rightarrow> 's backbone_source \<Rightarrow> backbone_sync_config \<Rightarrow> ('s, backbone_sync_stats) backbone" where
  "run_sync_bitcoin_core B S config =
     bb_bind (prepare_sync_batch B S (sc_tip config)) (\<lambda>(state, tip).
     case sc_to_height config of
       Some to_height \<Rightarrow>
         if bt_height tip < to_height
         then bb_bind (update_sync_error B to_height ''to_height_above_tip'' (ToHeightAboveTip to_height (bt_height tip))) (\<lambda>_.
              bb_err (ToHeightError to_height))
         else sync_heights_in B S config state tip
     | None \<Rightarrow> sync_heights_in B S config state tip)"

declare advance_prefix.simps [simp del]

section \<open>The proven prefix\<close>

definition extends_chain :: "block_row list \<Rightarrow> int \<Rightarrow> bool" where
  "extends_chain blocks h =
     (case load_canonical_rows_at_height blocks h of
        [row] \<Rightarrow> hr_coinbase_status row = CoinbaseComplete \<and>
          (h \<noteq> 0 \<longrightarrow> (case load_canonical_rows_at_height blocks (h - 1) of
             [prev] \<Rightarrow> hr_hash prev = hr_prev_hash row | _ \<Rightarrow> False))
      | _ \<Rightarrow> False)"

text \<open>The heights from genesis to \<open>height\<close> have one canonical row each, complete and linked to the one below.\<close>

definition proven_prefix :: "block_row list \<Rightarrow> int \<Rightarrow> bool" where
  "proven_prefix blocks height = list_all (extends_chain blocks) [0..height]"

lemma proven_prefix_step: "-1 \<le> h \<Longrightarrow> proven_prefix blocks (h + 1) \<longleftrightarrow> proven_prefix blocks h \<and> extends_chain blocks (h + 1)"
  by (auto simp: proven_prefix_def list_all_iff upto_rec2)

lemma proven_prefix_mono: "proven_prefix blocks k \<Longrightarrow> h \<le> k \<Longrightarrow> proven_prefix blocks h"
  by (auto simp: proven_prefix_def list_all_iff)

lemma advance_prefix_greatest:
  assumes "-1 \<le> h" "proven_prefix blocks h"
    and "0 \<le> h \<longrightarrow> (\<exists>row. load_canonical_rows_at_height blocks h = [row] \<and> anchor = Some (hr_hash row))"
  shows "h \<le> advance_prefix blocks anchor h \<and> proven_prefix blocks (advance_prefix blocks anchor h) \<and>
    (\<forall>k. i32_ok k \<and> proven_prefix blocks k \<longrightarrow> k \<le> advance_prefix blocks anchor h)"
  using assms
proof (induction blocks anchor h rule: advance_prefix.induct)
  case (1 blocks anchor h)
  have stop: "\<forall>k. i32_ok k \<and> proven_prefix blocks k \<longrightarrow> k \<le> h"
    if no: "i32_ok (h + 1) \<longrightarrow> \<not> extends_chain blocks (h + 1)"
  proof (intro allI impI)
    fix k assume k: "i32_ok k \<and> proven_prefix blocks k"
    show "k \<le> h"
    proof (rule ccontr)
      assume "\<not> k \<le> h"
      then have "h + 1 \<le> k" by simp
      with k have "proven_prefix blocks (h + 1)" "i32_ok (h + 1)"
        using proven_prefix_mono 1(2) by (auto simp: i32_ok_def)
      then show False using no proven_prefix_step [OF 1(2)] by simp
    qed
  qed
  show ?case
  proof (cases "i32_ok (h + 1)")
    case False
    then have "advance_prefix blocks anchor h = h" by (simp add: advance_prefix.simps [of _ _ h] checked_i32_def)
    with stop False 1(3) show ?thesis by simp
  next
    case ok: True
    then have c: "checked_i32 (h + 1) = Some (h + 1)" by (simp add: checked_i32_def)
    show ?thesis
    proof (cases "extends_chain blocks (h + 1)")
      case False
      have "advance_prefix blocks anchor h = h"
      proof (cases "0 \<le> h")
        case True
        then show ?thesis using False 1(4) unfolding advance_prefix.simps [of _ _ h] c extends_chain_def
          by (auto split: list.splits)
      next
        case False
        then have "h = -1" using 1(2) by simp
        then show ?thesis using \<open>\<not> extends_chain blocks (h + 1)\<close> c
          unfolding advance_prefix.simps [of _ _ h] extends_chain_def by (simp split: list.splits)
      qed
      with stop False 1(3) show ?thesis by simp
    next
      case True
      then obtain row where row: "load_canonical_rows_at_height blocks (h + 1) = [row]" "hr_coinbase_status row = CoinbaseComplete"
        "h + 1 \<noteq> 0 \<longrightarrow> anchor = Some (hr_prev_hash row)"
        using 1(2,4) unfolding extends_chain_def by (auto split: list.splits)
      have step: "advance_prefix blocks anchor h = advance_prefix blocks (Some (hr_hash row)) (h + 1)"
        using row by (subst advance_prefix.simps) (auto simp: c)
      have "h + 1 \<le> advance_prefix blocks (Some (hr_hash row)) (h + 1) \<and>
          proven_prefix blocks (advance_prefix blocks (Some (hr_hash row)) (h + 1)) \<and>
          (\<forall>k. i32_ok k \<and> proven_prefix blocks k \<longrightarrow> k \<le> advance_prefix blocks (Some (hr_hash row)) (h + 1))"
        by (rule 1(1) [OF c row(1) refl])
          (use row 1(2,3) True proven_prefix_step [OF 1(2)] in auto)
      with step show ?thesis by simp
    qed
  qed
qed

lemma advanced_height_greatest:
  assumes "-1 \<le> h" "proven_prefix blocks h"
  shows "h \<le> advanced_height blocks h \<and> proven_prefix blocks (advanced_height blocks h) \<and>
    (\<forall>k. i32_ok k \<and> proven_prefix blocks k \<longrightarrow> k \<le> advanced_height blocks h)"
proof (cases "0 \<le> h")
  case False
  then show ?thesis using advance_prefix_greatest [of h blocks None] assms by (simp add: advanced_height_def)
next
  case True
  then have "extends_chain blocks h" using assms(2) by (simp add: proven_prefix_def list_all_iff)
  then obtain row where "load_canonical_rows_at_height blocks h = [row]" "hr_coinbase_status row = CoinbaseComplete"
    unfolding extends_chain_def by (auto split: list.splits)
  then show ?thesis using advance_prefix_greatest [of h blocks "Some (hr_hash row)"] assms True
    by (simp add: advanced_height_def)
qed

text \<open>C12: The contiguous cursor is exactly what its column promises: when it stands at a height proven complete and
  linked from genesis, advancing it ends at the greatest such height, however the rows came there,
  stores it, and never moves it back.\<close>

theorem contiguous_cursor_exact:
  assumes "co_sync st = Some row" "sy_contiguous_complete_height state = ss_contiguous_complete_height row"
    and "-1 \<le> ss_contiguous_complete_height row" "proven_prefix (db_blocks (co_db st)) (ss_contiguous_complete_height row)"
  shows "\<exists>state1 row1. advance_contiguous_complete_prefix state st s = Some (Inr state1, st\<lparr>co_sync := Some row1\<rparr>, s) \<and>
    sy_contiguous_complete_height state1 = ss_contiguous_complete_height row1 \<and>
    ss_contiguous_complete_height row \<le> ss_contiguous_complete_height row1 \<and>
    proven_prefix (db_blocks (co_db st)) (ss_contiguous_complete_height row1) \<and>
    (\<forall>k. i32_ok k \<and> proven_prefix (db_blocks (co_db st)) k \<longrightarrow> k \<le> ss_contiguous_complete_height row1)"
proof -
  let ?h = "ss_contiguous_complete_height row"
  note g = advanced_height_greatest [OF assms(3,4)]
  show ?thesis
  proof (cases "?h < advanced_height (db_blocks (co_db st)) ?h")
    case True
    let ?row = "row\<lparr>ss_contiguous_complete_height := advanced_height (db_blocks (co_db st)) ?h\<rparr>"
    from True show ?thesis using g assms(1,2)
      by (intro exI [of _ "state\<lparr>sy_contiguous_complete_height := ss_contiguous_complete_height ?row\<rparr>"] exI [of _ ?row])
        (simp add: advance_contiguous_complete_prefix_def bb_bind_def bb_get_def bb_modify_def bb_ok_def Let_def)
  next
    case False
    then have same: "advanced_height (db_blocks (co_db st)) ?h = ?h" using g by simp
    have "st\<lparr>co_sync := Some row\<rparr> = st" using assms(1) by simp
    then show ?thesis using g [unfolded same] assms(1,2) False
      by (intro exI [of _ state] exI [of _ row])
        (simp add: advance_contiguous_complete_prefix_def bb_bind_def bb_get_def bb_ok_def Let_def)
  qed
qed

section \<open>Witnesses\<close>

definition demo_genesis_row :: block_row where
  "demo_genesis_row = synthesized_row demo_env demo_empty (demo_canonical_header\<lparr>ch_hash := demo_node_hash 0,
     ch_prev_hash := replicate 32 0, ch_header := Parent_Classifier.demo_chain 0, ch_height := 0\<rparr>)"

definition demo_fresh :: core_state where
  "demo_fresh = \<lparr>co_db = demo_empty\<lparr>db_blocks := [demo_row, demo_genesis_row]\<rparr>, co_queue = [], co_sync = Some fresh_sync_row\<rparr>"

definition demo_sync_state :: backbone_sync_state where
  "demo_sync_state = \<lparr>sy_target_tip_height = None, sy_target_tip_hash = None, sy_contiguous_complete_height = -1,
     sy_last_error_code = None, sy_last_error_height = None, sy_preserve_error = False\<rparr>"

lemma demo_genesis_proven: "proven_prefix (db_blocks (co_db demo_fresh)) 0"
  by code_simp

theorem contiguous_cursor_exact_witness:
  "\<exists>state1 row1. advance_contiguous_complete_prefix demo_sync_state demo_fresh () =
     Some (Inr state1, demo_fresh\<lparr>co_sync := Some row1\<rparr>, ()) \<and> 0 \<le> ss_contiguous_complete_height row1"
proof -
  have "co_sync demo_fresh = Some fresh_sync_row" "-1 \<le> ss_contiguous_complete_height fresh_sync_row"
    "sy_contiguous_complete_height demo_sync_state = ss_contiguous_complete_height fresh_sync_row"
    "proven_prefix (db_blocks (co_db demo_fresh)) (ss_contiguous_complete_height fresh_sync_row)"
    by (simp_all add: demo_fresh_def demo_sync_state_def fresh_sync_row_def proven_prefix_def)
  note x = contiguous_cursor_exact [OF this(1,3,2,4), of "()"]
  have "i32_ok 0" by (simp add: i32_ok_def)
  with x demo_genesis_proven show ?thesis by blast
qed

end
