(* ===== verification/Reorg_Repair.thy ===== *)
theory Reorg_Repair
  imports Backbone
begin

text \<open>
  \<open>crates/mmm-producers/src/bitcoin_core_backbone/reorg.rs\<close> and \<open>live_window.rs\<close>: the bounded repair of the
  canonical rows near the tip from a view of Core's chain, and the verification of the live window.
  The view is captured by following the previous hashes from the pinned target.
\<close>

section \<open>Views\<close>

record core_view_row =
  vr_height :: int
  vr_hash :: bytes
  vr_header :: header

record local_canonical_row =
  lc_height :: int
  lc_hash :: bytes
  lc_prev_hash :: bytes
  lc_coinbase_status :: core_coinbase_status

datatype repair_plan = NoHashConflict | ReplaceFrom nat

datatype repair_plan_error = NoMatchingAnchor int int int int

definition live_backbone_window_start_height :: "int \<Rightarrow> int \<Rightarrow> int" where
  "live_backbone_window_start_height tip_height window_heights =
     max (sat_i32 (tip_height - sat_i32 (window_heights - 1))) 0"

definition core_view_start_height :: "int \<Rightarrow> int \<Rightarrow> int" where
  "core_view_start_height tip_height window_heights =
     max (sat_i32 (live_backbone_window_start_height tip_height window_heights - 1)) 0"

definition load_local_canonical_rows :: "block_row list \<Rightarrow> int \<Rightarrow> int \<Rightarrow> local_canonical_row list" where
  "load_local_canonical_rows blocks from_height to_height =
     sort_key (\<lambda>r. (lc_height r, lc_hash r)) (List.map_filter (\<lambda>b.
       case br_height b of
         Some h \<Rightarrow>
           if br_kind b = BkCanonical \<and> from_height \<le> h \<and> h \<le> to_height
           then Some \<lparr>lc_height = h, lc_hash = br_hash b, lc_prev_hash = br_prev_hash b,
                      lc_coinbase_status = br_coinbase_status b\<rparr>
           else None
       | None \<Rightarrow> None) blocks)"

text \<open>The loop of \<open>capture_core_view_until\<close> from \<open>height\<close> down to \<open>view_start\<close>; the rows come in descending order.\<close>

fun capture_descending ::
  "backbone_env \<Rightarrow> 's backbone_source \<Rightarrow> (core_view_row \<Rightarrow> bool) \<Rightarrow> int list \<Rightarrow> bytes \<Rightarrow> ('s, core_view_row list) backbone" where
  "capture_descending B S stop [] requested_hash = bb_ok []"
| "capture_descending B S stop (height # heights) requested_hash =
     bb_bind (bb_source (so_block_header S requested_hash)) (\<lambda>hdr.
     let actual_hash = block_hash (rm_lib (be_rm B)) hdr in
     if actual_hash \<noteq> requested_hash then bb_err (WrongHeader actual_hash requested_hash height)
     else
       let row = \<lparr>vr_height = height, vr_hash = actual_hash, vr_header = hdr\<rparr> in
       if stop row then bb_ok [row]
       else bb_bind (capture_descending B S stop heights (h_prev_blockhash hdr)) (\<lambda>rows. bb_ok (row # rows)))"

definition capture_core_view_until ::
  "backbone_env \<Rightarrow> 's backbone_source \<Rightarrow> backbone_tip \<Rightarrow> int \<Rightarrow> (core_view_row \<Rightarrow> bool) \<Rightarrow> ('s, core_view_row list) backbone" where
  "capture_core_view_until B S target view_start stop =
     bb_bind (capture_descending B S stop (rev [view_start..bt_height target]) (bt_hash target)) (\<lambda>rows. bb_ok (rev rows))"

definition capture_core_view ::
  "backbone_env \<Rightarrow> 's backbone_source \<Rightarrow> backbone_tip \<Rightarrow> int \<Rightarrow> ('s, core_view_row list) backbone" where
  "capture_core_view B S target window_heights =
     capture_core_view_until B S target (core_view_start_height (bt_height target) window_heights) (\<lambda>_. False)"

definition usable_anchor :: "local_canonical_row list \<Rightarrow> core_view_row \<Rightarrow> bool" where
  "usable_anchor local_rows core =
     (case filter (\<lambda>r. lc_height r = vr_height core) local_rows of
        [r] \<Rightarrow> lc_hash r = vr_hash core \<and> lc_coinbase_status r = CoinbaseComplete
      | _ \<Rightarrow> False)"

definition capture_cursor_recovery_view ::
  "backbone_env \<Rightarrow> 's backbone_source \<Rightarrow> backbone_tip \<Rightarrow> int \<Rightarrow> local_canonical_row list \<Rightarrow> ('s, core_view_row list) backbone" where
  "capture_cursor_recovery_view B S target view_start local_rows =
     capture_core_view_until B S target view_start (usable_anchor local_rows)"

section \<open>Planning\<close>

definition conflicts :: "local_canonical_row list \<Rightarrow> core_view_row \<Rightarrow> bool" where
  "conflicts local_rows core = list_ex (\<lambda>r. lc_height r = vr_height core \<and> lc_hash r \<noteq> vr_hash core) local_rows"

text \<open>\<open>Iterator::position\<close>, and \<open>(0..n).rev().find\<close>.\<close>

definition position :: "('a \<Rightarrow> bool) \<Rightarrow> 'a list \<Rightarrow> nat option" where
  "position P xs = List.find (\<lambda>i. P (xs ! i)) [0..<length xs]"

definition plan_repair :: "core_view_row list \<Rightarrow> local_canonical_row list \<Rightarrow> (repair_plan_error, repair_plan) result" where
  "plan_repair core_view local_rows =
     (case position (conflicts local_rows) core_view of
        None \<Rightarrow> Inr NoHashConflict
      | Some first_conflict_index \<Rightarrow>
          (case List.find (\<lambda>i. usable_anchor local_rows (core_view ! i)) (rev [0..<first_conflict_index]) of
             Some matching_anchor_index \<Rightarrow> Inr (ReplaceFrom (matching_anchor_index + 1))
           | None \<Rightarrow>
               Inl (NoMatchingAnchor
                 (case List.find (\<lambda>core. \<not> usable_anchor local_rows core) (take (first_conflict_index + 1) core_view) of
                    Some core \<Rightarrow> vr_height core | None \<Rightarrow> vr_height (hd core_view))
                 (vr_height (core_view ! first_conflict_index)) (vr_height (hd core_view)) (vr_height (last core_view)))))"

section \<open>Target checks\<close>

definition reorg_integrity_failure :: "backbone_env \<Rightarrow> int \<Rightarrow> failure_reason \<Rightarrow> ('s, 'a) backbone" where
  "reorg_integrity_failure B height reason =
     bb_bind (update_sync_error B height reorg_repair_error_code reason) (\<lambda>_. bb_err (IntegrityError LiveWindowInvariant))"

definition record_plan_error :: "backbone_env \<Rightarrow> string \<Rightarrow> repair_plan_error \<Rightarrow> ('s, 'a) backbone" where
  "record_plan_error B view err =
     (case err of
        NoMatchingAnchor first_divergence_height first_conflict_height view_start view_end \<Rightarrow>
          reorg_integrity_failure B first_conflict_height
            (NoMatchingAnchorIn view first_divergence_height first_conflict_height view_start view_end))"

definition validate_target_bounds :: "backbone_env \<Rightarrow> backbone_tip \<Rightarrow> int \<Rightarrow> int option \<Rightarrow> ('s, unit) backbone" where
  "validate_target_bounds B target cch persisted_target_height =
     (if bt_height target < cch then reorg_integrity_failure B (bt_height target) (TargetBelowCursor target cch)
      else case persisted_target_height of
          Some previous \<Rightarrow>
            if bt_height target < previous
            then reorg_integrity_failure B (bt_height target) (TargetBelowPersisted target previous) else bb_ok ()
        | None \<Rightarrow> bb_ok ())"

definition target_stability_failure ::
  "'s backbone_source \<Rightarrow> backbone_tip \<Rightarrow> ('s, backbone_failure option) core_io" where
  "target_stability_failure S target =
     io_bind (so_tip S) (\<lambda>current_tip.
     if bt_height current_tip < bt_height target
     then io_ok (Some \<lparr>bf_kind = LiveWindowInvariant, bf_code = reorg_repair_error_code, bf_height = bt_height target,
                 bf_reason = TipRegressed target current_tip\<rparr>)
     else
       io_bind (if bt_height current_tip = bt_height target then io_ok (bt_hash current_tip)
                else so_block_hash S (bt_height target)) (\<lambda>current_target_hash.
       if current_target_hash = bt_hash target then io_ok None
       else io_ok (Some \<lparr>bf_kind = LiveWindowInvariant, bf_code = reorg_repair_error_code, bf_height = bt_height target,
                   bf_reason = TargetMoved target current_target_hash\<rparr>)))"

definition verify_target_stable :: "backbone_env \<Rightarrow> 's backbone_source \<Rightarrow> backbone_tip \<Rightarrow> ('s, unit) backbone" where
  "verify_target_stable B S target =
     bb_bind (bb_source (target_stability_failure S target)) (\<lambda>failure.
     case failure of None \<Rightarrow> bb_ok () | Some f \<Rightarrow> persist_and_fail B f)"

section \<open>The live window\<close>

definition live_window_invariant_failure :: "backbone_env \<Rightarrow> int \<Rightarrow> failure_reason \<Rightarrow> ('s, 'a) backbone" where
  "live_window_invariant_failure B height reason =
     bb_bind (update_sync_error B height live_window_invariant_error_code reason) (\<lambda>_.
     bb_err (IntegrityError LiveWindowInvariant))"

definition verify_live_backbone_target_hash ::
  "backbone_env \<Rightarrow> 's backbone_source \<Rightarrow> backbone_tip \<Rightarrow> ('s, unit) backbone" where
  "verify_live_backbone_target_hash B S target =
     bb_bind (bb_source (so_block_hash S (bt_height target))) (\<lambda>current_hash.
     if current_hash = bt_hash target then bb_ok ()
     else live_window_invariant_failure B (bt_height target) (WindowTargetHash target current_hash))"

definition take_single_live_window_row ::
  "backbone_env \<Rightarrow> local_canonical_row list \<Rightarrow> int \<Rightarrow> ('s, local_canonical_row) backbone" where
  "take_single_live_window_row B rows height =
     (case filter (\<lambda>r. lc_height r = height) rows of
        [] \<Rightarrow> live_window_invariant_failure B height (WindowMissingHeight height)
      | [row] \<Rightarrow> bb_ok row
      | duplicates \<Rightarrow> live_window_invariant_failure B height (WindowDuplicateHeight height (map lc_hash duplicates)))"

definition verify_live_window_coinbase :: "backbone_env \<Rightarrow> local_canonical_row \<Rightarrow> ('s, unit) backbone" where
  "verify_live_window_coinbase B row =
     (if lc_coinbase_status row = CoinbaseComplete then bb_ok ()
      else live_window_invariant_failure B (lc_height row) (WindowIncompleteCoinbase (lc_height row) (lc_hash row)))"

definition verify_live_window_prev_link ::
  "backbone_env \<Rightarrow> local_canonical_row \<Rightarrow> bytes option \<Rightarrow> ('s, unit) backbone" where
  "verify_live_window_prev_link B row previous_hash =
     (case previous_hash of
        None \<Rightarrow> bb_ok ()
      | Some previous \<Rightarrow>
          if lc_prev_hash row = previous then bb_ok ()
          else live_window_invariant_failure B (lc_height row) (WindowPrevLink (lc_height row) (lc_prev_hash row) previous))"

definition verify_live_window_tip_hash :: "backbone_env \<Rightarrow> backbone_tip \<Rightarrow> bytes option \<Rightarrow> ('s, unit) backbone" where
  "verify_live_window_tip_hash B target tip_hash =
     (if tip_hash = Some (bt_hash target) then bb_ok ()
      else live_window_invariant_failure B (bt_height target) (WindowTipHash target tip_hash))"

text \<open>The heights of the window in turn; \<open>tip_hash\<close> is the hash of the target's height once it was seen.\<close>

fun verify_window_rows ::
  "backbone_env \<Rightarrow> backbone_tip \<Rightarrow> local_canonical_row list \<Rightarrow> int list \<Rightarrow> bytes option \<Rightarrow> bytes option \<Rightarrow> ('s, unit) backbone" where
  "verify_window_rows B target rows [] previous_hash tip_hash = verify_live_window_tip_hash B target tip_hash"
| "verify_window_rows B target rows (height # heights) previous_hash tip_hash =
     bb_bind (take_single_live_window_row B rows height) (\<lambda>row.
     bb_bind (verify_live_window_coinbase B row) (\<lambda>_.
     bb_bind (verify_live_window_prev_link B row previous_hash) (\<lambda>_.
     verify_window_rows B target rows heights (Some (lc_hash row))
       (if height = bt_height target then Some (lc_hash row) else tip_hash))))"

definition verify_live_backbone_window_rows ::
  "backbone_env \<Rightarrow> backbone_tip \<Rightarrow> int \<Rightarrow> local_canonical_row list \<Rightarrow> ('s, unit) backbone" where
  "verify_live_backbone_window_rows B target start_height rows =
     verify_window_rows B target rows [start_height..bt_height target] None None"

definition verify_live_backbone_window ::
  "backbone_env \<Rightarrow> 's backbone_source \<Rightarrow> backbone_tip \<Rightarrow> int \<Rightarrow> ('s, unit) backbone" where
  "verify_live_backbone_window B S target window_heights =
     bb_bind load_or_init_sync_state (\<lambda>_.
     bb_bind (verify_live_backbone_target_hash B S target) (\<lambda>_.
     bb_bind bb_get (\<lambda>st.
     let window_start = live_backbone_window_start_height (bt_height target) window_heights in
     verify_live_backbone_window_rows B target window_start
       (load_local_canonical_rows (db_blocks (co_db st)) window_start (bt_height target)))))"

definition gap_config :: "backbone_tip \<Rightarrow> int \<Rightarrow> backbone_sync_config" where
  "gap_config target window_heights =
     \<lparr>sc_from_height = Some (live_backbone_window_start_height (bt_height target) window_heights),
      sc_to_height = Some (bt_height target), sc_limit = 100, sc_tip = False, sc_missing_only = True,
      sc_follow = False, sc_follow_interval_secs = 60, sc_near_tip_repair_window_heights = 64\<rparr>"

definition repair_near_tip_gaps_to_target ::
  "backbone_env \<Rightarrow> 's backbone_source \<Rightarrow> backbone_tip \<Rightarrow> int \<Rightarrow> ('s, backbone_sync_stats) backbone" where
  "repair_near_tip_gaps_to_target B S target window_heights =
     bb_bind load_or_init_sync_state (\<lambda>_.
     bb_bind (verify_live_backbone_target_hash B S target) (\<lambda>_.
     bb_bind (run_sync_bitcoin_core B S (gap_config target window_heights)) (\<lambda>stats.
     bb_bind (verify_live_backbone_target_hash B S target) (\<lambda>_.
     bb_ok stats))))"

section \<open>Repair\<close>

fun fetch_replacements :: "backbone_env \<Rightarrow> 's backbone_source \<Rightarrow> core_view_row list \<Rightarrow> ('s, core_canonical_replacement list) backbone" where
  "fetch_replacements B S [] = bb_ok []"
| "fetch_replacements B S (row # rows) =
     bb_bind (bb_source (so_block_coinbase S (block_hash (rm_lib (be_rm B)) (vr_header row)))) (\<lambda>coinbase.
     bb_bind (fetch_replacements B S rows) (\<lambda>rest.
     bb_ok (\<lparr>cc_height = vr_height row, cc_header = vr_header row, cc_coinbase = coinbase\<rparr> # rest)))"

definition expected_local_rows :: "local_canonical_row list \<Rightarrow> expected_core_canonical_row list" where
  "expected_local_rows rows = map (\<lambda>r. \<lparr>xr_height = lc_height r, xr_hash = lc_hash r, xr_prev_hash = lc_prev_hash r\<rparr>) rows"

definition add_stats :: "backbone_sync_stats \<Rightarrow> backbone_sync_stats \<Rightarrow> backbone_sync_stats" where
  "add_stats l r = \<lparr>st_attempted = st_attempted l + st_attempted r, st_completed = st_completed l + st_completed r,
     st_skipped_complete = st_skipped_complete l + st_skipped_complete r,
     st_coinbase_failed = st_coinbase_failed l + st_coinbase_failed r\<rparr>"

text \<open>\<open>bitcoin_epoch_cache::drain_core_queue\<close>.\<close>

definition drain_core_queue :: "backbone_env \<Rightarrow> 's configured_classifier \<Rightarrow> ('s, unit) backbone" where
  "drain_core_queue B K st s =
     (if classifier_is_live K then
        (case drain_core_reconcile_queue_batch (be_rm B) K (be_clock B) core_recovery_batch st s of
           None \<Rightarrow> None
         | Some (Inl e, st1, s1) \<Rightarrow> Some (Inl (BackboneDrain e), st1, s1)
         | Some (Inr drained, st1, s1) \<Rightarrow>
             Some (if drained then Inr () else Inl (LocalRecoveryPending ''core_reconciliation_pending''), st1, s1))
      else
        (case drain_core_reconcile_queue (be_rm B) K (be_clock B) st s of
           None \<Rightarrow> None
         | Some (Inl e, st1, s1) \<Rightarrow> Some (Inl (BackboneDrain e), st1, s1)
         | Some (Inr _, st1, s1) \<Rightarrow> Some (Inr (), st1, s1)))"

text \<open>The closure \<open>validate_targets\<close>.\<close>

definition validate_targets ::
  "'s backbone_source \<Rightarrow> backbone_tip \<Rightarrow> backbone_tip \<Rightarrow> ('s, backbone_error) suffix_validator" where
  "validate_targets S target replacement_target st s =
     (case target_stability_failure S target s of
        (Inl e, s1) \<Rightarrow> (Inl (SourceError e), s1)
      | (Inr (Some f), s1) \<Rightarrow> (Inl (FailureError f), s1)
      | (Inr None, s1) \<Rightarrow>
          if replacement_target \<noteq> target then
            (case target_stability_failure S replacement_target s1 of
               (Inl e, s2) \<Rightarrow> (Inl (SourceError e), s2)
             | (Inr (Some f), s2) \<Rightarrow> (Inl (FailureError f), s2)
             | (Inr None, s2) \<Rightarrow> (Inr (), s2))
          else (Inr (), s1))"

definition bb_replace_suffix ::
  "backbone_env \<Rightarrow> 's backbone_source \<Rightarrow> int \<Rightarrow> int \<Rightarrow> local_canonical_row list \<Rightarrow> core_canonical_replacement list \<Rightarrow>
     backbone_tip \<Rightarrow> backbone_tip \<Rightarrow> ('s, core_suffix_replacement_summary) backbone" where
  "bb_replace_suffix B S expected_cch common_ancestor_height local_rows replacements target replacement_target st s =
     (case replace_core_canonical_suffix_validated (be_rm B) (be_show B) (be_clock B 0) expected_cch common_ancestor_height
             (expected_local_rows local_rows) replacements (Some (bt_height target, bt_hash target))
             (validate_targets S target replacement_target, validate_targets S target replacement_target) st s of
        (Inl (ReplaceSuffix e), s1) \<Rightarrow> Some (Inl (BackboneSuffix e), st, s1)
      | (Inl (ReplaceValidator e), s1) \<Rightarrow> Some (Inl e, st, s1)
      | (Inr (st1, summary), s1) \<Rightarrow> Some (Inr summary, st1, s1))"

definition replace_planned_suffix ::
  "backbone_env \<Rightarrow> 's backbone_source \<Rightarrow> 's configured_classifier \<Rightarrow> backbone_tip \<Rightarrow> int \<Rightarrow> core_view_row list \<Rightarrow>
     local_canonical_row list \<Rightarrow> nat \<Rightarrow> ('s, backbone_sync_stats) backbone" where
  "replace_planned_suffix B S K target expected_cch core_view local_rows first_replacement_index =
     (let common_ancestor_height = vr_height (core_view ! (first_replacement_index - 1));
          replacement = last core_view;
          replacement_target = \<lparr>bt_height = vr_height replacement, bt_hash = block_hash (rm_lib (be_rm B)) (vr_header replacement)\<rparr>
      in bb_bind (fetch_replacements B S (drop first_replacement_index core_view)) (\<lambda>replacements.
         bb_bind (verify_target_stable B S target) (\<lambda>_.
         bb_bind (verify_target_stable B S replacement_target) (\<lambda>_.
         bb_bind (persist_after B (bb_replace_suffix B S expected_cch common_ancestor_height local_rows replacements
                    target replacement_target)) (\<lambda>_.
         bb_bind (drain_core_queue B K) (\<lambda>_.
         bb_ok \<lparr>st_attempted = length replacements, st_completed = length replacements, st_skipped_complete = 0,
                st_coinbase_failed = 0\<rparr>))))))"

definition cursor_recovery_target_before_view ::
  "backbone_env \<Rightarrow> 's backbone_source \<Rightarrow> backbone_tip \<Rightarrow> int \<Rightarrow> int \<Rightarrow> ('s, backbone_tip option) backbone" where
  "cursor_recovery_target_before_view B S target cch view_start =
     (if cch < 0 \<or> view_start \<le> cch then bb_ok None
      else
        bb_bind bb_get (\<lambda>st.
        let rows = load_local_canonical_rows (db_blocks (co_db st)) cch cch in
        if rows = [] then reorg_integrity_failure B cch (CursorRowMissing cch)
        else if \<not> list_ex (\<lambda>r. lc_coinbase_status r = CoinbaseComplete) rows
        then reorg_integrity_failure B cch (CursorRowIncomplete cch)
        else
          bb_bind (bb_source (so_block_hash S cch)) (\<lambda>active_hash.
          if length rows = 1 \<and> lc_hash (hd rows) = active_hash then bb_ok None
          else bb_ok (Some \<lparr>bt_height = cch, bt_hash = active_hash\<rparr>))))"

datatype cursor_repair_outcome = NotNeeded | Replan | Replaced backbone_sync_stats

definition repair_cursor_before_view ::
  "backbone_env \<Rightarrow> 's backbone_source \<Rightarrow> 's configured_classifier \<Rightarrow> backbone_tip \<Rightarrow> int \<Rightarrow> int \<Rightarrow> int \<Rightarrow>
     ('s, cursor_repair_outcome) backbone" where
  "repair_cursor_before_view B S K target window_heights cch view_start =
     bb_bind (cursor_recovery_target_before_view B S target cch view_start) (\<lambda>cursor_target.
     case cursor_target of
       None \<Rightarrow> bb_ok NotNeeded
     | Some cursor_target \<Rightarrow>
         let cursor_view_start = core_view_start_height (bt_height cursor_target) window_heights in
         bb_bind bb_get (\<lambda>st.
         let local_rows = load_local_canonical_rows (db_blocks (co_db st)) cursor_view_start (bt_height cursor_target) in
         bb_bind (capture_cursor_recovery_view B S cursor_target cursor_view_start local_rows) (\<lambda>cursor_view.
         bb_bind (verify_target_stable B S target) (\<lambda>_.
         bb_bind (verify_target_stable B S cursor_target) (\<lambda>_.
         case plan_repair cursor_view local_rows of
           Inl err \<Rightarrow> record_plan_error B ''cursor'' err
         | Inr NoHashConflict \<Rightarrow> bb_ok Replan
         | Inr (ReplaceFrom i) \<Rightarrow>
             bb_bind (replace_planned_suffix B S K target cch cursor_view local_rows i) (\<lambda>stats.
             bb_ok (Replaced stats)))))))"

section \<open>The repair loop\<close>

text \<open>What one pass of the loop decides: another pass with these flags and statistics, or the result.\<close>

record repair_flags =
  rf_may_replan_after_gap_conflict :: bool
  rf_may_replan_after_cursor_race :: bool
  rf_stats :: backbone_sync_stats

datatype repair_pass_outcome = Again repair_flags | Finished backbone_sync_stats

definition is_height_conflict :: "(backbone_error, 'a) result \<Rightarrow> bool" where
  "is_height_conflict r = (case r of Inl e \<Rightarrow> error_kind e = Some HeightConflict | Inr _ \<Rightarrow> False)"

text \<open>The gap repair of a pass without conflict; a height conflict it meets is planned once more.\<close>

definition gap_pass ::
  "backbone_env \<Rightarrow> 's backbone_source \<Rightarrow> backbone_tip \<Rightarrow> int \<Rightarrow> repair_flags \<Rightarrow> ('s, repair_pass_outcome) backbone" where
  "gap_pass B S target window_heights flags st s =
     (case repair_near_tip_gaps_to_target B S target window_heights st s of
        None \<Rightarrow> None
      | Some (r, st1, s1) \<Rightarrow>
          Some (if rf_may_replan_after_gap_conflict flags \<and> is_height_conflict r
                then Inr (Again (flags\<lparr>rf_may_replan_after_gap_conflict := False\<rparr>))
                else (case r of Inl e \<Rightarrow> Inl e | Inr stats \<Rightarrow> Inr (Finished (add_stats (rf_stats flags) stats))), st1, s1))"

definition view_pass ::
  "backbone_env \<Rightarrow> 's backbone_source \<Rightarrow> 's configured_classifier \<Rightarrow> backbone_tip \<Rightarrow> int \<Rightarrow> int \<Rightarrow> int \<Rightarrow> repair_flags \<Rightarrow>
     ('s, repair_pass_outcome) backbone" where
  "view_pass B S K target window_heights cch view_start flags =
     bb_bind (capture_core_view B S target window_heights) (\<lambda>core_view.
     bb_bind (verify_target_stable B S target) (\<lambda>_.
     bb_bind bb_get (\<lambda>st.
     let local_rows = load_local_canonical_rows (db_blocks (co_db st)) view_start (bt_height target) in
     case plan_repair core_view local_rows of
       Inl err \<Rightarrow> record_plan_error B ''live_tip'' err
     | Inr NoHashConflict \<Rightarrow> gap_pass B S target window_heights flags
     | Inr (ReplaceFrom i) \<Rightarrow>
         bb_bind (replace_planned_suffix B S K target cch core_view local_rows i) (\<lambda>replacement_stats.
         bb_bind (repair_near_tip_gaps_to_target B S target window_heights) (\<lambda>gap_stats.
         bb_ok (Finished (add_stats (rf_stats flags) (add_stats replacement_stats gap_stats))))))))"

definition repair_pass ::
  "backbone_env \<Rightarrow> 's backbone_source \<Rightarrow> 's configured_classifier \<Rightarrow> backbone_tip \<Rightarrow> int \<Rightarrow> repair_flags \<Rightarrow>
     ('s, repair_pass_outcome) backbone" where
  "repair_pass B S K target window_heights flags =
     bb_bind load_or_init_sync_state (\<lambda>state.
     let cch = sy_contiguous_complete_height state;
         view_start = core_view_start_height (bt_height target) window_heights in
     bb_bind (validate_target_bounds B target cch (sy_target_tip_height state)) (\<lambda>_.
     bb_bind (repair_cursor_before_view B S K target window_heights cch view_start) (\<lambda>outcome.
     case outcome of
       NotNeeded \<Rightarrow> view_pass B S K target window_heights cch view_start flags
     | Replan \<Rightarrow>
         if rf_may_replan_after_cursor_race flags
         then bb_ok (Again (flags\<lparr>rf_may_replan_after_cursor_race := False\<rparr>)) else bb_err CursorViewChanged
     | Replaced stats \<Rightarrow>
         if classifier_is_live K then bb_err (LocalRecoveryPending ''core_cursor_recovery_pending'')
         else bb_ok (Again (flags\<lparr>rf_stats := add_stats (rf_stats flags) stats\<rparr>)))))"

partial_function (option) repair_loop ::
  "backbone_env \<Rightarrow> 's backbone_source \<Rightarrow> 's configured_classifier \<Rightarrow> backbone_tip \<Rightarrow> int \<Rightarrow> repair_flags \<Rightarrow>
     core_state \<Rightarrow> 's \<Rightarrow> ((backbone_error, backbone_sync_stats) result \<times> core_state \<times> 's) option" where
  "repair_loop B S K target window_heights flags st s =
     (case repair_pass B S K target window_heights flags st s of
        None \<Rightarrow> None
      | Some (Inl e, st1, s1) \<Rightarrow> Some (Inl e, st1, s1)
      | Some (Inr (Finished stats), st1, s1) \<Rightarrow> Some (Inr stats, st1, s1)
      | Some (Inr (Again flags1), st1, s1) \<Rightarrow> repair_loop B S K target window_heights flags1 st1 s1)"

definition repair_near_tip_backbone_to_target ::
  "backbone_env \<Rightarrow> 's backbone_source \<Rightarrow> 's configured_classifier \<Rightarrow> backbone_tip \<Rightarrow> int \<Rightarrow> ('s, backbone_sync_stats) backbone" where
  "repair_near_tip_backbone_to_target B S K target window_heights =
     repair_loop B S K target window_heights
       \<lparr>rf_may_replan_after_gap_conflict = True, rf_may_replan_after_cursor_race = True, rf_stats = zero_stats\<rparr>"

text \<open>The loops run by their equations.\<close>

declare core_drain_loop.simps [code] drain_loop.simps [code] repair_loop.simps [code]

end
