(* ===== verification/Reorg_Plan.thy ===== *)
theory Reorg_Plan
  imports Reorg_Repair
begin

text \<open>
  What the repair of the live window does: the view captured from the node is a chain, the plan made from
  it is exact, the planned suffix passes every check of the read model and removes the conflicts it was
  planned for, and the window check accepts just the windows that are one complete linked chain.
\<close>

named_theorems bb_simps "what a command that returned did"

lemma bb_bind_ok [bb_simps]:
  "bb_bind m f st s = Some (Inr b, st', s') \<longleftrightarrow>
     (\<exists>a st1 s1. m st s = Some (Inr a, st1, s1) \<and> f a st1 s1 = Some (Inr b, st', s'))"
  by (auto simp: bb_bind_def split: option.splits sum.splits prod.splits)

lemma bb_ok_ok [bb_simps]: "bb_ok a st s = Some (r, st', s') \<longleftrightarrow> r = Inr a \<and> st' = st \<and> s' = s"
  by (auto simp: bb_ok_def)

lemma bb_err_ok [bb_simps]: "bb_err e st s = Some (r, st', s') \<longleftrightarrow> r = Inl e \<and> st' = st \<and> s' = s"
  by (auto simp: bb_err_def)

lemma bb_get_ok [bb_simps]: "bb_get st s = Some (r, st', s') \<longleftrightarrow> r = Inr st \<and> st' = st \<and> s' = s"
  by (auto simp: bb_get_def)

lemma bb_modify_ok [bb_simps]: "bb_modify f st s = Some (r, st', s') \<longleftrightarrow> r = Inr () \<and> st' = f st \<and> s' = s"
  by (auto simp: bb_modify_def)

lemma bb_source_ok [bb_simps]: "bb_source m st s = Some (Inr a, st', s') \<longleftrightarrow> m s = (Inr a, s') \<and> st' = st"
  by (auto simp: bb_source_def split: prod.splits sum.splits)

section \<open>Captured views\<close>

text \<open>A linked chain in ascending order that ends at the target and whose hashes are those of its headers.\<close>

definition core_chain :: "backbone_env \<Rightarrow> backbone_tip \<Rightarrow> core_view_row list \<Rightarrow> bool" where
  "core_chain B target view \<longleftrightarrow> view \<noteq> [] \<and> vr_height (last view) = bt_height target \<and> vr_hash (last view) = bt_hash target \<and>
     list_all (\<lambda>r. vr_hash r = block_hash (rm_lib (be_rm B)) (vr_header r)) view \<and>
     (\<forall>i. Suc i < length view \<longrightarrow> vr_height (view ! Suc i) = vr_height (view ! i) + 1 \<and>
        h_prev_blockhash (vr_header (view ! Suc i)) = vr_hash (view ! i))"

lemma core_chain_snoc:
  "core_chain B target (view @ [r]) \<longleftrightarrow>
     vr_height r = bt_height target \<and> vr_hash r = bt_hash target \<and> vr_hash r = block_hash (rm_lib (be_rm B)) (vr_header r) \<and>
     (view \<noteq> [] \<longrightarrow> core_chain B \<lparr>bt_height = bt_height target - 1, bt_hash = h_prev_blockhash (vr_header r)\<rparr> view)"
  (is "?l = ?r")
proof
  assume l: ?l
  have "core_chain B \<lparr>bt_height = bt_height target - 1, bt_hash = h_prev_blockhash (vr_header r)\<rparr> view" if "view \<noteq> []"
  proof -
    have step: "vr_height ((view @ [r]) ! Suc i) = vr_height ((view @ [r]) ! i) + 1 \<and>
        h_prev_blockhash (vr_header ((view @ [r]) ! Suc i)) = vr_hash ((view @ [r]) ! i)" if "Suc i \<le> length view" for i
      using l that by (simp add: core_chain_def)
    from step [of "length view - 1"] that l show ?thesis
      unfolding core_chain_def using step
      by (auto simp: last_conv_nth nth_append dest!: spec split: if_splits)
  qed
  with l show ?r by (auto simp: core_chain_def)
next
  assume r: ?r
  show ?l
  proof (cases "view = []")
    case True
    with r show ?thesis unfolding core_chain_def by auto
  next
    case False
    with r have c: "core_chain B \<lparr>bt_height = bt_height target - 1, bt_hash = h_prev_blockhash (vr_header r)\<rparr> view" by simp
    have "vr_height ((view @ [r]) ! Suc i) = vr_height ((view @ [r]) ! i) + 1 \<and>
        h_prev_blockhash (vr_header ((view @ [r]) ! Suc i)) = vr_hash ((view @ [r]) ! i)" if "Suc i < length (view @ [r])" for i
    proof (cases "Suc i < length view")
      case True
      with c show ?thesis by (simp add: core_chain_def nth_append)
    next
      case no: False
      with that have i: "Suc i = length view" by simp
      then have "length view - Suc 0 = i" by simp
      with c r False i show ?thesis by (auto simp: core_chain_def nth_append last_conv_nth)
    qed
    with c r show ?thesis by (auto simp: core_chain_def)
  qed
qed

lemma capture_descending_chain:
  assumes "capture_descending B S stop hs hash st s = Some (Inr rows, st', s')"
    and "hs = rev [a..h]" "hs \<noteq> []"
  shows "st' = st \<and> core_chain B \<lparr>bt_height = h, bt_hash = hash\<rparr> (rev rows) \<and>
    (vr_height (last rows) = a \<or> stop (last rows)) \<and> a \<le> vr_height (last rows) \<and> list_all (\<lambda>r. \<not> stop r) (butlast rows)"
  using assms
proof (induction B S stop hs hash arbitrary: st s rows h rule: capture_descending.induct)
  case (2 B S stop height heights hash)
  from 2(3) have ah: "a \<le> h" by (cases "a \<le> h") auto
  then have hs: "height = h" "heights = rev [a..h - 1]" using 2(3) by (simp_all add: upto_rec2)
  let ?row = "\<lambda>hdr. \<lparr>vr_height = h, vr_hash = hash, vr_header = hdr\<rparr>"
  from 2(2) obtain hdr s1 where h: "so_block_header S hash s = (Inr hdr, s1)" "block_hash (rm_lib (be_rm B)) hdr = hash"
    and rest: "(if stop (?row hdr) then bb_ok [?row hdr]
       else bb_bind (capture_descending B S stop heights (h_prev_blockhash hdr)) (\<lambda>rows. bb_ok (?row hdr # rows))) st s1 =
         Some (Inr rows, st', s')"
    by (auto simp: bb_simps Let_def hs split: if_splits)
  show ?case
  proof (cases "stop (?row hdr)")
    case True
    with rest h ah show ?thesis by (auto simp: bb_simps core_chain_def)
  next
    case False
    with rest obtain rows1 where r1: "capture_descending B S stop heights (h_prev_blockhash hdr) st s1 = Some (Inr rows1, st', s')"
      "rows = ?row hdr # rows1" by (auto simp: bb_simps)
    show ?thesis
    proof (cases "heights = []")
      case True
      with r1 have "st' = st" "rows1 = []" by (auto simp: bb_simps)
      moreover have "a = h" using True hs(2) ah by (cases "a \<le> h - 1") auto
      ultimately show ?thesis using r1(2) h by (simp add: core_chain_def)
    next
      case ne: False
      have "st' = st \<and> core_chain B \<lparr>bt_height = h - 1, bt_hash = h_prev_blockhash hdr\<rparr> (rev rows1) \<and>
          (vr_height (last rows1) = a \<or> stop (last rows1)) \<and> a \<le> vr_height (last rows1) \<and>
          list_all (\<lambda>r. \<not> stop r) (butlast rows1)"
        by (rule 2(1) [OF refl _ refl _ r1(1) hs(2) ne]) (use h False hs in auto)
      moreover from this have "rows1 \<noteq> []" by (auto simp: core_chain_def)
      ultimately show ?thesis using r1(2) h False by (simp add: core_chain_snoc)
    qed
  qed
qed simp

lemma capture_until_chain:
  assumes "capture_core_view_until B S target view_start stop st s = Some (Inr view, st', s')"
    and "view_start \<le> bt_height target"
  shows "st' = st \<and> core_chain B target view \<and> (vr_height (hd view) = view_start \<or> stop (hd view)) \<and>
    view_start \<le> vr_height (hd view) \<and> list_all (\<lambda>r. \<not> stop r) (tl view)"
proof -
  obtain rows where r: "capture_descending B S stop (rev [view_start..bt_height target]) (bt_hash target) st s = Some (Inr rows, st', s')"
    "view = rev rows" using assms(1) by (auto simp: capture_core_view_until_def bb_simps)
  have "rev [view_start..bt_height target] \<noteq> []" using assms(2) by simp
  note c = capture_descending_chain [OF r(1) refl this]
  then have "rows \<noteq> []" by (auto simp: core_chain_def)
  moreover have "tl (rev rows) = rev (butlast rows)" using butlast_rev [of "rev rows"] by simp
  ultimately show ?thesis using c r(2) by (simp add: hd_rev core_chain_def)
qed

section \<open>Plans\<close>

lemma position_None: "position P xs = None \<longleftrightarrow> (\<forall>x\<in>set xs. \<not> P x)"
  by (simp add: position_def find_None_iff all_set_conv_all_nth atLeast0LessThan)

lemma position_Some: "position P xs = Some j \<longleftrightarrow> j < length xs \<and> P (xs ! j) \<and> (\<forall>k<j. \<not> P (xs ! k))"
  by (auto simp: position_def find_Some_iff)

lemma find_rev_Some:
  "List.find P (rev [0..<n]) = Some i \<longleftrightarrow> i < n \<and> P i \<and> (\<forall>k. i < k \<and> k < n \<longrightarrow> \<not> P k)"
proof (induction n)
  case (Suc n)
  then show ?case by (auto simp: less_Suc_eq)
qed simp

lemma find_rev_None: "List.find P (rev [0..<n]) = None \<longleftrightarrow> (\<forall>k<n. \<not> P k)"
  by (auto simp: find_None_iff)

lemma plan_repair_cases:
  "plan_repair view rows = Inr NoHashConflict \<longleftrightarrow> (\<forall>core\<in>set view. \<not> conflicts rows core)"
  "plan_repair view rows = Inr (ReplaceFrom i) \<longleftrightarrow> 0 < i \<and> usable_anchor rows (view ! (i - 1)) \<and>
     (\<exists>j. i \<le> j \<and> j < length view \<and> conflicts rows (view ! j) \<and> (\<forall>k<j. \<not> conflicts rows (view ! k)) \<and>
       (\<forall>k. i \<le> k \<and> k < j \<longrightarrow> \<not> usable_anchor rows (view ! k)))"
  "(\<exists>e. plan_repair view rows = Inl e) \<longleftrightarrow>
     (\<exists>j. j < length view \<and> conflicts rows (view ! j) \<and>
       (\<forall>k<j. \<not> conflicts rows (view ! k) \<and> \<not> usable_anchor rows (view ! k)))"
proof -
  let ?pos = "position (conflicts rows) view"
  let ?anchor = "\<lambda>j. List.find (\<lambda>i. usable_anchor rows (view ! i)) (rev [0..<j])"
  show "plan_repair view rows = Inr NoHashConflict \<longleftrightarrow> (\<forall>core\<in>set view. \<not> conflicts rows core)"
    unfolding plan_repair_def position_None [symmetric] by (simp split: option.splits)
  have first: "j = j'" if "?pos = Some j" "j' < length view" "conflicts rows (view ! j')" "\<forall>k<j'. \<not> conflicts rows (view ! k)" for j j'
    using that by (simp add: position_Some) (metis linorder_neqE_nat)
  show "plan_repair view rows = Inr (ReplaceFrom i) \<longleftrightarrow> 0 < i \<and> usable_anchor rows (view ! (i - 1)) \<and>
     (\<exists>j. i \<le> j \<and> j < length view \<and> conflicts rows (view ! j) \<and> (\<forall>k<j. \<not> conflicts rows (view ! k)) \<and>
       (\<forall>k. i \<le> k \<and> k < j \<longrightarrow> \<not> usable_anchor rows (view ! k)))" (is "?l = ?r")
  proof
    assume l: ?l
    then obtain j where j: "?pos = Some j" and a: "?anchor j = Some (i - 1)" "0 < i"
      unfolding plan_repair_def by (auto split: option.splits)
    from j have "j < length view" "conflicts rows (view ! j)" "\<forall>k<j. \<not> conflicts rows (view ! k)" by (simp_all add: position_Some)
    moreover from a have "i - 1 < j" "usable_anchor rows (view ! (i - 1))" "\<forall>k. i - 1 < k \<and> k < j \<longrightarrow> \<not> usable_anchor rows (view ! k)"
      by (simp_all add: find_rev_Some)
    ultimately show ?r using a(2) by (auto intro!: exI [of _ j])
  next
    assume r: ?r
    then obtain j where j: "i \<le> j" "j < length view" "conflicts rows (view ! j)" "\<forall>k<j. \<not> conflicts rows (view ! k)"
      "\<forall>k. i \<le> k \<and> k < j \<longrightarrow> \<not> usable_anchor rows (view ! k)" by blast
    have "?pos = Some j" using j by (simp add: position_Some)
    moreover have "?anchor j = Some (i - 1)" using j r by (auto simp: find_rev_Some)
    ultimately show ?l using r unfolding plan_repair_def by simp
  qed
  show "(\<exists>e. plan_repair view rows = Inl e) \<longleftrightarrow>
     (\<exists>j. j < length view \<and> conflicts rows (view ! j) \<and>
       (\<forall>k<j. \<not> conflicts rows (view ! k) \<and> \<not> usable_anchor rows (view ! k)))" (is "?l = ?r")
  proof
    assume ?l
    then obtain j where j: "?pos = Some j" and a: "?anchor j = None"
      unfolding plan_repair_def by (auto split: option.splits)
    then show ?r by (auto simp: position_Some find_rev_None)
  next
    assume ?r
    then obtain j where "?pos = Some j" "?anchor j = None" by (auto simp: position_Some find_rev_None)
    then show ?l unfolding plan_repair_def by simp
  qed
qed

text \<open>C9: A repair plan is exact.  Nothing is planned just when no local canonical row of the view's heights differs
  from Core; a replacement starts right above the last height below the first conflict whose single,
  complete local row is Core's, so that no row below it conflicts and the first conflict is replaced;
  and planning fails just when there is a conflict with no such anchor below the first one.\<close>

theorem plan_repair_exact:
  "(plan_repair view rows = Inr NoHashConflict \<longleftrightarrow> (\<forall>core\<in>set view. \<not> conflicts rows core)) \<and>
   (plan_repair view rows = Inr (ReplaceFrom i) \<longleftrightarrow> 0 < i \<and> usable_anchor rows (view ! (i - 1)) \<and>
     (\<exists>j. i \<le> j \<and> j < length view \<and> conflicts rows (view ! j) \<and> (\<forall>k<j. \<not> conflicts rows (view ! k)) \<and>
       (\<forall>k. i \<le> k \<and> k < j \<longrightarrow> \<not> usable_anchor rows (view ! k)))) \<and>
   ((\<exists>e. plan_repair view rows = Inl e) \<longleftrightarrow>
     (\<exists>j. j < length view \<and> conflicts rows (view ! j) \<and>
       (\<forall>k<j. \<not> conflicts rows (view ! k) \<and> \<not> usable_anchor rows (view ! k))))"
  by (intro conjI plan_repair_cases)

section \<open>Replacements of a plan\<close>

lemma fetch_replacements_rows:
  assumes "fetch_replacements B S view st s = Some (Inr rs, st', s')"
  shows "st' = st \<and> map cc_height rs = map vr_height view \<and> map cc_header rs = map vr_header view"
  using assms
proof (induction view arbitrary: rs s)
  case (Cons row view)
  then obtain c s1 rest where "fetch_replacements B S view st s1 = Some (Inr rest, st', s')"
    "rs = \<lparr>cc_height = vr_height row, cc_header = vr_header row, cc_coinbase = c\<rparr> # rest"
    by (auto simp: bb_simps)
  with Cons.IH show ?case by fastforce
qed (simp add: bb_simps)

lemma check_links_chain:
  assumes "\<forall>i. Suc i < length rs \<longrightarrow> cc_height (rs ! Suc i) = cc_height (rs ! i) + 1 \<and>
    h_prev_blockhash (cc_header (rs ! Suc i)) = replacement_hash E (rs ! i)"
  shows "check_links E rs = Inr ()"
  using assms
proof (induction E rs rule: check_links.induct)
  case (1 E a b rest)
  from 1(2) [rule_format, of 0] have ab: "cc_height b = cc_height a + 1" "h_prev_blockhash (cc_header b) = replacement_hash E a"
    by simp_all
  have "check_links E (b # rest) = Inr ()"
  proof (rule 1(1), goal_cases)
    case 3
    show ?case
    proof (intro allI impI)
      fix k assume "Suc k < length (b # rest)"
      then show "cc_height ((b # rest) ! Suc k) = cc_height ((b # rest) ! k) + 1 \<and>
          h_prev_blockhash (cc_header ((b # rest) ! Suc k)) = replacement_hash E ((b # rest) ! k)"
        using 1(2) [rule_format, of "Suc k"] by simp
    qed
  qed (use ab in simp_all)
  with ab show ?case by simp
qed simp_all

lemma in_map_filter: "y \<in> set (List.map_filter f xs) \<longleftrightarrow> (\<exists>x\<in>set xs. f x = Some y)"
  by (induction xs) (auto simp: map_filter_simps split: option.splits)

lemma local_row_block:
  assumes "r \<in> set (load_local_canonical_rows blocks a b)"
  shows "\<exists>blk\<in>set blocks. br_hash blk = lc_hash r \<and> br_prev_hash blk = lc_prev_hash r \<and> br_kind blk = BkCanonical \<and>
    br_height blk = Some (lc_height r) \<and> a \<le> lc_height r \<and> lc_height r \<le> b"
proof -
  obtain blk where blk: "blk \<in> set blocks" "(case br_height blk of
         Some h \<Rightarrow>
           if br_kind blk = BkCanonical \<and> a \<le> h \<and> h \<le> b
           then Some \<lparr>lc_height = h, lc_hash = br_hash blk, lc_prev_hash = br_prev_hash blk,
                      lc_coinbase_status = br_coinbase_status blk\<rparr>
           else None | None \<Rightarrow> None) = Some r"
    using assms unfolding load_local_canonical_rows_def set_sort in_map_filter by blast
  then show ?thesis
    by (intro bexI [OF _ blk(1)]) (cases "br_height blk", auto split: if_split_asm)
qed

lemma planned_rows:
  assumes chain: "core_chain B target view" and plan: "plan_repair view rows = Inr (ReplaceFrom i)"
    and fetch: "fetch_replacements B S (drop i view) st s = Some (Inr rs, st', s')"
  shows "length rs = length view - i" "rs \<noteq> []"
    and "k < length rs \<Longrightarrow> cc_height (rs ! k) = vr_height (view ! (i + k))"
    and "k < length rs \<Longrightarrow> cc_header (rs ! k) = vr_header (view ! (i + k))"
    and "k < length rs \<Longrightarrow> replacement_hash (be_rm B) (rs ! k) = vr_hash (view ! (i + k))"
    and "cc_height (last rs) = bt_height target" "replacement_hash (be_rm B) (last rs) = bt_hash target"
proof -
  from plan obtain j where i: "i \<le> j" "j < length view" unfolding plan_repair_cases(2) by blast
  note f = fetch_replacements_rows [OF fetch]
  have "map cc_height rs = map vr_height (drop i view)" using f by blast
  from arg_cong [OF this, of length] have len: "length rs = length view - i" by simp
  then show "length rs = length view - i" .
  have nth: "cc_height (rs ! k) = vr_height (view ! (i + k))" "cc_header (rs ! k) = vr_header (view ! (i + k))" if "k < length rs" for k
  proof -
    have "map cc_height rs ! k = map vr_height (drop i view) ! k" "map cc_header rs ! k = map vr_header (drop i view) ! k"
      using f by simp_all
    then show "cc_height (rs ! k) = vr_height (view ! (i + k))" "cc_header (rs ! k) = vr_header (view ! (i + k))"
      using that len by simp_all
  qed
  show "k < length rs \<Longrightarrow> cc_height (rs ! k) = vr_height (view ! (i + k))"
    "k < length rs \<Longrightarrow> cc_header (rs ! k) = vr_header (view ! (i + k))" by (rule nth(1), assumption) (rule nth(2), assumption)
  have ne: "rs \<noteq> []" using len i by auto
  then show "rs \<noteq> []" .
  have rh: "replacement_hash (be_rm B) (rs ! k) = vr_hash (view ! (i + k))" if "k < length rs" for k
    using nth [OF that] chain that len by (simp add: replacement_hash_def core_chain_def list_all_length)
  show "k < length rs \<Longrightarrow> replacement_hash (be_rm B) (rs ! k) = vr_hash (view ! (i + k))" by (rule rh)
  have last: "last rs = rs ! (length rs - 1)" "i + (length rs - 1) = length view - 1" using ne len i by (simp_all add: last_conv_nth)
  have lastv: "last view = view ! (length view - 1)" using i by (intro last_conv_nth) auto
  show "cc_height (last rs) = bt_height target" "replacement_hash (be_rm B) (last rs) = bt_hash target"
    using nth(1) [of "length rs - 1"] rh [of "length rs - 1"] ne last lastv chain by (simp_all add: core_chain_def)
qed

lemma planned_replacement_valid:
  assumes chain: "core_chain B target view" and plan: "plan_repair view rows = Inr (ReplaceFrom i)"
    and fetch: "fetch_replacements B S (drop i view) st s = Some (Inr rs, st', s')"
    and wide: "\<forall>r\<in>set rows. length (lc_hash r) = 32 \<and> length (lc_prev_hash r) = 32"
    and bound: "i32_ok (vr_height (view ! (i - 1)) + 1)"
  shows "validate_replacement (be_rm B) (vr_height (view ! (i - 1))) (expected_local_rows rows) rs = Inr ()"
proof -
  from plan obtain j where i: "0 < i" "usable_anchor rows (view ! (i - 1))" "i \<le> j" "j < length view"
    unfolding plan_repair_cases(2) by blast
  note p = planned_rows [OF chain plan fetch]
  have link: "vr_height (view ! Suc k) = vr_height (view ! k) + 1 \<and>
      h_prev_blockhash (vr_header (view ! Suc k)) = vr_hash (view ! k)" if "Suc k < length view" for k
    using chain that by (simp add: core_chain_def)
  have links: "check_links (be_rm B) rs = Inr ()"
  proof (rule check_links_chain, intro allI impI)
    fix k assume k: "Suc k < length rs"
    then have "Suc (i + k) < length view" using p(1) by simp
    from link [OF this] p(3-5) [of k] p(3-5) [of "Suc k"] k
    show "cc_height (rs ! Suc k) = cc_height (rs ! k) + 1 \<and>
        h_prev_blockhash (cc_header (rs ! Suc k)) = replacement_hash (be_rm B) (rs ! k)" by simp
  qed
  let ?a = "vr_height (view ! (i - 1))"
  have first: "cc_height (hd rs) = ?a + 1" "h_prev_blockhash (cc_header (hd rs)) = vr_hash (view ! (i - 1))"
    using link [of "i - 1"] p(3,4) [of 0] p(2) i by (simp_all add: hd_conv_nth)
  obtain r where r: "filter (\<lambda>r. lc_height r = ?a) rows = [r]" "lc_hash r = vr_hash (view ! (i - 1))"
    using i(2) unfolding usable_anchor_def by (auto split: list.splits)
  have "filter (\<lambda>x. xr_height x = ?a) (expected_local_rows rows) = expected_local_rows [r]"
    unfolding expected_local_rows_def filter_map comp_def using r(1) by simp
  moreover have "\<not> list_ex (\<lambda>x. length (xr_hash x) \<noteq> 32 \<or> length (xr_prev_hash x) \<noteq> 32) (expected_local_rows rows)"
    using wide by (auto simp: expected_local_rows_def list_ex_iff)
  ultimately show "validate_replacement (be_rm B) ?a (expected_local_rows rows) rs = Inr ()"
    using p(2) first links r(2) bound
    unfolding validate_replacement_def by (cases rs) (simp_all add: expected_local_rows_def checked_i32_def)
qed

lemma block_local_row:
  assumes "kind_and_height blocks h = Some (BkCanonical, Some k)" "a \<le> k" "k \<le> b"
  shows "\<exists>r\<in>set (load_local_canonical_rows blocks a b). lc_hash r = h \<and> lc_height r = k"
proof -
  obtain blk where blk: "find_block blocks h = Some blk" "br_kind blk = BkCanonical" "br_height blk = Some k"
    using assms(1) unfolding kind_and_height_def by (auto split: option.splits)
  note fb = find_block_Some [OF blk(1)]
  let ?r = "\<lparr>lc_height = k, lc_hash = h, lc_prev_hash = br_prev_hash blk, lc_coinbase_status = br_coinbase_status blk\<rparr>"
  have "?r \<in> set (load_local_canonical_rows blocks a b)"
    unfolding load_local_canonical_rows_def set_sort in_map_filter
    by (rule bexI [of _ blk]) (use fb blk assms(2,3) in simp_all)
  then show ?thesis by (intro bexI [of _ ?r]) simp_all
qed

lemma chain_heights:
  assumes "core_chain B target view" "k < length view"
  shows "vr_height (view ! k) = vr_height (hd view) + int k" "vr_height (view ! k) \<le> bt_height target"
proof -
  have a: "vr_height (view ! k) = vr_height (hd view) + int k" if "k < length view" for k
    using that
  proof (induction k)
    case 0
    then show ?case by (simp add: hd_conv_nth)
  next
    case (Suc k)
    then show ?case using assms(1) by (simp add: core_chain_def)
  qed
  show "vr_height (view ! k) = vr_height (hd view) + int k" by (rule a [OF assms(2)])
  have "vr_height (last view) = vr_height (hd view) + int (length view - 1)"
    using a [of "length view - 1"] assms(2) last_conv_nth [of view] by fastforce
  moreover have "k \<le> length view - 1" using assms(2) by simp
  ultimately show "vr_height (view ! k) \<le> bt_height target"
    using a [OF assms(2)] assms(1) by (simp add: core_chain_def)
qed

lemma map_insort_key: "map f (insort_key (\<lambda>x. k (f x)) x xs) = insort_key k (f x) (map f xs)"
  by (induction xs) auto

lemma map_sort_key: "map f (sort_key (\<lambda>x. k (f x)) xs) = sort_key k (map f xs)"
  by (induction xs) (simp_all add: map_insort_key)

lemma map_filter_map: "map f (List.map_filter g xs) = List.map_filter (\<lambda>x. map_option f (g x)) xs"
  by (induction xs) (auto simp: map_filter_simps split: option.splits)

lemma filter_map_filter: "filter P (List.map_filter g xs) = List.map_filter (\<lambda>x. case g x of Some y \<Rightarrow> if P y then Some y else None | None \<Rightarrow> None) xs"
  by (induction xs) (auto simp: map_filter_simps split: option.splits)

text \<open>The rows the repair read are those the transaction locks, when no write came between.\<close>

lemma expected_rows_locked:
  assumes "view_start \<le> anc"
  shows "verify_expected_rows (load_locked_canonical_rows blocks anc through)
    (normalized_expected_suffix (expected_local_rows (load_local_canonical_rows blocks view_start through)) anc through) = Inr ()"
proof -
  let ?key = "\<lambda>r :: expected_core_canonical_row. (xr_height r, xr_hash r)"
  define row where "row = (\<lambda>(b :: block_row) h. \<lparr>xr_height = h, xr_hash = br_hash b, xr_prev_hash = br_prev_hash b\<rparr>)"
  define pick where "pick = (\<lambda>a (b :: block_row). case br_height b of
      Some h \<Rightarrow> if br_kind b = BkCanonical \<and> a \<le> h \<and> h \<le> through then Some (row b h) else None | None \<Rightarrow> None)"
  have locked: "map locked_expected (load_locked_canonical_rows blocks anc through) = sort_key ?key (List.map_filter (pick anc) blocks)"
  proof -
    have "map_option locked_expected (case br_height b of
         Some h \<Rightarrow>
           if br_kind b = BkCanonical \<and> anc \<le> h \<and> h \<le> through
           then Some \<lparr>lk_height = h, lk_hash = br_hash b, lk_prev_hash = br_prev_hash b,
                      lk_coinbase_txid = br_coinbase_txid b, lk_coinbase_script = br_coinbase_script b,
                      lk_coinbase_outputs = br_coinbase_outputs b\<rparr>
           else None | None \<Rightarrow> None) = pick anc b" for b
      by (simp add: pick_def row_def locked_expected_def split: option.splits)
    then show ?thesis
      using map_sort_key [of locked_expected ?key] unfolding load_locked_canonical_rows_def
      by (simp add: locked_expected_def map_filter_map)
  qed
  have loc: "expected_local_rows (load_local_canonical_rows blocks view_start through) =
      sort_key ?key (List.map_filter (pick view_start) blocks)"
  proof -
    let ?e = "\<lambda>r :: local_canonical_row. \<lparr>xr_height = lc_height r, xr_hash = lc_hash r, xr_prev_hash = lc_prev_hash r\<rparr>"
    have "map_option ?e (case br_height b of
         Some h \<Rightarrow>
           if br_kind b = BkCanonical \<and> view_start \<le> h \<and> h \<le> through
           then Some \<lparr>lc_height = h, lc_hash = br_hash b, lc_prev_hash = br_prev_hash b,
                      lc_coinbase_status = br_coinbase_status b\<rparr>
           else None | None \<Rightarrow> None) = pick view_start b" for b
      by (simp add: pick_def row_def split: option.splits)
    then show ?thesis
      using map_sort_key [of ?e ?key] unfolding load_local_canonical_rows_def expected_local_rows_def
      by (simp add: map_filter_map)
  qed
  have "filter (\<lambda>r. anc \<le> xr_height r \<and> xr_height r \<le> through) (List.map_filter (pick view_start) blocks) =
      List.map_filter (pick anc) blocks"
    unfolding filter_map_filter
    by (rule arg_cong [where f = "\<lambda>g. List.map_filter g blocks"])
      (use assms in \<open>auto simp: pick_def row_def fun_eq_iff split: option.splits\<close>)
  then show ?thesis
    unfolding verify_expected_rows_def normalized_expected_suffix_def locked loc
    by (simp add: filter_sort sort_key_id_if_sorted)
qed

lemma view_start_range:
  assumes "0 \<le> h" "i32_ok h" "1 \<le> window"
  shows "0 \<le> core_view_start_height h window" "core_view_start_height h window \<le> h"
  using assms by (auto simp: core_view_start_height_def live_backbone_window_start_height_def sat_i32_def i32_ok_def)

text \<open>C10: What the repair plans, the read model accepts.  Whatever the node answers, when a view was captured from the
  pinned target, a replacement planned from it against the canonical rows of its heights and the
  coinbases fetched for it, the suffix passes every check of the replacement's input, ends at the target,
  and, against tables no other writer changed, matches the rows it locks.\<close>

theorem planned_repair_accepted:
  assumes h: "0 \<le> bt_height target" "i32_ok (bt_height target)" "1 \<le> window"
    and wide: "\<forall>b\<in>set (db_blocks (co_db st)). length (br_hash b) = 32 \<and> length (br_prev_hash b) = 32"
    and view: "capture_core_view B S target window st s = Some (Inr view, st1, s1)"
    and plan: "plan_repair view (load_local_canonical_rows (db_blocks (co_db st))
      (core_view_start_height (bt_height target) window) (bt_height target)) = Inr (ReplaceFrom i)"
    and fetch: "fetch_replacements B S (drop i view) st1 s2 = Some (Inr rs, st2, s3)"
  shows "validate_replacement (be_rm B) (vr_height (view ! (i - 1))) (expected_local_rows (load_local_canonical_rows
        (db_blocks (co_db st)) (core_view_start_height (bt_height target) window) (bt_height target))) rs = Inr () \<and>
    cc_height (last rs) = bt_height target \<and> replacement_hash (be_rm B) (last rs) = bt_hash target \<and> st2 = st \<and>
    verify_expected_rows (load_locked_canonical_rows (db_blocks (co_db st)) (vr_height (view ! (i - 1))) (bt_height target))
      (normalized_expected_suffix (expected_local_rows (load_local_canonical_rows (db_blocks (co_db st))
        (core_view_start_height (bt_height target) window) (bt_height target))) (vr_height (view ! (i - 1))) (bt_height target)) = Inr ()"
proof -
  let ?vs = "core_view_start_height (bt_height target) window"
  let ?rows = "load_local_canonical_rows (db_blocks (co_db st)) ?vs (bt_height target)"
  note vs = view_start_range [OF h]
  have c: "st1 = st" "core_chain B target view" "?vs \<le> vr_height (hd view)"
    using capture_until_chain [OF view [unfolded capture_core_view_def] vs(2)] by simp_all
  obtain j where i: "0 < i" "i \<le> j" "j < length view" using plan unfolding plan_repair_cases(2) by blast
  then have "i < length view" "i - 1 < length view" by simp_all
  note hts = chain_heights [OF c(2) this(1)] chain_heights [OF c(2) this(2)]
  have anc: "?vs \<le> vr_height (view ! (i - 1))" using hts(3) c(3) by simp
  have "vr_height (view ! (i - 1)) + 1 = vr_height (view ! i)" using hts(1,3) i(1) by simp
  then have b: "i32_ok (vr_height (view ! (i - 1)) + 1)" using anc vs(1) hts(2) h(2) by (simp add: i32_ok_def)
  have w: "\<forall>r\<in>set ?rows. length (lc_hash r) = 32 \<and> length (lc_prev_hash r) = 32"
    using local_row_block wide by fastforce
  note p = planned_replacement_valid [OF c(2) plan fetch w b]
  have "st2 = st" using fetch_replacements_rows [OF fetch] c(1) by simp
  with p planned_rows(6,7) [OF c(2) plan fetch] expected_rows_locked [OF anc] show ?thesis by simp
qed

section \<open>The live window\<close>

definition window_row :: "local_canonical_row list \<Rightarrow> int \<Rightarrow> local_canonical_row option" where
  "window_row rows h = (case filter (\<lambda>r. lc_height r = h) rows of [row] \<Rightarrow> Some row | _ \<Rightarrow> None)"

text \<open>A gapless chain of complete rows, one per height, that ends at the target.\<close>

definition live_window_ok :: "local_canonical_row list \<Rightarrow> int \<Rightarrow> backbone_tip \<Rightarrow> bool" where
  "live_window_ok rows start target \<longleftrightarrow>
     list_all (\<lambda>h. case window_row rows h of
         None \<Rightarrow> False
       | Some row \<Rightarrow> lc_coinbase_status row = CoinbaseComplete \<and>
           (start < h \<longrightarrow> (case window_row rows (h - 1) of Some p \<Rightarrow> lc_hash p = lc_prev_hash row | None \<Rightarrow> False)))
       [start..bt_height target] \<and>
     (case window_row rows (bt_height target) of Some row \<Rightarrow> lc_hash row = bt_hash target | None \<Rightarrow> False)"

lemma window_failure_never_ok [bb_simps]: "live_window_invariant_failure B h r st s = Some (Inr x, st', s') \<longleftrightarrow> False"
  by (simp add: live_window_invariant_failure_def bb_simps)

definition window_link :: "local_canonical_row list \<Rightarrow> int \<Rightarrow> bool" where
  "window_link rows h =
     (case window_row rows h of
        None \<Rightarrow> False
      | Some row \<Rightarrow> lc_coinbase_status row = CoinbaseComplete \<and>
          (case window_row rows (h - 1) of Some p \<Rightarrow> lc_hash p = lc_prev_hash row | None \<Rightarrow> False))"

lemma take_single_ok [bb_simps]:
  "take_single_live_window_row B rows h st s = Some (Inr row, st', s') \<longleftrightarrow> window_row rows h = Some row \<and> st' = st \<and> s' = s"
  by (auto simp: take_single_live_window_row_def window_row_def bb_simps split: list.splits)

lemma window_coinbase_ok [bb_simps]:
  "verify_live_window_coinbase B row st s = Some (Inr u, st', s') \<longleftrightarrow> lc_coinbase_status row = CoinbaseComplete \<and> st' = st \<and> s' = s"
  by (auto simp: verify_live_window_coinbase_def bb_simps)

lemma window_prev_link_ok [bb_simps]:
  "verify_live_window_prev_link B row prev st s = Some (Inr u, st', s') \<longleftrightarrow>
     (\<forall>p. prev = Some p \<longrightarrow> lc_prev_hash row = p) \<and> st' = st \<and> s' = s"
  by (auto simp: verify_live_window_prev_link_def bb_simps split: option.splits)

lemma window_tip_ok [bb_simps]:
  "verify_live_window_tip_hash B target tip st s = Some (Inr u, st', s') \<longleftrightarrow> tip = Some (bt_hash target) \<and> st' = st \<and> s' = s"
  by (auto simp: verify_live_window_tip_hash_def bb_simps)

lemma window_rows_linked:
  assumes "window_row rows (a - 1) = Some p" "a \<le> bt_height target + 1"
  shows "verify_window_rows B target rows [a..bt_height target] (Some (lc_hash p)) tip st s = Some (Inr (), st', s') \<longleftrightarrow>
    st' = st \<and> s' = s \<and> list_all (window_link rows) [a..bt_height target] \<and>
    (if a \<le> bt_height target then map_option lc_hash (window_row rows (bt_height target)) else tip) = Some (bt_hash target)"
  using assms
proof (induction "nat (bt_height target + 1 - a)" arbitrary: a p tip)
  case 0
  then show ?case by (auto simp: bb_simps)
next
  case (Suc n)
  then have le: "a \<le> bt_height target" by linarith
  have n: "n = nat (bt_height target + 1 - (a + 1))" "a + 1 \<le> bt_height target + 1" using Suc(2) le by linarith+
  have up: "[a..bt_height target] = a # [a + 1..bt_height target]" using le by (rule upto_rec1)
  show ?case
  proof (cases "window_row rows a")
    case None
    then show ?thesis unfolding up by (auto simp: bb_simps window_link_def)
  next
    case (Some row)
    then have prev: "window_row rows (a + 1 - 1) = Some row" by simp
    have ih: "verify_window_rows B target rows [a + 1..bt_height target] (Some (lc_hash row)) tip' st s = Some (Inr (), st', s') \<longleftrightarrow>
      st' = st \<and> s' = s \<and> list_all (window_link rows) [a + 1..bt_height target] \<and>
      (if a + 1 \<le> bt_height target then map_option lc_hash (window_row rows (bt_height target)) else tip') = Some (bt_hash target)" for tip'
      by (rule Suc.hyps(1) [OF n(1) prev n(2)])
    have "a + 1 \<le> bt_height target \<or> a = bt_height target" using le by linarith
    then show ?thesis unfolding up using Some Suc(3) le
      by (elim disjE) (auto simp: bb_simps ih window_link_def)
  qed
qed

text \<open>C13: Verifying the rows of the live window, after Core has named the hash of the target, succeeds exactly when the canonical rows of its heights are one complete row per
  height, each linked to the one below, ending at the captured tip; it then changes nothing.\<close>

theorem live_window_verified_iff:
  assumes "start \<le> bt_height target"
  shows "verify_live_backbone_window_rows B target start rows st s = Some (Inr (), st', s') \<longleftrightarrow>
    live_window_ok rows start target \<and> st' = st \<and> s' = s"
proof -
  have up: "[start..bt_height target] = start # [start + 1..bt_height target]" using assms by (rule upto_rec1)
  have links: "list_all (window_link rows) [start + 1..bt_height target] \<longleftrightarrow>
      list_all (\<lambda>h. case window_row rows h of
         None \<Rightarrow> False
       | Some row \<Rightarrow> lc_coinbase_status row = CoinbaseComplete \<and>
           (start < h \<longrightarrow> (case window_row rows (h - 1) of Some p \<Rightarrow> lc_hash p = lc_prev_hash row | None \<Rightarrow> False)))
       [start + 1..bt_height target]"
    by (rule list_all_cong) (auto simp: window_link_def split: option.splits)
  show ?thesis
  proof (cases "window_row rows start")
    case None
    then show ?thesis unfolding verify_live_backbone_window_rows_def up live_window_ok_def by (auto simp: bb_simps)
  next
    case (Some row)
    then have prev: "window_row rows (start + 1 - 1) = Some row" by simp
    have tip: "(case window_row rows (bt_height target) of Some r \<Rightarrow> lc_hash r = bt_hash target | None \<Rightarrow> False) \<longleftrightarrow>
        map_option lc_hash (window_row rows (bt_height target)) = Some (bt_hash target)"
      by (auto split: option.splits)
    have "start + 1 \<le> bt_height target \<or> start = bt_height target" using assms by linarith
    then show ?thesis
      unfolding verify_live_backbone_window_rows_def live_window_ok_def up tip using Some assms
      by (elim disjE) (auto simp: bb_simps window_rows_linked [OF prev] links)
  qed
qed

lemma replace_in_table:
  assumes "replace_core_canonical_suffix_validated E sh now cch anc exp rs pend vals st s = (Inr (st', summary), s')"
    and "distinct (map br_hash (db_blocks (co_db st)))"
  shows "distinct (map br_hash (db_blocks (co_db st')))"
  using assms by (elim replace_cases) (rule suffix_keeps_keys)

lemma kind_and_height_row:
  assumes "distinct (map br_hash blocks)" "b \<in> set blocks"
  shows "kind_and_height blocks (br_hash b) = Some (br_kind b, br_height b)"
proof -
  have "find_block blocks (br_hash b) = Some b"
    using assms by (induction blocks) (auto simp: find_block_def)
  then show ?thesis by (simp add: kind_and_height_def)
qed

lemma bb_replace_ok:
  assumes "bb_replace_suffix B S cch anc rows rs target rt st s = Some (Inr summary, st', s')"
  shows "replace_core_canonical_suffix_validated (be_rm B) (be_show B) (be_clock B 0) cch anc (expected_local_rows rows) rs
    (Some (bt_height target, bt_hash target)) (validate_targets S target rt, validate_targets S target rt) st s =
    (Inr (st', summary), s')"
  using assms unfolding bb_replace_suffix_def by (auto split: prod.splits sum.splits replace_error.splits)

lemma canonical_below_kept:
  assumes con: "suffix_consistent E rs (co_db st)"
    and r: "replace_core_canonical_suffix_validated E sh now cch anc exp rs pend vals st s = (Inr (st', summary), s')"
    and above: "\<And>y. y \<in> set rs \<Longrightarrow> anc < cc_height y"
    and kh: "kind_and_height (db_blocks (co_db st')) h = Some (BkCanonical, Some k)" and low: "k \<le> anc"
  shows "kind_and_height (db_blocks (co_db st)) h = Some (BkCanonical, Some k)"
proof -
  note e = replacement_exact [OF con r]
  note e1 = conjunct1 [OF e, rule_format] and e3 = conjunct1 [OF conjunct2 [OF conjunct2 [OF e]], rule_format]
    and e4 = conjunct2 [OF conjunct2 [OF conjunct2 [OF e]], rule_format]
  have notR: "h \<notin> replacement_hash E ` set rs"
  proof
    assume "h \<in> replacement_hash E ` set rs"
    then obtain y where y: "y \<in> set rs" "h = replacement_hash E y" by blast
    then have "cc_height y = k" using e1 [OF y(1)] kh by simp
    then show False using above [OF y(1)] low by simp
  qed
  have "\<not> (\<exists>k. kind_and_height (db_blocks (co_db st)) h = Some (BkCanonical, Some k) \<and> anc < k \<and> k \<le> cc_height (last rs))"
  proof
    assume "\<exists>k. kind_and_height (db_blocks (co_db st)) h = Some (BkCanonical, Some k) \<and> anc < k \<and> k \<le> cc_height (last rs)"
    then obtain y c where "placed_at (db_blocks (co_db st')) h BkStale y (Some c)" using e3 notR by blast
    then show False using kh by (auto simp: placed_at_def kind_and_height_def)
  qed
  from e4 [OF conjI [OF notR this]] kh show ?thesis by simp
qed

text \<open>C11: On tables that are consistent (\<open>suffix_consistent\<close>), a repair that commits resolves what it was
  planned for: after the suffix planned from a captured view was replaced, planning the same view
  against the new tables finds no conflict at any of its heights.\<close>

theorem repair_resolves_conflicts:
  assumes h: "0 \<le> bt_height target" "i32_ok (bt_height target)" "1 \<le> window"
    and view: "capture_core_view B S target window st s = Some (Inr view, st1, s1)"
    and plan: "plan_repair view (load_local_canonical_rows (db_blocks (co_db st))
      (core_view_start_height (bt_height target) window) (bt_height target)) = Inr (ReplaceFrom i)"
    and fetch: "fetch_replacements B S (drop i view) st1 s2 = Some (Inr rs, st2, s3)"
    and con: "suffix_consistent (be_rm B) rs (co_db st)"
    and rep: "bb_replace_suffix B S cch (vr_height (view ! (i - 1))) (load_local_canonical_rows (db_blocks (co_db st))
      (core_view_start_height (bt_height target) window) (bt_height target)) rs target rt st s4 = Some (Inr summary, st', s5)"
  shows "plan_repair view (load_local_canonical_rows (db_blocks (co_db st'))
    (core_view_start_height (bt_height target) window) (bt_height target)) = Inr NoHashConflict"
  unfolding plan_repair_cases(1)
proof (intro ballI notI)
  let ?vs = "core_view_start_height (bt_height target) window" and ?anc = "vr_height (view ! (i - 1))"
  let ?old = "load_local_canonical_rows (db_blocks (co_db st)) ?vs (bt_height target)"
  let ?new = "load_local_canonical_rows (db_blocks (co_db st')) ?vs (bt_height target)"
  note r = bb_replace_ok [OF rep]
  have chain: "core_chain B target view"
    using capture_until_chain [OF view [unfolded capture_core_view_def] view_start_range(2) [OF h]] by simp
  obtain j where i: "0 < i" "i \<le> j" "j < length view" "\<forall>k<j. \<not> conflicts ?old (view ! k)"
    using plan unfolding plan_repair_cases(2) by blast
  note f = fetch_replacements_rows [OF fetch]
  fix core assume core: "core \<in> set view" "conflicts ?new core"
  then obtain x where x: "x \<in> set ?new" "lc_height x = vr_height core" "lc_hash x \<noteq> vr_hash core"
    by (auto simp: conflicts_def list_ex_iff)
  obtain b where b: "b \<in> set (db_blocks (co_db st'))" "br_hash b = lc_hash x" "br_kind b = BkCanonical"
      "br_height b = Some (lc_height x)" "?vs \<le> lc_height x" "lc_height x \<le> bt_height target"
    using local_row_block [OF x(1)] by blast
  have d: "distinct (map br_hash (db_blocks (co_db st)))" using con by (simp add: suffix_consistent_def)
  have kh: "kind_and_height (db_blocks (co_db st')) (lc_hash x) = Some (BkCanonical, Some (lc_height x))"
    using kind_and_height_row [OF replace_in_table [OF r d] b(1)] b by simp
  obtain k where k: "k < length view" "view ! k = core" using core(1) by (auto simp: in_set_conv_nth)
  note hts = chain_heights [OF chain]
  note p = planned_rows [OF chain plan fetch]
    and e2 = conjunct1 [OF conjunct2 [OF replacement_exact [OF con r]], rule_format]
  have above: "?anc < cc_height y" if "y \<in> set rs" for y
  proof -
    obtain m where m: "m < length rs" "rs ! m = y" using \<open>y \<in> set rs\<close> by (auto simp: in_set_conv_nth)
    then show ?thesis using p(3) [OF m(1)] hts(1) [of "i + m"] hts(1) [of "i - 1"] p(1) i by simp
  qed
  show False
  proof (cases "k < i")
    case True
    then have low: "lc_height x \<le> ?anc" using x(2) k hts(1) [of k] hts(1) [of "i - 1"] i by simp
    have "kind_and_height (db_blocks (co_db st)) (lc_hash x) = Some (BkCanonical, Some (lc_height x))"
      by (rule canonical_below_kept [OF con r above kh low])
    from block_local_row [OF this b(5,6)] x(2,3) have "conflicts ?old core" by (auto simp: conflicts_def list_ex_iff)
    then show False using i(2,4) k True by auto
  next
    case False
    then have "?anc < lc_height x" using x(2) k hts(1) [of k] hts(1) [of "i - 1"] i by simp
    then have "?anc < lc_height x \<and> lc_height x \<le> cc_height (last rs)" using b(6) p(6) by simp
    then obtain y where y: "y \<in> set rs" "cc_height y = lc_height x" "replacement_hash (be_rm B) y = lc_hash x"
      using e2 [OF conjI [OF kh]] by blast
    obtain m where m: "m < length rs" "rs ! m = y" using y(1) by (auto simp: in_set_conv_nth)
    have "i + m = k" using p(3) [OF m(1)] hts(1) [of "i + m"] hts(1) [of k] p(1) m y(2) x(2) k by simp
    then show False using p(5) [OF m(1)] m(2) y(3) x(3) k(2) by simp
  qed
qed

section \<open>Witnesses\<close>

definition demo_backbone :: backbone_env where
  "demo_backbone = \<lparr>be_rm = demo_env, be_text = (\<lambda>_. ([], JNull)), be_show = (\<lambda>_. []), be_clock = (\<lambda>_. 5)\<rparr>"

definition demo_tip :: backbone_tip where
  "demo_tip = \<lparr>bt_height = 15, bt_hash = demo_node_hash 16\<rparr>"

definition demo_core :: "unit backbone_source" where
  "demo_core = \<lparr>so_tip = io_ok demo_tip,
     so_block_hash = (\<lambda>h. if h = 15 then io_ok (demo_node_hash 16) else io_ok (demo_node_hash (word_of_int h))),
     so_block_header = (\<lambda>h. if h = demo_node_hash 16 then io_ok (cc_header demo_replacement)
        else case demo_find h of Some n \<Rightarrow> io_ok (Parent_Classifier.demo_chain n) | None \<Rightarrow> io_err (RpcError (-5) [])),
     so_block_coinbase = (\<lambda>_. io_ok (cc_coinbase demo_replacement))\<rparr>"

definition demo_view :: "core_view_row list" where
  "demo_view = [\<lparr>vr_height = 14, vr_hash = demo_node_hash 14, vr_header = Parent_Classifier.demo_chain 14\<rparr>,
     \<lparr>vr_height = 15, vr_hash = demo_node_hash 16, vr_header = cc_header demo_replacement\<rparr>]"

definition demo_local :: "local_canonical_row list" where
  "demo_local = load_local_canonical_rows (db_blocks (co_db demo_state)) 14 15"

lemma demo_start: "core_view_start_height 15 1 = 14" "bt_height demo_tip = 15" "i32_ok 15"
  by code_simp+

lemma demo_captured: "capture_core_view demo_backbone demo_core demo_tip 1 demo_state () = Some (Inr demo_view, demo_state, ())"
proof -
  have "map_option fst (capture_core_view demo_backbone demo_core demo_tip 1 demo_state ()) = Some (Inr demo_view)" by code_simp
  then obtain st where c: "capture_core_view demo_backbone demo_core demo_tip 1 demo_state () = Some (Inr demo_view, st, ())" by auto
  have "st = demo_state"
    by (rule conjunct1 [OF capture_until_chain [OF c [unfolded capture_core_view_def]]]) (simp add: demo_start)
  with c show ?thesis by simp
qed

lemma demo_plan: "plan_repair demo_view demo_local = Inr (ReplaceFrom 1)"
  by code_simp

lemma demo_fetched:
  "fetch_replacements demo_backbone demo_core (drop 1 demo_view) demo_state () = Some (Inr [demo_replacement], demo_state, ())"
proof -
  have "map_option fst (fetch_replacements demo_backbone demo_core (drop 1 demo_view) demo_state ()) = Some (Inr [demo_replacement])"
    by code_simp
  then obtain st where c: "fetch_replacements demo_backbone demo_core (drop 1 demo_view) demo_state () =
      Some (Inr [demo_replacement], st, ())" by auto
  with fetch_replacements_rows [OF c] show ?thesis by simp
qed

lemma demo_wide: "\<forall>b\<in>set (db_blocks (co_db demo_state)). length (br_hash b) = 32 \<and> length (br_prev_hash b) = 32"
  by code_simp

lemma demo_index: "vr_height (demo_view ! (1 - 1)) = 14"
  by code_simp

lemma demo_backbone_rm: "be_rm demo_backbone = demo_env"
  by (simp add: demo_backbone_def)

lemma demo_backbone_consistent: "suffix_consistent (be_rm demo_backbone) [demo_replacement] (co_db demo_state)"
  using demo_consistent by (simp add: demo_backbone_rm)

definition demo_replaced_state :: "core_state option" where
  "demo_replaced_state = (case bb_replace_suffix demo_backbone demo_core 15 14 demo_local [demo_replacement] demo_tip demo_tip demo_state ()
     of Some (Inr _, st, _) \<Rightarrow> Some st | _ \<Rightarrow> None)"

lemma demo_replaced_rows:
  "map_option (\<lambda>st. map (\<lambda>b. (br_hash b, br_kind b)) (db_blocks (co_db st))) demo_replaced_state =
     Some [(demo_node_hash 14, BkCanonical), (demo_node_hash 15, BkStale), (demo_node_hash 16, BkCanonical)]"
  by code_simp

theorem plan_repair_exact_witness:
  "usable_anchor demo_local (demo_view ! 0) \<and> (\<exists>j. 1 \<le> j \<and> j < length demo_view \<and> conflicts demo_local (demo_view ! j))"
  using plan_repair_exact [of demo_view demo_local 1] demo_plan by auto

theorem planned_repair_accepted_witness:
  "validate_replacement demo_env 14 (expected_local_rows demo_local) [demo_replacement] = Inr ()"
  using planned_repair_accepted [of demo_tip 1 demo_state demo_backbone demo_core "()" demo_view demo_state "()" 1 "()"
      "[demo_replacement]" demo_state "()"] demo_wide demo_captured demo_plan demo_fetched demo_index
  by (simp add: demo_start demo_local_def demo_backbone_rm)

theorem live_window_verified_iff_witness:
  "(\<exists>st' s'. verify_live_backbone_window_rows demo_backbone \<lparr>bt_height = 15, bt_hash = demo_node_hash 15\<rparr> 14 demo_local demo_state () =
     Some (Inr (), st', s')) \<and> live_window_ok demo_local 14 \<lparr>bt_height = 15, bt_hash = demo_node_hash 15\<rparr>"
proof -
  have "live_window_ok demo_local 14 \<lparr>bt_height = 15, bt_hash = demo_node_hash 15\<rparr>" by code_simp
  then show ?thesis
    using live_window_verified_iff [of 14 "\<lparr>bt_height = 15, bt_hash = demo_node_hash 15\<rparr>" demo_backbone demo_local demo_state "()"
        demo_state "()"] by auto
qed

theorem repair_resolves_conflicts_witness:
  "\<exists>st. demo_replaced_state = Some st \<and>
     plan_repair demo_view (load_local_canonical_rows (db_blocks (co_db st)) 14 15) = Inr NoHashConflict"
proof -
  obtain st where st: "demo_replaced_state = Some st" using demo_replaced_rows by (cases demo_replaced_state) auto
  then obtain su s where r: "bb_replace_suffix demo_backbone demo_core 15 14 demo_local [demo_replacement] demo_tip demo_tip demo_state ()
      = Some (Inr su, st, s)" unfolding demo_replaced_state_def by (auto split: option.splits prod.splits sum.splits)
  have "plan_repair demo_view (load_local_canonical_rows (db_blocks (co_db st)) 14 15) = Inr NoHashConflict"
    using repair_resolves_conflicts [of demo_tip 1 demo_backbone demo_core demo_state "()" demo_view demo_state "()" 1 "()"
      "[demo_replacement]" demo_state "()" 15 demo_tip "()" su st s]
      demo_captured demo_plan demo_fetched demo_index demo_backbone_consistent r
    by (simp add: demo_start demo_local_def)
  with st show ?thesis by blast
qed

end
