(* ===== verification/Backbone_Live.thy ===== *)
theory Backbone_Live
  imports Reorg_Plan Poller
begin

text \<open>
  \<open>crates/mmm-producers/src/bitcoin_core_backbone/live.rs\<close> and \<open>crates/mmm-producers/src/live_loop.rs\<close>: one tick of
  the Bitcoin Core follow producer, and the supervisor that runs ticks and decides how long to wait.
  Instants are milliseconds given by the caller; the refresh of the header cache and the drain of the
  relationship summaries are arguments, as are the random jitter and the wall clock.  The status
  writes, the heartbeat, signals and logging are left out.
\<close>

section \<open>Accepting a repaired target\<close>

definition accept_target_row :: "backbone_tip \<Rightarrow> sync_state \<Rightarrow> sync_state" where
  "accept_target_row target row =
     (let row1 = row\<lparr>ss_target_tip_height := Some (bt_height target), ss_target_tip_hash := Some (bt_hash target)\<rparr> in
      case ss_last_error_code row of
        Some code \<Rightarrow>
          if List.member repair_owned_error_codes code
          then row1\<lparr>ss_last_error_code := None, ss_last_error_height := None, ss_last_error := None,
                    ss_last_error_details := JObject []\<rparr>
          else row1
      | None \<Rightarrow> row1)"

definition accept_live_repaired_target ::
  "backbone_env \<Rightarrow> 's backbone_source \<Rightarrow> backbone_tip \<Rightarrow> ('s, unit) backbone" where
  "accept_live_repaired_target B S target =
     persist_after B (bb_transaction (
       bb_bind guard_no_pending_core_reconcile (\<lambda>_.
       bb_bind bb_get (\<lambda>st.
       case co_sync st of
         None \<Rightarrow> bb_err BackboneSyncStateMissing
       | Some _ \<Rightarrow>
           bb_bind (bb_source (target_stability_failure S target)) (\<lambda>failure.
           case failure of
             Some f \<Rightarrow> bb_err (FailureError f)
           | None \<Rightarrow> bb_modify (\<lambda>st. st\<lparr>co_sync := map_option (accept_target_row target) (co_sync st)\<rparr>))))))"

section \<open>Errors\<close>

text \<open>The error of the node that an error carries.\<close>

definition core_cause :: "backbone_error \<Rightarrow> core_error option" where
  "core_cause e =
     (case e of
        SourceError c \<Rightarrow> Some c
      | BackboneWrite (ClassifierError c) \<Rightarrow> Some c
      | BackboneCascade (ItemFailed (ClassifierError c)) \<Rightarrow> Some c
      | BackboneSuffix (SuffixReadModel (ClassifierError c)) \<Rightarrow> Some c
      | BackboneDrain (DrainItem _ (ClassifierError c)) \<Rightarrow> Some c
      | _ \<Rightarrow> None)"

datatype cycle_state = Healthy | Pending string | Waiting core_unavailable

definition recovery_state :: "backbone_error \<Rightarrow> cycle_state option" where
  "recovery_state e =
     (case core_cause e of
        Some (CoreUnavailable reason) \<Rightarrow> Some (Waiting reason)
      | _ \<Rightarrow> (case e of LocalRecoveryPending reason \<Rightarrow> Some (Pending reason) | _ \<Rightarrow> None))"

definition must_propagate :: "backbone_error \<Rightarrow> bool" where
  "must_propagate e \<longleftrightarrow> recovery_state e \<noteq> None \<or> (case core_cause e of Some (CoreFault _) \<Rightarrow> True | _ \<Rightarrow> False) \<or>
     e = HeaderCacheIntegrity"

section \<open>Near-tip repair\<close>

datatype near_tip_repair_schedule = IfDue "int option" int | Force

definition near_tip_repair_due :: "int \<Rightarrow> int option \<Rightarrow> int \<Rightarrow> bool" where
  "near_tip_repair_due now last_repair interval =
     (case last_repair of None \<Rightarrow> True | Some stamp \<Rightarrow> interval \<le> now - stamp)"

definition skipped_timestamp :: "int \<Rightarrow> near_tip_repair_schedule \<Rightarrow> int option" where
  "skipped_timestamp now schedule =
     (case schedule of
        IfDue last_repair interval \<Rightarrow> if \<not> near_tip_repair_due now last_repair interval then last_repair else None
      | Force \<Rightarrow> None)"

definition record_retryable_repair :: "backbone_env \<Rightarrow> backbone_tip option \<Rightarrow> string \<Rightarrow> ('s, unit) backbone" where
  "record_retryable_repair B target reason =
     bb_bind load_or_init_sync_state (\<lambda>state.
     bb_bind bb_get (\<lambda>st.
     if co_queue st = [] \<and>
        (sy_last_error_code state = None \<or> sy_last_error_code state = Some retryable_repair_error_code \<or>
         sy_last_error_code state = Some target_tip_changed_error_code)
     then
       (let height = (case target of Some t \<Rightarrow> bt_height t
                      | None \<Rightarrow> (case sy_target_tip_height state of Some h \<Rightarrow> h | None \<Rightarrow> sy_contiguous_complete_height state))
        in update_sync_error B height retryable_repair_error_code (RetryableRepair reason target))
     else bb_ok ()))"

definition handle_near_tip_repair_result ::
  "(backbone_error, backbone_sync_stats) result \<Rightarrow> (backbone_error, bool) result" where
  "handle_near_tip_repair_result r =
     (case r of
        Inr stats \<Rightarrow> Inr (st_coinbase_failed stats = 0)
      | Inl e \<Rightarrow> if is_backbone_integrity_error e \<or> must_propagate e then Inl e else Inr False)"

definition repair_and_accept ::
  "backbone_env \<Rightarrow> 's backbone_source \<Rightarrow> 's configured_classifier \<Rightarrow> backbone_tip \<Rightarrow> int \<Rightarrow> ('s, backbone_sync_stats) backbone" where
  "repair_and_accept B S K target window_heights =
     bb_bind (repair_near_tip_backbone_to_target B S K target window_heights) (\<lambda>stats.
     if st_coinbase_failed stats = 0 then
       bb_bind (verify_live_backbone_window B S target window_heights) (\<lambda>_.
       bb_bind (accept_live_repaired_target B S target) (\<lambda>_.
       bb_ok stats))
     else bb_ok stats)"

definition repair_near_tip_backbone_if_due ::
  "backbone_env \<Rightarrow> 's backbone_source \<Rightarrow> 's configured_classifier \<Rightarrow> near_tip_repair_schedule \<Rightarrow> int \<Rightarrow> int \<Rightarrow> int \<Rightarrow>
     ('s, int option \<times> bool) backbone" where
  "repair_near_tip_backbone_if_due B S K schedule window_heights now_before now_after st s =
     (case skipped_timestamp now_before schedule of
        Some stamp \<Rightarrow> Some (Inr (Some stamp, True), st, s)
      | None \<Rightarrow>
          (case so_tip S s of
             (Inl err, s1) \<Rightarrow>
               if must_propagate (SourceError err) then Some (Inl (SourceError err), st, s1)
               else bb_bind (record_retryable_repair B None ''target_capture_failed'') (\<lambda>_. bb_ok (Some now_after, False)) st s1
           | (Inr target, s1) \<Rightarrow>
               (case repair_and_accept B S K target window_heights st s1 of
                  None \<Rightarrow> None
                | Some (r, st2, s2) \<Rightarrow>
                    (case handle_near_tip_repair_result r of
                       Inl e \<Rightarrow> Some (Inl e, st2, s2)
                     | Inr True \<Rightarrow> Some (Inr (Some now_after, True), st2, s2)
                     | Inr False \<Rightarrow>
                         bb_bind (record_retryable_repair B (Some target)
                             (case r of Inr _ \<Rightarrow> ''coinbase_incomplete'' | Inl _ \<Rightarrow> ''transient_repair_failure'')) (\<lambda>_.
                           bb_ok (Some now_after, False)) st2 s2))))"

section \<open>A tick\<close>

record follow_progress =
  fp_contiguous_complete_height :: int
  fp_target_tip_height :: "int option"

definition caught_up :: "follow_progress \<Rightarrow> bool" where
  "caught_up p = (case fp_target_tip_height p of Some tip \<Rightarrow> tip \<le> fp_contiguous_complete_height p | None \<Rightarrow> False)"

definition load_follow_progress :: "core_state \<Rightarrow> follow_progress option" where
  "load_follow_progress st = map_option (\<lambda>row. \<lparr>fp_contiguous_complete_height = ss_contiguous_complete_height row,
     fp_target_tip_height = ss_target_tip_height row\<rparr>) (co_sync st)"

definition bookkeeping_failure_outcome_from :: "follow_progress option \<Rightarrow> follow_progress option \<Rightarrow> tick_outcome" where
  "bookkeeping_failure_outcome_from earlier after =
     \<lparr>to_progressed = (case (earlier, after) of
         (Some b, Some a) \<Rightarrow> fp_contiguous_complete_height b < fp_contiguous_complete_height a | _ \<Rightarrow> False),
      to_idle_at_target = (case (case after of Some a \<Rightarrow> Some a | None \<Rightarrow> earlier) of Some p \<Rightarrow> caught_up p | None \<Rightarrow> False),
      to_completed = False\<rparr>"

definition normalize_follow_config :: "backbone_sync_config \<Rightarrow> backbone_sync_config" where
  "normalize_follow_config config = config\<lparr>sc_tip := True, sc_missing_only := True, sc_from_height := None, sc_to_height := None\<rparr>"

record live_producer =
  lp_config :: backbone_sync_config
  lp_stall :: nat
  lp_last_near_tip_repair_at :: "int option"

text \<open>What the tick calls beside the backbone: the cache refresh, the relationship drain, and the four instants
  it reads, before and after each of the two repairs it may run.\<close>

record 's tick_env =
  te_refresh :: "('s, unit) backbone"
  te_drain_relationships :: "('s, unit) backbone"
  te_now :: "nat \<Rightarrow> int"

definition stalled_outcome :: tick_outcome where
  "stalled_outcome = \<lparr>to_progressed = False, to_idle_at_target = False, to_completed = False\<rparr>"

type_synonym ('s, 'a) live_io = "live_producer \<Rightarrow> core_state \<Rightarrow> 's \<Rightarrow>
  ((backbone_error, 'a) result \<times> live_producer \<times> core_state \<times> 's) option"

definition live_do :: "('s, 'a) backbone \<Rightarrow> ((backbone_error, 'a) result \<Rightarrow> ('s, 'b) live_io) \<Rightarrow> ('s, 'b) live_io" where
  "live_do m f p st s = (case m st s of None \<Rightarrow> None | Some (r, st1, s1) \<Rightarrow> f r p st1 s1)"

definition live_get :: "(live_producer \<Rightarrow> core_state \<Rightarrow> ('s, 'a) live_io) \<Rightarrow> ('s, 'a) live_io" where
  "live_get f p st = f p st p st"

definition live_return :: "(backbone_error, 'a) result \<Rightarrow> ('s, 'a) live_io" where
  "live_return r p st s = Some (r, p, st, s)"

definition repair_near_tip ::
  "backbone_env \<Rightarrow> 's backbone_source \<Rightarrow> 's configured_classifier \<Rightarrow> near_tip_repair_schedule \<Rightarrow> int \<Rightarrow> int \<Rightarrow>
     ((backbone_error, bool) result \<Rightarrow> ('s, 'b) live_io) \<Rightarrow> ('s, 'b) live_io" where
  "repair_near_tip B S K schedule now_before now_after f p =
     live_do (repair_near_tip_backbone_if_due B S K schedule (sc_near_tip_repair_window_heights (lp_config p)) now_before now_after)
       (\<lambda>r p. case r of
          Inl e \<Rightarrow> f (Inl e) p
        | Inr (last_repair, succeeded) \<Rightarrow> f (Inr succeeded) (p\<lparr>lp_last_near_tip_repair_at := last_repair\<rparr>)) p"

definition finish_tick :: "'s tick_env \<Rightarrow> follow_progress \<Rightarrow> bool \<Rightarrow> ('s, tick_outcome) live_io" where
  "finish_tick T earlier completed =
     live_get (\<lambda>_ st.
       case load_follow_progress st of
         None \<Rightarrow> live_return (Inr (bookkeeping_failure_outcome_from (Some earlier) None))
       | Some after \<Rightarrow>
           let outcome = \<lparr>to_progressed = (fp_contiguous_complete_height earlier < fp_contiguous_complete_height after),
                 to_idle_at_target = caught_up after, to_completed = completed\<rparr>
           in live_do (te_drain_relationships T) (\<lambda>r.
                case r of
                  Inl e \<Rightarrow> if must_propagate e then live_return (Inl e) else live_return (Inr outcome)
                | Inr _ \<Rightarrow> live_return (Inr outcome)))"

text \<open>The end of a tick, from the result of its batch.\<close>

definition batch_completed :: "(backbone_error, backbone_sync_stats) result \<Rightarrow> (backbone_error, bool) result" where
  "batch_completed batch =
     (case batch of
        Inr stats \<Rightarrow> Inr (st_coinbase_failed stats = 0)
      | Inl e \<Rightarrow> if is_backbone_integrity_error e \<or> must_propagate e then Inl e else Inr False)"

definition handle_header_cache_refresh_result :: "(backbone_error, unit) result \<Rightarrow> (backbone_error, bool) result" where
  "handle_header_cache_refresh_result r =
     (case r of
        Inr _ \<Rightarrow> Inr True
      | Inl e \<Rightarrow> if is_backbone_integrity_error e \<or> must_propagate e then Inl e else Inr False)"

definition after_batch ::
  "'s tick_env \<Rightarrow> follow_progress \<Rightarrow> (backbone_error, backbone_sync_stats) result \<Rightarrow> ('s, tick_outcome) live_io" where
  "after_batch T earlier batch =
     (case batch_completed batch of
        Inl e \<Rightarrow> live_return (Inl e)
      | Inr completed \<Rightarrow>
          live_do (te_refresh T) (\<lambda>r.
            case handle_header_cache_refresh_result r of
              Inl e \<Rightarrow> live_return (Inl e)
            | Inr True \<Rightarrow> finish_tick T earlier completed
            | Inr False \<Rightarrow>
                live_get (\<lambda>_ st. live_return (Inr (bookkeeping_failure_outcome_from (Some earlier) (load_follow_progress st))))))"

definition live_batch ::
  "backbone_env \<Rightarrow> 's backbone_source \<Rightarrow> 's configured_classifier \<Rightarrow> 's tick_env \<Rightarrow> follow_progress \<Rightarrow> ('s, tick_outcome) live_io" where
  "live_batch B S K T earlier =
     live_get (\<lambda>p _.
     live_do (run_sync_bitcoin_core B S (lp_config p)) (\<lambda>batch.
       if (case batch of Inl e \<Rightarrow> is_backbone_integrity_error e \<and> \<not> must_propagate e | Inr _ \<Rightarrow> False)
       then
         repair_near_tip B S K Force (te_now T 2) (te_now T 3) (\<lambda>repaired.
           case repaired of
             Inl e \<Rightarrow> live_return (Inl e)
           | Inr False \<Rightarrow> live_return (Inr stalled_outcome)
           | Inr True \<Rightarrow> live_do (run_sync_bitcoin_core B S (lp_config p)) (after_batch T earlier))
       else after_batch T earlier batch))"

definition live_tick ::
  "backbone_env \<Rightarrow> 's backbone_source \<Rightarrow> 's configured_classifier \<Rightarrow> 's tick_env \<Rightarrow> ('s, tick_outcome) live_io" where
  "live_tick B S K T =
     live_do (if classifier_is_live K then bb_bind (bb_source (configured_ready_tip K)) (\<lambda>_. bb_ok ()) else bb_ok ()) (\<lambda>ready.
       case ready of
         Inl e \<Rightarrow> live_return (Inl e)
       | Inr _ \<Rightarrow>
           live_do (drain_core_queue B K) (\<lambda>drained.
           live_get (\<lambda>p st.
             case drained of
               Inl e \<Rightarrow>
                 if must_propagate e then live_return (Inl e)
                 else live_return (Inr (bookkeeping_failure_outcome_from None (load_follow_progress st)))
             | Inr _ \<Rightarrow>
                 (case load_follow_progress st of
                    None \<Rightarrow> live_return (Inr (bookkeeping_failure_outcome_from None None))
                  | Some earlier \<Rightarrow>
                      repair_near_tip B S K
                        (IfDue (lp_last_near_tip_repair_at p) (1000 * int (sc_follow_interval_secs (lp_config p))))
                        (te_now T 0) (te_now T 1) (\<lambda>repaired.
                          case repaired of
                            Inl e \<Rightarrow> live_return (Inl e)
                          | Inr False \<Rightarrow> live_return (Inr stalled_outcome)
                          | Inr True \<Rightarrow> live_batch B S K T earlier)))))"

section \<open>The supervisor\<close>

definition follow_stall_exit_threshold :: nat where "follow_stall_exit_threshold = 5"

definition follow_stall_step :: "bool \<Rightarrow> bool \<Rightarrow> nat \<Rightarrow> nat \<times> bool" where
  "follow_stall_step at_tip progressed stall =
     (if progressed \<or> at_tip then (0, False) else (stall + 1, follow_stall_exit_threshold \<le> stall + 1))"

text \<open>The delay in milliseconds, or the exit.\<close>

definition wait_after_live_tick :: "tick_outcome \<Rightarrow> live_producer \<Rightarrow> nat option \<times> live_producer" where
  "wait_after_live_tick outcome p =
     (let (next_stall, should_exit) = follow_stall_step (to_idle_at_target outcome) (to_progressed outcome) (lp_stall p) in
      (if should_exit then None
       else Some (if to_progressed outcome then 0 else 1000 * sc_follow_interval_secs (lp_config p)), p\<lparr>lp_stall := next_stall\<rparr>))"

record runtime_transition =
  tr_phase :: string
  tr_state :: string
  tr_dependency :: "string option"
  tr_reason_code :: "string option"
  tr_failures :: int
  tr_next_retry_at :: "int option"

definition retry_ceiling_ms :: "int \<Rightarrow> nat" where
  "retry_ceiling_ms failures = min (5000 * 2 ^ nat (min (failures - 1) 6)) 300000"

text \<open>\<open>RetryPolicy::decide\<close>: \<open>hash\<close> is the jitter drawn for this number of failures, \<open>wall\<close> the system time in
  milliseconds.  The result is the policy's counter, the delay and the transition.\<close>

definition decide ::
  "int \<Rightarrow> (int \<Rightarrow> nat) \<Rightarrow> int \<Rightarrow> cycle_state \<Rightarrow> string \<Rightarrow> nat \<Rightarrow> int \<times> nat \<times> runtime_transition" where
  "decide failures hash wall cycle phase normal =
     (let (failures1, state, dependency, reason, delay) =
            (case cycle of
               Healthy \<Rightarrow> (0, ''healthy'', None, None, normal)
             | Pending reason \<Rightarrow> (failures, ''recovering'', None, Some reason, normal)
             | Waiting reason \<Rightarrow>
                 let f = min (failures + 1) (2 ^ 63 - 1);
                     half = retry_ceiling_ms f div 2
                 in (f, ''waiting'', Some ''bitcoin-core'', Some (unavailable_code reason), half + hash f mod (half + 1)));
          secs = (wall + int delay) div 1000
      in (failures1, delay,
          \<lparr>tr_phase = phase, tr_state = state, tr_dependency = dependency, tr_reason_code = reason, tr_failures = failures1,
           tr_next_retry_at = (if state \<noteq> ''healthy'' \<and> 0 \<le> secs \<and> secs < 2 ^ 63 then Some secs else None)\<rparr>))"

text \<open>What \<open>run_ticks\<close> does with the result of a tick: the cycle and its normal delay, or the exit.\<close>

definition tick_cycle ::
  "(backbone_error, tick_outcome) result \<Rightarrow> live_producer \<Rightarrow> (backbone_error option, cycle_state \<times> nat) result \<times> live_producer" where
  "tick_cycle result p =
     (case result of
        Inl e \<Rightarrow>
          (case recovery_state e of
             Some state \<Rightarrow> (Inr (state, 1000 * sc_follow_interval_secs (lp_config p)), p)
           | None \<Rightarrow> (Inl (Some e), p))
      | Inr outcome \<Rightarrow>
          (let state = (if \<not> to_completed outcome then Pending ''capture_pending''
                        else if to_progressed outcome \<or> to_idle_at_target outcome then Healthy
                        else Pending ''producer_no_progress'');
               (delay, p1) = wait_after_live_tick outcome p
           in (case delay of None \<Rightarrow> (Inl None, p1) | Some d \<Rightarrow> (Inr (state, d), p1))))"

text \<open>The loop as steps: one tick, its wait decision, the next tick; a tick whose result ends the producer has no step.\<close>

record 's live_run_state =
  lr_producer :: live_producer
  lr_tables :: core_state
  lr_outside :: 's
  lr_failures :: int

inductive live_step ::
  "backbone_env \<Rightarrow> 's backbone_source \<Rightarrow> 's configured_classifier \<Rightarrow> ('s, unit) backbone \<Rightarrow> ('s, unit) backbone \<Rightarrow>
     (int \<Rightarrow> nat) \<Rightarrow> 's live_run_state \<Rightarrow> 's live_run_state \<Rightarrow> bool"
  for B S K refresh relationships hash where
  "live_tick B S K \<lparr>te_refresh = refresh, te_drain_relationships = relationships, te_now = now\<rparr>
     (lr_producer r) (lr_tables r) (lr_outside r) = Some (res, p1, st1, s1) \<Longrightarrow>
   tick_cycle res p1 = (Inr (cycle, normal), p2) \<Longrightarrow>
   decide (lr_failures r) hash wall cycle ''running'' normal = (f1, delay, transition) \<Longrightarrow>
   live_step B S K refresh relationships hash r \<lparr>lr_producer = p2, lr_tables = st1, lr_outside = s1, lr_failures = f1\<rparr>"

inductive_cases live_stepE: "live_step B S K refresh relationships hash r r'"

section \<open>The queue, the errors and the delays\<close>

text \<open>C14: Nothing of the backbone moves while reconcile work is queued: a sync stops before it reads the node or
  changes the tables of blocks, events, cursor and queue, a complete row is not skipped over, no
  observation is written, and a repaired target is not accepted.\<close>

theorem pending_queue_blocks_backbone:
  fixes s :: 's
  assumes "co_queue st \<noteq> []"
  shows "run_sync_bitcoin_core B S config st s = Some (Inl ReconcileQueuePending, st, s) \<and>
    try_skip_complete B S h hash dcp state st s = Some (Inl ReconcileQueuePending, st, s) \<and>
    write_observed_core_canonical B S h hash hdr dcp coinbase extra st s = Some (Inl ReconcileQueuePending, st, s) \<and>
    accept_live_repaired_target B S target st s = Some (Inl ReconcileQueuePending, st, s)"
proof -
  have guard: "guard_no_pending_core_reconcile st s = Some (Inl ReconcileQueuePending, st, s)" for s :: 's
    using assms by (simp add: guard_no_pending_core_reconcile_def bb_bind_def bb_get_def bb_err_def)
  note run = persist_after_def bb_transaction_def bb_bind_def guard
  show ?thesis
    by (simp add: run_sync_bitcoin_core_def prepare_sync_batch_def try_skip_complete_def write_observed_core_canonical_def
        validate_observation_def accept_live_repaired_target_def run)
qed

lemma accepted_error: "ss_last_error_code (accept_target_row target row) \<notin> Some ` set repair_owned_error_codes"
  unfolding accept_target_row_def by (cases "ss_last_error_code row") (auto simp: Let_def)

text \<open>C15: The repair owns only its own errors.  Whatever repair-owned failures are recorded and whatever targets are
  accepted, in any order, an error of another code stays on the status row as it was, and after an
  acceptance no repair-owned error is left.\<close>

theorem unrelated_error_survives_repair:
  assumes "error_of row = Some e" "\<not> List.member repair_owned_error_codes (se_code e)"
    and "\<forall>f\<in>set fs. (\<exists>h code message. List.member repair_owned_error_codes code \<and> f = write_sync_error h code message) \<or>
      (\<exists>target. f = accept_target_row target)"
  shows "error_of (fold (\<lambda>f. f) fs row) = Some e \<and>
    ss_last_error_code (accept_target_row target other) \<notin> Some ` set repair_owned_error_codes"
proof (intro conjI accepted_error)
  show "error_of (fold (\<lambda>f. f) fs row) = Some e"
  using assms(1,3)
proof (induction fs arbitrary: row)
  case Nil
  then show ?case by simp
next
  case (Cons f fs)
  then have code: "ss_last_error_code row = Some (se_code e)" using Cons.prems(1) by (auto simp: error_of_def split: option.split_asm)
  have "f row = row\<lparr>ss_target_tip_height := ss_target_tip_height (f row), ss_target_tip_hash := ss_target_tip_hash (f row)\<rparr>"
    using Cons.prems(2) code assms(2)
    by (auto simp: write_sync_error_def accept_target_row_def)
  from arg_cong [OF this, of error_of] have "error_of (f row) = error_of row" by (simp add: error_of_def)
  then show ?case using Cons by simp
qed
qed

lemma retry_ceiling_bounds: "1 \<le> f \<Longrightarrow> 5000 \<le> retry_ceiling_ms f \<and> retry_ceiling_ms f \<le> 300000"
  by (simp add: retry_ceiling_ms_def)

lemma retry_ceiling_doubles: "1 \<le> f \<Longrightarrow> retry_ceiling_ms (f + 1) = min (2 * retry_ceiling_ms f) 300000"
proof -
  assume f: "1 \<le> f"
  show ?thesis
  proof (cases "f \<le> 6")
    case True
    then have "f = 1 \<or> f = 2 \<or> f = 3 \<or> f = 4 \<or> f = 5 \<or> f = 6" using f by presburger
    then show ?thesis by (elim disjE) (simp_all add: retry_ceiling_ms_def)
  next
    case False
    then have "min (f + 1 - 1) 6 = (6 :: int)" "min (f - 1) 6 = (6 :: int) \<or> f = 7 \<or> min (f - 1) 6 = 6" by auto
    then show ?thesis by (auto simp: retry_ceiling_ms_def)
  qed
qed

text \<open>Waiting for the node backs off within bounds: each outage in a row adds one to the counter and waits between
  half and all of a ceiling that starts at five seconds, doubles with every outage and never exceeds five
  minutes, whatever the jitter; a healthy cycle resets the counter and a pending one keeps it, and both
  wait their normal delay.\<close>

theorem retry_delay_bounded:
  assumes "0 \<le> failures" "failures < 2 ^ 63 - 1"
  shows "(case decide failures hash wall (Waiting reason) phase normal of (f, delay, transition) \<Rightarrow>
      f = failures + 1 \<and> retry_ceiling_ms f div 2 \<le> delay \<and> delay \<le> retry_ceiling_ms f \<and>
      2500 \<le> delay \<and> delay \<le> 300000 \<and> retry_ceiling_ms (f + 1) = min (2 * retry_ceiling_ms f) 300000 \<and>
      tr_failures transition = f) \<and>
    fst (decide failures hash wall Healthy phase normal) = 0 \<and> fst (snd (decide failures hash wall Healthy phase normal)) = normal \<and>
    fst (decide failures hash wall (Pending why) phase normal) = failures \<and>
    fst (snd (decide failures hash wall (Pending why) phase normal)) = normal"
proof -
  let ?f = "failures + 1"
  let ?c = "retry_ceiling_ms ?f"
  have f: "min ?f 9223372036854775807 = ?f" "1 \<le> ?f" using assms by auto
  note c = retry_ceiling_bounds [OF f(2)] retry_ceiling_doubles [OF f(2)]
  have m: "?c div 2 + hash ?f mod (?c div 2 + 1) \<le> ?c" using mod_less_divisor [of "?c div 2 + 1" "hash ?f"] by linarith
  have "decide failures hash wall (Waiting reason) phase normal =
     (?f, ?c div 2 + hash ?f mod (?c div 2 + 1), snd (snd (decide failures hash wall (Waiting reason) phase normal))) \<and>
     tr_failures (snd (snd (decide failures hash wall (Waiting reason) phase normal))) = ?f"
    unfolding decide_def by (simp add: Let_def f del: of_nat_add)
  then show ?thesis
    using c m by (auto simp: decide_def Let_def split: prod.split)
qed

theorem pending_queue_blocks_backbone_witness:
  "run_sync_bitcoin_core demo_backbone demo_core (gap_config demo_tip 1) (demo_state\<lparr>co_queue := [demo_work]\<rparr>) () =
     Some (Inl ReconcileQueuePending, demo_state\<lparr>co_queue := [demo_work]\<rparr>, ())"
  by (rule conjunct1 [OF pending_queue_blocks_backbone]) simp

theorem unrelated_error_survives_repair_witness:
  "ss_last_error_code (accept_target_row demo_tip (write_sync_error 15 retryable_repair_error_code ([], JNull) demo_sync)) =
     Some ''backbone_rpc_error''"
proof -
  let ?e = "\<lparr>se_code = ''backbone_rpc_error'', se_height = Some 9, se_message = None, se_details = JObject []\<rparr>"
  let ?fs = "[write_sync_error 15 retryable_repair_error_code ([], JNull), accept_target_row demo_tip]"
  have e: "error_of demo_sync = Some ?e" by (simp add: error_of_def demo_sync_def)
  have own: "List.member repair_owned_error_codes retryable_repair_error_code" by code_simp
  have other: "\<not> List.member repair_owned_error_codes (se_code ?e)" by code_simp
  have "\<forall>f\<in>set ?fs. (\<exists>h code message. List.member repair_owned_error_codes code \<and> f = write_sync_error h code message) \<or>
      (\<exists>target. f = accept_target_row target)"
    using own by (auto simp only: list.set insert_iff empty_iff ball_simps)
  from unrelated_error_survives_repair [OF e other this] show ?thesis by (auto simp: error_of_def)
qed

theorem retry_delay_bounded_witness:
  "fst (decide 3 (\<lambda>_. 123456789) 0 (Waiting StaleTip) [] 1000) = 4 \<and> fst (snd (decide 3 (\<lambda>_. 123456789) 0 (Waiting StaleTip) [] 1000)) \<le> 40000"
proof -
  have "retry_ceiling_ms 4 = 40000" by code_simp
  then show ?thesis
    using retry_delay_bounded [of 3 "\<lambda>_. 123456789" 0 StaleTip "[]" 1000 "[]"] by (auto split: prod.splits)
qed

end
