(* ===== verification/Backbone_Run.thy ===== *)
theory Backbone_Run
  imports Backbone_Live
begin

text \<open>
  What holds of the whole Bitcoin Core producer, over any number of ticks and any answers of the node.  A
  command follows an order on the tables when it only moves along it; the locales prove once, for every
  command of the sync, the repair and the tick, that it follows an order its statements follow, and are
  interpreted for the cursor and for the keys of the queue.  The last part shows that ticks return.
\<close>

section \<open>What the commands keep\<close>

definition follows :: "(core_state \<Rightarrow> core_state \<Rightarrow> bool) \<Rightarrow> ('s, 'a) backbone \<Rightarrow> bool" where
  "follows le m \<longleftrightarrow> (\<forall>st s r st' s'. m st s = Some (r, st', s') \<longrightarrow> le st st')"

lemma followsI: "(\<And>st s r st' s'. m st s = Some (r, st', s') \<Longrightarrow> le st st') \<Longrightarrow> follows le m"
  by (auto simp: follows_def)

lemma followsD: "follows le m \<Longrightarrow> m st s = Some (r, st', s') \<Longrightarrow> le st st'"
  unfolding follows_def by blast

named_theorems keeps "commands that follow an order on the tables"

text \<open>An order on the tables that every statement of the sync follows: the writes of the block table, the
  status row's errors, target, cursor and progress.  The commands built from them follow it too.\<close>

locale backbone_order =
  fixes le :: "core_state \<Rightarrow> core_state \<Rightarrow> bool"
  assumes le_refl: "le st st"
    and le_trans: "le st1 st2 \<Longrightarrow> le st2 st3 \<Longrightarrow> le st1 st3"
    and le_blocks: "le st (st\<lparr>co_db := db\<rparr>)"
    and le_error: "le st (st\<lparr>co_sync := map_option (write_sync_error h code message) (co_sync st)\<rparr>)"
    and le_target: "le st (st\<lparr>co_sync := map_option (\<lambda>row. row\<lparr>ss_target_tip_height := th, ss_target_tip_hash := hash\<rparr>) (co_sync st)\<rparr>)"
    and le_cursor: "le st (st\<lparr>co_sync := map_option (\<lambda>row. row\<lparr>ss_contiguous_complete_height :=
        max (ss_contiguous_complete_height row) h\<rparr>) (co_sync st)\<rparr>)"
    and le_link: "le st (clear_link_error h st)"
    and le_progress: "le st (write_sync_progress h state st)"
    and le_accept: "le st (st\<lparr>co_sync := map_option (accept_target_row target) (co_sync st)\<rparr>)"
    and le_init: "co_sync st = None \<Longrightarrow> le st (st\<lparr>co_sync := Some fresh_sync_row\<rparr>)"
begin

lemma keeps_ok [keeps]: "follows le (bb_ok a)"
  by (rule followsI) (simp add: bb_simps le_refl)

lemma keeps_err [keeps]: "follows le (bb_err e)"
  by (rule followsI) (simp add: bb_simps le_refl)

lemma keeps_get [keeps]: "follows le bb_get"
  by (rule followsI) (simp add: bb_simps le_refl)

lemma keeps_source [keeps]: "follows le (bb_source m)"
  by (rule followsI) (auto simp: bb_source_def le_refl split: prod.splits sum.splits)

lemma keeps_attempt [keeps]: "follows le (bb_attempt m)"
  by (rule followsI) (auto simp: bb_attempt_def le_refl split: prod.splits)

lemma keeps_if [keeps]: "(b \<Longrightarrow> follows le m) \<Longrightarrow> (\<not> b \<Longrightarrow> follows le n) \<Longrightarrow> follows le (if b then m else n)"
  by simp

lemma keeps_bind [keeps]:
  assumes "follows le m" "\<And>a. follows le (f a)"
  shows "follows le (bb_bind m f)"
proof (rule followsI)
  fix st s r st' s' assume m: "bb_bind m f st s = Some (r, st', s')"
  show "le st st'"
  proof (cases "m st s")
    case None
    with m show ?thesis by (simp add: bb_bind_def)
  next
    case (Some x)
    obtain q st1 s1 where x: "x = (q, st1, s1)" by (cases x) auto
    have 1: "le st st1" using followsD [OF assms(1)] Some x by blast
    show ?thesis
    proof (cases q)
      case (Inl e)
      with m Some x 1 show ?thesis by (simp add: bb_bind_def)
    next
      case (Inr a)
      with m Some x have "f a st1 s1 = Some (r, st', s')" by (simp add: bb_bind_def)
      from le_trans [OF 1 followsD [OF assms(2) this]] show ?thesis .
    qed
  qed
qed

lemma keeps_bind_when:
  assumes "follows le m" "\<And>st s a st1 s1. m st s = Some (Inr a, st1, s1) \<Longrightarrow> P a" "\<And>a. P a \<Longrightarrow> follows le (f a)"
  shows "follows le (bb_bind m f)"
proof -
  have "follows le (bb_bind m (\<lambda>a. if P a then f a else bb_ok undefined))" by (intro keeps assms(1)) (rule assms(3))
  moreover have "bb_bind m (\<lambda>a. if P a then f a else bb_ok undefined) = bb_bind m f"
    by (rule ext, rule ext) (auto simp: bb_bind_def dest: assms(2) split: option.splits prod.splits sum.splits)
  ultimately show ?thesis by simp
qed

lemma keeps_modify: "(\<And>st. le st (f st)) \<Longrightarrow> follows le (bb_modify f)"
  by (rule followsI) (simp add: bb_simps)

lemma keeps_transaction [keeps]: "follows le m \<Longrightarrow> follows le (bb_transaction m)"
  by (rule followsI) (auto simp: bb_transaction_def le_refl dest: followsD split: option.splits prod.splits sum.splits)

lemma keeps_write [keeps]: "follows le (bb_write f)"
  by (rule followsI) (auto simp: bb_write_def le_refl le_blocks split: sum.splits)

lemma keeps_cascade [keeps]: "follows le (bb_cascade B hs)"
  by (rule followsI) (auto simp: bb_cascade_def le_refl le_blocks split: if_splits option.splits prod.splits sum.splits)

lemma keeps_error [keeps]: "follows le (update_sync_error B h code reason)"
  unfolding update_sync_error_def by (rule keeps_modify) (rule le_error)

lemma keeps_persist [keeps]: "follows le (persist B f)"
  unfolding persist_def by (rule keeps)

lemma keeps_persist_and_fail [keeps]: "follows le (persist_and_fail B f)"
  unfolding persist_and_fail_def by (intro keeps)

lemma keeps_persist_after [keeps]:
  assumes "follows le m"
  shows "follows le (persist_after B m)"
proof (rule followsI)
  fix st s r st' s' assume p: "persist_after B m st s = Some (r, st', s')"
  show "le st st'"
  proof (cases "\<exists>f st1 s1. m st s = Some (Inl (FailureError f), st1, s1)")
    case True
    then obtain f st1 s1 where m: "m st s = Some (Inl (FailureError f), st1, s1)" by blast
    then have pf: "persist_and_fail B f st1 s1 = Some (r, st', s')" using p by (simp add: persist_after_def persist_and_fail_def)
    from le_trans [OF followsD [OF assms m] followsD [OF keeps_persist_and_fail pf]] show ?thesis .
  next
    case False
    then have "m st s = Some (r, st', s')"
      using p unfolding persist_after_def by (auto split: option.splits prod.splits sum.splits backbone_error.splits)
    then show ?thesis by (rule followsD [OF assms])
  qed
qed

lemma keeps_init [keeps]: "follows le load_or_init_sync_state"
proof (rule followsI)
  fix st s r st' s' assume "load_or_init_sync_state st s = Some (r, st', s')"
  moreover have "st\<lparr>co_sync := Some row\<rparr> = st" if "co_sync st = Some row" for row using that by simp
  ultimately show "le st st'"
    by (cases "co_sync st") (auto simp: load_or_init_sync_state_def Let_def le_refl intro!: le_init)
qed

lemma keeps_guard [keeps]: "follows le guard_no_pending_core_reconcile"
  unfolding guard_no_pending_core_reconcile_def by (intro keeps)

lemma keeps_target [keeps]: "follows le (store_target state tip)"
  unfolding store_target_def by (intro keeps keeps_modify le_target)

lemma keeps_verify_target [keeps]: "follows le (verify_or_set_target_tip B state tip)"
  unfolding verify_or_set_target_tip_def by (auto split: option.split intro!: keeps)

lemma keeps_advance [keeps]: "follows le (advance_contiguous_complete_prefix state)"
  unfolding advance_contiguous_complete_prefix_def Let_def by (intro keeps keeps_modify le_cursor)

lemma keeps_conflicts [keeps]: "follows le (guard_same_height_conflicts B h c rows)"
  unfolding guard_same_height_conflicts_def by (intro keeps)

lemma keeps_header_link [keeps]: "follows le (guard_header_link B h prev dcp)"
  unfolding guard_header_link_def Let_def by (auto split: list.split intro!: keeps)

lemma keeps_existing_link [keeps]: "follows le (guard_existing_link B h row dcp)"
  unfolding guard_existing_link_def by (rule keeps)

lemma keeps_clear_link [keeps]: "follows le (clear_resolved_backbone_link_error B S state)"
  unfolding clear_resolved_backbone_link_error_def
  by (auto split: option.split list.split intro!: keeps keeps_modify le_link)

lemma keeps_progress [keeps]: "follows le (update_sync_progress h state)"
  unfolding update_sync_progress_def by (rule keeps_modify) (rule le_progress)

lemma keeps_skip [keeps]: "follows le (try_skip_complete B S h c dcp state)"
  unfolding try_skip_complete_def Let_def by (auto split: list.split intro!: keeps)

lemma keeps_validate [keeps]: "follows le (validate_observation B S h c hdr dcp)"
  unfolding validate_observation_def by (intro keeps)

lemma keeps_observed [keeps]: "follows le m \<Longrightarrow> follows le (write_observed_core_canonical B S h c hdr dcp cb m)"
  unfolding write_observed_core_canonical_def by (intro keeps)

lemma keeps_fetched [keeps]: "follows le (sync_fetched_height B S h c hdr dcp state fetched)"
  unfolding sync_fetched_height_def by (auto split: sum.split prod.split intro!: keeps keeps_modify le_blocks)

lemma keeps_height [keeps]: "follows le (sync_one_height B S h mo dcp state)"
  unfolding sync_one_height_def Let_def by (auto split: option.split list.split prod.split intro!: keeps)

lemma keeps_heights [keeps]: "follows le (sync_heights B S mo dcp hs x)"
  by (induction B S mo dcp hs x rule: sync_heights.induct) (auto split: prod.split intro!: keeps)

lemma keeps_prepare [keeps]: "follows le (prepare_sync_batch B S pin)"
  unfolding prepare_sync_batch_def by (auto intro!: keeps)

lemma keeps_sync [keeps]: "follows le (run_sync_bitcoin_core B S config)"
  unfolding run_sync_bitcoin_core_def sync_heights_in_def by (auto split: option.split prod.split intro!: keeps)

lemma keeps_window_failure [keeps]: "follows le (live_window_invariant_failure B h reason)"
  unfolding live_window_invariant_failure_def by (intro keeps)

lemma keeps_reorg_failure [keeps]: "follows le (reorg_integrity_failure B h reason)"
  unfolding reorg_integrity_failure_def by (intro keeps)

lemma keeps_plan_error [keeps]: "follows le (record_plan_error B view err)"
  unfolding record_plan_error_def by (cases err) (auto intro!: keeps)

lemma keeps_target_hash [keeps]: "follows le (verify_live_backbone_target_hash B S target)"
  unfolding verify_live_backbone_target_hash_def by (intro keeps)

lemma keeps_window_rows [keeps]: "follows le (verify_window_rows B target rows hs prev tip)"
proof (induction hs arbitrary: prev tip)
  case Nil
  show ?case unfolding verify_window_rows.simps verify_live_window_tip_hash_def by (intro keeps)
next
  case (Cons h hs)
  have "follows le (take_single_live_window_row B rows h)"
    unfolding take_single_live_window_row_def by (auto split: list.split intro!: keeps)
  moreover have "follows le (verify_live_window_coinbase B row)" for row
    unfolding verify_live_window_coinbase_def by (intro keeps)
  moreover have "follows le (verify_live_window_prev_link B row prev)" for row
    unfolding verify_live_window_prev_link_def by (auto split: option.split intro!: keeps)
  ultimately show ?case unfolding verify_window_rows.simps by (intro keeps_bind Cons.IH)
qed

lemma keeps_window [keeps]: "follows le (verify_live_backbone_window B S target window)"
  unfolding verify_live_backbone_window_def verify_live_backbone_window_rows_def Let_def by (intro keeps)

lemma keeps_gaps [keeps]: "follows le (repair_near_tip_gaps_to_target B S target window)"
  unfolding repair_near_tip_gaps_to_target_def by (intro keeps)

lemma keeps_capture [keeps]: "follows le (capture_descending B S stop hs hash)"
  by (induction hs arbitrary: hash) (auto simp: Let_def intro!: keeps)

lemma keeps_view [keeps]: "follows le (capture_core_view_until B S target start stop)"
  unfolding capture_core_view_until_def by (intro keeps)

lemma keeps_fetch [keeps]: "follows le (fetch_replacements B S view)"
  by (induction view) (auto intro!: keeps)

lemma keeps_stable [keeps]: "follows le (verify_target_stable B S target)"
  unfolding verify_target_stable_def by (auto split: option.split intro!: keeps)

lemma keeps_bounds [keeps]: "follows le (validate_target_bounds B target cch persisted)"
  unfolding validate_target_bounds_def by (auto split: option.split intro!: keeps)

lemma keeps_cursor_target [keeps]: "follows le (cursor_recovery_target_before_view B S target cch start)"
  unfolding cursor_recovery_target_before_view_def Let_def by (intro keeps)

lemma keeps_accept [keeps]: "follows le (accept_live_repaired_target B S target)"
  unfolding accept_live_repaired_target_def
  by (auto split: option.split intro!: keeps keeps_modify le_accept)

lemma keeps_retry [keeps]: "follows le (record_retryable_repair B target reason)"
  unfolding record_retryable_repair_def Let_def by (intro keeps)

end

text \<open>Repairs follow the order as well, where a replaced suffix does that does not end below the cursor.\<close>

locale repair_order = backbone_order +
  fixes B :: backbone_env and S :: "'s backbone_source" and K :: "'s configured_classifier"
  assumes le_drain: "follows le (drain_core_queue B K)"
    and le_replace: "rs \<noteq> [] \<Longrightarrow> cch \<le> cc_height (last rs) \<Longrightarrow> follows le (bb_replace_suffix B S cch anc rows rs target rt)"
begin

lemma keeps_planned:
  assumes "i < length view" "cch \<le> vr_height (last view)"
  shows "follows le (replace_planned_suffix B S K target cch view rows i)"
proof -
  have last: "rs \<noteq> [] \<and> cch \<le> cc_height (last rs)"
    if "fetch_replacements B S (drop i view) st s = Some (Inr rs, st1, s1)" for st s rs st1 s1
  proof -
    have m: "map cc_height rs = map vr_height (drop i view)" using fetch_replacements_rows [OF that] by blast
    from arg_cong [OF m, of length] have ne: "rs \<noteq> []" using assms(1) by auto
    from arg_cong [OF m, of last] have "cc_height (last rs) = vr_height (last view)"
      using ne assms(1) by (simp add: last_map last_drop)
    with ne assms(2) show ?thesis by simp
  qed
  show ?thesis
    unfolding replace_planned_suffix_def Let_def
    by (rule keeps_bind_when [where P = "\<lambda>rs. rs \<noteq> [] \<and> cch \<le> cc_height (last rs)", OF keeps_fetch last])
      (auto intro!: keeps le_drain le_replace)
qed

lemma view_end:
  assumes "capture_core_view_until B S target start stop st s = Some (Inr view, st1, s1)" "start \<le> bt_height target"
  shows "view \<noteq> [] \<and> vr_height (last view) = bt_height target"
  using capture_until_chain [OF assms] by (simp add: core_chain_def)

lemma plan_index: "plan_repair view rows = Inr (ReplaceFrom i) \<Longrightarrow> i < length view"
  using plan_repair_cases(2) [of view rows i] by auto

lemma view_start_le: "0 \<le> h \<Longrightarrow> 1 \<le> w \<Longrightarrow> core_view_start_height h w \<le> h"
  by (auto simp: core_view_start_height_def live_backbone_window_start_height_def sat_i32_def)

lemma keeps_cursor_repair:
  assumes w: "1 \<le> window"
  shows "follows le (repair_cursor_before_view B S K target window cch start)"
  unfolding repair_cursor_before_view_def Let_def
proof (rule keeps_bind_when [where P = "\<lambda>ct. \<forall>t. ct = Some t \<longrightarrow> 0 \<le> cch \<and> bt_height t = cch", OF keeps_cursor_target])
  show "\<forall>t. a = Some t \<longrightarrow> 0 \<le> cch \<and> bt_height t = cch"
    if "cursor_recovery_target_before_view B S target cch start st s = Some (Inr a, st1, s1)" for st s a st1 s1
    using that unfolding cursor_recovery_target_before_view_def Let_def reorg_integrity_failure_def
    by (auto simp: bb_simps split: if_splits)
  fix ct :: "backbone_tip option" assume ct: "\<forall>t. ct = Some t \<longrightarrow> 0 \<le> cch \<and> bt_height t = cch"
  show "follows le (case ct of None \<Rightarrow> bb_ok NotNeeded
     | Some cursor_target \<Rightarrow>
         bb_bind bb_get (\<lambda>st.
         bb_bind (capture_cursor_recovery_view B S cursor_target (core_view_start_height (bt_height cursor_target) window)
            (load_local_canonical_rows (db_blocks (co_db st)) (core_view_start_height (bt_height cursor_target) window) (bt_height cursor_target))) (\<lambda>cursor_view.
         bb_bind (verify_target_stable B S target) (\<lambda>_.
         bb_bind (verify_target_stable B S cursor_target) (\<lambda>_.
         case plan_repair cursor_view (load_local_canonical_rows (db_blocks (co_db st)) (core_view_start_height (bt_height cursor_target) window) (bt_height cursor_target)) of
           Inl err \<Rightarrow> record_plan_error B ''cursor'' err
         | Inr NoHashConflict \<Rightarrow> bb_ok Replan
         | Inr (ReplaceFrom i) \<Rightarrow>
             bb_bind (replace_planned_suffix B S K target cch cursor_view (load_local_canonical_rows (db_blocks (co_db st)) (core_view_start_height (bt_height cursor_target) window) (bt_height cursor_target)) i) (\<lambda>stats.
             bb_ok (Replaced stats)))))))"
  proof (cases ct)
    case None
    then show ?thesis by (simp add: keeps_ok)
  next
    case (Some t)
    with ct have t: "0 \<le> bt_height t" "bt_height t = cch" by auto
    show ?thesis
      unfolding Some option.case capture_cursor_recovery_view_def
      by (intro keeps_bind [OF keeps_get] keeps_bind_when [where P = "\<lambda>v. v \<noteq> [] \<and> vr_height (last v) = bt_height t", OF keeps_view]
            view_end [OF _ view_start_le [OF t(1) w]])
        (auto split: sum.split repair_plan.split intro!: keeps keeps_planned dest: plan_index simp: t(2))
  qed
qed

lemma keeps_view_pass:
  assumes w: "1 \<le> window" and cch: "cch \<le> bt_height target"
  shows "follows le (view_pass B S K target window cch start flags)"
proof -
  have gap: "follows le (gap_pass B S target window flags)"
    by (rule followsI) (auto simp: gap_pass_def dest: followsD [OF keeps_gaps] split: option.splits prod.splits)
  show ?thesis
  proof (cases "0 \<le> bt_height target")
    case True
    show ?thesis
      unfolding view_pass_def capture_core_view_def Let_def
      by (rule keeps_bind_when [where P = "\<lambda>v. v \<noteq> [] \<and> vr_height (last v) = bt_height target",
            OF keeps_view view_end [OF _ view_start_le [OF True w]]])
        (auto split: sum.split repair_plan.split intro!: keeps keeps_planned gap dest: plan_index simp: cch)
  next
    case False
    have none: "view = []" if "capture_core_view B S target window st s = Some (Inr view, st1, s1)" for st s view st1 s1
    proof -
      have "\<not> core_view_start_height (bt_height target) window \<le> bt_height target"
        using False by (auto simp: core_view_start_height_def)
      then show ?thesis using that by (simp add: capture_core_view_def capture_core_view_until_def bb_simps)
    qed
    have cap: "follows le (capture_core_view B S target window)" unfolding capture_core_view_def by (rule keeps)
    have "follows le (view_pass B S K target window cch start flags)"
      unfolding view_pass_def Let_def
      by (rule keeps_bind_when [where P = "\<lambda>v. v = []", OF cap none])
        (auto simp: plan_repair_def position_def intro!: keeps gap)
    then show ?thesis .
  qed
qed

lemma keeps_pass:
  assumes w: "1 \<le> window"
  shows "follows le (repair_pass B S K target window flags)"
proof -
  have bound: "cch \<le> bt_height target"
    if "validate_target_bounds B target cch persisted st s = Some (Inr u, st1, s1)" for cch persisted st s u st1 s1
    using that unfolding validate_target_bounds_def reorg_integrity_failure_def
    by (auto simp: bb_simps split: if_splits option.splits)
  show ?thesis
    unfolding repair_pass_def Let_def
    by (intro keeps_bind [OF keeps_init] keeps_bind_when [where P = "\<lambda>_. _ \<le> bt_height target", OF keeps_bounds bound]
          keeps_bind [OF keeps_cursor_repair [OF w]])
      (auto split: cursor_repair_outcome.split intro!: keeps keeps_view_pass w)
qed

lemma keeps_loop:
  assumes "1 \<le> window"
  shows "follows le (repair_near_tip_backbone_to_target B S K target window)"
proof (rule followsI)
  fix st s r st' s' assume "repair_near_tip_backbone_to_target B S K target window st s = Some (r, st', s')"
  then have l: "repair_loop B S K target window \<lparr>rf_may_replan_after_gap_conflict = True,
      rf_may_replan_after_cursor_race = True, rf_stats = zero_stats\<rparr> st s = Some (r, st', s')"
    by (simp add: repair_near_tip_backbone_to_target_def)
  have "(\<forall>flags. follows le (repair_pass B S K target window flags)) \<longrightarrow> le st (fst (snd (r, st', s')))"
  proof (rule repair_loop.raw_induct [where P = "\<lambda>B S K target window flags st s y.
        (\<forall>flags. follows le (repair_pass B S K target window flags)) \<longrightarrow> le st (fst (snd y))", OF _ l], goal_cases)
    case (1 rl B S K t w fl st s y)
    show ?case
    proof
      assume f: "\<forall>flags. follows le (repair_pass B S K t w flags)"
      obtain q st1 s1 where p: "repair_pass B S K t w fl st s = Some (q, st1, s1)"
        using 1(2) by (cases "repair_pass B S K t w fl st s") auto
      have le1: "le st st1" by (rule followsD [OF spec [OF f] p])
      show "le st (fst (snd y))"
      proof (cases "\<exists>fl1. q = Inr (Again fl1)")
        case True
        then obtain fl1 where "rl B S K t w fl1 st1 s1 = Some y" using 1(2) p by auto
        then have "le st1 (fst (snd y))" using 1(1) f by blast
        then show ?thesis by (rule le_trans [OF le1])
      next
        case False
        then have "fst (snd y) = st1" using 1(2) p by (auto split: sum.split_asm repair_pass_outcome.split_asm)
        then show ?thesis using le1 by simp
      qed
    qed
  qed
  then show "le st st'" using keeps_pass [OF assms] by simp
qed

lemma keeps_repair_and_accept: "1 \<le> window \<Longrightarrow> follows le (repair_and_accept B S K target window)"
  unfolding repair_and_accept_def by (auto intro!: keeps keeps_loop)

lemma keeps_if_due:
  assumes "1 \<le> window"
  shows "follows le (repair_near_tip_backbone_if_due B S K schedule window now1 now2)"
proof (rule followsI)
  fix st s r st' s'
  assume m: "repair_near_tip_backbone_if_due B S K schedule window now1 now2 st s = Some (r, st', s')"
  have rec: "le a b" if "bb_bind (record_retryable_repair B t reason) (\<lambda>_. bb_ok x) a c = Some (q, b, d)"
    for t reason x a c q b d
  proof -
    have "follows le (bb_bind (record_retryable_repair B t reason) (\<lambda>_. bb_ok x))" by (intro keeps)
    from followsD [OF this that] show ?thesis .
  qed
  show "le st st'"
  proof (cases "skipped_timestamp now1 schedule")
    case (Some stamp)
    with m show ?thesis by (simp add: repair_near_tip_backbone_if_due_def le_refl)
  next
    case None
    obtain t s1 where t: "so_tip S s = (t, s1)" by fastforce
    show ?thesis
    proof (cases t)
      case (Inl e)
      with m None t show ?thesis
        by (auto simp: repair_near_tip_backbone_if_due_def le_refl dest: rec split: if_splits)
    next
      case (Inr target)
      with m None t obtain q st2 s2 where q: "repair_and_accept B S K target window st s1 = Some (q, st2, s2)"
        by (cases "repair_and_accept B S K target window st s1") (auto simp: repair_near_tip_backbone_if_due_def)
      have le2: "le st st2" by (rule followsD [OF keeps_repair_and_accept [OF assms] q])
      have "st' = st2 \<or> le st2 st'"
        using m None t Inr q
        by (auto simp: repair_near_tip_backbone_if_due_def dest: rec split: sum.split_asm bool.split_asm)
      then show ?thesis using le2 le_trans by blast
    qed
  qed
qed

end

section \<open>Ticks\<close>

definition tick_follows :: "(core_state \<Rightarrow> core_state \<Rightarrow> bool) \<Rightarrow> ('s, 'a) live_io \<Rightarrow> bool" where
  "tick_follows le m \<longleftrightarrow> (\<forall>p st s r p' st' s'. 1 \<le> sc_near_tip_repair_window_heights (lp_config p) \<longrightarrow>
     m p st s = Some (r, p', st', s') \<longrightarrow> le st st' \<and> lp_config p' = lp_config p)"

context repair_order
begin

lemma tick_return: "tick_follows le (live_return r)"
  by (simp add: tick_follows_def live_return_def le_refl)

lemma tick_do:
  assumes "follows le m" "\<And>r. tick_follows le (f r)"
  shows "tick_follows le (live_do m f)"
  unfolding tick_follows_def
proof (intro allI impI)
  fix p st s r p' st' s'
  assume w: "1 \<le> sc_near_tip_repair_window_heights (lp_config p)" and m: "live_do m f p st s = Some (r, p', st', s')"
  obtain q st1 s1 where q: "m st s = Some (q, st1, s1)" "f q p st1 s1 = Some (r, p', st', s')"
    using m by (auto simp: live_do_def split: option.splits prod.splits)
  have "le st1 st' \<and> lp_config p' = lp_config p" using assms(2) w q(2) unfolding tick_follows_def by blast
  then show "le st st' \<and> lp_config p' = lp_config p" using le_trans [OF followsD [OF assms(1) q(1)]] by blast
qed

lemma tick_repair:
  assumes "\<And>r. tick_follows le (f r)"
  shows "tick_follows le (repair_near_tip B S K schedule now1 now2 f)"
  unfolding tick_follows_def
proof (intro allI impI)
  fix p st s r p' st' s'
  assume w: "1 \<le> sc_near_tip_repair_window_heights (lp_config p)"
    and m: "repair_near_tip B S K schedule now1 now2 f p st s = Some (r, p', st', s')"
  let ?m = "repair_near_tip_backbone_if_due B S K schedule (sc_near_tip_repair_window_heights (lp_config p)) now1 now2"
  obtain q st1 s1 where q: "?m st s = Some (q, st1, s1)" using m by (auto simp: repair_near_tip_def live_do_def split: option.splits)
  have le1: "le st st1" by (rule followsD [OF keeps_if_due [OF w] q])
  obtain r1 p1 where p1: "f r1 p1 st1 s1 = Some (r, p', st', s')" "lp_config p1 = lp_config p"
  proof (cases q)
    case (Inl e)
    with m q that [of "Inl e" p] show thesis by (simp add: repair_near_tip_def live_do_def)
  next
    case (Inr x)
    with m q that [of "Inr (snd x)" "p\<lparr>lp_last_near_tip_repair_at := fst x\<rparr>"] show thesis
      by (cases x) (simp add: repair_near_tip_def live_do_def)
  qed
  then have "le st1 st' \<and> lp_config p' = lp_config p" using assms w unfolding tick_follows_def by metis
  then show "le st st' \<and> lp_config p' = lp_config p" using le_trans [OF le1] by blast
qed

lemma tick_get: "(\<And>p st. tick_follows le (f p st)) \<Longrightarrow> tick_follows le (live_get f)"
  unfolding tick_follows_def live_get_def by blast

lemma keeps_tick:
  assumes "follows le (te_refresh T)" "follows le (te_drain_relationships T)"
  shows "tick_follows le (live_tick B S K T)"
proof -
  have finish: "tick_follows le (finish_tick T before completed)" for before completed
    unfolding finish_tick_def Let_def
    by (auto split: option.split sum.split intro!: tick_get tick_return tick_do [OF assms(2)])
  have after: "tick_follows le (after_batch T before batch)" for before batch
    unfolding after_batch_def
    by (auto split: bool.split sum.split intro!: tick_get tick_return tick_do [OF assms(1)] finish)
  have batch: "tick_follows le (live_batch B S K T before)" for before
    unfolding live_batch_def
    by (auto split: bool.split sum.split intro!: tick_get tick_return tick_do keeps_sync tick_repair after)
  show ?thesis
    unfolding live_tick_def
    by (auto split: option.split bool.split sum.split
        intro!: tick_get tick_return tick_do le_drain tick_repair batch keeps)
qed

end

section \<open>The cursor and the queue\<close>

definition cursor :: "core_state \<Rightarrow> int" where
  "cursor st = (case co_sync st of Some row \<Rightarrow> ss_contiguous_complete_height row | None \<Rightarrow> -1)"

definition queue_keyed :: "core_state \<Rightarrow> bool" where
  "queue_keyed st = distinct (map qr_hash (co_queue st))"

definition cursor_le :: "core_state \<Rightarrow> core_state \<Rightarrow> bool" where
  "cursor_le st st' \<longleftrightarrow> cursor st \<le> cursor st'"

definition keys_kept :: "core_state \<Rightarrow> core_state \<Rightarrow> bool" where
  "keys_kept st st' \<longleftrightarrow> (queue_keyed st \<longrightarrow> queue_keyed st')"

interpretation cu: backbone_order cursor_le
  by unfold_locales
    (auto simp: cursor_le_def cursor_def write_sync_error_def clear_link_error_def write_sync_progress_def Let_def
      accept_target_row_def fresh_sync_row_def split: option.splits)

interpretation qu: backbone_order keys_kept
  by unfold_locales
    (auto simp: keys_kept_def queue_keyed_def clear_link_error_def write_sync_progress_def)

lemma clear_pending_cursor:
  assumes "clear_pending_error_in_transaction rows sync = Inr sync'"
  shows "map_option ss_contiguous_complete_height sync' = map_option ss_contiguous_complete_height sync"
  using assms unfolding clear_pending_error_in_transaction_def
  by (auto simp: result_simps split: if_splits option.splits)

lemma cursor_cong:
  "map_option ss_contiguous_complete_height (co_sync st') = map_option ss_contiguous_complete_height (co_sync st) \<Longrightarrow>
     cursor st' = cursor st"
  by (cases "co_sync st"; cases "co_sync st'") (simp_all add: cursor_def)

lemma expand_cursor: "expand_core_reconcile_work now w st = Inr st' \<Longrightarrow> cursor st' = cursor st"
  unfolding expand_core_reconcile_work_def
  by (rule cursor_cong) (auto simp: result_simps Let_def dest: clear_pending_cursor split: option.split_asm if_split_asm)

lemma strict_cursor: "reconcile_one_block_strict E K now w st s = (Inr st', s') \<Longrightarrow> cursor st' = cursor st"
  unfolding reconcile_one_block_strict_def rm_bind_def rm_pure_def cursor_def
  by (auto split: prod.split_asm sum.split_asm)

lemma core_drain_kept:
  assumes "core_drain_loop E K clock budget unlimited parents items st s = Some y"
  shows "cursor (fst (snd y)) = cursor st \<and> (queue_keyed st \<longrightarrow> queue_keyed (fst (snd y)))"
  using assms
proof (rule core_drain_loop.raw_induct [where P = "\<lambda>E K clock budget unlimited parents items st s y.
      cursor (fst (snd y)) = cursor st \<and> (queue_keyed st \<longrightarrow> queue_keyed (fst (snd y)))", rotated], goal_cases)
  case (1 loop E K clock budget unlimited parents items st s y)
  show ?case
  proof (cases "load_next_core_reconcile_work (co_queue st)")
    case None
    show ?thesis
    proof (cases "clear_pending_error_in_transaction (co_queue st) (co_sync st)")
      case (Inl e)
      with None 1(2) show ?thesis by auto
    next
      case (Inr sync)
      with None 1(2) have y: "y = (Inr True, st\<lparr>co_sync := sync\<rparr>, s)" by auto
      have "cursor (st\<lparr>co_sync := sync\<rparr>) = cursor st" by (rule cursor_cong) (simp add: clear_pending_cursor [OF Inr])
      then show ?thesis by (simp add: y queue_keyed_def)
    qed
  next
    case (Some w)
    note w = next_work_in [OF Some]
    show ?thesis
    proof (cases "(\<not> unlimited \<and> budget \<le> items) \<or> (qr_primary_pending w \<and> budget \<le> parents)")
      case True
      with 1(2) Some show ?thesis by (auto split: if_splits)
    next
      case go: False
      show ?thesis
      proof (cases "qr_primary_pending w")
        case True
        obtain x s1 where x: "reconcile_one_block_strict E K (clock items) w st s = (x, s1)" by fastforce
        show ?thesis
        proof (cases x)
          case (Inl e)
          with 1(2) Some True go x show ?thesis by auto
        next
          case (Inr st1)
          with 1(2) Some True go x have "loop E K clock budget unlimited (parents + 1) (items + 1) st1 s1 = Some y" by auto
          from 1(1) [OF this] strict_cursor [OF x [unfolded Inr]] strict_distinct [OF x [unfolded Inr]]
          show ?thesis by (auto simp: queue_keyed_def)
        qed
      next
        case False
        show ?thesis
        proof (cases "expand_core_reconcile_work (clock items) w st")
          case (Inl e)
          with 1(2) Some False go show ?thesis by auto
        next
          case (Inr st1)
          with 1(2) Some False go have "loop E K clock budget unlimited parents (items + 1) st1 s = Some y" by auto
          from 1(1) [OF this] expand_cursor [OF Inr] expand_view(1) [OF _ w False Inr]
          show ?thesis by (auto simp: queue_keyed_def)
        qed
      qed
    qed
  qed
qed

lemma drain_kept:
  assumes "drain_core_queue B K st s = Some (r, st', s')"
  shows "cursor st' = cursor st \<and> (queue_keyed st \<longrightarrow> queue_keyed st')"
proof -
  have "\<exists>E clock budget unlimited q. core_drain_loop E K clock budget unlimited 0 0 st s = Some (q, st', s')"
    using assms unfolding drain_core_queue_def drain_core_reconcile_queue_batch_def drain_core_reconcile_queue_def
      drain_core_reconcile_queue_with_budget_def drain_core_reconcile_queue_up_to_def
    by (auto split: if_splits option.splits prod.splits sum.splits) blast+
  then show ?thesis using core_drain_kept by fastforce
qed

lemma replace_keys:
  assumes "bb_replace_suffix B S cch anc rows rs target rt st s = Some (r, st', s')"
  shows "queue_keyed st \<longrightarrow> queue_keyed st'"
proof (cases r)
  case (Inl e)
  then have "st' = st" using assms unfolding bb_replace_suffix_def
    by (auto split: prod.split_asm sum.split_asm replace_error.split_asm)
  then show ?thesis by simp
next
  case (Inr summary)
  from bb_replace_ok [OF assms [unfolded Inr]] obtain hs where
    "co_queue st' = enqueue_core_reconcile_hashes (be_clock B 0) hs True (co_queue st)" by (rule replace_cases)
  then show ?thesis using enqueue_hashes_view(1) [of "co_queue st"] by (simp add: queue_keyed_def)
qed

lemma replace_kept:
  assumes "rs \<noteq> []" "cch \<le> cc_height (last rs)"
    and "bb_replace_suffix B S cch anc rows rs target rt st s = Some (r, st', s')"
  shows "cursor st \<le> cursor st'"
proof (cases r)
  case (Inl e)
  then have "st' = st" using assms(3) unfolding bb_replace_suffix_def
    by (auto split: prod.split_asm sum.split_asm replace_error.split_asm)
  then show ?thesis by simp
next
  case (Inr summary)
  let ?plan = "plan_suffix_mutation (be_rm B) (load_locked_canonical_rows (db_blocks (co_db st)) anc (cc_height (last rs))) rs"
  from bb_replace_ok [OF assms(3) [unfolded Inr]] obtain row row1 sync where
    m: "co_sync st = Some row" "ss_contiguous_complete_height row = cch"
      "mark_replacement_pending (be_show B) (suffix_pending (be_rm B) anc rs cch ?plan sync) row = Inr row1" "co_sync st' = Some row1"
    by (rule replace_cases)
  then show ?thesis using mark_fields(1) [OF m(3)] assms(2) by (simp add: cursor_def suffix_pending_def Let_def)
qed

interpretation cu: repair_order cursor_le B S K for B S K
  by unfold_locales (auto simp: cursor_le_def follows_def dest: drain_kept replace_kept)

interpretation qu: repair_order keys_kept B S K for B S K
  by unfold_locales (auto simp: keys_kept_def follows_def dest: drain_kept replace_keys)

section \<open>Ticks return\<close>

definition ends :: "('s, 'a) backbone \<Rightarrow> bool" where
  "ends m \<longleftrightarrow> (\<forall>st s. queue_keyed st \<longrightarrow> (\<exists>r st' s'. m st s = Some (r, st', s') \<and> queue_keyed st'))"

lemma endsI: "(\<And>st s. queue_keyed st \<Longrightarrow> \<exists>r st' s'. m st s = Some (r, st', s') \<and> queue_keyed st') \<Longrightarrow> ends m"
  by (auto simp: ends_def)

lemma endsE:
  assumes "ends m" "queue_keyed st"
  obtains r st' s' where "m st s = Some (r, st', s')" "queue_keyed st'"
  using assms unfolding ends_def by blast

lemma ends_total: "ends m \<Longrightarrow> queue_keyed st \<Longrightarrow> \<exists>r st' s'. m st s = Some (r, st', s') \<and> queue_keyed st'"
  by (auto simp: ends_def)

named_theorems ended "commands that return a result from a keyed queue"

lemma ends_ok [ended]: "ends (bb_ok a)" and ends_err [ended]: "ends (bb_err e)" and ends_get [ended]: "ends bb_get"
  by (simp_all add: ends_def bb_simps)

lemma ends_source [ended]: "ends (bb_source m)"
  by (auto simp: ends_def bb_source_def split: prod.split sum.split)

lemma ends_attempt [ended]: "ends (bb_attempt m)"
  by (auto simp: ends_def bb_attempt_def split: prod.split)

lemma ends_if [ended]: "(b \<Longrightarrow> ends m) \<Longrightarrow> (\<not> b \<Longrightarrow> ends n) \<Longrightarrow> ends (if b then m else n)"
  by simp

lemma ends_bind [ended]:
  assumes "ends m" "\<And>a. ends (f a)"
  shows "ends (bb_bind m f)"
proof (rule endsI)
  fix st :: core_state and s :: 'a assume k: "queue_keyed st"
  obtain r st1 s1 where m: "m st s = Some (r, st1, s1)" "queue_keyed st1" using assms(1) k by (rule endsE)
  show "\<exists>r st' s'. bb_bind m f st s = Some (r, st', s') \<and> queue_keyed st'"
  proof (cases r)
    case (Inl e)
    with m show ?thesis by (simp add: bb_bind_def)
  next
    case (Inr a)
    with m assms(2) [of a] show ?thesis by (auto simp: bb_bind_def ends_def)
  qed
qed

lemma ends_modify: "(\<And>st. co_queue (f st) = co_queue st) \<Longrightarrow> ends (bb_modify f)"
  by (simp add: ends_def bb_simps queue_keyed_def)

lemma ends_transaction [ended]:
  assumes "ends m"
  shows "ends (bb_transaction m)"
proof (rule endsI)
  fix st :: core_state and s :: 'a assume k: "queue_keyed st"
  obtain r st1 s1 where m: "m st s = Some (r, st1, s1)" "queue_keyed st1" using assms k by (rule endsE)
  then show "\<exists>r st' s'. bb_transaction m st s = Some (r, st', s') \<and> queue_keyed st'"
    using k by (cases r) (auto simp: bb_transaction_def)
qed

lemma ends_write [ended]: "ends (bb_write f)"
  by (auto simp: ends_def bb_write_def queue_keyed_def split: sum.split)

lemma ends_cascade [ended]: "ends (bb_cascade B hs)"
proof (rule endsI)
  fix st :: core_state and s :: 'a assume "queue_keyed st"
  moreover obtain r db' s' where
    "reconcile_dependents_after_changes_with_budget (be_rm B) ClassifierOff hs default_cascade_budget (co_db st) s = Some (r, db', s')"
  proof -
    obtain q n where f: "fold (enqueue_dependents (co_db st) [] []) hs
        ([], \<lparr>rs_parents_reconciled = 0, rs_descendants_reconciled = 0\<rparr>) = (q, n)" by fastforce
    from cascade_returns [of "be_rm B" ClassifierOff default_cascade_budget q "co_db st" s] that show thesis
      unfolding reconcile_dependents_after_changes_with_budget_def f by (cases "q = []") auto
  qed
  ultimately show "\<exists>r st' s'. bb_cascade B hs st s = Some (r, st', s') \<and> queue_keyed st'"
    by (cases r) (auto simp: bb_cascade_def queue_keyed_def)
qed

lemma ends_persist [ended]: "ends (update_sync_error B h code reason)"
  unfolding update_sync_error_def by (rule ends_modify) simp

lemma ends_persist_and_fail [ended]: "ends (persist_and_fail B f)"
  unfolding persist_and_fail_def persist_def by (intro ended)

lemma ends_persist_after [ended]:
  fixes m :: "('s, 'a) backbone"
  assumes "ends m"
  shows "ends (persist_after B m)"
proof (rule endsI)
  fix st :: core_state and s :: 's assume k: "queue_keyed st"
  obtain r st1 s1 where m: "m st s = Some (r, st1, s1)" "queue_keyed st1" using assms k by (rule endsE)
  show "\<exists>r st' s'. persist_after B m st s = Some (r, st', s') \<and> queue_keyed st'"
  proof (cases "\<exists>f. r = Inl (FailureError f)")
    case True
    then obtain f where f: "r = Inl (FailureError f)" ..
    obtain q :: "(backbone_error, 'a) result" and st2 s2 where
      q: "persist_and_fail B f st1 s1 = Some (q, st2, s2)" "queue_keyed st2"
      using ends_persist_and_fail m(2) by (rule endsE)
    then show ?thesis using m f by (simp add: persist_after_def persist_and_fail_def)
  next
    case False
    with m show ?thesis by (auto simp: persist_after_def split: sum.split backbone_error.split)
  qed
qed

lemma ends_init [ended]: "ends load_or_init_sync_state"
  by (auto simp: ends_def load_or_init_sync_state_def queue_keyed_def Let_def)

lemma ends_guard [ended]: "ends guard_no_pending_core_reconcile"
  unfolding guard_no_pending_core_reconcile_def by (intro ended)

lemma ends_advance [ended]: "ends (advance_contiguous_complete_prefix state)"
  unfolding advance_contiguous_complete_prefix_def Let_def by (intro ended ends_modify) simp

lemma ends_conflicts [ended]: "ends (guard_same_height_conflicts B h c rows)"
  unfolding guard_same_height_conflicts_def by (intro ended)

lemma ends_header_link [ended]: "ends (guard_header_link B h prev dcp)"
  unfolding guard_header_link_def Let_def by (auto split: list.split intro!: ended)

lemma ends_existing_link [ended]: "ends (guard_existing_link B h row dcp)"
  unfolding guard_existing_link_def by (rule ended)

lemma ends_progress [ended]: "ends (update_sync_progress h state)"
  unfolding update_sync_progress_def by (rule ends_modify) (simp add: write_sync_progress_def)

lemma ends_prepare [ended]: "ends (prepare_sync_batch B S pin)"
proof -
  have target: "ends (verify_or_set_target_tip B state tip)" for state tip
    unfolding verify_or_set_target_tip_def store_target_def by (auto split: option.split intro!: ended ends_modify)
  have link: "ends (clear_resolved_backbone_link_error B S state)" for state
    unfolding clear_resolved_backbone_link_error_def
    by (auto simp: clear_link_error_def split: option.split list.split intro!: ended ends_modify)
  show ?thesis unfolding prepare_sync_batch_def by (auto intro!: ended target link)
qed

lemma ends_height [ended]: "ends (sync_one_height B S h mo dcp state)"
proof -
  have skip: "ends (try_skip_complete B S h c dcp state)" for c
    unfolding try_skip_complete_def Let_def by (auto split: list.split intro!: ended)
  have validate: "ends (validate_observation B S h c hdr dcp)" for c hdr
    unfolding validate_observation_def by (intro ended)
  have observed: "ends m \<Longrightarrow> ends (write_observed_core_canonical B S h c hdr dcp cb m)" for c hdr cb and m :: "('a, 'b) backbone"
    unfolding write_observed_core_canonical_def by (intro ended validate)
  have fetched: "ends (sync_fetched_height B S h c hdr dcp state fetched)" for c hdr fetched
    unfolding sync_fetched_height_def by (auto split: sum.split prod.split intro!: ended ends_modify observed)
  show ?thesis unfolding sync_one_height_def Let_def by (auto split: option.split list.split prod.split intro!: ended skip fetched)
qed

lemma ends_sync [ended]: "ends (run_sync_bitcoin_core B S config)"
proof -
  have heights: "ends (sync_heights B S mo dcp hs x)" for mo dcp hs x
    by (induction B S mo dcp hs x rule: sync_heights.induct) (auto split: prod.split intro!: ended)
  show ?thesis
    unfolding run_sync_bitcoin_core_def sync_heights_in_def by (auto split: option.split prod.split intro!: ended heights)
qed

lemma ends_window_failure [ended]: "ends (live_window_invariant_failure B h reason)"
  unfolding live_window_invariant_failure_def by (intro ended)

lemma ends_gaps [ended]: "ends (repair_near_tip_gaps_to_target B S target window)"
proof -
  have hash: "ends (verify_live_backbone_target_hash B S target)"
    unfolding verify_live_backbone_target_hash_def by (intro ended)
  show ?thesis unfolding repair_near_tip_gaps_to_target_def by (intro ended hash)
qed

lemma ends_window [ended]: "ends (verify_live_backbone_window B S target window)"
proof -
  have rows: "ends (verify_window_rows B target rows hs prev tip)" for rows hs prev tip
    by (induction B target rows hs prev tip rule: verify_window_rows.induct)
      (auto simp: verify_live_window_tip_hash_def take_single_live_window_row_def verify_live_window_coinbase_def
        verify_live_window_prev_link_def split: list.split option.split intro!: ended)
  show ?thesis
    unfolding verify_live_backbone_window_def verify_live_backbone_window_rows_def verify_live_backbone_target_hash_def Let_def
    by (intro ended rows)
qed

lemma ends_reorg_failure [ended]: "ends (reorg_integrity_failure B h reason)"
  unfolding reorg_integrity_failure_def by (intro ended)

lemma ends_plan_error [ended]: "ends (record_plan_error B view err)"
  unfolding record_plan_error_def by (cases err) (auto intro!: ended)

lemma ends_view [ended]: "ends (capture_core_view_until B S target start stop)"
proof -
  have "ends (capture_descending B S stop hs hash)" for hs hash
    by (induction hs arbitrary: hash) (auto simp: Let_def intro!: ended)
  then show ?thesis unfolding capture_core_view_until_def by (intro ended)
qed

lemma ends_stable [ended]: "ends (verify_target_stable B S target)"
  unfolding verify_target_stable_def by (auto split: option.split intro!: ended)

lemma ends_drain [ended]: "ends (drain_core_queue B K)"
proof (rule endsI)
  fix st :: core_state and s assume k: "queue_keyed st"
  obtain r1 st1 s1 where r1: "core_drain_loop (be_rm B) K (be_clock B) core_recovery_batch False 0 0 st s = Some (r1, st1, s1)"
    using core_drain_loop_returns [OF k [unfolded queue_keyed_def], of "be_rm B" K "be_clock B" core_recovery_batch False 0 0 s]
    by (elim exE conjE)
  obtain r2 st2 s2 where r2: "core_drain_loop (be_rm B) K (be_clock B) default_cascade_budget True 0 0 st s = Some (r2, st2, s2)"
    using core_drain_loop_returns [OF k [unfolded queue_keyed_def], of "be_rm B" K "be_clock B" default_cascade_budget True 0 0 s]
    by (elim exE conjE)
  have "\<exists>r st' s'. drain_core_queue B K st s = Some (r, st', s')"
    unfolding drain_core_queue_def drain_core_reconcile_queue_batch_def drain_core_reconcile_queue_def
      drain_core_reconcile_queue_with_budget_def drain_core_reconcile_queue_up_to_def r1 r2
    by (simp split: sum.split)
  with k drain_kept [of B K st s] show "\<exists>r st' s'. drain_core_queue B K st s = Some (r, st', s') \<and> queue_keyed st'" by blast
qed

lemma ends_replace [ended]: "ends (bb_replace_suffix B S cch anc rows rs target rt)"
proof (rule endsI)
  fix st :: core_state and s assume k: "queue_keyed st"
  have "\<exists>r st' s'. bb_replace_suffix B S cch anc rows rs target rt st s = Some (r, st', s')"
    unfolding bb_replace_suffix_def by (simp split: prod.split sum.split replace_error.split)
  then obtain r st' s' where m: "bb_replace_suffix B S cch anc rows rs target rt st s = Some (r, st', s')" by blast
  show "\<exists>r st' s'. bb_replace_suffix B S cch anc rows rs target rt st s = Some (r, st', s') \<and> queue_keyed st'"
    using m k replace_keys [OF m] by blast
qed

lemma ends_planned [ended]: "ends (replace_planned_suffix B S K target cch view rows i)"
proof -
  have "ends (fetch_replacements B S vs)" for vs by (induction vs) (auto intro!: ended)
  then show ?thesis unfolding replace_planned_suffix_def Let_def by (intro ended)
qed

lemma ends_pass: "ends (repair_pass B S K target window flags)"
proof -
  have bounds: "ends (validate_target_bounds B target cch persisted)" for cch persisted
    unfolding validate_target_bounds_def by (auto split: option.split intro!: ended)
  have before: "ends (cursor_recovery_target_before_view B S target cch start)" for cch start
    unfolding cursor_recovery_target_before_view_def Let_def by (intro ended)
  have repair: "ends (repair_cursor_before_view B S K target window cch start)" for cch start
    unfolding repair_cursor_before_view_def capture_cursor_recovery_view_def Let_def
    by (auto split: option.split sum.split repair_plan.split intro!: ended before)
  have gap: "ends (gap_pass B S target window flags)"
  proof (rule endsI)
    fix st :: core_state and s assume k: "queue_keyed st"
    obtain r st1 s1 where "repair_near_tip_gaps_to_target B S target window st s = Some (r, st1, s1)" "queue_keyed st1"
      using ends_gaps k by (rule endsE)
    then show "\<exists>r st' s'. gap_pass B S target window flags st s = Some (r, st', s') \<and> queue_keyed st'"
      by (simp add: gap_pass_def)
  qed
  have view: "ends (view_pass B S K target window cch start flags)" for cch start
    unfolding view_pass_def capture_core_view_def Let_def
    by (auto split: sum.split repair_plan.split intro!: ended gap)
  show ?thesis
    unfolding repair_pass_def Let_def
    by (auto split: cursor_repair_outcome.split intro!: ended bounds repair view)
qed

text \<open>With a live classifier a pass that asks for another one has spent one of the two flags.\<close>

definition passes_left :: "repair_flags \<Rightarrow> nat" where
  "passes_left flags = (if rf_may_replan_after_gap_conflict flags then 1 else 0) +
     (if rf_may_replan_after_cursor_race flags then 1 else 0)"

definition spends :: "repair_flags \<Rightarrow> ('s, repair_pass_outcome) backbone \<Rightarrow> bool" where
  "spends flags m \<longleftrightarrow> (\<forall>st s fl st' s'. m st s = Some (Inr (Again fl), st', s') \<longrightarrow> passes_left fl < passes_left flags)"

lemma spends_bind: "(\<And>a. spends flags (f a)) \<Longrightarrow> spends flags (bb_bind m f)"
  unfolding spends_def bb_bind_def by (auto split: option.splits prod.splits sum.splits)

lemma spends_finished: "spends flags (bb_ok (Finished stats))" "spends flags (bb_err e)"
  by (simp_all add: spends_def bb_simps)

lemma spends_again: "passes_left fl < passes_left flags \<Longrightarrow> spends flags (bb_ok (Again fl))"
  by (simp add: spends_def bb_simps)

lemma spends_failure: "spends flags (record_plan_error B view err)"
  unfolding record_plan_error_def reorg_integrity_failure_def
  by (cases err) (auto intro!: spends_bind spends_finished)

lemma spends_pass:
  assumes "classifier_is_live K"
  shows "spends flags (repair_pass B S K target window flags)"
proof -
  have gap: "spends flags (gap_pass B S target window flags)"
    unfolding spends_def gap_pass_def
    by (auto simp: passes_left_def split: option.splits prod.splits sum.splits if_splits)
  have view: "spends flags (view_pass B S K target window cch start flags)" for cch start
    unfolding view_pass_def Let_def
    by (intro spends_bind) (auto split: sum.split repair_plan.split intro!: spends_bind spends_finished spends_failure gap)
  show ?thesis
    unfolding repair_pass_def Let_def
    by (intro spends_bind)
      (auto split: cursor_repair_outcome.split intro!: spends_finished spends_again view simp: assms passes_left_def)
qed

lemma ends_loop:
  assumes live: "classifier_is_live K"
  shows "ends (repair_loop B S K target window flags)"
proof (induction "passes_left flags" arbitrary: flags rule: less_induct)
  case less
  show ?case
  proof (rule endsI)
    fix st :: core_state and s assume k: "queue_keyed st"
    obtain r st1 s1 where p: "repair_pass B S K target window flags st s = Some (r, st1, s1)" and k1: "queue_keyed st1"
      using ends_pass k by (rule endsE)
    show "\<exists>r st' s'. repair_loop B S K target window flags st s = Some (r, st', s') \<and> queue_keyed st'"
    proof (cases "\<exists>fl. r = Inr (Again fl)")
      case True
      then obtain fl where r: "r = Inr (Again fl)" ..
      have "passes_left fl < passes_left flags"
        using spends_pass [OF live] p r unfolding spends_def by blast
      from less [OF this] k1 obtain r' st' s' where "repair_loop B S K target window fl st1 s1 = Some (r', st', s')" "queue_keyed st'"
        by (rule endsE)
      then show ?thesis by (subst repair_loop.simps) (simp add: p r)
    next
      case False
      then show ?thesis using p k1
        by (subst repair_loop.simps) (auto split: sum.split repair_pass_outcome.split)
    qed
  qed
qed

lemma ends_accept [ended]: "ends (accept_live_repaired_target B S target)"
  unfolding accept_live_repaired_target_def by (auto split: option.split intro!: ended ends_modify)

lemma ends_retry [ended]: "ends (record_retryable_repair B target reason)"
  unfolding record_retryable_repair_def Let_def by (intro ended)

lemma ends_recorded:
  "queue_keyed st \<Longrightarrow>
     \<exists>r st' s'. bb_bind (record_retryable_repair B t reason) (\<lambda>_. bb_ok x) st s = Some (r, st', s') \<and> queue_keyed st'"
  by (rule ends_total [OF ends_bind [OF ends_retry ends_ok]])

lemma ends_repair_and_accept: "classifier_is_live K \<Longrightarrow> ends (repair_and_accept B S K target window)"
  unfolding repair_and_accept_def repair_near_tip_backbone_to_target_def by (intro ended ends_loop)

lemma ends_if_due:
  assumes live: "classifier_is_live K"
  shows "ends (repair_near_tip_backbone_if_due B S K schedule window now1 now2)"
proof -
  show ?thesis
  proof (rule endsI)
    fix st :: core_state and s assume k: "queue_keyed st"
    show "\<exists>r st' s'. repair_near_tip_backbone_if_due B S K schedule window now1 now2 st s = Some (r, st', s') \<and> queue_keyed st'"
    proof (cases "skipped_timestamp now1 schedule")
      case (Some stamp)
      with k show ?thesis by (simp add: repair_near_tip_backbone_if_due_def)
    next
      case None
      obtain t s1 where t: "so_tip S s = (t, s1)" by fastforce
      show ?thesis
      proof (cases t)
        case (Inl e)
        with t k None show ?thesis by (auto simp: repair_near_tip_backbone_if_due_def simp del: ex_simps intro!: ends_recorded)
      next
        case (Inr target)
        obtain r st2 s2 where r: "repair_and_accept B S K target window st s1 = Some (r, st2, s2)" and k2: "queue_keyed st2"
          using ends_repair_and_accept [OF live] k by (rule endsE)
        obtain h where h: "handle_near_tip_repair_result r = h" by blast
        note eq = repair_near_tip_backbone_if_due_def None t Inr r h
        show ?thesis
        proof (cases h)
          case (Inl e)
          with k2 show ?thesis by (simp add: eq)
        next
          case (Inr b)
          with k2 show ?thesis by (cases b) (auto simp: eq simp del: ex_simps intro!: ends_recorded)
        qed
      qed
    qed
  qed
qed

definition tick_ends :: "('s, 'a) live_io \<Rightarrow> bool" where
  "tick_ends m \<longleftrightarrow> (\<forall>p st s. queue_keyed st \<longrightarrow> (\<exists>r p' st' s'. m p st s = Some (r, p', st', s') \<and> queue_keyed st'))"

lemma tick_ends_return: "tick_ends (live_return r)"
  by (simp add: tick_ends_def live_return_def)

lemma tick_ends_get: "(\<And>p st. tick_ends (f p st)) \<Longrightarrow> tick_ends (live_get f)"
  unfolding tick_ends_def live_get_def by blast

lemma tick_ends_do:
  assumes "ends m" "\<And>r. tick_ends (f r)"
  shows "tick_ends (live_do m f)"
  unfolding tick_ends_def
proof (intro allI impI)
  fix p st s assume k: "queue_keyed st"
  obtain r st1 s1 where "m st s = Some (r, st1, s1)" "queue_keyed st1" using assms(1) k by (rule endsE)
  then show "\<exists>r p' st' s'. live_do m f p st s = Some (r, p', st', s') \<and> queue_keyed st'"
    using assms(2) unfolding live_do_def tick_ends_def by simp
qed

lemma tick_ends_repair:
  assumes "classifier_is_live K" "\<And>r. tick_ends (f r)"
  shows "tick_ends (repair_near_tip B S K schedule now1 now2 f)"
proof -
  have f: "\<exists>r p' st' s'. f q p st s = Some (r, p', st', s') \<and> queue_keyed st'" if "queue_keyed st" for q p st s
    using assms(2) that unfolding tick_ends_def by blast
  show ?thesis
    unfolding tick_ends_def
  proof (intro allI impI)
    fix p :: live_producer and st s assume k: "queue_keyed st"
    obtain r st1 s1 where "repair_near_tip_backbone_if_due B S K schedule
        (sc_near_tip_repair_window_heights (lp_config p)) now1 now2 st s = Some (r, st1, s1)" "queue_keyed st1"
      using ends_if_due [OF assms(1)] k by (rule endsE)
    then show "\<exists>r p' st' s'. repair_near_tip B S K schedule now1 now2 f p st s = Some (r, p', st', s') \<and> queue_keyed st'"
      using f [of st1] by (cases r) (auto simp: repair_near_tip_def live_do_def simp del: ex_simps)
  qed
qed

lemma ends_tick:
  assumes "classifier_is_live K" "ends (te_refresh T)" "ends (te_drain_relationships T)"
  shows "tick_ends (live_tick B S K T)"
proof -
  have finish: "tick_ends (finish_tick T before completed)" for before completed
    unfolding finish_tick_def Let_def
    by (auto split: option.split sum.split intro!: tick_ends_get tick_ends_return tick_ends_do [OF assms(3)])
  have after: "tick_ends (after_batch T before batch)" for before batch
    unfolding after_batch_def
    by (auto split: bool.split sum.split intro!: tick_ends_get tick_ends_return tick_ends_do [OF assms(2)] finish)
  have batch: "tick_ends (live_batch B S K T before)" for before
    unfolding live_batch_def
    by (auto split: bool.split sum.split
        intro!: tick_ends_get tick_ends_return tick_ends_do ends_sync tick_ends_repair [OF assms(1)] after)
  show ?thesis
    unfolding live_tick_def
    by (auto split: option.split bool.split sum.split
        intro!: tick_ends_get tick_ends_return tick_ends_do tick_ends_repair [OF assms(1)] batch ended)
qed

section \<open>The supervised producer\<close>

lemma tick_cycle_config: "tick_cycle res p = (Inr x, p') \<Longrightarrow> lp_config p' = lp_config p"
  unfolding tick_cycle_def wait_after_live_tick_def
  by (auto simp: Let_def split: sum.split_asm option.split_asm prod.split_asm if_split_asm)

text \<open>A tick whose two callbacks keep the cursor moves it forward or not at all.\<close>

lemma live_step_cursor:
  assumes "live_step B S K refresh relationships hash r r'" "follows cursor_le refresh" "follows cursor_le relationships"
    and "1 \<le> sc_near_tip_repair_window_heights (lp_config (lr_producer r))"
  shows "cursor_le (lr_tables r) (lr_tables r') \<and> lp_config (lr_producer r') = lp_config (lr_producer r)"
  using assms(1)
proof cases
  case (1 now res p1 st1 s1 cycle normal p2 wall f1 delay transition)
  have "tick_follows cursor_le (live_tick B S K \<lparr>te_refresh = refresh, te_drain_relationships = relationships, te_now = now\<rparr>)"
    by (rule cu.keeps_tick) (simp_all add: assms)
  then have "cursor_le (lr_tables r) st1" "lp_config p1 = lp_config (lr_producer r)"
    using 1(2) assms(4) unfolding tick_follows_def by blast+
  then show ?thesis using tick_cycle_config [OF 1(3)] 1(1) by simp
qed

lemma live_step_keyed:
  assumes "live_step B S K refresh relationships hash r r'" "classifier_is_live K" "ends refresh" "ends relationships"
    and "queue_keyed (lr_tables r)"
  shows "queue_keyed (lr_tables r')"
  using assms(1)
proof cases
  case (1 now res p1 st1 s1 cycle normal p2 wall f1 delay transition)
  have "tick_ends (live_tick B S K \<lparr>te_refresh = refresh, te_drain_relationships = relationships, te_now = now\<rparr>)"
    by (rule ends_tick) (simp_all add: assms)
  then have "\<exists>res' p' st' s'. live_tick B S K \<lparr>te_refresh = refresh, te_drain_relationships = relationships, te_now = now\<rparr>
     (lr_producer r) (lr_tables r) (lr_outside r) = Some (res', p', st', s') \<and> queue_keyed st'"
    using assms(5) unfolding tick_ends_def by blast
  then show ?thesis using 1(1,2) by simp
qed

text \<open>C3: However many ticks the Bitcoin Core producer runs, on any answers of the node, and whatever reorganisations it
  repairs on the way, its contiguous-completeness cursor never moves back.  The cache refresh and the
  relationship drain are assumed not to lower it.\<close>

theorem cursor_never_moves_back:
  assumes "(live_step B S K refresh relationships hash)\<^sup>*\<^sup>* r r'"
    and "follows cursor_le refresh" "follows cursor_le relationships"
    and "1 \<le> sc_near_tip_repair_window_heights (lp_config (lr_producer r))"
  shows "cursor (lr_tables r) \<le> cursor (lr_tables r')"
proof -
  have "cursor_le (lr_tables r) (lr_tables r') \<and> lp_config (lr_producer r') = lp_config (lr_producer r)"
    using assms(1)
  proof (induction rule: rtranclp_induct)
    case base
    show ?case by (simp add: cursor_le_def)
  next
    case (step r1 r2)
    then show ?case using live_step_cursor [OF step(2) assms(2,3)] assms(4) by (auto simp: cursor_le_def)
  qed
  then show ?thesis by (simp add: cursor_le_def)
qed

text \<open>C4: In live mode every tick returns: from any state that ticks reach, with a queue that holds one row per hash
  at the start, the next tick ends with a result or an error and leaves the queue with one row per hash,
  whatever the node answers at every call.  The cache refresh and the relationship drain are assumed to
  return.\<close>

theorem live_ticks_return:
  assumes "(live_step B S K refresh relationships hash)\<^sup>*\<^sup>* r r'" "classifier_is_live K" "ends refresh" "ends relationships"
    and "queue_keyed (lr_tables r)"
  shows "\<exists>res p' st' s'. live_tick B S K \<lparr>te_refresh = refresh, te_drain_relationships = relationships, te_now = now\<rparr>
     (lr_producer r') (lr_tables r') (lr_outside r') = Some (res, p', st', s') \<and> queue_keyed st'"
proof -
  have "queue_keyed (lr_tables r')"
    using assms(1) by (induction rule: rtranclp_induct) (simp_all add: assms live_step_keyed [OF _ assms(2-4)])
  moreover have "tick_ends (live_tick B S K \<lparr>te_refresh = refresh, te_drain_relationships = relationships, te_now = now\<rparr>)"
    by (rule ends_tick) (simp_all add: assms)
  ultimately show ?thesis unfolding tick_ends_def by blast
qed

section \<open>Witnesses\<close>

text \<open>A tick of a producer whose node has grown by one block, run by evaluation.\<close>

definition demo_client :: "unit core_client" where
  "demo_client = (demo_node True)\<lparr>cl_get_block_coinbase := \<lambda>_. io_ok (cc_coinbase demo_replacement)\<rparr>"

definition demo_follow :: live_producer where
  "demo_follow = \<lparr>lp_config = normalize_follow_config (gap_config demo_tip 1\<lparr>sc_near_tip_repair_window_heights := 1\<rparr>),
     lp_stall = 0, lp_last_near_tip_repair_at = None\<rparr>"

definition demo_tick :: "((backbone_error, tick_outcome) result \<times> live_producer \<times> core_state \<times> unit) option" where
  "demo_tick = live_tick demo_backbone (rpc_backbone_source (io_ok 16) demo_client) (CoreBacked demo_client)
     \<lparr>te_refresh = bb_ok (), te_drain_relationships = bb_ok (), te_now = int\<rparr> demo_follow demo_state ()"

lemma demo_tick_result:
  "map_option (\<lambda>(r, p, st, s). (r, lp_stall p, cursor st)) demo_tick =
     Some (Inr \<lparr>to_progressed = True, to_idle_at_target = True, to_completed = True\<rparr>, 0, 16)"
  by code_simp

definition demo_live :: "unit live_run_state" where
  "demo_live = \<lparr>lr_producer = demo_follow, lr_tables = demo_state, lr_outside = (), lr_failures = 2\<rparr>"

abbreviation demo_live_step :: "unit live_run_state \<Rightarrow> unit live_run_state \<Rightarrow> bool" where
  "demo_live_step \<equiv> live_step demo_backbone (rpc_backbone_source (io_ok 16) demo_client) (CoreBacked demo_client) (bb_ok ()) (bb_ok ()) (\<lambda>_. 0)"

lemma demo_stepped:
  obtains r' where "demo_live_step demo_live r'" "cursor (lr_tables r') = 16" "lr_failures r' = 0"
proof -
  obtain p1 st1 where t: "demo_tick = Some (Inr \<lparr>to_progressed = True, to_idle_at_target = True, to_completed = True\<rparr>, p1, st1, ())"
    and p: "cursor st1 = 16"
    using demo_tick_result by auto
  have c: "tick_cycle (Inr \<lparr>to_progressed = True, to_idle_at_target = True, to_completed = True\<rparr>) p1 = (Inr (Healthy, 0), p1\<lparr>lp_stall := 0\<rparr>)"
    by (simp add: tick_cycle_def wait_after_live_tick_def follow_stall_step_def)
  obtain d tr where d: "decide 2 (\<lambda>_. 0) 0 Healthy ''running'' 0 = (0, d, tr)" by (simp add: decide_def)
  have "demo_live_step demo_live \<lparr>lr_producer = p1\<lparr>lp_stall := 0\<rparr>, lr_tables = st1, lr_outside = (), lr_failures = 0\<rparr>"
    by (rule live_step.intros [where now = int and wall = 0, OF _ c])
      (use t d in \<open>simp_all add: demo_tick_def demo_live_def\<close>)
  then show thesis by (rule that) (simp_all add: p)
qed

lemma demo_live_window: "1 \<le> sc_near_tip_repair_window_heights (lp_config (lr_producer demo_live))"
  by code_simp

lemma demo_live_keyed: "queue_keyed (lr_tables demo_live)"
  by code_simp

lemma demo_client_live: "classifier_is_live (CoreBacked demo_client)"
  by code_simp

theorem cursor_never_moves_back_witness:
  "\<exists>r'. demo_live_step\<^sup>*\<^sup>* demo_live r' \<and> cursor (lr_tables demo_live) \<le> cursor (lr_tables r') \<and> cursor (lr_tables r') = 16"
proof -
  obtain r' where r: "demo_live_step demo_live r'" "cursor (lr_tables r') = 16" by (rule demo_stepped)
  have s: "demo_live_step\<^sup>*\<^sup>* demo_live r'" using r(1) by blast
  have "cursor (lr_tables demo_live) \<le> cursor (lr_tables r')"
    by (rule cursor_never_moves_back [OF s]) (simp_all add: cu.keeps_ok demo_live_window)
  with s r(2) show ?thesis by blast
qed

theorem live_ticks_return_witness:
  "\<exists>r'. demo_live_step\<^sup>*\<^sup>* demo_live r' \<and> (\<exists>res p' st' s'. live_tick demo_backbone (rpc_backbone_source (io_ok 16) demo_client)
     (CoreBacked demo_client) \<lparr>te_refresh = bb_ok (), te_drain_relationships = bb_ok (), te_now = int\<rparr>
     (lr_producer r') (lr_tables r') (lr_outside r') = Some (res, p', st', s'))"
proof -
  obtain r' where r: "demo_live_step demo_live r'" by (rule demo_stepped)
  have s: "demo_live_step\<^sup>*\<^sup>* demo_live r'" using r by blast
  from live_ticks_return [OF s demo_client_live ends_ok ends_ok demo_live_keyed, of int] s show ?thesis by blast
qed

end
