(* ===== verification/Tree_Window.thy ===== *)
theory Tree_Window
  imports Backbone Relationship "HOL-Library.Option_ord"
begin

text \<open>
  \<open>crates/mmm-api/src/projection/shared/backbone.rs\<close>, \<open>tree/window.rs\<close> and the windows of \<open>tree/compact.rs\<close>: which
  heights a tree request is answered for, and the check that the canonical rows cover them.  The
  queries are functions on the block rows and the status row of the read model; the details of error
  bodies other than their heights and counts are left out.
\<close>

section \<open>Errors and hashes\<close>

datatype api_error =
    RangeTooLarge string nat nat | BackboneUnsynced int int "int option" nat nat
  | BackboneConflict int int int string "string list" | InvalidQuery string

datatype projection_error = Api api_error | Internal string

definition display_hash :: "bytes \<Rightarrow> (projection_error, string) result" where
  "display_hash bs = (if length bs = 32 then Inr (hex_encode (rev bs)) else Inl (Internal ''hash bytea is not 32 bytes''))"

text \<open>\<open>Iterator::collect\<close> into a \<open>Result\<close>.\<close>

primrec collect_results :: "('a \<Rightarrow> ('e, 'b) result) \<Rightarrow> 'a list \<Rightarrow> ('e, 'b list) result" where
  "collect_results f [] = Inr []"
| "collect_results f (x # xs) = rbind (f x) (\<lambda>y. rbind (collect_results f xs) (\<lambda>ys. Inr (y # ys)))"

section \<open>Backbone coverage\<close>

record backbone_coverage_row =
  bcr_hash :: bytes
  bcr_prev_hash :: bytes
  bcr_coinbase_status :: core_coinbase_status

text \<open>\<open>by_height\<close>: the rows in the order of the query, with their heights.\<close>

type_synonym backbone_window_coverage = "(int \<times> backbone_coverage_row) list"

definition rows_at :: "backbone_window_coverage \<Rightarrow> int \<Rightarrow> backbone_coverage_row list" where
  "rows_at cov h = map snd (filter (\<lambda>x. fst x = h) cov)"

definition load_backbone_window_coverage_for_windows ::
  "block_row list \<Rightarrow> (int \<times> int) list \<Rightarrow> backbone_window_coverage" where
  "load_backbone_window_coverage_for_windows blocks ranges =
     sort_key (\<lambda>(h, r). (h, bcr_hash r)) (concat (map (\<lambda>(from_height, to_height). List.map_filter (\<lambda>b.
       case br_height b of
         Some h \<Rightarrow>
           if br_kind b = BkCanonical \<and> from_height \<le> h \<and> h \<le> to_height
           then Some (h, \<lparr>bcr_hash = br_hash b, bcr_prev_hash = br_prev_hash b, bcr_coinbase_status = br_coinbase_status b\<rparr>)
           else None
       | None \<Rightarrow> None) blocks) ranges))"

definition load_backbone_window_coverage :: "block_row list \<Rightarrow> int \<Rightarrow> int \<Rightarrow> backbone_window_coverage" where
  "load_backbone_window_coverage blocks from_height to_height =
     load_backbone_window_coverage_for_windows blocks [(from_height, to_height)]"

definition load_max_complete_canonical_height :: "block_row list \<Rightarrow> int option" where
  "load_max_complete_canonical_height blocks =
     (case List.map_filter (\<lambda>b. if br_kind b = BkCanonical \<and> br_coinbase_status b = CoinbaseComplete then br_height b else None) blocks of
        [] \<Rightarrow> None | h # hs \<Rightarrow> Some (fold max hs h))"

definition single_complete :: "backbone_window_coverage \<Rightarrow> int \<Rightarrow> bool" where
  "single_complete cov h = (case rows_at cov h of [r] \<Rightarrow> bcr_coinbase_status r = CoinbaseComplete | _ \<Rightarrow> False)"

definition window_is_complete :: "backbone_window_coverage \<Rightarrow> int \<Rightarrow> int \<Rightarrow> bool" where
  "window_is_complete cov from_height to_height \<longleftrightarrow>
     list_all (single_complete cov) [from_height..to_height] \<and>
     list_all (\<lambda>height. case (rows_at cov (wrap_i32 (height - 1)), rows_at cov height) of
         (previous # _, current # _) \<Rightarrow> bcr_prev_hash current = bcr_hash previous
       | _ \<Rightarrow> False) [wrap_i32 (from_height + 1)..to_height]"

definition backbone_conflict_error ::
  "int \<Rightarrow> int \<Rightarrow> int \<Rightarrow> string \<Rightarrow> backbone_coverage_row list \<Rightarrow> (projection_error, 'a) result" where
  "backbone_conflict_error from_height to_height height reason rows =
     rbind (collect_results (\<lambda>r. display_hash (bcr_hash r)) rows) (\<lambda>hashes.
     Inl (Api (BackboneConflict from_height to_height height reason hashes)))"

text \<open>The first loop of \<open>ensure_window\<close>: the first height not complete, and the missing and partial counts.\<close>

fun scan_window ::
  "backbone_window_coverage \<Rightarrow> int \<Rightarrow> int \<Rightarrow> int list \<Rightarrow> int option \<times> nat \<times> nat \<Rightarrow> (projection_error, int option \<times> nat \<times> nat) result" where
  "scan_window cov from_height to_height [] acc = Inr acc"
| "scan_window cov from_height to_height (height # heights) (first_missing, missing, partial) =
     (let first = (case first_missing of Some h \<Rightarrow> Some h | None \<Rightarrow> Some height) in
      case rows_at cov height of
        [] \<Rightarrow> scan_window cov from_height to_height heights (first, missing + 1, partial)
      | [r] \<Rightarrow>
          if bcr_coinbase_status r \<noteq> CoinbaseComplete
          then scan_window cov from_height to_height heights (first, missing, partial + 1)
          else scan_window cov from_height to_height heights (first_missing, missing, partial)
      | rows \<Rightarrow> backbone_conflict_error from_height to_height height ''duplicate_canonical_height'' rows)"

fun check_window_links :: "backbone_window_coverage \<Rightarrow> int \<Rightarrow> int \<Rightarrow> int list \<Rightarrow> (projection_error, unit) result" where
  "check_window_links cov from_height to_height [] = Inr ()"
| "check_window_links cov from_height to_height (height # heights) =
     (case (rows_at cov (wrap_i32 (height - 1)), rows_at cov height) of
        (previous # _, current # _) \<Rightarrow>
          if bcr_prev_hash current \<noteq> bcr_hash previous
          then backbone_conflict_error from_height to_height height ''link_mismatch'' [current]
          else check_window_links cov from_height to_height heights
      | _ \<Rightarrow> check_window_links cov from_height to_height heights)"

definition ensure_window :: "backbone_window_coverage \<Rightarrow> int \<Rightarrow> int \<Rightarrow> (projection_error, unit) result" where
  "ensure_window cov from_height to_height =
     rbind (scan_window cov from_height to_height [from_height..to_height] (None, 0, 0)) (\<lambda>(first_missing, missing, partial).
     if 0 < missing \<or> 0 < partial then Inl (Api (BackboneUnsynced from_height to_height first_missing missing partial))
     else check_window_links cov from_height to_height [wrap_i32 (from_height + 1)..to_height])"

definition ensure_backbone_window_coverage :: "block_row list \<Rightarrow> int \<Rightarrow> int \<Rightarrow> (projection_error, unit) result" where
  "ensure_backbone_window_coverage blocks from_height to_height =
     ensure_window (load_backbone_window_coverage blocks from_height to_height) from_height to_height"

section \<open>Windows\<close>

definition default_tree_window_heights :: int where "default_tree_window_heights = 16"
definition default_tree_sparse_scan_heights :: int where "default_tree_sparse_scan_heights = 2048"

record resolved_tree_window =
  tw_from_height :: "int option"
  tw_to_height :: "int option"
  tw_tip_height :: "int option"
  tw_defaulted_to_tip :: bool
  tw_empty_reason :: "string option"

definition explicit_window :: "int \<Rightarrow> int \<Rightarrow> resolved_tree_window" where
  "explicit_window from_height to_height = \<lparr>tw_from_height = Some from_height, tw_to_height = Some to_height,
     tw_tip_height = None, tw_defaulted_to_tip = False, tw_empty_reason = None\<rparr>"

definition for_tip :: "int \<Rightarrow> resolved_tree_window" where
  "for_tip tip_height = \<lparr>tw_from_height = Some (max (sat_i32 (tip_height - sat_i32 (default_tree_window_heights - 1))) 0),
     tw_to_height = Some tip_height, tw_tip_height = Some tip_height, tw_defaulted_to_tip = True, tw_empty_reason = None\<rparr>"

definition empty_window :: "string \<Rightarrow> resolved_tree_window" where
  "empty_window reason = \<lparr>tw_from_height = None, tw_to_height = None, tw_tip_height = None, tw_defaulted_to_tip = True,
     tw_empty_reason = Some reason\<rparr>"

definition empty_lookup :: "string \<Rightarrow> resolved_tree_window" where
  "empty_lookup reason = \<lparr>tw_from_height = None, tw_to_height = None, tw_tip_height = None, tw_defaulted_to_tip = False,
     tw_empty_reason = Some reason\<rparr>"

definition window_bounds :: "resolved_tree_window \<Rightarrow> (int \<times> int) option" where
  "window_bounds w = (case (tw_from_height w, tw_to_height w) of (Some f, Some t) \<Rightarrow> Some (f, t) | _ \<Rightarrow> None)"

definition ensure_tree_backbone_coverage :: "block_row list \<Rightarrow> resolved_tree_window \<Rightarrow> (projection_error, unit) result" where
  "ensure_tree_backbone_coverage blocks window =
     (case window_bounds window of None \<Rightarrow> Inr () | Some (f, t) \<Rightarrow> ensure_backbone_window_coverage blocks f t)"

text \<open>\<open>ORDER BY btc_header_time DESC, btc_height DESC, btc_header_hash ASC LIMIT 1\<close>.\<close>

definition load_complete_canonical_height_at_time :: "block_row list \<Rightarrow> int \<Rightarrow> int option" where
  "load_complete_canonical_height_at_time blocks at_time =
     (case sort_key (\<lambda>b. (- br_header_time b, - the (br_height b), br_hash b))
             (filter (\<lambda>b. br_kind b = BkCanonical \<and> br_coinbase_status b = CoinbaseComplete \<and> br_height b \<noteq> None \<and>
               br_header_time b \<le> at_time) blocks) of
        [] \<Rightarrow> None | b # _ \<Rightarrow> br_height b)"

definition load_verified_canonical_ancestry ::
  "block_row list \<Rightarrow> resolved_tree_window \<Rightarrow> (projection_error, (string \<times> string) list) result" where
  "load_verified_canonical_ancestry blocks window =
     rbind (ensure_tree_backbone_coverage blocks window) (\<lambda>_.
     case window_bounds window of
       None \<Rightarrow> Inr []
     | Some (f, t) \<Rightarrow> collect_results (\<lambda>b.
         rbind (display_hash (br_hash b)) (\<lambda>hash. rbind (display_hash (br_prev_hash b)) (\<lambda>prev_hash. Inr (hash, prev_hash))))
         (sort_key (\<lambda>b. (br_height b, br_hash b))
           (filter (\<lambda>b. br_kind b = BkCanonical \<and> (case br_height b of Some h \<Rightarrow> f \<le> h \<and> h \<le> t | None \<Rightarrow> False)) blocks)))"

section \<open>The default tip\<close>

definition canonical_between :: "block_row list \<Rightarrow> int \<Rightarrow> int \<Rightarrow> block_row list" where
  "canonical_between blocks from_height to_height =
     filter (\<lambda>b. br_kind b = BkCanonical \<and> (case br_height b of Some h \<Rightarrow> from_height \<le> h \<and> h \<le> to_height | None \<Rightarrow> False)) blocks"

definition load_contiguous_complete_tree_tip_height :: "block_row list \<Rightarrow> sync_state option \<Rightarrow> bool \<Rightarrow> int option" where
  "load_contiguous_complete_tree_tip_height blocks sync require_no_higher_complete =
     (case sync of
        None \<Rightarrow> None
      | Some row \<Rightarrow>
          let tip = ss_contiguous_complete_height row;
              from = max (tip - (default_tree_window_heights - 1)) 0;
              rows = canonical_between blocks from tip
          in if 0 \<le> tip \<and>
                (\<not> require_no_higher_complete \<or>
                 (case load_max_complete_canonical_height blocks of Some h \<Rightarrow> h | None \<Rightarrow> -1) \<le> tip) \<and>
                int (length rows) = tip - from + 1 \<and>
                list_all (\<lambda>b. let same = filter (\<lambda>c. br_height c = br_height b) rows in
                  length same = 1 \<and> list_all (\<lambda>c. br_coinbase_status c = CoinbaseComplete) same) rows \<and>
                \<not> list_ex (\<lambda>child. list_ex (\<lambda>parent.
                    br_kind parent = BkCanonical \<and> br_height parent = map_option (\<lambda>h. h - 1) (br_height child) \<and>
                    br_height parent \<noteq> None \<and> br_prev_hash child \<noteq> br_hash parent) blocks)
                  (canonical_between blocks (from + 1) tip)
             then Some tip else None)"

text \<open>The island query: the single complete rows of the scanned heights in ascending order, each with the number of
  its island and its position in it.\<close>

definition clean_blocks :: "block_row list \<Rightarrow> block_row list" where
  "clean_blocks blocks =
     (case load_max_complete_canonical_height blocks of
        None \<Rightarrow> []
      | Some max_height \<Rightarrow>
          let rows = filter (\<lambda>b. br_kind b = BkCanonical \<and> (case br_height b of
                 Some h \<Rightarrow> max (max_height - (default_tree_sparse_scan_heights - 1)) 0 \<le> h | None \<Rightarrow> False)) blocks
          in sort_key (\<lambda>b. the (br_height b)) (filter (\<lambda>b.
               length (filter (\<lambda>c. br_height c = br_height b) rows) = 1 \<and> br_coinbase_status b = CoinbaseComplete) rows))"

fun island_ids :: "block_row option \<Rightarrow> nat \<Rightarrow> block_row list \<Rightarrow> (nat \<times> block_row) list" where
  "island_ids prev n [] = []"
| "island_ids prev n (b # bs) =
     (let joined = (case prev of
            None \<Rightarrow> br_height b = Some 0
          | Some p \<Rightarrow> the (br_height p) = the (br_height b) - 1 \<and> br_prev_hash b = br_hash p);
          n1 = (if joined then n else n + 1)
      in (n1, b) # island_ids (Some b) n1 bs)"

definition island_rows :: "(nat \<times> block_row) list \<Rightarrow> nat \<Rightarrow> block_row list" where
  "island_rows islands n = map snd (filter (\<lambda>x. fst x = n) islands)"

text \<open>The row at position \<open>rn\<close> of its island ends a window when the row \<open>w - 1\<close> positions before it is \<open>w - 1\<close> heights
  below, or when the island starts at genesis.\<close>

definition ends_window :: "block_row list \<Rightarrow> nat \<Rightarrow> bool" where
  "ends_window island i =
     (let tip = the (br_height (island ! i)); w = nat default_tree_window_heights in
      (int w - 1 \<le> tip \<and> w - 1 \<le> i \<and> the (br_height (island ! (i - (w - 1)))) = tip - (int w - 1)) \<or>
      (tip < int w - 1 \<and> int i + 1 = tip + 1))"

definition load_sparse_complete_tree_tip_height :: "block_row list \<Rightarrow> int option" where
  "load_sparse_complete_tree_tip_height blocks =
     (let islands = island_ids None 0 (clean_blocks blocks);
          tips = concat (map (\<lambda>n. let island = island_rows islands n in
             map (\<lambda>i. the (br_height (island ! i))) (filter (ends_window island) [0..<length island])) (remdups (map fst islands)))
      in case tips of [] \<Rightarrow> None | h # hs \<Rightarrow> Some (fold max hs h))"

definition load_default_tree_tip_height :: "block_row list \<Rightarrow> sync_state option \<Rightarrow> int option" where
  "load_default_tree_tip_height blocks sync =
     (case load_contiguous_complete_tree_tip_height blocks sync True of
        Some tip \<Rightarrow> Some tip
      | None \<Rightarrow>
          (case load_sparse_complete_tree_tip_height blocks of
             Some tip \<Rightarrow> Some tip
           | None \<Rightarrow> load_contiguous_complete_tree_tip_height blocks sync False))"

record tree_lookup =
  tq_from_height :: "int option"
  tq_to_height :: "int option"
  tq_at_height :: "int option"
  tq_at_time :: "int option"

definition resolve_tree_window :: "block_row list \<Rightarrow> sync_state option \<Rightarrow> tree_lookup \<Rightarrow> resolved_tree_window" where
  "resolve_tree_window blocks sync query =
     (case tq_at_height query of
        Some height \<Rightarrow> explicit_window height height
      | None \<Rightarrow>
          (case tq_at_time query of
             Some at_time \<Rightarrow>
               (case load_complete_canonical_height_at_time blocks at_time of
                  Some height \<Rightarrow> explicit_window height height
                | None \<Rightarrow> empty_lookup ''no_complete_canonical_at_or_before_time'')
           | None \<Rightarrow>
               (case (tq_from_height query, tq_to_height query) of
                  (Some f, Some t) \<Rightarrow> explicit_window f t
                | _ \<Rightarrow>
                    (case load_default_tree_tip_height blocks sync of
                       Some tip \<Rightarrow> for_tip tip | None \<Rightarrow> empty_window ''no_canonical_tip''))))"

section \<open>Compact windows\<close>

definition compact_radius_schedule :: "int list" where
  "compact_radius_schedule = [1008, 512, 256, 128, 64, 32, 16]"

definition compact_candidate_windows :: "int \<Rightarrow> int \<Rightarrow> (int \<times> int) list" where
  "compact_candidate_windows target_height max_height =
     foldl (\<lambda>ranges radius.
       let w = (max (sat_i32 (target_height - radius)) 0, min (sat_i32 (target_height + radius)) max_height) in
       if ranges \<noteq> [] \<and> last ranges = w then ranges else ranges @ [w]) [] compact_radius_schedule"

definition is_compact_retry_error :: "projection_error \<Rightarrow> bool" where
  "is_compact_retry_error e = (case e of
     Api (RangeTooLarge _ _ _) \<Rightarrow> True | Api (BackboneUnsynced _ _ _ _ _) \<Rightarrow> True | Api (BackboneConflict _ _ _ _ _) \<Rightarrow> True | _ \<Rightarrow> False)"

text \<open>The retries of \<open>compact_tree\<close> over the windows; \<open>None\<close> is the \<open>unreachable!\<close> after the loop.\<close>

fun compact_retries :: "(int \<times> int \<Rightarrow> (projection_error, 'a) result) \<Rightarrow> (int \<times> int) list \<Rightarrow> (projection_error, 'a) result option" where
  "compact_retries attempt [] = None"
| "compact_retries attempt (w # ws) =
     (case attempt w of
        Inr payload \<Rightarrow> Some (Inr payload)
      | Inl e \<Rightarrow> if ws \<noteq> [] \<and> is_compact_retry_error e then compact_retries attempt ws else Some (Inl e))"

definition resolve_compact_target :: "block_row list \<Rightarrow> tree_lookup \<Rightarrow> (projection_error, int option) result" where
  "resolve_compact_target blocks query =
     (let verified = (\<lambda>height. rbind (load_verified_canonical_ancestry blocks (explicit_window height height)) (\<lambda>_. Inr (Some height))) in
      case tq_at_height query of
        Some height \<Rightarrow> verified height
      | None \<Rightarrow>
          (case tq_at_time query of
             Some at_time \<Rightarrow>
               (case load_complete_canonical_height_at_time blocks at_time of None \<Rightarrow> Inr None | Some height \<Rightarrow> verified height)
           | None \<Rightarrow> Inl (Api (InvalidQuery ''context=compact requires at_height or at_time''))))"

definition compact_context_hashes :: "block_row list \<Rightarrow> int \<Rightarrow> int \<Rightarrow> int \<Rightarrow> (projection_error, string list) result" where
  "compact_context_hashes blocks target_height from_height to_height =
     collect_results (\<lambda>b. display_hash (br_hash b))
       (filter (\<lambda>b. br_kind b = BkCanonical \<and>
         (case br_height b of Some h \<Rightarrow> h = target_height \<or> h = from_height \<or> h = to_height | None \<Rightarrow> False)) blocks)"

end
