(* ===== verification/Tree_Coverage.thy ===== *)
theory Tree_Coverage
  imports Tree_Window Reorg_Plan
begin

text \<open>
  Which windows the API serves: the coverage checks of \<^const>\<open>ensure_backbone_window_coverage\<close> and
  \<^const>\<open>window_is_complete\<close> against the canonical rows, the windows at or below the cursor of the backbone sync, the
  default window of sixteen heights and the candidate windows of a compact lookup.
\<close>

section \<open>Covered windows\<close>

definition canonical_at :: "block_row list \<Rightarrow> int \<Rightarrow> block_row list" where
  "canonical_at blocks h = filter (\<lambda>b. br_kind b = BkCanonical \<and> br_height b = Some h) blocks"

definition coverage_of :: "block_row \<Rightarrow> backbone_coverage_row" where
  "coverage_of b = \<lparr>bcr_hash = br_hash b, bcr_prev_hash = br_prev_hash b, bcr_coinbase_status = br_coinbase_status b\<rparr>"

lemma rows_at_loaded:
  "rows_at (load_backbone_window_coverage blocks a b) h =
     (if a \<le> h \<and> h \<le> b then map coverage_of (sort_key (\<lambda>b. (h, br_hash b)) (canonical_at blocks h)) else [])"
proof -
  let ?g = "\<lambda>b. (h, coverage_of b)"
  let ?F = "\<lambda>b'. case br_height b' of
         Some k \<Rightarrow>
           if br_kind b' = BkCanonical \<and> a \<le> k \<and> k \<le> b
           then Some (k, \<lparr>bcr_hash = br_hash b', bcr_prev_hash = br_prev_hash b', bcr_coinbase_status = br_coinbase_status b'\<rparr>)
           else None
       | None \<Rightarrow> None"
  have f: "filter (\<lambda>x. fst x = h) (List.map_filter ?F blocks) =
      (if a \<le> h \<and> h \<le> b then map ?g (canonical_at blocks h) else [])"
    by (induction blocks) (auto simp: canonical_at_def coverage_of_def List.map_filter_simps split: option.split)
  have "rows_at (load_backbone_window_coverage blocks a b) h =
      map snd (sort_key (\<lambda>(h, r). (h, bcr_hash r)) (if a \<le> h \<and> h \<le> b then map ?g (canonical_at blocks h) else []))"
    unfolding rows_at_def load_backbone_window_coverage_def load_backbone_window_coverage_for_windows_def
    by (simp add: filter_sort f)
  then show ?thesis
    by (simp add: map_sort_key [symmetric] coverage_of_def comp_def)
qed

lemma single_loaded:
  "single_complete (load_backbone_window_coverage blocks a b) h \<longleftrightarrow>
     a \<le> h \<and> h \<le> b \<and> (\<exists>r. canonical_at blocks h = [r] \<and> br_coinbase_status r = CoinbaseComplete)"
proof (cases "canonical_at blocks h")
  case (Cons r rs)
  show ?thesis
  proof (cases rs)
    case Nil
    with Cons show ?thesis by (auto simp: single_complete_def rows_at_loaded coverage_of_def)
  next
    case (Cons r1 rs1)
    let ?s = "sort_key (\<lambda>b. (h, br_hash b)) (canonical_at blocks h)"
    have "length ?s = length (canonical_at blocks h)" by simp
    then obtain x y z where "?s = x # y # z"
      using \<open>canonical_at blocks h = r # rs\<close> Cons by (cases ?s; cases "tl ?s") auto
    then show ?thesis using \<open>canonical_at blocks h = r # rs\<close> Cons by (simp add: single_complete_def rows_at_loaded)
  qed
qed (simp add: single_complete_def rows_at_loaded)

text \<open>The window's heights have one complete canonical row each, linked to the one below.\<close>

definition covered :: "block_row list \<Rightarrow> int \<Rightarrow> int \<Rightarrow> bool" where
  "covered blocks a b \<longleftrightarrow>
     (\<forall>h. a \<le> h \<and> h \<le> b \<longrightarrow> (\<exists>r. canonical_at blocks h = [r] \<and> br_coinbase_status r = CoinbaseComplete)) \<and>
     (\<forall>h p r. a < h \<and> h \<le> b \<and> canonical_at blocks (h - 1) = [p] \<and> canonical_at blocks h = [r] \<longrightarrow> br_prev_hash r = br_hash p)"

lemma scan_window_ok:
  "scan_window cov a b hs (fm, 0, 0) = Inr (fm', 0, 0) \<longleftrightarrow> fm' = fm \<and> list_all (single_complete cov) hs"
proof (induction hs arbitrary: fm)
  case (Cons h hs)
  have pos: "scan_window cov a b hs (f, m, p) = Inr (f', 0, 0) \<Longrightarrow> m = 0 \<and> p = 0" for f m p f' and hs :: "int list"
  proof (induction hs arbitrary: f m p)
    case (Cons k ks)
    from Cons.prems show ?case
      by (auto simp: Let_def backbone_conflict_error_def rbind_def dest!: Cons.IH split: list.split_asm if_split_asm sum.split_asm)
  qed simp
  show ?case
    by (auto simp: Cons.IH Let_def single_complete_def backbone_conflict_error_def rbind_def dest: pos split: list.split sum.split)
qed auto

lemma check_links_ok:
  "check_window_links cov a b hs = Inr () \<longleftrightarrow> list_all (\<lambda>h. case (rows_at cov (wrap_i32 (h - 1)), rows_at cov h) of
     (p # _, c # _) \<Rightarrow> bcr_prev_hash c = bcr_hash p | _ \<Rightarrow> True) hs"
  by (induction hs) (auto simp: backbone_conflict_error_def rbind_def split: list.split sum.split)

lemma ensure_window_ok:
  "ensure_window cov a b = Inr () \<longleftrightarrow> list_all (single_complete cov) [a..b] \<and>
     check_window_links cov a b [wrap_i32 (a + 1)..b] = Inr ()"
proof -
  have zero: "scan_window cov a b [a..b] (None, 0, 0) = Inr (None, 0, 0) \<longleftrightarrow> list_all (single_complete cov) [a..b]"
    by (simp add: scan_window_ok)
  show ?thesis
  proof (cases "scan_window cov a b [a..b] (None, 0, 0)")
    case (Inl e)
    then show ?thesis using zero by (simp add: ensure_window_def rbind_def)
  next
    case (Inr x)
    obtain f m p where x: "x = (f, m, p)" by (cases x) auto
    show ?thesis
    proof (cases "m = 0 \<and> p = 0")
      case True
      then have "f = None \<and> list_all (single_complete cov) [a..b]" using Inr x by (simp add: scan_window_ok)
      then show ?thesis using Inr x True by (simp add: ensure_window_def rbind_def)
    next
      case False
      then show ?thesis using Inr x zero by (auto simp: ensure_window_def rbind_def)
    qed
  qed
qed

lemma covered_links:
  assumes "i32_ok a" "a < 2 ^ 31 - 1" "b < 2 ^ 31" "\<forall>h\<in>{a..b}. \<exists>r. canonical_at blocks h = [r]"
  shows "list_all (\<lambda>h. case (rows_at (load_backbone_window_coverage blocks a b) (wrap_i32 (h - 1)),
        rows_at (load_backbone_window_coverage blocks a b) h) of
      (p # _, c # _) \<Rightarrow> bcr_prev_hash c = bcr_hash p | _ \<Rightarrow> P) [wrap_i32 (a + 1)..b] \<longleftrightarrow>
    (\<forall>h p r. a < h \<and> h \<le> b \<and> canonical_at blocks (h - 1) = [p] \<and> canonical_at blocks h = [r] \<longrightarrow> br_prev_hash r = br_hash p)"
proof -
  have w: "wrap_i32 (a + 1) = a + 1" by (rule wrap_i32_id) (use assms in \<open>simp add: i32_ok_def\<close>)
  have step: "(case (rows_at (load_backbone_window_coverage blocks a b) (wrap_i32 (h - 1)),
        rows_at (load_backbone_window_coverage blocks a b) h) of
      (p # _, c # _) \<Rightarrow> bcr_prev_hash c = bcr_hash p | _ \<Rightarrow> P) \<longleftrightarrow>
     (\<forall>p r. canonical_at blocks (h - 1) = [p] \<and> canonical_at blocks h = [r] \<longrightarrow> br_prev_hash r = br_hash p)"
    if h: "a < h" "h \<le> b" for h
  proof -
    have "wrap_i32 (h - 1) = h - 1" by (rule wrap_i32_id) (use assms h in \<open>simp add: i32_ok_def\<close>)
    moreover have "\<exists>r. canonical_at blocks h = [r]" "\<exists>p. canonical_at blocks (h - 1) = [p]"
      using assms(4) h by (auto simp: Ball_def)
    ultimately show ?thesis using h by (auto simp: rows_at_loaded coverage_of_def)
  qed
  have "(\<forall>h\<in>{a + 1..b}. Q h) \<longleftrightarrow> (\<forall>h. a < h \<and> h \<le> b \<longrightarrow> Q h)" for Q by (simp add: Ball_def add1_zle_eq)
  then show ?thesis unfolding w list_all_iff set_upto using step by (simp cong: conj_cong imp_cong) blast
qed

lemma ensure_covered:
  assumes "i32_ok a" "a < 2 ^ 31 - 1" "b < 2 ^ 31"
  shows "ensure_backbone_window_coverage blocks a b = Inr () \<longleftrightarrow> covered blocks a b"
proof -
  have s: "list_all (single_complete (load_backbone_window_coverage blocks a b)) [a..b] \<longleftrightarrow>
      (\<forall>h. a \<le> h \<and> h \<le> b \<longrightarrow> (\<exists>r. canonical_at blocks h = [r] \<and> br_coinbase_status r = CoinbaseComplete))"
    by (auto simp: list_all_iff single_loaded)
  show ?thesis
  proof (cases "list_all (single_complete (load_backbone_window_coverage blocks a b)) [a..b]")
    case True
    then have "\<forall>h\<in>{a..b}. \<exists>r. canonical_at blocks h = [r]" using s by fastforce
    from covered_links [OF assms this, of True] True s show ?thesis
      by (simp add: ensure_backbone_window_coverage_def ensure_window_ok check_links_ok covered_def)
  next
    case False
    then show ?thesis
      unfolding ensure_backbone_window_coverage_def ensure_window_ok covered_def s [symmetric] by simp
  qed
qed

lemma complete_covered:
  assumes "i32_ok a" "a < 2 ^ 31 - 1" "b < 2 ^ 31"
  shows "window_is_complete (load_backbone_window_coverage blocks a b) a b \<longleftrightarrow> covered blocks a b"
proof -
  have s: "list_all (single_complete (load_backbone_window_coverage blocks a b)) [a..b] \<longleftrightarrow>
      (\<forall>h. a \<le> h \<and> h \<le> b \<longrightarrow> (\<exists>r. canonical_at blocks h = [r] \<and> br_coinbase_status r = CoinbaseComplete))"
    by (auto simp: list_all_iff single_loaded)
  show ?thesis
  proof (cases "list_all (single_complete (load_backbone_window_coverage blocks a b)) [a..b]")
    case True
    then have "\<forall>h\<in>{a..b}. \<exists>r. canonical_at blocks h = [r]" using s by fastforce
    from covered_links [OF assms this, of False] True s show ?thesis
      by (simp add: window_is_complete_def covered_def)
  next
    case False
    then show ?thesis unfolding window_is_complete_def covered_def s [symmetric] by simp
  qed
qed

text \<open>C20: The two coverage checks of the API agree, and mean what they say: the one that answers a request and the one that
  only tests a window both accept a window exactly when every height of it has one canonical row, complete
  and linked to the one below.\<close>

theorem coverage_checks_agree:
  assumes "i32_ok a" "a < 2 ^ 31 - 1" "b < 2 ^ 31"
  shows "(ensure_backbone_window_coverage blocks a b = Inr () \<longleftrightarrow> covered blocks a b) \<and>
    (window_is_complete (load_backbone_window_coverage blocks a b) a b \<longleftrightarrow> covered blocks a b)"
  using ensure_covered [OF assms] complete_covered [OF assms] by blast

lemma canonical_rows_single:
  "load_canonical_rows_at_height blocks h = [r] \<longleftrightarrow> (\<exists>b. canonical_at blocks h = [b] \<and>
     r = \<lparr>hr_hash = br_hash b, hr_prev_hash = br_prev_hash b, hr_coinbase_status = br_coinbase_status b\<rparr>)"
proof -
  have "length (load_canonical_rows_at_height blocks h) = length (canonical_at blocks h)"
    by (simp add: load_canonical_rows_at_height_def canonical_at_def)
  moreover have "load_canonical_rows_at_height blocks h =
      map (\<lambda>b. \<lparr>hr_hash = br_hash b, hr_prev_hash = br_prev_hash b, hr_coinbase_status = br_coinbase_status b\<rparr>)
        (sort_key br_hash (canonical_at blocks h))"
    by (simp add: load_canonical_rows_at_height_def canonical_at_def)
  ultimately show ?thesis
  proof (cases "length (canonical_at blocks h) = 1")
    case True
    then obtain b where "canonical_at blocks h = [b]" by (auto simp: length_Suc_conv)
    then show ?thesis using \<open>load_canonical_rows_at_height blocks h = map _ _\<close> by auto
  next
    case False
    then have "load_canonical_rows_at_height blocks h \<noteq> [r]" "\<nexists>b. canonical_at blocks h = [b]"
      using \<open>length (load_canonical_rows_at_height blocks h) = _\<close> by auto
    then show ?thesis by blast
  qed
qed

lemma proven_covered:
  assumes "proven_prefix blocks c" "0 \<le> a" "b \<le> c"
  shows "covered blocks a b"
proof -
  have e: "extends_chain blocks h" if "0 \<le> h" "h \<le> c" for h
    using assms(1) that by (simp add: proven_prefix_def list_all_iff)
  have one: "\<exists>r. canonical_at blocks h = [r] \<and> br_coinbase_status r = CoinbaseComplete" if "0 \<le> h" "h \<le> c" for h
  proof -
    from e [OF that] obtain r where "load_canonical_rows_at_height blocks h = [r]" "hr_coinbase_status r = CoinbaseComplete"
      by (auto simp: extends_chain_def split: list.split_asm)
    then show ?thesis by (auto simp: canonical_rows_single)
  qed
  have "br_prev_hash r = br_hash p" if "a < h" "h \<le> b" "canonical_at blocks (h - 1) = [p]" "canonical_at blocks h = [r]" for h p r
  proof -
    let ?row = "\<lambda>b. \<lparr>hr_hash = br_hash b, hr_prev_hash = br_prev_hash b, hr_coinbase_status = br_coinbase_status b\<rparr>"
    have "load_canonical_rows_at_height blocks h = [?row r]" "load_canonical_rows_at_height blocks (h - 1) = [?row p]"
      using that by (auto simp: canonical_rows_single)
    with e [of h] that assms show ?thesis by (simp add: extends_chain_def)
  qed
  with one assms show ?thesis by (auto simp: covered_def)
qed

lemma window_served:
  assumes "proven_prefix blocks c" "0 \<le> a" "a \<le> b" "b \<le> c" "c < 2 ^ 31 - 1"
  shows "ensure_tree_backbone_coverage blocks (explicit_window a b) = Inr ()"
proof -
  have "ensure_backbone_window_coverage blocks a b = Inr ()"
    using ensure_covered [of a b blocks] proven_covered [OF assms(1,2,4)] assms by (simp add: i32_ok_def)
  then show ?thesis by (simp add: ensure_tree_backbone_coverage_def window_bounds_def explicit_window_def)
qed

text \<open>C21: What the producer has proven, the API serves: no window at or below a cursor that stands on a proven prefix
  is refused as unsynced or conflicting, for the whole chain or any part of it.\<close>

theorem proven_window_served:
  assumes "proven_prefix blocks c" "0 \<le> a" "a \<le> b" "b \<le> c" "c < 2 ^ 31 - 1"
  shows "ensure_tree_backbone_coverage blocks (explicit_window a b) = Inr ()"
  using assms by (rule window_served)

section \<open>The default window\<close>

lemma fold_max_in: "fold max hs h \<in> insert h (set hs)" for h :: int
  by (induction hs arbitrary: h) (auto, metis insert_iff max_def)

lemma canonical_between_at:
  "a \<le> h \<Longrightarrow> h \<le> b \<Longrightarrow> filter (\<lambda>c. br_height c = Some h) (canonical_between blocks a b) = canonical_at blocks h"
  unfolding canonical_between_def canonical_at_def filter_filter by (rule filter_cong) auto

lemma canonical_at_row: "canonical_at blocks h = [r] \<Longrightarrow> r \<in> set blocks \<and> br_kind r = BkCanonical \<and> br_height r = Some h"
proof -
  assume "canonical_at blocks h = [r]"
  then have "r \<in> set (canonical_at blocks h)" by simp
  then show ?thesis by (simp add: canonical_at_def)
qed

lemma contiguous_tip_covered:
  assumes "load_contiguous_complete_tree_tip_height blocks sync require = Some tip"
  shows "0 \<le> tip \<and> covered blocks (max (tip - 15) 0) tip"
proof -
  obtain row where row: "sync = Some row" using assms by (auto simp: load_contiguous_complete_tree_tip_height_def split: option.split_asm)
  define from0 where "from0 = max (tip - 15) 0"
  define rows where "rows = canonical_between blocks from0 tip"
  have tip: "ss_contiguous_complete_height row = tip"
    using assms row by (simp add: load_contiguous_complete_tree_tip_height_def Let_def split: if_split_asm)
  have c: "0 \<le> tip" "int (length rows) = tip - from0 + 1"
    "list_all (\<lambda>b. let same = filter (\<lambda>c. br_height c = br_height b) rows in
        length same = 1 \<and> list_all (\<lambda>c. br_coinbase_status c = CoinbaseComplete) same) rows"
    "\<not> list_ex (\<lambda>child. list_ex (\<lambda>parent. br_kind parent = BkCanonical \<and>
        br_height parent = map_option (\<lambda>h. h - 1) (br_height child) \<and> br_height parent \<noteq> None \<and>
        br_prev_hash child \<noteq> br_hash parent) blocks) (canonical_between blocks (from0 + 1) tip)"
    using assms row tip
    by (simp_all add: load_contiguous_complete_tree_tip_height_def Let_def rows_def from0_def default_tree_window_heights_def
        split: if_split_asm)
  let ?hs = "map (\<lambda>b. the (br_height b)) rows"
  have in_rows: "br_kind b = BkCanonical \<and> (\<exists>h. br_height b = Some h \<and> from0 \<le> h \<and> h \<le> tip)" if "b \<in> set rows" for b
    using that by (auto simp: rows_def canonical_between_def split: option.split_asm)
  have group: "length (filter (\<lambda>c. br_height c = br_height b) rows) = 1" "br_coinbase_status b = CoinbaseComplete"
    if "b \<in> set rows" for b
    using c(3) that by (auto simp: list_all_iff Let_def)
  have "distinct ?hs"
    unfolding distinct_conv_nth
  proof (intro allI impI)
    fix i j assume ij: "i < length ?hs" "j < length ?hs" "i \<noteq> j"
    show "?hs ! i \<noteq> ?hs ! j"
    proof
      assume eq: "?hs ! i = ?hs ! j"
      have ri: "rows ! i \<in> set rows" "rows ! j \<in> set rows" using ij by simp_all
      have "br_height (rows ! i) = br_height (rows ! j)" using eq ij in_rows [OF ri(1)] in_rows [OF ri(2)] by auto
      then have "{i, j} \<subseteq> {k. k < length rows \<and> br_height (rows ! k) = br_height (rows ! j)}" using ij by auto
      then have "card {i, j} \<le> length (filter (\<lambda>c. br_height c = br_height (rows ! j)) rows)"
        unfolding length_filter_conv_card by (rule card_mono [rotated]) simp
      then show False using group(1) [OF ri(2)] ij(3) by simp
    qed
  qed
  moreover have "set ?hs \<subseteq> {from0..tip}" using in_rows by fastforce
  moreover have "card {from0..tip} = length ?hs" using c(2) by simp
  ultimately have all: "set ?hs = {from0..tip}" by (metis card_subset_eq distinct_card finite_atLeastAtMost_int)
  have one: "\<exists>r. canonical_at blocks h = [r] \<and> br_coinbase_status r = CoinbaseComplete" if h: "from0 \<le> h" "h \<le> tip" for h
  proof -
    obtain b where b: "b \<in> set rows" "br_height b = Some h" using all h in_rows by (fastforce simp: image_iff set_eq_iff)
    have "canonical_at blocks h = filter (\<lambda>c. br_height c = br_height b) rows"
      using canonical_between_at [OF h, of blocks] b(2) by (simp add: rows_def)
    moreover obtain r where r: "filter (\<lambda>c. br_height c = br_height b) rows = [r]"
      using group(1) [OF b(1)] by (auto simp: length_Suc_conv)
    moreover have "b \<in> set (filter (\<lambda>c. br_height c = br_height b) rows)" using b(1) by simp
    ultimately show ?thesis using group(2) [OF b(1)] by simp
  qed
  have "br_prev_hash r = br_hash p" if "from0 < h" "h \<le> tip" "canonical_at blocks (h - 1) = [p]" "canonical_at blocks h = [r]" for h p r
  proof -
    have p: "p \<in> set blocks" "br_kind p = BkCanonical" "br_height p = Some (h - 1)"
      using canonical_at_row [OF that(3)] by simp_all
    have r: "r \<in> set (canonical_between blocks (from0 + 1) tip)" "br_height r = Some h"
      using that(1,2) canonical_at_row [OF that(4)] by (auto simp: canonical_between_def)
    show ?thesis using c(4) p r by (auto simp: list_ex_iff)
  qed
  with one c(1) show ?thesis by (auto simp: covered_def from0_def)
qed

lemma clean_rows:
  assumes "b \<in> set (clean_blocks blocks)"
  shows "\<exists>h. br_height b = Some h \<and> 0 \<le> h \<and> canonical_at blocks h = [b] \<and> br_coinbase_status b = CoinbaseComplete"
proof -
  obtain m where m: "load_max_complete_canonical_height blocks = Some m"
    using assms by (cases "load_max_complete_canonical_height blocks") (auto simp: clean_blocks_def)
  define low where "low = max (m - (default_tree_sparse_scan_heights - 1)) 0"
  define rows where "rows = filter (\<lambda>b. br_kind b = BkCanonical \<and> (case br_height b of Some h \<Rightarrow> low \<le> h | None \<Rightarrow> False)) blocks"
  have b: "b \<in> set rows" "length (filter (\<lambda>c. br_height c = br_height b) rows) = 1" "br_coinbase_status b = CoinbaseComplete"
  proof -
    have "clean_blocks blocks = sort_key (\<lambda>b. the (br_height b)) (filter (\<lambda>b.
        length (filter (\<lambda>c. br_height c = br_height b) rows) = 1 \<and> br_coinbase_status b = CoinbaseComplete) rows)"
      by (simp only: clean_blocks_def m option.case Let_def rows_def low_def)
    then have "b \<in> set (filter (\<lambda>b. length (filter (\<lambda>c. br_height c = br_height b) rows) = 1 \<and>
        br_coinbase_status b = CoinbaseComplete) rows)" using assms by simp
    then show "b \<in> set rows" "length (filter (\<lambda>c. br_height c = br_height b) rows) = 1" "br_coinbase_status b = CoinbaseComplete"
      by simp_all
  qed
  then obtain h where h: "br_height b = Some h" "low \<le> h" by (auto simp: rows_def split: option.split_asm)
  have "canonical_at blocks h = filter (\<lambda>c. br_height c = br_height b) rows"
    unfolding canonical_at_def rows_def filter_filter h(1) by (rule filter_cong) (use h(2) in auto)
  moreover obtain r where "filter (\<lambda>c. br_height c = br_height b) rows = [r]" using b(2) by (auto simp: length_Suc_conv)
  moreover have "b \<in> set (filter (\<lambda>c. br_height c = br_height b) rows)" using b(1) by simp
  ultimately show ?thesis using h b(3) by (simp add: low_def)
qed

definition linked_rows :: "block_row \<Rightarrow> block_row \<Rightarrow> bool" where
  "linked_rows p b \<longleftrightarrow> the (br_height p) = the (br_height b) - 1 \<and> br_prev_hash b = br_hash p"

lemma island_ids_rows: "map snd (island_ids prev n bs) = bs"
  by (induction bs arbitrary: prev n) (simp_all add: Let_def)

lemma island_ids_ge: "x \<in> set (island_ids prev n bs) \<Longrightarrow> n \<le> fst x"
  by (induction bs arbitrary: prev n) (fastforce simp: Let_def split: if_split_asm)+

lemma island_linked:
  "successively linked_rows ((case prev of Some p \<Rightarrow> if m = n then [p] else [] | None \<Rightarrow> []) @ island_rows (island_ids prev n bs) m)"
proof (induction bs arbitrary: prev n)
  case Nil
  then show ?case by (simp add: island_rows_def split: option.split)
next
  case (Cons b bs)
  define joined where "joined = (case prev of None \<Rightarrow> br_height b = Some 0
          | Some p \<Rightarrow> the (br_height p) = the (br_height b) - 1 \<and> br_prev_hash b = br_hash p)"
  define k where "k = (if joined then n else n + 1)"
  have ids: "island_ids prev n (b # bs) = (k, b) # island_ids (Some b) k bs"
    by (simp add: joined_def k_def Let_def)
  have IH: "successively linked_rows ((if m = k then [b] else []) @ island_rows (island_ids (Some b) k bs) m)"
    using Cons [where prev = "Some b" and n = k] by (simp split: if_split_asm)
  have rest: "island_rows (island_ids (Some b) k bs) m = []" if "m < k"
    using that island_ids_ge [where prev = "Some b" and n = k and bs = bs] by (fastforce simp: island_rows_def filter_empty_conv)
  have "island_rows (island_ids prev n (b # bs)) m = (if m = k then [b] else []) @ island_rows (island_ids (Some b) k bs) m"
    unfolding ids island_rows_def by simp
  moreover have "successively linked_rows (p # (if m = k then [b] else []) @ island_rows (island_ids (Some b) k bs) m)"
    if p: "prev = Some p" "m = n" for p
  proof (cases joined)
    case True
    then have "m = k" "linked_rows p b" using p by (simp_all add: k_def joined_def linked_rows_def)
    then show ?thesis using IH by simp
  next
    case False
    then have "m < k" using p by (simp add: k_def)
    then show ?thesis using rest by simp
  qed
  ultimately show ?case using IH by (auto split: option.split)
qed

lemma sparse_tip_covered:
  assumes "load_sparse_complete_tree_tip_height blocks = Some tip"
  shows "0 \<le> tip \<and> covered blocks (max (tip - 15) 0) tip"
proof -
  let ?ids = "island_ids None 0 (clean_blocks blocks)"
  obtain n i where i: "i < length (island_rows ?ids n)" "ends_window (island_rows ?ids n) i"
    "the (br_height (island_rows ?ids n ! i)) = tip"
  proof -
    define tips where "tips = concat (map (\<lambda>n. let island = island_rows ?ids n in
             map (\<lambda>i. the (br_height (island ! i))) (filter (ends_window island) [0..<length island])) (remdups (map fst ?ids)))"
    have "tip \<in> set tips"
      using assms fold_max_in unfolding load_sparse_complete_tree_tip_height_def Let_def tips_def [unfolded Let_def, symmetric]
      by (fastforce split: list.split_asm)
    then show thesis using that by (auto simp: tips_def Let_def)
  qed
  define I where "I = island_rows ?ids n"
  have "set I \<subseteq> set (clean_blocks blocks)"
    using arg_cong [OF island_ids_rows [where prev = None and n = 0 and bs = "clean_blocks blocks"], of set] by (auto simp: I_def island_rows_def)
  then have clean: "\<exists>h. br_height (I ! j) = Some h \<and> 0 \<le> h \<and> canonical_at blocks h = [I ! j] \<and> br_coinbase_status (I ! j) = CoinbaseComplete"
    if "j < length I" for j using clean_rows that nth_mem by blast
  have "successively linked_rows I" using island_linked [where prev = None and m = n and n = 0 and bs = "clean_blocks blocks"] by (simp add: I_def)
  then have link: "linked_rows (I ! j) (I ! Suc j)" if "Suc j < length I" for j using that by (simp add: successively_conv_nth)
  have len: "i < length I" and tip: "the (br_height (I ! i)) = tip" using i by (simp_all add: I_def)
  have heights: "br_height (I ! (i - k)) = Some (tip - int k)" if "k \<le> i" for k
    using that
  proof (induction k)
    case 0
    then show ?case using clean [OF len] tip by auto
  next
    case (Suc k)
    then have s: "Suc (i - Suc k) = i - k" "i - Suc k < length I" using len by auto
    with link [of "i - Suc k"] len have "linked_rows (I ! (i - Suc k)) (I ! (i - k))" by simp
    with Suc clean [OF s(2)] show ?case by (auto simp: linked_rows_def)
  qed
  have low: "nat (tip - max (tip - 15) 0) \<le> i"
    using i(2) heights [of i] unfolding ends_window_def I_def [symmetric] Let_def default_tree_window_heights_def tip by auto
  have tip0: "0 \<le> tip" using clean [OF len] tip by auto
  have at: "canonical_at blocks h = [I ! (i - nat (tip - h))] \<and> br_coinbase_status (I ! (i - nat (tip - h))) = CoinbaseComplete"
    if "max (tip - 15) 0 \<le> h" "h \<le> tip" for h
  proof -
    have "nat (tip - h) \<le> nat (tip - max (tip - 15) 0)" by (rule nat_mono) (use that in simp)
    then have "nat (tip - h) \<le> i" using low by simp
    from heights [OF this] clean [of "i - nat (tip - h)"] len that show ?thesis by auto
  qed
  have prev: "br_prev_hash r = br_hash p"
    if h: "max (tip - 15) 0 < h" "h \<le> tip" "canonical_at blocks (h - 1) = [p]" "canonical_at blocks h = [r]" for h p r
  proof -
    have "nat (tip - (h - 1)) \<le> nat (tip - max (tip - 15) 0)" by (rule nat_mono) (use h in linarith)
    then have "nat (tip - (h - 1)) \<le> i" using low by simp
    moreover have s: "nat (tip - (h - 1)) = Suc (nat (tip - h))" using h(2) by simp
    ultimately have k: "i - nat (tip - h) = Suc (i - nat (tip - (h - 1)))" "Suc (i - nat (tip - (h - 1))) < length I"
      using len by simp_all
    have "max (tip - 15) 0 \<le> h - 1" "max (tip - 15) 0 \<le> h" "h - 1 \<le> tip" using h(1,2) by linarith+
    then have "r = I ! (i - nat (tip - h))" "p = I ! (i - nat (tip - (h - 1)))"
      using at [of h] at [of "h - 1"] h(2-4) by simp_all
    then show ?thesis using link [OF k(2)] k(1) by (simp add: linked_rows_def)
  qed
  show ?thesis
    unfolding covered_def using at prev tip0 by (intro conjI allI impI) (blast, blast, elim conjE, rule prev)
qed

text \<open>C19: The default tree is always served.  Whichever of its three strategies finds the tip, the window of sixteen heights
  below it passes the coverage check: the strategies never name a tip that the check then refuses.\<close>

theorem default_window_served:
  assumes "load_default_tree_tip_height blocks sync = Some tip" "tip < 2 ^ 31 - 1"
  shows "ensure_tree_backbone_coverage blocks (for_tip tip) = Inr ()"
proof -
  have c: "0 \<le> tip \<and> covered blocks (max (tip - 15) 0) tip"
    using assms(1) contiguous_tip_covered sparse_tip_covered
    by (auto simp: load_default_tree_tip_height_def split: option.split_asm)
  have b: "window_bounds (for_tip tip) = Some (max (tip - 15) 0, tip)"
    using c assms(2) by (simp add: for_tip_def window_bounds_def default_tree_window_heights_def sat_i32_def)
  show ?thesis
    using c ensure_covered [of "max (tip - 15) 0" tip blocks] assms(2)
    by (simp add: ensure_tree_backbone_coverage_def b i32_ok_def)
qed


section \<open>Compact windows\<close>

lemma foldl_nonempty: "(\<And>xs y. f xs y \<noteq> []) \<Longrightarrow> ys \<noteq> [] \<Longrightarrow> foldl f xs ys \<noteq> []"
  by (induction ys rule: rev_induct) simp_all

lemma compact_windows_nonempty: "compact_candidate_windows target_height max_height \<noteq> []"
  unfolding compact_candidate_windows_def
  by (rule foldl_nonempty) (simp add: Let_def, simp add: compact_radius_schedule_def)

lemma compact_windows_around:
  assumes "0 \<le> t" "t \<le> m" "m < 2 ^ 31" "w \<in> set (compact_candidate_windows t m)"
  shows "0 \<le> fst w \<and> fst w \<le> t \<and> t \<le> snd w \<and> snd w \<le> m"
proof -
  have "set (foldl (\<lambda>ranges radius.
       let w = (max (sat_i32 (t - radius)) 0, min (sat_i32 (t + radius)) m) in
       if ranges \<noteq> [] \<and> last ranges = w then ranges else ranges @ [w]) acc rs) \<subseteq>
     set acc \<union> (\<lambda>radius. (max (sat_i32 (t - radius)) 0, min (sat_i32 (t + radius)) m)) ` set rs" for acc rs
    by (induction rs arbitrary: acc) (fastforce simp: Let_def split: if_split_asm)+
  from this [of "[]" compact_radius_schedule] assms(4)
  obtain r where r: "r \<in> set compact_radius_schedule" "w = (max (sat_i32 (t - r)) 0, min (sat_i32 (t + r)) m)"
    unfolding compact_candidate_windows_def by auto
  have "0 \<le> r" using r(1) by (auto simp: compact_radius_schedule_def)
  then show ?thesis using assms(1-3) r(2) by (auto simp: sat_i32_def)
qed

lemma compact_retries_attempt:
  "ws \<noteq> [] \<Longrightarrow> \<exists>w\<in>set ws. compact_retries attempt ws = Some (attempt w)"
  by (induction ws) (auto split: sum.split)

text \<open>A compact lookup always answers.  Its retries never run off the list of windows (the source's \<open>unreachable!\<close>): the answer
  is that of an attempt on one of the candidate windows, all of them around the target; and at a target at or below a
  cursor on a proven prefix none of the windows up to it is refused for coverage.\<close>

lemma compact_lookup_answers:
  assumes "0 \<le> t" "t \<le> m" "m \<le> c" "c < 2 ^ 31 - 1" "proven_prefix blocks c"
  shows "\<exists>w \<in> set (compact_candidate_windows t m).
    compact_retries attempt (compact_candidate_windows t m) = Some (attempt w) \<and> fst w \<le> t \<and> t \<le> snd w \<and>
    ensure_tree_backbone_coverage blocks (explicit_window (fst w) (snd w)) = Inr ()"
proof -
  obtain w where w: "w \<in> set (compact_candidate_windows t m)"
    "compact_retries attempt (compact_candidate_windows t m) = Some (attempt w)"
    using compact_retries_attempt [OF compact_windows_nonempty] by blast
  have b: "0 \<le> fst w \<and> fst w \<le> t \<and> t \<le> snd w \<and> snd w \<le> m"
    by (rule compact_windows_around) (use assms w(1) in simp_all)
  then show ?thesis using w window_served [of blocks c "fst w" "snd w"] assms by (intro bexI [of _ w]) simp_all
qed

section \<open>Concrete windows\<close>

abbreviation demo_rows :: "block_row list" where
  "demo_rows \<equiv> db_blocks (co_db demo_fresh)"

theorem coverage_checks_agree_witness:
  "ensure_backbone_window_coverage demo_rows 0 0 = Inr () \<and>
   window_is_complete (load_backbone_window_coverage demo_rows 0 0) 0 0"
  using coverage_checks_agree [of 0 0 demo_rows] proven_covered [OF demo_genesis_proven, of 0 0] by (simp add: i32_ok_def)

theorem proven_window_served_witness: "ensure_tree_backbone_coverage demo_rows (explicit_window 0 0) = Inr ()"
  using proven_window_served [OF demo_genesis_proven, of 0 0] by simp

lemma demo_default_tip: "load_default_tree_tip_height [demo_genesis_row] None = Some 0"
  by code_simp

theorem default_window_served_witness: "ensure_tree_backbone_coverage [demo_genesis_row] (for_tip 0) = Inr ()"
  using default_window_served [OF demo_default_tip] by simp

lemma compact_lookup_answers_witness:
  "\<exists>w \<in> set (compact_candidate_windows 0 0).
    compact_retries (\<lambda>w. Inr w) (compact_candidate_windows 0 0) = Some (Inr w :: (projection_error, int \<times> int) result) \<and> fst w \<le> 0 \<and> 0 \<le> snd w \<and>
    ensure_tree_backbone_coverage demo_rows (explicit_window (fst w) (snd w)) = Inr ()"
  using compact_lookup_answers [of 0 0 0 demo_rows "\<lambda>w. Inr w"] demo_genesis_proven by simp

end
