(* ===== verification/Tree_Build.thy ===== *)
theory Tree_Build
  imports Tree_Window
begin

text \<open>
  \<open>crates/mmm-api/src/projection/tree/reduction.rs\<close>, \<open>build.rs\<close> and the assembly of \<open>tree/mod.rs\<close>: which parents a tree
  shows, which stretches of the canonical chain it hides behind an edge, and the nodes, edges and
  branches it is made of.  A hash set is the list of its members, a hash map keyed by unique hashes an
  association list; maps that iterate in key order are sorted.  Columns that a node only carries along
  (miner pools, evidence, proof state) are one field, \<open>pj_rest\<close>, of any type.
\<close>

section \<open>Reduction\<close>

record reduction_node =
  rn_hash :: string
  rn_prev_hash :: string
  rn_height :: "int option"
  rn_kind :: parent_kind
  rn_protected :: bool
  rn_evidence :: bool

definition node_limit :: nat where "node_limit = 500"

definition node_count_error :: "nat \<Rightarrow> nat \<Rightarrow> api_error" where
  "node_count_error limit received = RangeTooLarge ''node_count'' limit received"

definition removable_context :: "reduction_node \<Rightarrow> bool" where
  "removable_context node \<longleftrightarrow> rn_kind node = Canonical \<and> \<not> rn_protected node \<and> \<not> rn_evidence node"

definition consider_run :: "reduction_node list \<Rightarrow> string list \<Rightarrow> string list" where
  "consider_run run best =
     (if length run \<le> 2 then best
      else
        let removable = map rn_hash (filter removable_context (butlast (tl run))) in
        if removable = [] then best
        else if length best < length removable \<or>
                (length removable = length best \<and> best \<noteq> [] \<and> hd removable < hd best)
        then removable else best)"

text \<open>One node of the scan; the state is the best run and the current one.\<close>

definition scan_node :: "reduction_node \<Rightarrow> string list \<times> reduction_node list \<Rightarrow> string list \<times> reduction_node list" where
  "scan_node node state =
     (case state of (best, current) \<Rightarrow>
        if rn_kind node \<noteq> Canonical then (consider_run current best, [])
        else if current \<noteq> [] \<and> rn_prev_hash node \<noteq> rn_hash (last current) then (consider_run current best, [node])
        else (best, current @ [node]))"

definition largest_removable_run :: "reduction_node list \<Rightarrow> string list \<Rightarrow> string list option" where
  "largest_removable_run nodes visible =
     (let sorted = sort_key (\<lambda>n. (rn_height n, rn_hash n))
            (filter (\<lambda>n. List.member visible (rn_hash n) \<and> rn_height n \<noteq> None) nodes);
          (best, current) = fold scan_node sorted ([], []);
          best1 = consider_run current best
      in if best1 = [] then None else Some best1)"

lemma consider_run_from:
  "set (consider_run run best) \<subseteq> set best \<union> rn_hash ` {n \<in> set run. removable_context n}"
  by (cases run) (auto simp: consider_run_def Let_def dest: in_set_butlastD)

lemma scan_from:
  "fold scan_node ns (best, current) = (best', current') \<Longrightarrow>
     set best' \<subseteq> set best \<union> rn_hash ` {n \<in> set current \<union> set ns. removable_context n} \<and> set current' \<subseteq> set current \<union> set ns"
proof (induction ns arbitrary: best current)
  case (Cons n ns)
  obtain b c where s: "scan_node n (best, current) = (b, c)" by fastforce
  then have "set b \<subseteq> set best \<union> rn_hash ` {n \<in> set current. removable_context n}" "set c \<subseteq> insert n (set current)"
    using consider_run_from [of current best] by (auto simp: scan_node_def split: if_split_asm)
  moreover from Cons.IH [of b c] Cons.prems s
  have "set best' \<subseteq> set b \<union> rn_hash ` {n \<in> set c \<union> set ns. removable_context n} \<and> set current' \<subseteq> set c \<union> set ns" by simp
  moreover have "rn_hash ` {m \<in> set c \<union> set ns. removable_context m} \<subseteq> rn_hash ` {m \<in> insert n (set current) \<union> set ns. removable_context m}"
    using calculation(2) by (intro image_mono) blast
  ultimately show ?case by simp blast
qed simp

lemma removable_run_from:
  assumes "largest_removable_run nodes visible = Some run"
  shows "run \<noteq> []" "set run \<subseteq> rn_hash ` {n \<in> set nodes. removable_context n \<and> rn_hash n \<in> set visible \<and> rn_height n \<noteq> None}"
proof -
  define ns where "ns = sort_key (\<lambda>n. (rn_height n, rn_hash n))
      (filter (\<lambda>n. List.member visible (rn_hash n) \<and> rn_height n \<noteq> None) nodes)"
  obtain best current where f: "fold scan_node ns ([], []) = (best, current)" by fastforce
  have run: "run = consider_run current best" "run \<noteq> []"
    using assms f by (auto simp: largest_removable_run_def ns_def Let_def split: if_split_asm prod.split_asm)
  have ns: "set ns = {n \<in> set nodes. rn_hash n \<in> set visible \<and> rn_height n \<noteq> None}"
    by (auto simp: ns_def)
  have "rn_hash ` {n \<in> set current. removable_context n} \<subseteq> rn_hash ` {n \<in> set ns. removable_context n}"
    using scan_from [OF f] by (intro image_mono) auto
  with scan_from [OF f] consider_run_from [of current best]
  have "set run \<subseteq> rn_hash ` {n \<in> set ns. removable_context n}" unfolding run(1) by simp blast
  then show "run \<noteq> []" "set run \<subseteq> rn_hash ` {n \<in> set nodes. removable_context n \<and> rn_hash n \<in> set visible \<and> rn_height n \<noteq> None}"
    using run(2) by (auto simp: ns)
qed

function reduce_loop :: "nat \<Rightarrow> reduction_node list \<Rightarrow> string list \<Rightarrow> (api_error, string list) result" where
  "reduce_loop limit nodes visible =
     (if length visible \<le> limit then Inr visible
      else case largest_removable_run nodes visible of
          None \<Rightarrow> Inl (node_count_error limit (length visible))
        | Some run \<Rightarrow> reduce_loop limit nodes (filter (\<lambda>h. \<not> List.member run h) visible))"
  by pat_completeness auto

termination
proof (relation "measure (\<lambda>(limit, nodes, visible). length visible)", goal_cases)
  case (2 limit nodes visible run)
  from removable_run_from [OF 2(2)] obtain h where "h \<in> set run" "h \<in> set visible" by (cases run) auto
  then have "length (filter (\<lambda>h. \<not> List.member run h) visible) < length visible"
    by (intro length_filter_less) auto
  then show ?case by simp
qed simp

declare reduce_loop.simps [simp del]

definition reduce_to :: "nat \<Rightarrow> reduction_node list \<Rightarrow> (api_error, string list) result" where
  "reduce_to limit nodes =
     (let protected_count = length (filter rn_protected nodes) in
      if limit < protected_count then Inl (node_count_error limit protected_count)
      else reduce_loop limit nodes (sort (remdups (map rn_hash nodes))))"

definition reduce :: "reduction_node list \<Rightarrow> (api_error, string list) result" where
  "reduce = reduce_to node_limit"

section \<open>Projections\<close>

record tree_competition =
  tc_btc_height :: int
  tc_stale_hash :: string
  tc_canonical_hash :: string
  tc_header_time_delta_s :: "int option"

record competition_core =
  cp_stale_hash :: bytes
  cp_canonical_hash :: bytes
  cp_header_time_delta_s :: "int option"

record 'r parent_projection =
  pj_hash_bytes :: bytes
  pj_hash :: string
  pj_prev_hash :: string
  pj_height :: "int option"
  pj_kind :: parent_kind
  pj_header_time :: int
  pj_distinct_sources :: nat
  pj_evidence :: bool
  pj_protected :: bool
  pj_competition :: "tree_competition option"
  pj_rest :: 'r

record tree_query =
  tq_kinds :: "parent_kind list"
  tq_classification_pending :: bool
  tq_include_unheighted :: bool
  tq_unheighted_from :: "int option"
  tq_unheighted_to :: "int option"
  tq_min_sources :: nat

definition kind_selected :: "parent_kind list \<Rightarrow> parent_kind \<Rightarrow> bool" where
  "kind_selected kinds kind = List.member kinds kind"

definition attach_competitions :: "competition_core list \<Rightarrow> 'r parent_projection list \<Rightarrow> 'r parent_projection list" where
  "attach_competitions competitions projections =
     map (\<lambda>p.
       if pj_kind p \<noteq> Stale then p
       else case List.find (\<lambda>c. cp_stale_hash c = pj_hash_bytes p) competitions of
           None \<Rightarrow> p
         | Some c \<Rightarrow>
             (case display_hash (cp_canonical_hash c) of
                Inl _ \<Rightarrow> p
              | Inr canonical_hash \<Rightarrow>
                  p\<lparr>pj_competition := Some \<lparr>tc_btc_height = (case pj_height p of Some h \<Rightarrow> h | None \<Rightarrow> 0),
                      tc_stale_hash = (case map_of (rev (map (\<lambda>q. (pj_hash_bytes q, pj_hash q)) projections)) (cp_stale_hash c) of
                        Some h \<Rightarrow> h | None \<Rightarrow> pj_hash p),
                      tc_canonical_hash = canonical_hash, tc_header_time_delta_s = cp_header_time_delta_s c\<rparr>\<rparr>)) projections"

section \<open>Stale branches\<close>

definition heighted_stale :: "'r parent_projection list \<Rightarrow> 'r parent_projection list" where
  "heighted_stale projections = filter (\<lambda>p. pj_height p \<noteq> None \<and> pj_kind p = Stale) projections"

text \<open>The links between stale projections: \<open>prev_by_hash\<close> and, reversed, \<open>children_by_hash\<close>.\<close>

definition stale_links :: "'r parent_projection list \<Rightarrow> (string \<times> string) list" where
  "stale_links projections =
     (let stale = heighted_stale projections in
      map (\<lambda>p. (pj_hash p, pj_prev_hash p)) (filter (\<lambda>p. List.member (map pj_hash stale) (pj_prev_hash p)) stale))"

function stale_branch_root_from :: "(string \<times> string) list \<Rightarrow> string list \<Rightarrow> string \<Rightarrow> string" where
  "stale_branch_root_from prev_by_hash seen root =
     (if List.member seen root then root
      else case map_of prev_by_hash root of
          None \<Rightarrow> root
        | Some prev_hash \<Rightarrow> stale_branch_root_from prev_by_hash (root # seen) prev_hash)"
  by pat_completeness auto

termination
proof (relation "measure (\<lambda>(prevs, seen, root). card (set (map fst prevs) - set seen))", goal_cases)
  case (2 prevs seen root prev)
  then have "root \<in> set (map fst prevs) - set seen" by (force dest: map_of_SomeD)
  then have "set (map fst prevs) - set (root # seen) \<subset> set (map fst prevs) - set seen" by auto
  then show ?case by (simp add: psubset_card_mono)
qed simp

text \<open>Collected into a map, a later entry replaces an earlier one.\<close>

definition stale_branch_root :: "string \<Rightarrow> (string \<times> string) list \<Rightarrow> string" where
  "stale_branch_root hash prev_by_hash = stale_branch_root_from (rev prev_by_hash) [] hash"

definition children_of :: "(string \<times> string) list \<Rightarrow> string \<Rightarrow> string list" where
  "children_of links hash = map fst (filter (\<lambda>l. snd l = hash) links)"

text \<open>The worklist of \<open>include_stale_descendants\<close>; the last child pushed is the first taken.\<close>

function include_stale_descendants :: "(string \<times> string) list \<Rightarrow> string list \<Rightarrow> string list \<Rightarrow> string list" where
  "include_stale_descendants links seen [] = seen"
| "include_stale_descendants links seen (hash # stack) =
     (if List.member seen hash then include_stale_descendants links seen stack
      else include_stale_descendants links (hash # seen) (rev (children_of links hash) @ stack))"
  by pat_completeness auto

termination
proof (relation "(\<lambda>(links, seen, stack). card ((set (map fst links) \<union> set stack) - set seen)) <*mlex*> measure (\<lambda>(links, seen, stack). length stack)",
    goal_cases)
  case 1
  show ?case by (simp add: wf_mlex)
next
  case (2 links seen hash stack)
  then have "(set (map fst links) \<union> set (hash # stack)) - set seen = (set (map fst links) \<union> set stack) - set seen" by auto
  then show ?case by (auto intro: mlex_leq)
next
  case (3 links seen hash stack)
  have "set (children_of links hash) \<subseteq> set (map fst links)" by (auto simp: children_of_def)
  then have "(set (map fst links) \<union> set (rev (children_of links hash) @ stack)) - set (hash # seen) \<subset>
      (set (map fst links) \<union> set (hash # stack)) - set seen" using 3 by auto
  then have "card ((set (map fst links) \<union> set (rev (children_of links hash) @ stack)) - set (hash # seen)) <
      card ((set (map fst links) \<union> set (hash # stack)) - set seen)" by (intro psubset_card_mono) auto
  then show ?case by (auto intro: mlex_less)
qed

definition stale_branch_members_to_include :: "tree_query \<Rightarrow> 'r parent_projection list \<Rightarrow> string list" where
  "stale_branch_members_to_include query projections =
     (let links = stale_links projections in
      fold (\<lambda>p include.
        if \<not> kind_selected (tq_kinds query) (pj_kind p) \<or> pj_distinct_sources p < tq_min_sources query then include
        else include_stale_descendants links [] [stale_branch_root (pj_hash p) links] @ include) (heighted_stale projections) [])"

definition stale_attach_parent_hashes :: "'r parent_projection list \<Rightarrow> string list \<Rightarrow> string list" where
  "stale_attach_parent_hashes projections members =
     map pj_prev_hash (filter (\<lambda>p. List.member members (pj_hash p) \<and> \<not> List.member members (pj_prev_hash p) \<and>
       map_of (rev (map (\<lambda>q. (pj_hash q, pj_kind q)) projections)) (pj_prev_hash p) = Some Canonical) projections)"

definition stale_member_competitor_hashes :: "'r parent_projection list \<Rightarrow> string list \<Rightarrow> string list" where
  "stale_member_competitor_hashes projections members =
     List.map_filter (\<lambda>p. map_option tc_canonical_hash (pj_competition p)) (filter (\<lambda>p. List.member members (pj_hash p)) projections)"

definition ensure_emitted_stale_competitions :: "'r parent_projection list \<Rightarrow> (projection_error, unit) result" where
  "ensure_emitted_stale_competitions projections =
     (case List.find (\<lambda>p. pj_kind p = Stale \<and> pj_competition p = None) projections of
        Some p \<Rightarrow> Inl (Internal (''emitted stale block '' @ pj_hash p @ '' is missing competition''))
      | None \<Rightarrow> Inr ())"

section \<open>Candidates\<close>

text \<open>A date is its day number; \<open>OffsetDateTime::from_unix_timestamp\<close> refuses seconds outside the years -9999 to 9999.\<close>

definition date_from_epoch :: "int \<Rightarrow> int option" where
  "date_from_epoch epoch = (if -377705116800 \<le> epoch \<and> epoch \<le> 253402300799 then Some (epoch div 86400) else None)"

definition unheighted_in_range :: "tree_query \<Rightarrow> 'r parent_projection \<Rightarrow> (projection_error, bool) result" where
  "unheighted_in_range query p =
     (case (tq_unheighted_from query, tq_unheighted_to query) of
        (Some from, Some to) \<Rightarrow>
          (case date_from_epoch (pj_header_time p) of
             None \<Rightarrow> Inl (Api (InvalidQuery ''parent header time could not be interpreted as UTC''))
           | Some date \<Rightarrow> Inr (from \<le> date \<and> date \<le> to))
      | _ \<Rightarrow> Inr False)"

record node_protection =
  np_stale_branch_members :: "string list"
  np_protected_stale_attach_parents :: "string list"
  np_protected_competitors :: "string list"
  np_protected_context :: "string list"

text \<open>One projection of the first loop of \<open>select_tree_candidates\<close>: the candidate it becomes, if any, and whether it counts as
  unheighted.\<close>

definition select_projection ::
  "tree_query \<Rightarrow> node_protection \<Rightarrow> 'r parent_projection \<Rightarrow> (projection_error, ('r parent_projection \<times> bool) option) result" where
  "select_projection query np p =
     (let is_selected = kind_selected (tq_kinds query) (pj_kind p);
          enough_sources = tq_min_sources query \<le> pj_distinct_sources p;
          evidence = is_selected \<and> enough_sources
      in case (pj_height p, pj_kind p) of
          (Some _, Canonical) \<Rightarrow>
            Inr (Some (p\<lparr>pj_evidence := evidence, pj_protected := evidence \<or>
              List.member (np_protected_competitors np) (pj_hash p) \<or>
              List.member (np_protected_stale_attach_parents np) (pj_hash p) \<or>
              List.member (np_protected_context np) (pj_hash p)\<rparr>, False))
        | (Some _, Stale) \<Rightarrow>
            Inr (if List.member (np_stale_branch_members np) (pj_hash p)
                 then Some (p\<lparr>pj_evidence := evidence, pj_protected := True\<rparr>, False) else None)
        | (Some _, InvalidBlock) \<Rightarrow>
            Inr (if evidence then Some (p\<lparr>pj_evidence := True, pj_protected := True\<rparr>, False) else None)
        | (None, Unknown) \<Rightarrow>
            if tq_include_unheighted query \<and> evidence
            then rbind (unheighted_in_range query p) (\<lambda>inside.
                 Inr (if inside then Some (p\<lparr>pj_evidence := True, pj_protected := True\<rparr>, True) else None))
            else Inr None
        | _ \<Rightarrow> Inr None)"

definition select_direct ::
  "tree_query \<Rightarrow> 'r parent_projection \<Rightarrow> (projection_error, ('r parent_projection \<times> bool) option) result" where
  "select_direct query p =
     (if tq_min_sources query \<le> pj_distinct_sources p
      then rbind (unheighted_in_range query p) (\<lambda>inside.
           Inr (if inside then Some (p\<lparr>pj_evidence := True, pj_protected := True\<rparr>, True) else None))
      else Inr None)"

text \<open>\<open>direct\<close> are the projections of events without a block row.\<close>

definition select_tree_candidates ::
  "tree_query \<Rightarrow> 'r parent_projection list \<Rightarrow> (projection_error, 'r parent_projection list) result \<Rightarrow> node_protection \<Rightarrow>
     (projection_error, 'r parent_projection list \<times> nat) result" where
  "select_tree_candidates query projections direct np =
     rbind (collect_results (select_projection query np) projections) (\<lambda>selected.
     rbind (if tq_include_unheighted query \<and> tq_classification_pending query \<and> kind_selected (tq_kinds query) Unknown
            then rbind direct (collect_results (select_direct query)) else Inr []) (\<lambda>extra.
     let chosen = List.map_filter (\<lambda>x. x) (selected @ extra)
     in Inr (map fst chosen, length (filter snd chosen))))"

definition relax_compact_canonical_backbone :: "node_protection \<Rightarrow> 'r parent_projection list \<Rightarrow> 'r parent_projection list" where
  "relax_compact_canonical_backbone np candidates =
     map (\<lambda>p.
       if pj_kind p = Canonical \<and>
          \<not> (List.member (np_protected_stale_attach_parents np) (pj_hash p) \<or> List.member (np_protected_competitors np) (pj_hash p) \<or>
             List.member (np_protected_context np) (pj_hash p))
       then p\<lparr>pj_protected := False, pj_evidence := False\<rparr> else p) candidates"

section \<open>Nodes and edges\<close>

text \<open>Height-bearing first, then by height, then by hash.\<close>

definition sort_nodes :: "'r parent_projection list \<Rightarrow> 'r parent_projection list" where
  "sort_nodes nodes = sort_key (\<lambda>p. (pj_height p = None, pj_height p, pj_hash p)) nodes"

record tree_edge =
  te_from_hash :: string
  te_to_hash :: string
  te_hidden_count :: "nat option"
  te_edge_kind :: string

record 'r tree_node =
  tn_id :: nat
  tn_hash :: string
  tn_height :: "int option"
  tn_kind :: parent_kind
  tn_prev_id :: "nat option"
  tn_prev_hash :: string
  tn_branch :: "string option"
  tn_competition :: "tree_competition option"
  tn_placement_height :: "int option"
  tn_rest :: 'r

definition visible_edge_kind :: "parent_kind option \<Rightarrow> parent_kind \<Rightarrow> string option" where
  "visible_edge_kind prev_kind kind =
     (if kind = Stale then Some (if prev_kind = Some Stale then ''stale'' else ''stale_entry'')
      else if kind = Canonical \<and> prev_kind = Some Canonical then Some ''canonical''
      else None)"

function hidden_predecessor_from ::
  "string list \<Rightarrow> (string \<Rightarrow> string option) \<Rightarrow> string list \<Rightarrow> string list \<Rightarrow> string \<Rightarrow> nat \<Rightarrow> (string \<times> nat) option" where
  "hidden_predecessor_from ids ancestry keys seen cursor hidden_count =
     (if List.member seen cursor then None
      else if List.member ids cursor then (if 0 < hidden_count then Some (cursor, hidden_count) else None)
      else if \<not> List.member keys cursor then None
      else case ancestry cursor of
          None \<Rightarrow> None
        | Some next \<Rightarrow> hidden_predecessor_from ids ancestry keys (cursor # seen) next (hidden_count + 1))"
  by pat_completeness auto

termination
proof (relation "measure (\<lambda>(ids, ancestry, keys, seen, cursor, n). card (set keys - set seen))", goal_cases)
  case (2 ids ancestry keys seen cursor n nxt)
  then have "set keys - set (cursor # seen) \<subset> set keys - set seen" by auto
  then show ?case by (simp add: psubset_card_mono)
qed simp

declare hidden_predecessor_from.simps [simp del]

text \<open>The ancestry map: the candidates first, then the extra ancestry, whose entries replace theirs.\<close>

definition ancestry_map :: "(string \<times> string) list \<Rightarrow> string \<Rightarrow> string option" where
  "ancestry_map entries = map_of (rev entries)"

definition hidden_predecessor :: "string \<Rightarrow> string list \<Rightarrow> (string \<times> string) list \<Rightarrow> (string \<times> nat) option" where
  "hidden_predecessor prev_hash ids entries =
     hidden_predecessor_from ids (ancestry_map entries) (map fst entries) [] prev_hash 0"

text \<open>The identifiers: the position of the last projection with that hash, counted from one.\<close>

definition id_by_hash :: "'r parent_projection list \<Rightarrow> string \<Rightarrow> nat option" where
  "id_by_hash projections = map_of (rev (zip (map pj_hash projections) [1..<Suc (length projections)]))"

definition kind_by_hash :: "'r parent_projection list \<Rightarrow> string \<Rightarrow> parent_kind option" where
  "kind_by_hash projections = map_of (rev (map (\<lambda>p. (pj_hash p, pj_kind p)) projections))"

text \<open>The predecessor and the edge of one projection, and how many blocks its edge hides.\<close>

definition node_edge ::
  "'r parent_projection list \<Rightarrow> (string \<times> string) list \<Rightarrow> 'r parent_projection \<Rightarrow> nat option \<times> tree_edge option \<times> nat" where
  "node_edge projections entries p =
     (case id_by_hash projections (pj_prev_hash p) of
        Some prev_id \<Rightarrow>
          (Some prev_id, map_option (\<lambda>edge_kind. \<lparr>te_from_hash = pj_prev_hash p, te_to_hash = pj_hash p, te_hidden_count = None,
              te_edge_kind = edge_kind\<rparr>) (visible_edge_kind (kind_by_hash projections (pj_prev_hash p)) (pj_kind p)), 0)
      | None \<Rightarrow>
          (case (if pj_kind p \<noteq> InvalidBlock then hidden_predecessor (pj_prev_hash p) (map pj_hash projections) entries else None) of
             Some (prev_hash, hidden_count) \<Rightarrow>
               (id_by_hash projections prev_hash,
                map_option (\<lambda>_. \<lparr>te_from_hash = prev_hash, te_to_hash = pj_hash p, te_hidden_count = Some hidden_count,
                  te_edge_kind = ''hidden''\<rparr>) (id_by_hash projections prev_hash), hidden_count)
           | None \<Rightarrow> (None, None, 0)))"

definition tree_node_of :: "'r parent_projection list \<Rightarrow> (string \<times> string) list \<Rightarrow> 'r parent_projection \<Rightarrow> 'r tree_node" where
  "tree_node_of projections entries p =
     \<lparr>tn_id = (case id_by_hash projections (pj_hash p) of Some i \<Rightarrow> i | None \<Rightarrow> 0), tn_hash = pj_hash p, tn_height = pj_height p,
      tn_kind = pj_kind p, tn_prev_id = fst (node_edge projections entries p), tn_prev_hash = pj_prev_hash p, tn_branch = None,
      tn_competition = pj_competition p, tn_placement_height = None, tn_rest = pj_rest p\<rparr>"

text \<open>The walk of \<open>assign_branches\<close> to the root of a stale node; it has no guard against a cycle, so not returning is \<open>None\<close>.\<close>

partial_function (option) branch_root :: "'r tree_node list \<Rightarrow> 'r tree_node \<Rightarrow> 'r tree_node option" where
  "branch_root nodes root =
     (if List.member (map tn_hash (filter (\<lambda>n. tn_kind n = Stale) nodes)) (tn_prev_hash root)
      then case List.find (\<lambda>n. tn_hash n = tn_prev_hash root) nodes of
          None \<Rightarrow> Some root
        | Some prev \<Rightarrow> branch_root nodes prev
      else Some root)"

declare branch_root.simps [code]

text \<open>\<open>format!("stale-{height}-{}", root.hash)\<close>; \<open>show_i32\<close> prints the height.\<close>

definition branch_id_of :: "(int \<Rightarrow> string) \<Rightarrow> 'r tree_node \<Rightarrow> string" where
  "branch_id_of show_i32 root = ''stale-'' @ show_i32 (case tn_height root of Some h \<Rightarrow> h | None \<Rightarrow> 0) @ ''-'' @ tn_hash root"

fun collect_options :: "('a \<Rightarrow> 'b option) \<Rightarrow> 'a list \<Rightarrow> 'b list option" where
  "collect_options f [] = Some []"
| "collect_options f (x # xs) = (case f x of None \<Rightarrow> None | Some y \<Rightarrow> map_option (Cons y) (collect_options f xs))"

definition assign_branches :: "(int \<Rightarrow> string) \<Rightarrow> 'r tree_node list \<Rightarrow> 'r tree_node list option" where
  "assign_branches show_i32 nodes =
     map_option (\<lambda>ids. map (\<lambda>n. if tn_kind n = Stale then n\<lparr>tn_branch := map_of (rev ids) (tn_hash n)\<rparr> else n) nodes)
       (collect_options (\<lambda>n. map_option (\<lambda>root. (tn_hash n, branch_id_of show_i32 root)) (branch_root nodes n))
         (filter (\<lambda>n. tn_kind n = Stale) nodes))"

definition sort_edges_by_destination_id :: "(string \<Rightarrow> nat option) \<Rightarrow> tree_edge list \<Rightarrow> tree_edge list" where
  "sort_edges_by_destination_id id_of edges = sort_key (\<lambda>e. (id_of (te_to_hash e), te_from_hash e)) edges"

definition materialize_tree ::
  "(int \<Rightarrow> string) \<Rightarrow> 'r parent_projection list \<Rightarrow> (string \<times> string) list \<Rightarrow> ('r tree_node list \<times> tree_edge list \<times> nat) option" where
  "materialize_tree show_i32 projections entries =
     map_option (\<lambda>nodes. (nodes,
         sort_edges_by_destination_id (id_by_hash projections)
           (List.map_filter (\<lambda>p. fst (snd (node_edge projections entries p))) projections),
         sum_list (map (\<lambda>p. snd (snd (node_edge projections entries p))) projections)))
       (assign_branches show_i32 (map (tree_node_of projections entries) projections))"

section \<open>Branches\<close>

record tree_branch =
  tb_branch_id :: string
  tb_root_hash :: string
  tb_tip_hash :: string
  tb_member_hashes :: "string list"
  tb_btc_height_min :: int
  tb_btc_height_max :: int
  tb_depth :: nat
  tb_canonical_competitor_hashes :: "string list"

definition rank_height :: "'r tree_node \<Rightarrow> int option" where
  "rank_height n = (case tn_height n of Some h \<Rightarrow> Some h | None \<Rightarrow> tn_placement_height n)"

definition branch_members :: "'r tree_node list \<Rightarrow> string \<Rightarrow> 'r tree_node list" where
  "branch_members nodes branch_id = sort_key rank_height
     (filter (\<lambda>n. (tn_kind n = Stale \<or> tn_kind n = Unknown) \<and> tn_branch n = Some branch_id) nodes)"

definition branch_of_members :: "string \<Rightarrow> 'r tree_node list \<Rightarrow> tree_branch" where
  "branch_of_members branch_id members =
     \<lparr>tb_branch_id = branch_id, tb_root_hash = tn_hash (hd members), tb_tip_hash = tn_hash (last members),
      tb_member_hashes = map tn_hash members,
      tb_btc_height_min = (case rank_height (hd members) of Some h \<Rightarrow> h | None \<Rightarrow> 0),
      tb_btc_height_max = (case rank_height (last members) of Some h \<Rightarrow> h | None \<Rightarrow> 0),
      tb_depth = length members,
      tb_canonical_competitor_hashes = List.map_filter (\<lambda>n. map_option tc_canonical_hash (tn_competition n)) members\<rparr>"

definition build_branches :: "'r tree_node list \<Rightarrow> tree_branch list" where
  "build_branches nodes =
     (let ids = sort (remdups (List.map_filter tn_branch (filter (\<lambda>n. tn_kind n = Stale \<or> tn_kind n = Unknown) nodes)))
      in sort_key (\<lambda>b. (tb_btc_height_min b, tb_root_hash b)) (map (\<lambda>i. branch_of_members i (branch_members nodes i)) ids))"

definition reduction_node_of :: "'r parent_projection \<Rightarrow> reduction_node" where
  "reduction_node_of p = \<lparr>rn_hash = pj_hash p, rn_prev_hash = pj_prev_hash p, rn_height = pj_height p, rn_kind = pj_kind p,
     rn_protected = pj_protected p, rn_evidence = pj_evidence p\<rparr>"

record 'r tree_payload =
  tp_window :: resolved_tree_window
  tp_hidden_linear_block_count :: nat
  tp_nodes :: "'r tree_node list"
  tp_edges :: "tree_edge list"
  tp_branches :: "tree_branch list"

definition reduce_and_assemble_tree ::
  "(int \<Rightarrow> string) \<Rightarrow> 'r parent_projection list \<Rightarrow> resolved_tree_window \<Rightarrow> (string \<times> string) list \<Rightarrow>
     (projection_error, 'r tree_payload) result option" where
  "reduce_and_assemble_tree show_i32 candidates window extra_ancestry =
     (case reduce (map reduction_node_of candidates) of
        Inl e \<Rightarrow> Some (Inl (Api e))
      | Inr visible \<Rightarrow>
          map_option (\<lambda>(nodes, edges, hidden_count). Inr \<lparr>tp_window = window, tp_hidden_linear_block_count = hidden_count,
              tp_nodes = nodes, tp_edges = edges, tp_branches = build_branches nodes\<rparr>)
            (materialize_tree show_i32 (sort_nodes (filter (\<lambda>p. List.member visible (pj_hash p)) candidates))
              (map (\<lambda>p. (pj_hash p, pj_prev_hash p)) candidates @ extra_ancestry)))"

section \<open>Requests\<close>

definition unheighted_node_limit :: nat where "unheighted_node_limit = 250"
definition compact_event_node_limit :: nat where "compact_event_node_limit = 500"

definition unheighted_count_error :: "nat \<Rightarrow> api_error" where
  "unheighted_count_error received = RangeTooLarge ''unheighted_nodes'' unheighted_node_limit received"

text \<open>What the queries of a request load: the projections of its block rows, the competitions of these, the projections of
  events without a block row, and (for a compact request) the block rows themselves.\<close>

record 'r tree_rows =
  tr_projections :: "'r parent_projection list"
  tr_competitions :: "competition_core list"
  tr_direct :: "(projection_error, 'r parent_projection list) result"
  tr_blocks :: "block_row list"

definition tree_projection ::
  "(int \<Rightarrow> string) \<Rightarrow> block_row list \<Rightarrow> (resolved_tree_window \<Rightarrow> (projection_error, 'r tree_rows) result) \<Rightarrow> tree_query \<Rightarrow> resolved_tree_window \<Rightarrow>
     (projection_error, 'r tree_payload) result option" where
  "tree_projection show_i32 blocks load query window =
     (case rbind (ensure_tree_backbone_coverage blocks window) (\<lambda>_. rbind (load window) (\<lambda>rows.
        let projections = attach_competitions (tr_competitions rows) (tr_projections rows);
            members = stale_branch_members_to_include query projections;
            np = \<lparr>np_stale_branch_members = members,
              np_protected_stale_attach_parents = stale_attach_parent_hashes projections members,
              np_protected_competitors = stale_member_competitor_hashes projections members, np_protected_context = []\<rparr>
        in rbind (select_tree_candidates query projections (tr_direct rows) np) (\<lambda>(candidates, unheighted_count).
           if unheighted_node_limit < unheighted_count then Inl (Api (unheighted_count_error unheighted_count))
           else rbind (ensure_emitted_stale_competitions candidates) (\<lambda>_. Inr candidates)))) of
        Inl e \<Rightarrow> Some (Inl e)
      | Inr candidates \<Rightarrow> reduce_and_assemble_tree show_i32 candidates window [])"

definition load_compact_candidates ::
  "'r tree_rows \<Rightarrow> tree_query \<Rightarrow> int \<Rightarrow> int \<Rightarrow> int \<Rightarrow> (projection_error, 'r parent_projection list) result" where
  "load_compact_candidates rows query target from_height to_height =
     (let projections = attach_competitions (tr_competitions rows) (tr_projections rows);
          members = stale_branch_members_to_include query projections
      in rbind (compact_context_hashes (tr_blocks rows) target from_height to_height) (\<lambda>context.
         let np = \<lparr>np_stale_branch_members = members,
               np_protected_stale_attach_parents = stale_attach_parent_hashes projections members,
               np_protected_competitors = stale_member_competitor_hashes projections members, np_protected_context = context\<rparr>
         in rbind (select_tree_candidates query projections (tr_direct rows) np) (\<lambda>(candidates, _).
            Inr (relax_compact_canonical_backbone np candidates))))"

definition ensure_compact_candidate_limit :: "'r parent_projection list \<Rightarrow> (projection_error, unit) result" where
  "ensure_compact_candidate_limit candidates =
     (let protected_count = length (filter (\<lambda>c. pj_protected c \<or> pj_evidence c) candidates) in
      if compact_event_node_limit < protected_count
      then Inl (Api (RangeTooLarge ''compact_event_nodes'' compact_event_node_limit protected_count)) else Inr ())"

definition ensure_compact_payload_limit :: "'r tree_payload \<Rightarrow> (projection_error, unit) result" where
  "ensure_compact_payload_limit payload =
     (if node_limit < length (tp_nodes payload)
      then Inl (Api (RangeTooLarge ''node_count'' node_limit (length (tp_nodes payload)))) else Inr ())"

definition compact_tree_for_window ::
  "(int \<Rightarrow> string) \<Rightarrow> block_row list \<Rightarrow> (resolved_tree_window \<Rightarrow> (projection_error, 'r tree_rows) result) \<Rightarrow> tree_query \<Rightarrow> int \<Rightarrow> int \<times> int \<Rightarrow>
     (projection_error, 'r tree_payload) result option" where
  "compact_tree_for_window show_i32 blocks load query target bounds =
     (let window = explicit_window (fst bounds) (snd bounds) in
      case rbind (load_verified_canonical_ancestry blocks window) (\<lambda>ancestry.
           rbind (load window) (\<lambda>rows.
           rbind (load_compact_candidates rows query target (fst bounds) (snd bounds)) (\<lambda>candidates.
           rbind (ensure_compact_candidate_limit candidates) (\<lambda>_.
           rbind (ensure_emitted_stale_competitions candidates) (\<lambda>_. Inr (candidates, ancestry)))))) of
        Inl e \<Rightarrow> Some (Inl e)
      | Inr (candidates, ancestry) \<Rightarrow>
          map_option (\<lambda>r. rbind r (\<lambda>payload. rbind (ensure_compact_payload_limit payload) (\<lambda>_. Inr payload)))
            (reduce_and_assemble_tree show_i32 candidates window ancestry))"

end
