(* ===== verification/Tree_Reduction.thy ===== *)
theory Tree_Reduction
  imports Tree_Build
begin

text \<open>
  What a tree shows: the reduction hides only linked canonical context and keeps every parent connected to its
  shown ancestors (an invalid block whose predecessor is hidden excepted), stale branches are shown whole, and every stale node gets the name of its branch.
\<close>

section \<open>What a reduction keeps\<close>

definition node_key :: "reduction_node \<Rightarrow> int option \<times> string" where
  "node_key n = (rn_height n, rn_hash n)"

text \<open>A hash that may be hidden: removable context whose predecessor is at hand, below it in the order of the scan.\<close>

definition linked_context :: "reduction_node set \<Rightarrow> string \<Rightarrow> bool" where
  "linked_context N h \<longleftrightarrow> (\<exists>n\<in>N. \<exists>p\<in>N. rn_hash n = h \<and> removable_context n \<and> rn_height n \<noteq> None \<and>
     rn_prev_hash n = rn_hash p \<and> node_key p < node_key n)"

definition linked_nodes :: "reduction_node \<Rightarrow> reduction_node \<Rightarrow> bool" where
  "linked_nodes p n \<longleftrightarrow> rn_prev_hash n = rn_hash p \<and> node_key p < node_key n"

lemma in_interior:
  assumes "n \<in> set (butlast (tl xs))"
  obtains i where "Suc i < length xs" "xs ! Suc i = n"
proof -
  from assms obtain i where "i < length (butlast (tl xs))" "butlast (tl xs) ! i = n" by (auto simp: in_set_conv_nth)
  then show ?thesis using that [of i] by (simp add: nth_butlast nth_tl)
qed

lemma consider_run_linked:
  assumes "\<forall>h\<in>set best. linked_context N h" "successively linked_nodes run" "set run \<subseteq> N" "\<forall>n\<in>N. rn_height n \<noteq> None"
  shows "\<forall>h\<in>set (consider_run run best). linked_context N h"
proof -
  have "linked_context N (rn_hash n)" if n: "n \<in> set (butlast (tl run))" "removable_context n" for n
  proof -
    from n(1) obtain i where i: "Suc i < length run" "run ! Suc i = n" by (rule in_interior)
    then have "linked_nodes (run ! i) n" using assms(2) by (auto simp: successively_conv_nth)
    moreover have "n \<in> N" "run ! i \<in> N" using i assms(3) nth_mem [of "Suc i" run] nth_mem [of i run] by auto
    ultimately show ?thesis using n(2) assms(4) unfolding linked_context_def linked_nodes_def by blast
  qed
  then show ?thesis using assms(1) by (auto simp: consider_run_def Let_def)
qed

lemma successively_snoc:
  "successively P (xs @ [x]) \<longleftrightarrow> successively P xs \<and> (xs = [] \<or> P (last xs) x)"
  by (cases "xs = []") (simp_all add: successively_append_iff)

lemma scan_linked:
  "fold scan_node ns (best, current) = (best', current') \<Longrightarrow> sorted_wrt (<) (map node_key (current @ ns)) \<Longrightarrow>
     \<forall>h\<in>set best. linked_context N h \<Longrightarrow> successively linked_nodes current \<Longrightarrow> set (current @ ns) \<subseteq> N \<Longrightarrow>
     \<forall>n\<in>N. rn_height n \<noteq> None \<Longrightarrow>
     (\<forall>h\<in>set best'. linked_context N h) \<and> successively linked_nodes current' \<and> set current' \<subseteq> N"
proof (induction ns arbitrary: best current)
  case (Cons n ns)
  obtain b c where s: "scan_node n (best, current) = (b, c)" by fastforce
  have run: "\<forall>h\<in>set (consider_run current best). linked_context N h"
    by (rule consider_run_linked) (use Cons.prems in auto)
  have "sorted_wrt (<) (map node_key (c @ ns))"
    using s Cons.prems(2) by (auto simp: scan_node_def sorted_wrt_append split: if_split_asm)
  moreover have "\<forall>h\<in>set b. linked_context N h" "set (c @ ns) \<subseteq> N"
    using s run Cons.prems(3,5) by (auto simp: scan_node_def split: if_split_asm)
  moreover have "current = [] \<or> node_key (last current) < node_key n"
    using Cons.prems(2) last_in_set [of current] by (cases "current = []") (simp_all add: sorted_wrt_append)
  then have "successively linked_nodes c"
    using s Cons.prems(4) by (auto simp: scan_node_def successively_snoc linked_nodes_def split: if_split_asm)
  ultimately show ?case using Cons.IH [of b c] Cons.prems(1,6) s by simp
qed auto

lemma removable_run_linked:
  assumes "largest_removable_run nodes visible = Some run" "h \<in> set run" "distinct (map rn_hash nodes)"
  shows "linked_context (set nodes) h"
proof -
  have key: "(\<lambda>n. (rn_height n, rn_hash n)) = node_key" by (simp add: node_key_def fun_eq_iff)
  define ns where "ns = sort_key node_key (filter (\<lambda>n. List.member visible (rn_hash n) \<and> rn_height n \<noteq> None) nodes)"
  obtain best current where f: "fold scan_node ns ([], []) = (best, current)" by fastforce
  have run: "run = consider_run current best"
    using assms(1) f by (auto simp: largest_removable_run_def ns_def Let_def key split: if_split_asm prod.split_asm)
  have "inj_on node_key (set nodes)" using assms(3) by (auto simp: distinct_map inj_on_def node_key_def)
  then have "distinct (map node_key ns)"
    using assms(3) by (auto simp: ns_def distinct_map intro: inj_on_subset)
  then have "sorted_wrt (<) (map node_key ([] @ ns))" by (simp add: ns_def strict_sorted_iff)
  moreover have N: "\<forall>n\<in>set ns. rn_height n \<noteq> None" "set ns \<subseteq> set nodes" by (auto simp: ns_def)
  ultimately have "(\<forall>h\<in>set best. linked_context (set ns) h) \<and> successively linked_nodes current \<and> set current \<subseteq> set ns"
    using scan_linked [OF f, of "set ns"] by simp
  then have "linked_context (set ns) h" using consider_run_linked [of best "set ns" current] N(1) assms(2) run by blast
  then show ?thesis using N(2) unfolding linked_context_def by (meson subsetD)
qed

lemma reduce_loop_keeps:
  "reduce_loop limit nodes visible = Inr kept \<Longrightarrow> distinct visible \<Longrightarrow> distinct (map rn_hash nodes) \<Longrightarrow>
     length kept \<le> limit \<and> distinct kept \<and> set kept \<subseteq> set visible \<and>
     (\<forall>h\<in>set visible - set kept. linked_context (set nodes) h)"
proof (induction limit nodes visible rule: reduce_loop.induct)
  case (1 limit nodes visible)
  show ?case
  proof (cases "length visible \<le> limit")
    case True
    with 1(2,3) show ?thesis by (auto simp: reduce_loop.simps)
  next
    case False
    with 1(2) obtain run where run: "largest_removable_run nodes visible = Some run"
      "reduce_loop limit nodes (filter (\<lambda>h. \<not> List.member run h) visible) = Inr kept"
      by (subst (asm) reduce_loop.simps) (auto split: option.split_asm)
    from 1(1) [OF False run _ 1(4)] 1(3) removable_run_linked [OF run(1) _ 1(4)]
    show ?thesis by auto
  qed
qed

lemma reduce_loop_error:
  "reduce_loop limit nodes visible = Inl e \<Longrightarrow> \<exists>n. limit < n \<and> n \<le> length visible \<and> e = node_count_error limit n"
proof (induction limit nodes visible rule: reduce_loop.induct)
  case (1 limit nodes visible)
  show ?case
  proof (cases "length visible \<le> limit")
    case False
    show ?thesis
    proof (cases "largest_removable_run nodes visible")
      case None
      with 1(2) False show ?thesis by (intro exI [of _ "length visible"]) (simp add: reduce_loop.simps)
    next
      case (Some run)
      with 1(2) False have "reduce_loop limit nodes (filter (\<lambda>h. \<not> List.member run h) visible) = Inl e"
        by (subst (asm) reduce_loop.simps) simp
      from 1(1) [OF False Some this] show ?thesis using le_trans [OF _ length_filter_le] by blast
    qed
  qed (use 1(2) in \<open>simp add: reduce_loop.simps\<close>)
qed

lemma reduce_to_keeps:
  assumes "reduce_to limit nodes = Inr visible" "distinct (map rn_hash nodes)"
  shows "length visible \<le> limit" "distinct visible" "set visible \<subseteq> rn_hash ` set nodes"
    "\<And>h. h \<in> rn_hash ` set nodes \<Longrightarrow> h \<notin> set visible \<Longrightarrow> linked_context (set nodes) h"
proof -
  have loop: "reduce_loop limit nodes (sort (remdups (map rn_hash nodes))) = Inr visible"
    using assms(1) by (simp add: reduce_to_def Let_def split: if_split_asm)
  show "length visible \<le> limit" "distinct visible" "set visible \<subseteq> rn_hash ` set nodes"
    "\<And>h. h \<in> rn_hash ` set nodes \<Longrightarrow> h \<notin> set visible \<Longrightarrow> linked_context (set nodes) h"
    using reduce_loop_keeps [OF loop _ assms(2)] by simp_all
qed

lemma linked_context_node:
  assumes "distinct (map rn_hash nodes)" "linked_context (set nodes) (rn_hash n)" "n \<in> set nodes"
  obtains p where "removable_context n" "rn_height n \<noteq> None" "p \<in> set nodes" "rn_prev_hash n = rn_hash p" "node_key p < node_key n"
proof -
  from assms(2) obtain m p where m: "m \<in> set nodes" "p \<in> set nodes" "rn_hash m = rn_hash n" "removable_context m" "rn_height m \<noteq> None"
     "rn_prev_hash m = rn_hash p" "node_key p < node_key m"
    unfolding linked_context_def by blast
  then have "m = n" using assms(1,3) by (auto simp: distinct_map dest: inj_onD)
  then show ?thesis using m that by blast
qed

text \<open>C18: A reduced tree fits the limit and hides only context.  When the given nodes have distinct hashes,
  the visible ones are at most \<open>limit\<close>, without repetition and all of the given nodes, and every hidden node is a canonical
  block with a height that is neither protected nor evidence, so stale, invalid and unheighted parents and everything marked stay on screen.\<close>

theorem tree_reduction_safe:
  assumes "reduce_to limit nodes = Inr visible" "distinct (map rn_hash nodes)"
  shows "length visible \<le> limit \<and> distinct visible \<and> set visible \<subseteq> rn_hash ` set nodes \<and>
    (\<forall>n\<in>set nodes. rn_hash n \<notin> set visible \<longrightarrow>
       rn_kind n = Canonical \<and> rn_height n \<noteq> None \<and> \<not> rn_protected n \<and> \<not> rn_evidence n)"
proof -
  note kept = reduce_to_keeps [OF assms(1,2)]
  have "rn_kind n = Canonical \<and> rn_height n \<noteq> None \<and> \<not> rn_protected n \<and> \<not> rn_evidence n"
    if n: "n \<in> set nodes" "rn_hash n \<notin> set visible" for n
  proof -
    have "linked_context (set nodes) (rn_hash n)" using kept(4) n by simp
    from assms(2) this n(1) show ?thesis by (rule linked_context_node) (simp add: removable_context_def)
  qed
  then show ?thesis using kept(1-3) by simp
qed

section \<open>Hidden edges\<close>

text \<open>\<open>ancestor a k h\<close>: the hash reached from \<open>h\<close> in \<open>k\<close> steps of an ancestry map.\<close>

fun ancestor :: "(string \<Rightarrow> string option) \<Rightarrow> nat \<Rightarrow> string \<Rightarrow> string option" where
  "ancestor a 0 h = Some h"
| "ancestor a (Suc k) h = Option.bind (a h) (ancestor a k)"

lemma hidden_walk_sound:
  "hidden_predecessor_from ids a keys seen cursor n = Some (from, m) \<Longrightarrow>
     from \<in> set ids \<and> n \<le> m \<and> 0 < m \<and> ancestor a (m - n) cursor = Some from \<and>
     (\<forall>j < m - n. \<exists>h. ancestor a j cursor = Some h \<and> h \<notin> set ids)"
proof (induction ids a keys seen cursor n rule: hidden_predecessor_from.induct)
  case (1 ids a keys seen cursor n)
  show ?case
  proof (cases "cursor \<in> set ids")
    case True
    with 1(2) show ?thesis by (auto simp: hidden_predecessor_from.simps split: if_split_asm)
  next
    case False
    with 1(2) obtain nxt where nxt: "cursor \<notin> set seen" "cursor \<in> set keys" "a cursor = Some nxt"
      "hidden_predecessor_from ids a keys (cursor # seen) nxt (n + 1) = Some (from, m)"
      by (subst (asm) hidden_predecessor_from.simps) (auto split: if_split_asm option.split_asm)
    have IH: "from \<in> set ids" "n + 1 \<le> m" "ancestor a (m - (n + 1)) nxt = Some from"
      "\<forall>j < m - (n + 1). \<exists>h. ancestor a j nxt = Some h \<and> h \<notin> set ids"
      using 1(1) [OF _ _ _ nxt(3,4)] nxt(1,2) False by simp_all
    have d: "m - n = Suc (m - (n + 1))" using IH(2) by simp
    have "\<exists>h. ancestor a j cursor = Some h \<and> h \<notin> set ids" if "j < m - n" for j
      using that IH(4) nxt(3) False d by (cases j) auto
    then show ?thesis using IH nxt(3) by (simp add: d)
  qed
qed

lemma hidden_walk_ends:
  assumes distinct: "distinct (map rn_hash nodes)"
    and hidden: "\<And>h. h \<in> rn_hash ` set nodes \<Longrightarrow> h \<notin> set ids \<Longrightarrow> linked_context (set nodes) h"
    and ancestry: "\<And>n. n \<in> set nodes \<Longrightarrow> a (rn_hash n) = Some (rn_prev_hash n) \<and> rn_hash n \<in> set keys"
  shows "n \<in> set nodes \<Longrightarrow> \<forall>h\<in>set seen. \<exists>m\<in>set nodes. rn_hash m = h \<and> node_key n < node_key m \<Longrightarrow>
     0 < k \<or> rn_hash n \<notin> set ids \<Longrightarrow> hidden_predecessor_from ids a keys seen (rn_hash n) k \<noteq> None"
proof (induction "card {m \<in> set nodes. node_key m < node_key n}" arbitrary: n seen k rule: less_induct)
  case less
  have fresh: "rn_hash n \<notin> set seen"
  proof
    assume "rn_hash n \<in> set seen"
    with less(3) obtain m where "m \<in> set nodes" "rn_hash m = rn_hash n" "node_key n < node_key m" by blast
    then show False using distinct less(2) by (auto simp: distinct_map dest: inj_onD)
  qed
  show ?case
  proof (cases "rn_hash n \<in> set ids")
    case True
    then show ?thesis using less(4) fresh by (simp add: hidden_predecessor_from.simps)
  next
    case False
    have "linked_context (set nodes) (rn_hash n)" using hidden False less(2) by simp
    from distinct this less(2) obtain p where p: "p \<in> set nodes" "rn_prev_hash n = rn_hash p" "node_key p < node_key n"
      by (rule linked_context_node)
    have step: "hidden_predecessor_from ids a keys (rn_hash n # seen) (rn_hash p) (k + 1) \<noteq> None"
    proof (rule less(1))
      have "{m \<in> set nodes. node_key m < node_key p} \<subset> {m \<in> set nodes. node_key m < node_key n}"
        using p(1,3) by auto
      then show "card {m \<in> set nodes. node_key m < node_key p} < card {m \<in> set nodes. node_key m < node_key n}"
        by (intro psubset_card_mono) auto
      show "\<forall>h\<in>set (rn_hash n # seen). \<exists>m\<in>set nodes. rn_hash m = h \<and> node_key p < node_key m"
        using less(2,3) p(3) by (auto intro: less_trans)
    qed (use p in simp_all)
    then show ?thesis using False fresh ancestry [OF less(2)] p(2) by (subst hidden_predecessor_from.simps) simp
  qed
qed

lemma id_by_hash_known: "id_by_hash ps h = None \<longleftrightarrow> h \<notin> pj_hash ` set ps"
proof -
  have "fst ` set (zip (map pj_hash ps) [1..<Suc (length ps)]) = pj_hash ` set ps"
    by (metis length_map length_upt diff_Suc_1 map_fst_zip set_map)
  then show ?thesis by (simp add: id_by_hash_def map_of_eq_None_iff)
qed

lemma sort_nodes_set [simp]: "set (sort_nodes ps) = set ps"
  by (simp add: sort_nodes_def)

lemma hidden_predecessor_found:
  assumes "reduce_to limit (map reduction_node_of candidates) = Inr visible"
    and "distinct (map pj_hash candidates)"
    and "\<forall>c\<in>set candidates. ancestry_map entries (pj_hash c) = Some (pj_prev_hash c)"
    and "shown = sort_nodes (filter (\<lambda>p. List.member visible (pj_hash p)) candidates)"
    and "hash \<in> pj_hash ` set candidates" and "id_by_hash shown hash = None"
  shows "hidden_predecessor hash (map pj_hash shown) entries \<noteq> None"
proof -
  let ?nodes = "map reduction_node_of candidates"
  have d: "distinct (map rn_hash ?nodes)" using assms(2) by (simp add: reduction_node_of_def comp_def)
  have shown: "pj_hash ` set shown = set visible"
  proof -
    have "set visible \<subseteq> pj_hash ` set candidates"
      using reduce_to_keeps(3) [OF assms(1) d] by (simp add: image_image reduction_node_of_def)
    then show ?thesis unfolding assms(4) by auto
  qed
  obtain c where c: "c \<in> set candidates" "pj_hash c = hash" using assms(5) by auto
  have keys: "set (map fst entries) \<supseteq> pj_hash ` set candidates"
    using assms(3) by (force simp: ancestry_map_def dest: map_of_SomeD)
  have walk_ends: "hidden_predecessor_from (map pj_hash shown) (ancestry_map entries) (map fst entries) [] (rn_hash (reduction_node_of c)) 0 \<noteq> None"
  proof (rule hidden_walk_ends [OF d])
    fix h assume "h \<in> rn_hash ` set ?nodes" "h \<notin> set (map pj_hash shown)"
    then show "linked_context (set ?nodes) h" using reduce_to_keeps(4) [OF assms(1) d] by (simp only: set_map shown)
  next
    fix n assume "n \<in> set ?nodes"
    then show "ancestry_map entries (rn_hash n) = Some (rn_prev_hash n) \<and> rn_hash n \<in> set (map fst entries)"
      using assms(3) keys by (auto simp: reduction_node_of_def)
  next
    show "0 < (0::nat) \<or> rn_hash (reduction_node_of c) \<notin> set (map pj_hash shown)"
      using assms(6) c(2) by (simp add: id_by_hash_known reduction_node_of_def)
  qed (use c in simp_all)
  show ?thesis
    unfolding hidden_predecessor_def c(2) [symmetric]
    using walk_ends by (simp add: reduction_node_of_def)
qed

text \<open>C17: What hiding context does to the edge of a shown parent whose predecessor was a candidate, when the candidates
  have distinct hashes and the ancestry agrees with them.  An invalid block whose predecessor is hidden gets no predecessor
  and no edge.  Every other parent stays connected: its predecessor in the tree is the first visible ancestor on the way
  down, at exactly the distance that its edge counts as hidden.\<close>

theorem hidden_edges_connect:
  assumes "reduce_to limit (map reduction_node_of candidates) = Inr visible"
    and "distinct (map pj_hash candidates)"
    and "\<forall>c\<in>set candidates. ancestry_map entries (pj_hash c) = Some (pj_prev_hash c)"
    and "shown = sort_nodes (filter (\<lambda>p. List.member visible (pj_hash p)) candidates)"
    and "p \<in> set shown" "pj_prev_hash p \<in> pj_hash ` set candidates"
  shows "if pj_kind p = InvalidBlock \<and> id_by_hash shown (pj_prev_hash p) = None then node_edge shown entries p = (None, None, 0)
    else \<exists>from k. id_by_hash shown from \<noteq> None \<and> fst (node_edge shown entries p) = id_by_hash shown from \<and>
    ancestor (ancestry_map entries) k (pj_prev_hash p) = Some from \<and>
    (\<forall>j < k. \<exists>h. ancestor (ancestry_map entries) j (pj_prev_hash p) = Some h \<and> id_by_hash shown h = None) \<and>
    snd (snd (node_edge shown entries p)) = k \<and>
    (0 < k \<longrightarrow> fst (snd (node_edge shown entries p)) =
       Some \<lparr>te_from_hash = from, te_to_hash = pj_hash p, te_hidden_count = Some k, te_edge_kind = ''hidden''\<rparr>)"
proof (cases "id_by_hash shown (pj_prev_hash p)")
  case (Some i)
  have "fst (node_edge shown entries p) = Some i" "snd (snd (node_edge shown entries p)) = 0"
    using Some by (simp_all add: node_edge_def)
  with Some show ?thesis by (auto intro!: exI [of _ "pj_prev_hash p"] exI [of _ 0])
next
  case None
  obtain anchor k where h: "hidden_predecessor (pj_prev_hash p) (map pj_hash shown) entries = Some (anchor, k)"
    using hidden_predecessor_found [OF assms(1-4,6) None] by auto
  note walk = hidden_walk_sound [OF h [unfolded hidden_predecessor_def]]
  obtain i where i: "id_by_hash shown anchor = Some i" using walk id_by_hash_known [of shown anchor] by auto
  have edge: "pj_kind p \<noteq> InvalidBlock \<Longrightarrow> node_edge shown entries p = (Some i, Some \<lparr>te_from_hash = anchor, te_to_hash = pj_hash p,
      te_hidden_count = Some k, te_edge_kind = ''hidden''\<rparr>, k)"
    using None h i by (simp add: node_edge_def)
  show ?thesis
  proof (cases "pj_kind p = InvalidBlock")
    case True
    then show ?thesis using None by (simp add: node_edge_def)
  next
    case False
    then show ?thesis using walk i
      by (subst if_not_P, simp, intro exI [of _ anchor] exI [of _ k]) (simp add: edge id_by_hash_known)
  qed
qed

section \<open>Stale branches\<close>

lemma children_of_links: "c \<in> set (children_of links h) \<longleftrightarrow> (c, h) \<in> set links"
  by (force simp: children_of_def)

lemma descendants_grow:
  "set seen \<subseteq> set (include_stale_descendants links seen stack) \<and> set stack \<subseteq> set (include_stale_descendants links seen stack)"
  by (induction links seen stack rule: include_stale_descendants.induct) auto

lemma descendants_closed:
  "\<forall>h\<in>set seen. \<forall>c. (c, h) \<in> set links \<longrightarrow> c \<in> set seen \<union> set stack \<Longrightarrow>
   h \<in> set (include_stale_descendants links seen stack) \<Longrightarrow> (c, h) \<in> set links \<Longrightarrow>
     c \<in> set (include_stale_descendants links seen stack)"
proof (induction links seen stack rule: include_stale_descendants.induct)
  case (1 links seen)
  then show ?case by auto
next
  case (2 links seen hash stack)
  show ?case
  proof (cases "hash \<in> set seen")
    case True
    with 2 show ?thesis by auto
  next
    case False
    have "\<forall>h\<in>set (hash # seen). \<forall>c. (c, h) \<in> set links \<longrightarrow> c \<in> set (hash # seen) \<union> set (rev (children_of links hash) @ stack)"
      using 2(3) by (auto simp: children_of_links)
    with 2(2,4,5) False show ?thesis by simp
  qed
qed

lemma descendants_reached:
  "h \<in> set (include_stale_descendants links seen stack) \<Longrightarrow>
     h \<in> set seen \<or> (\<exists>s\<in>set stack. (h, s) \<in> (set links)\<^sup>*)"
proof (induction links seen stack rule: include_stale_descendants.induct)
  case (2 links seen hash stack)
  show ?case
  proof (cases "hash \<in> set seen")
    case False
    with 2 have "h \<in> set (hash # seen) \<or> (\<exists>s\<in>set (rev (children_of links hash) @ stack). (h, s) \<in> (set links)\<^sup>*)" by simp
    then show ?thesis by (auto simp: children_of_links intro: rtrancl_into_rtrancl)
  qed (use 2 in auto)
qed simp

lemma descendants_exact: "set (include_stale_descendants links [] [root]) = {h. (h, root) \<in> (set links)\<^sup>*}"
proof (intro equalityI subsetI)
  fix h assume "h \<in> set (include_stale_descendants links [] [root])"
  then show "h \<in> {h. (h, root) \<in> (set links)\<^sup>*}" using descendants_reached [of h links "[]" "[root]"] by simp
next
  fix h assume "h \<in> {h. (h, root) \<in> (set links)\<^sup>*}"
  then have "(h, root) \<in> (set links)\<^sup>*" by simp
  then show "h \<in> set (include_stale_descendants links [] [root])"
  proof (induction rule: converse_rtrancl_induct)
    case base
    show ?case using descendants_grow [of "[]" links "[root]"] by simp
  next
    case (step y z)
    then show ?case using descendants_closed [of "[]" links "[root]" z y] by simp
  qed
qed

lemma root_reached: "(root, stale_branch_root_from links seen root) \<in> (set links)\<^sup>*"
proof (induction links seen root rule: stale_branch_root_from.induct)
  case (1 links seen root)
  show ?case
  proof (cases "root \<in> set seen \<or> map_of links root = None")
    case False
    then obtain prev where p: "map_of links root = Some prev" by auto
    then have "(root, prev) \<in> set links" by (rule map_of_SomeD)
    with 1 False p show ?thesis by (subst stale_branch_root_from.simps) (auto intro: converse_rtrancl_into_rtrancl)
  qed (subst stale_branch_root_from.simps, auto)
qed

declare stale_branch_root_from.simps [simp del]

lemma root_on_top:
  "\<forall>s\<in>set seen. \<exists>n. map_of links s = Some n \<and> (n, root) \<in> (set links)\<^sup>* \<Longrightarrow>
   map_of links (stale_branch_root_from links seen root) = Some n \<Longrightarrow> (n, stale_branch_root_from links seen root) \<in> (set links)\<^sup>*"
proof (induction links seen root arbitrary: n rule: stale_branch_root_from.induct)
  case (1 links seen root)
  consider "root \<in> set seen" | "root \<notin> set seen" "map_of links root = None" | prev where "root \<notin> set seen" "map_of links root = Some prev"
    by fastforce
  then show ?case
  proof cases
    case 1
    then have "stale_branch_root_from links seen root = root" by (subst stale_branch_root_from.simps) simp
    with 1 "1.prems" show ?thesis by auto
  next
    case 2
    then have "stale_branch_root_from links seen root = root" by (subst stale_branch_root_from.simps) simp
    with 2 "1.prems" show ?thesis by simp
  next
    case (3 prev)
    then have step: "stale_branch_root_from links seen root = stale_branch_root_from links (root # seen) prev"
      by (subst stale_branch_root_from.simps) simp
    have "(root, prev) \<in> set links" using 3(2) by (rule map_of_SomeD)
    then have "\<forall>s\<in>set (root # seen). \<exists>n. map_of links s = Some n \<and> (n, prev) \<in> (set links)\<^sup>*"
      using "1.prems"(1) 3(2) by (auto intro: rtrancl_into_rtrancl)
    with "1.IH" [OF _ 3(2)] 3(1) "1.prems"(2) show ?thesis by (simp add: step)
  qed
qed

text \<open>The branch of a hash: everything linked to it, upwards or downwards.\<close>

definition same_branch :: "(string \<times> string) list \<Rightarrow> string \<Rightarrow> string \<Rightarrow> bool" where
  "same_branch links g h \<longleftrightarrow> (g, h) \<in> (set links \<union> (set links)\<inverse>)\<^sup>*"

lemma descendants_of_root:
  assumes "distinct (map fst links)"
  shows "set (include_stale_descendants links [] [stale_branch_root h links]) = {g. same_branch links g h}"
proof -
  let ?L = "set links" and ?root = "stale_branch_root h links"
  have top: "(n, ?root) \<in> ?L\<^sup>*" if "(?root, n) \<in> ?L" for n
    using root_on_top [of "[]" "rev links" h n] that assms by (simp add: stale_branch_root_def distinct_map rev_map [symmetric])
  have up: "(n, ?root) \<in> ?L\<^sup>*" if "(g, ?root) \<in> ?L\<^sup>*" "(g, n) \<in> ?L" for g n
    using that
  proof (induction rule: converse_rtrancl_induct)
    case base
    then show ?case by (rule top)
  next
    case (step x y)
    from map_of_is_SomeI [OF assms step(1)] map_of_is_SomeI [OF assms step(4)] have "y = n" by simp
    with step(2) show ?case by simp
  qed
  have h: "(h, ?root) \<in> ?L\<^sup>*" unfolding stale_branch_root_def using root_reached [of h "rev links" "[]"] by simp
  have "(g, ?root) \<in> ?L\<^sup>* \<longleftrightarrow> (g, h) \<in> (?L \<union> ?L\<inverse>)\<^sup>*" for g
  proof
    assume "(g, ?root) \<in> ?L\<^sup>*"
    then have "(g, ?root) \<in> (?L \<union> ?L\<inverse>)\<^sup>*" by (rule set_mp [OF rtrancl_mono, rotated]) simp
    moreover have "(?root, h) \<in> (?L\<inverse>)\<^sup>*" using h by (simp add: rtrancl_converse)
    then have "(?root, h) \<in> (?L \<union> ?L\<inverse>)\<^sup>*" by (rule set_mp [OF rtrancl_mono, rotated]) simp
    ultimately show "(g, h) \<in> (?L \<union> ?L\<inverse>)\<^sup>*" by (rule rtrancl_trans)
  next
    assume "(g, h) \<in> (?L \<union> ?L\<inverse>)\<^sup>*"
    then show "(g, ?root) \<in> ?L\<^sup>*"
    proof (induction rule: converse_rtrancl_induct)
      case base
      show ?case by (rule h)
    next
      case (step y z)
      then show ?case using up by (auto intro: converse_rtrancl_into_rtrancl)
    qed
  qed
  then show ?thesis unfolding descendants_exact same_branch_def by simp
qed

lemma fold_union: "set (fold (\<lambda>p acc. if P p then acc else f p @ acc) ps acc) = set acc \<union> (\<Union>p\<in>{p \<in> set ps. \<not> P p}. set (f p))"
  by (induction ps arbitrary: acc) auto

lemma stale_links_distinct: "distinct (map pj_hash projections) \<Longrightarrow> distinct (map fst (stale_links projections))"
  by (simp add: stale_links_def heighted_stale_def Let_def comp_def distinct_map inj_on_subset [where B = "Collect _ \<inter> _"] distinct_filter)
   (auto simp: inj_on_def)

text \<open>Stale branches are shown whole.  With distinct hashes, the stale parents that a query brings into the tree are
  exactly those on the branch of a stale parent that the query selects: a filter on kinds and sources never shows a
  fragment of a branch, and never a branch it does not touch.\<close>

lemma stale_branches_shown_whole:
  assumes "distinct (map pj_hash projections)"
  shows "h \<in> set (stale_branch_members_to_include query projections) \<longleftrightarrow>
    (\<exists>p\<in>set projections. pj_kind p = Stale \<and> pj_height p \<noteq> None \<and> kind_selected (tq_kinds query) Stale \<and>
       tq_min_sources query \<le> pj_distinct_sources p \<and> same_branch (stale_links projections) h (pj_hash p))"
  unfolding stale_branch_members_to_include_def Let_def fold_union descendants_of_root [OF stale_links_distinct [OF assms]]
  by (auto simp: heighted_stale_def)

section \<open>Branch names\<close>

text \<open>Heights fall along the stale links of the nodes, as block heights do.\<close>

definition stale_heights_fall :: "'r tree_node list \<Rightarrow> bool" where
  "stale_heights_fall nodes \<longleftrightarrow> list_all (\<lambda>n. list_all (\<lambda>m.
     tn_kind m = Stale \<and> tn_hash m = tn_prev_hash n \<longrightarrow> tn_height m < tn_height n) nodes) nodes"

definition stale_prev :: "'r tree_node list \<Rightarrow> 'r tree_node \<Rightarrow> 'r tree_node option" where
  "stale_prev nodes n = List.find (\<lambda>m. tn_kind m = Stale \<and> tn_hash m = tn_prev_hash n) nodes"

lemma find_unique:
  "distinct (map f xs) \<Longrightarrow> x \<in> set xs \<Longrightarrow> List.find (\<lambda>y. f y = f x) xs = Some x"
proof (induction xs)
  case (Cons y ys)
  then show ?case by (cases "x = y") force+
qed simp

lemma branch_root_step:
  assumes "distinct (map tn_hash nodes)"
  shows "branch_root nodes n = (case stale_prev nodes n of None \<Rightarrow> Some n | Some m \<Rightarrow> branch_root nodes m)"
proof (cases "stale_prev nodes n")
  case None
  then have "tn_prev_hash n \<notin> tn_hash ` {m \<in> set nodes. tn_kind m = Stale}"
    by (auto simp: stale_prev_def find_None_iff)
  then show ?thesis using None by (subst branch_root.simps) auto
next
  case (Some m)
  then have m: "m \<in> set nodes" "tn_kind m = Stale" "tn_hash m = tn_prev_hash n"
    by (auto simp: stale_prev_def find_Some_iff)
  then have "List.find (\<lambda>y. tn_hash y = tn_prev_hash n) nodes = Some m" using find_unique [OF assms m(1)] by simp
  then show ?thesis using m Some by (subst branch_root.simps) force
qed

lemma branch_root_returns:
  assumes "distinct (map tn_hash nodes)" "stale_heights_fall nodes"
  shows "n \<in> set nodes \<Longrightarrow> \<exists>root. branch_root nodes n = Some root"
proof (induction "card {m \<in> set nodes. tn_height m < tn_height n}" arbitrary: n rule: less_induct)
  case less
  show ?case
  proof (cases "stale_prev nodes n")
    case None
    then show ?thesis by (simp add: branch_root_step [OF assms(1)])
  next
    case (Some m)
    then have m: "m \<in> set nodes" "tn_kind m = Stale" "tn_hash m = tn_prev_hash n"
      by (auto simp: stale_prev_def find_Some_iff)
    then have "tn_height m < tn_height n" using assms(2) less(2) by (auto simp: stale_heights_fall_def list_all_iff)
    then have "{k \<in> set nodes. tn_height k < tn_height m} \<subset> {k \<in> set nodes. tn_height k < tn_height n}"
      using m(1) by auto
    then have "card {k \<in> set nodes. tn_height k < tn_height m} < card {k \<in> set nodes. tn_height k < tn_height n}"
      by (intro psubset_card_mono) auto
    from less(1) [OF this m(1)] Some show ?thesis by (simp add: branch_root_step [OF assms(1), of n])
  qed
qed

lemma collect_options_some:
  "\<forall>x\<in>set xs. f x = Some (g x) \<Longrightarrow> collect_options f xs = Some (map g xs)"
  by (induction xs) auto

text \<open>C22: Every stale node gets the name of its branch.  When hashes are distinct and heights fall along stale links, the
  unguarded walk to the root of a branch returns for every node, each stale node carries the name made of the root that it reaches, and a stale
  node and its stale predecessor carry the same name; the other nodes are left alone.\<close>

theorem branches_named:
  assumes "distinct (map tn_hash nodes)" "stale_heights_fall nodes"
  shows "\<exists>out. assign_branches show_i32 nodes = Some out \<and>
    list_all2 (\<lambda>n n'. if tn_kind n = Stale
      then \<exists>root. branch_root nodes n = Some root \<and> n' = n\<lparr>tn_branch := Some (branch_id_of show_i32 root)\<rparr>
      else n' = n) nodes out \<and>
    (\<forall>m n. m \<in> set out \<longrightarrow> n \<in> set out \<longrightarrow> tn_kind m = Stale \<longrightarrow> tn_kind n = Stale \<longrightarrow> tn_prev_hash n = tn_hash m \<longrightarrow>
       tn_branch n = tn_branch m)"
proof -
  let ?stale = "filter (\<lambda>n. tn_kind n = Stale) nodes"
  define root where "root n = the (branch_root nodes n)" for n
  define name where "name n = branch_id_of show_i32 (root n)" for n
  define label where "label n = (if tn_kind n = Stale then n\<lparr>tn_branch := Some (name n)\<rparr> else n)" for n
  have root: "branch_root nodes n = Some (root n)" if "n \<in> set nodes" for n
    using branch_root_returns [OF assms that] by (auto simp: root_def)
  have ids: "collect_options (\<lambda>n. map_option (\<lambda>root. (tn_hash n, branch_id_of show_i32 root)) (branch_root nodes n)) ?stale =
      Some (map (\<lambda>n. (tn_hash n, name n)) ?stale)"
    by (rule collect_options_some) (simp add: root name_def)
  have look: "map_of (rev (map (\<lambda>n. (tn_hash n, name n)) ?stale)) (tn_hash n) = Some (name n)" if "n \<in> set ?stale" for n
    by (rule map_of_is_SomeI) (use that assms(1) in \<open>auto simp: rev_map [symmetric] comp_def distinct_map inj_on_def\<close>)
  have out: "assign_branches show_i32 nodes = Some (map label nodes)"
    unfolding assign_branches_def ids using look by (auto simp: label_def)
  have same: "name n = name m" if mn: "m \<in> set nodes" "n \<in> set nodes" "tn_kind m = Stale" "tn_prev_hash n = tn_hash m" for m n
  proof -
    obtain k where k: "stale_prev nodes n = Some k"
      using mn by (cases "stale_prev nodes n") (auto simp: stale_prev_def find_None_iff)
    then have "k \<in> set nodes" "tn_hash k = tn_hash m" using mn(4) by (auto simp: stale_prev_def find_Some_iff)
    then have "k = m" using assms(1) mn(1) by (auto simp: distinct_map dest: inj_onD)
    then have "branch_root nodes n = branch_root nodes m" using branch_root_step [OF assms(1), of n] k by simp
    then show ?thesis using root mn(1,2) by (simp add: name_def)
  qed
  have each: "list_all2 (\<lambda>n n'. if tn_kind n = Stale
      then \<exists>root. branch_root nodes n = Some root \<and> n' = n\<lparr>tn_branch := Some (branch_id_of show_i32 root)\<rparr>
      else n' = n) nodes (map label nodes)"
    by (simp add: list_all2_conv_all_nth label_def root name_def)
  have "tn_branch n = tn_branch m"
    if mn: "m \<in> set (map label nodes)" "n \<in> set (map label nodes)" "tn_kind m = Stale" "tn_kind n = Stale" "tn_prev_hash n = tn_hash m" for m n
  proof -
    obtain a b where ab: "a \<in> set nodes" "m = label a" "b \<in> set nodes" "n = label b" using mn(1,2) by auto
    have kept: "tn_kind (label x) = tn_kind x" "tn_hash (label x) = tn_hash x" "tn_prev_hash (label x) = tn_prev_hash x" for x
      by (simp_all add: label_def)
    have "name b = name a" using same [OF ab(1,3)] mn(3,5) by (simp add: ab kept)
    then show ?thesis using mn(3,4) by (simp add: ab kept) (simp add: label_def)
  qed
  then show ?thesis using out each by blast
qed


section \<open>Answers\<close>

lemma collect_results_rows:
  "collect_results f xs = Inr ys \<Longrightarrow> list_all2 (\<lambda>x y. f x = Inr y) xs ys"
  by (induction xs arbitrary: ys) (auto simp: rbind_def split: sum.split_asm)

lemma selected_hash:
  "select_projection query np p = Inr (Some (q, b)) \<Longrightarrow> pj_hash q = pj_hash p"
  "select_direct query p = Inr (Some (q, b)) \<Longrightarrow> pj_hash q = pj_hash p"
  by (auto simp: select_projection_def select_direct_def Let_def rbind_def
      split: option.split_asm parent_kind.split_asm if_split_asm sum.split_asm)

lemma map_filter_hashes:
  "list_all2 (\<lambda>x y. case y of None \<Rightarrow> True | Some (q, b) \<Rightarrow> pj_hash q = pj_hash x) xs ys \<Longrightarrow> distinct (map pj_hash xs) \<Longrightarrow>
     distinct (map pj_hash (map fst (List.map_filter (\<lambda>x. x) ys))) \<and>
     set (map pj_hash (map fst (List.map_filter (\<lambda>x. x) ys))) \<subseteq> pj_hash ` set xs"
  by (induction xs ys rule: list_all2_induct) (auto simp: List.map_filter_simps split: option.split)

lemma select_candidates_distinct:
  assumes "select_tree_candidates query projections direct np = Inr (candidates, n)"
    and "distinct (map pj_hash projections)"
    and "\<And>ds. direct = Inr ds \<Longrightarrow> distinct (map pj_hash (projections @ ds))"
  shows "distinct (map pj_hash candidates)"
proof -
  obtain selected extra where s: "collect_results (select_projection query np) projections = Inr selected"
    "(if tq_include_unheighted query \<and> tq_classification_pending query \<and> kind_selected (tq_kinds query) Unknown
            then rbind direct (collect_results (select_direct query)) else Inr []) = Inr extra"
    "candidates = map fst (List.map_filter (\<lambda>x. x) (selected @ extra))"
    using assms(1) unfolding select_tree_candidates_def rbind_def by (auto simp: Let_def split: sum.split_asm)
  obtain ds where ds: "collect_results (select_direct query) ds = Inr extra" "distinct (map pj_hash (projections @ ds))"
  proof (cases "tq_include_unheighted query \<and> tq_classification_pending query \<and> kind_selected (tq_kinds query) Unknown")
    case True
    then obtain d where "direct = Inr d" "collect_results (select_direct query) d = Inr extra"
      using s(2) by (auto simp: rbind_def split: sum.split_asm)
    then show ?thesis using that assms(3) by blast
  next
    case False
    then have "extra = []" using s(2) by (auto split: if_split_asm)
    then show ?thesis using that [of "[]"] assms(2) by simp
  qed
  have "list_all2 (\<lambda>x y. case y of None \<Rightarrow> True | Some (q, b) \<Rightarrow> pj_hash q = pj_hash x) projections selected"
    by (rule list_all2_mono [OF collect_results_rows [OF s(1)]]) (auto dest: selected_hash split: option.split)
  moreover have "list_all2 (\<lambda>x y. case y of None \<Rightarrow> True | Some (q, b) \<Rightarrow> pj_hash q = pj_hash x) ds extra"
    by (rule list_all2_mono [OF collect_results_rows [OF ds(1)]]) (auto dest: selected_hash split: option.split)
  ultimately have "list_all2 (\<lambda>x y. case y of None \<Rightarrow> True | Some (q, b) \<Rightarrow> pj_hash q = pj_hash x) (projections @ ds) (selected @ extra)"
    by (rule list_all2_appendI)
  from map_filter_hashes [OF this ds(2)] show ?thesis by (simp add: s(3))
qed

lemma attach_hashes [simp]: "map pj_hash (attach_competitions competitions ps) = map pj_hash ps"
  by (auto simp: attach_competitions_def split: option.split sum.split)

lemma relax_hashes [simp]: "map pj_hash (relax_compact_canonical_backbone np ps) = map pj_hash ps"
  by (auto simp: relax_compact_canonical_backbone_def)

lemma assign_branches_length: "assign_branches show_i32 nodes = Some out \<Longrightarrow> length out = length nodes \<and> map tn_hash out = map tn_hash nodes"
  by (auto simp: assign_branches_def)

lemma assembled_tree:
  assumes "reduce_and_assemble_tree show_i32 candidates window extra = Some (Inr payload)" "distinct (map pj_hash candidates)"
  shows "length (tp_nodes payload) \<le> node_limit" "set (map tn_hash (tp_nodes payload)) \<subseteq> pj_hash ` set candidates"
    "distinct (map tn_hash (tp_nodes payload))" "tp_window payload = window"
    "\<And>c. c \<in> set candidates \<Longrightarrow> pj_hash c \<in> set (map tn_hash (tp_nodes payload)) \<or>
       (pj_kind c = Canonical \<and> pj_height c \<noteq> None \<and> \<not> pj_protected c \<and> \<not> pj_evidence c)"
proof -
  let ?rns = "map reduction_node_of candidates"
  obtain visible where v: "reduce_to node_limit ?rns = Inr visible"
    using assms(1) by (auto simp: reduce_and_assemble_tree_def reduce_def split: sum.split_asm)
  let ?shown = "sort_nodes (filter (\<lambda>p. List.member visible (pj_hash p)) candidates)"
  obtain out where out: "assign_branches show_i32 (map (tree_node_of ?shown (map (\<lambda>p. (pj_hash p, pj_prev_hash p)) candidates @ extra)) ?shown) = Some out"
    "tp_nodes payload = out" "tp_window payload = window"
    using assms(1) v by (auto simp: reduce_and_assemble_tree_def reduce_def materialize_tree_def)
  have d: "distinct (map rn_hash ?rns)" using assms(2) by (simp add: reduction_node_of_def comp_def)
  note kept = reduce_to_keeps [OF v d]
  have h: "map tn_hash out = map pj_hash ?shown" using assign_branches_length [OF out(1)] by (simp add: tree_node_of_def comp_def)
  have dd: "distinct (map pj_hash ?shown)" using assms(2) by (auto simp: sort_nodes_def distinct_map intro: inj_on_subset)
  have s: "set (map pj_hash ?shown) \<subseteq> set visible" by auto
  have "length out = card (set (map pj_hash ?shown))" using distinct_card [OF dd] h by (metis length_map)
  also have "\<dots> \<le> card (set visible)" by (rule card_mono [OF _ s]) simp
  also have "\<dots> \<le> node_limit" using kept(1) card_length [of visible] by linarith
  finally show "length (tp_nodes payload) \<le> node_limit" by (simp add: out)
  show "set (map tn_hash (tp_nodes payload)) \<subseteq> pj_hash ` set candidates" "distinct (map tn_hash (tp_nodes payload))"
    "tp_window payload = window"
    unfolding out(2) h using dd out(3) by auto
  show "pj_hash c \<in> set (map tn_hash (tp_nodes payload)) \<or>
       (pj_kind c = Canonical \<and> pj_height c \<noteq> None \<and> \<not> pj_protected c \<and> \<not> pj_evidence c)" if c: "c \<in> set candidates" for c
  proof (cases "pj_hash c \<in> set visible")
    case True
    then show ?thesis unfolding out(2) h using c by auto
  next
    case False
    then have "rn_hash (reduction_node_of c) \<notin> set visible" by (simp add: reduction_node_of_def)
    then have "linked_context (set ?rns) (rn_hash (reduction_node_of c))" by (rule kept(4) [rotated]) (use c in simp)
    from d this show ?thesis by (rule linked_context_node) (use c in \<open>auto simp: removable_context_def reduction_node_of_def\<close>)
  qed
qed

text \<open>The rows of a request name each parent once.\<close>

definition parents_once :: "'r tree_rows \<Rightarrow> bool" where
  "parents_once rows = distinct (map pj_hash (tr_projections rows @ (case tr_direct rows of Inr ds \<Rightarrow> ds | Inl _ \<Rightarrow> [])))"

lemma parents_once_direct:
  assumes "parents_once rows"
  shows "distinct (map pj_hash (attach_competitions cs (tr_projections rows)))"
    "tr_direct rows = Inr ds \<Longrightarrow> distinct (map pj_hash (attach_competitions cs (tr_projections rows) @ ds))"
proof -
  show "distinct (map pj_hash (attach_competitions cs (tr_projections rows)))"
    using assms by (simp add: parents_once_def)
  assume "tr_direct rows = Inr ds"
  then have "distinct (map pj_hash (tr_projections rows) @ map pj_hash ds)" using assms by (simp add: parents_once_def)
  then show "distinct (map pj_hash (attach_competitions cs (tr_projections rows) @ ds))" by (simp only: map_append attach_hashes)
qed

lemma stale_competitions_ok:
  "ensure_emitted_stale_competitions ps = Inr () \<longleftrightarrow> (\<forall>p\<in>set ps. pj_kind p = Stale \<longrightarrow> pj_competition p \<noteq> None)"
  by (auto simp: ensure_emitted_stale_competitions_def find_None_iff find_Some_iff split: option.split)

lemma attach_keeps:
  "map (\<lambda>p. (pj_hash p, pj_prev_hash p, pj_height p, pj_kind p, pj_distinct_sources p)) (attach_competitions cs ps) =
   map (\<lambda>p. (pj_hash p, pj_prev_hash p, pj_height p, pj_kind p, pj_distinct_sources p)) ps"
  by (auto simp: attach_competitions_def split: option.split sum.split)

lemma attached_row:
  assumes "p \<in> set ps"
  obtains q where "q \<in> set (attach_competitions cs ps)" "pj_hash q = pj_hash p" "pj_prev_hash q = pj_prev_hash p"
    "pj_height q = pj_height p" "pj_kind q = pj_kind p" "pj_distinct_sources q = pj_distinct_sources p"
proof -
  let ?f = "\<lambda>p. (pj_hash p, pj_prev_hash p, pj_height p, pj_kind p, pj_distinct_sources p)"
  have "?f p \<in> set (map ?f (attach_competitions cs ps))" using assms unfolding attach_keeps by simp
  then show ?thesis using that by auto
qed

lemma attached_row_from:
  assumes "q \<in> set (attach_competitions cs ps)"
  obtains p where "p \<in> set ps" "pj_hash q = pj_hash p" "pj_prev_hash q = pj_prev_hash p" "pj_height q = pj_height p" "pj_kind q = pj_kind p"
proof -
  let ?f = "\<lambda>p. (pj_hash p, pj_prev_hash p, pj_height p, pj_kind p, pj_distinct_sources p)"
  have "?f q \<in> set (map ?f ps)" using assms unfolding attach_keeps [of cs ps, symmetric] by simp
  then show ?thesis using that by auto
qed

lemma stale_links_in:
  "(h, k) \<in> set (stale_links ps) \<longleftrightarrow> (\<exists>p\<in>set ps. \<exists>q\<in>set ps. pj_height p \<noteq> None \<and> pj_kind p = Stale \<and> pj_height q \<noteq> None \<and> pj_kind q = Stale \<and>
     pj_hash p = h \<and> pj_prev_hash p = k \<and> pj_hash q = k)"
proof
  assume "(h, k) \<in> set (stale_links ps)"
  then obtain p where p: "p \<in> set ps" "pj_height p \<noteq> None" "pj_kind p = Stale" "h = pj_hash p" "k = pj_prev_hash p"
    "k \<in> pj_hash ` set (heighted_stale ps)"
    by (auto simp: stale_links_def heighted_stale_def Let_def)
  then obtain q where "q \<in> set ps" "pj_height q \<noteq> None" "pj_kind q = Stale" "pj_hash q = k" by (auto simp: heighted_stale_def)
  with p show "\<exists>p\<in>set ps. \<exists>q\<in>set ps. pj_height p \<noteq> None \<and> pj_kind p = Stale \<and> pj_height q \<noteq> None \<and> pj_kind q = Stale \<and>
     pj_hash p = h \<and> pj_prev_hash p = k \<and> pj_hash q = k" by blast
qed (force simp: stale_links_def heighted_stale_def Let_def image_iff)

lemma stale_links_mono:
  assumes "\<And>p. p \<in> set ps \<Longrightarrow> \<exists>q\<in>set qs. pj_hash q = pj_hash p \<and> pj_prev_hash q = pj_prev_hash p \<and> pj_height q = pj_height p \<and> pj_kind q = pj_kind p"
  shows "set (stale_links ps) \<subseteq> set (stale_links qs)"
proof (intro subrelI)
  fix h k assume "(h, k) \<in> set (stale_links ps)"
  then obtain p q where pq: "p \<in> set ps" "q \<in> set ps" "pj_height p \<noteq> None" "pj_kind p = Stale" "pj_height q \<noteq> None" "pj_kind q = Stale"
    "pj_hash p = h" "pj_prev_hash p = k" "pj_hash q = k" unfolding stale_links_in by blast
  from assms [OF pq(1)] assms [OF pq(2)] obtain p' q' where "p' \<in> set qs" "q' \<in> set qs" "pj_height p' \<noteq> None" "pj_kind p' = Stale"
    "pj_height q' \<noteq> None" "pj_kind q' = Stale" "pj_hash p' = h" "pj_prev_hash p' = k" "pj_hash q' = k" using pq(3-9) by auto
  then show "(h, k) \<in> set (stale_links qs)" unfolding stale_links_in by blast
qed

lemma attach_links: "set (stale_links (attach_competitions cs ps)) = set (stale_links ps)"
proof (rule equalityI; rule stale_links_mono)
  fix p assume "p \<in> set (attach_competitions cs ps)"
  then show "\<exists>q\<in>set ps. pj_hash q = pj_hash p \<and> pj_prev_hash q = pj_prev_hash p \<and> pj_height q = pj_height p \<and> pj_kind q = pj_kind p"
    by (rule attached_row_from) fastforce
next
  fix p assume "p \<in> set ps"
  then show "\<exists>q\<in>set (attach_competitions cs ps). pj_hash q = pj_hash p \<and> pj_prev_hash q = pj_prev_hash p \<and> pj_height q = pj_height p \<and> pj_kind q = pj_kind p"
    by (rule attached_row [where cs = cs]) fastforce
qed

lemma branch_members_included:
  assumes "distinct (map pj_hash ps)" "p \<in> set ps" "pj_kind p = Stale" "pj_height p \<noteq> None" "kind_selected (tq_kinds query) Stale"
    "tq_min_sources query \<le> pj_distinct_sources p" "same_branch (stale_links ps) h (pj_hash p)"
  shows "h \<in> set (stale_branch_members_to_include query ps)"
  unfolding stale_branch_members_to_include_def Let_def fold_union descendants_of_root [OF stale_links_distinct [OF assms(1)]]
  using assms by (auto simp: heighted_stale_def intro!: exI [of _ p])

lemma member_selected:
  assumes "select_tree_candidates query ps direct np = Inr (candidates, n)" "q \<in> set ps" "pj_kind q = Stale" "pj_height q \<noteq> None"
    "pj_hash q \<in> set (np_stale_branch_members np)"
  shows "\<exists>c\<in>set candidates. pj_hash c = pj_hash q \<and> pj_kind c = Stale"
proof -
  obtain selected extra where s: "collect_results (select_projection query np) ps = Inr selected"
    "candidates = map fst (List.map_filter (\<lambda>x. x) (selected @ extra))"
    using assms(1) unfolding select_tree_candidates_def rbind_def by (auto simp: Let_def split: sum.split_asm)
  obtain i where i: "i < length ps" "ps ! i = q" using assms(2) by (auto simp: in_set_conv_nth)
  have l: "list_all2 (\<lambda>x y. select_projection query np x = Inr y) ps selected" by (rule collect_results_rows [OF s(1)])
  then have "select_projection query np q = Inr (selected ! i)" "i < length selected"
    using i by (auto simp: list_all2_conv_all_nth)
  moreover obtain c where "select_projection query np q = Inr (Some (c, False))" "pj_hash c = pj_hash q" "pj_kind c = Stale"
    using assms(3-5) by (auto simp: select_projection_def Let_def)
  ultimately have "Some (c, False) \<in> set selected" "pj_hash c = pj_hash q" "pj_kind c = Stale" by (metis nth_mem sum.inject(2))+
  then show ?thesis unfolding s(2) by (force simp: List.map_filter_def)
qed

text \<open>C16: An answered tree is complete for the rows it was given.  When the loaded rows of a request name each
  parent once and the request is answered, its window was covered, it has at most five hundred nodes with distinct hashes, and it shows every stale parent with a
  height on the branch of one that the query selects.\<close>

theorem answered_tree_complete:
  assumes "tree_projection show_i32 blocks load query window = Some (Inr payload)" "load window = Inr rows" "parents_once rows"
  shows "ensure_tree_backbone_coverage blocks window = Inr () \<and> tp_window payload = window \<and>
    length (tp_nodes payload) \<le> 500 \<and> distinct (map tn_hash (tp_nodes payload)) \<and>
    (\<forall>p\<in>set (tr_projections rows). \<forall>q\<in>set (tr_projections rows).
       pj_kind p = Stale \<and> pj_height p \<noteq> None \<and> kind_selected (tq_kinds query) Stale \<and> tq_min_sources query \<le> pj_distinct_sources p \<and>
       pj_kind q = Stale \<and> pj_height q \<noteq> None \<and> same_branch (stale_links (tr_projections rows)) (pj_hash q) (pj_hash p) \<longrightarrow>
       pj_hash q \<in> set (map tn_hash (tp_nodes payload)))"
proof -
  define ps where "ps = attach_competitions (tr_competitions rows) (tr_projections rows)"
  define members where "members = stale_branch_members_to_include query ps"
  define np where "np = \<lparr>np_stale_branch_members = members, np_protected_stale_attach_parents = stale_attach_parent_hashes ps members,
      np_protected_competitors = stale_member_competitor_hashes ps members, np_protected_context = []\<rparr>"
  obtain candidates n where c: "ensure_tree_backbone_coverage blocks window = Inr ()"
    "select_tree_candidates query ps (tr_direct rows) np = Inr (candidates, n)"
    "reduce_and_assemble_tree show_i32 candidates window [] = Some (Inr payload)"
    using assms(1,2) unfolding tree_projection_def rbind_def Let_def np_def members_def ps_def
    by (auto split: sum.split_asm prod.split_asm if_split_asm)
  have once: "distinct (map pj_hash ps)" "\<And>ds. tr_direct rows = Inr ds \<Longrightarrow> distinct (map pj_hash (ps @ ds))"
    unfolding ps_def using parents_once_direct [OF assms(3)] by blast+
  have "distinct (map pj_hash candidates)" using c(2) once by (rule select_candidates_distinct)
  note tree = assembled_tree [OF c(3) this]
  have "pj_hash q \<in> set (map tn_hash (tp_nodes payload))"
    if pq: "p \<in> set (tr_projections rows)" "q \<in> set (tr_projections rows)" "pj_kind p = Stale" "pj_height p \<noteq> None"
      "kind_selected (tq_kinds query) Stale" "tq_min_sources query \<le> pj_distinct_sources p" "pj_kind q = Stale" "pj_height q \<noteq> None"
      "same_branch (stale_links (tr_projections rows)) (pj_hash q) (pj_hash p)" for p q
  proof -
    obtain p' where p': "p' \<in> set ps" "pj_hash p' = pj_hash p" "pj_kind p' = Stale" "pj_height p' \<noteq> None"
        "tq_min_sources query \<le> pj_distinct_sources p'"
      using attached_row [OF pq(1), of "tr_competitions rows"] pq(3,4,6) unfolding ps_def by metis
    obtain q' where q': "q' \<in> set ps" "pj_hash q' = pj_hash q" "pj_kind q' = Stale" "pj_height q' \<noteq> None"
      using attached_row [OF pq(2), of "tr_competitions rows"] pq(7,8) unfolding ps_def by metis
    have "same_branch (stale_links ps) (pj_hash q') (pj_hash p')" using pq(9) p'(2) q'(2) by (simp add: same_branch_def ps_def attach_links)
    then have "pj_hash q' \<in> set (np_stale_branch_members np)"
      unfolding np_def members_def by (simp add: branch_members_included [OF once(1) p'(1,3,4) pq(5) p'(5)])
    from member_selected [OF c(2) q'(1,3,4) this] obtain x where "x \<in> set candidates" "pj_hash x = pj_hash q" "pj_kind x = Stale"
      using q'(2) by auto
    then show ?thesis using tree(5) [of x] by auto
  qed
  then show ?thesis using c(1) tree(1,3,4) by (simp add: node_limit_def)
qed

section \<open>A concrete tree\<close>

definition demo_parent :: "char \<Rightarrow> char \<Rightarrow> int \<Rightarrow> parent_kind \<Rightarrow> unit parent_projection" where
  "demo_parent c prev h kind = \<lparr>pj_hash_bytes = [], pj_hash = [c], pj_prev_hash = [prev], pj_height = Some h, pj_kind = kind,
     pj_header_time = 0, pj_distinct_sources = 1, pj_evidence = False, pj_protected = False, pj_competition = None, pj_rest = ()\<rparr>"

text \<open>A canonical chain \<open>a\<close> to \<open>e\<close> and a stale block \<open>s\<close> on \<open>t\<close> on \<open>c\<close>.\<close>

definition demo_candidates :: "unit parent_projection list" where
  "demo_candidates = [demo_parent CHR ''a'' CHR ''0'' 1 Canonical, demo_parent CHR ''b'' CHR ''a'' 2 Canonical,
     demo_parent CHR ''c'' CHR ''b'' 3 Canonical, demo_parent CHR ''d'' CHR ''c'' 4 Canonical,
     demo_parent CHR ''e'' CHR ''d'' 5 Canonical]"

definition demo_stale :: "unit parent_projection list" where
  "demo_stale = [demo_parent CHR ''s'' CHR ''t'' 5 Stale, demo_parent CHR ''t'' CHR ''c'' 4 Stale]"

lemma demo_reduced: "reduce_to 3 (map reduction_node_of demo_candidates) = Inr [''a'', ''e'']"
  by code_simp

theorem tree_reduction_safe_witness:
  "length [''a'', ''e''] \<le> 3 \<and> distinct [''a'', ''e''] \<and>
   rn_kind (reduction_node_of (demo_parent CHR ''c'' CHR ''b'' 3 Canonical)) = Canonical \<and>
   \<not> rn_protected (reduction_node_of (demo_parent CHR ''c'' CHR ''b'' 3 Canonical))"
proof -
  have d: "distinct (map rn_hash (map reduction_node_of demo_candidates))" by code_simp
  have "reduction_node_of (demo_parent CHR ''c'' CHR ''b'' 3 Canonical) \<in> set (map reduction_node_of demo_candidates)"
    by (simp add: demo_candidates_def)
  moreover have "rn_hash (reduction_node_of (demo_parent CHR ''c'' CHR ''b'' 3 Canonical)) \<notin> set [''a'', ''e'']"
    by (simp add: demo_parent_def reduction_node_of_def)
  ultimately show ?thesis using tree_reduction_safe [OF demo_reduced d] by blast
qed

definition demo_shown :: "unit parent_projection list" where
  "demo_shown = sort_nodes (filter (\<lambda>p. List.member [''a'', ''e''] (pj_hash p)) demo_candidates)"

definition demo_entries :: "(string \<times> string) list" where
  "demo_entries = map (\<lambda>p. (pj_hash p, pj_prev_hash p)) demo_candidates"

theorem hidden_edges_connect_witness:
  "\<exists>from k. id_by_hash demo_shown from \<noteq> None \<and> ancestor (ancestry_map demo_entries) k ''d'' = Some from \<and>
     snd (snd (node_edge demo_shown demo_entries (demo_parent CHR ''e'' CHR ''d'' 5 Canonical))) = k"
proof -
  have "distinct (map pj_hash demo_candidates)" "\<forall>c\<in>set demo_candidates. ancestry_map demo_entries (pj_hash c) = Some (pj_prev_hash c)"
    by code_simp+
  moreover have "demo_parent CHR ''e'' CHR ''d'' 5 Canonical \<in> set demo_shown"
    by (simp add: demo_shown_def demo_candidates_def demo_parent_def)
  moreover have "pj_kind (demo_parent CHR ''e'' CHR ''d'' 5 Canonical) \<noteq> InvalidBlock"
    "pj_prev_hash (demo_parent CHR ''e'' CHR ''d'' 5 Canonical) = ''d''"
    "''d'' \<in> pj_hash ` set demo_candidates"
    by (simp_all add: demo_parent_def demo_candidates_def)
  ultimately show ?thesis
    using hidden_edges_connect [OF demo_reduced, of demo_entries demo_shown "demo_parent CHR ''e'' CHR ''d'' 5 Canonical"]
    unfolding demo_shown_def by (simp only: simp_thms if_False) blast
qed

definition demo_query :: tree_query where
  "demo_query = \<lparr>tq_kinds = [Stale], tq_classification_pending = False, tq_include_unheighted = False, tq_unheighted_from = None,
     tq_unheighted_to = None, tq_min_sources = 1\<rparr>"

lemma stale_branches_shown_whole_witness: "''t'' \<in> set (stale_branch_members_to_include demo_query demo_stale)"
proof -
  have d: "distinct (map pj_hash demo_stale)" "(''s'', ''t'') \<in> set (stale_links demo_stale)" by code_simp+
  have "demo_parent CHR ''s'' CHR ''t'' 5 Stale \<in> set demo_stale" by (simp add: demo_stale_def)
  moreover have "same_branch (stale_links demo_stale) ''t'' ''s''" using d(2) by (auto simp: same_branch_def)
  ultimately show ?thesis
    using stale_branches_shown_whole [OF d(1), of "''t''" demo_query]
    by (auto simp: demo_parent_def demo_query_def kind_selected_def intro!: bexI [of _ "demo_parent CHR ''s'' CHR ''t'' 5 Stale"])
qed

definition demo_nodes :: "unit tree_node list" where
  "demo_nodes = map (tree_node_of demo_stale []) demo_stale"

theorem branches_named_witness: "\<exists>out. assign_branches (\<lambda>_. ''4'') demo_nodes = Some out"
proof -
  have "distinct (map tn_hash demo_nodes)" "stale_heights_fall demo_nodes" by code_simp+
  from branches_named [OF this, of "\<lambda>_. ''4''"] show ?thesis by blast
qed

definition demo_tree_rows :: "unit tree_rows" where
  "demo_tree_rows = \<lparr>tr_projections = demo_candidates @ demo_stale,
     tr_competitions = [\<lparr>cp_stale_hash = [], cp_canonical_hash = replicate 32 0, cp_header_time_delta_s = None\<rparr>],
     tr_direct = Inr [], tr_blocks = []\<rparr>"

lemma demo_answered:
  "map_option (map_sum id (\<lambda>payload. map tn_hash (tp_nodes payload)))
     (tree_projection (\<lambda>_. ''4'') [] (\<lambda>_. Inr demo_tree_rows) demo_query (empty_window ''no_canonical_tip'')) =
   Some (Inr [''a'', ''b'', ''c'', ''d'', ''t'', ''e'', ''s''])"
  by code_simp

theorem answered_tree_complete_witness:
  "\<exists>payload. tree_projection (\<lambda>_. ''4'') [] (\<lambda>_. Inr demo_tree_rows) demo_query (empty_window ''no_canonical_tip'') = Some (Inr payload) \<and>
     length (tp_nodes payload) \<le> 500 \<and> distinct (map tn_hash (tp_nodes payload))"
proof -
  obtain payload where p:
    "tree_projection (\<lambda>_. ''4'') [] (\<lambda>_. Inr demo_tree_rows) demo_query (empty_window ''no_canonical_tip'') = Some (Inr payload)"
    using demo_answered by (auto simp: map_option_case map_sum_def split: option.split_asm sum.split_asm)
  have "parents_once demo_tree_rows" by code_simp
  from answered_tree_complete [OF p refl this] p show ?thesis by blast
qed

end
