(* ===== verification/Historical_Source.thy ===== *)
theory Historical_Source
  imports Event_Payload Lineage
begin

text \<open>
  \<open>crates/mmm-producers/src/historical_ingest/csv_source\<close> and \<open>rsk_sidecar.rs\<close>: one row of a published CSV artifact
  as a candidate for import, or the reason to skip it.  A record is the list of its cells, as the \<open>csv\<close>
  crate splits them; the columns are found by name in the header row.
\<close>

section \<open>Cells\<close>

datatype skip_reason =
    SkipEmptyField | SkipMissingChildIdentity | SkipMalformed | SkipHashMismatch | SkipEvidenceMismatch
  | SkipTaxonomyMismatch | SkipTargetInvalid | SkipUnsupportedClassification | SkipNear | SkipOrphanNotSelected
  | SkipOrphanExcluded | SkipOrphanPending | SkipClassificationMismatch | SkipUnclassified

definition skip_reason_as_str :: "skip_reason \<Rightarrow> string" where
  "skip_reason_as_str r =
     (case r of
        SkipEmptyField \<Rightarrow> ''empty_field''
      | SkipMissingChildIdentity \<Rightarrow> ''missing_child_identity''
      | SkipMalformed \<Rightarrow> ''malformed''
      | SkipHashMismatch \<Rightarrow> ''hash_mismatch''
      | SkipEvidenceMismatch \<Rightarrow> ''evidence_mismatch''
      | SkipTaxonomyMismatch \<Rightarrow> ''taxonomy_mismatch''
      | SkipTargetInvalid \<Rightarrow> ''target_invalid''
      | SkipUnsupportedClassification \<Rightarrow> ''unsupported_classification''
      | SkipNear \<Rightarrow> ''near''
      | SkipOrphanNotSelected \<Rightarrow> ''orphan_not_selected''
      | SkipOrphanExcluded \<Rightarrow> ''orphan_excluded''
      | SkipOrphanPending \<Rightarrow> ''orphan_pending''
      | SkipClassificationMismatch \<Rightarrow> ''classification_mismatch''
      | SkipUnclassified \<Rightarrow> ''unclassified'')"

type_synonym csv_record = "string list"

text \<open>\<open>value.map(str::trim).unwrap_or_default()\<close>.\<close>

definition trimmed :: "string option \<Rightarrow> string" where
  "trimmed value = (case value of None \<Rightarrow> [] | Some s \<Rightarrow> str_trim s)"

definition non_empty :: "string option \<Rightarrow> (skip_reason, string) result" where
  "non_empty value = (if trimmed value = [] then Inl SkipEmptyField else Inr (trimmed value))"

definition optional_string :: "string option \<Rightarrow> string option" where
  "optional_string value = (if trimmed value = [] then None else Some (trimmed value))"

text \<open>\<open>str::parse\<close> for \<open>i64\<close> and \<open>u32\<close>, and \<open>u32::from_str_radix\<close> with base sixteen.\<close>

definition split_sign :: "string \<Rightarrow> int \<times> string" where
  "split_sign s = (case s of c # cs \<Rightarrow> if c = CHR ''-'' then (-1, cs) else if c = CHR ''+'' then (1, cs) else (1, s) | [] \<Rightarrow> (1, []))"

definition parse_i64 :: "string \<Rightarrow> int option" where
  "parse_i64 s =
     (let (sign, ds) = split_sign s in
      if ds \<noteq> [] \<and> list_all is_digit ds \<and> i64_ok (sign * digits_value ds) then Some (sign * digits_value ds) else None)"

definition parse_u32 :: "string \<Rightarrow> u32 option" where
  "parse_u32 s =
     (let ds = (case s of c # cs \<Rightarrow> if c = CHR ''+'' then cs else s | [] \<Rightarrow> []) in
      if ds \<noteq> [] \<and> list_all is_digit ds \<and> digits_value ds < 2 ^ 32 then Some (word_of_int (digits_value ds)) else None)"

definition parse_u32_hex :: "string \<Rightarrow> u32 option" where
  "parse_u32_hex s =
     (let ds = (case s of c # cs \<Rightarrow> if c = CHR ''+'' then cs else s | [] \<Rightarrow> []);
          v = foldl (\<lambda>v d. 16 * v + (case hex_value d of Some n \<Rightarrow> n | None \<Rightarrow> 0)) 0 ds
      in if ds \<noteq> [] \<and> list_all (\<lambda>c. hex_value c \<noteq> None) ds \<and> v < 2 ^ 32 then Some (word_of_nat v) else None)"

definition parse_hex_field :: "string option \<Rightarrow> (skip_reason, bytes) result" where
  "parse_hex_field value = rbind (non_empty value) (\<lambda>s. ok_or SkipMalformed (hex_decode s))"

definition parse_optional_hex_field :: "string option \<Rightarrow> (skip_reason, bytes option) result" where
  "parse_optional_hex_field value =
     (if trimmed value = [] then Inr None
      else rbind (ok_or SkipMalformed (hex_decode (trimmed value))) (\<lambda>bs. Inr (Some bs)))"

definition parse_optional_hash_field :: "string option \<Rightarrow> (skip_reason, bytes option) result" where
  "parse_optional_hash_field value =
     rbind (parse_optional_hex_field value) (\<lambda>r. case r of
       None \<Rightarrow> Inr None
     | Some bs \<Rightarrow> if length bs = 32 then Inr (Some bs) else Inl SkipMalformed)"

definition parse_nonnegative :: "(string \<Rightarrow> int option) \<Rightarrow> string option \<Rightarrow> (skip_reason, int option) result" where
  "parse_nonnegative parse value =
     (if trimmed value = [] then Inr None
      else case parse (trimmed value) of
          Some v \<Rightarrow> if 0 \<le> v then Inr (Some v) else Inl SkipMalformed
        | None \<Rightarrow> Inl SkipMalformed)"

definition parse_optional_nonnegative_i32 :: "string option \<Rightarrow> (skip_reason, int option) result" where
  "parse_optional_nonnegative_i32 = parse_nonnegative parse_i32"

definition parse_optional_nonnegative_i64 :: "string option \<Rightarrow> (skip_reason, int option) result" where
  "parse_optional_nonnegative_i64 = parse_nonnegative parse_i64"

definition parse_positive_i64 :: "string option \<Rightarrow> (skip_reason, int) result" where
  "parse_positive_i64 value = rbind (non_empty value) (\<lambda>s.
     case parse_i64 s of Some v \<Rightarrow> if 0 < v then Inr v else Inl SkipMalformed | None \<Rightarrow> Inl SkipMalformed)"

definition parse_optional_compact_target :: "string option \<Rightarrow> (skip_reason, u32 option) result" where
  "parse_optional_compact_target value =
     (if trimmed value = [] then Inr None
      else let v = (if str_starts_with (trimmed value) ''0x'' then drop 2 (trimmed value) else trimmed value) in
        if v = [] \<or> 8 < length v then Inl SkipMalformed
        else rbind (ok_or SkipMalformed (parse_u32_hex v)) (\<lambda>n. Inr (Some n)))"

definition ascii_lower :: "char \<Rightarrow> char" where
  "ascii_lower c = (if 65 \<le> (of_char c :: nat) \<and> of_char c \<le> (90 :: nat) then char_of (of_char c + (32 :: nat)) else c)"

definition eq_ignore_ascii_case :: "string \<Rightarrow> string \<Rightarrow> bool" where
  "eq_ignore_ascii_case a b \<longleftrightarrow> map ascii_lower a = map ascii_lower b"

definition check_display_hash :: "string option \<Rightarrow> string \<Rightarrow> (skip_reason, unit) result" where
  "check_display_hash value expected = rbind (non_empty value) (\<lambda>s.
     if eq_ignore_ascii_case s expected then Inr () else Inl SkipHashMismatch)"

definition check_optional_i64 :: "string option \<Rightarrow> int \<Rightarrow> (skip_reason, unit) result" where
  "check_optional_i64 value expected = rbind (parse_optional_nonnegative_i64 value) (\<lambda>r.
     case r of None \<Rightarrow> Inr () | Some v \<Rightarrow> if v = expected then Inr () else Inl SkipEvidenceMismatch)"

definition check_optional_u32_decimal :: "string option \<Rightarrow> u32 \<Rightarrow> (skip_reason, unit) result" where
  "check_optional_u32_decimal value expected =
     (if trimmed value = [] then Inr ()
      else if parse_u32 (trimmed value) = Some expected then Inr () else Inl SkipEvidenceMismatch)"

definition check_optional_compact_target :: "string option \<Rightarrow> u32 \<Rightarrow> (skip_reason, unit) result" where
  "check_optional_compact_target value expected = rbind (parse_optional_compact_target value) (\<lambda>r.
     case r of None \<Rightarrow> Inr () | Some v \<Rightarrow> if v = expected then Inr () else Inl SkipEvidenceMismatch)"

section \<open>Columns\<close>

datatype source_lifecycle = LcLive | LcHistorical | LcPartial | LcSurveyed | LcCatalogued

datatype child_target_location = HeaderNbits | PowData

record historical_chain_spec =
  hs_source_id :: int
  hs_chain :: string
  hs_source_code :: string
  hs_lifecycle :: source_lifecycle
  hs_child_target_location :: child_target_location

definition is_authoritative :: "historical_chain_spec \<Rightarrow> bool" where
  "is_authoritative spec \<longleftrightarrow> hs_lifecycle spec = LcHistorical \<or> hs_lifecycle spec = LcPartial"

definition normalized_columns :: "string list" where
  "normalized_columns = [''chain'', ''source_kind'', ''source_path'', ''source_row_number'', ''artifact_scope'', ''provenance'',
     ''child_height'', ''child_block_hash'', ''child_header_hex'', ''child_block_time'', ''child_nbits'', ''btc_height'',
     ''btc_header_hash'', ''btc_prev_hash'', ''btc_time'', ''btc_bits'', ''btc_nonce'', ''btc_header_hex'',
     ''coinbase_scriptsig_hex'', ''coinbase_outputs'', ''full_coinbase_hex'', ''classification'', ''validation_status'',
     ''expected_nbits'', ''rejection_reason'', ''btc_stale_relevance'', ''relevance_reason'']"

definition rsk_sidecar_column_names :: "string list" where
  "rsk_sidecar_column_names = [''rsk_miner'', ''merge_mining_hash'', ''is_uncle'', ''uncle_index'', ''uncle_parent_height'',
     ''rsk_merkle_proof'', ''rsk_coinbase_tail'']"

definition required_header :: "csv_record \<Rightarrow> string \<Rightarrow> (string, nat) result" where
  "required_header headers name = ok_or (''CSV missing required column '' @ name) (position (\<lambda>h. str_trim h = name) headers)"

record rsk_sidecar_columns =
  rc_miner :: nat
  rc_merge_mining_hash :: nat
  rc_is_uncle :: nat
  rc_uncle_index :: nat
  rc_uncle_parent_height :: nat
  rc_merkle_proof :: nat
  rc_coinbase_tail :: nat

definition rsk_sidecar_columns_new :: "csv_record \<Rightarrow> (string, rsk_sidecar_columns) result" where
  "rsk_sidecar_columns_new headers =
     rbind (required_header headers ''rsk_miner'') (\<lambda>miner.
     rbind (required_header headers ''merge_mining_hash'') (\<lambda>hash.
     rbind (required_header headers ''is_uncle'') (\<lambda>is_uncle.
     rbind (required_header headers ''uncle_index'') (\<lambda>uncle_index.
     rbind (required_header headers ''uncle_parent_height'') (\<lambda>uncle_parent_height.
     rbind (required_header headers ''rsk_merkle_proof'') (\<lambda>merkle_proof.
     rbind (required_header headers ''rsk_coinbase_tail'') (\<lambda>coinbase_tail.
     Inr \<lparr>rc_miner = miner, rc_merge_mining_hash = hash, rc_is_uncle = is_uncle, rc_uncle_index = uncle_index,
       rc_uncle_parent_height = uncle_parent_height, rc_merkle_proof = merkle_proof, rc_coinbase_tail = coinbase_tail\<rparr>)))))))"

text \<open>The layout: the index of each normalized column, and the sidecar columns of RSK.\<close>

record csv_layout =
  cl_column :: "string \<Rightarrow> nat"
  cl_rsk_sidecar :: "rsk_sidecar_columns option"

primrec required_headers :: "csv_record \<Rightarrow> string list \<Rightarrow> (string, (string \<times> nat) list) result" where
  "required_headers headers [] = Inr []"
| "required_headers headers (name # names) =
     rbind (required_header headers name) (\<lambda>i. rbind (required_headers headers names) (\<lambda>rest. Inr ((name, i) # rest)))"

definition csv_layout_new :: "csv_record \<Rightarrow> historical_chain_spec \<Rightarrow> (string, csv_layout) result" where
  "csv_layout_new headers spec =
     rbind (required_headers headers normalized_columns) (\<lambda>columns.
     rbind (if hs_chain spec = ''rsk'' then rbind (rsk_sidecar_columns_new headers) (\<lambda>c. Inr (Some c)) else Inr None) (\<lambda>sidecar.
     Inr \<lparr>cl_column = (\<lambda>name. case map_of columns name of Some i \<Rightarrow> i | None \<Rightarrow> 0), cl_rsk_sidecar = sidecar\<rparr>))"

definition cell :: "csv_layout \<Rightarrow> csv_record \<Rightarrow> string \<Rightarrow> string option" where
  "cell layout r name = get_at r (cl_column layout name)"

section \<open>Taxonomy\<close>

datatype source_classification = SrcCanonical | SrcStale | SrcStaleDescendant | SrcUnknown | SrcInvalidBlock

datatype relevance_selection = SelStrictBtcOrphan | SelWeakBtcOrphan | SelKnownDirectStale | SelKnownStaleDescendant

datatype publication_category = CatCanonical | CatStale | CatStaleDescendant | CatStrictBtcOrphan | CatWeakBtcOrphan

definition publication_category_of :: "string \<Rightarrow> string \<Rightarrow> string \<Rightarrow> (skip_reason, publication_category) result" where
  "publication_category_of classification relevance relevance_reason =
     (if (classification = ''stale'' \<or> classification = ''unknown'') \<and> relevance = [] \<and> relevance_reason = ''valid_direct_stale''
      then Inr CatStale
      else if (classification = ''stale_descendant'' \<or> classification = ''unknown'') \<and> relevance = [] \<and>
              relevance_reason = ''valid_stale_descendant''
      then Inr CatStaleDescendant
      else if relevance_reason = ''valid_direct_stale'' \<or> relevance_reason = ''valid_stale_descendant'' then Inl SkipTaxonomyMismatch
      else if classification = ''canonical'' \<and> relevance = [] then Inr CatCanonical
      else if classification = ''unknown'' \<and> relevance = ''strict_btc_orphan'' then Inr CatStrictBtcOrphan
      else if classification = ''unknown'' \<and> relevance = ''weak_btc_orphan'' then Inr CatWeakBtcOrphan
      else if classification = ''near'' then Inl SkipNear
      else if classification = ''canonical'' \<or> classification = ''stale'' \<or> classification = ''stale_descendant'' \<or>
              classification = ''unknown''
      then Inl SkipTaxonomyMismatch
      else Inl SkipUnsupportedClassification)"

definition parse_source_classification :: "string option \<Rightarrow> (skip_reason, source_classification) result" where
  "parse_source_classification value = rbind (non_empty value) (\<lambda>s.
     if s = ''canonical'' then Inr SrcCanonical
     else if s = ''stale'' then Inr SrcStale
     else if s = ''stale_descendant'' then Inr SrcStaleDescendant
     else if s = ''unknown'' then Inr SrcUnknown
     else if s = ''near'' then Inl SkipNear
     else Inl SkipUnsupportedClassification)"

definition has_direct_stale_valid_token :: "string \<Rightarrow> bool" where
  "has_direct_stale_valid_token value \<longleftrightarrow> str_starts_with value ''VALID'' \<and>
     (let suffix = drop 5 value in suffix = [] \<or> list_ex (\<lambda>w. w \<noteq> [] \<and> str_starts_with suffix w) white_space \<or> hd suffix = CHR ''('')"

definition validation_status_matches :: "publication_category \<Rightarrow> string option \<Rightarrow> bool" where
  "validation_status_matches category status =
     (case category of
        CatStale \<Rightarrow> (case status of Some s \<Rightarrow> has_direct_stale_valid_token s | None \<Rightarrow> False)
      | CatStaleDescendant \<Rightarrow> status = Some ''VALID_STALE_DESCENDANT''
      | _ \<Rightarrow> True)"

definition selection_of :: "publication_category \<Rightarrow> relevance_selection option" where
  "selection_of category =
     (case category of
        CatCanonical \<Rightarrow> None
      | CatStale \<Rightarrow> Some SelKnownDirectStale
      | CatStaleDescendant \<Rightarrow> Some SelKnownStaleDescendant
      | CatStrictBtcOrphan \<Rightarrow> Some SelStrictBtcOrphan
      | CatWeakBtcOrphan \<Rightarrow> Some SelWeakBtcOrphan)"

record taxonomy_fields =
  tx_source_classification :: source_classification
  tx_relevance_selection :: "relevance_selection option"
  tx_provenance :: historical_event_provenance
  tx_invalid_rejection_reason :: "string option"

definition parse_taxonomy_fields ::
  "historical_chain_spec \<Rightarrow> csv_layout \<Rightarrow> csv_record \<Rightarrow> string \<Rightarrow> nbits_table option \<Rightarrow> (skip_reason, taxonomy_fields) result" where
  "parse_taxonomy_fields spec layout r publication_ref nbits =
     (let at = cell layout r in
      rbind (parse_source_classification (at ''classification'')) (\<lambda>source_classification.
      let validation_status = optional_string (at ''validation_status'');
          relevance = optional_string (at ''btc_stale_relevance'');
          relevance_reason = optional_string (at ''relevance_reason'')
      in rbind (publication_category_of (trimmed (at ''classification'')) (case relevance of Some s \<Rightarrow> s | None \<Rightarrow> [])
           (case relevance_reason of Some s \<Rightarrow> s | None \<Rightarrow> [])) (\<lambda>category.
      if \<not> validation_status_matches category validation_status then Inl SkipTaxonomyMismatch
      else rbind (non_empty (at ''artifact_scope'')) (\<lambda>artifact_scope.
      if artifact_scope = ''error-block-observations'' then Inl SkipTaxonomyMismatch
      else rbind (non_empty (at ''source_kind'')) (\<lambda>source_kind.
      rbind (non_empty (at ''source_path'')) (\<lambda>source_path.
      rbind (parse_positive_i64 (at ''source_row_number'')) (\<lambda>source_row_number.
      rbind (non_empty (at ''provenance'')) (\<lambda>provenance.
      rbind (non_empty (at ''classification'')) (\<lambda>classification.
      rbind (parse_optional_nonnegative_i32 (at ''btc_height'')) (\<lambda>btc_height.
      Inr \<lparr>tx_source_classification = source_classification, tx_relevance_selection = selection_of category,
        tx_provenance = \<lparr>hp_publication_ref = publication_ref, hp_chain = hs_chain spec, hp_source_kind = source_kind,
          hp_source_path = source_path, hp_source_row_number = source_row_number, hp_artifact_scope = artifact_scope,
          hp_provenance = provenance, hp_classification = classification, hp_btc_height = btc_height,
          hp_validation_status = validation_status, hp_btc_stale_relevance = relevance, hp_relevance_reason = relevance_reason\<rparr>,
        tx_invalid_rejection_reason = None\<rparr>))))))))))"

definition nbits_retarget_not_applied :: string where
  "nbits_retarget_not_applied = ''nbits_retarget_not_applied''"

definition parse_invalid_observation_taxonomy_fields ::
  "historical_chain_spec \<Rightarrow> csv_layout \<Rightarrow> csv_record \<Rightarrow> string \<Rightarrow> nbits_table option \<Rightarrow> (skip_reason, taxonomy_fields) result" where
  "parse_invalid_observation_taxonomy_fields spec layout r publication_ref nbits =
     (let at = cell layout r in
      if map_option str_trim (at ''classification'') \<noteq> Some ''error_block'' \<or>
         map_option str_trim (at ''artifact_scope'') \<noteq> Some ''error-block-observations'' \<or>
         map_option str_trim (at ''validation_status'') \<noteq> Some ''VALID_ERROR_BLOCK'' \<or>
         optional_string (at ''btc_stale_relevance'') \<noteq> None \<or> optional_string (at ''relevance_reason'') \<noteq> None
      then Inl SkipTaxonomyMismatch
      else rbind (non_empty (at ''rejection_reason'')) (\<lambda>rejection_reason.
      rbind (rbind (parse_optional_nonnegative_i32 (at ''btc_height'')) (ok_or SkipEmptyField)) (\<lambda>btc_height.
      rbind (rbind (parse_optional_compact_target (at ''expected_nbits'')) (ok_or SkipEmptyField)) (\<lambda>expected.
      rbind (if rejection_reason = nbits_retarget_not_applied
             then rbind (ok_or SkipUnclassified nbits) (\<lambda>table.
                  if expected_nbits table btc_height \<noteq> Found expected then Inl SkipEvidenceMismatch else Inr ())
             else Inr ()) (\<lambda>_.
      rbind (non_empty (at ''source_kind'')) (\<lambda>source_kind.
      rbind (non_empty (at ''source_path'')) (\<lambda>source_path.
      rbind (parse_positive_i64 (at ''source_row_number'')) (\<lambda>source_row_number.
      rbind (non_empty (at ''provenance'')) (\<lambda>provenance.
      Inr \<lparr>tx_source_classification = SrcInvalidBlock, tx_relevance_selection = None,
        tx_provenance = \<lparr>hp_publication_ref = publication_ref, hp_chain = hs_chain spec, hp_source_kind = source_kind,
          hp_source_path = source_path, hp_source_row_number = source_row_number,
          hp_artifact_scope = ''error-block-observations'', hp_provenance = provenance, hp_classification = ''error_block'',
          hp_btc_height = Some btc_height, hp_validation_status = Some ''VALID_ERROR_BLOCK'', hp_btc_stale_relevance = None,
          hp_relevance_reason = None\<rparr>,
        tx_invalid_rejection_reason = Some rejection_reason\<rparr>)))))))))"

section \<open>Parents and children\<close>

definition parse_parent_header :: "bitcoin_lib \<Rightarrow> string option \<Rightarrow> (skip_reason, header) result" where
  "parse_parent_header L value = rbind (parse_hex_field value) (\<lambda>raw.
     if length raw \<noteq> header_size then Inl SkipMalformed else ok_or SkipMalformed (deserialize_header L raw))"

definition hash_to_string :: "bytes \<Rightarrow> string" where
  "hash_to_string hash = hex_encode (rev hash)"

definition validate_parent_fields ::
  "bitcoin_lib \<Rightarrow> csv_layout \<Rightarrow> csv_record \<Rightarrow> header \<Rightarrow> string \<Rightarrow> bool \<Rightarrow> (skip_reason, unit) result" where
  "validate_parent_fields L layout r header display_hash expected_nbits_must_match_header =
     (let at = cell layout r in
      rbind (check_display_hash (at ''btc_header_hash'') display_hash) (\<lambda>_.
      rbind (check_display_hash (at ''btc_prev_hash'') (hash_to_string (h_prev_blockhash header))) (\<lambda>_.
      rbind (check_optional_i64 (at ''btc_time'') (uint (h_time header))) (\<lambda>_.
      rbind (check_optional_u32_decimal (at ''btc_nonce'') (h_nonce header)) (\<lambda>_.
      rbind (check_optional_compact_target (at ''btc_bits'') (h_bits header)) (\<lambda>_.
      rbind (if expected_nbits_must_match_header then check_optional_compact_target (at ''expected_nbits'') (h_bits header)
             else Inr ()) (\<lambda>_.
      if \<not> validates_target L (block_hash L header) (h_bits header) then Inl SkipTargetInvalid else Inr ())))))))"

definition validate_child_bundle ::
  "bitcoin_lib \<Rightarrow> child_target_location \<Rightarrow> bytes option \<Rightarrow> bytes option \<Rightarrow> int option \<Rightarrow> u32 option \<Rightarrow> (skip_reason, unit) result" where
  "validate_child_bundle L location child_hash child_header child_time child_nbits =
     (if location = PowData \<and> child_nbits = Some 0 then Inl SkipEvidenceMismatch
      else case child_header of
          None \<Rightarrow> Inr ()
        | Some header \<Rightarrow>
            if length header \<noteq> header_size then Inl SkipMalformed
            else if child_hash \<noteq> None \<and> Some (sha256d L header) \<noteq> child_hash then Inl SkipHashMismatch
            else if child_time \<noteq> None \<and> Some (uint (u32_from_le (slice header 68 72))) \<noteq> child_time then Inl SkipEvidenceMismatch
            else let header_nbits = u32_from_le (slice header 72 76) in
              (case location of
                 HeaderNbits \<Rightarrow> if child_nbits \<noteq> None \<and> Some header_nbits \<noteq> child_nbits then Inl SkipEvidenceMismatch else Inr ()
               | PowData \<Rightarrow> if header_nbits \<noteq> 0 then Inl SkipEvidenceMismatch else Inr ()))"

record child_fields =
  cf_height :: "int option"
  cf_block_hash :: "bytes option"
  cf_header_bytes :: "bytes option"
  cf_block_time :: "int option"
  cf_nbits :: "u32 option"

definition parse_child_fields ::
  "bitcoin_lib \<Rightarrow> historical_chain_spec \<Rightarrow> csv_layout \<Rightarrow> csv_record \<Rightarrow> (skip_reason, child_fields) result" where
  "parse_child_fields L spec layout r =
     (let at = cell layout r in
      rbind (parse_optional_nonnegative_i32 (at ''child_height'')) (\<lambda>height.
      rbind (parse_optional_hex_field (at ''child_header_hex'')) (\<lambda>header_bytes.
      rbind (parse_optional_hash_field (at ''child_block_hash'')) (\<lambda>published_hash.
      rbind (parse_optional_nonnegative_i64 (at ''child_block_time'')) (\<lambda>block_time.
      rbind (parse_optional_compact_target (at ''child_nbits'')) (\<lambda>nbits.
      rbind (validate_child_bundle L (hs_child_target_location spec) published_hash header_bytes block_time nbits) (\<lambda>_.
      Inr \<lparr>cf_height = height,
        cf_block_hash = (if published_hash = None then map_option (sha256d L) header_bytes else published_hash),
        cf_header_bytes = header_bytes, cf_block_time = block_time, cf_nbits = nbits\<rparr>)))))))"

definition require_importable_child_identity :: "child_fields \<Rightarrow> source_classification \<Rightarrow> (skip_reason, unit) result" where
  "require_importable_child_identity child classification =
     (if cf_height child \<noteq> None \<or> cf_block_hash child \<noteq> None \<or> cf_header_bytes child \<noteq> None then Inr ()
      else if classification = SrcCanonical then Inl SkipMissingChildIdentity else Inl SkipEmptyField)"

record parent_coinbase_fields =
  pc_txid :: "bytes option"
  pc_script :: "bytes option"
  pc_outputs :: "bytes option"
  pc_outputs_text :: "string option"
  pc_tx_bytes :: "bytes option"
  pc_output_addresses :: "string list"

definition parse_parent_coinbase_fields ::
  "bitcoin_lib \<Rightarrow> address_lib \<Rightarrow> csv_layout \<Rightarrow> csv_record \<Rightarrow> (skip_reason, parent_coinbase_fields) result" where
  "parse_parent_coinbase_fields L A layout r =
     (let at = cell layout r in
      rbind (parse_optional_hex_field (at ''coinbase_scriptsig_hex'')) (\<lambda>published_script.
      let outputs_text = optional_string (at ''coinbase_outputs'') in
      rbind (parse_optional_hex_field (at ''full_coinbase_hex'')) (\<lambda>tx_bytes.
      let published_addresses = (case outputs_text of Some s \<Rightarrow> published_parent_coinbase_output_addresses L A s | None \<Rightarrow> []) in
      case tx_bytes of
        None \<Rightarrow> Inr \<lparr>pc_txid = None, pc_script = published_script, pc_outputs = None, pc_outputs_text = outputs_text,
          pc_tx_bytes = None, pc_output_addresses = published_addresses\<rparr>
      | Some raw \<Rightarrow>
          rbind (ok_or SkipMalformed (deserialize_tx L raw)) (\<lambda>tx.
          if \<not> is_coinbase L tx then Inl SkipMalformed
          else case tx_input tx of
              [] \<Rightarrow> Inl SkipMalformed
            | i # _ \<Rightarrow>
                if published_script \<noteq> None \<and> published_script \<noteq> Some (i_script_sig i) then Inl SkipEvidenceMismatch
                else let decoded = output_addresses L (tx_output tx) in
                  if list_ex (\<lambda>published. \<not> List.member decoded published) published_addresses then Inl SkipEvidenceMismatch
                  else Inr \<lparr>pc_txid = Some (compute_txid L tx), pc_script = Some (i_script_sig i),
                    pc_outputs = Some (serialize_txouts L (tx_output tx)), pc_outputs_text = outputs_text,
                    pc_tx_bytes = Some raw, pc_output_addresses = decoded\<rparr>))))"

section \<open>RSK sidecars\<close>

record rsk_evidence_payload =
  rk_block_hash :: bytes
  rk_height :: int
  rk_is_uncle :: bool
  rk_uncle_index :: "int option"
  rk_uncle_parent_height :: "int option"
  rk_miner :: bytes
  rk_merge_mining_hash :: bytes
  rk_merkle_proof :: "bytes option"
  rk_coinbase_tail :: "bytes option"
  rk_proof_format :: string
  rk_child_difficulty_reported :: "string option"

definition rsk_proof_format_opaque :: string where
  "rsk_proof_format_opaque = ''rskj_rpc_opaque''"

definition parse_rsk_sidecar ::
  "rsk_sidecar_columns \<Rightarrow> csv_record \<Rightarrow> int \<Rightarrow> bytes \<Rightarrow> (skip_reason, rsk_evidence_payload) result" where
  "parse_rsk_sidecar columns r child_height child_block_hash =
     rbind (parse_hex_field (get_at r (rc_miner columns))) (\<lambda>miner.
     if length miner \<noteq> 20 then Inl SkipMalformed
     else rbind (parse_hex_field (get_at r (rc_merge_mining_hash columns))) (\<lambda>merge_mining_hash.
     if length merge_mining_hash \<noteq> 32 then Inl SkipMalformed
     else rbind (rbind (non_empty (get_at r (rc_is_uncle columns))) (\<lambda>s.
          if s = ''0'' then Inr False else if s = ''1'' then Inr True else Inl SkipMalformed)) (\<lambda>is_uncle.
     rbind (parse_optional_nonnegative_i32 (get_at r (rc_uncle_index columns))) (\<lambda>uncle_index.
     rbind (parse_optional_nonnegative_i32 (get_at r (rc_uncle_parent_height columns))) (\<lambda>uncle_parent_height.
     if \<not> (if is_uncle then uncle_index \<noteq> None \<and> uncle_parent_height \<noteq> None
            else uncle_index = None \<and> uncle_parent_height = None)
     then Inl SkipMalformed
     else rbind (parse_optional_hex_field (get_at r (rc_merkle_proof columns))) (\<lambda>merkle_proof.
     rbind (parse_optional_hex_field (get_at r (rc_coinbase_tail columns))) (\<lambda>coinbase_tail.
     Inr \<lparr>rk_block_hash = child_block_hash, rk_height = child_height, rk_is_uncle = is_uncle, rk_uncle_index = uncle_index,
       rk_uncle_parent_height = uncle_parent_height, rk_miner = miner, rk_merge_mining_hash = merge_mining_hash,
       rk_merkle_proof = merkle_proof, rk_coinbase_tail = coinbase_tail, rk_proof_format = rsk_proof_format_opaque,
       rk_child_difficulty_reported = None\<rparr>)))))))"

section \<open>Candidates\<close>

record import_candidate =
  ic_source_classification :: source_classification
  ic_evidence :: normalized_event_evidence
  ic_historical_provenance :: historical_event_provenance
  ic_btc_parent_display_hash :: string
  ic_orphan_verdict :: "btc_orphan_verdict option"
  ic_relevance_selection :: "relevance_selection option"
  ic_rsk_evidence :: "rsk_evidence_payload option"
  ic_parent_output_addresses :: "string list"
  ic_invalid_rejection_reason :: "string option"

definition filter_unknown :: "btc_orphan_verdict \<Rightarrow> relevance_selection option \<Rightarrow> (skip_reason, unit) result" where
  "filter_unknown verdict selection =
     (if selection = Some SelKnownDirectStale \<or> selection = Some SelKnownStaleDescendant then Inr ()
      else case verdict of
          OrphanStrict \<Rightarrow>
            if selection = Some SelStrictBtcOrphan then Inr ()
            else if selection = Some SelWeakBtcOrphan then Inl SkipTaxonomyMismatch
            else Inl SkipOrphanNotSelected
        | OrphanWeak \<Rightarrow>
            if selection = Some SelWeakBtcOrphan \<or> selection = Some SelStrictBtcOrphan then Inr () else Inl SkipOrphanNotSelected
        | OrphanExcluded \<Rightarrow> Inl SkipOrphanExcluded
        | OrphanPending \<Rightarrow> Inl SkipOrphanPending)"

definition orphan_verdict ::
  "bitcoin_lib \<Rightarrow> nbits_table \<Rightarrow> string \<Rightarrow> header \<Rightarrow> bytes option \<Rightarrow> bytes option \<Rightarrow> btc_orphan_verdict" where
  "orphan_verdict L table chain header script tx_bytes =
     fst (classify_btc_orphan_with table (uint (h_time header)) (h_bits header)
       (Option.bind script (\<lambda>s. strict_bip34_height_from_evidence L chain s tx_bytes)))"

definition candidate_from_record_with_taxonomy ::
  "bitcoin_lib \<Rightarrow> address_lib \<Rightarrow> historical_chain_spec \<Rightarrow> csv_layout \<Rightarrow> csv_record \<Rightarrow> string \<Rightarrow> nbits_table option \<Rightarrow>
     (historical_chain_spec \<Rightarrow> csv_layout \<Rightarrow> csv_record \<Rightarrow> string \<Rightarrow> nbits_table option \<Rightarrow> (skip_reason, taxonomy_fields) result) \<Rightarrow>
     (skip_reason, import_candidate) result" where
  "candidate_from_record_with_taxonomy L A spec layout r publication_ref nbits parse_taxonomy =
     (if map_option str_trim (cell layout r ''chain'') \<noteq> Some (hs_chain spec) then Inl SkipMalformed
      else rbind (parse_child_fields L spec layout r) (\<lambda>child.
      rbind (parse_taxonomy spec layout r publication_ref nbits) (\<lambda>taxonomy.
      rbind (parse_parent_header L (cell layout r ''btc_header_hex'')) (\<lambda>header.
      let display_hash = hash_to_string (block_hash L header) in
      rbind (validate_parent_fields L layout r header display_hash
        (tx_invalid_rejection_reason taxonomy \<noteq> Some nbits_retarget_not_applied)) (\<lambda>_.
      let pow_validates_child_target = map_option (validates_target L (block_hash L header)) (cf_nbits child) in
      rbind (parse_parent_coinbase_fields L A layout r) (\<lambda>coinbase.
      rbind (if tx_source_classification taxonomy = SrcUnknown \<and>
                \<not> (tx_relevance_selection taxonomy = Some SelKnownDirectStale \<or>
                   tx_relevance_selection taxonomy = Some SelKnownStaleDescendant)
             then rbind (ok_or SkipOrphanPending nbits) (\<lambda>table.
                  let verdict = orphan_verdict L table (hs_chain spec) header (pc_script coinbase) (pc_tx_bytes coinbase) in
                  rbind (filter_unknown verdict (tx_relevance_selection taxonomy)) (\<lambda>_. Inr (Some verdict)))
             else Inr None) (\<lambda>verdict.
      rbind (require_importable_child_identity child (tx_source_classification taxonomy)) (\<lambda>_.
      rbind (case cl_rsk_sidecar layout of
               None \<Rightarrow> Inr None
             | Some columns \<Rightarrow>
                 rbind (ok_or SkipEmptyField (cf_height child)) (\<lambda>height.
                 rbind (ok_or SkipEmptyField (cf_block_hash child)) (\<lambda>hash.
                 rbind (parse_rsk_sidecar columns r height hash) (\<lambda>e. Inr (Some e))))) (\<lambda>rsk.
      Inr \<lparr>ic_source_classification = tx_source_classification taxonomy,
        ic_evidence = \<lparr>ne_child_height = cf_height child, ne_child_block_hash = cf_block_hash child,
          ne_child_header_bytes = cf_header_bytes child, ne_child_block_time = cf_block_time child, ne_child_nbits = cf_nbits child,
          ne_child_prev_block_hash = None, ne_btc_parent_header = header,
          ne_pow_validates_child_target = pow_validates_child_target, ne_btc_parent_coinbase_txid = pc_txid coinbase,
          ne_btc_parent_coinbase_script = pc_script coinbase, ne_btc_parent_coinbase_outputs = pc_outputs coinbase,
          ne_btc_parent_coinbase_outputs_text = pc_outputs_text coinbase, ne_btc_parent_coinbase_tx_bytes = pc_tx_bytes coinbase,
          ne_child_coinbase_txid = None, ne_child_coinbase_script = None, ne_child_coinbase_outputs = None, ne_aux_merkle_proof = None\<rparr>,
        ic_historical_provenance = tx_provenance taxonomy, ic_btc_parent_display_hash = display_hash,
        ic_orphan_verdict = verdict, ic_relevance_selection = tx_relevance_selection taxonomy, ic_rsk_evidence = rsk,
        ic_parent_output_addresses = pc_output_addresses coinbase,
        ic_invalid_rejection_reason = tx_invalid_rejection_reason taxonomy\<rparr>)))))))))"

definition candidate_from_record ::
  "bitcoin_lib \<Rightarrow> address_lib \<Rightarrow> historical_chain_spec \<Rightarrow> csv_layout \<Rightarrow> csv_record \<Rightarrow> string \<Rightarrow> nbits_table option \<Rightarrow>
     (skip_reason, import_candidate) result" where
  "candidate_from_record L A spec layout r publication_ref nbits =
     candidate_from_record_with_taxonomy L A spec layout r publication_ref nbits parse_taxonomy_fields"

definition invalid_observation_candidate_from_record ::
  "bitcoin_lib \<Rightarrow> address_lib \<Rightarrow> historical_chain_spec \<Rightarrow> csv_layout \<Rightarrow> csv_record \<Rightarrow> string \<Rightarrow> nbits_table \<Rightarrow>
     (skip_reason, import_candidate) result" where
  "invalid_observation_candidate_from_record L A spec layout r publication_ref nbits =
     candidate_from_record_with_taxonomy L A spec layout r publication_ref (Some nbits) parse_invalid_observation_taxonomy_fields"

end
