(* ===== verification/Historical_Publication.thy ===== *)
theory Historical_Publication
  imports Historical_Source
begin

text \<open>
  \<open>csv_source/publication_state.rs\<close> of the historical import: the state that a published row declares, its field mask and
  fingerprint, the same state read back from the database, and when the two match.  \<open>H\<close> is SHA-256.
\<close>

section \<open>Encoding\<close>

type_synonym u16 = "16 word"

definition be_bytes :: "nat \<Rightarrow> nat \<Rightarrow> bytes" where
  "be_bytes n v = rev (le_bytes n v)"

definition str_bytes :: "string \<Rightarrow> bytes" where
  "str_bytes s = map (\<lambda>c. word_of_nat (of_char c)) s"

definition push_bytes :: "bytes \<Rightarrow> bytes" where
  "push_bytes value = be_bytes 8 (length value) @ value"

definition push_bool :: "bool \<Rightarrow> bytes" where
  "push_bool value = [if value then 1 else 0]"

definition push_i32 :: "int \<Rightarrow> bytes" where
  "push_i32 value = be_bytes 4 (nat (value mod 2 ^ 32))"

definition push_i64 :: "int \<Rightarrow> bytes" where
  "push_i64 value = be_bytes 8 (nat (value mod 2 ^ 64))"

definition push_option :: "('a \<Rightarrow> bytes) \<Rightarrow> 'a option \<Rightarrow> bytes" where
  "push_option push value = (case value of Some v \<Rightarrow> push_bool True @ push v | None \<Rightarrow> push_bool False)"

definition push_option_bytes :: "bytes option \<Rightarrow> bytes" where
  "push_option_bytes = push_option push_bytes"

definition push_option_array :: "bytes option \<Rightarrow> bytes" where
  "push_option_array = push_option_bytes"

definition push_option_i32 :: "int option \<Rightarrow> bytes" where
  "push_option_i32 = push_option push_i32"

definition push_option_i64 :: "int option \<Rightarrow> bytes" where
  "push_option_i64 = push_option push_i64"

definition push_option_bool :: "bool option \<Rightarrow> bytes" where
  "push_option_bool = push_option push_bool"

section \<open>Comparable states\<close>

record comparable_rsk_state =
  cr_block_hash :: bytes
  cr_height :: int
  cr_is_uncle :: bool
  cr_uncle_index :: "int option"
  cr_uncle_parent_height :: "int option"
  cr_miner :: bytes
  cr_merge_mining_hash :: bytes
  cr_merkle_proof_sha256 :: "bytes option"
  cr_coinbase_tail_sha256 :: "bytes option"
  cr_proof_format :: string

record comparable_publication_state =
  cs_source_kind :: string
  cs_artifact_scope :: string
  cs_provenance :: string
  cs_classification :: string
  cs_btc_height :: "int option"
  cs_validation_status :: "string option"
  cs_btc_stale_relevance :: "string option"
  cs_relevance_reason :: "string option"
  cs_child_height :: "int option"
  cs_child_block_hash :: "bytes option"
  cs_child_header_sha256 :: "bytes option"
  cs_child_block_time :: "int option"
  cs_child_nbits :: "int option"
  cs_pow_validates_child_target :: "bool option"
  cs_btc_parent_header_hash :: bytes
  cs_btc_parent_prev_header_hash :: bytes
  cs_btc_parent_header_time :: int
  cs_btc_parent_coinbase_txid :: "bytes option"
  cs_btc_parent_coinbase_script_sha256 :: "bytes option"
  cs_btc_parent_coinbase_outputs_sha256 :: "bytes option"
  cs_btc_parent_coinbase_outputs_text_sha256 :: "bytes option"
  cs_btc_parent_coinbase_tx_sha256 :: "bytes option"
  cs_rsk :: "comparable_rsk_state option"
  cs_invalid_block_reason :: "string option"

text \<open>The bits of the mask, \<open>CHILD_HEIGHT\<close> to \<open>INVALID_BLOCK_REASON\<close>, by position.\<close>

definition field_bit :: "nat \<Rightarrow> u16" where
  "field_bit n = push_bit n 1"

definition mask_includes :: "u16 \<Rightarrow> u16 \<Rightarrow> bool" where
  "mask_includes mk field \<longleftrightarrow> and mk field \<noteq> 0"

definition set_if :: "u16 \<Rightarrow> u16 \<Rightarrow> bool \<Rightarrow> u16" where
  "set_if mk field present = (if present then or mk field else mk)"

text \<open>Which of the fourteen optional fields a state has, in the order of their bits.\<close>

definition present_fields :: "comparable_publication_state \<Rightarrow> bool list" where
  "present_fields s =
     [cs_child_height s \<noteq> None, cs_child_block_hash s \<noteq> None, cs_child_header_sha256 s \<noteq> None, cs_child_block_time s \<noteq> None,
      cs_child_nbits s \<noteq> None, cs_pow_validates_child_target s \<noteq> None, cs_btc_parent_coinbase_txid s \<noteq> None,
      cs_btc_parent_coinbase_script_sha256 s \<noteq> None, cs_btc_parent_coinbase_outputs_sha256 s \<noteq> None,
      cs_btc_parent_coinbase_outputs_text_sha256 s \<noteq> None, cs_btc_parent_coinbase_tx_sha256 s \<noteq> None,
      (case cs_rsk s of Some rsk \<Rightarrow> cr_merkle_proof_sha256 rsk \<noteq> None | None \<Rightarrow> False),
      (case cs_rsk s of Some rsk \<Rightarrow> cr_coinbase_tail_sha256 rsk \<noteq> None | None \<Rightarrow> False),
      cs_invalid_block_reason s \<noteq> None]"

definition publication_field_mask :: "comparable_publication_state \<Rightarrow> u16" where
  "publication_field_mask s =
     fold (\<lambda>(n, present) mk. set_if mk (field_bit n) present) (zip [0..<14] (present_fields s)) 0"

definition if_masked :: "bool \<Rightarrow> bytes \<Rightarrow> bytes" where
  "if_masked included segment = (if included then segment else [])"

definition rsk_segments :: "u16 \<Rightarrow> comparable_rsk_state option \<Rightarrow> bytes" where
  "rsk_segments mk rsk =
     (case rsk of
        None \<Rightarrow> push_bool False
      | Some r \<Rightarrow> push_bool True @ concat [push_bytes (cr_block_hash r), push_i32 (cr_height r), push_bool (cr_is_uncle r),
          push_option_i32 (cr_uncle_index r), push_option_i32 (cr_uncle_parent_height r), push_bytes (cr_miner r),
          push_bytes (cr_merge_mining_hash r), push_bytes (str_bytes (cr_proof_format r)),
          if_masked (mask_includes mk (field_bit 11)) (push_option_array (cr_merkle_proof_sha256 r)),
          if_masked (mask_includes mk (field_bit 12)) (push_option_array (cr_coinbase_tail_sha256 r))])"

text \<open>What the hash engine is fed, segment by segment.\<close>

definition fingerprint_segments :: "u16 \<Rightarrow> comparable_publication_state \<Rightarrow> bytes list" where
  "fingerprint_segments mk s =
     [push_bytes (str_bytes (cs_source_kind s)), push_bytes (str_bytes (cs_artifact_scope s)), push_bytes (str_bytes (cs_provenance s)),
      push_bytes (str_bytes (cs_classification s)), push_option_i32 (cs_btc_height s),
      push_option_bytes (map_option str_bytes (cs_validation_status s)),
      push_option_bytes (map_option str_bytes (cs_btc_stale_relevance s)),
      push_option_bytes (map_option str_bytes (cs_relevance_reason s)),
      push_bytes (cs_btc_parent_header_hash s), push_bytes (cs_btc_parent_prev_header_hash s), push_i64 (cs_btc_parent_header_time s),
      if_masked (mask_includes mk (field_bit 13)) (push_option_bytes (map_option str_bytes (cs_invalid_block_reason s))),
      if_masked (mask_includes mk (field_bit 0)) (push_option_i32 (cs_child_height s)),
      if_masked (mask_includes mk (field_bit 1)) (push_option_array (cs_child_block_hash s)),
      if_masked (mask_includes mk (field_bit 2)) (push_option_array (cs_child_header_sha256 s)),
      if_masked (mask_includes mk (field_bit 3)) (push_option_i64 (cs_child_block_time s)),
      if_masked (mask_includes mk (field_bit 4)) (push_option_i64 (cs_child_nbits s)),
      if_masked (mask_includes mk (field_bit 5)) (push_option_bool (cs_pow_validates_child_target s)),
      if_masked (mask_includes mk (field_bit 6)) (push_option_array (cs_btc_parent_coinbase_txid s)),
      if_masked (mask_includes mk (field_bit 7)) (push_option_array (cs_btc_parent_coinbase_script_sha256 s)),
      if_masked (mask_includes mk (field_bit 8)) (push_option_array (cs_btc_parent_coinbase_outputs_sha256 s)),
      if_masked (mask_includes mk (field_bit 9)) (push_option_array (cs_btc_parent_coinbase_outputs_text_sha256 s)),
      if_masked (mask_includes mk (field_bit 10)) (push_option_array (cs_btc_parent_coinbase_tx_sha256 s)),
      rsk_segments mk (cs_rsk s)]"

definition fingerprint :: "(bytes \<Rightarrow> bytes) \<Rightarrow> u16 \<Rightarrow> comparable_publication_state \<Rightarrow> bytes" where
  "fingerprint H mk s = H (concat (fingerprint_segments mk s))"

section \<open>Published rows\<close>

record publication_row_key =
  rk_chain :: string
  rk_source_path :: string
  rk_source_row_number :: int

record expected_publication_state =
  es_key :: publication_row_key
  es_mask :: u16
  es_fingerprint :: bytes
  es_child_height :: "int option"
  es_child_block_hash :: "bytes option"
  es_btc_parent_header_hash :: bytes

definition state_matches :: "(bytes \<Rightarrow> bytes) \<Rightarrow> expected_publication_state \<Rightarrow> comparable_publication_state \<Rightarrow> bool" where
  "state_matches H expected stored \<longleftrightarrow> es_fingerprint expected = fingerprint H (es_mask expected) stored"

definition array32 :: "bytes \<Rightarrow> (skip_reason, bytes) result" where
  "array32 value = (if length value = 32 then Inr value else Inl SkipMalformed)"

definition option_array32 :: "bytes option \<Rightarrow> (skip_reason, bytes option) result" where
  "option_array32 value = (case value of None \<Rightarrow> Inr None | Some v \<Rightarrow> rbind (array32 v) (\<lambda>a. Inr (Some a)))"

definition publication_row_key_from_record ::
  "historical_chain_spec \<Rightarrow> csv_layout \<Rightarrow> csv_record \<Rightarrow> (skip_reason, publication_row_key) result" where
  "publication_row_key_from_record spec layout r =
     rbind (non_empty (cell layout r ''source_path'')) (\<lambda>source_path.
     rbind (parse_positive_i64 (cell layout r ''source_row_number'')) (\<lambda>source_row_number.
     Inr \<lparr>rk_chain = hs_chain spec, rk_source_path = source_path, rk_source_row_number = source_row_number\<rparr>))"

definition validate_invalid_observation_fields ::
  "csv_layout \<Rightarrow> csv_record \<Rightarrow> bool \<Rightarrow> string option \<Rightarrow> (skip_reason, unit) result" where
  "validate_invalid_observation_fields layout r invalid_observation rejection_reason =
     (let at = cell layout r in
      if \<not> invalid_observation then Inr ()
      else if map_option str_trim (at ''classification'') \<noteq> Some ''error_block'' \<or>
              map_option str_trim (at ''validation_status'') \<noteq> Some ''VALID_ERROR_BLOCK'' \<or>
              optional_string (at ''btc_stale_relevance'') \<noteq> None \<or> optional_string (at ''relevance_reason'') \<noteq> None
      then Inl SkipTaxonomyMismatch
      else rbind (parse_optional_nonnegative_i32 (at ''btc_height'')) (\<lambda>btc_height.
      if btc_height = None then Inl SkipTaxonomyMismatch
      else rbind (parse_optional_compact_target (at ''expected_nbits'')) (\<lambda>expected.
      if expected = None \<or> rejection_reason = None then Inl SkipTaxonomyMismatch else Inr ())))"

definition comparable_rsk_state_of ::
  "(bytes \<Rightarrow> bytes) \<Rightarrow> csv_layout \<Rightarrow> csv_record \<Rightarrow> child_fields \<Rightarrow> (skip_reason, comparable_rsk_state option) result" where
  "comparable_rsk_state_of H layout r child =
     (case cl_rsk_sidecar layout of
        None \<Rightarrow> Inr None
      | Some columns \<Rightarrow>
          rbind (ok_or SkipEmptyField (cf_height child)) (\<lambda>height.
          rbind (ok_or SkipEmptyField (cf_block_hash child)) (\<lambda>hash.
          rbind (parse_rsk_sidecar columns r height hash) (\<lambda>evidence.
          rbind (array32 (rk_block_hash evidence)) (\<lambda>block_hash.
          rbind (array32 (rk_merge_mining_hash evidence)) (\<lambda>merge_mining_hash.
          Inr (Some \<lparr>cr_block_hash = block_hash, cr_height = rk_height evidence, cr_is_uncle = rk_is_uncle evidence,
            cr_uncle_index = rk_uncle_index evidence, cr_uncle_parent_height = rk_uncle_parent_height evidence,
            cr_miner = rk_miner evidence, cr_merge_mining_hash = merge_mining_hash,
            cr_merkle_proof_sha256 = map_option H (rk_merkle_proof evidence),
            cr_coinbase_tail_sha256 = map_option H (rk_coinbase_tail evidence), cr_proof_format = rk_proof_format evidence\<rparr>)))))))"

definition comparable_state_from_record ::
  "bitcoin_lib \<Rightarrow> address_lib \<Rightarrow> (bytes \<Rightarrow> bytes) \<Rightarrow> historical_chain_spec \<Rightarrow> csv_layout \<Rightarrow> csv_record \<Rightarrow> bool \<Rightarrow>
     (skip_reason, comparable_publication_state) result" where
  "comparable_state_from_record L A H spec layout r invalid_observation =
     (let at = cell layout r in
      rbind (parse_child_fields L spec layout r) (\<lambda>child.
      rbind (if invalid_observation then Inr SrcInvalidBlock else parse_source_classification (at ''classification'')) (\<lambda>source_classification.
      rbind (parse_parent_header L (at ''btc_header_hex'')) (\<lambda>header.
      let rejection_reason = optional_string (at ''rejection_reason'') in
      rbind (validate_parent_fields L layout r header (hash_to_string (block_hash L header))
        (rejection_reason \<noteq> Some nbits_retarget_not_applied)) (\<lambda>_.
      rbind (parse_parent_coinbase_fields L A layout r) (\<lambda>coinbase.
      rbind (non_empty (at ''artifact_scope'')) (\<lambda>artifact_scope.
      if invalid_observation \<noteq> (artifact_scope = ''error-block-observations'') then Inl SkipTaxonomyMismatch
      else rbind (validate_invalid_observation_fields layout r invalid_observation rejection_reason) (\<lambda>_.
      rbind (option_array32 (cf_block_hash child)) (\<lambda>child_hash.
      rbind (require_importable_child_identity child source_classification) (\<lambda>_.
      rbind (comparable_rsk_state_of H layout r child) (\<lambda>rsk.
      rbind (non_empty (at ''source_kind'')) (\<lambda>source_kind.
      rbind (non_empty (at ''provenance'')) (\<lambda>provenance.
      rbind (non_empty (at ''classification'')) (\<lambda>classification.
      rbind (parse_optional_nonnegative_i32 (at ''btc_height'')) (\<lambda>btc_height.
      rbind (option_array32 (pc_txid coinbase)) (\<lambda>txid.
      Inr \<lparr>cs_source_kind = source_kind, cs_artifact_scope = artifact_scope, cs_provenance = provenance,
        cs_classification = classification, cs_btc_height = btc_height,
        cs_validation_status = optional_string (at ''validation_status''),
        cs_btc_stale_relevance = optional_string (at ''btc_stale_relevance''),
        cs_relevance_reason = optional_string (at ''relevance_reason''),
        cs_child_height = cf_height child, cs_child_block_hash = child_hash,
        cs_child_header_sha256 = map_option H (cf_header_bytes child), cs_child_block_time = cf_block_time child,
        cs_child_nbits = map_option uint (cf_nbits child),
        cs_pow_validates_child_target = map_option (validates_target L (block_hash L header)) (cf_nbits child),
        cs_btc_parent_header_hash = block_hash L header, cs_btc_parent_prev_header_hash = h_prev_blockhash header,
        cs_btc_parent_header_time = uint (h_time header), cs_btc_parent_coinbase_txid = txid,
        cs_btc_parent_coinbase_script_sha256 = map_option H (pc_script coinbase),
        cs_btc_parent_coinbase_outputs_sha256 = map_option H (pc_outputs coinbase),
        cs_btc_parent_coinbase_outputs_text_sha256 = map_option (\<lambda>s. H (str_bytes s)) (pc_outputs_text coinbase),
        cs_btc_parent_coinbase_tx_sha256 = map_option H (pc_tx_bytes coinbase), cs_rsk = rsk,
        cs_invalid_block_reason = (if invalid_observation then rejection_reason else None)\<rparr>))))))))))))))))"

definition expected_state :: "(bytes \<Rightarrow> bytes) \<Rightarrow> publication_row_key \<Rightarrow> comparable_publication_state \<Rightarrow> expected_publication_state" where
  "expected_state H key s =
     \<lparr>es_key = key, es_mask = publication_field_mask s, es_fingerprint = fingerprint H (publication_field_mask s) s,
      es_child_height = cs_child_height s, es_child_block_hash = cs_child_block_hash s,
      es_btc_parent_header_hash = cs_btc_parent_header_hash s\<rparr>"

definition publication_state_from_record ::
  "bitcoin_lib \<Rightarrow> address_lib \<Rightarrow> (bytes \<Rightarrow> bytes) \<Rightarrow> historical_chain_spec \<Rightarrow> csv_layout \<Rightarrow> csv_record \<Rightarrow> bool \<Rightarrow>
     (skip_reason, expected_publication_state) result" where
  "publication_state_from_record L A H spec layout r invalid_observation =
     (if map_option str_trim (cell layout r ''chain'') \<noteq> Some (hs_chain spec) then Inl SkipMalformed
      else rbind (comparable_state_from_record L A H spec layout r invalid_observation) (\<lambda>s.
      rbind (publication_row_key_from_record spec layout r) (\<lambda>key. Inr (expected_state H key s))))"

section \<open>Stored rows\<close>

record historical_publication_state_row =
  sr_event_id :: int
  sr_chain :: string
  sr_source_kind :: string
  sr_source_path :: string
  sr_source_row_number :: int
  sr_artifact_scope :: string
  sr_provenance :: string
  sr_classification :: string
  sr_btc_height :: "int option"
  sr_validation_status :: "string option"
  sr_btc_stale_relevance :: "string option"
  sr_relevance_reason :: "string option"
  sr_child_height :: "int option"
  sr_child_block_hash :: "bytes option"
  sr_child_header_sha256 :: "bytes option"
  sr_child_block_time :: "int option"
  sr_child_nbits :: "int option"
  sr_pow_validates_child_target :: "bool option"
  sr_btc_parent_header_hash :: bytes
  sr_btc_parent_prev_header_hash :: bytes
  sr_btc_parent_header_time :: int
  sr_btc_parent_coinbase_txid :: "bytes option"
  sr_btc_parent_coinbase_script_sha256 :: "bytes option"
  sr_btc_parent_coinbase_outputs_sha256 :: "bytes option"
  sr_btc_parent_coinbase_outputs_text_sha256 :: "bytes option"
  sr_btc_parent_coinbase_tx_sha256 :: "bytes option"
  sr_rsk_block_hash :: "bytes option"
  sr_rsk_height :: "int option"
  sr_rsk_is_uncle :: "bool option"
  sr_rsk_uncle_index :: "int option"
  sr_rsk_uncle_parent_height :: "int option"
  sr_rsk_miner :: "bytes option"
  sr_rsk_merge_mining_hash :: "bytes option"
  sr_rsk_merkle_proof_sha256 :: "bytes option"
  sr_rsk_coinbase_tail_sha256 :: "bytes option"
  sr_rsk_proof_format :: "string option"
  sr_invalid_block_reason :: "string option"

definition required_array32 :: "bytes \<Rightarrow> string \<Rightarrow> (string, bytes) result" where
  "required_array32 value field = (if length value = 32 then Inr value else Inl (''stored '' @ field @ '' is not 32 bytes''))"

definition stored_option_array32 :: "bytes option \<Rightarrow> string \<Rightarrow> (string, bytes option) result" where
  "stored_option_array32 value field = (case value of None \<Rightarrow> Inr None | Some v \<Rightarrow> rbind (required_array32 v field) (\<lambda>a. Inr (Some a)))"

definition stored_rsk :: "historical_publication_state_row \<Rightarrow> (string, comparable_rsk_state option) result" where
  "stored_rsk row =
     (case sr_rsk_block_hash row of
        Some raw \<Rightarrow>
          rbind (required_array32 raw ''rsk_block_hash'') (\<lambda>block_hash.
          rbind (ok_or ''stored RSK row has no height'' (sr_rsk_height row)) (\<lambda>height.
          rbind (ok_or ''stored RSK row has no uncle flag'' (sr_rsk_is_uncle row)) (\<lambda>is_uncle.
          rbind (ok_or ''stored RSK row has no miner'' (sr_rsk_miner row)) (\<lambda>miner.
          rbind (rbind (ok_or ''stored RSK row has no merge-mining hash'' (sr_rsk_merge_mining_hash row))
            (\<lambda>h. required_array32 h ''rsk_merge_mining_hash'')) (\<lambda>merge_mining_hash.
          rbind (stored_option_array32 (sr_rsk_merkle_proof_sha256 row) ''rsk_merkle_proof_sha256'') (\<lambda>merkle_proof.
          rbind (stored_option_array32 (sr_rsk_coinbase_tail_sha256 row) ''rsk_coinbase_tail_sha256'') (\<lambda>coinbase_tail.
          rbind (ok_or ''stored RSK row has no proof format'' (sr_rsk_proof_format row)) (\<lambda>proof_format.
          Inr (Some \<lparr>cr_block_hash = block_hash, cr_height = height, cr_is_uncle = is_uncle, cr_uncle_index = sr_rsk_uncle_index row,
            cr_uncle_parent_height = sr_rsk_uncle_parent_height row, cr_miner = miner, cr_merge_mining_hash = merge_mining_hash,
            cr_merkle_proof_sha256 = merkle_proof, cr_coinbase_tail_sha256 = coinbase_tail, cr_proof_format = proof_format\<rparr>)))))))))
      | None \<Rightarrow>
          if sr_rsk_height row = None \<and> sr_rsk_is_uncle row = None \<and> sr_rsk_uncle_index row = None \<and>
             sr_rsk_uncle_parent_height row = None \<and> sr_rsk_miner row = None \<and> sr_rsk_merge_mining_hash row = None \<and>
             sr_rsk_merkle_proof_sha256 row = None \<and> sr_rsk_coinbase_tail_sha256 row = None \<and> sr_rsk_proof_format row = None
          then Inr None else Inl ''stored publication row has a partial RSK sidecar'')"

definition from_stored :: "historical_publication_state_row \<Rightarrow> (string, comparable_publication_state) result" where
  "from_stored row =
     rbind (stored_rsk row) (\<lambda>rsk.
     rbind (stored_option_array32 (sr_child_block_hash row) ''child_block_hash'') (\<lambda>child_block_hash.
     rbind (stored_option_array32 (sr_child_header_sha256 row) ''child_header_sha256'') (\<lambda>child_header_sha256.
     rbind (required_array32 (sr_btc_parent_header_hash row) ''btc_parent_header_hash'') (\<lambda>header_hash.
     rbind (required_array32 (sr_btc_parent_prev_header_hash row) ''btc_parent_prev_header_hash'') (\<lambda>prev_hash.
     rbind (stored_option_array32 (sr_btc_parent_coinbase_txid row) ''btc_parent_coinbase_txid'') (\<lambda>txid.
     rbind (stored_option_array32 (sr_btc_parent_coinbase_script_sha256 row) ''btc_parent_coinbase_script_sha256'') (\<lambda>script.
     rbind (stored_option_array32 (sr_btc_parent_coinbase_outputs_sha256 row) ''btc_parent_coinbase_outputs_sha256'') (\<lambda>outputs.
     rbind (stored_option_array32 (sr_btc_parent_coinbase_outputs_text_sha256 row) ''btc_parent_coinbase_outputs_text_sha256'') (\<lambda>text_hash.
     rbind (stored_option_array32 (sr_btc_parent_coinbase_tx_sha256 row) ''btc_parent_coinbase_tx_sha256'') (\<lambda>tx.
     Inr \<lparr>cs_source_kind = sr_source_kind row, cs_artifact_scope = sr_artifact_scope row, cs_provenance = sr_provenance row,
       cs_classification = sr_classification row, cs_btc_height = sr_btc_height row,
       cs_validation_status = sr_validation_status row, cs_btc_stale_relevance = sr_btc_stale_relevance row,
       cs_relevance_reason = sr_relevance_reason row, cs_child_height = sr_child_height row, cs_child_block_hash = child_block_hash,
       cs_child_header_sha256 = child_header_sha256, cs_child_block_time = sr_child_block_time row, cs_child_nbits = sr_child_nbits row,
       cs_pow_validates_child_target = sr_pow_validates_child_target row, cs_btc_parent_header_hash = header_hash,
       cs_btc_parent_prev_header_hash = prev_hash, cs_btc_parent_header_time = sr_btc_parent_header_time row,
       cs_btc_parent_coinbase_txid = txid, cs_btc_parent_coinbase_script_sha256 = script, cs_btc_parent_coinbase_outputs_sha256 = outputs,
       cs_btc_parent_coinbase_outputs_text_sha256 = text_hash, cs_btc_parent_coinbase_tx_sha256 = tx, cs_rsk = rsk,
       cs_invalid_block_reason = sr_invalid_block_reason row\<rparr>))))))))))"

end
