(* ===== verification/Historical_Fingerprint.thy ===== *)
theory Historical_Fingerprint
  imports Historical_Publication
begin

text \<open>
  What the fingerprint of a publication row compares.  The encoders of \<open>csv_source/publication_state.rs\<close> are
  self-delimiting (the locale \<open>self_delimiting\<close>, which \<open>optional_field\<close> extends to optional values and which is
  interpreted on the four of them), so that equal inputs of the hash mean equal fields.
\<close>

section \<open>Self-delimiting fields\<close>

text \<open>An encoder whose output tells where it ends, on the values that it is used for.\<close>

locale self_delimiting =
  fixes enc :: "'a \<Rightarrow> bytes"
    and ok :: "'a \<Rightarrow> bool"
  assumes cancel: "ok x \<Longrightarrow> ok y \<Longrightarrow> enc x @ r = enc y @ s \<Longrightarrow> x = y"
begin

lemma injective: "ok x \<Longrightarrow> ok y \<Longrightarrow> enc x = enc y \<longleftrightarrow> x = y"
  using cancel [of x y "[]" "[]"] by auto

lemma delimited: "ok x \<Longrightarrow> ok y \<Longrightarrow> enc x @ r = enc y @ s \<Longrightarrow> enc x = enc y"
  using cancel by blast

end

text \<open>An optional field is its presence followed by its value.\<close>

locale optional_field = self_delimiting

sublocale optional_field \<subseteq> opt: self_delimiting "push_option enc" "pred_option ok"
proof
  fix x y r s
  assume "pred_option ok x" "pred_option ok y" "push_option enc x @ r = push_option enc y @ s"
  then show "x = y"
    by (cases x; cases y) (auto simp: push_option_def push_bool_def dest: cancel)
qed

lemma be_bytes_length [simp]: "length (be_bytes n v) = n"
  by (simp add: be_bytes_def)

lemma be_bytes_inj: "be_bytes n v = be_bytes n w \<Longrightarrow> v < 256 ^ n \<Longrightarrow> w < 256 ^ n \<Longrightarrow> v = w"
  by (metis be_bytes_def le_nat_le_bytes rev_rev_ident)

interpretation field_bytes: optional_field push_bytes "\<lambda>v. length v < 2 ^ 64"
proof
  fix x y r s :: bytes
  assume l: "length x < 2 ^ 64" "length y < 2 ^ 64" and e: "push_bytes x @ r = push_bytes y @ s"
  then have "be_bytes 8 (length x) = be_bytes 8 (length y)" "x @ r = y @ s"
    by (simp_all add: push_bytes_def)
  moreover from this(1) have "length x = length y" by (rule be_bytes_inj) (use l in simp_all)
  ultimately show "x = y" by simp
qed

lemma be_int_inj:
  assumes "be_bytes n (nat (x mod 256 ^ n)) @ r = be_bytes n (nat (y mod 256 ^ n)) @ s"
  shows "x mod 256 ^ n = y mod (256 ^ n :: int)"
proof -
  have "nat (x mod 256 ^ n) = nat (y mod 256 ^ n)"
    using assms by (intro be_bytes_inj [of n]) (simp_all add: nat_less_iff)
  moreover have "0 \<le> x mod 256 ^ n" "0 \<le> y mod 256 ^ n" by simp_all
  ultimately show ?thesis by (simp only: eq_nat_nat_iff)
qed

lemma mod_eq_small: "x mod m = y mod m \<Longrightarrow> \<bar>x - y\<bar> < m \<Longrightarrow> x = y" for x y m :: int
  using dvd_imp_le_int [of "x - y" m] by (auto simp: mod_eq_dvd_iff)

interpretation field_i32: optional_field push_i32 i32_ok
proof
  fix x y :: int and r s
  assume "i32_ok x" "i32_ok y" "push_i32 x @ r = push_i32 y @ s"
  then have "x mod 256 ^ 4 = y mod 256 ^ 4" "i32_ok x" "i32_ok y" using be_int_inj [of 4 x r y s] by (simp_all add: push_i32_def)
  then show "x = y" by (intro mod_eq_small [of x "256 ^ 4"]) (simp_all add: i32_ok_def abs_less_iff)
qed

interpretation field_i64: optional_field push_i64 i64_ok
proof
  fix x y :: int and r s
  assume "i64_ok x" "i64_ok y" "push_i64 x @ r = push_i64 y @ s"
  then have "x mod 256 ^ 8 = y mod 256 ^ 8" "i64_ok x" "i64_ok y" using be_int_inj [of 8 x r y s] by (simp_all add: push_i64_def)
  then show "x = y" by (intro mod_eq_small [of x "256 ^ 8"]) (simp_all add: i64_ok_def abs_less_iff)
qed

interpretation field_bool: optional_field push_bool "\<lambda>_. True"
  by unfold_locales (simp add: push_bool_def split: if_split_asm)

text \<open>Two segments that no continuation can confuse.\<close>

definition delimits :: "bytes \<Rightarrow> bytes \<Rightarrow> bool" where
  "delimits x y \<longleftrightarrow> (\<forall>r s. x @ r = y @ s \<longrightarrow> x = y)"

lemma concat_delimited:
  "list_all2 delimits xs ys \<Longrightarrow> concat xs @ r = concat ys @ s \<Longrightarrow> xs = ys"
proof (induction xs ys arbitrary: r s rule: list_all2_induct)
  case (Cons x xs y ys)
  then have e: "x @ concat xs @ r = y @ concat ys @ s" by simp
  with Cons(1) have xy: "x = y" unfolding delimits_def by (elim allE impE)
  with e have "concat xs @ r = concat ys @ s" by simp
  from Cons(3) [OF this] xy show ?case by simp
qed simp

lemma delimitsI: "(\<And>r s. x @ r = y @ s \<Longrightarrow> x = y) \<Longrightarrow> delimits x y"
  by (simp add: delimits_def)

lemma delimits_concat: "list_all2 delimits xs ys \<Longrightarrow> delimits (concat xs) (concat ys)"
  by (rule delimitsI) (drule concat_delimited, assumption, simp)

lemma delimits_if_masked: "delimits x y \<Longrightarrow> delimits (if_masked b x) (if_masked b y)"
  by (simp add: if_masked_def delimits_def)

lemmas delimits_fields =
  delimitsI [OF field_bytes.delimited] delimitsI [OF field_i32.delimited] delimitsI [OF field_i64.delimited]
  delimitsI [OF field_bool.delimited, OF TrueI TrueI]
  delimitsI [OF field_bytes.opt.delimited, folded push_option_bytes_def] delimitsI [OF field_i32.opt.delimited, folded push_option_i32_def]
  delimitsI [OF field_i64.opt.delimited, folded push_option_i64_def]
  delimitsI [OF field_bool.opt.delimited, folded push_option_bool_def, simplified option.pred_True, OF TrueI TrueI]

lemmas equal_fields =
  field_bytes.injective field_i32.injective field_i64.injective field_bool.injective [OF TrueI TrueI]
  field_bytes.opt.injective [folded push_option_bytes_def] field_i32.opt.injective [folded push_option_i32_def]
  field_i64.opt.injective [folded push_option_i64_def]
  field_bool.opt.injective [folded push_option_bool_def, simplified option.pred_True, OF TrueI TrueI]

section \<open>The mask\<close>

lemma mask_includes_bit: "n < 16 \<Longrightarrow> mask_includes m (field_bit n) \<longleftrightarrow> bit m n"
proof -
  assume n: "n < 16"
  have "mask_includes m (field_bit n) \<longleftrightarrow> (\<exists>k. bit (and m (field_bit n)) k)"
    unfolding mask_includes_def using bit_eq_iff [of "and m (field_bit n)" 0] by auto
  then show ?thesis using n by (auto simp: field_bit_def bit_simps dest: bit_imp_le_length)
qed

lemma bit_set_if: "n < 16 \<Longrightarrow> bit (set_if m (field_bit k) p) n \<longleftrightarrow> bit m n \<or> (p \<and> n = k)"
  by (auto simp: set_if_def field_bit_def bit_simps)

lemma fold_set_if:
  "n < 16 \<Longrightarrow> bit (fold (\<lambda>(n, p) m. set_if m (field_bit n) p) (zip [k..<k + length ps] ps) m) n \<longleftrightarrow>
     bit m n \<or> (k \<le> n \<and> n < k + length ps \<and> ps ! (n - k))"
proof (induction ps arbitrary: k m)
  case (Cons p ps)
  have z: "zip [k..<k + length (p # ps)] (p # ps) = (k, p) # zip [Suc k..<Suc k + length ps] ps"
    by (subst upt_conv_Cons) (simp_all del: upt_Suc)
  show ?case unfolding z using Cons.IH [OF Cons.prems, where k = "Suc k" and m = "set_if m (field_bit k) p"] Cons.prems
    by (cases "n = k") (auto simp: bit_set_if nth_Cons' Suc_le_eq)
qed auto

lemma present_fields_length [simp]: "length (present_fields e) = 14"
  by (simp add: present_fields_def)

lemma mask_present: "n < 14 \<Longrightarrow> mask_includes (publication_field_mask e) (field_bit n) \<longleftrightarrow> present_fields e ! n"
  using fold_set_if [of n 0 "present_fields e" 0] by (simp add: mask_includes_bit publication_field_mask_def)

lemma mask_fields:
  "mask_includes (publication_field_mask e) (field_bit 0) \<longleftrightarrow> cs_child_height e \<noteq> None"
  "mask_includes (publication_field_mask e) (field_bit 1) \<longleftrightarrow> cs_child_block_hash e \<noteq> None"
  "mask_includes (publication_field_mask e) (field_bit 2) \<longleftrightarrow> cs_child_header_sha256 e \<noteq> None"
  "mask_includes (publication_field_mask e) (field_bit 3) \<longleftrightarrow> cs_child_block_time e \<noteq> None"
  "mask_includes (publication_field_mask e) (field_bit 4) \<longleftrightarrow> cs_child_nbits e \<noteq> None"
  "mask_includes (publication_field_mask e) (field_bit 5) \<longleftrightarrow> cs_pow_validates_child_target e \<noteq> None"
  "mask_includes (publication_field_mask e) (field_bit 6) \<longleftrightarrow> cs_btc_parent_coinbase_txid e \<noteq> None"
  "mask_includes (publication_field_mask e) (field_bit 7) \<longleftrightarrow> cs_btc_parent_coinbase_script_sha256 e \<noteq> None"
  "mask_includes (publication_field_mask e) (field_bit 8) \<longleftrightarrow> cs_btc_parent_coinbase_outputs_sha256 e \<noteq> None"
  "mask_includes (publication_field_mask e) (field_bit 9) \<longleftrightarrow> cs_btc_parent_coinbase_outputs_text_sha256 e \<noteq> None"
  "mask_includes (publication_field_mask e) (field_bit 10) \<longleftrightarrow> cs_btc_parent_coinbase_tx_sha256 e \<noteq> None"
  "mask_includes (publication_field_mask e) (field_bit 11) \<longleftrightarrow> (case cs_rsk e of Some rsk \<Rightarrow> cr_merkle_proof_sha256 rsk \<noteq> None | None \<Rightarrow> False)"
  "mask_includes (publication_field_mask e) (field_bit 12) \<longleftrightarrow> (case cs_rsk e of Some rsk \<Rightarrow> cr_coinbase_tail_sha256 rsk \<noteq> None | None \<Rightarrow> False)"
  "mask_includes (publication_field_mask e) (field_bit 13) \<longleftrightarrow> cs_invalid_block_reason e \<noteq> None"
  by (simp_all add: mask_present present_fields_def)

section \<open>Agreement\<close>

text \<open>The integers of a state are in range and its texts are of a length that fits the encoding.\<close>

definition rsk_in_range :: "comparable_rsk_state \<Rightarrow> bool" where
  "rsk_in_range r \<longleftrightarrow> i32_ok (cr_height r) \<and> pred_option i32_ok (cr_uncle_index r) \<and> pred_option i32_ok (cr_uncle_parent_height r) \<and>
     length (cr_block_hash r) < 2 ^ 64 \<and> length (cr_miner r) < 2 ^ 64 \<and> length (cr_merge_mining_hash r) < 2 ^ 64 \<and>
     length (cr_proof_format r) < 2 ^ 64 \<and> pred_option (\<lambda>v. length v < 2 ^ 64) (cr_merkle_proof_sha256 r) \<and>
     pred_option (\<lambda>v. length v < 2 ^ 64) (cr_coinbase_tail_sha256 r)"

definition state_in_range :: "comparable_publication_state \<Rightarrow> bool" where
  "state_in_range s \<longleftrightarrow> length (cs_source_kind s) < 2 ^ 64 \<and> length (cs_artifact_scope s) < 2 ^ 64 \<and> length (cs_provenance s) < 2 ^ 64 \<and>
     length (cs_classification s) < 2 ^ 64 \<and> pred_option i32_ok (cs_btc_height s) \<and>
     pred_option (\<lambda>v. length v < 2 ^ 64) (cs_validation_status s) \<and> pred_option (\<lambda>v. length v < 2 ^ 64) (cs_btc_stale_relevance s) \<and>
     pred_option (\<lambda>v. length v < 2 ^ 64) (cs_relevance_reason s) \<and> pred_option i32_ok (cs_child_height s) \<and>
     pred_option (\<lambda>v. length v < 2 ^ 64) (cs_child_block_hash s) \<and> pred_option (\<lambda>v. length v < 2 ^ 64) (cs_child_header_sha256 s) \<and>
     pred_option i64_ok (cs_child_block_time s) \<and> pred_option i64_ok (cs_child_nbits s) \<and>
     length (cs_btc_parent_header_hash s) < 2 ^ 64 \<and> length (cs_btc_parent_prev_header_hash s) < 2 ^ 64 \<and>
     i64_ok (cs_btc_parent_header_time s) \<and> pred_option (\<lambda>v. length v < 2 ^ 64) (cs_btc_parent_coinbase_txid s) \<and>
     pred_option (\<lambda>v. length v < 2 ^ 64) (cs_btc_parent_coinbase_script_sha256 s) \<and>
     pred_option (\<lambda>v. length v < 2 ^ 64) (cs_btc_parent_coinbase_outputs_sha256 s) \<and>
     pred_option (\<lambda>v. length v < 2 ^ 64) (cs_btc_parent_coinbase_outputs_text_sha256 s) \<and>
     pred_option (\<lambda>v. length v < 2 ^ 64) (cs_btc_parent_coinbase_tx_sha256 s) \<and> pred_option rsk_in_range (cs_rsk s) \<and>
     pred_option (\<lambda>v. length v < 2 ^ 64) (cs_invalid_block_reason s)"

text \<open>A field that the publication leaves out may be anything in the database.\<close>

definition unless_absent :: "'a option \<Rightarrow> 'a option \<Rightarrow> bool" where
  "unless_absent published stored \<longleftrightarrow> published = None \<or> published = stored"

definition rsk_agrees :: "comparable_rsk_state \<Rightarrow> comparable_rsk_state \<Rightarrow> bool" where
  "rsk_agrees e s \<longleftrightarrow> cr_block_hash e = cr_block_hash s \<and> cr_height e = cr_height s \<and> cr_is_uncle e = cr_is_uncle s \<and>
     cr_uncle_index e = cr_uncle_index s \<and> cr_uncle_parent_height e = cr_uncle_parent_height s \<and> cr_miner e = cr_miner s \<and>
     cr_merge_mining_hash e = cr_merge_mining_hash s \<and> cr_proof_format e = cr_proof_format s \<and>
     unless_absent (cr_merkle_proof_sha256 e) (cr_merkle_proof_sha256 s) \<and> unless_absent (cr_coinbase_tail_sha256 e) (cr_coinbase_tail_sha256 s)"

definition published_agrees :: "comparable_publication_state \<Rightarrow> comparable_publication_state \<Rightarrow> bool" where
  "published_agrees e s \<longleftrightarrow> cs_source_kind e = cs_source_kind s \<and> cs_artifact_scope e = cs_artifact_scope s \<and>
     cs_provenance e = cs_provenance s \<and> cs_classification e = cs_classification s \<and> cs_btc_height e = cs_btc_height s \<and>
     cs_validation_status e = cs_validation_status s \<and> cs_btc_stale_relevance e = cs_btc_stale_relevance s \<and>
     cs_relevance_reason e = cs_relevance_reason s \<and> cs_btc_parent_header_hash e = cs_btc_parent_header_hash s \<and>
     cs_btc_parent_prev_header_hash e = cs_btc_parent_prev_header_hash s \<and> cs_btc_parent_header_time e = cs_btc_parent_header_time s \<and>
     unless_absent (cs_invalid_block_reason e) (cs_invalid_block_reason s) \<and> unless_absent (cs_child_height e) (cs_child_height s) \<and>
     unless_absent (cs_child_block_hash e) (cs_child_block_hash s) \<and> unless_absent (cs_child_header_sha256 e) (cs_child_header_sha256 s) \<and>
     unless_absent (cs_child_block_time e) (cs_child_block_time s) \<and> unless_absent (cs_child_nbits e) (cs_child_nbits s) \<and>
     unless_absent (cs_pow_validates_child_target e) (cs_pow_validates_child_target s) \<and>
     unless_absent (cs_btc_parent_coinbase_txid e) (cs_btc_parent_coinbase_txid s) \<and>
     unless_absent (cs_btc_parent_coinbase_script_sha256 e) (cs_btc_parent_coinbase_script_sha256 s) \<and>
     unless_absent (cs_btc_parent_coinbase_outputs_sha256 e) (cs_btc_parent_coinbase_outputs_sha256 s) \<and>
     unless_absent (cs_btc_parent_coinbase_outputs_text_sha256 e) (cs_btc_parent_coinbase_outputs_text_sha256 s) \<and>
     unless_absent (cs_btc_parent_coinbase_tx_sha256 e) (cs_btc_parent_coinbase_tx_sha256 s) \<and>
     (case (cs_rsk e, cs_rsk s) of (None, None) \<Rightarrow> True | (Some a, Some b) \<Rightarrow> rsk_agrees a b | _ \<Rightarrow> False)"

lemma unless_absent_iff: "(published \<noteq> None \<longrightarrow> published = stored) \<longleftrightarrow> unless_absent published stored"
  by (auto simp: unless_absent_def)

lemma str_bytes_inj [simp]: "str_bytes a = str_bytes b \<longleftrightarrow> a = b"
proof -
  have "(word_of_nat (of_char c) :: u8) = word_of_nat (of_char d) \<Longrightarrow> c = d" for c d
  proof -
    assume "(word_of_nat (of_char c) :: u8) = word_of_nat (of_char d)"
    then have "unat (word_of_nat (of_char c) :: u8) = unat (word_of_nat (of_char d) :: u8)" by simp
    moreover have "of_char c < (256 :: nat)" "of_char d < (256 :: nat)" by simp_all
    ultimately show "c = d" by (simp add: unat_of_nat)
  qed
  then have "inj (\<lambda>c. word_of_nat (of_char c) :: u8)" by (intro injI)
  then show ?thesis unfolding str_bytes_def by (simp add: inj_map_eq_map)
qed

lemma str_bytes_length [simp]: "length (str_bytes s) = length s"
  by (simp add: str_bytes_def)

lemma pred_option_map_str [simp]: "pred_option (\<lambda>v. length v < n) (map_option str_bytes x) \<longleftrightarrow> pred_option (\<lambda>v. length v < n) x"
  by (cases x) simp_all

lemma map_option_str_inj: "map_option str_bytes x = map_option str_bytes y \<longleftrightarrow> x = y"
  by (cases x; cases y) simp_all

lemma if_masked_eq: "if_masked b x = if_masked b y \<longleftrightarrow> (b \<longrightarrow> x = y)"
  by (simp add: if_masked_def)

lemma rsk_delimits:
  assumes "pred_option rsk_in_range x" "pred_option rsk_in_range y"
  shows "delimits (rsk_segments mk x) (rsk_segments mk y)"
proof (cases x; cases y)
  fix a b assume xy: "x = Some a" "y = Some b"
  have segs: "rsk_segments mk (Some c) = concat (push_bool True # [push_bytes (cr_block_hash c), push_i32 (cr_height c), push_bool (cr_is_uncle c),
          push_option_i32 (cr_uncle_index c), push_option_i32 (cr_uncle_parent_height c), push_bytes (cr_miner c),
          push_bytes (cr_merge_mining_hash c), push_bytes (str_bytes (cr_proof_format c)),
          if_masked (mask_includes mk (field_bit 11)) (push_option_array (cr_merkle_proof_sha256 c)),
          if_masked (mask_includes mk (field_bit 12)) (push_option_array (cr_coinbase_tail_sha256 c))])" for c
    by (simp add: rsk_segments_def)
  show ?thesis
    unfolding xy segs by (rule delimits_concat)
      (use assms in \<open>simp add: xy rsk_in_range_def delimits_fields delimits_if_masked push_option_array_def\<close>)
qed (auto simp: rsk_segments_def delimits_def push_bool_def)

lemma rsk_equal:
  assumes "rsk_in_range a" "rsk_in_range b"
  shows "rsk_segments mk (Some a) = rsk_segments mk (Some b) \<longleftrightarrow>
    cr_block_hash a = cr_block_hash b \<and> cr_height a = cr_height b \<and> cr_is_uncle a = cr_is_uncle b \<and>
    cr_uncle_index a = cr_uncle_index b \<and> cr_uncle_parent_height a = cr_uncle_parent_height b \<and> cr_miner a = cr_miner b \<and>
    cr_merge_mining_hash a = cr_merge_mining_hash b \<and> cr_proof_format a = cr_proof_format b \<and>
    (mask_includes mk (field_bit 11) \<longrightarrow> cr_merkle_proof_sha256 a = cr_merkle_proof_sha256 b) \<and>
    (mask_includes mk (field_bit 12) \<longrightarrow> cr_coinbase_tail_sha256 a = cr_coinbase_tail_sha256 b)"
proof -
  let ?f = "\<lambda>c. [push_bytes (cr_block_hash c), push_i32 (cr_height c), push_bool (cr_is_uncle c),
          push_option_i32 (cr_uncle_index c), push_option_i32 (cr_uncle_parent_height c), push_bytes (cr_miner c),
          push_bytes (cr_merge_mining_hash c), push_bytes (str_bytes (cr_proof_format c)),
          if_masked (mask_includes mk (field_bit 11)) (push_option_array (cr_merkle_proof_sha256 c)),
          if_masked (mask_includes mk (field_bit 12)) (push_option_array (cr_coinbase_tail_sha256 c))]"
  have "list_all2 delimits (?f a) (?f b)"
    using assms by (simp add: rsk_in_range_def delimits_fields delimits_if_masked push_option_array_def)
  then have "concat (?f a) = concat (?f b) \<longleftrightarrow> ?f a = ?f b" using concat_delimited [of "?f a" "?f b" "[]" "[]"] by fastforce
  then have "rsk_segments mk (Some a) = rsk_segments mk (Some b) \<longleftrightarrow> ?f a = ?f b" by (simp only: rsk_segments_def option.case same_append_eq)
  then show ?thesis using assms
    by (simp add: rsk_in_range_def equal_fields if_masked_eq push_option_array_def)
qed

lemma segments_delimits:
  assumes "state_in_range a" "state_in_range b"
  shows "list_all2 delimits (fingerprint_segments mk a) (fingerprint_segments mk b)"
  using assms unfolding fingerprint_segments_def state_in_range_def
  by (simp add: delimits_fields delimits_if_masked push_option_array_def rsk_delimits)

lemma segments_equal:
  assumes "state_in_range e" "state_in_range s"
  shows "fingerprint_segments (publication_field_mask e) e = fingerprint_segments (publication_field_mask e) s \<longleftrightarrow>
    cs_source_kind e = cs_source_kind s \<and> cs_artifact_scope e = cs_artifact_scope s \<and>
     cs_provenance e = cs_provenance s \<and> cs_classification e = cs_classification s \<and> cs_btc_height e = cs_btc_height s \<and>
     cs_validation_status e = cs_validation_status s \<and> cs_btc_stale_relevance e = cs_btc_stale_relevance s \<and>
     cs_relevance_reason e = cs_relevance_reason s \<and> cs_btc_parent_header_hash e = cs_btc_parent_header_hash s \<and>
     cs_btc_parent_prev_header_hash e = cs_btc_parent_prev_header_hash s \<and> cs_btc_parent_header_time e = cs_btc_parent_header_time s \<and>
     (cs_invalid_block_reason e \<noteq> None \<longrightarrow> cs_invalid_block_reason e = cs_invalid_block_reason s) \<and>
     (cs_child_height e \<noteq> None \<longrightarrow> cs_child_height e = cs_child_height s) \<and>
     (cs_child_block_hash e \<noteq> None \<longrightarrow> cs_child_block_hash e = cs_child_block_hash s) \<and>
     (cs_child_header_sha256 e \<noteq> None \<longrightarrow> cs_child_header_sha256 e = cs_child_header_sha256 s) \<and>
     (cs_child_block_time e \<noteq> None \<longrightarrow> cs_child_block_time e = cs_child_block_time s) \<and>
     (cs_child_nbits e \<noteq> None \<longrightarrow> cs_child_nbits e = cs_child_nbits s) \<and>
     (cs_pow_validates_child_target e \<noteq> None \<longrightarrow> cs_pow_validates_child_target e = cs_pow_validates_child_target s) \<and>
     (cs_btc_parent_coinbase_txid e \<noteq> None \<longrightarrow> cs_btc_parent_coinbase_txid e = cs_btc_parent_coinbase_txid s) \<and>
     (cs_btc_parent_coinbase_script_sha256 e \<noteq> None \<longrightarrow> cs_btc_parent_coinbase_script_sha256 e = cs_btc_parent_coinbase_script_sha256 s) \<and>
     (cs_btc_parent_coinbase_outputs_sha256 e \<noteq> None \<longrightarrow> cs_btc_parent_coinbase_outputs_sha256 e = cs_btc_parent_coinbase_outputs_sha256 s) \<and>
     (cs_btc_parent_coinbase_outputs_text_sha256 e \<noteq> None \<longrightarrow>
        cs_btc_parent_coinbase_outputs_text_sha256 e = cs_btc_parent_coinbase_outputs_text_sha256 s) \<and>
     (cs_btc_parent_coinbase_tx_sha256 e \<noteq> None \<longrightarrow> cs_btc_parent_coinbase_tx_sha256 e = cs_btc_parent_coinbase_tx_sha256 s) \<and>
     rsk_segments (publication_field_mask e) (cs_rsk e) = rsk_segments (publication_field_mask e) (cs_rsk s)"
  using assms unfolding fingerprint_segments_def state_in_range_def mask_fields
  by (simp only: list.inject if_masked_eq push_option_array_def equal_fields str_bytes_inj str_bytes_length map_option_str_inj
      pred_option_map_str conj_assoc simp_thms)

lemma rsk_segments_agree:
  assumes "state_in_range e" "state_in_range s"
  shows "rsk_segments (publication_field_mask e) (cs_rsk e) = rsk_segments (publication_field_mask e) (cs_rsk s) \<longleftrightarrow>
      (case (cs_rsk e, cs_rsk s) of (None, None) \<Rightarrow> True | (Some a, Some b) \<Rightarrow> rsk_agrees a b | _ \<Rightarrow> False)"
proof (cases "cs_rsk e"; cases "cs_rsk s")
  fix a b assume ab: "cs_rsk e = Some a" "cs_rsk s = Some b"
  then have "rsk_in_range a" "rsk_in_range b" using assms by (simp_all add: state_in_range_def)
  then show ?thesis using rsk_equal [of a b "publication_field_mask e"]
    by (simp only: ab mask_fields option.case prod.case rsk_agrees_def unless_absent_iff)
qed (simp_all add: rsk_segments_def push_bool_def)

lemma segments_agree:
  assumes "state_in_range e" "state_in_range s"
  shows "fingerprint_segments (publication_field_mask e) e = fingerprint_segments (publication_field_mask e) s \<longleftrightarrow> published_agrees e s"
  unfolding segments_equal [OF assms] rsk_segments_agree [OF assms] unless_absent_iff published_agrees_def ..

text \<open>C38: A fingerprint compares exactly what is published.  With integers and lengths in range, the stored state of a row
  matches a published one if and only if it has the same always-published fields and the same value for every optional
  field that the publication gives (a field that it leaves out may have been filled in since), unless the two different
  byte strings that are hashed collide.\<close>

theorem fingerprint_compares_published:
  fixes e s :: comparable_publication_state
  defines "a \<equiv> concat (fingerprint_segments (publication_field_mask e) e)"
    and "b \<equiv> concat (fingerprint_segments (publication_field_mask e) s)"
  assumes "state_in_range e" and "state_in_range s"
  shows "state_matches H (expected_state H key e) s \<longleftrightarrow> published_agrees e s \<or> (a \<noteq> b \<and> H a = H b)"
proof -
  have "a = b \<longleftrightarrow> published_agrees e s"
    unfolding a_def b_def
    using concat_delimited [OF segments_delimits [OF assms(3,4)], of "publication_field_mask e" "[]" "[]"]
      segments_agree [OF assms(3,4)] by auto
  moreover have "state_matches H (expected_state H key e) s \<longleftrightarrow> H a = H b"
    by (simp add: state_matches_def expected_state_def fingerprint_def a_def b_def)
  ultimately show ?thesis by metis
qed

definition demo_published :: comparable_publication_state where
  "demo_published =
     \<lparr>cs_source_kind = ''monitor-evidence'', cs_artifact_scope = ''event'', cs_provenance = ''fixture'',
      cs_classification = ''canonical'', cs_btc_height = Some 700000, cs_validation_status = Some ''VALID'',
      cs_btc_stale_relevance = None, cs_relevance_reason = None, cs_child_height = Some 12, cs_child_block_hash = None,
      cs_child_header_sha256 = None, cs_child_block_time = None, cs_child_nbits = None, cs_pow_validates_child_target = None,
      cs_btc_parent_header_hash = replicate 32 1, cs_btc_parent_prev_header_hash = replicate 32 2,
      cs_btc_parent_header_time = 1700000000, cs_btc_parent_coinbase_txid = None, cs_btc_parent_coinbase_script_sha256 = None,
      cs_btc_parent_coinbase_outputs_sha256 = None, cs_btc_parent_coinbase_outputs_text_sha256 = None,
      cs_btc_parent_coinbase_tx_sha256 = None, cs_rsk = None, cs_invalid_block_reason = None\<rparr>"

text \<open>The database has filled in a block time; another row has another height.\<close>

definition demo_enriched :: comparable_publication_state where
  "demo_enriched = demo_published\<lparr>cs_child_block_time := Some 1700000001\<rparr>"

definition demo_moved :: comparable_publication_state where
  "demo_moved = demo_published\<lparr>cs_child_height := Some 13\<rparr>"

definition demo_key :: publication_row_key where
  "demo_key = \<lparr>rk_chain = ''namecoin'', rk_source_path = ''events.csv'', rk_source_row_number = 1\<rparr>"

lemma demo_states_in_range: "state_in_range demo_published" "state_in_range demo_enriched" "state_in_range demo_moved"
  by (simp_all add: state_in_range_def demo_published_def demo_enriched_def demo_moved_def i32_ok_def i64_ok_def)

theorem fingerprint_compares_published_witness:
  "state_matches (\<lambda>b. b) (expected_state (\<lambda>b. b) demo_key demo_published) demo_enriched \<and>
   \<not> state_matches (\<lambda>b. b) (expected_state (\<lambda>b. b) demo_key demo_published) demo_moved"
  unfolding fingerprint_compares_published [OF demo_states_in_range(1,2)]
    fingerprint_compares_published [OF demo_states_in_range(1,3)]
  by (simp add: published_agrees_def unless_absent_def demo_published_def demo_enriched_def demo_moved_def)

end
