(* ===== verification/Spec2Isabelle.thy ===== *)
theory Spec2Isabelle
  imports AuxPow_Qbit Lineage Relationship Observation Reclassify_Plan Poller_Run Backbone_Run
    Tree_Coverage Tree_Reduction Historical_Fingerprint
begin

text \<open>
  A verification development of the merge-mining monitor, a Rust program that watches blockchains mined
  together with Bitcoin and records, for every child block, the Bitcoin block whose proof of work it
  reuses.

  \<^bold>\<open>The program.\<close>  Producers poll child chains and read raw blocks.  \<open>mmm-capture\<close> parses the
  merge-mining proof of a block, authenticates it against the child hash, and turns it into an event: the
  parent header, what is known of its place in the Bitcoin chain, and the pools it is attributed to.
  \<open>mmm-bitcoin-core\<close> asks a Bitcoin Core node about parents.  \<open>mmm-read-model\<close> keeps one row per Bitcoin
  block, written by events and by Core, reconciles rows when either changes, and cascades to dependents.
  \<open>mmm-producers\<close> runs the loops: the pollers of child chains, and the Bitcoin Core producer that fills the
  canonical rows, advances the contiguous cursor and repairs the rows near the tip after a
  reorganisation.  \<open>mmm-api\<close> shows the result.

  \<^bold>\<open>Proofs of work\<close> (\<open>crates/mmm-capture/src/auxpow\<close>).
  \<open>AuxPow_Reader\<close> models the byte cursor and the wire reader of \<open>reader.rs\<close>, \<open>AuxPow_Verify\<close> and
  \<open>AuxPow_Commitment\<close> the commitment checks of \<open>verify.rs\<close>, \<open>AuxPow_Parse\<close> the parsing of whole blocks
  (\<open>mod.rs\<close>, \<open>classic.rs\<close>, \<open>decode.rs\<close>) and \<open>AuxPow_Qbit\<close> the extended headers of \<open>qbit.rs\<close>.  They show that
  an accepted block meets a specification of the commitment that does not mention the checks (\<open>authenticates\<close>,
  \<open>script_commits\<close>, \<open>proof_commits\<close>), that a marked coinbase commits to one child only, that honest proofs are accepted, and that what is stored decodes to what was parsed.

  \<^bold>\<open>Events\<close> (\<open>crates/mmm-capture/src\<close>).  \<open>Capture\<close> and \<open>Event_Payload\<close> model \<open>capture/mod.rs\<close>,
  \<open>Observation\<close> the rows of \<open>capture/observation.rs\<close>, \<open>Nbits_Table\<close> and \<open>Lineage\<close> the difficulty epochs and
  the lineage of a parent, \<open>Protocol_Commitment\<close>, \<open>Child_Payout\<close>, \<open>Pool_Resolver\<close>, \<open>Attribution_Policy\<close>,
  \<open>Relationship\<close> the decoders, registries and policies around them, and \<open>Reclassify_Plan\<close> the replanning of
  stored attributions.  They show that a kind is only stored with its evidence, that rows satisfy the
  constraints of their table, that lookups are complete and that a relationship summary is exactly what its
  signals say.

  \<^bold>\<open>Core's verdicts\<close> (\<open>crates/mmm-bitcoin-core/src\<close>).  \<open>Parent_Classifier\<close> models every verdict of the
  classifier over an arbitrary node, whose answers may change between calls, and shows what evidence each
  verdict rests on; run on a node that records its errors (\<open>watched\<close>), a live call that returns a verdict has
  met no transient failure.

  \<^bold>\<open>The read model\<close> (\<open>crates/mmm-read-model/src\<close>).  \<open>Read_Model\<close> models the rows, the writers, the
  classification of an event and its reconciliation; \<open>Read_Model_Invariant\<close> shows that they keep the
  constraints of the tables, uncertain verdicts on active, uncatalogued parents keep a placement, coinbase evidence
  is never lost, and a header of Core's chain breaks the constraints exactly when its row was recorded as invalid.
  \<open>Reconcile_Queue\<close> models the cascade over dependents and shows that it returns within its budget and
  keeps the constraints.  \<open>Core_Suffix\<close> models the replacement of a canonical suffix with its status row and
  durable queue (\<open>mutation/core_suffix.rs\<close>, \<open>core_suffix_status.rs\<close>), and \<open>Suffix_Replacement\<close> shows what a
  committed replacement leaves: every replacement canonical at its height, every displaced block stale
  with its competitor, every affected hash queued.

  \<^bold>\<open>The loops\<close> (\<open>crates/mmm-producers/src\<close>).  \<open>Poller\<close> and \<open>Poller_Run\<close> model \<open>poller/mod.rs\<close>: no height is
  left behind and a healthy chain is followed to its tip.  \<open>Backbone\<close> models the Bitcoin Core sync
  (\<open>bitcoin_core_backbone/mod.rs\<close>, \<open>integrity.rs\<close>, \<open>sync_state.rs\<close>), \<open>Reorg_Repair\<close> the repair and the live
  window (\<open>reorg.rs\<close>, \<open>live_window.rs\<close>), \<open>Backbone_Live\<close> a tick and the supervisor (\<open>live.rs\<close>,
  \<open>live_loop.rs\<close>).  \<open>Backbone\<close> shows that the cursor stands at the greatest height proven from genesis;
  \<open>Reorg_Plan\<close> that a plan is exact, that the read model accepts what is planned and that committing it
  removes the conflicts; \<open>Backbone_Run\<close> that over any number of ticks and any answers of the node the
  cursor never moves back and that every tick returns.

  \<^bold>\<open>Trees\<close> (\<open>crates/mmm-api/src/projection\<close>).  \<open>Tree_Window\<close> models the coverage checks
  (\<open>shared/backbone.rs\<close>) and the windows of a request (\<open>tree/window.rs\<close>, \<open>tree/compact.rs\<close>), \<open>Tree_Build\<close> the
  reduction, the stale branches, the edges and the assembly of an answer (\<open>tree/reduction.rs\<close>,
  \<open>tree/build.rs\<close>, \<open>tree/mod.rs\<close>).  \<open>Tree_Coverage\<close> shows that the two coverage checks agree, that what the
  sync has proven is served, and that the default window always is; \<open>Tree_Reduction\<close> that an answer fits its
  limit, hides only linked canonical context, counts what it hides, keeps every parent connected to a shown
  ancestor (except an invalid block whose predecessor is hidden, which the code leaves without one) and shows
  selected stale branches whole.

  \<^bold>\<open>Published rows\<close> (\<open>crates/mmm-producers/src/historical_ingest\<close>).  \<open>Historical_Source\<close> models how a row of a
  published CSV file becomes a candidate for import or a reason to skip it (\<open>csv_source/mod.rs\<close>,
  \<open>candidate.rs\<close>, \<open>parent_coinbase.rs\<close>, \<open>rsk_sidecar.rs\<close>), \<open>Historical_Publication\<close> its publication state and the one
  read back from the database (\<open>publication_state.rs\<close>).  \<open>Historical_Fingerprint\<close> shows that comparing fingerprints
  compares exactly the published fields, up to a collision of the two hashed strings.

  \<^bold>\<open>How the code is modelled.\<close>  Structs are records, enums are datatypes, results are sums with an error
  type of their own, early returns are \<open>rbind\<close>.  Integers are words or integers with the wrap-around,
  saturation or checked operation of the source written out.  A table is the list of its rows in
  insertion order, a statement a function on it, a transaction returns new tables only with its success.
  Loops are recursive functions; those whose end is not structural (\<open>drain_loop\<close>, \<open>core_drain_loop\<close>,
  \<open>repair_loop\<close>, \<open>branch_root\<close>) are partial functions in \<open>option\<close>, where \<open>None\<close> is not returning, and the
  theorems state that they return.  The bounds are the code's own: the cascade budget, the drain batch
  and the two replanning flags; no fuel is added.  Commands that talk to a node thread the node's state, so
  its answers may change from one call to the next.

  \<^bold>\<open>Parameters.\<close>  Code outside the repository is an argument: \<open>bitcoin_lib\<close> (hashes and codecs of
  rust-bitcoin), \<open>address_lib\<close>, \<open>core_client\<close> and \<open>backbone_source\<close> (the node), \<open>chain_poller\<close> (a child chain),
  clocks, jitter and the wording of messages (\<open>be_text\<close>).  What a theorem needs of them is among its
  hypotheses and is shown satisfiable by its witness, which runs the model on the demo values that end
  each theory.

  \<^bold>\<open>Interfaces.\<close>  The locales \<open>self_delimiting\<close> and \<open>optional_field\<close> state what the field encoders of a fingerprint
  promise; \<open>byte_cursor\<close>, \<open>marker_commitment\<close>, \<open>owner_index\<close> and \<open>signal_pool\<close> state what
  the reader, the commitment checks, the identity indexes and the pool objects promise to their clients;
  \<open>backbone_order\<close> and its extension \<open>repair_order\<close> state which orders on the tables the statements of the
  sync and of the repair follow, and carry them to whole ticks.  Each is interpreted on the model's own
  definitions.

  \<^bold>\<open>Not modelled.\<close>  SQL text, locks and isolation levels, network transport, JSON and environment
  decoding, logging, metrics, signals and time stamps of rows are I/O around the modelled code.  The API
  routing, its other projections and the miner columns of a tree node, the manifests and database batches of
  the historical import, the snapshot generators and the chain specific clients (RSK, Hathor) are not
  modelled.  The refresh of the header cache and the drain of the
  relationship summaries are arguments of a tick.
\<close>

end
